(* ===== verification/Prelude.thy ===== *)
theory Prelude
  imports Complex_Main "HOL-Library.AList" "HOL-Library.Char_ord" "HOL-Library.List_Lexorder"
    "HOL-Library.Sublist"
begin

text \<open>
  What every component of the development shares: the result type of a fallible Go
  function and its sequencing, Go maps as association lists, and the collections of
  rewrite rules the component theories add to.

  A Go function returning \<open>(T, error)\<close> is a function into \<open>'e + 'a\<close>: \<open>Inl e\<close> is the
  early return with a non-nil error, \<open>Inr v\<close> the normal return. \<open>rbind\<close> is the
  \<open>if err != nil { return err }\<close> between two calls.

  A Go map is an association list with distinct keys. The order of the list stands for
  the order in which \<open>range\<close> visits the map, which Go leaves open: a theorem that holds
  for every association list holds for every visiting order.
\<close>

named_theorems res_simps \<open>inversion of results: when a sequenced computation succeeds or fails\<close>
named_theorems amap_simps \<open>lookups in updated Go maps\<close>

subsection \<open>Results\<close>

type_synonym ('e, 'a) res = "'e + 'a"

definition rbind :: "('e, 'a) res \<Rightarrow> ('a \<Rightarrow> ('e, 'b) res) \<Rightarrow> ('e, 'b) res" where
  "rbind r f = (case r of Inl e \<Rightarrow> Inl e | Inr v \<Rightarrow> f v)"

lemma rbind_simps [simp]:
  "rbind (Inl e) f = Inl e"
  "rbind (Inr v) f = f v"
  by (simp_all add: rbind_def)

lemma rbind_cong [fundef_cong]:
  "r = r' \<Longrightarrow> (\<And>v. r' = Inr v \<Longrightarrow> f v = f' v) \<Longrightarrow> rbind r f = rbind r' f'"
  by (auto simp: rbind_def split: sum.splits)

lemma rbind_eq_Inr [res_simps]: "rbind r f = Inr w \<longleftrightarrow> (\<exists>v. r = Inr v \<and> f v = Inr w)"
  by (cases r) auto

lemma rbind_eq_Inl [res_simps]:
  "rbind r f = Inl e \<longleftrightarrow> r = Inl e \<or> (\<exists>v. r = Inr v \<and> f v = Inl e)"
  by (cases r) auto

lemma if_eq_iff: "(if b then x else y) = z \<longleftrightarrow> b \<and> x = z \<or> \<not> b \<and> y = z"
  by simp

lemma rbind_split:
  "P (rbind r f) \<longleftrightarrow> (\<forall>e. r = Inl e \<longrightarrow> P (Inl e)) \<and> (\<forall>v. r = Inr v \<longrightarrow> P (f v))"
  by (cases r) auto

text \<open>Mapping the error of a result, as \<open>return ErrInvalidValue(err)\<close> does.\<close>

definition map_err :: "('e \<Rightarrow> 'f) \<Rightarrow> ('e, 'a) res \<Rightarrow> ('f, 'a) res" where
  "map_err g r = (case r of Inl e \<Rightarrow> Inl (g e) | Inr v \<Rightarrow> Inr v)"

lemma map_err_simps [simp]:
  "map_err g (Inl e) = Inl (g e)"
  "map_err g (Inr v) = Inr v"
  by (simp_all add: map_err_def)

lemma map_err_eq_Inr [simp]: "map_err g r = Inr v \<longleftrightarrow> r = Inr v"
  by (cases r) auto

lemma map_err_eq_Inl [res_simps]: "map_err g r = Inl f \<longleftrightarrow> (\<exists>e. r = Inl e \<and> f = g e)"
  by (cases r) auto

text \<open>A loop whose body may fail, in the order of the list.\<close>

fun rfold :: "('a \<Rightarrow> 's \<Rightarrow> ('e, 's) res) \<Rightarrow> 'a list \<Rightarrow> 's \<Rightarrow> ('e, 's) res" where
  "rfold f [] s = Inr s"
| "rfold f (x # xs) s = rbind (f x s) (rfold f xs)"

lemma rfold_cong [fundef_cong]:
  "xs = ys \<Longrightarrow> s = t \<Longrightarrow> (\<And>x u. x \<in> set ys \<Longrightarrow> f x u = g x u) \<Longrightarrow> rfold f xs s = rfold g ys t"
proof (induction xs arbitrary: ys s t)
  case (Cons x xs)
  then show ?case by (cases ys) (auto intro!: rbind_cong)
qed auto

lemma rfold_append: "rfold f (xs @ ys) s = rbind (rfold f xs s) (rfold f ys)"
proof (induction xs arbitrary: s)
  case (Cons x xs)
  then show ?case by (cases "f x s") auto
qed simp

text \<open>The invariant rule of such a loop.\<close>

lemma rfold_invariant:
  assumes "rfold f xs s = Inr t" and "P s"
    and "\<And>x u v. x \<in> set xs \<Longrightarrow> P u \<Longrightarrow> f x u = Inr v \<Longrightarrow> P v"
  shows "P t"
  using assms
proof (induction xs arbitrary: s)
  case (Cons x xs)
  from Cons.prems(1) obtain u where "f x s = Inr u" and "rfold f xs u = Inr t"
    by (auto simp: res_simps)
  with Cons.prems(2,3) show ?case
    by (intro Cons.IH [of u]) auto
qed simp

subsection \<open>Go maps\<close>

type_synonym 'v amap = "(string \<times> 'v) list"

abbreviation aget :: "'v amap \<Rightarrow> string \<Rightarrow> 'v option" where
  "aget m k \<equiv> map_of m k"

abbreviation aput :: "string \<Rightarrow> 'v \<Rightarrow> 'v amap \<Rightarrow> 'v amap" where
  "aput \<equiv> AList.update"

abbreviation adel :: "string \<Rightarrow> 'v amap \<Rightarrow> 'v amap" where
  "adel \<equiv> AList.delete"

definition distinct_keys :: "'v amap \<Rightarrow> bool" where
  "distinct_keys m \<longleftrightarrow> distinct (map fst m)"

lemma distinct_keys_simps [simp]:
  "distinct_keys []"
  "distinct_keys ((k, v) # m) \<longleftrightarrow> k \<notin> fst ` set m \<and> distinct_keys m"
  by (auto simp: distinct_keys_def)

lemma distinct_keys_aput [simp]: "distinct_keys m \<Longrightarrow> distinct_keys (aput k v m)"
  by (simp add: distinct_keys_def distinct_update)

lemma distinct_keys_adel [simp]: "distinct_keys m \<Longrightarrow> distinct_keys (adel k m)"
  by (simp add: distinct_keys_def distinct_delete)

lemma aget_aput [amap_simps, simp]: "aget (aput k v m) k' = (if k' = k then Some v else aget m k')"
  by (simp add: update_conv')

lemma aget_adel [amap_simps, simp]: "aget (adel k m) k' = (if k' = k then None else aget m k')"
  by (simp add: delete_conv')

lemma aput_same: "aget m k = Some v \<Longrightarrow> aput k v m = m"
  by (induction m) (auto split: if_splits)

lemma aput_not_Nil [simp]: "aput k v m \<noteq> []" "[] \<noteq> aput k v m"
  by (induction m) auto

lemma set_aput_subset: "set (aput k v m) \<subseteq> insert (k, v) (set m)"
proof (induction m)
  case (Cons p m)
  then show ?case by (cases p) auto
qed simp

lemma set_adel_subset: "set (adel k m) \<subseteq> set m"
  by (induction m) auto

lemma aget_in_set: "aget m k = Some v \<Longrightarrow> (k, v) \<in> set m"
  by (rule map_of_SomeD)

lemma aget_set_iff: "distinct_keys m \<Longrightarrow> aget m k = Some v \<longleftrightarrow> (k, v) \<in> set m"
  by (auto simp: distinct_keys_def)

lemma aget_Nil_iff: "m = [] \<longleftrightarrow> (\<forall>k. aget m k = None)"
  by (cases m) (auto simp: split: if_splits)

end
