(* ===== verification/Go_Std.thy ===== *)
theory Go_Std
  imports Prelude "HOL-Library.Log_Nat"
begin

text \<open>
  The parts of Go and its standard library the source computes with. A Go string is the
  list of its bytes. Letter case is folded over ASCII: attribute names and schema URNs are
  ASCII by grammar, and bytes outside ASCII are left as they are.

  A \<open>float64\<close> is a rational, an infinity or NaN; the two zeros are one value (the code
  never tells them apart). \<open>time.Time\<close> is an instant in nanoseconds since the zero time
  with the offset of its location in seconds.

  \<open>parseFloat64\<close> covers decimal literals, infinities and NaN; hexadecimal floats and digit
  separators, which \<open>strconv.ParseFloat\<close> also reads, are not covered.
\<close>

subsection \<open>strings\<close>

definition foldChar :: "char \<Rightarrow> char" where
  "foldChar c = (if CHR ''A'' \<le> c \<and> c \<le> CHR ''Z'' then char_of (of_char c + 32 :: nat) else c)"

lemma foldChar_Char [simp, code]:
  "foldChar (Char b0 b1 b2 b3 b4 b5 b6 b7) =
     Char b0 b1 b2 b3 b4
       (b5 \<or> \<not> b7 \<and> b6 \<and> (b0 \<or> b1 \<or> b2 \<or> b3 \<or> b4) \<and> \<not> (b4 \<and> b3 \<and> (b2 \<or> b1 \<and> b0)))
       b6 b7"
  by (cases b0; cases b1; cases b2; cases b3; cases b4; cases b5; cases b6; cases b7;
      simp add: foldChar_def less_eq_char_def char_of_def of_char_def bit_iff_odd)

lemma foldChar_idem [simp]: "foldChar (foldChar c) = foldChar c"
  by (cases c) auto

definition foldName :: "string \<Rightarrow> string" where
  "foldName s = map foldChar s"

definition equalFold :: "string \<Rightarrow> string \<Rightarrow> bool" where
  "equalFold s t \<longleftrightarrow> foldName s = foldName t"

lemma foldName_simps [simp]:
  "foldName [] = []"
  "foldName (c # s) = foldChar c # foldName s"
  by (simp_all add: foldName_def)

lemma foldName_idem [simp]: "foldName (foldName s) = foldName s"
  by (induction s) simp_all

lemma foldName_append [simp]: "foldName (s @ t) = foldName s @ foldName t"
  by (simp add: foldName_def)

lemma length_foldName [simp]: "length (foldName s) = length s"
  by (simp add: foldName_def)

lemma foldName_Nil_iff [simp]: "foldName s = [] \<longleftrightarrow> s = []" "[] = foldName s \<longleftrightarrow> s = []"
  by (auto simp: foldName_def)

lemma foldName_take: "foldName (take n s) = take n (foldName s)"
  by (simp add: foldName_def take_map)

lemma foldName_drop: "foldName (drop n s) = drop n (foldName s)"
  by (simp add: foldName_def drop_map)

lemma equalFold_refl [simp]: "equalFold s s"
  by (simp add: equalFold_def)

lemma equalFold_sym: "equalFold s t \<Longrightarrow> equalFold t s"
  by (simp add: equalFold_def)

text \<open>\<open>strings.Cut\<close> at a one-byte separator.\<close>

fun cut :: "char \<Rightarrow> string \<Rightarrow> string \<times> string \<times> bool" where
  "cut sep [] = ([], [], False)"
| "cut sep (c # s) =
     (if c = sep then ([], s, True)
      else case cut sep s of (before, after, found) \<Rightarrow> (c # before, after, found))"

lemma cut_not_in: "sep \<notin> set s \<Longrightarrow> cut sep s = (s, [], False)"
  by (induction s) auto

lemma cut_append: "sep \<notin> set s \<Longrightarrow> cut sep (s @ sep # t) = (s, t, True)"
  by (induction s) auto

lemma cut_found: "cut sep s = (a, b, True) \<Longrightarrow> s = a @ sep # b \<and> sep \<notin> set a"
  by (induction s arbitrary: a) (auto split: if_splits prod.splits)

lemma cut_not_found: "cut sep s = (a, b, False) \<Longrightarrow> a = s \<and> b = [] \<and> sep \<notin> set s"
  by (induction s arbitrary: a) (auto split: if_splits prod.splits)

text \<open>\<open>strings.Compare\<close>, the lexicographic order of bytes.\<close>

definition strCompare :: "string \<Rightarrow> string \<Rightarrow> int" where
  "strCompare a b = (if a < b then -1 else if b < a then 1 else 0)"

lemma strCompare_eq_0 [simp]: "strCompare a b = 0 \<longleftrightarrow> a = b"
  by (auto simp: strCompare_def)

text \<open>\<open>strings.TrimSpace\<close> over ASCII white space.\<close>

definition isSpace :: "char \<Rightarrow> bool" where
  "isSpace c \<longleftrightarrow> c \<in> {CHR '' '', CHR 0x09, CHR 0x0A, CHR 0x0B, CHR 0x0C, CHR 0x0D}"

definition trimSpace :: "string \<Rightarrow> string" where
  "trimSpace s = rev (dropWhile isSpace (rev (dropWhile isSpace s)))"

text \<open>\<open>strings.Trim\<close> with a one-byte cutset and \<open>strings.TrimPrefix\<close>.\<close>

definition trimChar :: "char \<Rightarrow> string \<Rightarrow> string" where
  "trimChar c s = rev (dropWhile (\<lambda>x. x = c) (rev (dropWhile (\<lambda>x. x = c) s)))"

definition trimPrefix :: "string \<Rightarrow> string \<Rightarrow> string" where
  "trimPrefix p s = (if prefix p s then drop (length p) s else s)"

subsection \<open>strconv: integers\<close>

definition isDigit :: "char \<Rightarrow> bool" where
  "isDigit c \<longleftrightarrow> CHR ''0'' \<le> c \<and> c \<le> CHR ''9''"

definition digitVal :: "char \<Rightarrow> int" where
  "digitVal c = of_char c - 48"

definition digitsVal :: "string \<Rightarrow> int" where
  "digitsVal s = foldl (\<lambda>n c. 10 * n + digitVal c) 0 s"

definition allDigits :: "string \<Rightarrow> bool" where
  "allDigits s \<longleftrightarrow> s \<noteq> [] \<and> list_all isDigit s"

definition splitSign :: "string \<Rightarrow> bool \<times> string" where
  "splitSign s = (case s of [] \<Rightarrow> (False, [])
     | c # r \<Rightarrow> if c = CHR ''-'' then (True, r) else if c = CHR ''+'' then (False, r) else (False, s))"

definition inInt64 :: "int \<Rightarrow> bool" where
  "inInt64 i \<longleftrightarrow> - (2 ^ 63) \<le> i \<and> i < 2 ^ 63"

text \<open>\<open>strconv.ParseInt(s, 10, 64)\<close>; \<open>Atoi\<close> and \<open>json.Number.Int64\<close> are the same function.\<close>

definition parseInt64 :: "string \<Rightarrow> int option" where
  "parseInt64 s =
     (let (neg, ds) = splitSign s;
          n = (if neg then - digitsVal ds else digitsVal ds)
      in if allDigits ds \<and> inInt64 n then Some n else None)"

text \<open>\<open>strconv.Itoa\<close> and \<open>strconv.FormatUint\<close> in base ten.\<close>

definition digitChar :: "nat \<Rightarrow> char" where
  "digitChar d = char_of (48 + d mod 10)"

fun formatNat :: "nat \<Rightarrow> string" where
  "formatNat n = (if n < 10 then [digitChar n] else formatNat (n div 10) @ [digitChar n])"

declare formatNat.simps [simp del]

definition formatInt :: "int \<Rightarrow> string" where
  "formatInt i = (if i < 0 then CHR ''-'' # formatNat (nat (- i)) else formatNat (nat i))"

lemma of_char_digitChar: "of_char (digitChar d) = (48 + d mod 10 :: nat)"
proof -
  have "d mod 10 < 10" by simp
  then have "48 + d mod 10 < 256" by linarith
  then show ?thesis by (simp add: digitChar_def)
qed

lemma of_char_int: "of_char c = int (of_char c)"
  by (rule of_nat_of_char [symmetric])

lemma digitVal_digitChar [simp]: "digitVal (digitChar d) = int (d mod 10)"
  by (simp add: digitVal_def of_char_int of_char_digitChar)

lemma isDigit_digitChar [simp]: "isDigit (digitChar d)"
proof -
  have "d mod 10 < 10" by simp
  then have "d mod 10 \<le> 9" by linarith
  then show ?thesis
    by (simp add: isDigit_def less_eq_char_def of_char_digitChar)
qed

lemma digitsVal_append: "digitsVal (s @ [c]) = 10 * digitsVal s + digitVal c"
  by (simp add: digitsVal_def)

lemma digitsVal_formatNat [simp]: "digitsVal (formatNat n) = int n"
proof (induction n rule: formatNat.induct)
  case (1 n)
  show ?case
  proof (cases "n < 10")
    case True
    then show ?thesis by (subst formatNat.simps) (simp add: digitsVal_def)
  next
    case False
    have "10 * int (n div 10) + int (n mod 10) = int n"
      by (metis mult_div_mod_eq of_nat_add of_nat_mult of_nat_numeral)
    with 1 False show ?thesis by (subst formatNat.simps) (simp add: digitsVal_append)
  qed
qed

lemma formatNat_digits: "list_all isDigit (formatNat n)"
proof (induction n rule: formatNat.induct)
  case (1 n)
  then show ?case by (subst formatNat.simps) simp
qed

lemma formatNat_not_Nil [simp]: "formatNat n \<noteq> []"
  by (subst formatNat.simps) simp

lemma formatNat_inject [simp]: "formatNat m = formatNat n \<longleftrightarrow> m = n"
  by (metis digitsVal_formatNat of_nat_eq_iff)

lemma allDigits_formatNat [simp]: "allDigits (formatNat n)"
  by (simp add: allDigits_def formatNat_digits)

lemma isDigit_not_sign: "isDigit c \<Longrightarrow> c \<noteq> CHR ''-'' \<and> c \<noteq> CHR ''+''"
  by (auto simp: isDigit_def less_eq_char_def)

lemma splitSign_formatNat [simp]: "splitSign (formatNat n) = (False, formatNat n)"
proof (cases "formatNat n")
  case (Cons c r)
  with formatNat_digits [of n] have "isDigit c" by simp
  with Cons show ?thesis by (simp add: splitSign_def isDigit_not_sign)
qed simp

text \<open>Printing an \<open>int64\<close> and reading it back.\<close>

lemma parseInt64_formatInt: "inInt64 i \<Longrightarrow> parseInt64 (formatInt i) = Some i"
  by (auto simp: parseInt64_def formatInt_def Let_def splitSign_def [of "_ # _"])

subsection \<open>strconv: floating point\<close>

datatype float64 = Finite rat | Infinite bool | NaN

definition pow2 :: "int \<Rightarrow> rat" where
  "pow2 k = (if 0 \<le> k then 2 ^ nat k else 1 / 2 ^ nat (- k))"

definition roundHalfEven :: "rat \<Rightarrow> int" where
  "roundHalfEven r =
     (let f = floor r; d = r - of_int f
      in if d < 1 / 2 then f else if 1 / 2 < d then f + 1 else if even f then f else f + 1)"

text \<open>The binary exponent of a positive rational: \<open>2 ^ e \<le> r < 2 ^ (e + 1)\<close>.\<close>

definition binExp :: "rat \<Rightarrow> int" where
  "binExp r =
     (let (p, q) = quotient_of r; e = int (nat (bitlen p)) - int (nat (bitlen q))
      in if pow2 e \<le> r then e else e - 1)"

text \<open>
  Correct rounding to the nearest \<open>float64\<close>, ties to even, with subnormals; beyond the
  largest finite value the result is the infinity \<open>ParseFloat\<close> reports as a range error.
\<close>

definition roundFloat64 :: "rat \<Rightarrow> float64" where
  "roundFloat64 x =
     (if x = 0 then Finite 0
      else let a = \<bar>x\<bar>; s = max (binExp a - 52) (- 1074);
               m = of_int (roundHalfEven (a / pow2 s)) * pow2 s
           in if 2 ^ 1024 \<le> m then Infinite (x < 0)
              else Finite (if x < 0 then - m else m))"

definition intToFloat64 :: "int \<Rightarrow> float64" where
  "intToFloat64 i = roundFloat64 (of_int i)"

text \<open>
  The conversion \<open>int64(f)\<close>: truncation towards zero. Out of range (and for NaN) the
  language leaves the value to the implementation; here it is the smallest \<open>int64\<close>, the
  value of the x86-64 instruction.
\<close>

definition truncRat :: "rat \<Rightarrow> int" where
  "truncRat x = (if x < 0 then - floor (- x) else floor x)"

definition float64ToInt64 :: "float64 \<Rightarrow> int" where
  "float64ToInt64 f =
     (case f of Finite x \<Rightarrow> if inInt64 (truncRat x) then truncRat x else - (2 ^ 63)
      | _ \<Rightarrow> - (2 ^ 63))"

text \<open>The comparisons of the language: NaN equals nothing and is ordered with nothing.\<close>

fun fltEq :: "float64 \<Rightarrow> float64 \<Rightarrow> bool" where
  "fltEq (Finite x) (Finite y) = (x = y)"
| "fltEq (Infinite a) (Infinite b) = (a = b)"
| "fltEq _ _ = False"

fun fltLess :: "float64 \<Rightarrow> float64 \<Rightarrow> bool" where
  "fltLess (Finite x) (Finite y) = (x < y)"
| "fltLess (Finite x) (Infinite neg) = (\<not> neg)"
| "fltLess (Infinite neg) (Finite y) = neg"
| "fltLess (Infinite a) (Infinite b) = (a \<and> \<not> b)"
| "fltLess _ _ = False"

lemma fltEq_iff: "fltEq a b \<longleftrightarrow> a = b \<and> a \<noteq> NaN"
  by (cases a; cases b) auto

text \<open>
  \<open>strconv.ParseFloat(s, 64)\<close> on decimal literals: digits, an optional fraction, an
  optional exponent, or a special value. A finite literal beyond the largest finite value
  is a range error.
\<close>

definition parseExponent :: "string \<Rightarrow> int option" where
  "parseExponent s =
     (case s of [] \<Rightarrow> Some 0
      | c # r \<Rightarrow>
          if foldChar c = CHR ''e''
          then let (neg, ds) = splitSign r
               in if allDigits ds
                  then Some (if neg then - digitsVal ds else digitsVal ds)
                  else None
          else None)"

definition pow10 :: "int \<Rightarrow> rat" where
  "pow10 k = (if 0 \<le> k then 10 ^ nat k else 1 / 10 ^ nat (- k))"

definition parseDecimal :: "bool \<Rightarrow> string \<Rightarrow> float64 option" where
  "parseDecimal neg s =
     (let ip = takeWhile isDigit s;
          r = dropWhile isDigit s;
          (fp, r') = (case r of c # t \<Rightarrow>
              if c = CHR ''.'' then (takeWhile isDigit t, dropWhile isDigit t) else ([], r)
            | [] \<Rightarrow> ([], []))
      in if ip @ fp = [] then None
         else case parseExponent r' of None \<Rightarrow> None
           | Some e \<Rightarrow>
              let x = of_int (digitsVal (ip @ fp)) * pow10 (e - int (length fp))
              in case roundFloat64 (if neg then - x else x) of
                   Finite y \<Rightarrow> Some (Finite y) | _ \<Rightarrow> None)"

definition parseFloat64 :: "string \<Rightarrow> float64 option" where
  "parseFloat64 s =
     (let (neg, r) = splitSign s
      in if foldName r = ''inf'' \<or> foldName r = ''infinity'' then Some (Infinite neg)
         else if foldName s = ''nan'' then Some NaN
         else parseDecimal neg r)"

subsection \<open>encoding/json: number literals\<close>

definition validExp :: "string \<Rightarrow> bool" where
  "validExp s =
     (case s of [] \<Rightarrow> True
      | c # r \<Rightarrow> foldChar c = CHR ''e'' \<and> allDigits (snd (splitSign r)))"

definition validFrac :: "string \<Rightarrow> bool" where
  "validFrac s =
     (case s of [] \<Rightarrow> True
      | c # r \<Rightarrow>
          if c = CHR ''.''
          then takeWhile isDigit r \<noteq> [] \<and> validExp (dropWhile isDigit r)
          else validExp s)"

definition isValidNumber :: "string \<Rightarrow> bool" where
  "isValidNumber s =
     (case (case s of c # r \<Rightarrow> if c = CHR ''-'' then r else s | [] \<Rightarrow> []) of
        [] \<Rightarrow> False
      | c # r \<Rightarrow>
          if c = CHR ''0'' then validFrac r
          else isDigit c \<and> validFrac (dropWhile isDigit r))"

subsection \<open>time\<close>

datatype gotime = GoTime (instant: int) (zoneOffset: int)

definition zeroTime :: gotime where
  "zeroTime = GoTime 0 0"

definition timeIsZero :: "gotime \<Rightarrow> bool" where
  "timeIsZero t \<longleftrightarrow> instant t = 0"

definition timeEqual :: "gotime \<Rightarrow> gotime \<Rightarrow> bool" where
  "timeEqual a b \<longleftrightarrow> instant a = instant b"

lemma timeEqual_refl [simp]: "timeEqual t t"
  by (simp add: timeEqual_def)

definition isLeap :: "int \<Rightarrow> bool" where
  "isLeap y \<longleftrightarrow> y mod 4 = 0 \<and> (y mod 100 \<noteq> 0 \<or> y mod 400 = 0)"

definition daysIn :: "int \<Rightarrow> int \<Rightarrow> int" where
  "daysIn y m =
     (if m = 2 then (if isLeap y then 29 else 28)
      else if m \<in> {4, 6, 9, 11} then 30 else 31)"

text \<open>Days from 1 January of year 1 to the given day.\<close>

definition daysBefore :: "int \<Rightarrow> int \<Rightarrow> int \<Rightarrow> int" where
  "daysBefore y m d =
     365 * (y - 1) + (y - 1) div 4 - (y - 1) div 100 + (y - 1) div 400
     + sum_list (map (daysIn y) [1..m - 1]) + d - 1"

text \<open>A field of exactly \<open>n\<close> digits.\<close>

definition takeNum :: "nat \<Rightarrow> string \<Rightarrow> (int \<times> string) option" where
  "takeNum n s =
     (if n \<le> length s \<and> list_all isDigit (take n s)
      then Some (digitsVal (take n s), drop n s) else None)"

definition takeLit :: "char \<Rightarrow> string \<Rightarrow> string option" where
  "takeLit c s = (case s of x # r \<Rightarrow> if x = c then Some r else None | [] \<Rightarrow> None)"

text \<open>The hour may have one digit; a fraction of a second may follow the seconds.\<close>

definition takeHour :: "string \<Rightarrow> (int \<times> string) option" where
  "takeHour s = (case takeNum 2 s of Some r \<Rightarrow> Some r | None \<Rightarrow> takeNum 1 s)"

definition takeFraction :: "string \<Rightarrow> int \<times> string" where
  "takeFraction s =
     (case s of c # r \<Rightarrow>
        if (c = CHR ''.'' \<or> c = CHR '','') \<and> takeWhile isDigit r \<noteq> []
        then let ds = take 9 (takeWhile isDigit r)
             in (digitsVal ds * 10 ^ (9 - length ds), dropWhile isDigit r)
        else (0, s)
      | [] \<Rightarrow> (0, []))"

definition takeZone :: "string \<Rightarrow> int option" where
  "takeZone s =
     (case s of [] \<Rightarrow> None
      | c # r \<Rightarrow>
          if c = CHR ''Z'' then (if r = [] then Some 0 else None)
          else if c = CHR ''+'' \<or> c = CHR ''-''
          then Option.bind (takeNum 2 r) (\<lambda>(hh, r). Option.bind (takeLit (CHR '':'') r) (\<lambda>r.
               Option.bind (takeNum 2 r) (\<lambda>(mm, r).
               if r = [] \<and> hh \<le> 24 \<and> mm \<le> 60
               then Some ((if c = CHR ''-'' then - 1 else 1) * (hh * 60 + mm) * 60)
               else None)))
          else None)"

text \<open>\<open>time.Parse(time.RFC3339, s)\<close>.\<close>

definition parseRFC3339 :: "string \<Rightarrow> gotime option" where
  "parseRFC3339 s =
     Option.bind (takeNum 4 s) (\<lambda>(y, s). Option.bind (takeLit (CHR ''-'') s) (\<lambda>s.
     Option.bind (takeNum 2 s) (\<lambda>(mo, s). Option.bind (takeLit (CHR ''-'') s) (\<lambda>s.
     Option.bind (takeNum 2 s) (\<lambda>(d, s). Option.bind (takeLit (CHR ''T'') s) (\<lambda>s.
     Option.bind (takeHour s) (\<lambda>(h, s). Option.bind (takeLit (CHR '':'') s) (\<lambda>s.
     Option.bind (takeNum 2 s) (\<lambda>(mi, s). Option.bind (takeLit (CHR '':'') s) (\<lambda>s.
     Option.bind (takeNum 2 s) (\<lambda>(sec, s).
       let (ns, s) = takeFraction s in
       Option.bind (takeZone s) (\<lambda>off.
         if 1 \<le> mo \<and> mo \<le> 12 \<and> 1 \<le> d \<and> d \<le> daysIn y mo \<and> h < 24 \<and> mi < 60 \<and> sec < 60
         then Some (GoTime
           (((daysBefore y mo d * 86400 + h * 3600 + mi * 60 + sec) - off)
              * 1000000000 + ns) off)
         else None))))))))))))"

text \<open>\<open>t.Format(time.RFC3339Nano)\<close> for the years 0 to 9999: the date of a day count by the
  400-year cycle, and the fraction of a second without its trailing zeros.\<close>

definition civilYear :: "int \<Rightarrow> int \<times> int" where
  "civilYear days =
     (let c400 = days div 146097; r400 = days mod 146097;
          c100 = min 3 (r400 div 36524); r100 = r400 - c100 * 36524;
          c4 = r100 div 1461; r4 = r100 mod 1461;
          c1 = min 3 (r4 div 365)
      in (400 * c400 + 100 * c100 + 4 * c4 + c1 + 1, r4 - c1 * 365))"

fun civilMonth :: "int \<Rightarrow> int list \<Rightarrow> int \<Rightarrow> int \<times> int" where
  "civilMonth y [] d = (12, d + 1)"
| "civilMonth y (m # ms) d =
     (if d < daysIn y m then (m, d + 1) else civilMonth y ms (d - daysIn y m))"

definition padInt :: "nat \<Rightarrow> int \<Rightarrow> string" where
  "padInt n i = (let s = formatInt i in replicate (n - length s) CHR ''0'' @ s)"

definition formatFraction :: "int \<Rightarrow> string" where
  "formatFraction ns =
     (if ns = 0 then []
      else CHR ''.'' # rev (dropWhile (\<lambda>c. c = CHR ''0'') (rev (padInt 9 ns))))"

definition formatZone :: "int \<Rightarrow> string" where
  "formatZone off =
     (if off = 0 then ''Z''
      else let m = abs off div 60 in
        (if off < 0 then CHR ''-'' else CHR ''+'') #
          padInt 2 (m div 60) @ CHR '':'' # padInt 2 (m mod 60))"

definition formatRFC3339Nano :: "gotime \<Rightarrow> string" where
  "formatRFC3339Nano t =
     (let local = instant t + zoneOffset t * 1000000000;
          secs = local div 1000000000; ns = local mod 1000000000;
          sod = secs mod 86400;
          (y, yday) = civilYear (secs div 86400);
          (mo, d) = civilMonth y [1..12] yday
      in padInt 4 y @ ''-'' @ padInt 2 mo @ ''-'' @ padInt 2 d @ ''T'' @
         padInt 2 (sod div 3600) @ '':'' @ padInt 2 (sod div 60 mod 60) @ '':'' @
         padInt 2 (sod mod 60) @ formatFraction ns @ formatZone (zoneOffset t))"

subsection \<open>encoding/base64: StdEncoding\<close>

definition base64Val :: "char \<Rightarrow> int option" where
  "base64Val c =
     (if CHR ''A'' \<le> c \<and> c \<le> CHR ''Z'' then Some (of_char c - 65)
      else if CHR ''a'' \<le> c \<and> c \<le> CHR ''z'' then Some (of_char c - 71)
      else if isDigit c then Some (of_char c + 4)
      else if c = CHR ''+'' then Some 62
      else if c = CHR ''/'' then Some 63
      else None)"

definition base64Bytes :: "int \<Rightarrow> char list" where
  "base64Bytes n = [char_of (n div 65536), char_of (n div 256 mod 256), char_of (n mod 256)]"

text \<open>Quadruples of digits; padding only at the end; bits beyond the last byte are ignored.\<close>

fun base64Quads :: "string \<Rightarrow> string option" where
  "base64Quads [] = Some []"
| "base64Quads (a # b # c # d # r) =
     (case (base64Val a, base64Val b) of
        (Some x, Some y) \<Rightarrow>
          (if d = CHR ''='' \<and> r = []
           then if c = CHR ''='' then Some (take 1 (base64Bytes (x * 262144 + y * 4096)))
                else map_option (\<lambda>z. take 2 (base64Bytes (x * 262144 + y * 4096 + z * 64)))
                       (base64Val c)
           else case (base64Val c, base64Val d) of
                  (Some z, Some w) \<Rightarrow>
                    map_option (\<lambda>t. base64Bytes (x * 262144 + y * 4096 + z * 64 + w) @ t)
                      (base64Quads r)
                | _ \<Rightarrow> None)
      | _ \<Rightarrow> None)"
| "base64Quads _ = None"

definition base64Decode :: "string \<Rightarrow> string option" where
  "base64Decode s = base64Quads (filter (\<lambda>c. c \<noteq> CHR 0x0A \<and> c \<noteq> CHR 0x0D) s)"


definition base64Digit :: "int \<Rightarrow> char" where
  "base64Digit n =
     (if n < 26 then char_of (n + 65) else if n < 52 then char_of (n + 71)
      else if n < 62 then char_of (n - 4) else if n = 62 then CHR ''+'' else CHR ''/'')"

definition base64Digits :: "int \<Rightarrow> string" where
  "base64Digits n =
     map base64Digit [n div 262144, n div 4096 mod 64, n div 64 mod 64, n mod 64]"

fun base64Encode :: "string \<Rightarrow> string" where
  "base64Encode [] = []"
| "base64Encode [a] = take 2 (base64Digits (of_char a * 65536)) @ ''==''"
| "base64Encode [a, b] = take 3 (base64Digits (of_char a * 65536 + of_char b * 256)) @ ''=''"
| "base64Encode (a # b # c # r) =
     base64Digits (of_char a * 65536 + of_char b * 256 + of_char c) @ base64Encode r"

end
