(* ===== verification/Filter_Ast.thy ===== *)
theory Filter_Ast
  imports Go_Std
begin

text \<open>
  \<open>filter/ast.go\<close> and \<open>filter/build.go\<close>: filter expressions, their rendering and the
  builders. The literal of a comparison is the closed set the parser and the builders
  produce: a string, a \<open>json.Number\<close>, a boolean or null.
\<close>

subsection \<open>Expressions\<close>

datatype op =
    OpEqual | OpNotEqual | OpContains | OpStartsWith | OpEndsWith
  | OpGreaterThan | OpGreaterThanOrEqual | OpLessThan | OpLessThanOrEqual
  | OpPresent | OpOther string

datatype literal = LString string | LNumber string | LBool bool | LNull

datatype expr =
    Compare fpath op literal
  | Present fpath
  | AndExpr expr expr
  | OrExpr expr expr
  | NotExpr expr
  | ValuePath fpath expr
and fpath = FPath (pathURN: string) (pathAttr: string) (pathSub: string)
                  (valueFilter: "expr option")

text \<open>Induction on an expression that leaves the paths alone.\<close>

lemma expr_induct [case_names Compare Present AndExpr OrExpr NotExpr ValuePath]:
  assumes "\<And>p o' v. P (Compare p o' v)" and "\<And>p. P (Present p)"
    and "\<And>l r. P l \<Longrightarrow> P r \<Longrightarrow> P (AndExpr l r)" and "\<And>l r. P l \<Longrightarrow> P r \<Longrightarrow> P (OrExpr l r)"
    and "\<And>e. P e \<Longrightarrow> P (NotExpr e)" and "\<And>p f. P f \<Longrightarrow> P (ValuePath p f)"
  shows "P e"
proof (induction e rule: measure_induct_rule [where f = size])
  case (less e)
  then show ?case by (cases e) (auto intro: assms)
qed

definition ordering :: "op \<Rightarrow> bool" where
  "ordering o' \<longleftrightarrow> o' \<in> {OpGreaterThan, OpGreaterThanOrEqual, OpLessThan, OpLessThanOrEqual}"

definition comparison :: "op \<Rightarrow> bool" where
  "comparison o' \<longleftrightarrow>
     o' \<in> {OpEqual, OpNotEqual, OpContains, OpStartsWith, OpEndsWith,
          OpGreaterThan, OpGreaterThanOrEqual, OpLessThan, OpLessThanOrEqual}"

definition opText :: "op \<Rightarrow> string" where
  "opText o' =
     (case o' of
        OpEqual \<Rightarrow> ''eq'' | OpNotEqual \<Rightarrow> ''ne'' | OpContains \<Rightarrow> ''co''
      | OpStartsWith \<Rightarrow> ''sw'' | OpEndsWith \<Rightarrow> ''ew''
      | OpGreaterThan \<Rightarrow> ''gt'' | OpGreaterThanOrEqual \<Rightarrow> ''ge''
      | OpLessThan \<Rightarrow> ''lt'' | OpLessThanOrEqual \<Rightarrow> ''le''
      | OpPresent \<Rightarrow> ''pr'' | OpOther s \<Rightarrow> s)"

text \<open>The conversion \<open>Op(text)\<close>.\<close>

definition opOf :: "string \<Rightarrow> op" where
  "opOf s =
     (if s = ''eq'' then OpEqual else if s = ''ne'' then OpNotEqual
      else if s = ''co'' then OpContains else if s = ''sw'' then OpStartsWith
      else if s = ''ew'' then OpEndsWith else if s = ''gt'' then OpGreaterThan
      else if s = ''ge'' then OpGreaterThanOrEqual else if s = ''lt'' then OpLessThan
      else if s = ''le'' then OpLessThanOrEqual else if s = ''pr'' then OpPresent
      else OpOther s)"

lemma opOf_opText: "comparison o' \<or> o' = OpPresent \<Longrightarrow> opOf (opText o') = o'"
  by (cases o') (simp_all add: comparison_def opOf_def opText_def)

subsection \<open>JSON string literals\<close>

text \<open>
  \<open>json.Marshal\<close> of a string: the short escapes, \<open>\uXXXX\<close> for the other control bytes, for
  the characters HTML treats specially, and for the line separators U+2028 and U+2029.
  Strings are valid UTF-8; its other bytes beyond ASCII are copied.
\<close>

definition hexDigit :: "nat \<Rightarrow> char" where
  "hexDigit n = (if n < 10 then char_of (48 + n) else char_of (87 + n))"

definition quoteChar :: "char \<Rightarrow> string" where
  "quoteChar c =
     (if c = CHR 0x22 \<or> c = CHR 0x5C then [CHR 0x5C, c]
      else if c = CHR 0x08 then [CHR 0x5C, CHR ''b'']
      else if c = CHR 0x0C then [CHR 0x5C, CHR ''f'']
      else if c = CHR 0x0A then [CHR 0x5C, CHR ''n'']
      else if c = CHR 0x0D then [CHR 0x5C, CHR ''r'']
      else if c = CHR 0x09 then [CHR 0x5C, CHR ''t'']
      else if of_char c < (32 :: nat) \<or> c = CHR ''<'' \<or> c = CHR ''>'' \<or> c = CHR ''&''
      then [CHR 0x5C, CHR ''u'', CHR ''0'', CHR ''0'',
            hexDigit (of_char c div 16), hexDigit (of_char c mod 16)]
      else [c])"

fun quoteBody :: "string \<Rightarrow> string" where
  "quoteBody [] = []"
| "quoteBody (c # s) =
     (if c = CHR 0xE2 \<and> take 2 s = [CHR 0x80, CHR 0xA8]
      then [CHR 0x5C] @ ''u2028'' @ quoteBody (drop 2 s)
      else if c = CHR 0xE2 \<and> take 2 s = [CHR 0x80, CHR 0xA9]
      then [CHR 0x5C] @ ''u2029'' @ quoteBody (drop 2 s)
      else quoteChar c @ quoteBody s)"

definition jsonQuote :: "string \<Rightarrow> string" where
  "jsonQuote s = [CHR 0x22] @ quoteBody s @ [CHR 0x22]"

subsection \<open>Rendering\<close>

definition literalString :: "literal \<Rightarrow> string" where
  "literalString v =
     (case v of
        LNull \<Rightarrow> ''null''
      | LBool b \<Rightarrow> if b then ''true'' else ''false''
      | LNumber n \<Rightarrow> n
      | LString s \<Rightarrow> jsonQuote s)"

definition paren :: "string \<Rightarrow> string" where
  "paren s = ''('' @ s @ '')''"

fun isOr :: "expr \<Rightarrow> bool" where "isOr (OrExpr _ _) = True" | "isOr _ = False"
fun isAnd :: "expr \<Rightarrow> bool" where "isAnd (AndExpr _ _) = True" | "isAnd _ = False"

fun exprString :: "expr \<Rightarrow> string" and pathString :: "fpath \<Rightarrow> string" where
  "exprString (Compare p o' v) = pathString p @ '' '' @ opText o' @ '' '' @ literalString v"
| "exprString (Present p) = pathString p @ '' pr''"
| "exprString (AndExpr l r) =
     (if isOr l then paren (exprString l) else exprString l) @ '' and '' @
     (if isOr r \<or> isAnd r then paren (exprString r) else exprString r)"
| "exprString (OrExpr l r) =
     exprString l @ '' or '' @ (if isOr r then paren (exprString r) else exprString r)"
| "exprString (NotExpr e) = ''not '' @ paren (exprString e)"
| "exprString (ValuePath p f) = pathString p @ ''['' @ exprString f @ '']''"
| "pathString (FPath urn attr sub vf) =
     (if urn \<noteq> [] then urn @ '':'' else []) @ attr @
     (case vf of None \<Rightarrow> [] | Some f \<Rightarrow> ''['' @ exprString f @ '']'') @
     (if sub \<noteq> [] then ''.'' @ sub else [])"

subsection \<open>Attribute paths (\<open>filter/token.go\<close>)\<close>

definition isLetter :: "char \<Rightarrow> bool" where
  "isLetter c \<longleftrightarrow> (c \<ge> CHR ''a'' \<and> CHR ''z'' \<ge> c) \<or> (c \<ge> CHR ''A'' \<and> CHR ''Z'' \<ge> c)"

definition isNameStart :: "char \<Rightarrow> bool" where
  "isNameStart c \<longleftrightarrow> isLetter c \<or> c = CHR ''$''"

definition isNameChar :: "char \<Rightarrow> bool" where
  "isNameChar c \<longleftrightarrow> isLetter c \<or> isDigit c \<or> c = CHR ''-'' \<or> c = CHR ''_''"

definition validAttrName :: "string \<Rightarrow> bool" where
  "validAttrName name = (case name of [] \<Rightarrow> False | c # r \<Rightarrow> isNameStart c \<and> list_all isNameChar r)"

text \<open>The split at the last byte \<open>':'\<close>, if there is one.\<close>

definition cutLast :: "char \<Rightarrow> string \<Rightarrow> (string \<times> string) option" where
  "cutLast sep s =
     (if sep \<in> set s
      then Some (rev (tl (dropWhile (\<lambda>c. c \<noteq> sep) (rev s))), rev (takeWhile (\<lambda>c. c \<noteq> sep) (rev s)))
      else None)"

definition splitAttrPath :: "string \<Rightarrow> (string \<times> string \<times> string) option" where
  "splitAttrPath word =
     (case (case cutLast CHR '':'' word of
              Some (urn, rest) \<Rightarrow>
                if prefix ''urn:'' (foldName urn) then Some (urn, rest) else None
            | None \<Rightarrow> Some ([], word)) of
        None \<Rightarrow> None
      | Some (urn, rest) \<Rightarrow>
          (case cut CHR ''.'' rest of (attr, sub, found) \<Rightarrow>
             if \<not> validAttrName attr then None
             else if found \<and> (\<not> validAttrName sub \<or> CHR ''.'' \<in> set sub) then None
             else Some (urn, attr, sub)))"

subsection \<open>Builders\<close>

text \<open>The Go values a builder accepts; any other renders as a diagnostic, which is not
  modelled. Integers of every width are \<open>GInt\<close>; floats are kept as the text
  \<open>strconv.FormatFloat\<close> renders them to.\<close>

datatype build_value =
    GNil | GString string | GBool bool | GNumber string | GInt int | GFloat string
  | GTime gotime | GBytes string | GRef string

definition decimalNumber :: "string \<Rightarrow> string" where
  "decimalNumber s = (if \<not> list_ex (\<lambda>c. c = CHR ''.'' \<or> c = CHR ''e'' \<or> c = CHR ''E'') s
     then s @ ''.0'' else s)"

text \<open>\<open>t.Format(time.RFC3339)\<close> is the format without the fraction of a second.\<close>

definition formatRFC3339 :: "gotime \<Rightarrow> string" where
  "formatRFC3339 t = formatRFC3339Nano (GoTime (instant t - instant t mod 1000000000) (zoneOffset t))"

definition normalizeValue :: "build_value \<Rightarrow> literal" where
  "normalizeValue v =
     (case v of
        GInt i \<Rightarrow> LNumber (formatInt i)
      | GNil \<Rightarrow> LNull | GString s \<Rightarrow> LString s | GBool b \<Rightarrow> LBool b | GNumber n \<Rightarrow> LNumber n
      | GFloat f \<Rightarrow> LNumber (decimalNumber f)
      | GTime t \<Rightarrow> LString (formatRFC3339 t)
      | GBytes b \<Rightarrow> LString (base64Encode b)
      | GRef r \<Rightarrow> LString r)"

definition builderPath :: "string \<Rightarrow> fpath" where
  "builderPath path =
     (case splitAttrPath path of
        None \<Rightarrow> FPath [] path [] None
      | Some (urn, attr, sub) \<Rightarrow> FPath urn attr sub None)"

definition compareBuild :: "string \<Rightarrow> op \<Rightarrow> build_value \<Rightarrow> expr" where
  "compareBuild path o' v = Compare (builderPath path) o' (normalizeValue v)"

definition PrBuild :: "string \<Rightarrow> expr" where
  "PrBuild path = Present (builderPath path)"

definition AndBuild :: "expr \<Rightarrow> expr \<Rightarrow> expr list \<Rightarrow> expr" where
  "AndBuild l r more = foldl AndExpr (AndExpr l r) more"

definition OrBuild :: "expr \<Rightarrow> expr \<Rightarrow> expr list \<Rightarrow> expr" where
  "OrBuild l r more = foldl OrExpr (OrExpr l r) more"

definition HasValue :: "string \<Rightarrow> expr \<Rightarrow> expr" where
  "HasValue path f = ValuePath (builderPath path) f"

end
