(* ===== verification/Scim_Error.thy ===== *)
theory Scim_Error
  imports Go_Std
begin

text \<open>
  \<open>scim/errors.go\<close>: the protocol error of both halves of the library. The
  human-readable \<open>Detail\<close> of an error is not modelled: no decision of the library reads
  it, and \<open>Error.Is\<close> ignores it by design.
\<close>

definition ScimTypeInvalidFilter :: string where "ScimTypeInvalidFilter = ''invalidFilter''"
definition ScimTypeTooMany :: string where "ScimTypeTooMany = ''tooMany''"
definition ScimTypeUniqueness :: string where "ScimTypeUniqueness = ''uniqueness''"
definition ScimTypeMutability :: string where "ScimTypeMutability = ''mutability''"
definition ScimTypeInvalidSyntax :: string where "ScimTypeInvalidSyntax = ''invalidSyntax''"
definition ScimTypeInvalidPath :: string where "ScimTypeInvalidPath = ''invalidPath''"
definition ScimTypeNoTarget :: string where "ScimTypeNoTarget = ''noTarget''"
definition ScimTypeInvalidValue :: string where "ScimTypeInvalidValue = ''invalidValue''"
definition ScimTypeInvalidVers :: string where "ScimTypeInvalidVers = ''invalidVers''"
definition ScimTypeSensitive :: string where "ScimTypeSensitive = ''sensitive''"

datatype scim_error = ScimError (errStatus: int) (errScimType: string)

text \<open>
  A Go \<open>error\<close> value as the library tells them apart: a \<open>*scim.Error\<close>, possibly wrapped,
  or anything else.
\<close>

datatype go_error = ScimErr scim_error | OtherErr

text \<open>
  \<open>Is\<close> reports whether an error matches a target: the same status and, when the target
  carries a \<open>scimType\<close>, the same \<open>scimType\<close>.
\<close>

definition errorIs :: "scim_error \<Rightarrow> scim_error \<Rightarrow> bool" where
  "errorIs e t \<longleftrightarrow>
     errStatus e = errStatus t \<and> (errScimType t = [] \<or> errScimType e = errScimType t)"

definition IsStatus :: "go_error \<Rightarrow> int \<Rightarrow> bool" where
  "IsStatus err status =
     (case err of ScimErr e \<Rightarrow> errorIs e (ScimError status []) | OtherErr \<Rightarrow> False)"

definition ErrInvalidFilter :: scim_error where
  "ErrInvalidFilter = ScimError 400 ScimTypeInvalidFilter"
definition ErrTooMany :: scim_error where "ErrTooMany = ScimError 400 ScimTypeTooMany"
definition ErrUniqueness :: scim_error where "ErrUniqueness = ScimError 409 ScimTypeUniqueness"
definition ErrMutability :: scim_error where "ErrMutability = ScimError 400 ScimTypeMutability"
definition ErrInvalidSyntax :: scim_error where
  "ErrInvalidSyntax = ScimError 400 ScimTypeInvalidSyntax"
definition ErrInvalidPath :: scim_error where "ErrInvalidPath = ScimError 400 ScimTypeInvalidPath"
definition ErrNoTarget :: scim_error where "ErrNoTarget = ScimError 400 ScimTypeNoTarget"
definition ErrInvalidValue :: scim_error where
  "ErrInvalidValue = ScimError 400 ScimTypeInvalidValue"
definition ErrInvalidVers :: scim_error where "ErrInvalidVers = ScimError 400 ScimTypeInvalidVers"
definition ErrSensitive :: scim_error where "ErrSensitive = ScimError 400 ScimTypeSensitive"
definition ErrNotFound :: scim_error where "ErrNotFound = ScimError 404 []"
definition ErrPreconditionFailed :: scim_error where "ErrPreconditionFailed = ScimError 412 []"

lemmas scim_type_defs =
  ScimTypeInvalidFilter_def ScimTypeTooMany_def ScimTypeUniqueness_def ScimTypeMutability_def
  ScimTypeInvalidSyntax_def ScimTypeInvalidPath_def ScimTypeNoTarget_def
  ScimTypeInvalidValue_def ScimTypeInvalidVers_def ScimTypeSensitive_def

lemmas scim_error_defs =
  ErrInvalidFilter_def ErrTooMany_def ErrUniqueness_def ErrMutability_def ErrInvalidSyntax_def
  ErrInvalidPath_def ErrNoTarget_def ErrInvalidValue_def ErrInvalidVers_def ErrSensitive_def
  ErrNotFound_def ErrPreconditionFailed_def

text \<open>The twelve errors are told apart by \<open>errorIs\<close>: no one of them matches another.\<close>

definition tableErrors :: "scim_error list" where
  "tableErrors =
     [ErrInvalidFilter, ErrTooMany, ErrUniqueness, ErrMutability, ErrInvalidSyntax,
      ErrInvalidPath, ErrNoTarget, ErrInvalidValue, ErrInvalidVers, ErrSensitive,
      ErrNotFound, ErrPreconditionFailed]"

lemma tableErrors_separated:
  "i < length tableErrors \<Longrightarrow> j < length tableErrors \<Longrightarrow>
   errorIs (tableErrors ! i) (tableErrors ! j) \<longleftrightarrow> i = j"
proof -
  assume "i < length tableErrors" and "j < length tableErrors"
  moreover have "\<forall>i < length tableErrors. \<forall>j < length tableErrors.
      errorIs (tableErrors ! i) (tableErrors ! j) \<longleftrightarrow> i = j"
    by code_simp
  ultimately show ?thesis by blast
qed

lemma errorIs_refl [simp]: "errorIs e e"
  by (simp add: errorIs_def)

end
