(* ===== verification/Scim_Schema.thy ===== *)
theory Scim_Schema
  imports Scim_Error
begin

text \<open>
  \<open>scim/schema.go\<close>, \<open>scim/schema_enum.go\<close>, \<open>scim/resource_type.go\<close> and the common
  attributes of \<open>scim/path.go\<close>: attribute metadata, schemas and resource types.

  The characteristics are Go strings with a fixed set of valid values. Each is a datatype
  with the valid values and one constructor for any other text; the zero value is the
  empty other text. \<open>toJSON\<close> and \<open>toAttribute\<close> copy an attribute field by field, so the
  decoded form of a schema document is the same record.
\<close>

subsection \<open>Characteristics\<close>

datatype attr_type =
    TypeString | TypeBoolean | TypeDecimal | TypeInteger | TypeDateTime | TypeBinary
  | TypeReference | TypeComplex | TypeOther string

datatype mutability =
    MutabilityReadOnly | MutabilityReadWrite | MutabilityImmutable | MutabilityWriteOnly
  | MutabilityOther string

datatype returned =
    ReturnedAlways | ReturnedNever | ReturnedDefault | ReturnedRequest | ReturnedOther string

datatype uniqueness =
    UniquenessNone | UniquenessServer | UniquenessGlobal | UniquenessOther string

definition typeValid :: "attr_type \<Rightarrow> bool" where
  "typeValid t = (case t of TypeOther _ \<Rightarrow> False | _ \<Rightarrow> True)"

definition mutabilityValid :: "mutability \<Rightarrow> bool" where
  "mutabilityValid m = (case m of MutabilityOther _ \<Rightarrow> False | _ \<Rightarrow> True)"

definition returnedValid :: "returned \<Rightarrow> bool" where
  "returnedValid r = (case r of ReturnedOther _ \<Rightarrow> False | _ \<Rightarrow> True)"

definition uniquenessValid :: "uniqueness \<Rightarrow> bool" where
  "uniquenessValid u = (case u of UniquenessOther _ \<Rightarrow> False | _ \<Rightarrow> True)"

lemmas valid_defs = typeValid_def mutabilityValid_def returnedValid_def uniquenessValid_def

subsection \<open>Attributes and schemas\<close>

datatype attribute = Attribute
  (attrName: string)
  (attrType: attr_type)
  (subAttributes: "attribute list")
  (multiValued: bool)
  (attrDescription: string)
  (required: bool)
  (canonicalValues: "string list")
  (caseExact: bool)
  (mutabilityOf: mutability)
  (returnedOf: returned)
  (uniquenessOf: uniqueness)
  (referenceTypes: "string list")

record schema =
  schemaID :: string
  schemaName :: string
  schemaDescription :: string
  schemaAttributes :: "attribute list"

record schema_extension =
  extSchema :: schema
  extRequired :: bool

record resource_type =
  rtName :: string
  rtDescription :: string
  rtEndpoint :: string
  rtSchema :: schema
  rtExtensions :: "schema_extension list"

subsection \<open>Defaults\<close>

definition defaultType :: "attr_type \<Rightarrow> attr_type" where
  "defaultType t = (if t = TypeOther [] then TypeString else t)"

definition defaultMutability :: "mutability \<Rightarrow> mutability" where
  "defaultMutability m = (if m = MutabilityOther [] then MutabilityReadWrite else m)"

definition defaultReturned :: "returned \<Rightarrow> returned" where
  "defaultReturned r = (if r = ReturnedOther [] then ReturnedDefault else r)"

definition defaultUniqueness :: "uniqueness \<Rightarrow> uniqueness" where
  "defaultUniqueness u = (if u = UniquenessOther [] then UniquenessNone else u)"

lemmas default_defs =
  defaultType_def defaultMutability_def defaultReturned_def defaultUniqueness_def

text \<open>\<open>withDefaults\<close> fills the absent characteristics, sub-attributes included.\<close>

fun attrWithDefaults :: "attribute \<Rightarrow> attribute" where
  "attrWithDefaults (Attribute n t subs mv desc req canon ce m r u refs) =
     Attribute n (defaultType t) (map attrWithDefaults subs) mv desc req canon ce
       (defaultMutability m) (defaultReturned r) (defaultUniqueness u) refs"

definition schemaWithDefaults :: "schema \<Rightarrow> schema" where
  "schemaWithDefaults s = s\<lparr>schemaAttributes := map attrWithDefaults (schemaAttributes s)\<rparr>"

subsection \<open>Validation\<close>

datatype schema_error =
    MissingName | InvalidType | InvalidMutability | InvalidReturned | InvalidUniqueness
  | SubAttributesOnNonComplex | MissingID | DuplicateAttribute

text \<open>The first invalid characteristic of an attribute, sub-attributes last.\<close>

fun attrValidate :: "attribute \<Rightarrow> (schema_error, unit) res" where
  "attrValidate (Attribute n t subs mv desc req canon ce m r u refs) =
     (if n = [] then Inl MissingName
      else if \<not> typeValid t then Inl InvalidType
      else if \<not> mutabilityValid m then Inl InvalidMutability
      else if \<not> returnedValid r then Inl InvalidReturned
      else if \<not> uniquenessValid u then Inl InvalidUniqueness
      else if subs \<noteq> [] \<and> t \<noteq> TypeComplex then Inl SubAttributesOnNonComplex
      else rfold (\<lambda>sub _. attrValidate sub) subs ())"

text \<open>The loop over the attributes carries the set of folded names seen so far.\<close>

definition validateStep :: "attribute \<Rightarrow> string list \<Rightarrow> (schema_error, string list) res" where
  "validateStep a seen =
     rbind (attrValidate a) (\<lambda>_.
       if foldName (attrName a) \<in> set seen then Inl DuplicateAttribute
       else Inr (foldName (attrName a) # seen))"

definition schemaValidate :: "schema \<Rightarrow> (schema_error, unit) res" where
  "schemaValidate s =
     (if schemaID s = [] then Inl MissingID
      else rbind (rfold validateStep (schemaAttributes s) []) (\<lambda>_. Inr ()))"

definition ParseSchema :: "schema \<Rightarrow> (schema_error, schema) res" where
  "ParseSchema j =
     (let s = schemaWithDefaults j in rbind (schemaValidate s) (\<lambda>_. Inr s))"

subsection \<open>What validation accepts\<close>

fun attrOk :: "attribute \<Rightarrow> bool" where
  "attrOk (Attribute n t subs mv desc req canon ce m r u refs) \<longleftrightarrow>
     n \<noteq> [] \<and> typeValid t \<and> mutabilityValid m \<and> returnedValid r \<and> uniquenessValid u \<and>
     (subs = [] \<or> t = TypeComplex) \<and> list_all attrOk subs"

definition foldedNames :: "attribute list \<Rightarrow> string list" where
  "foldedNames as = map (foldName \<circ> attrName) as"

lemma foldedNames_simps [simp]:
  "foldedNames [] = []"
  "foldedNames (a # as) = foldName (attrName a) # foldedNames as"
  by (simp_all add: foldedNames_def)

lemma rfold_unit_ok: "rfold (\<lambda>x _. f x) xs () = Inr () \<longleftrightarrow> (\<forall>x \<in> set xs. f x = Inr ())"
  by (induction xs) (auto simp: res_simps)

lemma attrValidate_ok: "attrValidate a = Inr () \<longleftrightarrow> attrOk a"
proof (induction a rule: attrOk.induct)
  case (1 n t subs mv desc req canon ce m r u refs)
  then show ?case by (auto simp: rfold_unit_ok list_all_iff)
qed

lemma validate_loop_ok:
  "(\<exists>seen'. rfold validateStep as seen = Inr seen') \<longleftrightarrow>
     list_all attrOk as \<and> distinct (foldedNames as) \<and> set (foldedNames as) \<inter> set seen = {}"
proof (induction as arbitrary: seen)
  case (Cons a as)
  have "validateStep a seen = Inr s \<longleftrightarrow>
      attrOk a \<and> foldName (attrName a) \<notin> set seen \<and> s = foldName (attrName a) # seen" for s
    by (auto simp: validateStep_def res_simps attrValidate_ok)
  with Cons show ?case by (auto simp: res_simps)
qed simp

lemma schemaValidate_ok:
  "schemaValidate s = Inr () \<longleftrightarrow>
     schemaID s \<noteq> [] \<and> list_all attrOk (schemaAttributes s) \<and>
     distinct (foldedNames (schemaAttributes s))"
  using validate_loop_ok [of "schemaAttributes s" "[]"]
  by (auto simp: schemaValidate_def res_simps)

lemma attrWithDefaults_idem [simp]: "attrWithDefaults (attrWithDefaults a) = attrWithDefaults a"
  by (induction a rule: attrWithDefaults.induct) (simp add: default_defs)

lemma schemaWithDefaults_idem [simp]:
  "schemaWithDefaults (schemaWithDefaults s) = schemaWithDefaults s"
  by (simp add: schemaWithDefaults_def)

lemma ParseSchema_ok: "ParseSchema j = Inr s \<longleftrightarrow> s = schemaWithDefaults j \<and> schemaValidate s = Inr ()"
  by (auto simp: ParseSchema_def Let_def res_simps)

subsection \<open>Attribute lookup (\<open>scim/value.go\<close>)\<close>

definition findAttribute :: "attribute list \<Rightarrow> string \<Rightarrow> attribute option" where
  "findAttribute attrs name = find (\<lambda>a. equalFold (attrName a) name) attrs"

definition FindAttribute :: "attribute list \<Rightarrow> string \<Rightarrow> attribute option" where
  "FindAttribute = findAttribute"

lemma findAttribute_SomeD:
  "findAttribute as n = Some a \<Longrightarrow> a \<in> set as \<and> foldName (attrName a) = foldName n"
  by (auto simp: findAttribute_def equalFold_def find_Some_iff in_set_conv_nth)

lemma findAttribute_fold_cong: "foldName m = foldName n \<Longrightarrow> findAttribute as m = findAttribute as n"
  by (simp add: findAttribute_def equalFold_def)

lemma findAttribute_foldName [simp]: "findAttribute as (foldName n) = findAttribute as n"
  by (rule findAttribute_fold_cong) simp

lemma findAttribute_None_iff:
  "findAttribute as n = None \<longleftrightarrow> foldName n \<notin> set (foldedNames as)"
  by (force simp: findAttribute_def equalFold_def find_None_iff foldedNames_def)

lemma findAttribute_in:
  assumes "distinct (foldedNames as)" and "a \<in> set as"
  shows "findAttribute as (attrName a) = Some a"
  using assms
proof (induction as)
  case (Cons b as)
  then show ?case
    by (auto simp: findAttribute_def equalFold_def foldedNames_def)
qed simp

subsection \<open>The common attributes (\<open>scim/path.go\<close>)\<close>

definition attrSchemas :: string where "attrSchemas = ''schemas''"
definition attrMeta :: string where "attrMeta = ''meta''"

abbreviation metaSub :: "string \<Rightarrow> attr_type \<Rightarrow> bool \<Rightarrow> attribute" where
  "metaSub n t ce \<equiv> Attribute n t [] False [] False [] ce MutabilityReadOnly ReturnedDefault
     (UniquenessOther []) []"

definition commonAttributes :: "attribute list" where
  "commonAttributes =
     [Attribute ''id'' TypeString [] False [] False [] True
        MutabilityReadOnly ReturnedAlways UniquenessServer [],
      Attribute ''externalId'' TypeString [] False [] False [] True
        MutabilityReadWrite ReturnedDefault UniquenessNone [],
      Attribute ''meta'' TypeComplex
        [metaSub ''resourceType'' TypeString True,
         metaSub ''created'' TypeDateTime False,
         metaSub ''lastModified'' TypeDateTime False,
         metaSub ''location'' TypeString True,
         metaSub ''version'' TypeString True]
        False [] False [] False
        MutabilityReadOnly ReturnedDefault (UniquenessOther []) [],
      Attribute ''schemas'' TypeString [] True [] False [] True
        MutabilityReadWrite ReturnedAlways (UniquenessOther []) []]"

lemma foldedNames_commonAttributes:
  "foldedNames commonAttributes = [''id'', ''externalid'', ''meta'', ''schemas'']"
  by (simp add: commonAttributes_def foldedNames_def)

subsection \<open>Extension schemas\<close>

definition extensionSchema :: "resource_type \<Rightarrow> string \<Rightarrow> schema option" where
  "extensionSchema rt urn =
     map_option extSchema
       (find (\<lambda>x. foldName (schemaID (extSchema x)) = foldName urn) (rtExtensions rt))"

lemma extensionSchema_SomeD:
  "extensionSchema rt urn = Some s \<Longrightarrow>
     (\<exists>x \<in> set (rtExtensions rt). extSchema x = s) \<and> foldName (schemaID s) = foldName urn"
  by (auto simp: extensionSchema_def find_Some_iff intro: nth_mem)

lemma extensionSchema_fold_cong:
  "foldName u = foldName v \<Longrightarrow> extensionSchema rt u = extensionSchema rt v"
  by (simp add: extensionSchema_def)

end
