(* ===== verification/Scim_Value.thy ===== *)
theory Scim_Value
  imports Scim_Schema
begin

text \<open>
  \<open>scim/value.go\<close>: the dynamic values of the library and their coercion to stored form.

  \<open>gval\<close> is the set of dynamic types the code tells apart in an \<open>any\<close>: decoded JSON
  (\<open>VNil\<close>, \<open>VString\<close>, \<open>VBool\<close>, \<open>VNumber\<close> for \<open>json.Number\<close>, \<open>VList\<close>, \<open>VMap\<close>), natural Go
  values, and the stored forms of the table in \<open>value.go\<close>. A coercion returning
  \<open>(nil, nil)\<close> is \<open>Inr VNil\<close>: the value canonicalises to unassigned.

  The code's recursion \<open>coerceValue \<rightarrow> coerceComplex \<rightarrow> coerceValue\<close> has depth two, since a
  complex sub-attribute is rejected before the inner call. The functions that can reach
  \<open>coerceComplex\<close> take it as an argument (the suffix \<open>With\<close>); \<open>coerceValue\<close> ties the knot,
  and \<open>coerceSub_eq\<close> shows that the inner call is the code's call of \<open>coerceValue\<close>.
\<close>

subsection \<open>Values\<close>

datatype gval =
    VNil
  | VString string
  | VBool bool
  | VInt64 int
  | VFloat64 float64
  | VTime gotime
  | VBytes string
  | VRef string
  | VComplex "(string \<times> gval) list"
  | VMulti "(string \<times> gval) list list"
  | VStrings "string list"
  | VBools "bool list"
  | VInt64s "int list"
  | VFloat64s "float64 list"
  | VTimes "gotime list"
  | VBytess "string list"
  | VRefs "string list"
  | VNumber string
  | VList "gval list"
  | VMap "(string \<times> gval) list"
  | VInt int
  | VInt32 int
  | VFloat32 float64
  | VComplexes "(string \<times> gval) list list"
  | VMaps "(string \<times> gval) list list"

type_synonym cval = "(string \<times> gval) list" \<comment> \<open>\<open>ComplexValue\<close> and \<open>map[string]any\<close>\<close>

datatype coerce_error =
    TypeMismatch | BadDateTime | BadBase64 | UnknownType | ComplexInComplex | ManyPrimaries

text \<open>\<open>IndexFunc\<close>: the index of the first element satisfying the predicate.\<close>

fun indexFunc :: "('a \<Rightarrow> bool) \<Rightarrow> 'a list \<Rightarrow> nat option" where
  "indexFunc p [] = None"
| "indexFunc p (x # xs) = (if p x then Some 0 else map_option Suc (indexFunc p xs))"

lemma indexFunc_Some:
  "indexFunc p xs = Some i \<longleftrightarrow> i < length xs \<and> p (xs ! i) \<and> (\<forall>j < i. \<not> p (xs ! j))"
proof (induction xs arbitrary: i)
  case (Cons x xs)
  then show ?case by (cases i) (auto simp: nth_Cons split: nat.splits)
qed simp

lemma indexFunc_None: "indexFunc p xs = None \<longleftrightarrow> (\<forall>x \<in> set xs. \<not> p x)"
  by (induction xs) auto

subsection \<open>Scalars\<close>

definition isStoredScalar :: "attr_type \<Rightarrow> gval \<Rightarrow> bool" where
  "isStoredScalar t v =
     (case v of
        VString _ \<Rightarrow> t = TypeString
      | VBool _ \<Rightarrow> t = TypeBoolean
      | VFloat64 _ \<Rightarrow> t = TypeDecimal
      | VInt64 _ \<Rightarrow> t = TypeInteger
      | VTime _ \<Rightarrow> t = TypeDateTime
      | VRef _ \<Rightarrow> t = TypeReference
      | _ \<Rightarrow> False)"

definition coerceString :: "gval \<Rightarrow> (coerce_error, gval) res" where
  "coerceString v = (case v of VString s \<Rightarrow> Inr (VString s) | _ \<Rightarrow> Inl TypeMismatch)"

definition coerceBool :: "gval \<Rightarrow> (coerce_error, gval) res" where
  "coerceBool v = (case v of VBool b \<Rightarrow> Inr (VBool b) | _ \<Rightarrow> Inl TypeMismatch)"

definition coerceDecimal :: "gval \<Rightarrow> (coerce_error, gval) res" where
  "coerceDecimal v =
     (case v of
        VFloat64 f \<Rightarrow> Inr (VFloat64 f)
      | VFloat32 f \<Rightarrow> Inr (VFloat64 f)
      | VInt i \<Rightarrow> Inr (VFloat64 (intToFloat64 i))
      | VInt64 i \<Rightarrow> Inr (VFloat64 (intToFloat64 i))
      | VNumber n \<Rightarrow>
          (case parseFloat64 n of Some f \<Rightarrow> Inr (VFloat64 f) | None \<Rightarrow> Inl TypeMismatch)
      | _ \<Rightarrow> Inl TypeMismatch)"

definition coerceInteger :: "gval \<Rightarrow> (coerce_error, gval) res" where
  "coerceInteger v =
     (case v of
        VInt i \<Rightarrow> Inr (VInt64 i)
      | VInt32 i \<Rightarrow> Inr (VInt64 i)
      | VInt64 i \<Rightarrow> Inr (VInt64 i)
      | VNumber n \<Rightarrow>
          (case parseInt64 n of Some i \<Rightarrow> Inr (VInt64 i) | None \<Rightarrow> Inl TypeMismatch)
      | VFloat64 f \<Rightarrow>
          (let i = float64ToInt64 f
           in if fltEq (intToFloat64 i) f then Inr (VInt64 i) else Inl TypeMismatch)
      | _ \<Rightarrow> Inl TypeMismatch)"

definition coerceDateTime :: "gval \<Rightarrow> (coerce_error, gval) res" where
  "coerceDateTime v =
     (case v of
        VTime t \<Rightarrow> Inr (VTime t)
      | VString s \<Rightarrow>
          (case parseRFC3339 s of Some t \<Rightarrow> Inr (VTime t) | None \<Rightarrow> Inl BadDateTime)
      | _ \<Rightarrow> Inl TypeMismatch)"

definition coerceBinary :: "gval \<Rightarrow> (coerce_error, gval) res" where
  "coerceBinary v =
     (case v of
        VBytes b \<Rightarrow> Inr (VBytes b)
      | VString s \<Rightarrow>
          (case base64Decode s of Some b \<Rightarrow> Inr (VBytes b) | None \<Rightarrow> Inl BadBase64)
      | _ \<Rightarrow> Inl TypeMismatch)"

definition coerceReference :: "gval \<Rightarrow> (coerce_error, gval) res" where
  "coerceReference v =
     (case v of VRef r \<Rightarrow> Inr (VRef r) | VString s \<Rightarrow> Inr (VRef s) | _ \<Rightarrow> Inl TypeMismatch)"

subsection \<open>Single and multi-valued coercion\<close>

type_synonym coercion = "attribute \<Rightarrow> gval \<Rightarrow> (coerce_error, gval) res"

definition coerceSingleWith :: "coercion \<Rightarrow> coercion" where
  "coerceSingleWith complex a v =
     (if isStoredScalar (attrType a) v then Inr v
      else case attrType a of
        TypeString \<Rightarrow> coerceString v
      | TypeBoolean \<Rightarrow> coerceBool v
      | TypeDecimal \<Rightarrow> coerceDecimal v
      | TypeInteger \<Rightarrow> coerceInteger v
      | TypeDateTime \<Rightarrow> coerceDateTime v
      | TypeBinary \<Rightarrow> coerceBinary v
      | TypeReference \<Rightarrow> coerceReference v
      | TypeComplex \<Rightarrow> complex a v
      | TypeOther _ \<Rightarrow> Inl UnknownType)"

definition multiItems :: "gval \<Rightarrow> (coerce_error, gval list) res" where
  "multiItems v =
     (case v of
        VList xs \<Rightarrow> Inr xs
      | VStrings xs \<Rightarrow> Inr (map VString xs)
      | VComplexes xs \<Rightarrow> Inr (map VComplex xs)
      | VMulti xs \<Rightarrow> Inr (map VComplex xs)
      | VMaps xs \<Rightarrow> Inr (map VMap xs)
      | _ \<Rightarrow> Inl TypeMismatch)"

definition attrPrimary :: string where "attrPrimary = ''primary''"

definition primaryTrue :: "cval \<Rightarrow> bool" where
  "primaryTrue cv \<longleftrightarrow> aget cv attrPrimary = Some (VBool True)"

text \<open>One element of a multi-valued complex value; the state is the output and the
  number of primaries.\<close>

definition multiComplexStep ::
    "coercion \<Rightarrow> attribute \<Rightarrow> gval \<Rightarrow> cval list \<times> nat \<Rightarrow> (coerce_error, cval list \<times> nat) res" where
  "multiComplexStep complex a item st =
     rbind (complex a item) (\<lambda>cv. case cv of
        VComplex m \<Rightarrow> Inr (fst st @ [m], if primaryTrue m then Suc (snd st) else snd st)
      | _ \<Rightarrow> Inr st)"

definition coerceMultiComplex :: "coercion \<Rightarrow> attribute \<Rightarrow> gval list \<Rightarrow> (coerce_error, gval) res" where
  "coerceMultiComplex complex a items =
     rbind (rfold (multiComplexStep complex a) items ([], 0)) (\<lambda>(out, primaries).
       if 1 < primaries then Inl ManyPrimaries
       else if out = [] then Inr VNil else Inr (VMulti out))"

text \<open>
  \<open>coerceSlice[T]\<close>: \<open>proj\<close> is the type assertion \<open>cv.(T)\<close>, \<open>mk\<close> boxes the slice.
\<close>

definition sliceStep ::
    "coercion \<Rightarrow> (gval \<Rightarrow> 'a option) \<Rightarrow> attribute \<Rightarrow> gval \<Rightarrow> 'a list \<Rightarrow> (coerce_error, 'a list) res" where
  "sliceStep single proj a item out =
     (if item = VNil then Inr out
      else rbind (single a item) (\<lambda>cv. case proj cv of
             None \<Rightarrow> Inl TypeMismatch | Some t \<Rightarrow> Inr (out @ [t])))"

definition coerceSlice ::
    "coercion \<Rightarrow> (gval \<Rightarrow> 'a option) \<Rightarrow> ('a list \<Rightarrow> gval) \<Rightarrow> attribute \<Rightarrow> gval list \<Rightarrow>
      (coerce_error, gval) res" where
  "coerceSlice single proj mk a items =
     rbind (rfold (sliceStep single proj a) items []) (\<lambda>out.
       if out = [] then Inr VNil else Inr (mk out))"

definition asString :: "gval \<Rightarrow> string option" where
  "asString v = (case v of VString s \<Rightarrow> Some s | _ \<Rightarrow> None)"
definition asBool :: "gval \<Rightarrow> bool option" where
  "asBool v = (case v of VBool b \<Rightarrow> Some b | _ \<Rightarrow> None)"
definition asFloat64 :: "gval \<Rightarrow> float64 option" where
  "asFloat64 v = (case v of VFloat64 f \<Rightarrow> Some f | _ \<Rightarrow> None)"
definition asInt64 :: "gval \<Rightarrow> int option" where
  "asInt64 v = (case v of VInt64 i \<Rightarrow> Some i | _ \<Rightarrow> None)"
definition asTime :: "gval \<Rightarrow> gotime option" where
  "asTime v = (case v of VTime t \<Rightarrow> Some t | _ \<Rightarrow> None)"
definition asBytes :: "gval \<Rightarrow> string option" where
  "asBytes v = (case v of VBytes b \<Rightarrow> Some b | _ \<Rightarrow> None)"
definition asRef :: "gval \<Rightarrow> string option" where
  "asRef v = (case v of VRef r \<Rightarrow> Some r | _ \<Rightarrow> None)"

lemmas as_defs = asString_def asBool_def asFloat64_def asInt64_def asTime_def asBytes_def asRef_def

definition coerceMultiScalar :: "coercion \<Rightarrow> attribute \<Rightarrow> gval list \<Rightarrow> (coerce_error, gval) res" where
  "coerceMultiScalar single a items =
     (case attrType a of
        TypeString \<Rightarrow> coerceSlice single asString VStrings a items
      | TypeBoolean \<Rightarrow> coerceSlice single asBool VBools a items
      | TypeDecimal \<Rightarrow> coerceSlice single asFloat64 VFloat64s a items
      | TypeInteger \<Rightarrow> coerceSlice single asInt64 VInt64s a items
      | TypeDateTime \<Rightarrow> coerceSlice single asTime VTimes a items
      | TypeBinary \<Rightarrow> coerceSlice single asBytes VBytess a items
      | TypeReference \<Rightarrow> coerceSlice single asRef VRefs a items
      | _ \<Rightarrow> Inl UnknownType)"

definition coerceMultiWith :: "coercion \<Rightarrow> coercion" where
  "coerceMultiWith complex a v =
     rbind (multiItems v) (\<lambda>items.
       if items = [] then Inr VNil
       else if attrType a = TypeComplex then coerceMultiComplex complex a items
       else coerceMultiScalar (coerceSingleWith complex) a items)"

definition coerceValueWith :: "coercion \<Rightarrow> coercion" where
  "coerceValueWith complex a v =
     (if v = VNil then Inr VNil
      else if multiValued a then coerceMultiWith complex a v
      else coerceSingleWith complex a v)"

subsection \<open>Complex values\<close>

definition coerceSub :: coercion where
  "coerceSub = coerceValueWith (\<lambda>_ _. Inl ComplexInComplex)"

text \<open>One key of the object.\<close>

definition complexStep :: "attribute \<Rightarrow> string \<times> gval \<Rightarrow> cval \<Rightarrow> (coerce_error, cval) res" where
  "complexStep a kv out =
     (case findAttribute (subAttributes a) (fst kv) of
        None \<Rightarrow> Inr out
      | Some sub \<Rightarrow>
          if attrType sub = TypeComplex then Inl ComplexInComplex
          else if snd kv = VNil then Inr out
          else rbind (coerceSub sub (snd kv)) (\<lambda>cv.
                 if cv = VNil then Inr out
                 else Inr (aput (foldName (attrName sub)) cv out)))"

definition coerceComplex :: coercion where
  "coerceComplex a v =
     rbind (case v of VComplex m \<Rightarrow> Inr m | VMap m \<Rightarrow> Inr m | _ \<Rightarrow> Inl TypeMismatch) (\<lambda>src.
     rbind (rfold (complexStep a) src []) (\<lambda>out.
       if out = [] then Inr VNil else Inr (VComplex out)))"

definition coerceSingle :: coercion where
  "coerceSingle = coerceSingleWith coerceComplex"

definition coerceValue :: coercion where
  "coerceValue = coerceValueWith coerceComplex"

definition Coerce :: coercion where
  "Coerce = coerceValue"

lemma coerceSingleWith_scalar:
  "attrType a \<noteq> TypeComplex \<Longrightarrow> coerceSingleWith f a = coerceSingleWith g a"
  by (rule ext) (simp add: coerceSingleWith_def split: attr_type.splits)

lemma sliceStep_cong: "single a = single' a \<Longrightarrow> sliceStep single proj a = sliceStep single' proj a"
  by (rule ext)+ (simp add: sliceStep_def)

lemma coerceMultiScalar_cong:
  "single a = single' a \<Longrightarrow> coerceMultiScalar single a = coerceMultiScalar single' a"
  by (rule ext)
    (simp add: coerceMultiScalar_def coerceSlice_def sliceStep_cong [of single a single']
      split: attr_type.splits)

lemma coerceValueWith_scalar:
  assumes "attrType a \<noteq> TypeComplex"
  shows "coerceValueWith f a = coerceValueWith g a"
proof (rule ext)
  fix v
  have single: "coerceSingleWith f a = coerceSingleWith g a"
    by (rule coerceSingleWith_scalar [OF assms])
  have multi: "coerceMultiScalar (coerceSingleWith f) a = coerceMultiScalar (coerceSingleWith g) a"
    by (rule coerceMultiScalar_cong [of "coerceSingleWith f" a "coerceSingleWith g", OF single])
  show "coerceValueWith f a v = coerceValueWith g a v"
    by (cases "multiItems v") (simp_all add: coerceValueWith_def coerceMultiWith_def assms single multi)
qed

text \<open>The inner call of \<open>coerceComplex\<close> is \<open>coerceValue\<close>.\<close>

lemma coerceSub_eq:
  assumes "attrType sub \<noteq> TypeComplex"
  shows "coerceSub sub v = coerceValue sub v"
  unfolding coerceSub_def coerceValue_def
  using coerceValueWith_scalar [OF assms, of "\<lambda>_ _. Inl ComplexInComplex" coerceComplex]
  by simp

subsection \<open>The stored forms\<close>

text \<open>The table of stored forms in \<open>value.go\<close>, as predicates on values.\<close>

definition storedScalar :: "attr_type \<Rightarrow> gval \<Rightarrow> bool" where
  "storedScalar t v \<longleftrightarrow> isStoredScalar t v \<or> (t = TypeBinary \<and> (case v of VBytes _ \<Rightarrow> True | _ \<Rightarrow> False))"

definition storedSlice :: "attr_type \<Rightarrow> gval \<Rightarrow> bool" where
  "storedSlice t v \<longleftrightarrow>
     (case v of
        VStrings xs \<Rightarrow> t = TypeString \<and> xs \<noteq> []
      | VBools xs \<Rightarrow> t = TypeBoolean \<and> xs \<noteq> []
      | VFloat64s xs \<Rightarrow> t = TypeDecimal \<and> xs \<noteq> []
      | VInt64s xs \<Rightarrow> t = TypeInteger \<and> xs \<noteq> []
      | VTimes xs \<Rightarrow> t = TypeDateTime \<and> xs \<noteq> []
      | VBytess xs \<Rightarrow> t = TypeBinary \<and> xs \<noteq> []
      | VRefs xs \<Rightarrow> t = TypeReference \<and> xs \<noteq> []
      | _ \<Rightarrow> False)"

definition storedLeaf :: "attribute \<Rightarrow> gval \<Rightarrow> bool" where
  "storedLeaf a v \<longleftrightarrow>
     attrType a \<noteq> TypeComplex \<and>
     (if multiValued a then storedSlice (attrType a) v else storedScalar (attrType a) v)"

definition storedEntry :: "attribute list \<Rightarrow> string \<times> gval \<Rightarrow> bool" where
  "storedEntry subs kv \<longleftrightarrow>
     (case findAttribute subs (fst kv) of
        None \<Rightarrow> False
      | Some sub \<Rightarrow> fst kv = foldName (attrName sub) \<and> storedLeaf sub (snd kv))"

definition storedComplex :: "attribute list \<Rightarrow> cval \<Rightarrow> bool" where
  "storedComplex subs m \<longleftrightarrow> m \<noteq> [] \<and> distinct_keys m \<and> list_all (storedEntry subs) m"

definition storedValue :: "attribute \<Rightarrow> gval \<Rightarrow> bool" where
  "storedValue a v \<longleftrightarrow>
     (if attrType a = TypeComplex
      then (if multiValued a
            then (case v of VMulti ms \<Rightarrow>
                    ms \<noteq> [] \<and> list_all (storedComplex (subAttributes a)) ms \<and>
                    length (filter primaryTrue ms) \<le> 1 | _ \<Rightarrow> False)
            else (case v of VComplex m \<Rightarrow> storedComplex (subAttributes a) m | _ \<Rightarrow> False))
      else storedLeaf a v)"

lemmas stored_defs = storedScalar_def storedSlice_def storedLeaf_def

lemma storedValue_not_VNil [simp]: "\<not> storedValue a VNil"
  by (simp add: storedValue_def stored_defs isStoredScalar_def)

lemma storedLeaf_not_VNil [simp]: "\<not> storedLeaf a VNil"
  by (simp add: stored_defs isStoredScalar_def)

lemma storedValue_leaf: "attrType a \<noteq> TypeComplex \<Longrightarrow> storedValue a v = storedLeaf a v"
  by (simp add: storedValue_def)

lemmas coerce_scalar_defs =
  coerceString_def coerceBool_def coerceDecimal_def coerceInteger_def coerceDateTime_def
  coerceBinary_def coerceReference_def

lemma coerceSingleWith_stored:
  "attrType a \<noteq> TypeComplex \<Longrightarrow> coerceSingleWith f a v = Inr w \<Longrightarrow> storedScalar (attrType a) w"
  by (auto simp: coerceSingleWith_def storedScalar_def isStoredScalar_def coerce_scalar_defs Let_def
      split: attr_type.splits gval.splits option.splits if_splits)

lemma coerceSlice_not_Nil:
  "coerceSlice single proj mk a items = Inr w \<Longrightarrow> w = VNil \<or> (\<exists>xs. xs \<noteq> [] \<and> w = mk xs)"
  by (auto simp: coerceSlice_def res_simps split: if_splits)

lemma coerceMultiScalar_stored:
  "coerceMultiScalar single a items = Inr w \<Longrightarrow> w = VNil \<or> storedSlice (attrType a) w"
  by (auto simp: coerceMultiScalar_def storedSlice_def
      split: attr_type.splits dest!: coerceSlice_not_Nil)

lemma coerceSub_stored:
  assumes "attrType sub \<noteq> TypeComplex" and "coerceSub sub v = Inr w"
  shows "w = VNil \<or> storedLeaf sub w"
  using assms
  by (auto simp: coerceSub_def coerceValueWith_def coerceMultiWith_def storedLeaf_def res_simps
      split: if_splits dest: coerceSingleWith_stored coerceMultiScalar_stored)

text \<open>The invariant of the loop over the keys of an object.\<close>

definition partialComplex :: "attribute list \<Rightarrow> cval \<Rightarrow> bool" where
  "partialComplex subs m \<longleftrightarrow> distinct_keys m \<and> list_all (storedEntry subs) m"

lemma storedComplex_partial: "storedComplex subs m \<longleftrightarrow> m \<noteq> [] \<and> partialComplex subs m"
  by (auto simp: storedComplex_def partialComplex_def)

lemma storedEntryI:
  assumes "findAttribute subs k = Some sub" and "storedLeaf sub v"
  shows "storedEntry subs (foldName (attrName sub), v)"
proof -
  have "foldName (attrName sub) = foldName k"
    using findAttribute_SomeD [OF assms(1)] by simp
  then have "findAttribute subs (foldName (attrName sub)) = Some sub"
    using assms(1) by simp
  then show ?thesis using assms(2) by (simp add: storedEntry_def)
qed

lemma partialComplex_aput:
  "partialComplex subs m \<Longrightarrow> storedEntry subs (k, v) \<Longrightarrow> partialComplex subs (aput k v m)"
  using set_aput_subset [of k v m] by (auto simp: partialComplex_def list_all_iff)

lemma partialComplex_adel: "partialComplex subs m \<Longrightarrow> partialComplex subs (adel k m)"
  using set_adel_subset [of k m] by (auto simp: partialComplex_def list_all_iff)

lemma complexStep_partial:
  assumes "complexStep a kv out = Inr out'" and "partialComplex (subAttributes a) out"
  shows "partialComplex (subAttributes a) out'"
proof (cases "out' = out")
  case False
  with assms(1) obtain sub cv where sub: "findAttribute (subAttributes a) (fst kv) = Some sub"
      and "attrType sub \<noteq> TypeComplex" "coerceSub sub (snd kv) = Inr cv" "cv \<noteq> VNil"
      and out': "out' = aput (foldName (attrName sub)) cv out"
    by (auto simp: complexStep_def res_simps split: option.splits if_splits)
  then have "storedLeaf sub cv" using coerceSub_stored by blast
  from storedEntryI [OF sub this] show ?thesis
    unfolding out' by (rule partialComplex_aput [OF assms(2)])
qed (use assms in simp)

lemma coerceComplex_stored:
  assumes "coerceComplex a v = Inr w"
  shows "w = VNil \<or> (\<exists>m. w = VComplex m \<and> storedComplex (subAttributes a) m)"
proof -
  obtain src out where loop: "rfold (complexStep a) src [] = Inr out"
    and w: "w = (if out = [] then VNil else VComplex out)"
    using assms by (auto simp: coerceComplex_def res_simps split: if_splits)
  have "partialComplex (subAttributes a) out"
    by (rule rfold_invariant [OF loop]) (simp add: partialComplex_def, rule complexStep_partial)
  with w show ?thesis by (auto simp: storedComplex_partial)
qed

text \<open>The invariant of the loop over the elements of a multi-valued complex value.\<close>

lemma multiComplexStep_inv:
  assumes "multiComplexStep coerceComplex a item (out, p) = Inr (out', p')"
    and "list_all (storedComplex (subAttributes a)) out" and "p = length (filter primaryTrue out)"
  shows "list_all (storedComplex (subAttributes a)) out' \<and> p' = length (filter primaryTrue out')"
proof -
  from assms(1) obtain cv where "coerceComplex a item = Inr cv"
      and step: "(case cv of
        VComplex m \<Rightarrow> Inr (fst (out, p) @ [m], if primaryTrue m then Suc (snd (out, p)) else snd (out, p))
      | _ \<Rightarrow> Inr (out, p)) = (Inr (out', p') :: (coerce_error, cval list \<times> nat) res)"
    by (auto simp only: multiComplexStep_def rbind_eq_Inr)
  from coerceComplex_stored [OF this(1)] show ?thesis
  proof
    assume "cv = VNil"
    with step assms(2,3) show ?thesis by auto
  next
    assume "\<exists>m. cv = VComplex m \<and> storedComplex (subAttributes a) m"
    with step assms(2,3) show ?thesis by (auto split: if_splits)
  qed
qed

lemma coerceMultiComplex_stored:
  assumes "coerceMultiComplex coerceComplex a items = Inr w" and "attrType a = TypeComplex"
    and "multiValued a"
  shows "w = VNil \<or> storedValue a w"
proof -
  obtain out p where loop: "rfold (multiComplexStep coerceComplex a) items ([], 0) = Inr (out, p)"
    and p: "\<not> 1 < p" and w: "w = (if out = [] then VNil else VMulti out)"
    using assms(1) by (auto simp: coerceMultiComplex_def res_simps split: if_splits)
  have "(\<lambda>(out, p). list_all (storedComplex (subAttributes a)) out \<and>
      p = length (filter primaryTrue out)) (out, p)"
    by (rule rfold_invariant [OF loop]) (auto dest: multiComplexStep_inv)
  with p w assms(2,3) show ?thesis by (auto simp: storedValue_def)
qed

text \<open>Whatever is coerced is a stored form of the attribute, or unassigned.\<close>

lemma coerceValue_stored:
  assumes "coerceValue a v = Inr w"
  shows "w = VNil \<or> storedValue a w"
proof (cases "attrType a = TypeComplex")
  case False
  with assms have "coerceSub a v = Inr w" by (simp add: coerceSub_eq)
  with False show ?thesis by (auto dest: coerceSub_stored simp: storedValue_leaf)
next
  case True
  show ?thesis
  proof (cases "v = VNil")
    case False
    show ?thesis
    proof (cases "multiValued a")
      case multi: True
      with assms True False show ?thesis
        by (auto simp: coerceValue_def coerceValueWith_def coerceMultiWith_def res_simps
            split: if_splits dest: coerceMultiComplex_stored)
    next
      case single: False
      from True have "\<not> isStoredScalar (attrType a) v"
        by (auto simp: isStoredScalar_def split: gval.splits)
      with assms True False single have "coerceComplex a v = Inr w"
        by (simp add: coerceValue_def coerceValueWith_def coerceSingleWith_def)
      with True single show ?thesis by (auto simp: storedValue_def dest: coerceComplex_stored)
    qed
  qed (use assms in \<open>simp add: coerceValue_def coerceValueWith_def\<close>)
qed

subsection \<open>Coercing what is stored\<close>

lemma complexStep_stored:
  assumes "storedEntry (subAttributes a) kv" and "fst kv \<notin> fst ` set out"
    and "\<And>sub. findAttribute (subAttributes a) (fst kv) = Some sub \<Longrightarrow> coerceSub sub (snd kv) = Inr (snd kv)"
  shows "complexStep a kv out = Inr (out @ [kv])"
proof -
  from assms(1) obtain sub where sub: "findAttribute (subAttributes a) (fst kv) = Some sub"
      and key: "fst kv = foldName (attrName sub)" and leaf: "storedLeaf sub (snd kv)"
    by (auto simp: storedEntry_def split: option.splits)
  have fresh: "k \<notin> fst ` set m \<Longrightarrow> aput k v m = m @ [(k, v)]" for k v and m :: cval
    by (induction m) auto
  from leaf have "attrType sub \<noteq> TypeComplex" "snd kv \<noteq> VNil"
    by (auto simp: storedLeaf_def storedSlice_def storedScalar_def isStoredScalar_def split: if_splits)
  with sub assms(2) assms(3) [OF sub] key show ?thesis
    by (cases kv) (simp add: complexStep_def fresh)
qed

text \<open>A stored scalar coerces to itself.\<close>

lemma coerceSub_scalar_stored:
  assumes "storedLeaf sub v" and "\<not> multiValued sub"
  shows "coerceSub sub v = Inr v"
  using assms
  by (auto simp: coerceSub_def coerceValueWith_def coerceSingleWith_def storedLeaf_def
      storedScalar_def isStoredScalar_def coerceBinary_def split: gval.splits)

lemma slice_strings:
  "rfold (sliceStep single asString a) (map VString xs) out = Inr (out @ xs)"
  if "\<And>s. single a (VString s) = Inr (VString s)" for single :: coercion
proof (induction xs arbitrary: out)
  case (Cons x xs)
  then show ?case by (simp add: sliceStep_def that asString_def)
qed simp

lemma coerceSub_strings_stored:
  assumes "storedLeaf sub v" and "multiValued sub" and "attrType sub = TypeString"
  shows "coerceSub sub v = Inr v"
proof -
  from assms obtain xs where v: "v = VStrings xs" "xs \<noteq> []"
    by (auto simp: storedLeaf_def storedSlice_def split: gval.splits)
  have "coerceSingleWith f sub (VString s) = Inr (VString s)" for f s
    using assms(3) by (simp add: coerceSingleWith_def isStoredScalar_def)
  from slice_strings [of "coerceSingleWith (\<lambda>_ _. Inl ComplexInComplex)" sub xs "[]", OF this] v assms
  show ?thesis
    by (simp add: coerceSub_def coerceValueWith_def coerceMultiWith_def multiItems_def
        coerceMultiScalar_def coerceSlice_def)
qed

text \<open>The sub-attributes whose stored form \<open>multiItems\<close> reads back.\<close>

definition rereadable :: "attribute \<Rightarrow> bool" where
  "rereadable a \<longleftrightarrow> \<not> multiValued a \<or> attrType a \<in> {TypeString, TypeComplex}"

lemma coerceComplex_loop_stored:
  assumes "partialComplex (subAttributes a) (out @ m)" and "list_all rereadable (subAttributes a)"
  shows "rfold (complexStep a) m out = Inr (out @ m)"
  using assms(1)
proof (induction m arbitrary: out)
  case (Cons kv m)
  then have entry: "storedEntry (subAttributes a) kv" and fresh: "fst kv \<notin> fst ` set out"
    by (auto simp: partialComplex_def distinct_keys_def)
  have "coerceSub sub (snd kv) = Inr (snd kv)"
    if sub: "findAttribute (subAttributes a) (fst kv) = Some sub" for sub
  proof -
    have leaf: "storedLeaf sub (snd kv)" using entry sub by (simp add: storedEntry_def)
    have "rereadable sub"
      using assms(2) findAttribute_SomeD [OF sub] by (auto simp: list_all_iff)
    moreover have "attrType sub \<noteq> TypeComplex" using leaf by (simp add: storedLeaf_def)
    ultimately have "\<not> multiValued sub \<or> attrType sub = TypeString" by (auto simp: rereadable_def)
    then show ?thesis
      using coerceSub_scalar_stored [OF leaf] coerceSub_strings_stored [OF leaf] by blast
  qed
  from complexStep_stored [OF entry fresh this] Cons.IH [of "out @ [kv]"] Cons.prems
  show ?case by simp
qed simp

lemma coerceComplex_stored_id:
  assumes "storedComplex (subAttributes a) m" and "list_all rereadable (subAttributes a)"
  shows "coerceComplex a (VComplex m) = Inr (VComplex m)"
  using coerceComplex_loop_stored [of a "[]" m] assms
  by (simp add: coerceComplex_def storedComplex_partial)

lemma multiComplex_loop_stored:
  assumes "list_all (storedComplex (subAttributes a)) ms" and "list_all rereadable (subAttributes a)"
  shows "rfold (multiComplexStep coerceComplex a) (map VComplex ms) (out, p) =
    Inr (out @ ms, p + length (filter primaryTrue ms))"
  using assms(1)
proof (induction ms arbitrary: out p)
  case (Cons m ms)
  then show ?case
    using coerceComplex_stored_id [OF _ assms(2), of m] by (simp add: multiComplexStep_def)
qed simp

lemma coerceValue_stored_id:
  assumes st: "storedValue a w" and "rereadable a" and subs: "list_all rereadable (subAttributes a)"
  shows "coerceValue a w = Inr w"
proof (cases "attrType a = TypeComplex")
  case False
  with st have leaf: "storedLeaf a w" by (simp add: storedValue_leaf)
  have "coerceSub a w = Inr w"
  proof (cases "multiValued a")
    case True
    with assms(2) False have "attrType a = TypeString" by (auto simp: rereadable_def)
    with leaf True show ?thesis by (rule coerceSub_strings_stored)
  qed (rule coerceSub_scalar_stored [OF leaf])
  with False show ?thesis by (simp add: coerceSub_eq)
next
  case True
  show ?thesis
  proof (cases "multiValued a")
    case multi: True
    with st True obtain ms where w: "w = VMulti ms" "ms \<noteq> []"
        and ms: "list_all (storedComplex (subAttributes a)) ms" "length (filter primaryTrue ms) \<le> 1"
      by (auto simp: storedValue_def split: gval.splits)
    from multiComplex_loop_stored [OF ms(1) subs, of "[]" 0] w ms(2) True multi show ?thesis
      by (simp add: coerceValue_def coerceValueWith_def coerceMultiWith_def multiItems_def
          coerceMultiComplex_def)
  next
    case single: False
    with st True obtain m where w: "w = VComplex m" "storedComplex (subAttributes a) m"
      by (auto simp: storedValue_def split: gval.splits)
    from coerceComplex_stored_id [OF w(2) subs] w(1) True single show ?thesis
      by (simp add: coerceValue_def coerceValueWith_def coerceSingleWith_def isStoredScalar_def)
  qed
qed

end
