(* ===== verification/Scim_Path.thy ===== *)
theory Scim_Path
  imports Scim_Value
begin

text \<open>
  \<open>scim/path.go\<close>: resolution of standard attribute notation (\<open>attr\<close>, \<open>attr.sub\<close>,
  \<open>urn:attr\<close>, \<open>urn:attr.sub\<close>, or a bare extension URN) against a resource type. Every
  failure of the code is \<open>ErrInvalidPath\<close>. A nil pointer is \<open>None\<close>.
\<close>

subsection \<open>Operations\<close>

record resolved_path =
  rpUrn :: string
  rpAttr :: "attribute option"
  rpSub :: "attribute option"
  rpCommon :: bool

definition urnPrefix :: string where "urnPrefix = ''urn:''"

definition urnCandidate :: "string \<Rightarrow> string \<Rightarrow> string \<Rightarrow> string" where
  "urnCandidate best folded candidate =
     (if length candidate \<le> length best then best
      else if length folded < length candidate \<or>
              \<not> equalFold (take (length candidate) folded) candidate then best
      else if length candidate < length folded \<and> folded ! length candidate \<noteq> CHR '':'' then best
      else candidate)"

text \<open>The longest schema URN that prefixes the folded path, or the empty string.\<close>

definition longestURN :: "resource_type \<Rightarrow> string \<Rightarrow> string" where
  "longestURN rt folded =
     foldl (\<lambda>best x. urnCandidate best folded (schemaID (extSchema x)))
       (urnCandidate [] folded (schemaID (rtSchema rt))) (rtExtensions rt)"

definition splitURNPrefix :: "resource_type \<Rightarrow> string \<Rightarrow> string \<times> string \<times> bool" where
  "splitURNPrefix rt path =
     (let folded = foldName path in
      if \<not> prefix urnPrefix folded then ([], path, False)
      else
        let best = longestURN rt folded in
        if best = [] then ([], path, False)
        else
          let attrExpr = (if length best < length path then drop (length best + 1) path else []) in
          if foldName best = foldName (schemaID (rtSchema rt)) then ([], attrExpr, True)
          else (best, attrExpr, False))"

definition splitAttrExpr :: "string \<Rightarrow> (string \<times> string) option" where
  "splitAttrExpr expr =
     (case cut CHR ''.'' expr of (attr, sub, found) \<Rightarrow>
        if attr = [] \<or> (found \<and> (sub = [] \<or> CHR ''.'' \<in> set sub)) then None
        else Some (attr, sub))"

text \<open>The top-level attribute of the namespace selected by \<open>urn\<close>, and whether it is a
  common attribute.\<close>

definition namespaceAttr :: "resource_type \<Rightarrow> string \<Rightarrow> string \<Rightarrow> attribute option \<times> bool" where
  "namespaceAttr rt urn name =
     (if urn = [] then
        case findAttribute (schemaAttributes (rtSchema rt)) name of
          Some a \<Rightarrow> (Some a, False)
        | None \<Rightarrow>
            case findAttribute commonAttributes name of
              Some a \<Rightarrow> (Some a, True)
            | None \<Rightarrow> (None, False)
      else case extensionSchema rt urn of
          Some s \<Rightarrow> (findAttribute (schemaAttributes s) name, False)
        | None \<Rightarrow> (None, False))"

definition resolveAttrExpr :: "resource_type \<Rightarrow> string \<Rightarrow> string \<Rightarrow> (scim_error, resolved_path) res" where
  "resolveAttrExpr rt urn attrExpr =
     (case splitAttrExpr attrExpr of
        None \<Rightarrow> Inl ErrInvalidPath
      | Some (name, subName) \<Rightarrow>
          case namespaceAttr rt urn name of
            (None, _) \<Rightarrow> Inl ErrInvalidPath
          | (Some a, common) \<Rightarrow>
              let rp = \<lparr>rpUrn = urn, rpAttr = Some a, rpSub = None, rpCommon = common\<rparr> in
              if subName = [] then Inr rp
              else if attrType a \<noteq> TypeComplex then Inl ErrInvalidPath
              else if multiValued a then Inl ErrInvalidPath
              else case findAttribute (subAttributes a) subName of
                     None \<Rightarrow> Inl ErrInvalidPath
                   | Some sub \<Rightarrow> Inr (rp\<lparr>rpSub := Some sub\<rparr>))"

definition resolvePath :: "resource_type \<Rightarrow> string \<Rightarrow> (scim_error, resolved_path) res" where
  "resolvePath rt path =
     (if path = [] then Inl ErrInvalidPath
      else case splitURNPrefix rt path of (urn, attrExpr, isCore) \<Rightarrow>
        if urn = [] \<and> \<not> isCore \<and> prefix urnPrefix (foldName path) then Inl ErrInvalidPath
        else if attrExpr = [] then
          (if urn = [] then Inl ErrInvalidPath
           else Inr \<lparr>rpUrn = urn, rpAttr = None, rpSub = None, rpCommon = False\<rparr>)
        else resolveAttrExpr rt urn attrExpr)"

subsection \<open>Letter case\<close>

text \<open>Resolution does not see the letter case of the path: paths with the same fold
  resolve alike.\<close>

lemma foldChar_sep:
  "foldChar c = CHR ''.'' \<longleftrightarrow> c = CHR ''.''"
  "foldChar c = CHR '':'' \<longleftrightarrow> c = CHR '':''"
  by (cases c; auto)+

lemma sep_in_foldName: "CHR ''.'' \<in> set (foldName s) \<longleftrightarrow> CHR ''.'' \<in> set s"
  using foldChar_sep(1) by (force simp: foldName_def)

lemma cut_foldName:
  "cut CHR ''.'' (foldName s) =
     (case cut CHR ''.'' s of (a, b, found) \<Rightarrow> (foldName a, foldName b, found))"
  by (induction s) (auto simp: foldChar_sep split: prod.splits)

lemma splitAttrExpr_foldName:
  "splitAttrExpr (foldName e) =
     map_option (\<lambda>(a, b). (foldName a, foldName b)) (splitAttrExpr e)"
  by (auto simp: splitAttrExpr_def cut_foldName sep_in_foldName split: prod.splits)

lemma namespaceAttr_foldName [simp]: "namespaceAttr rt urn (foldName n) = namespaceAttr rt urn n"
  by (simp add: namespaceAttr_def split: option.splits)

lemma resolveAttrExpr_foldName: "resolveAttrExpr rt urn (foldName e) = resolveAttrExpr rt urn e"
  by (simp add: resolveAttrExpr_def splitAttrExpr_foldName Let_def split: option.splits prod.splits)

lemma splitURNPrefix_foldName:
  "splitURNPrefix rt (foldName p) =
     (case splitURNPrefix rt p of (urn, e, c) \<Rightarrow> (urn, foldName e, c))"
  by (simp add: splitURNPrefix_def Let_def foldName_drop)

lemma resolvePath_foldName: "resolvePath rt (foldName p) = resolvePath rt p"
  by (auto simp: resolvePath_def splitURNPrefix_foldName resolveAttrExpr_foldName split: prod.splits)

lemma resolvePath_fold_cong: "foldName p = foldName q \<Longrightarrow> resolvePath rt p = resolvePath rt q"
  using resolvePath_foldName by metis

subsection \<open>The URN prefix\<close>

definition urnMatches :: "string \<Rightarrow> string \<Rightarrow> bool" where
  "urnMatches folded urn \<longleftrightarrow>
     prefix (foldName urn) folded \<and>
     (length urn < length folded \<longrightarrow> folded ! length urn = CHR '':'')"

definition declaredURNs :: "resource_type \<Rightarrow> string list" where
  "declaredURNs rt =
     schemaID (rtSchema rt) # map (\<lambda>x. schemaID (extSchema x)) (rtExtensions rt)"

lemma prefix_take_iff: "prefix xs ys \<longleftrightarrow> length xs \<le> length ys \<and> take (length xs) ys = xs"
proof
  assume "length xs \<le> length ys \<and> take (length xs) ys = xs"
  then show "prefix xs ys" using take_is_prefix [of "length xs" ys] by simp
qed (auto simp: prefix_def)

lemma urnCandidate_eq:
  assumes "foldName folded = folded"
  shows "urnCandidate best folded c =
     (if length best < length c \<and> urnMatches folded c then c else best)"
proof -
  have "equalFold (take (length c) folded) c \<longleftrightarrow> take (length c) folded = foldName c"
    using assms by (simp add: equalFold_def foldName_take)
  moreover have "prefix (foldName c) folded \<longleftrightarrow>
      length c \<le> length folded \<and> take (length c) folded = foldName c"
    using prefix_take_iff [of "foldName c" folded] by simp
  ultimately show ?thesis
    by (simp only: urnCandidate_def urnMatches_def if_split) auto
qed

text \<open>The loop keeps a longest matching URN of those seen.\<close>

lemma urn_loop:
  assumes "foldName folded = folded"
  shows "foldl (\<lambda>b u. urnCandidate b folded u) b us = w \<Longrightarrow>
    (w = b \<or> (w \<in> set us \<and> urnMatches folded w)) \<and> length b \<le> length w \<and>
    (\<forall>u \<in> set us. urnMatches folded u \<longrightarrow> length u \<le> length w)"
proof (induction us arbitrary: b)
  case (Cons u us)
  then have "foldl (\<lambda>b u. urnCandidate b folded u) (urnCandidate b folded u) us = w" by simp
  from Cons.IH [OF this] show ?case
    by (auto simp: urnCandidate_eq [OF assms] split: if_splits)
qed simp

lemma longestURN_urns:
  "longestURN rt folded = foldl (\<lambda>b u. urnCandidate b folded u) [] (declaredURNs rt)"
  by (simp add: longestURN_def declaredURNs_def foldl_map)

lemma longestURN_spec:
  assumes "foldName folded = folded"
  shows "longestURN rt folded \<noteq> [] \<Longrightarrow>
      longestURN rt folded \<in> set (declaredURNs rt) \<and> urnMatches folded (longestURN rt folded)"
    and "u \<in> set (declaredURNs rt) \<Longrightarrow> urnMatches folded u \<Longrightarrow>
      length u \<le> length (longestURN rt folded)"
  using urn_loop [OF assms refl, of "[]" "declaredURNs rt"] by (auto simp: longestURN_urns)

lemma splitURNPrefix_urn:
  assumes "splitURNPrefix rt p = (urn, e, c)" and "urn \<noteq> []"
  shows "urn \<in> schemaID ` extSchema ` set (rtExtensions rt)"
    and "foldName urn \<noteq> foldName (schemaID (rtSchema rt))"
  using assms longestURN_spec(1) [of "foldName p" rt]
  by (auto simp: splitURNPrefix_def Let_def declaredURNs_def split: if_splits)

subsection \<open>What resolves\<close>

text \<open>A resolved path names attributes the resource type declares.\<close>

definition resolvedOk :: "resource_type \<Rightarrow> resolved_path \<Rightarrow> bool" where
  "resolvedOk rt rp \<longleftrightarrow>
     (rpUrn rp \<noteq> [] \<longrightarrow> (\<exists>s. extensionSchema rt (rpUrn rp) = Some s)) \<and>
     (case rpAttr rp of
        None \<Rightarrow> rpUrn rp \<noteq> [] \<and> rpSub rp = None \<and> \<not> rpCommon rp
      | Some a \<Rightarrow>
          namespaceAttr rt (rpUrn rp) (attrName a) = (Some a, rpCommon rp) \<and>
          (case rpSub rp of
             None \<Rightarrow> True
           | Some sub \<Rightarrow>
               attrType a = TypeComplex \<and> \<not> multiValued a \<and>
               findAttribute (subAttributes a) (attrName sub) = Some sub))"

lemma findAttribute_own:
  assumes "findAttribute as n = Some a" shows "findAttribute as (attrName a) = Some a"
proof -
  have "foldName (attrName a) = foldName n" using findAttribute_SomeD [OF assms] by simp
  then show ?thesis using findAttribute_fold_cong [of "attrName a" n as] assms by simp
qed

lemma namespaceAttr_fold:
  "namespaceAttr rt urn n = (Some a, c) \<Longrightarrow> foldName (attrName a) = foldName n"
  by (auto simp: namespaceAttr_def split: if_splits option.splits dest: findAttribute_SomeD)

lemma namespaceAttr_own:
  assumes "namespaceAttr rt urn n = (Some a, c)"
  shows "namespaceAttr rt urn (attrName a) = (Some a, c)"
  using namespaceAttr_fold [OF assms] namespaceAttr_foldName [of rt urn n]
    namespaceAttr_foldName [of rt urn "attrName a"] assms by simp

lemma extension_declared:
  "urn \<in> schemaID ` extSchema ` set (rtExtensions rt) \<Longrightarrow> \<exists>s. extensionSchema rt urn = Some s"
proof -
  assume "urn \<in> schemaID ` extSchema ` set (rtExtensions rt)"
  then have "find (\<lambda>x. foldName (schemaID (extSchema x)) = foldName urn) (rtExtensions rt) \<noteq> None"
    by (auto simp: find_None_iff)
  then show ?thesis by (auto simp: extensionSchema_def)
qed

lemma resolveAttrExpr_Inr:
  assumes "resolveAttrExpr rt urn e = Inr rp"
  obtains n a where "namespaceAttr rt urn n = (Some a, rpCommon rp)" "rpUrn rp = urn"
    "rpAttr rp = Some a"
    "rpSub rp = None \<or> (attrType a = TypeComplex \<and> \<not> multiValued a \<and>
       (\<exists>sn. rpSub rp = findAttribute (subAttributes a) sn))"
proof -
  obtain n sn where e: "splitAttrExpr e = Some (n, sn)"
    using assms by (cases "splitAttrExpr e") (auto simp: resolveAttrExpr_def)
  obtain a c where ns: "namespaceAttr rt urn n = (Some a, c)"
    using assms e
    by (cases "namespaceAttr rt urn n"; cases "fst (namespaceAttr rt urn n)")
      (auto simp: resolveAttrExpr_def)
  have *: "(let rp = \<lparr>rpUrn = urn, rpAttr = Some a, rpSub = None, rpCommon = c\<rparr> in
              if sn = [] then Inr rp
              else if attrType a \<noteq> TypeComplex then Inl ErrInvalidPath
              else if multiValued a then Inl ErrInvalidPath
              else case findAttribute (subAttributes a) sn of
                     None \<Rightarrow> Inl ErrInvalidPath
                   | Some sub \<Rightarrow> Inr (rp\<lparr>rpSub := Some sub\<rparr>)) = Inr rp"
    using assms by (simp add: resolveAttrExpr_def e ns)
  show thesis
    by (rule that [of n a])
      (use * ns in \<open>auto simp: Let_def split: if_splits option.splits intro: exI [of _ sn]\<close>)
qed

lemma resolvePath_resolvedOk:
  assumes "resolvePath rt path = Inr rp"
  shows "resolvedOk rt rp"
proof -
  obtain urn e c where split: "splitURNPrefix rt path = (urn, e, c)"
    by (cases "splitURNPrefix rt path")
  have "urn \<noteq> [] \<and> rp = \<lparr>rpUrn = urn, rpAttr = None, rpSub = None, rpCommon = False\<rparr> \<or>
      resolveAttrExpr rt urn e = Inr rp"
    using assms by (simp add: resolvePath_def split split: if_splits)
  then consider
      (bare) "urn \<noteq> []" "rp = \<lparr>rpUrn = urn, rpAttr = None, rpSub = None, rpCommon = False\<rparr>"
    | (attr) "resolveAttrExpr rt urn e = Inr rp"
    by blast
  then show ?thesis
  proof cases
    case bare
    with extension_declared [OF splitURNPrefix_urn(1) [OF split]] show ?thesis
      by (simp add: resolvedOk_def)
  next
    case attr
    then obtain n a where ns: "namespaceAttr rt urn n = (Some a, rpCommon rp)"
        and rp: "rpUrn rp = urn" "rpAttr rp = Some a"
        and sub: "rpSub rp = None \<or> (attrType a = TypeComplex \<and> \<not> multiValued a \<and>
          (\<exists>sn. rpSub rp = findAttribute (subAttributes a) sn))"
      by (rule resolveAttrExpr_Inr) auto
    have "urn \<noteq> [] \<longrightarrow> (\<exists>s. extensionSchema rt urn = Some s)"
      using splitURNPrefix_urn(1) [OF split] extension_declared by blast
    with namespaceAttr_own [OF ns] rp sub show ?thesis
      by (auto simp: resolvedOk_def split: option.splits dest: findAttribute_own)
  qed
qed

text \<open>Every declared top-level attribute whose name is an attribute name (no dot, no URN
  prefix) is reached by its name, in any letter case.\<close>

definition plainName :: "string \<Rightarrow> bool" where
  "plainName n \<longleftrightarrow> n \<noteq> [] \<and> CHR ''.'' \<notin> set n \<and> \<not> prefix urnPrefix (foldName n)"

lemma resolvePath_plain:
  assumes "plainName n"
  shows "resolvePath rt n =
    (case namespaceAttr rt [] n of
       (None, _) \<Rightarrow> Inl ErrInvalidPath
     | (Some a, common) \<Rightarrow> Inr \<lparr>rpUrn = [], rpAttr = Some a, rpSub = None, rpCommon = common\<rparr>)"
  using assms
  by (simp add: plainName_def resolvePath_def splitURNPrefix_def resolveAttrExpr_def
      splitAttrExpr_def cut_not_in Let_def split: option.splits prod.splits)

end
