(* ===== verification/Scim_Resource.thy ===== *)
theory Scim_Resource
  imports Scim_Path
begin

text \<open>
  \<open>scim/resource.go\<close>: the canonical resource, a container keyed by folded attribute
  names and folded extension URNs. \<open>VMap\<close> is the Go type \<open>map[string]any\<close> of an
  extension container, \<open>VComplex\<close> the type \<open>ComplexValue\<close>. The pair \<open>(value, assigned)\<close>
  the code returns is an option. The code edits containers in place; the model returns the
  edited resource, so an operation that fails returns no resource.

  \<open>resourceOk\<close> is the invariant of the container: every key is the folded declared name of
  the attribute it names, every value is in stored form, and nothing empty is stored.
\<close>

subsection \<open>State\<close>

record meta_info =
  mResourceType :: string
  mCreated :: gotime
  mLastModified :: gotime
  mLocation :: string
  mVersion :: string

record resource =
  rRT :: resource_type
  rAttrs :: cval
  rMeta :: meta_info

definition zeroMeta :: meta_info where
  "zeroMeta = \<lparr>mResourceType = [], mCreated = zeroTime, mLastModified = zeroTime,
     mLocation = [], mVersion = []\<rparr>"

definition NewResource :: "resource_type \<Rightarrow> resource" where
  "NewResource rt = \<lparr>rRT = rt, rAttrs = [], rMeta = zeroMeta\<rparr>"

definition SetMeta :: "meta_info \<Rightarrow> resource \<Rightarrow> resource" where
  "SetMeta m r = r\<lparr>rMeta := m\<rparr>"

subsection \<open>Reading\<close>

definition Schemas :: "resource \<Rightarrow> string list" where
  "Schemas r =
     schemaID (rtSchema (rRT r)) #
     map (\<lambda>x. schemaID (extSchema x))
       (filter (\<lambda>x. aget (rAttrs r) (foldName (schemaID (extSchema x))) \<noteq> None)
         (rtExtensions (rRT r)))"

text \<open>The assigned fields of \<open>Meta\<close>; the empty list is the code's nil.\<close>

definition metaValue :: "meta_info \<Rightarrow> cval" where
  "metaValue m =
     (if mResourceType m \<noteq> [] then [(''resourcetype'', VString (mResourceType m))] else []) @
     (if \<not> timeIsZero (mCreated m) then [(''created'', VTime (mCreated m))] else []) @
     (if \<not> timeIsZero (mLastModified m) then [(''lastmodified'', VTime (mLastModified m))] else []) @
     (if mLocation m \<noteq> [] then [(''location'', VString (mLocation m))] else []) @
     (if mVersion m \<noteq> [] then [(''version'', VString (mVersion m))] else [])"

definition subValue :: "gval \<Rightarrow> attribute option \<Rightarrow> gval option" where
  "subValue v sub =
     (case sub of
        None \<Rightarrow> Some v
      | Some s \<Rightarrow> (case v of VComplex cv \<Rightarrow> aget cv (foldName (attrName s)) | _ \<Rightarrow> None))"

definition getCommon :: "resource \<Rightarrow> attribute \<Rightarrow> attribute option \<Rightarrow> gval option" where
  "getCommon r a sub =
     (let key = foldName (attrName a) in
      if key = attrSchemas then Some (VStrings (Schemas r))
      else if key = attrMeta then
        (case metaValue (rMeta r) of [] \<Rightarrow> None | mv \<Rightarrow> subValue (VComplex mv) sub)
      else aget (rAttrs r) key)"

definition containerGet :: "cval \<Rightarrow> attribute \<Rightarrow> attribute option \<Rightarrow> gval option" where
  "containerGet m a sub =
     (case aget m (foldName (attrName a)) of None \<Rightarrow> None | Some v \<Rightarrow> subValue v sub)"

text \<open>The container of an extension: \<open>r.attrs[key].(map[string]any)\<close>.\<close>

definition extContainer :: "cval \<Rightarrow> string \<Rightarrow> cval option" where
  "extContainer m urn =
     (case aget m (foldName urn) of Some (VMap ext) \<Rightarrow> Some ext | _ \<Rightarrow> None)"

definition getResolved :: "resource \<Rightarrow> resolved_path \<Rightarrow> gval option" where
  "getResolved r rp =
     (case rpAttr rp of
        None \<Rightarrow> map_option VMap (extContainer (rAttrs r) (rpUrn rp))
      | Some a \<Rightarrow>
          if rpCommon rp then getCommon r a (rpSub rp)
          else if rpUrn rp \<noteq> [] then
            (case extContainer (rAttrs r) (rpUrn rp) of
               None \<Rightarrow> None
             | Some ext \<Rightarrow> containerGet ext a (rpSub rp))
          else containerGet (rAttrs r) a (rpSub rp))"

definition Get :: "resource \<Rightarrow> string \<Rightarrow> gval option" where
  "Get r path =
     (case resolvePath (rRT r) path of Inl _ \<Rightarrow> None | Inr rp \<Rightarrow> getResolved r rp)"

definition Lookup :: "resource \<Rightarrow> string \<Rightarrow> (scim_error, gval option) res" where
  "Lookup r path = rbind (resolvePath (rRT r) path) (\<lambda>rp. Inr (getResolved r rp))"

subsection \<open>Writing\<close>

abbreviation coerceOr400 :: "attribute \<Rightarrow> gval \<Rightarrow> (scim_error, gval) res" where
  "coerceOr400 a v \<equiv> map_err (\<lambda>_. ErrInvalidValue) (coerceValue a v)"

definition setSub :: "cval \<Rightarrow> attribute \<Rightarrow> attribute \<Rightarrow> gval \<Rightarrow> (scim_error, cval) res" where
  "setSub container a sub v =
     rbind (coerceOr400 sub v) (\<lambda>cv.
       let key = foldName (attrName a);
           parent = (case aget container key of Some (VComplex m) \<Rightarrow> Some m | _ \<Rightarrow> None);
           subKey = foldName (attrName sub)
       in if cv = VNil then
            (case parent of
               None \<Rightarrow> Inr container
             | Some m \<Rightarrow>
                 let m' = adel subKey m in
                 Inr (if m' = [] then adel key container else aput key (VComplex m') container))
          else
            Inr (aput key (VComplex (aput subKey cv (case parent of None \<Rightarrow> [] | Some m \<Rightarrow> m)))
                   container))"

definition setInContainer ::
    "cval \<Rightarrow> attribute \<Rightarrow> attribute option \<Rightarrow> gval \<Rightarrow> (scim_error, cval) res" where
  "setInContainer container a sub v =
     (case sub of
        Some s \<Rightarrow> setSub container a s v
      | None \<Rightarrow>
          rbind (coerceOr400 a v) (\<lambda>cv.
            let key = foldName (attrName a) in
            Inr (if cv = VNil then adel key container else aput key cv container)))"

definition commitExtension :: "string \<Rightarrow> cval \<Rightarrow> cval \<Rightarrow> cval" where
  "commitExtension key container m =
     (if container = [] then adel key m else aput key (VMap container) m)"

definition toStringMap :: "gval \<Rightarrow> cval option" where
  "toStringMap v = (case v of VMap m \<Rightarrow> Some m | VComplex m \<Rightarrow> Some m | _ \<Rightarrow> None)"

definition containerStep ::
    "attribute list \<Rightarrow> string \<times> gval \<Rightarrow> cval \<Rightarrow> (scim_error, cval) res" where
  "containerStep attrs kv container =
     (case findAttribute attrs (fst kv) of
        None \<Rightarrow> Inr container
      | Some a \<Rightarrow>
          rbind (coerceOr400 a (snd kv)) (\<lambda>cv.
            Inr (if cv = VNil then container else aput (foldName (attrName a)) cv container)))"

definition setExtensionContainer ::
    "resource_type \<Rightarrow> string \<Rightarrow> gval \<Rightarrow> cval \<Rightarrow> (scim_error, cval) res" where
  "setExtensionContainer rt urn v m =
     (if v = VNil then Inr (adel (foldName urn) m)
      else case toStringMap v of
        None \<Rightarrow> Inl ErrInvalidValue
      | Some src \<Rightarrow>
          (case extensionSchema rt urn of
             None \<Rightarrow> Inl ErrInvalidPath \<comment> \<open>not reached: \<open>urn\<close> is a declared extension\<close>
           | Some s \<Rightarrow>
               rbind (rfold (containerStep (schemaAttributes s)) src []) (\<lambda>container.
                 Inr (commitExtension (foldName urn) container m))))"

definition setExtension ::
    "resource_type \<Rightarrow> resolved_path \<Rightarrow> gval \<Rightarrow> cval \<Rightarrow> (scim_error, cval) res" where
  "setExtension rt rp v m =
     (case rpAttr rp of
        None \<Rightarrow> setExtensionContainer rt (rpUrn rp) v m
      | Some a \<Rightarrow>
          let container = (case extContainer m (rpUrn rp) of None \<Rightarrow> [] | Some c \<Rightarrow> c) in
          rbind (setInContainer container a (rpSub rp) v) (\<lambda>container'.
            Inr (commitExtension (foldName (rpUrn rp)) container' m)))"

definition setCommon :: "attribute \<Rightarrow> attribute option \<Rightarrow> gval \<Rightarrow> cval \<Rightarrow> (scim_error, cval) res" where
  "setCommon a sub v m =
     (let key = foldName (attrName a) in
      if key = attrSchemas \<or> key = attrMeta then Inl ErrMutability
      else setInContainer m a sub v)"

definition setResolved :: "resource \<Rightarrow> resolved_path \<Rightarrow> gval \<Rightarrow> (scim_error, cval) res" where
  "setResolved r rp v =
     (case rpAttr rp of
        Some a \<Rightarrow>
          if rpCommon rp then setCommon a (rpSub rp) v (rAttrs r)
          else if rpUrn rp \<noteq> [] then setExtension (rRT r) rp v (rAttrs r)
          else setInContainer (rAttrs r) a (rpSub rp) v
      | None \<Rightarrow> setExtension (rRT r) rp v (rAttrs r))"

definition Set :: "resource \<Rightarrow> string \<Rightarrow> gval \<Rightarrow> (scim_error, resource) res" where
  "Set r path v =
     rbind (resolvePath (rRT r) path) (\<lambda>rp.
     rbind (setResolved r rp v) (\<lambda>m. Inr (r\<lparr>rAttrs := m\<rparr>)))"

definition Unassign :: "resource \<Rightarrow> string \<Rightarrow> (scim_error, resource) res" where
  "Unassign r path = Set r path VNil"


subsection \<open>The container\<close>

text \<open>Reading after writing one attribute of a container, and the frame.\<close>

definition assigned :: "gval \<Rightarrow> gval option" where
  "assigned v = (if v = VNil then None else Some v)"

definition targetAttr :: "attribute \<Rightarrow> attribute option \<Rightarrow> attribute" where
  "targetAttr a sub = (case sub of None \<Rightarrow> a | Some s \<Rightarrow> s)"

lemma containerGet_simps:
  "containerGet m a None = aget m (foldName (attrName a))"
  "containerGet m a (Some s) =
     (case aget m (foldName (attrName a)) of
        Some (VComplex cv) \<Rightarrow> aget cv (foldName (attrName s)) | _ \<Rightarrow> None)"
  by (auto simp: containerGet_def subValue_def split: option.splits gval.splits)

lemma setInContainer_Inr:
  assumes "setInContainer m a sub v = Inr m'"
  obtains cv where "coerceValue (targetAttr a sub) v = Inr cv"
    and "containerGet m' a sub = assigned cv"
    and "\<And>b t. foldName (attrName b) \<noteq> foldName (attrName a) \<Longrightarrow>
      containerGet m' b t = containerGet m b t"
    and "\<And>s t. sub = Some s \<Longrightarrow> foldName (attrName t) \<noteq> foldName (attrName s) \<Longrightarrow>
      containerGet m' a (Some t) = containerGet m a (Some t)"
proof (cases sub)
  case None
  with assms obtain cv where "coerceValue a v = Inr cv"
      and m': "m' = (if cv = VNil then adel (foldName (attrName a)) m
                     else aput (foldName (attrName a)) cv m)"
    by (auto simp: setInContainer_def res_simps Let_def)
  then show thesis
    using None by (intro that [of cv]) (auto simp: targetAttr_def assigned_def containerGet_def subValue_def)
next
  case (Some s)
  define key where "key = foldName (attrName a)"
  define parent where "parent = (case aget m key of Some (VComplex c) \<Rightarrow> Some c | _ \<Rightarrow> None)"
  from assms Some obtain cv where cv: "coerceValue s v = Inr cv"
      and m': "(if cv = VNil then
            (case parent of
               None \<Rightarrow> m
             | Some c \<Rightarrow>
                 let c' = adel (foldName (attrName s)) c in
                 if c' = [] then adel key m else aput key (VComplex c') m)
          else aput key (VComplex (aput (foldName (attrName s)) cv
                   (case parent of None \<Rightarrow> [] | Some c \<Rightarrow> c))) m) = m'"
    by (auto simp: setInContainer_def setSub_def res_simps Let_def key_def parent_def
        split: if_splits option.splits)
  have old: "containerGet m a (Some t) =
      (case parent of None \<Rightarrow> None | Some c \<Rightarrow> aget c (foldName (attrName t)))" for t
    by (auto simp: containerGet_simps parent_def key_def split: option.splits gval.splits)
  have gone: "adel k c = [] \<Longrightarrow> k' \<noteq> k \<Longrightarrow> aget c k' = None" for k k' and c :: cval
    using aget_adel [of k c k'] by simp
  show thesis
  proof (rule that [of cv])
    show "coerceValue (targetAttr a sub) v = Inr cv" using cv Some by (simp add: targetAttr_def)
    show "containerGet m' a sub = assigned cv"
      using m' Some old
      by (auto simp: assigned_def containerGet_simps key_def Let_def split: if_splits option.splits)
    show "containerGet m' b t = containerGet m b t"
      if "foldName (attrName b) \<noteq> foldName (attrName a)" for b t
      using m' that
      by (auto simp: containerGet_def key_def Let_def split: if_splits option.splits)
    show "containerGet m' a (Some t) = containerGet m a (Some t)"
      if "sub = Some s'" "foldName (attrName t) \<noteq> foldName (attrName s')" for s' t
    proof (cases "m' = m")
      case False
      with m' that Some show ?thesis
        unfolding old
        by (auto simp: containerGet_simps key_def Let_def gone split: if_splits option.splits)
    qed simp
  qed
qed

subsection \<open>The invariant\<close>

definition containerEntry :: "attribute list \<Rightarrow> string \<times> gval \<Rightarrow> bool" where
  "containerEntry attrs kv \<longleftrightarrow>
     (case findAttribute attrs (fst kv) of
        None \<Rightarrow> False
      | Some a \<Rightarrow> fst kv = foldName (attrName a) \<and> storedValue a (snd kv))"

definition containerOk :: "attribute list \<Rightarrow> cval \<Rightarrow> bool" where
  "containerOk attrs m \<longleftrightarrow> distinct_keys m \<and> list_all (containerEntry attrs) m"

text \<open>The attributes the top-level container may hold: those of the core schema, and the
  common attributes that are neither derived nor kept in \<open>Meta\<close>.\<close>

definition storedCommon :: "attribute list" where
  "storedCommon = filter (\<lambda>a. foldName (attrName a) \<notin> {attrSchemas, attrMeta}) commonAttributes"

definition coreAttrs :: "resource_type \<Rightarrow> attribute list" where
  "coreAttrs rt = schemaAttributes (rtSchema rt) @ storedCommon"

definition resourceEntry :: "resource_type \<Rightarrow> string \<times> gval \<Rightarrow> bool" where
  "resourceEntry rt kv \<longleftrightarrow>
     (case extensionSchema rt (fst kv) of
        Some s \<Rightarrow>
          fst kv = foldName (schemaID s) \<and>
          (case snd kv of VMap m \<Rightarrow> m \<noteq> [] \<and> containerOk (schemaAttributes s) m | _ \<Rightarrow> False)
      | None \<Rightarrow> containerEntry (coreAttrs rt) kv)"

definition resourceOk :: "resource \<Rightarrow> bool" where
  "resourceOk r \<longleftrightarrow> distinct_keys (rAttrs r) \<and> list_all (resourceEntry (rRT r)) (rAttrs r)"

text \<open>
  The resource types the library is used with: no complex sub-attribute of a complex
  attribute (RFC 7643 section 2.3.8), and no attribute named like an extension URN.
\<close>

definition flatAttr :: "attribute \<Rightarrow> bool" where
  "flatAttr a \<longleftrightarrow> list_all (\<lambda>s. attrType s \<noteq> TypeComplex) (subAttributes a)"

definition resourceTypeOk :: "resource_type \<Rightarrow> bool" where
  "resourceTypeOk rt \<longleftrightarrow>
     list_all flatAttr (schemaAttributes (rtSchema rt)) \<and>
     list_all (\<lambda>x. list_all flatAttr (schemaAttributes (extSchema x)) \<and>
        foldName (schemaID (extSchema x)) \<notin> set (foldedNames (coreAttrs rt))) (rtExtensions rt)"

lemma containerEntryI:
  "findAttribute attrs (attrName a) = Some a \<Longrightarrow> storedValue a v \<Longrightarrow>
     containerEntry attrs (foldName (attrName a), v)"
  by (simp add: containerEntry_def)

lemma containerOk_aput:
  "containerOk attrs m \<Longrightarrow> containerEntry attrs (k, v) \<Longrightarrow> containerOk attrs (aput k v m)"
  using set_aput_subset [of k v m] by (auto simp: containerOk_def list_all_iff)

lemma containerOk_adel: "containerOk attrs m \<Longrightarrow> containerOk attrs (adel k m)"
  using set_adel_subset [of k m] by (auto simp: containerOk_def list_all_iff)

lemma containerOk_get:
  assumes "containerOk attrs m" and "aget m (foldName (attrName a)) = Some v"
    and "findAttribute attrs (attrName a) = Some a"
  shows "storedValue a v"
  using assms aget_in_set [OF assms(2)]
  by (force simp: containerOk_def list_all_iff containerEntry_def)

text \<open>What \<open>setInContainer\<close> does to a container, as one update of the container.\<close>

lemma setInContainer_update:
  assumes set: "setInContainer m a sub v = Inr m'"
    and declared: "case sub of None \<Rightarrow> True
      | Some s \<Rightarrow> attrType a = TypeComplex \<and> \<not> multiValued a \<and>
          findAttribute (subAttributes a) (attrName s) = Some s"
    and flat: "flatAttr a"
    and old: "\<And>w. aget m (foldName (attrName a)) = Some w \<Longrightarrow> storedValue a w"
  shows "m' = m \<or> m' = adel (foldName (attrName a)) m \<or>
    (\<exists>w. storedValue a w \<and> m' = aput (foldName (attrName a)) w m)"
proof (cases sub)
  case None
  with set obtain cv where "coerceValue a v = Inr cv"
      and "m' = (if cv = VNil then adel (foldName (attrName a)) m
                     else aput (foldName (attrName a)) cv m)"
    by (auto simp: setInContainer_def res_simps Let_def)
  then show ?thesis using coerceValue_stored by (auto split: if_splits)
next
  case (Some s)
  define key where "key = foldName (attrName a)"
  define sk where "sk = foldName (attrName s)"
  define parent where "parent = (case aget m key of Some (VComplex c) \<Rightarrow> Some c | _ \<Rightarrow> None)"
  from declared Some have a: "attrType a = TypeComplex" "\<not> multiValued a"
    and s: "findAttribute (subAttributes a) (attrName s) = Some s" by auto
  have leaf: "attrType s \<noteq> TypeComplex"
    using flat findAttribute_SomeD [OF s] by (auto simp: flatAttr_def list_all_iff)
  have stored_a: "storedValue a (VComplex c) \<longleftrightarrow> storedComplex (subAttributes a) c" for c
    using a by (simp add: storedValue_def)
  have parent_ok: "partialComplex (subAttributes a) c" if "parent = Some c" for c
    using that old stored_a
    by (auto simp: parent_def key_def storedComplex_partial split: option.splits gval.splits)
  from set Some obtain cv where cv: "coerceValue s v = Inr cv"
      and m': "(if cv = VNil then
            (case parent of
               None \<Rightarrow> m
             | Some c \<Rightarrow> if adel sk c = [] then adel key m else aput key (VComplex (adel sk c)) m)
          else aput key (VComplex (aput sk cv (case parent of None \<Rightarrow> [] | Some c \<Rightarrow> c))) m) = m'"
    by (auto simp: setInContainer_def setSub_def res_simps Let_def key_def sk_def parent_def
        split: if_splits option.splits)
  show ?thesis
  proof (cases "cv = VNil")
    case True
    show ?thesis
    proof (cases parent)
      case None
      with m' True show ?thesis by simp
    next
      case (Some c)
      have "storedValue a (VComplex (adel sk c))" if "adel sk c \<noteq> []"
        using that parent_ok [OF Some] by (simp add: stored_a storedComplex_partial partialComplex_adel)
      moreover from m' True Some have "m' = adel key m \<or>
          adel sk c \<noteq> [] \<and> m' = aput key (VComplex (adel sk c)) m"
        by (auto split: if_splits)
      ultimately show ?thesis unfolding key_def by blast
    qed
  next
    case False
    with coerceValue_stored [OF cv] leaf have "storedEntry (subAttributes a) (sk, cv)"
      unfolding sk_def by (auto simp: storedValue_leaf intro: storedEntryI [OF s])
    moreover have "partialComplex (subAttributes a) (case parent of None \<Rightarrow> [] | Some c \<Rightarrow> c)"
      using parent_ok by (auto simp: partialComplex_def split: option.splits)
    ultimately have "storedValue a (VComplex (aput sk cv (case parent of None \<Rightarrow> [] | Some c \<Rightarrow> c)))"
      by (simp add: stored_a storedComplex_partial partialComplex_aput)
    with m' False show ?thesis by (auto simp: key_def)
  qed
qed


subsection \<open>The invariant is kept\<close>

lemma resourceOk_aput:
  "distinct_keys m \<Longrightarrow> list_all (resourceEntry rt) m \<Longrightarrow> resourceEntry rt (k, v) \<Longrightarrow>
     distinct_keys (aput k v m) \<and> list_all (resourceEntry rt) (aput k v m)"
  using set_aput_subset [of k v m] by (auto simp: list_all_iff)

lemma resourceOk_adel:
  "distinct_keys m \<Longrightarrow> list_all (resourceEntry rt) m \<Longrightarrow>
     distinct_keys (adel k m) \<and> list_all (resourceEntry rt) (adel k m)"
  using set_adel_subset [of k m] by (auto simp: list_all_iff)

text \<open>A core or common attribute is not an extension.\<close>

lemma namespace_core:
  assumes "namespaceAttr rt [] n = (Some a, c)" and "c \<longrightarrow> foldName (attrName a) \<notin> {attrSchemas, attrMeta}"
  shows "findAttribute (coreAttrs rt) (attrName a) = Some a"
proof -
  have own: "namespaceAttr rt [] (attrName a) = (Some a, c)" by (rule namespaceAttr_own [OF assms(1)])
  have "findAttribute storedCommon (attrName a) = Some a"
    if "findAttribute commonAttributes (attrName a) = Some a" "foldName (attrName a) \<notin> {attrSchemas, attrMeta}"
    using that
    by (auto simp: storedCommon_def findAttribute_def equalFold_def commonAttributes_def
        attrSchemas_def attrMeta_def split: if_splits)
  moreover have "findAttribute (xs @ ys) n =
      (case findAttribute xs n of None \<Rightarrow> findAttribute ys n | Some b \<Rightarrow> Some b)" for xs ys n
    by (induction xs) (auto simp: findAttribute_def)
  ultimately show ?thesis
    using own assms(2) by (auto simp: namespaceAttr_def coreAttrs_def split: option.splits)
qed

lemma core_not_extension:
  assumes "resourceTypeOk rt" and "findAttribute (coreAttrs rt) n = Some a"
  shows "extensionSchema rt (foldName n) = None"
proof (rule ccontr)
  assume "extensionSchema rt (foldName n) \<noteq> None"
  then obtain s where "extensionSchema rt (foldName n) = Some s" by blast
  from extensionSchema_SomeD [OF this] assms(1)
  have "foldName n \<notin> set (foldedNames (coreAttrs rt))"
    by (auto simp: resourceTypeOk_def list_all_iff)
  then show False using assms(2) findAttribute_None_iff [of "coreAttrs rt" n] by simp
qed

lemma flat_storedCommon: "list_all flatAttr storedCommon"
  by (simp add: storedCommon_def commonAttributes_def attrSchemas_def attrMeta_def flatAttr_def)

lemma flat_coreAttrs: "resourceTypeOk rt \<Longrightarrow> list_all flatAttr (coreAttrs rt)"
  using flat_storedCommon by (simp add: resourceTypeOk_def coreAttrs_def)

lemma flat_extension:
  "resourceTypeOk rt \<Longrightarrow> extensionSchema rt urn = Some s \<Longrightarrow> list_all flatAttr (schemaAttributes s)"
  using extensionSchema_SomeD [of rt urn s] by (auto simp: resourceTypeOk_def list_all_iff)

lemma containerStep_ok:
  assumes "containerStep attrs kv m = Inr m'" and "containerOk attrs m"
  shows "containerOk attrs m'"
proof (cases "m' = m")
  case False
  with assms(1) obtain a cv where a: "findAttribute attrs (fst kv) = Some a"
      and "coerceValue a (snd kv) = Inr cv" "cv \<noteq> VNil" and m': "m' = aput (foldName (attrName a)) cv m"
    by (auto simp: containerStep_def res_simps split: option.splits if_splits)
  then have "storedValue a cv" using coerceValue_stored by blast
  with findAttribute_own [OF a] show ?thesis
    unfolding m' by (intro containerOk_aput [OF assms(2)] containerEntryI)
qed (use assms in simp)

lemma setInContainer_core:
  assumes ok: "resourceTypeOk rt" and m: "distinct_keys m" "list_all (resourceEntry rt) m"
    and a: "findAttribute (coreAttrs rt) (attrName a) = Some a"
    and sub: "case sub of None \<Rightarrow> True
      | Some s \<Rightarrow> attrType a = TypeComplex \<and> \<not> multiValued a \<and>
          findAttribute (subAttributes a) (attrName s) = Some s"
    and set: "setInContainer m a sub v = Inr m'"
  shows "distinct_keys m' \<and> list_all (resourceEntry rt) m'"
proof -
  have entry: "resourceEntry rt (foldName (attrName a), w) \<longleftrightarrow> storedValue a w" for w
    using core_not_extension [OF ok a] a by (simp add: resourceEntry_def containerEntry_def)
  have old: "storedValue a w" if "aget m (foldName (attrName a)) = Some w" for w
    using aget_in_set [OF that] m(2) entry by (auto simp: list_all_iff)
  have "flatAttr a"
    using flat_coreAttrs [OF ok] findAttribute_SomeD [OF a] by (auto simp: list_all_iff)
  from setInContainer_update [OF set sub this old] show ?thesis
    using m entry resourceOk_aput [OF m] resourceOk_adel [OF m] by blast
qed

lemma setInContainer_ext:
  assumes "list_all flatAttr attrs" and m: "containerOk attrs m"
    and a: "findAttribute attrs (attrName a) = Some a"
    and sub: "case sub of None \<Rightarrow> True
      | Some s \<Rightarrow> attrType a = TypeComplex \<and> \<not> multiValued a \<and>
          findAttribute (subAttributes a) (attrName s) = Some s"
    and set: "setInContainer m a sub v = Inr m'"
  shows "containerOk attrs m'"
proof -
  have "flatAttr a" using assms(1) findAttribute_SomeD [OF a] by (auto simp: list_all_iff)
  from setInContainer_update [OF set sub this containerOk_get [OF m _ a]] show ?thesis
    using m containerOk_aput [OF m] containerOk_adel [OF m] containerEntryI [OF a] by blast
qed

lemma commitExtension_ok:
  assumes m: "distinct_keys m" "list_all (resourceEntry rt) m"
    and s: "extensionSchema rt urn = Some s" and c: "containerOk (schemaAttributes s) c"
  shows "distinct_keys (commitExtension (foldName urn) c m) \<and>
    list_all (resourceEntry rt) (commitExtension (foldName urn) c m)"
proof (cases "c = []")
  case True
  then show ?thesis using resourceOk_adel [OF m] by (simp add: commitExtension_def)
next
  case False
  have "extensionSchema rt (foldName urn) = Some s"
    using s extensionSchema_fold_cong [of "foldName urn" urn rt] by simp
  with False c extensionSchema_SomeD [OF s] have "resourceEntry rt (foldName urn, VMap c)"
    by (simp add: resourceEntry_def)
  with False show ?thesis using resourceOk_aput [OF m] by (simp add: commitExtension_def)
qed

lemma setExtensionContainer_ok:
  assumes m: "distinct_keys m" "list_all (resourceEntry rt) m"
    and set: "setExtensionContainer rt urn v m = Inr m'"
  shows "distinct_keys m' \<and> list_all (resourceEntry rt) m'"
proof (cases "v = VNil")
  case True
  then show ?thesis using set resourceOk_adel [OF m] by (auto simp: setExtensionContainer_def)
next
  case False
  with set obtain src s c where s: "extensionSchema rt urn = Some s"
      and loop: "rfold (containerStep (schemaAttributes s)) src [] = Inr c"
      and m': "m' = commitExtension (foldName urn) c m"
    by (auto simp: setExtensionContainer_def res_simps split: option.splits)
  have "containerOk (schemaAttributes s) c"
    by (rule rfold_invariant [OF loop]) (simp add: containerOk_def, rule containerStep_ok)
  with commitExtension_ok [OF m s] m' show ?thesis by simp
qed

lemma extContainer_ok:
  assumes "list_all (resourceEntry rt) m" and "extensionSchema rt urn = Some s"
  shows "containerOk (schemaAttributes s) (case extContainer m urn of None \<Rightarrow> [] | Some c \<Rightarrow> c)"
proof (cases "extContainer m urn")
  case (Some c)
  then have "aget m (foldName urn) = Some (VMap c)"
    by (auto simp: extContainer_def split: option.splits gval.splits)
  from aget_in_set [OF this] assms(1) have "resourceEntry rt (foldName urn, VMap c)"
    by (auto simp: list_all_iff)
  moreover have "extensionSchema rt (foldName urn) = Some s"
    using assms(2) extensionSchema_fold_cong [of "foldName urn" urn rt] by simp
  ultimately show ?thesis using Some by (simp add: resourceEntry_def)
qed (simp add: containerOk_def)

lemma setResolved_ok:
  assumes ok: "resourceTypeOk (rRT r)" and r: "resourceOk r" and rp: "resolvedOk (rRT r) rp"
    and set: "setResolved r rp v = Inr m'"
  shows "distinct_keys m' \<and> list_all (resourceEntry (rRT r)) m'"
proof (cases "rpAttr rp")
  case None
  with set r setExtensionContainer_ok [of "rAttrs r" "rRT r" "rpUrn rp" v m'] show ?thesis
    by (simp add: setResolved_def setExtension_def resourceOk_def)
next
  case (Some a)
  from r have m: "distinct_keys (rAttrs r)" "list_all (resourceEntry (rRT r)) (rAttrs r)"
    by (auto simp: resourceOk_def)
  from rp Some have ns: "namespaceAttr (rRT r) (rpUrn rp) (attrName a) = (Some a, rpCommon rp)"
    and sub: "case rpSub rp of None \<Rightarrow> True
      | Some s \<Rightarrow> attrType a = TypeComplex \<and> \<not> multiValued a \<and>
          findAttribute (subAttributes a) (attrName s) = Some s"
    by (auto simp: resolvedOk_def)
  show ?thesis
  proof (cases "rpUrn rp = []")
    case True
    with set Some have set': "setInContainer (rAttrs r) a (rpSub rp) v = Inr m'"
      and key: "rpCommon rp \<longrightarrow> foldName (attrName a) \<notin> {attrSchemas, attrMeta}"
      by (auto simp: setResolved_def setCommon_def Let_def split: if_splits)
    have "findAttribute (coreAttrs (rRT r)) (attrName a) = Some a"
      using ns True key by (auto intro: namespace_core)
    then show ?thesis by (rule setInContainer_core [OF ok m _ sub set'])
  next
    case False
    with rp obtain s where s: "extensionSchema (rRT r) (rpUrn rp) = Some s"
      by (auto simp: resolvedOk_def)
    with ns False have "\<not> rpCommon rp" and a: "findAttribute (schemaAttributes s) (attrName a) = Some a"
      by (auto simp: namespaceAttr_def)
    with set Some False obtain c where
      c: "setInContainer (case extContainer (rAttrs r) (rpUrn rp) of None \<Rightarrow> [] | Some c \<Rightarrow> c)
             a (rpSub rp) v = Inr c"
      and m': "m' = commitExtension (foldName (rpUrn rp)) c (rAttrs r)"
      by (auto simp: setResolved_def setExtension_def Let_def res_simps)
    have "containerOk (schemaAttributes s) c"
      by (rule setInContainer_ext [OF flat_extension [OF ok s] extContainer_ok [OF m(2) s] a sub c])
    with commitExtension_ok [OF m s] m' show ?thesis by simp
  qed
qed

lemma Set_resourceOk:
  assumes "resourceTypeOk (rRT r)" and "resourceOk r" and "Set r path v = Inr r'"
  shows "resourceOk r' \<and> rRT r' = rRT r \<and> rMeta r' = rMeta r"
proof -
  from assms(3) obtain rp m where rp: "resolvePath (rRT r) path = Inr rp"
      and set: "setResolved r rp v = Inr m" and r': "r' = r\<lparr>rAttrs := m\<rparr>"
    by (auto simp: Set_def res_simps)
  from setResolved_ok [OF assms(1,2) resolvePath_resolvedOk [OF rp] set] r' show ?thesis
    by (simp add: resourceOk_def)
qed

lemma NewResource_resourceOk [simp]: "resourceOk (NewResource rt)"
  by (simp add: NewResource_def resourceOk_def)

lemma SetMeta_resourceOk [simp]: "resourceOk (SetMeta m r) = resourceOk r"
  by (simp add: SetMeta_def resourceOk_def)


subsection \<open>Reading what was written\<close>

text \<open>The container a stored path lives in.\<close>

definition nsContainer :: "cval \<Rightarrow> string \<Rightarrow> cval" where
  "nsContainer m urn =
     (if urn = [] then m else case extContainer m urn of None \<Rightarrow> [] | Some c \<Rightarrow> c)"

definition storedPath :: "resolved_path \<Rightarrow> bool" where
  "storedPath rp \<longleftrightarrow>
     (case rpAttr rp of
        None \<Rightarrow> False
      | Some a \<Rightarrow> rpCommon rp \<longrightarrow> foldName (attrName a) \<notin> {attrSchemas, attrMeta})"

lemma common_no_sub:
  assumes "resolvedOk rt rp" and "storedPath rp" and "rpCommon rp"
  shows "rpSub rp = None \<and> rpUrn rp = []"
proof -
  from assms obtain a where a: "rpAttr rp = Some a" "foldName (attrName a) \<notin> {attrSchemas, attrMeta}"
    by (auto simp: storedPath_def split: option.splits)
  with assms have ns: "namespaceAttr rt (rpUrn rp) (attrName a) = (Some a, True)"
    by (auto simp: resolvedOk_def)
  then have urn: "rpUrn rp = []" and "findAttribute commonAttributes (attrName a) = Some a"
    by (auto simp: namespaceAttr_def split: if_splits option.splits)
  then have "attrType a = TypeString"
    using findAttribute_SomeD [of commonAttributes "attrName a" a] a(2)
    by (auto simp: commonAttributes_def attrSchemas_def attrMeta_def)
  with assms(1) a(1) urn show ?thesis by (auto simp: resolvedOk_def split: option.splits)
qed

lemma containerGet_Nil [simp]: "containerGet [] a sub = None"
  by (simp add: containerGet_def)

lemma getResolved_stored:
  assumes "resolvedOk (rRT r) rp" and "storedPath rp" and "rpAttr rp = Some a"
  shows "getResolved r rp = containerGet (nsContainer (rAttrs r) (rpUrn rp)) a (rpSub rp)"
  using common_no_sub [OF assms(1,2)] assms(2,3)
  by (auto simp: getResolved_def storedPath_def getCommon_def Let_def containerGet_simps
      nsContainer_def split: option.splits)

lemma extContainer_commit:
  "extContainer (commitExtension (foldName urn) c m) urn' =
     (if foldName urn' = foldName urn then (if c = [] then None else Some c)
      else extContainer m urn')"
  by (simp add: commitExtension_def extContainer_def)

text \<open>A write to a stored path is one \<open>setInContainer\<close> on the container of the path; the
  container of any other namespace stays.\<close>

lemma setResolved_stored:
  assumes ok: "resourceTypeOk (rRT r)" and rp: "resolvedOk (rRT r) rp" and st: "storedPath rp"
    and a: "rpAttr rp = Some a" and set: "setResolved r rp v = Inr m'"
  shows "setInContainer (nsContainer (rAttrs r) (rpUrn rp)) a (rpSub rp) v =
           Inr (nsContainer m' (rpUrn rp))"
    and "\<And>rq b t. resolvedOk (rRT r) rq \<Longrightarrow> storedPath rq \<Longrightarrow> rpAttr rq = Some b \<Longrightarrow>
      foldName (rpUrn rq) \<noteq> foldName (rpUrn rp) \<Longrightarrow>
      containerGet (nsContainer m' (rpUrn rq)) b t =
        containerGet (nsContainer (rAttrs r) (rpUrn rq)) b t"
proof -
  have core: "findAttribute (coreAttrs (rRT r)) (attrName b) = Some b"
    if "resolvedOk (rRT r) rq" "storedPath rq" "rpAttr rq = Some b" "rpUrn rq = []" for rq b
    using that namespace_core [of "rRT r" "attrName b" b "rpCommon rq"]
    by (auto simp: resolvedOk_def storedPath_def)
  have differ: "foldName (attrName b) \<noteq> foldName urn"
    if "resolvedOk (rRT r) rq" "storedPath rq" "rpAttr rq = Some b" "rpUrn rq = []"
      "extensionSchema (rRT r) urn = Some s" for rq b urn s
    using core_not_extension [OF ok core [OF that(1-4)]] that(5)
      extensionSchema_fold_cong [of "foldName (attrName b)" urn "rRT r"] by force
  show "setInContainer (nsContainer (rAttrs r) (rpUrn rp)) a (rpSub rp) v =
      Inr (nsContainer m' (rpUrn rp))"
    using set a st common_no_sub [OF rp st]
    by (auto simp: setResolved_def setCommon_def setExtension_def Let_def storedPath_def
        nsContainer_def res_simps extContainer_commit split: if_splits)
  fix rq b t
  assume rq: "resolvedOk (rRT r) rq" "storedPath rq" "rpAttr rq = Some b"
    and urns: "foldName (rpUrn rq) \<noteq> foldName (rpUrn rp)"
  show "containerGet (nsContainer m' (rpUrn rq)) b t =
      containerGet (nsContainer (rAttrs r) (rpUrn rq)) b t"
  proof (cases "rpUrn rp = []")
    case True
    with urns rq obtain s where s: "extensionSchema (rRT r) (rpUrn rq) = Some s" and "rpUrn rq \<noteq> []"
      by (auto simp: resolvedOk_def)
    from set a True have "setInContainer (rAttrs r) a (rpSub rp) v = Inr m'"
      by (auto simp: setResolved_def setCommon_def Let_def split: if_splits)
    then have "aget m' k = aget (rAttrs r) k" if "k \<noteq> foldName (attrName a)" for k
      using that
      by (auto simp: setInContainer_def setSub_def res_simps Let_def split: option.splits if_splits)
    with differ [OF rp st a True s] have "extContainer m' (rpUrn rq) = extContainer (rAttrs r) (rpUrn rq)"
      by (simp add: extContainer_def)
    with \<open>rpUrn rq \<noteq> []\<close> show ?thesis by (simp add: nsContainer_def)
  next
    case False
    with rp obtain s where s: "extensionSchema (rRT r) (rpUrn rp) = Some s" by (auto simp: resolvedOk_def)
    from False set a st common_no_sub [OF rp st] obtain c where
      m': "m' = commitExtension (foldName (rpUrn rp)) c (rAttrs r)"
      by (auto simp: setResolved_def setExtension_def Let_def res_simps split: if_splits)
    show ?thesis
    proof (cases "rpUrn rq = []")
      case True
      with differ [OF rq True s] m' show ?thesis
        by (simp add: nsContainer_def commitExtension_def containerGet_def)
    next
      case False
      with urns m' show ?thesis by (simp add: nsContainer_def extContainer_commit)
    qed
  qed
qed

text \<open>Two stored paths that share no position of the container.\<close>

definition disjointPaths :: "resolved_path \<Rightarrow> resolved_path \<Rightarrow> bool" where
  "disjointPaths rp rq \<longleftrightarrow>
     foldName (rpUrn rp) \<noteq> foldName (rpUrn rq) \<or>
     map_option (foldName \<circ> attrName) (rpAttr rp) \<noteq> map_option (foldName \<circ> attrName) (rpAttr rq) \<or>
     (case (rpSub rp, rpSub rq) of
        (Some s, Some t) \<Rightarrow> foldName (attrName s) \<noteq> foldName (attrName t) | _ \<Rightarrow> False)"

lemma nsContainer_fold: "foldName u = foldName w \<Longrightarrow> nsContainer m u = nsContainer m w"
  by (cases "u = []"; cases "w = []") (auto simp: nsContainer_def extContainer_def)

lemma containerGet_fold:
  "foldName (attrName a) = foldName (attrName b) \<Longrightarrow> containerGet m a t = containerGet m b t"
  by (simp add: containerGet_def)

lemma Set_InrE:
  assumes "Set r path v = Inr r'"
  obtains rp m where "resolvePath (rRT r) path = Inr rp" and "setResolved r rp v = Inr m"
    and "r' = r\<lparr>rAttrs := m\<rparr>"
  using assms by (auto simp: Set_def res_simps)

lemma Get_Set:
  assumes ok: "resourceTypeOk (rRT r)" and set: "Set r path v = Inr r'"
    and rp: "resolvePath (rRT r) path = Inr rp" and a: "rpAttr rp = Some a"
  shows "\<exists>cv. coerceValue (targetAttr a (rpSub rp)) v = Inr cv \<and> Get r' path = assigned cv"
proof -
  from set rp obtain m where m: "setResolved r rp v = Inr m" and r': "r' = r\<lparr>rAttrs := m\<rparr>"
    by (auto elim: Set_InrE)
  have rpok: "resolvedOk (rRT r) rp" using rp by (rule resolvePath_resolvedOk)
  have st: "storedPath rp"
    using m a by (auto simp: storedPath_def setResolved_def setCommon_def Let_def split: if_splits)
  from setInContainer_Inr [OF setResolved_stored(1) [OF ok rpok st a m]]
  obtain cv where "coerceValue (targetAttr a (rpSub rp)) v = Inr cv"
      and "containerGet (nsContainer m (rpUrn rp)) a (rpSub rp) = assigned cv" by metis
  moreover have "Get r' path = containerGet (nsContainer m (rpUrn rp)) a (rpSub rp)"
    using getResolved_stored [of r' rp a] rpok st a rp r' by (simp add: Get_def)
  ultimately show ?thesis by auto
qed

lemma Set_frame:
  assumes ok: "resourceTypeOk (rRT r)" and set: "Set r path v = Inr r'"
    and rp: "resolvePath (rRT r) path = Inr rp" and a: "rpAttr rp = Some a"
    and rq: "resolvePath (rRT r) path' = Inr rq" and b: "rpAttr rq = Some b" and stq: "storedPath rq"
    and dis: "disjointPaths rp rq"
  shows "Get r' path' = Get r path'"
proof -
  from set rp obtain m where m: "setResolved r rp v = Inr m" and r': "r' = r\<lparr>rAttrs := m\<rparr>"
    by (auto elim: Set_InrE)
  have rpok: "resolvedOk (rRT r) rp" "resolvedOk (rRT r) rq"
    using rp rq resolvePath_resolvedOk by auto
  have st: "storedPath rp"
    using m a by (auto simp: storedPath_def setResolved_def setCommon_def Let_def split: if_splits)
  note written = setResolved_stored [OF ok rpok(1) st a m]
  have "containerGet (nsContainer m (rpUrn rq)) b (rpSub rq) =
      containerGet (nsContainer (rAttrs r) (rpUrn rq)) b (rpSub rq)"
  proof (cases "foldName (rpUrn rq) = foldName (rpUrn rp)")
    case False
    then show ?thesis by (rule written(2) [OF rpok(2) stq b])
  next
    case True
    note ns = nsContainer_fold [OF True]
    from setInContainer_Inr [OF written(1)] have
      other: "foldName (attrName b) \<noteq> foldName (attrName a) \<Longrightarrow>
        containerGet (nsContainer m (rpUrn rp)) b (rpSub rq) =
        containerGet (nsContainer (rAttrs r) (rpUrn rp)) b (rpSub rq)"
      and subs: "\<And>s t. rpSub rp = Some s \<Longrightarrow> foldName (attrName t) \<noteq> foldName (attrName s) \<Longrightarrow>
        containerGet (nsContainer m (rpUrn rp)) a (Some t) =
        containerGet (nsContainer (rAttrs r) (rpUrn rp)) a (Some t)"
      by metis+
    show ?thesis
    proof (cases "foldName (attrName b) = foldName (attrName a)")
      case False
      then show ?thesis using other by (simp add: ns)
    next
      case key: True
      with dis True a b obtain s t where "rpSub rp = Some s" "rpSub rq = Some t"
          "foldName (attrName t) \<noteq> foldName (attrName s)"
        by (auto simp: disjointPaths_def split: option.splits)
      then show ?thesis using subs by (simp add: ns containerGet_fold [OF key])
    qed
  qed
  moreover have "Get r' path' = containerGet (nsContainer m (rpUrn rq)) b (rpSub rq)"
    "Get r path' = containerGet (nsContainer (rAttrs r) (rpUrn rq)) b (rpSub rq)"
    using getResolved_stored [of r' rq b] getResolved_stored [of r rq b] rpok(2) stq b rq r'
    by (simp_all add: Get_def)
  ultimately show ?thesis by simp
qed

text \<open>What \<open>Get\<close> returns of a stored attribute is in the stored form of the attribute.\<close>

lemma Get_stored:
  assumes ok: "resourceTypeOk (rRT r)" and r: "resourceOk r"
    and rp: "resolvePath (rRT r) path = Inr rp" and a: "rpAttr rp = Some a"
    and st: "storedPath rp" and sub: "rpSub rp = None" and get: "Get r path = Some v"
  shows "storedValue a v"
proof -
  have rpok: "resolvedOk (rRT r) rp" using rp by (rule resolvePath_resolvedOk)
  have get: "aget (nsContainer (rAttrs r) (rpUrn rp)) (foldName (attrName a)) = Some v"
    using get getResolved_stored [OF rpok st a] rp sub by (simp add: Get_def containerGet_simps)
  show ?thesis
  proof (cases "rpUrn rp = []")
    case True
    with rpok a st have core: "findAttribute (coreAttrs (rRT r)) (attrName a) = Some a"
      using namespace_core [of "rRT r" "attrName a" a "rpCommon rp"]
      by (auto simp: resolvedOk_def storedPath_def)
    from core_not_extension [OF ok this] have "extensionSchema (rRT r) (foldName (attrName a)) = None"
      by simp
    with aget_in_set [of "rAttrs r" "foldName (attrName a)" v] get True r
    have "containerEntry (coreAttrs (rRT r)) (foldName (attrName a), v)"
      by (auto simp: resourceOk_def list_all_iff resourceEntry_def nsContainer_def)
    with core show ?thesis by (simp add: containerEntry_def)
  next
    case False
    then obtain c where c: "extContainer (rAttrs r) (rpUrn rp) = Some c"
        "aget c (foldName (attrName a)) = Some v"
      using get by (auto simp: nsContainer_def split: option.splits)
    from rpok False a obtain s where s: "extensionSchema (rRT r) (rpUrn rp) = Some s"
        and fa: "findAttribute (schemaAttributes s) (attrName a) = Some a"
      by (auto simp: resolvedOk_def namespaceAttr_def split: option.splits if_splits)
    from extContainer_ok [OF _ s, of "rAttrs r"] r c(1) have "containerOk (schemaAttributes s) c"
      by (simp add: resourceOk_def)
    with aget_in_set [OF c(2)] have "containerEntry (schemaAttributes s) (foldName (attrName a), v)"
      by (auto simp: containerOk_def list_all_iff)
    with fa show ?thesis by (simp add: containerEntry_def)
  qed
qed

text \<open>The derived \<open>schemas\<close> list: exactly the extensions that hold data.\<close>

lemma Schemas_exact:
  "set (Schemas r) = insert (schemaID (rtSchema (rRT r)))
     {schemaID (extSchema x) | x. x \<in> set (rtExtensions (rRT r)) \<and>
        aget (rAttrs r) (foldName (schemaID (extSchema x))) \<noteq> None}"
  by (auto simp: Schemas_def)

end
