(* ===== verification/Filter_Match.thy ===== *)
theory Filter_Match
  imports Filter_Ast Scim_Resource
begin

text \<open>
  \<open>filter/match.go\<close>: evaluation of a filter against a resource, and of the filter of a
  value path against one element. A Go \<open>nil\<close> candidate is \<open>VNil\<close>; reading a key a map does
  not hold yields it. The only error is \<open>ErrInvalidFilter\<close>, found before evaluation.
\<close>

subsection \<open>Paths\<close>

definition filterNamespace :: "resource_type \<Rightarrow> string \<Rightarrow> attribute list option" where
  "filterNamespace rt urn =
     (if urn = [] \<or> foldName urn = foldName (schemaID (rtSchema rt))
      then Some (schemaAttributes (rtSchema rt))
      else map_option schemaAttributes (extensionSchema rt urn))"

definition resolveFilter :: "resource_type \<Rightarrow> fpath \<Rightarrow> (attribute \<times> attribute option) option" where
  "resolveFilter rt p =
     (case filterNamespace rt (pathURN p) of
        None \<Rightarrow> None
      | Some attrs \<Rightarrow>
          (case (case findAttribute attrs (pathAttr p) of
                   Some a \<Rightarrow> Some a
                 | None \<Rightarrow> if pathURN p = [] then findAttribute commonAttributes (pathAttr p) else None) of
             None \<Rightarrow> None
           | Some a \<Rightarrow>
               if pathSub p = [] then Some (a, None)
               else if attrType a \<noteq> TypeComplex then None
               else (case findAttribute (subAttributes a) (pathSub p) of
                       None \<Rightarrow> None
                     | Some s \<Rightarrow> Some (a, Some s))))"

definition filterTarget :: "attribute \<times> attribute option \<Rightarrow> attribute" where
  "filterTarget r = (case snd r of Some s \<Rightarrow> s | None \<Rightarrow> fst r)"

definition existentialSub :: "attribute \<times> attribute option \<Rightarrow> bool" where
  "existentialSub r \<longleftrightarrow> snd r \<noteq> None \<and> multiValued (fst r) \<and> attrType (fst r) = TypeComplex"

definition attrPathText :: "fpath \<Rightarrow> string" where
  "attrPathText p = (if pathURN p \<noteq> [] then pathURN p @ '':'' @ pathAttr p else pathAttr p)"

definition fullPathText :: "fpath \<Rightarrow> string" where
  "fullPathText p = attrPathText p @ (if pathSub p \<noteq> [] then ''.'' @ pathSub p else [])"

text \<open>The attribute a comparison is about, on a resource or, with a parent, on an element.\<close>

definition resolveTarget :: "resource_type \<Rightarrow> fpath \<Rightarrow> attribute option \<Rightarrow> attribute option" where
  "resolveTarget rt p parent =
     (case parent of
        None \<Rightarrow> map_option filterTarget (resolveFilter rt p)
      | Some a \<Rightarrow>
          if pathURN p \<noteq> [] \<or> pathSub p \<noteq> [] then None
          else findAttribute (subAttributes a) (pathAttr p))"

subsection \<open>Validation\<close>

definition validateCompare :: "resource_type \<Rightarrow> fpath \<Rightarrow> op \<Rightarrow> attribute option \<Rightarrow> bool" where
  "validateCompare rt p o' parent \<longleftrightarrow>
     \<not> ordering o' \<or>
     (case resolveTarget rt p parent of
        None \<Rightarrow> True
      | Some t \<Rightarrow> attrType t \<noteq> TypeBoolean \<and> attrType t \<noteq> TypeBinary)"

text \<open>\<open>False\<close> is \<open>ErrInvalidFilter\<close>.\<close>

fun validateExpr :: "resource_type \<Rightarrow> expr \<Rightarrow> attribute option \<Rightarrow> bool" where
  "validateExpr rt (AndExpr l r) parent = (validateExpr rt l parent \<and> validateExpr rt r parent)"
| "validateExpr rt (OrExpr l r) parent = (validateExpr rt l parent \<and> validateExpr rt r parent)"
| "validateExpr rt (NotExpr e) parent = validateExpr rt e parent"
| "validateExpr rt (Compare p o' v) parent = validateCompare rt p o' parent"
| "validateExpr rt (ValuePath p f) parent =
     (parent = None \<and>
      (case resolveFilter rt p of None \<Rightarrow> True | Some r \<Rightarrow> validateExpr rt f (Some (fst r))))"
| "validateExpr rt (Present p) parent = True"

subsection \<open>Comparison of one value\<close>

definition compareOrdered :: "op \<Rightarrow> int \<Rightarrow> bool \<Rightarrow> bool" where
  "compareOrdered o' cmp substring =
     (case o' of
        OpEqual \<Rightarrow> cmp = 0
      | OpNotEqual \<Rightarrow> cmp \<noteq> 0
      | OpGreaterThan \<Rightarrow> 0 < cmp
      | OpGreaterThanOrEqual \<Rightarrow> 0 \<le> cmp
      | OpLessThan \<Rightarrow> cmp < 0
      | OpLessThanOrEqual \<Rightarrow> cmp \<le> 0
      | OpContains \<Rightarrow> substring
      | OpStartsWith \<Rightarrow> substring
      | OpEndsWith \<Rightarrow> substring
      | _ \<Rightarrow> False)"

definition compareStringForm :: "gval \<Rightarrow> op \<Rightarrow> literal \<Rightarrow> bool \<Rightarrow> bool" where
  "compareStringForm got o' want exact =
     (case (want, (case got of VString s \<Rightarrow> Some s | VRef s \<Rightarrow> Some s | _ \<Rightarrow> None)) of
        (LString w0, Some g0) \<Rightarrow>
          (let g = (if exact then g0 else foldName g0);
               w = (if exact then w0 else foldName w0)
           in compareOrdered o' (strCompare g w)
                (case o' of
                   OpContains \<Rightarrow> sublist w g
                 | OpStartsWith \<Rightarrow> prefix w g
                 | OpEndsWith \<Rightarrow> suffix w g
                 | _ \<Rightarrow> False))
      | _ \<Rightarrow> False)"

definition compareBool :: "gval \<Rightarrow> op \<Rightarrow> literal \<Rightarrow> bool" where
  "compareBool got o' want =
     (case (got, want) of
        (VBool g, LBool w) \<Rightarrow>
          (case o' of OpEqual \<Rightarrow> g = w | OpNotEqual \<Rightarrow> g \<noteq> w | _ \<Rightarrow> False)
      | _ \<Rightarrow> False)"

definition cmpInt :: "int \<Rightarrow> int \<Rightarrow> int" where
  "cmpInt g w = (if g < w then - 1 else if w < g then 1 else 0)"

definition cmpFloat :: "float64 \<Rightarrow> float64 \<Rightarrow> int" where
  "cmpFloat g w = (if fltLess g w then - 1 else if fltLess w g then 1 else 0)"

definition compareNumber :: "gval \<Rightarrow> op \<Rightarrow> literal \<Rightarrow> bool" where
  "compareNumber got o' want =
     (case want of
        LNumber n \<Rightarrow>
          (case (got, parseInt64 n) of
             (VInt64 g, Some w) \<Rightarrow> compareOrdered o' (cmpInt g w) False
           | _ \<Rightarrow>
               (case (parseFloat64 n,
                      (case got of VInt64 i \<Rightarrow> Some (intToFloat64 i) | VFloat64 f \<Rightarrow> Some f | _ \<Rightarrow> None)) of
                  (Some w, Some g) \<Rightarrow> compareOrdered o' (cmpFloat g w) False
                | _ \<Rightarrow> False))
      | _ \<Rightarrow> False)"

definition compareDateTime :: "gval \<Rightarrow> op \<Rightarrow> literal \<Rightarrow> bool" where
  "compareDateTime got o' want =
     (case (got, want) of
        (VTime g, LString ws) \<Rightarrow>
          (case parseRFC3339 ws of
             Some w \<Rightarrow> compareOrdered o' (cmpInt (instant g) (instant w)) False
           | None \<Rightarrow> False)
      | _ \<Rightarrow> False)"

definition compareBinary :: "gval \<Rightarrow> op \<Rightarrow> literal \<Rightarrow> bool" where
  "compareBinary got o' want =
     (case (got, want) of
        (VBytes g, LString ws) \<Rightarrow>
          (case base64Decode ws of
             Some w \<Rightarrow> (case o' of OpEqual \<Rightarrow> g = w | OpNotEqual \<Rightarrow> g \<noteq> w | _ \<Rightarrow> False)
           | None \<Rightarrow> False)
      | _ \<Rightarrow> False)"

definition compareValue :: "attribute \<Rightarrow> gval \<Rightarrow> op \<Rightarrow> literal \<Rightarrow> bool" where
  "compareValue a got o' want =
     (if want = LNull then
        (case o' of OpEqual \<Rightarrow> got = VNil | OpNotEqual \<Rightarrow> got \<noteq> VNil | _ \<Rightarrow> False)
      else if got = VNil then False
      else case attrType a of
        TypeString \<Rightarrow> compareStringForm got o' want (caseExact a)
      | TypeReference \<Rightarrow> compareStringForm got o' want (caseExact a)
      | TypeBoolean \<Rightarrow> compareBool got o' want
      | TypeInteger \<Rightarrow> compareNumber got o' want
      | TypeDecimal \<Rightarrow> compareNumber got o' want
      | TypeDateTime \<Rightarrow> compareDateTime got o' want
      | TypeBinary \<Rightarrow> compareBinary got o' want
      | _ \<Rightarrow> False)"

subsection \<open>Candidates\<close>

definition agetNil :: "cval \<Rightarrow> string \<Rightarrow> gval" where
  "agetNil m k = (case aget m k of Some v \<Rightarrow> v | None \<Rightarrow> VNil)"

definition multiCandidates :: "gval \<Rightarrow> gval list" where
  "multiCandidates v =
     (case v of
        VStrings xs \<Rightarrow> map VString xs
      | VBools xs \<Rightarrow> map VBool xs
      | VInt64s xs \<Rightarrow> map VInt64 xs
      | VFloat64s xs \<Rightarrow> map VFloat64 xs
      | VTimes xs \<Rightarrow> map VTime xs
      | VBytess xs \<Rightarrow> map VBytes xs
      | VRefs xs \<Rightarrow> map VRef xs
      | VMulti xs \<Rightarrow> map VComplex xs
      | _ \<Rightarrow> [v])"

definition subCandidates :: "resource \<Rightarrow> attribute \<times> attribute option \<Rightarrow> fpath \<Rightarrow> gval list" where
  "subCandidates res r p =
     (case (Get res (attrPathText p), snd r) of
        (Some (VMulti ms), Some s) \<Rightarrow> map (\<lambda>elem. agetNil elem (foldName (attrName s))) ms
      | _ \<Rightarrow> [VNil])"

definition candidates :: "resource \<Rightarrow> attribute \<times> attribute option \<Rightarrow> fpath \<Rightarrow> gval list" where
  "candidates res r p =
     (if existentialSub r then subCandidates res r p
      else case Get res (fullPathText p) of
        None \<Rightarrow> [VNil]
      | Some v \<Rightarrow> if multiValued (fst r) \<and> snd r = None then multiCandidates v else [v])"

subsection \<open>Evaluation\<close>

fun evalElement :: "expr \<Rightarrow> cval \<Rightarrow> attribute \<Rightarrow> bool" where
  "evalElement (AndExpr l r) elem parent = (evalElement l elem parent \<and> evalElement r elem parent)"
| "evalElement (OrExpr l r) elem parent = (evalElement l elem parent \<or> evalElement r elem parent)"
| "evalElement (NotExpr e) elem parent = (\<not> evalElement e elem parent)"
| "evalElement (Compare p o' v) elem parent =
     (case (if pathURN p \<noteq> [] \<or> pathSub p \<noteq> [] then None
            else findAttribute (subAttributes parent) (pathAttr p)) of
        None \<Rightarrow> False
      | Some sub \<Rightarrow> compareValue sub (agetNil elem (foldName (attrName sub))) o' v)"
| "evalElement (Present p) elem parent =
     (case (if pathURN p \<noteq> [] \<or> pathSub p \<noteq> [] then None
            else findAttribute (subAttributes parent) (pathAttr p)) of
        None \<Rightarrow> False
      | Some sub \<Rightarrow> agetNil elem (foldName (attrName sub)) \<noteq> VNil)"
| "evalElement (ValuePath p f) elem parent = False"

definition evalCompare :: "resource \<Rightarrow> fpath \<Rightarrow> op \<Rightarrow> literal \<Rightarrow> bool" where
  "evalCompare res p o' v =
     (case resolveFilter (rRT res) p of
        None \<Rightarrow> False
      | Some r \<Rightarrow> list_ex (\<lambda>got. compareValue (filterTarget r) got o' v) (candidates res r p))"

definition evalPresent :: "resource \<Rightarrow> fpath \<Rightarrow> bool" where
  "evalPresent res p =
     (case resolveFilter (rRT res) p of
        None \<Rightarrow> False
      | Some r \<Rightarrow>
          if existentialSub r then list_ex (\<lambda>got. got \<noteq> VNil) (subCandidates res r p)
          else Get res (fullPathText p) \<noteq> None)"

definition evalValuePath :: "resource \<Rightarrow> fpath \<Rightarrow> expr \<Rightarrow> bool" where
  "evalValuePath res p f =
     (case resolveFilter (rRT res) p of
        None \<Rightarrow> False
      | Some r \<Rightarrow>
          (case Get res (fullPathText p) of
             Some (VMulti ms) \<Rightarrow> list_ex (\<lambda>elem. evalElement f elem (filterTarget r)) ms
           | Some (VComplex m) \<Rightarrow> evalElement f m (filterTarget r)
           | _ \<Rightarrow> False))"

fun evalExpr :: "resource \<Rightarrow> expr \<Rightarrow> bool" where
  "evalExpr res (AndExpr l r) = (evalExpr res l \<and> evalExpr res r)"
| "evalExpr res (OrExpr l r) = (evalExpr res l \<or> evalExpr res r)"
| "evalExpr res (NotExpr e) = (\<not> evalExpr res e)"
| "evalExpr res (Compare p o' v) = evalCompare res p o' v"
| "evalExpr res (Present p) = evalPresent res p"
| "evalExpr res (ValuePath p f) = evalValuePath res p f"

definition Match :: "resource \<Rightarrow> expr \<Rightarrow> (scim_error, bool) res" where
  "Match res e =
     (if validateExpr (rRT res) e None then Inr (evalExpr res e) else Inl ErrInvalidFilter)"

text \<open>The evaluator of \<open>MatchElement\<close> has no resource type; with a parent none is read.\<close>

definition MatchElement :: "resource_type \<Rightarrow> attribute \<Rightarrow> cval \<Rightarrow> expr \<Rightarrow> (scim_error, bool) res" where
  "MatchElement rt a elem e =
     (if validateExpr rt e (Some a) then Inr (evalElement e elem a) else Inl ErrInvalidFilter)"

subsection \<open>Laws\<close>

lemma validateExpr_rt_irrelevant:
  "validateExpr rt e (Some a) = validateExpr rt' e (Some a)"
proof (induction e rule: expr_induct)
  case (Compare p o' v)
  then show ?case by (simp add: validateCompare_def resolveTarget_def)
qed auto

text \<open>Letter case of the paths of a filter does not matter.\<close>

definition foldPath :: "fpath \<Rightarrow> fpath" where
  "foldPath p = FPath (foldName (pathURN p)) (foldName (pathAttr p)) (foldName (pathSub p)) (valueFilter p)"

fun foldPaths :: "expr \<Rightarrow> expr" where
  "foldPaths (AndExpr l r) = AndExpr (foldPaths l) (foldPaths r)"
| "foldPaths (OrExpr l r) = OrExpr (foldPaths l) (foldPaths r)"
| "foldPaths (NotExpr e) = NotExpr (foldPaths e)"
| "foldPaths (Compare p o' v) = Compare (foldPath p) o' v"
| "foldPaths (Present p) = Present (foldPath p)"
| "foldPaths (ValuePath p f) = ValuePath (foldPath p) (foldPaths f)"

lemma foldPath_sel [simp]:
  "pathURN (foldPath p) = foldName (pathURN p)" "pathAttr (foldPath p) = foldName (pathAttr p)"
  "pathSub (foldPath p) = foldName (pathSub p)"
  by (simp_all add: foldPath_def)

lemma resolveFilter_fold [simp]: "resolveFilter rt (foldPath p) = resolveFilter rt p"
proof -
  have "filterNamespace rt (foldName u) = filterNamespace rt u" for u
    using extensionSchema_fold_cong [of "foldName u" u rt] by (simp add: filterNamespace_def)
  then show ?thesis by (simp add: resolveFilter_def split: option.splits)
qed

lemma pathText_fold:
  "foldName (attrPathText (foldPath p)) = foldName (attrPathText p)"
  "foldName (fullPathText (foldPath p)) = foldName (fullPathText p)"
  by (auto simp: attrPathText_def fullPathText_def)

lemma Get_fold_cong: "foldName p = foldName q \<Longrightarrow> Get r p = Get r q"
  using resolvePath_fold_cong [of p q "rRT r"] by (simp add: Get_def)

lemma evalElement_foldPaths [simp]: "evalElement (foldPaths f) elem a = evalElement f elem a"
  by (induction f rule: expr_induct) (simp_all split: option.splits)

lemma candidates_fold [simp]:
  "subCandidates res r (foldPath p) = subCandidates res r p"
  "candidates res r (foldPath p) = candidates res r p"
  using Get_fold_cong [OF pathText_fold(1) [of p]] Get_fold_cong [OF pathText_fold(2) [of p]]
  by (simp_all add: subCandidates_def candidates_def)

lemma evalExpr_foldPaths: "evalExpr res (foldPaths e) = evalExpr res e"
proof (induction e rule: expr_induct)
  case (Compare p o' v)
  then show ?case by (simp add: evalCompare_def split: option.splits)
next
  case (Present p)
  then show ?case
    using Get_fold_cong [OF pathText_fold(2) [of p]] by (simp add: evalPresent_def split: option.splits)
next
  case (ValuePath p f)
  then show ?case
    using Get_fold_cong [OF pathText_fold(2) [of p]]
    by (simp add: evalValuePath_def split: option.splits gval.splits)
qed auto

lemma validateExpr_foldPaths: "validateExpr rt (foldPaths e) parent = validateExpr rt e parent"
proof (induction e arbitrary: parent rule: expr_induct)
  case (Compare p o' v)
  have "resolveTarget rt (foldPath p) parent = resolveTarget rt p parent"
    by (simp add: resolveTarget_def split: option.splits)
  then show ?case by (simp add: validateCompare_def)
next
  case (ValuePath p f)
  then show ?case by (simp split: option.splits)
qed auto

lemma Match_foldPaths: "Match res (foldPaths e) = Match res e"
  by (simp add: Match_def evalExpr_foldPaths validateExpr_foldPaths)

text \<open>What is stored is not null.\<close>

lemma containerGet_not_VNil:
  assumes "containerOk attrs m" and "containerGet m a sub = Some v"
  shows "v \<noteq> VNil"
proof -
  from assms(2) obtain w where w: "aget m (foldName (attrName a)) = Some w" and v: "subValue w sub = Some v"
    by (auto simp: containerGet_def split: option.splits)
  from aget_in_set [OF w] assms(1) have "containerEntry attrs (foldName (attrName a), w)"
    by (auto simp: containerOk_def list_all_iff)
  then obtain b where b: "storedValue b w"
    by (auto simp: containerEntry_def split: option.splits)
  show ?thesis
  proof (cases sub)
    case None
    with v b show ?thesis by (auto simp: subValue_def)
  next
    case (Some s)
    with v obtain cv where cv: "w = VComplex cv" "aget cv (foldName (attrName s)) = Some v"
      by (auto simp: subValue_def split: gval.splits)
    with b have "storedComplex (subAttributes b) cv"
      by (auto simp: storedValue_def stored_defs isStoredScalar_def split: if_splits)
    with aget_in_set [OF cv(2)] show ?thesis
      by (auto simp: storedComplex_def list_all_iff storedEntry_def split: option.splits)
  qed
qed


lemma resource_value_not_VNil:
  assumes "resourceOk r" and w: "aget (rAttrs r) k = Some v"
  shows "v \<noteq> VNil"
proof -
  from aget_in_set [OF w] assms(1) have "resourceEntry (rRT r) (k, v)"
    by (auto simp: resourceOk_def list_all_iff)
  then show ?thesis
    by (auto simp: resourceEntry_def containerEntry_def split: option.splits)
qed

lemma subValue_not_VNil:
  assumes "v \<noteq> VNil" and "\<And>m. v = VComplex m \<Longrightarrow> \<forall>k. aget m k \<noteq> Some VNil"
    and "subValue v sub = Some w"
  shows "w \<noteq> VNil"
  using assms by (auto simp: subValue_def split: option.splits gval.splits)

lemma storedValue_VComplex: "storedValue a (VComplex m) \<Longrightarrow> storedComplex (subAttributes a) m"
  by (simp add: storedValue_def stored_defs isStoredScalar_def split: if_splits)

lemma stored_subs_not_VNil:
  assumes "storedValue a (VComplex m)" shows "aget m k \<noteq> Some VNil"
proof
  assume "aget m k = Some VNil"
  from aget_in_set [OF this] storedValue_VComplex [OF assms]
  have "storedEntry (subAttributes a) (k, VNil)" by (auto simp: storedComplex_def list_all_iff)
  then show False by (simp add: storedEntry_def split: option.splits)
qed

lemma resource_subs_not_VNil:
  assumes "resourceOk r" and w: "aget (rAttrs r) k = Some (VComplex m)"
  shows "aget m k' \<noteq> Some VNil"
proof -
  from aget_in_set [OF w] assms(1) have "resourceEntry (rRT r) (k, VComplex m)"
    by (auto simp: resourceOk_def list_all_iff)
  then obtain a where "storedValue a (VComplex m)"
    by (auto simp: resourceEntry_def containerEntry_def split: option.splits)
  then show ?thesis by (rule stored_subs_not_VNil)
qed

lemma metaValue_not_VNil: "aget (metaValue m) k \<noteq> Some VNil"
  by (auto simp: metaValue_def split: if_splits)

lemma getCommon_not_VNil:
  assumes "resourceOk r" and "getCommon r a sub = Some v" shows "v \<noteq> VNil"
proof -
  define key where "key = foldName (attrName a)"
  consider (schemas) "key = attrSchemas" | (meta) "key \<noteq> attrSchemas" "key = attrMeta"
    | (other) "key \<noteq> attrSchemas" "key \<noteq> attrMeta" by blast
  then show ?thesis
  proof cases
    case schemas
    with assms(2) show ?thesis by (auto simp: getCommon_def Let_def key_def)
  next
    case meta
    with assms(2) have "subValue (VComplex (metaValue (rMeta r))) sub = Some v"
      by (auto simp: getCommon_def Let_def key_def split: list.splits)
    from subValue_not_VNil [OF _ _ this] metaValue_not_VNil [of "rMeta r"] show ?thesis by simp
  next
    case other
    with assms(2) have "aget (rAttrs r) key = Some v" by (simp add: getCommon_def Let_def key_def)
    then show ?thesis by (rule resource_value_not_VNil [OF assms(1)])
  qed
qed

lemma Get_not_VNil:
  assumes ok: "resourceOk r" and get: "Get r path = Some v"
  shows "v \<noteq> VNil"
proof -
  from get obtain rp where rp: "resolvePath (rRT r) path = Inr rp" and v: "getResolved r rp = Some v"
    by (auto simp: Get_def split: sum.splits)
  have rpok: "resolvedOk (rRT r) rp" using rp by (rule resolvePath_resolvedOk)
  show ?thesis
  proof (cases "rpAttr rp")
    case None
    with v show ?thesis by (auto simp: getResolved_def)
  next
    case (Some a)
    consider (common) "rpCommon rp" | (ext) c where "\<not> rpCommon rp" "rpUrn rp \<noteq> []"
        "extContainer (rAttrs r) (rpUrn rp) = Some c" "containerGet c a (rpSub rp) = Some v"
      | (core) "\<not> rpCommon rp" "containerGet (rAttrs r) a (rpSub rp) = Some v"
      using v Some by (auto simp: getResolved_def split: if_splits option.splits)
    then show ?thesis
    proof cases
      case common
      with v Some show ?thesis using getCommon_not_VNil [OF ok] by (simp add: getResolved_def)
    next
      case ext
      from rpok ext(2) obtain s where "extensionSchema (rRT r) (rpUrn rp) = Some s"
        by (auto simp: resolvedOk_def)
      from extContainer_ok [OF _ this, of "rAttrs r"] ok ext(3)
      have "containerOk (schemaAttributes s) c" by (simp add: resourceOk_def)
      then show ?thesis using ext(4) by (rule containerGet_not_VNil)
    next
      case core
      then obtain w where w: "aget (rAttrs r) (foldName (attrName a)) = Some w" "subValue w (rpSub rp) = Some v"
        by (auto simp: containerGet_def split: option.splits)
      show ?thesis
        using subValue_not_VNil [OF resource_value_not_VNil [OF ok w(1)] _ w(2)]
          resource_subs_not_VNil [OF ok] w(1) by blast
    qed
  qed
qed

lemma multiCandidates_not_VNil: "v \<noteq> VNil \<Longrightarrow> x \<in> set (multiCandidates v) \<Longrightarrow> x \<noteq> VNil"
  by (auto simp: multiCandidates_def split: gval.splits)

text \<open>Null, absent and the empty list are one: \<open>eq null\<close> is the negation of \<open>pr\<close>.\<close>

lemma eq_null_absent:
  assumes ok: "resourceOk res" and r: "resolveFilter (rRT res) p = Some r" and e: "\<not> existentialSub r"
  shows "evalExpr res (Compare p OpEqual LNull) \<longleftrightarrow> \<not> evalExpr res (Present p)"
proof (cases "Get res (fullPathText p)")
  case None
  with r e show ?thesis
    by (simp add: evalCompare_def evalPresent_def candidates_def compareValue_def)
next
  case (Some v)
  with Get_not_VNil [OF ok] have "v \<noteq> VNil" by blast
  with multiCandidates_not_VNil [OF this] Some r e show ?thesis
    by (auto simp: evalCompare_def evalPresent_def candidates_def compareValue_def list_ex_iff)
qed

text \<open>An unknown path is a no-value: the clause is false, whatever the operator.\<close>

lemma unknown_path_false:
  "resolveFilter (rRT res) p = None \<Longrightarrow>
     \<not> evalExpr res (Compare p o' v) \<and> \<not> evalExpr res (Present p) \<and> \<not> evalExpr res (ValuePath p f)"
  by (simp add: evalCompare_def evalPresent_def evalValuePath_def)

text \<open>What validation rejects: a nested value path, or an ordering operator on a boolean or
  binary attribute.\<close>

fun offends :: "resource_type \<Rightarrow> attribute option \<Rightarrow> expr \<Rightarrow> bool" where
  "offends rt parent (Compare p o' v) =
     (ordering o' \<and> (\<exists>t. resolveTarget rt p parent = Some t \<and> attrType t \<in> {TypeBoolean, TypeBinary}))"
| "offends rt parent (ValuePath p f) = (parent \<noteq> None)"
| "offends rt parent _ = False"

fun subExprs :: "resource_type \<Rightarrow> attribute option \<Rightarrow> expr \<Rightarrow> (attribute option \<times> expr) list" where
  "subExprs rt parent (AndExpr l r) = (parent, AndExpr l r) # subExprs rt parent l @ subExprs rt parent r"
| "subExprs rt parent (OrExpr l r) = (parent, OrExpr l r) # subExprs rt parent l @ subExprs rt parent r"
| "subExprs rt parent (NotExpr e) = (parent, NotExpr e) # subExprs rt parent e"
| "subExprs rt parent (ValuePath p f) =
     (parent, ValuePath p f) #
       (if parent = None then
          case resolveFilter rt p of None \<Rightarrow> [] | Some r \<Rightarrow> subExprs rt (Some (fst r)) f
        else [])"
| "subExprs rt parent e = [(parent, e)]"

lemma validateExpr_iff:
  "validateExpr rt e parent \<longleftrightarrow> (\<forall>(q, f) \<in> set (subExprs rt parent e). \<not> offends rt q f)"
proof (induction e arbitrary: parent rule: expr_induct)
  case (Compare p o' v)
  then show ?case by (auto simp: validateCompare_def split: option.splits)
next
  case (ValuePath p f)
  show ?case
  proof (cases "resolveFilter rt p")
    case (Some r)
    with ValuePath [of "Some (fst r)"] show ?thesis by (cases parent) simp_all
  qed (cases parent; simp)
qed (simp_all add: ball_Un)

text \<open>Stored integers compare exactly with integer literals, at every magnitude.\<close>

lemma compareNumber_exact:
  assumes "inInt64 j"
  shows "compareNumber (VInt64 i) o' (LNumber (formatInt j)) = compareOrdered o' (cmpInt i j) False"
  using parseInt64_formatInt [OF assms] by (simp add: compareNumber_def)

lemma compareOrdered_cmpInt:
  "compareOrdered OpEqual (cmpInt i j) b \<longleftrightarrow> i = j" "compareOrdered OpNotEqual (cmpInt i j) b \<longleftrightarrow> i \<noteq> j"
  "compareOrdered OpLessThan (cmpInt i j) b \<longleftrightarrow> i < j" "compareOrdered OpGreaterThan (cmpInt i j) b \<longleftrightarrow> i > j"
  "compareOrdered OpLessThanOrEqual (cmpInt i j) b \<longleftrightarrow> i \<le> j"
  "compareOrdered OpGreaterThanOrEqual (cmpInt i j) b \<longleftrightarrow> i \<ge> j"
  by (simp_all add: compareOrdered_def cmpInt_def)

end
