(* ===== verification/Patch_Op.thy ===== *)
theory Patch_Op
  imports Filter_Match
begin

text \<open>
  \<open>patch/kind.go\<close>, \<open>patch/op.go\<close>, \<open>patch/profile.go\<close>, \<open>patch/resolve.go\<close>, \<open>patch/equal.go\<close>
  and the list operations of \<open>patch/apply_add.go\<close>: the operations of a PatchOp, the
  compatibility profiles, equality of stored values, and the appending of elements.
\<close>

subsection \<open>Operations and profiles\<close>

datatype kind = KindAdd | KindRemove | KindReplace | KindOther string

definition kindValid :: "kind \<Rightarrow> bool" where
  "kindValid k = (case k of KindOther _ \<Rightarrow> False | _ \<Rightarrow> True)"

record patch_op =
  opKind :: kind
  opPath :: "fpath option"
  opValue :: gval

record profile =
  CaseInsensitiveOps :: bool
  CoerceStringPrimitives :: bool
  ExpandPathlessReplace :: bool
  RemoveValueAsSelector :: bool
  ReplaceNoTargetAsAdd :: bool
  SynthesizeAddValuePath :: bool
  LenientPaths :: bool

definition StrictProfile :: profile where
  "StrictProfile =
     \<lparr>CaseInsensitiveOps = False, CoerceStringPrimitives = False, ExpandPathlessReplace = False,
      RemoveValueAsSelector = False, ReplaceNoTargetAsAdd = False, SynthesizeAddValuePath = False,
      LenientPaths = False\<rparr>"

definition DefaultProfile :: profile where
  "DefaultProfile =
     StrictProfile\<lparr>CaseInsensitiveOps := True, CoerceStringPrimitives := True,
       ExpandPathlessReplace := True, RemoveValueAsSelector := True\<rparr>"

definition EntraProfile :: profile where
  "EntraProfile = DefaultProfile\<lparr>ReplaceNoTargetAsAdd := True, SynthesizeAddValuePath := True\<rparr>"

definition OktaProfile :: profile where
  "OktaProfile = DefaultProfile"

subsection \<open>Targets (\<open>patch/resolve.go\<close>)\<close>

definition extensionAttrs :: "resource_type \<Rightarrow> string \<Rightarrow> attribute list option" where
  "extensionAttrs rt urn = map_option schemaAttributes (extensionSchema rt urn)"

definition namespaceAttrs :: "resource_type \<Rightarrow> string \<Rightarrow> attribute list option" where
  "namespaceAttrs rt urn =
     (if urn = [] \<or> foldName urn = foldName (schemaID (rtSchema rt))
      then Some (schemaAttributes (rtSchema rt)) else extensionAttrs rt urn)"

definition resolvePatchTarget :: "resource_type \<Rightarrow> fpath \<Rightarrow> (attribute \<times> attribute option) option" where
  "resolvePatchTarget rt p =
     (case namespaceAttrs rt (pathURN p) of
        None \<Rightarrow> None
      | Some attrs \<Rightarrow>
          (case (case findAttribute attrs (pathAttr p) of
                   Some a \<Rightarrow> Some a
                 | None \<Rightarrow> if pathURN p = [] then findAttribute commonAttributes (pathAttr p) else None) of
             None \<Rightarrow> None
           | Some a \<Rightarrow>
               if pathSub p = [] then Some (a, None)
               else if attrType a \<noteq> TypeComplex then None
               else (case findAttribute (subAttributes a) (pathSub p) of
                       None \<Rightarrow> None
                     | Some s \<Rightarrow> Some (a, Some s))))"

lemma resolvePatchTarget_filter: "resolvePatchTarget rt p = resolveFilter rt p"
  by (simp add: resolvePatchTarget_def resolveFilter_def namespaceAttrs_def filterNamespace_def
      extensionAttrs_def)

subsection \<open>Equality of stored values (\<open>patch/equal.go\<close>)\<close>

text \<open>Values that hold no other value. Values of different types are not equal.\<close>

fun leafEqual :: "gval \<Rightarrow> gval \<Rightarrow> bool" where
  "leafEqual VNil b = (b = VNil)"
| "leafEqual (VString s) b = (b = VString s)"
| "leafEqual (VBool s) b = (b = VBool s)"
| "leafEqual (VInt64 s) b = (b = VInt64 s)"
| "leafEqual (VRef s) b = (b = VRef s)"
| "leafEqual (VFloat64 f) b = (case b of VFloat64 g \<Rightarrow> fltEq f g | _ \<Rightarrow> False)"
| "leafEqual (VTime t) b = (case b of VTime u \<Rightarrow> timeEqual t u | _ \<Rightarrow> False)"
| "leafEqual (VBytes s) b = (b = VBytes s)"
| "leafEqual (VStrings xs) b = (b = VStrings xs)"
| "leafEqual (VBools xs) b = (b = VBools xs)"
| "leafEqual (VInt64s xs) b = (b = VInt64s xs)"
| "leafEqual (VFloat64s xs) b = (case b of VFloat64s ys \<Rightarrow> list_all2 fltEq xs ys | _ \<Rightarrow> False)"
| "leafEqual (VTimes xs) b = (case b of VTimes ys \<Rightarrow> list_all2 timeEqual xs ys | _ \<Rightarrow> False)"
| "leafEqual (VBytess xs) b = (b = VBytess xs)"
| "leafEqual (VRefs xs) b = (b = VRefs xs)"
| "leafEqual _ b = False"

text \<open>A complex value is compared key by key, a multi-valued one element by element.\<close>

lemma size_snd_list:
  "kv \<in> set m \<Longrightarrow> size (snd kv) \<le> size_list (size_prod (\<lambda>x. 0) size) m"
  by (cases kv) (auto intro: size_list_estimation' [where x = kv])

function valuesEqual :: "gval \<Rightarrow> gval \<Rightarrow> bool" where
  "valuesEqual a b =
     (case a of
        VComplex m \<Rightarrow>
          (case b of
             VComplex n \<Rightarrow>
               length m = length n \<and>
               list_all (\<lambda>kv. case aget n (fst kv) of
                  None \<Rightarrow> False | Some bv \<Rightarrow> valuesEqual (snd kv) bv) m
           | _ \<Rightarrow> False)
      | VMulti ms \<Rightarrow>
          (case b of
             VMulti ns \<Rightarrow>
               length ms = length ns \<and>
               list_all (\<lambda>mn. valuesEqual (VComplex (fst mn)) (VComplex (snd mn))) (zip ms ns)
           | _ \<Rightarrow> False)
      | _ \<Rightarrow> leafEqual a b)"
  by auto
termination
proof (relation "measure (\<lambda>(a, b). size a)", goal_cases)
  case (2 a b m n kv bv)
  then show ?case by (simp add: size_snd_list less_Suc_eq_le)
next
  case (3 a b ms ns mn)
  then have "fst mn \<in> set ms" by (metis prod.collapse set_zip_leftD)
  then have "size_list (size_prod (\<lambda>x. 0) size) (fst mn)
      < size_list (size_list (size_prod (\<lambda>x. 0) size)) ms"
    by (induction ms) auto
  with 3 show ?case by simp
qed simp

declare valuesEqual.simps [simp del]

definition complexEqual :: "cval \<Rightarrow> cval \<Rightarrow> bool" where
  "complexEqual a b = valuesEqual (VComplex a) (VComplex b)"

subsection \<open>Appending elements (\<open>patch/apply_add.go\<close>)\<close>

definition appendStep :: "('a \<Rightarrow> 'a \<Rightarrow> bool) \<Rightarrow> 'a list \<times> bool \<Rightarrow> 'a \<Rightarrow> 'a list \<times> bool" where
  "appendStep eq st e = (if list_ex (\<lambda>x. eq x e) (fst st) then st else (fst st @ [e], True))"

definition appendFunc :: "('a \<Rightarrow> 'a \<Rightarrow> bool) \<Rightarrow> 'a list \<Rightarrow> 'a list \<Rightarrow> 'a list \<times> bool" where
  "appendFunc eq existing inc = foldl (appendStep eq) (existing, False) inc"

definition subAttrValue :: string where "subAttrValue = ''value''"

definition hasDuplicateElement :: "cval list \<Rightarrow> cval \<Rightarrow> bool" where
  "hasDuplicateElement xs elem =
     (case aget elem subAttrValue of
        Some v \<Rightarrow> list_ex (\<lambda>e. valuesEqual (agetNil e subAttrValue) v) xs
      | None \<Rightarrow> list_ex (\<lambda>e. complexEqual e elem) xs)"

text \<open>\<open>keep\<close> is the set of indexes the operation wrote.\<close>

definition demoteOthers :: "cval list \<Rightarrow> nat list \<Rightarrow> cval list" where
  "demoteOthers xs keep =
     (if list_ex (\<lambda>i. i < length xs \<and> primaryTrue (xs ! i)) keep
      then map (\<lambda>(i, x). if i \<in> set keep \<or> \<not> primaryTrue x then x
                         else aput attrPrimary (VBool False) x) (enumerate 0 xs)
      else xs)"

definition appendComplexStep :: "cval list \<times> nat list \<Rightarrow> cval \<Rightarrow> cval list \<times> nat list" where
  "appendComplexStep st inc =
     (if hasDuplicateElement (fst st) inc then st
      else (fst st @ [inc], length (fst st) # snd st))"

definition appendComplexElements :: "cval list \<Rightarrow> cval list \<Rightarrow> cval list \<times> bool" where
  "appendComplexElements existing incoming =
     (case foldl appendComplexStep (existing, []) incoming of (out, newIdx) \<Rightarrow>
        if newIdx = [] then (existing, False) else (demoteOthers out newIdx, True))"

definition appendNew :: "gval \<Rightarrow> gval \<Rightarrow> gval \<times> bool" where
  "appendNew existing incoming =
     (case (existing, incoming) of
        (VMulti ex, VMulti inc) \<Rightarrow> apfst VMulti (appendComplexElements ex inc)
      | (VStrings ex, VStrings inc) \<Rightarrow> apfst VStrings (appendFunc (=) ex inc)
      | (VBools ex, VBools inc) \<Rightarrow> apfst VBools (appendFunc (=) ex inc)
      | (VInt64s ex, VInt64s inc) \<Rightarrow> apfst VInt64s (appendFunc (=) ex inc)
      | (VFloat64s ex, VFloat64s inc) \<Rightarrow> apfst VFloat64s (appendFunc fltEq ex inc)
      | (VRefs ex, VRefs inc) \<Rightarrow> apfst VRefs (appendFunc (=) ex inc)
      | (VTimes ex, VTimes inc) \<Rightarrow> apfst VTimes (appendFunc timeEqual ex inc)
      | (VBytess ex, VBytess inc) \<Rightarrow> apfst VBytess (appendFunc (=) ex inc)
      | _ \<Rightarrow> (existing, False))"

end
