(* ===== verification/Filter_Lexer.thy ===== *)
theory Filter_Lexer
  imports Filter_Ast
begin

text \<open>
  \<open>filter/token.go\<close>: the scanner. Its state is the input still to be read; byte positions
  serve the error texts only and are not modelled. Every failure is \<open>ErrInvalidFilter\<close>,
  the value \<open>None\<close>.
\<close>

subsection \<open>Tokens\<close>

datatype token =
    TokEOF
  | TokWord string
  | TokString string
  | TokNumber string
  | TokLParen | TokRParen | TokLBracket | TokRBracket

definition isWordChar :: "char \<Rightarrow> bool" where
  "isWordChar c \<longleftrightarrow>
     isLetter c \<or> isDigit c \<or> c \<in> {CHR ''-'', CHR ''_'', CHR ''$'', CHR ''.'', CHR '':''}"

definition punctKind :: "char \<Rightarrow> token option" where
  "punctKind c =
     (if c = CHR ''('' then Some TokLParen else if c = CHR '')'' then Some TokRParen
      else if c = CHR ''['' then Some TokLBracket else if c = CHR '']'' then Some TokRBracket
      else None)"

subsection \<open>String literals\<close>

text \<open>
  The end of the literal: the bytes after the opening quote up to the first quote that no
  backslash escapes. A backslash skips the byte after it.
\<close>

fun scanBody :: "string \<Rightarrow> (string \<times> string) option" where
  "scanBody [] = None"
| "scanBody (c # s) =
     (if c = CHR 0x22 then Some ([], s)
      else if c = CHR 0x5C then
        (case s of [] \<Rightarrow> None
         | d # t \<Rightarrow> map_option (\<lambda>(body, rest). (c # d # body, rest)) (scanBody t))
      else map_option (\<lambda>(body, rest). (c # body, rest)) (scanBody s))"

text \<open>
  \<open>json.Unmarshal\<close> of the literal. The bytes of a code point are its UTF-8 encoding; a lone
  surrogate decodes to U+FFFD.
\<close>

definition hexVal :: "char \<Rightarrow> nat option" where
  "hexVal c =
     (if isDigit c then Some (of_char c - 48)
      else if CHR ''a'' \<le> c \<and> c \<le> CHR ''f'' then Some (of_char c - 87)
      else if CHR ''A'' \<le> c \<and> c \<le> CHR ''F'' then Some (of_char c - 55) else None)"

definition hex4 :: "string \<Rightarrow> (nat \<times> string) option" where
  "hex4 s =
     (case s of
        a # b # c # d # r \<Rightarrow>
          (case (hexVal a, hexVal b, hexVal c, hexVal d) of
             (Some w, Some x, Some y, Some z) \<Rightarrow> Some (4096 * w + 256 * x + 16 * y + z, r)
           | _ \<Rightarrow> None)
      | _ \<Rightarrow> None)"

definition utf8 :: "nat \<Rightarrow> string" where
  "utf8 n =
     (if n < 128 then [char_of n]
      else if n < 2048 then [char_of (192 + n div 64), char_of (128 + n mod 64)]
      else if n < 65536
      then [char_of (224 + n div 4096), char_of (128 + n div 64 mod 64), char_of (128 + n mod 64)]
      else [char_of (240 + n div 262144), char_of (128 + n div 4096 mod 64),
            char_of (128 + n div 64 mod 64), char_of (128 + n mod 64)])"

text \<open>The code unit after \<open>\u\<close>, joined with a low surrogate that follows a high one.\<close>

definition unicodeEscape :: "string \<Rightarrow> (string \<times> string) option" where
  "unicodeEscape s =
     (case hex4 s of
        None \<Rightarrow> None
      | Some (u, r) \<Rightarrow>
          if u < 55296 \<or> 57343 < u then Some (utf8 u, r)
          else case (if u < 56320 \<and> take 2 r = [CHR 0x5C, CHR ''u''] then hex4 (drop 2 r) else None) of
                 Some (v, r') \<Rightarrow>
                   if 56320 \<le> v \<and> v \<le> 57343
                   then Some (utf8 (65536 + (u - 55296) * 1024 + (v - 56320)), r')
                   else Some (utf8 65533, r)
               | None \<Rightarrow> Some (utf8 65533, r))"

definition shortEscape :: "char \<Rightarrow> char option" where
  "shortEscape c =
     (if c = CHR 0x22 \<or> c = CHR 0x5C \<or> c = CHR ''/'' then Some c
      else if c = CHR ''b'' then Some (CHR 0x08) else if c = CHR ''f'' then Some (CHR 0x0C)
      else if c = CHR ''n'' then Some (CHR 0x0A) else if c = CHR ''r'' then Some (CHR 0x0D)
      else if c = CHR ''t'' then Some (CHR 0x09) else None)"

lemma hex4_length: "hex4 s = Some (n, r) \<Longrightarrow> length r < length s"
  by (auto simp: hex4_def split: list.splits option.splits)

lemma unicodeEscape_length: "unicodeEscape s = Some (u, r) \<Longrightarrow> length r < length s"
proof -
  assume *: "unicodeEscape s = Some (u, r)"
  then obtain n q where q: "hex4 s = Some (n, q)"
    by (cases "hex4 s") (auto simp: unicodeEscape_def)
  have "length r \<le> length q"
  proof (cases "hex4 (drop 2 q)")
    case None
    with * q show ?thesis by (auto simp: unicodeEscape_def split: if_splits)
  next
    case (Some p)
    then obtain v t where p: "hex4 (drop 2 q) = Some (v, t)" by (cases p) auto
    from hex4_length [OF this] have "length t \<le> length q" by simp
    with * q p show ?thesis by (auto simp: unicodeEscape_def split: if_splits)
  qed
  with hex4_length [OF q] show ?thesis by simp
qed

function unquoteBody :: "string \<Rightarrow> string option" where
  "unquoteBody s =
     (case s of
        [] \<Rightarrow> Some []
      | c # t \<Rightarrow>
          if c = CHR 0x5C then
            (case t of
               [] \<Rightarrow> None
             | d # r \<Rightarrow>
                 if d = CHR ''u'' then
                   (case unicodeEscape r of
                      None \<Rightarrow> None
                    | Some (u, r') \<Rightarrow> map_option (\<lambda>b. u @ b) (unquoteBody r'))
                 else
                   (case shortEscape d of
                      None \<Rightarrow> None
                    | Some e \<Rightarrow> map_option (\<lambda>b. e # b) (unquoteBody r)))
          else if of_char c < (32 :: nat) \<or> c = CHR 0x22 then None
          else map_option (\<lambda>b. c # b) (unquoteBody t))"
  by auto
termination
  by (relation "measure length") (auto dest: unicodeEscape_length)

declare unquoteBody.simps [simp del]

definition scanString :: "string \<Rightarrow> (token \<times> string) option" where
  "scanString s =
     (case scanBody s of
        None \<Rightarrow> None
      | Some (body, rest) \<Rightarrow> map_option (\<lambda>d. (TokString d, rest)) (unquoteBody body))"

subsection \<open>Numbers and the scanner\<close>

definition isNumChar :: "char \<Rightarrow> bool" where
  "isNumChar c \<longleftrightarrow> isDigit c \<or> c \<in> {CHR ''-'', CHR ''+'', CHR ''.'', CHR ''e'', CHR ''E''}"

definition scanNumber :: "string \<Rightarrow> (token \<times> string) option" where
  "scanNumber s =
     (let raw = takeWhile isNumChar s in
      if isValidNumber raw then Some (TokNumber raw, dropWhile isNumChar s) else None)"

definition skipBlank :: "string \<Rightarrow> string" where
  "skipBlank s = dropWhile (\<lambda>c. c = CHR '' '' \<or> c = CHR 0x09) s"

definition nextToken :: "string \<Rightarrow> (token \<times> string) option" where
  "nextToken s =
     (case skipBlank s of
        [] \<Rightarrow> Some (TokEOF, [])
      | c # t \<Rightarrow>
          (case punctKind c of
             Some k \<Rightarrow> Some (k, t)
           | None \<Rightarrow>
               if c = CHR 0x22 then scanString t
               else if c = CHR ''-'' \<or> isDigit c then scanNumber (c # t)
               else if isWordChar c
               then Some (TokWord (takeWhile isWordChar (c # t)), dropWhile isWordChar (c # t))
               else None))"

text \<open>Every token but the end consumes input.\<close>

lemma scanBody_length: "scanBody s = Some (b, r) \<Longrightarrow> length r < length s"
proof (induction s arbitrary: b r rule: scanBody.induct)
  case (2 c s)
  then show ?case
    by (fastforce split: if_splits list.splits option.splits)
qed simp

lemma length_dropWhile_le': "length (dropWhile P xs) \<le> length xs"
  by (rule length_dropWhile_le)

lemma scanNumber_length:
  assumes "scanNumber (c # t) = Some (k, r)"
  shows "length r < length (c # t)"
proof -
  from assms have "takeWhile isNumChar (c # t) \<noteq> []"
    by (auto simp: scanNumber_def Let_def isValidNumber_def split: if_splits)
  then have "isNumChar c" by (auto split: if_splits)
  with assms length_dropWhile_le [of isNumChar t] show ?thesis
    by (auto simp: scanNumber_def Let_def split: if_splits)
qed

lemma nextToken_length:
  assumes "nextToken s = Some (k, r)"
  shows "length r \<le> length s" and "k \<noteq> TokEOF \<Longrightarrow> length r < length s"
    and "k = TokEOF \<Longrightarrow> r = []"
proof -
  have skip: "length (skipBlank s) \<le> length s"
    by (simp add: skipBlank_def length_dropWhile_le)
  have "(k = TokEOF \<and> r = []) \<or> (k \<noteq> TokEOF \<and> length r < length (skipBlank s))"
  proof (cases "skipBlank s")
    case Nil
    with assms show ?thesis by (simp add: nextToken_def)
  next
    case (Cons c t)
    show ?thesis
    proof (cases "punctKind c")
      case (Some p)
      with assms Cons show ?thesis
        by (auto simp: nextToken_def punctKind_def split: if_splits)
    next
      case None
      show ?thesis
      proof (cases "c = CHR 0x22")
        case True
        with assms Cons None show ?thesis
          by (auto simp: nextToken_def scanString_def split: option.splits dest!: scanBody_length)
      next
        case False
        note quote = False
        show ?thesis
        proof (cases "c = CHR ''-'' \<or> isDigit c")
          case True
          with assms Cons None quote have "scanNumber (c # t) = Some (k, r)"
            by (simp add: nextToken_def)
          from scanNumber_length [OF this] this Cons show ?thesis
            by (auto simp: scanNumber_def Let_def split: if_splits)
        next
          case False
          with assms Cons None quote length_dropWhile_le [of isWordChar t] show ?thesis
            by (auto simp: nextToken_def split: if_splits)
        qed
      qed
    qed
  qed
  with skip show "length r \<le> length s" "k \<noteq> TokEOF \<Longrightarrow> length r < length s" "k = TokEOF \<Longrightarrow> r = []"
    by auto
qed

end
