(* ===== verification/Filter_Parser.thy ===== *)
theory Filter_Parser
  imports Filter_Lexer Scim_Error
begin

text \<open>
  \<open>filter/parse.go\<close>: the recursive-descent parser with one token of lookahead.

  The functions of the code that call \<open>parseOr\<close> take it as an argument (the suffix
  \<open>With\<close>); \<open>parseOr\<close> ties the knot with a counter of nested calls, which also bounds the
  \<open>and\<close> and \<open>or\<close> loops. \<open>OutOfFuel\<close> is the counter running out; \<open>Parse\<close> starts it beyond the
  length of the input, and \<open>Parse_total\<close> shows that it then never runs out.
\<close>

subsection \<open>State\<close>

record parser =
  psRest :: string
  psTok :: token
  psLenient :: bool
  psDepth :: int
  psInValueFilter :: bool

datatype parse_error = SyntaxError | OutOfFuel

type_synonym 'a parse = "parser \<Rightarrow> (parse_error, 'a \<times> parser) res"

definition maxDepth :: int where "maxDepth = 64"

definition advance :: "parser \<Rightarrow> (parse_error, parser) res" where
  "advance p =
     (case nextToken (psRest p) of
        None \<Rightarrow> Inl SyntaxError
      | Some (t, r) \<Rightarrow> Inr (p\<lparr>psRest := r, psTok := t\<rparr>))"

definition newParser :: "bool \<Rightarrow> string \<Rightarrow> (parse_error, parser) res" where
  "newParser lenient s =
     advance \<lparr>psRest = s, psTok = TokEOF, psLenient = lenient, psDepth = 0, psInValueFilter = False\<rparr>"

definition enter :: "parser \<Rightarrow> (parse_error, parser) res" where
  "enter p =
     (let p' = p\<lparr>psDepth := psDepth p + 1\<rparr> in
      if maxDepth < psDepth p' then Inl SyntaxError else Inr p')"

definition leave :: "parser \<Rightarrow> parser" where
  "leave p = p\<lparr>psDepth := psDepth p - 1\<rparr>"

definition keyword :: "parser \<Rightarrow> string \<Rightarrow> bool" where
  "keyword p k = (case psTok p of TokWord w \<Rightarrow> foldName w = k | _ \<Rightarrow> False)"

subsection \<open>Operations\<close>

definition parseValueFilterWith :: "expr parse \<Rightarrow> expr parse" where
  "parseValueFilterWith por p =
     rbind (advance p) (\<lambda>p.
       let outer = psInValueFilter p in
       rbind (por (p\<lparr>psInValueFilter := True\<rparr>)) (\<lambda>(f, p).
         let p = p\<lparr>psInValueFilter := outer\<rparr> in
         if psTok p \<noteq> TokRBracket then Inl SyntaxError
         else rbind (advance p) (\<lambda>p. Inr (f, p))))"

definition parseCompValue :: "literal parse" where
  "parseCompValue p =
     rbind (case psTok p of
              TokString s \<Rightarrow> Inr (LString s)
            | TokNumber n \<Rightarrow> Inr (LNumber n)
            | TokWord w \<Rightarrow>
                if w = ''true'' then Inr (LBool True)
                else if w = ''false'' then Inr (LBool False)
                else if w = ''null'' then Inr LNull
                else Inl SyntaxError
            | _ \<Rightarrow> Inl SyntaxError)
       (\<lambda>v. rbind (advance p) (\<lambda>p. Inr (v, p)))"

definition parseOperator :: "fpath \<Rightarrow> string \<Rightarrow> expr parse" where
  "parseOperator path w p =
     (let o' = opOf (foldName w) in
      if o' = OpPresent then rbind (advance p) (\<lambda>p. Inr (Present path, p))
      else if \<not> comparison o' then Inl SyntaxError
      else rbind (advance p) (\<lambda>p. rbind (parseCompValue p) (\<lambda>(v, p). Inr (Compare path o' v, p))))"

definition parseAttrExprWith :: "expr parse \<Rightarrow> string \<Rightarrow> expr parse" where
  "parseAttrExprWith por word p =
     (case splitAttrPath word of
        None \<Rightarrow> Inl SyntaxError
      | Some (urn, attr, sub) \<Rightarrow>
          let path = FPath urn attr sub None in
          rbind (advance p) (\<lambda>p.
            if psTok p = TokLBracket then
              (if psInValueFilter p then Inl SyntaxError
               else rbind (parseValueFilterWith por p) (\<lambda>(f, p). Inr (ValuePath path f, p)))
            else case psTok p of
              TokWord w \<Rightarrow> parseOperator path w p
            | _ \<Rightarrow> Inl SyntaxError))"

definition parseGroupWith :: "expr parse \<Rightarrow> expr parse" where
  "parseGroupWith por p =
     rbind (enter p) (\<lambda>p. rbind (advance p) (\<lambda>p. rbind (por p) (\<lambda>(e, p).
       if psTok p \<noteq> TokRParen then Inl SyntaxError
       else rbind (advance p) (\<lambda>p. Inr (e, leave p)))))"

definition parsePrimaryWith :: "expr parse \<Rightarrow> expr parse" where
  "parsePrimaryWith por p =
     (case psTok p of
        TokLParen \<Rightarrow> parseGroupWith por p
      | TokWord w \<Rightarrow> parseAttrExprWith por w p
      | _ \<Rightarrow> Inl SyntaxError)"

definition parseUnaryWith :: "expr parse \<Rightarrow> expr parse" where
  "parseUnaryWith por p =
     (if \<not> keyword p ''not'' then parsePrimaryWith por p
      else rbind (advance p) (\<lambda>p.
        if psTok p \<noteq> TokLParen \<and> \<not> psLenient p then Inl SyntaxError
        else rbind (enter p) (\<lambda>p. rbind (parsePrimaryWith por p) (\<lambda>(e, p).
               Inr (NotExpr e, leave p)))))"

text \<open>The loop of \<open>parseAnd\<close> and \<open>parseOr\<close>: while the keyword follows, another operand.\<close>

fun parseLoop ::
    "nat \<Rightarrow> string \<Rightarrow> (expr \<Rightarrow> expr \<Rightarrow> expr) \<Rightarrow> expr parse \<Rightarrow> expr \<Rightarrow> expr parse" where
  "parseLoop 0 k mk operand left p = Inl OutOfFuel"
| "parseLoop (Suc n) k mk operand left p =
     (if keyword p k
      then rbind (advance p) (\<lambda>p. rbind (operand p) (\<lambda>(right, p).
             parseLoop n k mk operand (mk left right) p))
      else Inr (left, p))"

definition parseAndWith :: "nat \<Rightarrow> expr parse \<Rightarrow> expr parse" where
  "parseAndWith n por p =
     rbind (parseUnaryWith por p) (\<lambda>(l, p). parseLoop n ''and'' AndExpr (parseUnaryWith por) l p)"

definition parseOrWith :: "nat \<Rightarrow> expr parse \<Rightarrow> expr parse" where
  "parseOrWith n por p =
     rbind (parseAndWith n por p) (\<lambda>(l, p). parseLoop n ''or'' OrExpr (parseAndWith n por) l p)"

fun parseOr :: "nat \<Rightarrow> expr parse" where
  "parseOr 0 p = Inl OutOfFuel"
| "parseOr (Suc n) p = parseOrWith (Suc n) (parseOr n) p"

definition parseFuel :: "string \<Rightarrow> nat" where
  "parseFuel s = length s + 2"

definition Parse :: "bool \<Rightarrow> string \<Rightarrow> (parse_error, expr) res" where
  "Parse lenient s =
     rbind (newParser lenient s) (\<lambda>p. rbind (parseOr (parseFuel s) p) (\<lambda>(e, p).
       if psTok p \<noteq> TokEOF then Inl SyntaxError else Inr e))"

text \<open>\<open>ParsePath\<close>: an attribute path, or \<open>attr[filter]\<close> with an optional sub-attribute.\<close>

definition parseValueFilterInto :: "nat \<Rightarrow> fpath \<Rightarrow> fpath parse" where
  "parseValueFilterInto n path p =
     (if pathSub path \<noteq> [] then Inl SyntaxError
      else rbind (parseValueFilterWith (parseOr n) p) (\<lambda>(f, p).
        case psTok p of
          TokWord w \<Rightarrow>
            (case w of
               c # subWord \<Rightarrow>
                 if c \<noteq> CHR ''.'' \<or> \<not> validAttrName subWord then Inl SyntaxError
                 else rbind (advance p) (\<lambda>p.
                        Inr (FPath (pathURN path) (pathAttr path) subWord (Some f), p))
             | [] \<Rightarrow> Inl SyntaxError)
        | _ \<Rightarrow> Inr (FPath (pathURN path) (pathAttr path) (pathSub path) (Some f), p)))"

definition parsePath :: "nat \<Rightarrow> fpath parse" where
  "parsePath n p =
     (case psTok p of
        TokWord word \<Rightarrow>
          (case splitAttrPath word of
             None \<Rightarrow> Inl SyntaxError
           | Some (urn, attr, sub) \<Rightarrow>
               let path = FPath urn attr sub None in
               rbind (advance p) (\<lambda>p.
               rbind (if psTok p = TokLBracket then parseValueFilterInto n path p else Inr (path, p))
                 (\<lambda>(path, p). if psTok p \<noteq> TokEOF then Inl SyntaxError else Inr (path, p))))
      | _ \<Rightarrow> Inl SyntaxError)"

definition ParsePath :: "bool \<Rightarrow> string \<Rightarrow> (parse_error, fpath) res" where
  "ParsePath lenient s =
     rbind (newParser lenient s) (\<lambda>p. rbind (parsePath (parseFuel s) p) (\<lambda>(path, _). Inr path))"

text \<open>The errors of the API: a filter that does not parse is \<open>invalidFilter\<close>, a path
  \<open>invalidPath\<close> (\<open>pathError\<close>).\<close>

definition ParseFilter :: "bool \<Rightarrow> string \<Rightarrow> (scim_error, expr) res" where
  "ParseFilter lenient s = map_err (\<lambda>_. ErrInvalidFilter) (Parse lenient s)"

definition ParsePathErr :: "bool \<Rightarrow> string \<Rightarrow> (scim_error, fpath) res" where
  "ParsePathErr lenient s = map_err (\<lambda>_. ErrInvalidPath) (ParsePath lenient s)"

subsection \<open>Enough fuel\<close>

text \<open>What is left to read, the lookahead token included.\<close>

definition left_over :: "parser \<Rightarrow> nat" where
  "left_over p = length (psRest p) + (if psTok p = TokEOF then 0 else 1)"

lemma left_over_update [simp]:
  "left_over (p\<lparr>psDepth := d\<rparr>) = left_over p"
  "left_over (p\<lparr>psInValueFilter := b\<rparr>) = left_over p"
  "left_over (leave p) = left_over p"
  by (simp_all add: left_over_def leave_def)

lemma enter_cases: "enter p = Inr p' \<Longrightarrow> left_over p' = left_over p \<and> psTok p' = psTok p"
  "enter p \<noteq> Inl OutOfFuel"
  by (auto simp: enter_def Let_def split: if_splits)

lemma advance_not_out [simp]: "advance p \<noteq> Inl OutOfFuel"
  by (simp add: advance_def split: option.splits)

lemma advance_less:
  assumes "advance p = Inr p'" and "psTok p \<noteq> TokEOF"
  shows "left_over p' < left_over p"
proof -
  from assms(1) obtain t r where tr: "nextToken (psRest p) = Some (t, r)"
      and p': "p' = p\<lparr>psRest := r, psTok := t\<rparr>"
    by (auto simp: advance_def split: option.splits)
  from nextToken_length [OF tr] assms(2) show ?thesis
    by (cases "t = TokEOF") (auto simp: left_over_def p')
qed

text \<open>A parser that never runs out of fuel on a state, and consumes what it accepts.\<close>

definition consumes :: "'a parse \<Rightarrow> parser \<Rightarrow> bool" where
  "consumes f p \<longleftrightarrow> f p \<noteq> Inl OutOfFuel \<and> (\<forall>x p'. f p = Inr (x, p') \<longrightarrow> left_over p' < left_over p)"

lemma consumes_bind:
  assumes "advance p \<noteq> Inl OutOfFuel"
    and "\<And>q. advance p = Inr q \<Longrightarrow> g q \<noteq> Inl OutOfFuel"
    and "\<And>q x p'. advance p = Inr q \<Longrightarrow> g q = Inr (x, p') \<Longrightarrow> left_over p' < left_over p"
    and "f p = rbind (advance p) g"
  shows "consumes f p"
  using assms by (auto simp: consumes_def res_simps)

lemma parseValueFilter_consumes:
  assumes por: "\<And>q. left_over q < left_over p \<Longrightarrow> consumes por q" and tok: "psTok p \<noteq> TokEOF"
  shows "consumes (parseValueFilterWith por) p"
proof -
  have step: "consumes por (q\<lparr>psInValueFilter := True\<rparr>) \<and> left_over q < left_over p"
    if "advance p = Inr q" for q
    using advance_less [OF that tok] por [of "q\<lparr>psInValueFilter := True\<rparr>"] by simp
  have close: "left_over r' < left_over p"
    if "advance p = Inr q" "por (q\<lparr>psInValueFilter := True\<rparr>) = Inr (f, r)"
      "psTok r = TokRBracket" "advance (r\<lparr>psInValueFilter := b\<rparr>) = Inr r'" for q f r r' b
    using step [OF that(1)] that(2,3) advance_less [OF that(4)] by (force simp: consumes_def)
  show ?thesis
    unfolding consumes_def parseValueFilterWith_def Let_def
    using step close
    by (fastforce simp: res_simps consumes_def split: if_splits prod.splits)
qed

lemma parseCompValue_not_out: "parseCompValue p \<noteq> Inl OutOfFuel"
  by (auto simp: parseCompValue_def res_simps split: token.splits if_splits)

lemma parseCompValue_less:
  assumes "parseCompValue p = Inr (v, p')" shows "left_over p' < left_over p"
proof -
  from assms have "psTok p \<noteq> TokEOF" and "advance p = Inr p'"
    by (auto simp: parseCompValue_def res_simps split: token.splits if_splits)
  then show ?thesis using advance_less by blast
qed

lemma parseOperator_consumes:
  assumes "psTok p \<noteq> TokEOF" shows "consumes (parseOperator path w) p"
proof -
  have less: "left_over q < left_over p" if "advance p = Inr q" for q
    using advance_less [OF that assms] .
  have less2: "left_over q' < left_over p" if "advance p = Inr q" "parseCompValue q = Inr (v, q')" for q v q'
    using less [OF that(1)] parseCompValue_less [OF that(2)] by simp
  show ?thesis
    unfolding consumes_def parseOperator_def Let_def
    using less less2 parseCompValue_not_out
    by (auto simp: res_simps split: if_splits prod.splits)
qed

lemma parseAttrExpr_consumes:
  assumes por: "\<And>q. left_over q < left_over p \<Longrightarrow> consumes por q" and tok: "psTok p \<noteq> TokEOF"
  shows "consumes (parseAttrExprWith por w) p"
proof -
  have less: "left_over q < left_over p" if "advance p = Inr q" for q
    using advance_less [OF that tok] .
  have vf: "consumes (parseValueFilterWith por) q" if "advance p = Inr q" "psTok q = TokLBracket" for q
    using less [OF that(1)] that(2) by (intro parseValueFilter_consumes por) auto
  have op: "consumes (parseOperator path v) q" if "psTok q = TokWord v" for q path v
    using that by (intro parseOperator_consumes) simp
  show ?thesis
    unfolding consumes_def parseAttrExprWith_def Let_def
    using less vf op
    by (fastforce simp: res_simps consumes_def split: if_splits prod.splits token.splits option.splits)
qed


lemma parseGroup_consumes:
  assumes por: "\<And>q. left_over q < left_over p \<Longrightarrow> consumes por q" and tok: "psTok p = TokLParen"
  shows "consumes (parseGroupWith por) p"
proof -
  have step: "consumes por r \<and> left_over r < left_over p"
    if "enter p = Inr q" "advance q = Inr r" for q r
    using enter_cases(1) [OF that(1)] advance_less [OF that(2)] tok por [of r] by simp
  have close: "left_over r' < left_over p"
    if "enter p = Inr q" "advance q = Inr r" "por r = Inr (e, s)" "psTok s = TokRParen"
      "advance s = Inr r'" for q r e s r'
    using step [OF that(1,2)] that(3,4) advance_less [OF that(5)] by (force simp: consumes_def)
  show ?thesis
    unfolding consumes_def parseGroupWith_def
    using step close enter_cases(2)
    by (fastforce simp: res_simps consumes_def split: if_splits prod.splits)
qed

lemma parsePrimary_consumes:
  assumes por: "\<And>q. left_over q < left_over p \<Longrightarrow> consumes por q"
  shows "consumes (parsePrimaryWith por) p"
proof (cases "psTok p")
  case TokLParen
  then have "consumes (parseGroupWith por) p" by (intro parseGroup_consumes por)
  with TokLParen show ?thesis by (simp add: consumes_def parsePrimaryWith_def)
next
  case (TokWord w)
  then have "consumes (parseAttrExprWith por w) p" by (intro parseAttrExpr_consumes por) auto
  with TokWord show ?thesis by (simp add: consumes_def parsePrimaryWith_def)
qed (simp_all add: consumes_def parsePrimaryWith_def)

lemma keyword_not_EOF: "keyword p k \<Longrightarrow> psTok p \<noteq> TokEOF"
  by (auto simp: keyword_def)

lemma parseUnary_consumes:
  assumes por: "\<And>q. left_over q < left_over p \<Longrightarrow> consumes por q"
  shows "consumes (parseUnaryWith por) p"
proof (cases "keyword p ''not''")
  case False
  with parsePrimary_consumes [OF por] show ?thesis by (simp add: consumes_def parseUnaryWith_def)
next
  case True
  have step: "consumes (parsePrimaryWith por) r \<and> left_over r < left_over p"
    if "advance p = Inr q" "enter q = Inr r" for q r
    using advance_less [OF that(1) keyword_not_EOF [OF True]] enter_cases(1) [OF that(2)]
      parsePrimary_consumes [of r por] por by simp
  have close: "left_over s < left_over p"
    if "advance p = Inr q" "enter q = Inr r" "parsePrimaryWith por r = Inr (e, s)" for q r e s
    using step [OF that(1,2)] that(3) by (force simp: consumes_def)
  show ?thesis
    unfolding consumes_def parseUnaryWith_def
    using True step close enter_cases(2)
    by (fastforce simp: res_simps consumes_def split: if_splits prod.splits)
qed

lemma parseLoop_consumes:
  assumes "\<And>q. left_over q < left_over p \<Longrightarrow> consumes operand q" and "left_over p < n"
  shows "parseLoop n k mk operand l p \<noteq> Inl OutOfFuel \<and>
    (\<forall>e p'. parseLoop n k mk operand l p = Inr (e, p') \<longrightarrow> left_over p' \<le> left_over p)"
  using assms
proof (induction n arbitrary: l p)
  case (Suc n)
  show ?case
  proof (cases "keyword p k")
    case True
    have adv: "left_over q < left_over p" if "advance p = Inr q" for q
      using advance_less [OF that keyword_not_EOF [OF True]] .
    have rec: "operand q \<noteq> Inl OutOfFuel" "left_over s < left_over p"
      "parseLoop n k mk operand (mk l r) s \<noteq> Inl OutOfFuel"
      "parseLoop n k mk operand (mk l r) s = Inr (e, p') \<longrightarrow> left_over p' \<le> left_over s"
      if "advance p = Inr q" "operand q = Inr (r, s)" for q r s e p'
    proof -
      show "operand q \<noteq> Inl OutOfFuel" using that(2) by simp
      show less: "left_over s < left_over p"
        using Suc.prems(1) [OF adv [OF that(1)]] that(2) adv [OF that(1)] by (force simp: consumes_def)
      have "\<And>t. left_over t < left_over s \<Longrightarrow> consumes operand t"
        using Suc.prems(1) less by simp
      from Suc.IH [OF this] less Suc.prems(2)
      show "parseLoop n k mk operand (mk l r) s \<noteq> Inl OutOfFuel"
        "parseLoop n k mk operand (mk l r) s = Inr (e, p') \<longrightarrow> left_over p' \<le> left_over s"
        by auto
    qed
    have "operand q \<noteq> Inl OutOfFuel" if "advance p = Inr q" for q
      using Suc.prems(1) [OF adv [OF that]] by (simp add: consumes_def)
    with True rec show ?thesis
      by (fastforce simp: res_simps split: prod.splits)
  qed simp
qed simp

lemma parseAnd_consumes:
  assumes por: "\<And>q. left_over q < left_over p \<Longrightarrow> consumes por q" and n: "left_over p < n"
  shows "consumes (parseAndWith n por) p"
proof -
  have unary: "consumes (parseUnaryWith por) q" if "left_over q \<le> left_over p" for q
    using that por by (intro parseUnary_consumes) simp
  have loop: "parseLoop n ''and'' AndExpr (parseUnaryWith por) l q \<noteq> Inl OutOfFuel \<and>
      (\<forall>e p'. parseLoop n ''and'' AndExpr (parseUnaryWith por) l q = Inr (e, p') \<longrightarrow>
         left_over p' \<le> left_over q)"
    if "left_over q < left_over p" for l q
    using that n unary by (intro parseLoop_consumes) auto
  show ?thesis
    unfolding consumes_def parseAndWith_def
    using unary [of p] loop
    by (fastforce simp: res_simps consumes_def split: prod.splits)
qed

lemma parseOrWith_consumes:
  assumes por: "\<And>q. left_over q < left_over p \<Longrightarrow> consumes por q" and n: "left_over p < n"
  shows "consumes (parseOrWith n por) p"
proof -
  have operand: "consumes (parseAndWith n por) q" if "left_over q \<le> left_over p" for q
    using that por n by (intro parseAnd_consumes) auto
  have loop: "parseLoop n ''or'' OrExpr (parseAndWith n por) l q \<noteq> Inl OutOfFuel \<and>
      (\<forall>e p'. parseLoop n ''or'' OrExpr (parseAndWith n por) l q = Inr (e, p') \<longrightarrow>
         left_over p' \<le> left_over q)"
    if "left_over q < left_over p" for l q
    using that n operand by (intro parseLoop_consumes) auto
  show ?thesis
    unfolding consumes_def parseOrWith_def
    using operand [of p] loop
    by (fastforce simp: res_simps consumes_def split: prod.splits)
qed

lemma parseOr_consumes: "left_over p < n \<Longrightarrow> consumes (parseOr n) p"
proof (induction n arbitrary: p)
  case (Suc n)
  have "consumes (parseOrWith (Suc n) (parseOr n)) p"
    using Suc by (intro parseOrWith_consumes) auto
  then show ?case by (simp add: consumes_def)
qed simp

lemma newParser_left_over:
  assumes "newParser lenient s = Inr p" shows "left_over p < parseFuel s"
proof -
  from assms obtain t r where "nextToken s = Some (t, r)" and "psRest p = r"
    by (auto simp: newParser_def advance_def split: option.splits)
  with nextToken_length(1) [of s t r] show ?thesis by (simp add: left_over_def parseFuel_def)
qed

text \<open>\<open>Parse\<close> and \<open>ParsePath\<close> end with an expression or a syntax error on every input.\<close>

lemma Parse_total: "Parse lenient s \<noteq> Inl OutOfFuel"
proof -
  have "parseOr (parseFuel s) p \<noteq> Inl OutOfFuel" if "newParser lenient s = Inr p" for p
    using parseOr_consumes [OF newParser_left_over [OF that]] by (simp add: consumes_def)
  moreover have "newParser lenient s \<noteq> Inl OutOfFuel" by (simp add: newParser_def)
  ultimately show ?thesis
    unfolding Parse_def by (fastforce simp: res_simps split: prod.splits if_splits)
qed

lemma parsePath_not_out:
  assumes "left_over p < n" shows "parsePath n p \<noteq> Inl OutOfFuel"
proof (cases "psTok p")
  case (TokWord word)
  have into: "parseValueFilterInto n path q \<noteq> Inl OutOfFuel"
    if adv: "advance p = Inr q" and tok: "psTok q = TokLBracket" for q path
  proof -
    have "left_over q < left_over p" using advance_less [OF adv] TokWord by simp
    then have "consumes (parseValueFilterWith (parseOr n)) q"
      using assms tok by (intro parseValueFilter_consumes parseOr_consumes) auto
    then have out: "parseValueFilterWith (parseOr n) q \<noteq> Inl OutOfFuel" by (simp add: consumes_def)
    show ?thesis
    proof (cases "parseValueFilterWith (parseOr n) q")
      case (Inl e)
      with out show ?thesis by (simp add: parseValueFilterInto_def)
    next
      case (Inr fr)
      then show ?thesis
        by (cases fr; cases "psTok (snd fr)")
          (auto simp: parseValueFilterInto_def res_simps split: list.splits)
    qed
  qed
  with TokWord show ?thesis
    by (fastforce simp: parsePath_def Let_def res_simps split: option.splits prod.splits if_splits)
qed (simp_all add: parsePath_def)

lemma ParsePath_total: "ParsePath lenient s \<noteq> Inl OutOfFuel"
proof -
  have "parsePath (parseFuel s) p \<noteq> Inl OutOfFuel" if "newParser lenient s = Inr p" for p
    using parsePath_not_out [OF newParser_left_over [OF that]] .
  moreover have "newParser lenient s \<noteq> Inl OutOfFuel" by (simp add: newParser_def)
  ultimately show ?thesis
    unfolding ParsePath_def by (fastforce simp: res_simps split: prod.splits)
qed

end
