(* ===== verification/Patch_Apply.thy ===== *)
theory Patch_Apply
  imports Patch_Op Filter_Parser
begin

text \<open>
  \<open>patch/apply.go\<close>, \<open>patch/apply_add.go\<close>, \<open>patch/apply_remove.go\<close>,
  \<open>patch/apply_replace.go\<close>, \<open>patch/synthesize.go\<close>: the RFC 7644 section 3.5.2 engine. The
  state is the applier: the working copy of the resource, the profile, and whether
  anything changed. A failing operation ends the loop with its error, so no partly patched
  resource is returned.
\<close>

subsection \<open>The applier\<close>

record applier =
  apRes :: resource
  apProfile :: profile
  apChanged :: bool

type_synonym apply_result = "(scim_error, applier) res"

definition getNil :: "resource \<Rightarrow> string \<Rightarrow> gval" where
  "getNil r path = (case Get r path of Some v \<Rightarrow> v | None \<Rightarrow> VNil)"

definition setTracked :: "string \<Rightarrow> gval \<Rightarrow> applier \<Rightarrow> apply_result" where
  "setTracked path v a =
     rbind (Set (apRes a) path v) (\<lambda>r.
       Inr (a\<lparr>apRes := r,
              apChanged := apChanged a \<or> \<not> valuesEqual (getNil (apRes a) path) (getNil r path)\<rparr>))"

definition coerceOpValue :: "attribute \<Rightarrow> gval \<Rightarrow> (scim_error, gval) res" where
  "coerceOpValue attr v = map_err (\<lambda>_. ErrInvalidValue) (Coerce attr v)"

subsection \<open>Mutability\<close>

definition mergeKeys :: "cval \<Rightarrow> cval \<Rightarrow> cval" where
  "mergeKeys current incoming = foldl (\<lambda>m kv. aput (fst kv) (snd kv) m) current incoming"

definition wouldChange :: "attribute \<Rightarrow> kind \<Rightarrow> gval \<Rightarrow> gval \<Rightarrow> bool" where
  "wouldChange attr k existing incoming =
     (if incoming = VNil then k = KindReplace
      else if multiValued attr \<and> k = KindAdd then snd (appendNew existing incoming)
      else case (existing, incoming) of
        (VComplex current, VComplex inc) \<Rightarrow>
          if attrType attr = TypeComplex \<and> \<not> multiValued attr
          then \<not> valuesEqual existing (VComplex (mergeKeys current inc))
          else \<not> valuesEqual existing incoming
      | _ \<Rightarrow> \<not> valuesEqual existing incoming)"

definition checkImmutableAttr ::
    "applier \<Rightarrow> string \<Rightarrow> attribute \<Rightarrow> kind \<Rightarrow> gval \<Rightarrow> (scim_error, unit) res" where
  "checkImmutableAttr a path attr k raw =
     (case Get (apRes a) path of
        None \<Rightarrow> Inr ()
      | Some existing \<Rightarrow>
          if k = KindRemove then Inl ErrMutability
          else rbind (coerceOpValue attr raw) (\<lambda>incoming.
                 if wouldChange attr k existing incoming then Inl ErrMutability else Inr ()))"

definition checkImmutablePathed ::
    "applier \<Rightarrow> patch_op \<Rightarrow> fpath \<Rightarrow> attribute \<Rightarrow> attribute option \<Rightarrow> (scim_error, unit) res" where
  "checkImmutablePathed a op p attr sub =
     (if mutabilityOf attr \<noteq> MutabilityImmutable then Inr ()
      else if sub = None \<and> valueFilter p = None
      then checkImmutableAttr a (attrPathText p) attr (opKind op) (opValue op)
      else if Get (apRes a) (attrPathText p) \<noteq> None then Inl ErrMutability
      else Inr ())"

definition checkImmutableSubPath ::
    "applier \<Rightarrow> patch_op \<Rightarrow> fpath \<Rightarrow> attribute option \<Rightarrow> (scim_error, unit) res" where
  "checkImmutableSubPath a op p sub =
     (case sub of
        None \<Rightarrow> Inr ()
      | Some s \<Rightarrow>
          if mutabilityOf s \<noteq> MutabilityImmutable \<or> valueFilter p \<noteq> None then Inr ()
          else case Get (apRes a) (fullPathText p) of
            None \<Rightarrow> Inr ()
          | Some existing \<Rightarrow>
              if opKind op = KindRemove then Inl ErrMutability
              else rbind (coerceOpValue s (opValue op)) (\<lambda>coerced.
                     if \<not> valuesEqual existing coerced then Inl ErrMutability else Inr ()))"

definition checkMutable ::
    "applier \<Rightarrow> patch_op \<Rightarrow> fpath \<Rightarrow> attribute \<Rightarrow> attribute option \<Rightarrow> (scim_error, unit) res" where
  "checkMutable a op p attr sub =
     (if mutabilityOf attr = MutabilityReadOnly then Inl ErrMutability
      else if (case sub of Some s \<Rightarrow> mutabilityOf s = MutabilityReadOnly | None \<Rightarrow> False)
      then Inl ErrMutability
      else rbind (checkImmutablePathed a op p attr sub) (\<lambda>_.
           rbind (checkImmutableSubPath a op p sub) (\<lambda>_.
             if opKind op = KindRemove \<and> required attr \<and> sub = None \<and> valueFilter p = None
             then Inl ErrMutability else Inr ())))"

definition resolveOpTarget ::
    "applier \<Rightarrow> patch_op \<Rightarrow> fpath \<Rightarrow> (scim_error, attribute \<times> attribute option) res" where
  "resolveOpTarget a op p =
     (case resolvePatchTarget (rRT (apRes a)) p of
        None \<Rightarrow> Inl ErrInvalidPath
      | Some (attr, sub) \<Rightarrow>
          if multiValued attr \<and> sub \<noteq> None \<and> valueFilter p = None then Inl ErrInvalidPath
          else rbind (checkMutable a op p attr sub) (\<lambda>_. Inr (attr, sub)))"

definition checkElemImmutable :: "attribute \<Rightarrow> cval \<Rightarrow> gval \<Rightarrow> (scim_error, unit) res" where
  "checkElemImmutable sub elem raw =
     (if mutabilityOf sub \<noteq> MutabilityImmutable then Inr ()
      else
        let existing = agetNil elem (foldName (attrName sub)) in
        if existing = VNil then Inr ()
        else rbind (coerceOpValue sub raw) (\<lambda>coerced.
               if \<not> valuesEqual existing coerced then Inl ErrMutability else Inr ()))"

subsection \<open>Elements\<close>

text \<open>The indexes of the elements that satisfy the value filter.\<close>

definition matchStep ::
    "resource_type \<Rightarrow> attribute \<Rightarrow> expr \<Rightarrow> nat \<times> cval \<Rightarrow> nat list \<Rightarrow> (scim_error, nat list) res" where
  "matchStep rt attr f ix idx =
     rbind (MatchElement rt attr (snd ix) f) (\<lambda>ok. Inr (if ok then idx @ [fst ix] else idx))"

definition matchingElements ::
    "resource_type \<Rightarrow> attribute \<Rightarrow> expr \<Rightarrow> cval list \<Rightarrow> (scim_error, nat list) res" where
  "matchingElements rt attr f xs = rfold (matchStep rt attr f) (enumerate 0 xs) []"

definition getList :: "applier \<Rightarrow> fpath \<Rightarrow> cval list option" where
  "getList a p = (case Get (apRes a) (attrPathText p) of Some (VMulti ms) \<Rightarrow> Some ms | _ \<Rightarrow> None)"

definition listOf :: "cval list option \<Rightarrow> cval list" where
  "listOf o' = (case o' of Some ms \<Rightarrow> ms | None \<Rightarrow> [])"

definition mergeElemKey ::
    "attribute \<Rightarrow> string \<times> gval \<Rightarrow> cval \<Rightarrow> (scim_error, cval) res" where
  "mergeElemKey attr kv elem =
     (case findAttribute (subAttributes attr) (fst kv) of
        Some sub \<Rightarrow>
          if mutabilityOf sub = MutabilityReadOnly then Inr elem
          else rbind (checkElemImmutable sub elem (snd kv)) (\<lambda>_.
                 Inr (aput (foldName (fst kv)) (snd kv) elem))
      | None \<Rightarrow> Inr (aput (foldName (fst kv)) (snd kv) elem))"

definition mergeElemKeys :: "attribute \<Rightarrow> cval \<Rightarrow> cval \<Rightarrow> (scim_error, cval) res" where
  "mergeElemKeys attr mp elem = rfold (mergeElemKey attr) mp elem"

text \<open>The body of the loop of \<open>writeToElements\<close> for the element at one matched index.\<close>

definition writeElement ::
    "attribute \<Rightarrow> attribute option \<Rightarrow> gval \<Rightarrow> nat \<Rightarrow> cval list \<Rightarrow> (scim_error, cval list) res" where
  "writeElement attr sub v i out =
     (let elem = out ! i in
      case sub of
        Some s \<Rightarrow>
          rbind (checkElemImmutable s elem v) (\<lambda>_.
            Inr (out[i := aput (foldName (attrName s)) v elem]))
      | None \<Rightarrow>
          (case v of
             VMap mp \<Rightarrow> rbind (mergeElemKeys attr mp elem) (\<lambda>elem'. Inr (out[i := elem']))
           | _ \<Rightarrow> Inl ErrInvalidValue))"

definition writeToElements ::
    "patch_op \<Rightarrow> fpath \<Rightarrow> attribute \<Rightarrow> attribute option \<Rightarrow> cval list \<Rightarrow> nat list \<Rightarrow> applier \<Rightarrow> apply_result" where
  "writeToElements op p attr sub xs matches a =
     (if sub = None \<and> (case opValue op of VMap _ \<Rightarrow> False | _ \<Rightarrow> True) then Inl ErrInvalidValue
      else rbind (rfold (writeElement attr sub (opValue op)) matches xs) (\<lambda>out.
             setTracked (attrPathText p) (VMulti (demoteOthers out matches)) a))"

subsection \<open>Synthesis (\<open>patch/synthesize.go\<close>)\<close>

definition literalValue :: "literal \<Rightarrow> gval" where
  "literalValue l =
     (case l of LString s \<Rightarrow> VString s | LNumber n \<Rightarrow> VNumber n | LBool b \<Rightarrow> VBool b | LNull \<Rightarrow> VNil)"

fun collectEqClauses :: "expr \<Rightarrow> cval \<Rightarrow> cval option" where
  "collectEqClauses (Compare p o' v) out =
     (if o' \<noteq> OpEqual \<or> pathURN p \<noteq> [] \<or> pathSub p \<noteq> [] \<or> valueFilter p \<noteq> None then None
      else
        let key = foldName (pathAttr p) in
        if (case aget out key of Some e \<Rightarrow> e \<noteq> literalValue v | None \<Rightarrow> False) then None
        else if v = LNull then Some out
        else Some (aput key (literalValue v) out))"
| "collectEqClauses (AndExpr l r) out =
     (case collectEqClauses l out of None \<Rightarrow> None | Some out' \<Rightarrow> collectEqClauses r out')"
| "collectEqClauses _ out = None"

definition seedFromFilter :: "expr \<Rightarrow> cval option" where
  "seedFromFilter e = collectEqClauses e []"

definition foldKeys :: "cval \<Rightarrow> cval \<Rightarrow> cval" where
  "foldKeys seed mp = foldl (\<lambda>m kv. aput (foldName (fst kv)) (snd kv) m) seed mp"

definition synthesizeElement ::
    "patch_op \<Rightarrow> fpath \<Rightarrow> expr \<Rightarrow> attribute option \<Rightarrow> applier \<Rightarrow> apply_result" where
  "synthesizeElement op p f sub a =
     (case seedFromFilter f of
        None \<Rightarrow> Inl ErrNoTarget
      | Some seed \<Rightarrow>
          rbind (case sub of
                   Some s \<Rightarrow> Inr (aput (foldName (attrName s)) (opValue op) seed)
                 | None \<Rightarrow> (case opValue op of VMap mp \<Rightarrow> Inr (foldKeys seed mp) | _ \<Rightarrow> Inl ErrInvalidValue))
            (\<lambda>elem.
              let out = listOf (getList a p) @ [elem] in
              setTracked (attrPathText p) (VMulti (demoteOthers out [length out - 1])) a))"

subsection \<open>Add\<close>

definition wrapElements :: "gval \<Rightarrow> gval" where
  "wrapElements v = (case v of VList _ \<Rightarrow> v | _ \<Rightarrow> VList [v])"

definition addMulti :: "string \<Rightarrow> attribute \<Rightarrow> gval \<Rightarrow> applier \<Rightarrow> apply_result" where
  "addMulti path attr v a =
     rbind (coerceOpValue attr (wrapElements v)) (\<lambda>incoming.
       if incoming = VNil then Inr a
       else case Get (apRes a) path of
         None \<Rightarrow> setTracked path incoming a
       | Some existing \<Rightarrow>
           (case appendNew existing incoming of (merged, added) \<Rightarrow>
              if added then setTracked path merged a else Inr a))"

definition mergeComplex :: "string \<Rightarrow> attribute \<Rightarrow> gval \<Rightarrow> applier \<Rightarrow> apply_result" where
  "mergeComplex path attr v a =
     rbind (coerceOpValue attr v) (\<lambda>coerced.
       if coerced = VNil then Inr a
       else case coerced of
         VComplex incoming \<Rightarrow>
           (case Get (apRes a) path of
              Some (VComplex current) \<Rightarrow> setTracked path (VComplex (mergeKeys current incoming)) a
            | _ \<Rightarrow> setTracked path (VComplex incoming) a)
       | _ \<Rightarrow> setTracked path coerced a)"

definition addToAttribute :: "string \<Rightarrow> attribute \<Rightarrow> gval \<Rightarrow> applier \<Rightarrow> apply_result" where
  "addToAttribute path attr v a =
     (if multiValued attr then addMulti path attr v a
      else if attrType attr = TypeComplex then mergeComplex path attr v a
      else setTracked path v a)"

definition addValuePath ::
    "patch_op \<Rightarrow> fpath \<Rightarrow> expr \<Rightarrow> attribute \<Rightarrow> attribute option \<Rightarrow> applier \<Rightarrow> apply_result" where
  "addValuePath op p f attr sub a =
     (if \<not> multiValued attr \<or> attrType attr \<noteq> TypeComplex then Inl ErrInvalidPath
      else
        let xs = listOf (getList a p) in
        rbind (matchingElements (rRT (apRes a)) attr f xs) (\<lambda>matches.
          if matches = [] then
            (if SynthesizeAddValuePath (apProfile a) then synthesizeElement op p f sub a
             else Inl ErrNoTarget)
          else writeToElements op p attr sub xs matches a))"

subsection \<open>Remove\<close>

definition removeSubStep ::
    "attribute \<Rightarrow> nat \<Rightarrow> cval list \<Rightarrow> (scim_error, cval list) res" where
  "removeSubStep sub i out =
     (let key = foldName (attrName sub) in
      if mutabilityOf sub = MutabilityImmutable \<and> agetNil (out ! i) key \<noteq> VNil then Inl ErrMutability
      else Inr (out[i := adel key (out ! i)]))"

definition removeSubFromElements ::
    "fpath \<Rightarrow> attribute \<Rightarrow> cval list \<Rightarrow> nat list \<Rightarrow> applier \<Rightarrow> apply_result" where
  "removeSubFromElements p sub xs matches a =
     rbind (rfold (removeSubStep sub) matches xs) (\<lambda>out.
       setTracked (attrPathText p) (VMulti out) a)"

definition survivors :: "cval list \<Rightarrow> nat list \<Rightarrow> cval list" where
  "survivors xs matches = map snd (filter (\<lambda>ix. fst ix \<notin> set matches) (enumerate 0 xs))"

definition removeValuePath ::
    "fpath \<Rightarrow> expr \<Rightarrow> attribute \<Rightarrow> attribute option \<Rightarrow> applier \<Rightarrow> apply_result" where
  "removeValuePath p f attr sub a =
     (if \<not> multiValued attr \<or> attrType attr \<noteq> TypeComplex then Inl ErrInvalidPath
      else case getList a p of
        None \<Rightarrow> Inr a
      | Some xs \<Rightarrow>
          rbind (matchingElements (rRT (apRes a)) attr f xs) (\<lambda>matches.
            if matches = [] then Inr a
            else case sub of
              Some s \<Rightarrow> removeSubFromElements p s xs matches a
            | None \<Rightarrow>
                if required attr \<and> length matches = length xs then Inl ErrMutability
                else setTracked (attrPathText p) (VList (map VComplex (survivors xs matches))) a))"

definition applyRemove :: "patch_op \<Rightarrow> applier \<Rightarrow> apply_result" where
  "applyRemove op a =
     (case opPath op of
        None \<Rightarrow> Inl ErrNoTarget
      | Some p \<Rightarrow>
          rbind (resolveOpTarget a op p) (\<lambda>(attr, sub).
            case valueFilter p of
              Some f \<Rightarrow> removeValuePath p f attr sub a
            | None \<Rightarrow>
                if sub \<noteq> None then setTracked (fullPathText p) VNil a
                else setTracked (attrPathText p) VNil a))"

subsection \<open>Replace\<close>

definition replaceAttribute :: "string \<Rightarrow> attribute \<Rightarrow> gval \<Rightarrow> applier \<Rightarrow> apply_result" where
  "replaceAttribute path attr v a =
     (if multiValued attr then
        rbind (coerceOpValue attr (wrapElements v)) (\<lambda>coerced. setTracked path coerced a)
      else if attrType attr = TypeComplex then mergeComplex path attr v a
      else setTracked path v a)"

text \<open>The member of a decoded object with the given folded key.\<close>

definition lookupFolded :: "cval \<Rightarrow> string \<Rightarrow> gval option" where
  "lookupFolded mp key = map_option snd (find (\<lambda>kv. foldName (fst kv) = key) mp)"

definition checkReplacedSub :: "cval \<Rightarrow> cval \<Rightarrow> attribute \<Rightarrow> (scim_error, unit) res" where
  "checkReplacedSub old mp sub =
     (if mutabilityOf sub \<noteq> MutabilityImmutable then Inr ()
      else
        let key = foldName (attrName sub); existing = agetNil old key in
        if existing = VNil then Inr ()
        else case lookupFolded mp key of
          None \<Rightarrow> Inl ErrMutability
        | Some raw \<Rightarrow>
            rbind (coerceOpValue sub raw) (\<lambda>coerced.
              if \<not> valuesEqual existing coerced then Inl ErrMutability else Inr ()))"

definition checkReplacedElement :: "attribute \<Rightarrow> cval \<Rightarrow> cval \<Rightarrow> (scim_error, unit) res" where
  "checkReplacedElement attr old mp =
     rfold (\<lambda>sub _. checkReplacedSub old mp sub) (subAttributes attr) ()"

definition replaceElement ::
    "attribute \<Rightarrow> cval \<Rightarrow> nat \<Rightarrow> cval list \<Rightarrow> (scim_error, cval list) res" where
  "replaceElement attr mp i out =
     rbind (checkReplacedElement attr (out ! i) mp) (\<lambda>_. Inr (out[i := foldKeys [] mp]))"

definition replaceValuePath ::
    "patch_op \<Rightarrow> fpath \<Rightarrow> expr \<Rightarrow> attribute \<Rightarrow> attribute option \<Rightarrow> applier \<Rightarrow> apply_result" where
  "replaceValuePath op p f attr sub a =
     (if \<not> multiValued attr \<or> attrType attr \<noteq> TypeComplex then Inl ErrInvalidPath
      else
        let xs = listOf (getList a p) in
        rbind (matchingElements (rRT (apRes a)) attr f xs) (\<lambda>matches.
          if matches = [] then
            (if ReplaceNoTargetAsAdd (apProfile a) then synthesizeElement op p f sub a
             else Inl ErrNoTarget)
          else if sub \<noteq> None then writeToElements op p attr sub xs matches a
          else case opValue op of
            VMap mp \<Rightarrow>
              rbind (rfold (replaceElement attr mp) matches xs) (\<lambda>out.
                setTracked (attrPathText p) (VMulti (demoteOthers out matches)) a)
          | _ \<Rightarrow> Inl ErrInvalidValue))"

subsection \<open>Pathless operations\<close>

definition applyPathlessAttr :: "patch_op \<Rightarrow> string \<Rightarrow> attribute \<Rightarrow> gval \<Rightarrow> applier \<Rightarrow> apply_result" where
  "applyPathlessAttr op path attr v a =
     (if mutabilityOf attr = MutabilityReadOnly then Inr a
      else rbind (if mutabilityOf attr = MutabilityImmutable
                  then checkImmutableAttr a path attr (opKind op) v else Inr ()) (\<lambda>_.
           if opKind op = KindReplace then replaceAttribute path attr v a
           else addToAttribute path attr v a))"

text \<open>The keys of an object in folded order; keys that fold alike keep their order.\<close>

definition sortedEntries :: "cval \<Rightarrow> cval" where
  "sortedEntries m = sort_key (\<lambda>kv. foldName (fst kv)) m"

definition applyPathlessExtKey ::
    "patch_op \<Rightarrow> string \<Rightarrow> attribute list \<Rightarrow> string \<times> gval \<Rightarrow> applier \<Rightarrow> apply_result" where
  "applyPathlessExtKey op urn ext kv a =
     (case findAttribute ext (fst kv) of
        None \<Rightarrow> Inr a
      | Some attr \<Rightarrow> applyPathlessAttr op (urn @ '':'' @ fst kv) attr (snd kv) a)"

definition applyPathlessExtension ::
    "patch_op \<Rightarrow> string \<Rightarrow> attribute list \<Rightarrow> gval \<Rightarrow> applier \<Rightarrow> apply_result" where
  "applyPathlessExtension op urn ext v a =
     (case v of
        VMap obj \<Rightarrow> rfold (applyPathlessExtKey op urn ext) (sortedEntries obj) a
      | _ \<Rightarrow> Inl ErrInvalidValue)"

definition applyPathlessKey :: "patch_op \<Rightarrow> string \<times> gval \<Rightarrow> applier \<Rightarrow> apply_result" where
  "applyPathlessKey op kv a =
     (let key = fst kv; v = snd kv; folded = foldName key; rt = rRT (apRes a) in
      if folded = attrSchemas \<or> folded = attrMeta then Inr a
      else case extensionAttrs rt key of
        Some ext \<Rightarrow> applyPathlessExtension op key ext v a
      | None \<Rightarrow>
          (case (case findAttribute (schemaAttributes (rtSchema rt)) key of
                   Some attr \<Rightarrow> Some attr | None \<Rightarrow> findAttribute commonAttributes key) of
             None \<Rightarrow> Inr a
           | Some attr \<Rightarrow> applyPathlessAttr op key attr v a))"

definition addPathless :: "patch_op \<Rightarrow> applier \<Rightarrow> apply_result" where
  "addPathless op a =
     (case opValue op of
        VMap obj \<Rightarrow> rfold (applyPathlessKey op) (sortedEntries obj) a
      | _ \<Rightarrow> Inl ErrInvalidValue)"

subsection \<open>The operations\<close>

definition applyAdd :: "patch_op \<Rightarrow> applier \<Rightarrow> apply_result" where
  "applyAdd op a =
     (case opPath op of
        None \<Rightarrow> addPathless op a
      | Some p \<Rightarrow>
          rbind (resolveOpTarget a op p) (\<lambda>(attr, sub).
            case valueFilter p of
              Some f \<Rightarrow> addValuePath op p f attr sub a
            | None \<Rightarrow>
                if sub \<noteq> None then setTracked (fullPathText p) (opValue op) a
                else addToAttribute (attrPathText p) attr (opValue op) a))"

definition applyReplace :: "patch_op \<Rightarrow> applier \<Rightarrow> apply_result" where
  "applyReplace op a =
     (case opPath op of
        None \<Rightarrow> addPathless op a
      | Some p \<Rightarrow>
          rbind (resolveOpTarget a op p) (\<lambda>(attr, sub).
            case valueFilter p of
              Some f \<Rightarrow> replaceValuePath op p f attr sub a
            | None \<Rightarrow>
                if sub \<noteq> None then setTracked (fullPathText p) (opValue op) a
                else replaceAttribute (attrPathText p) attr (opValue op) a))"

definition applyOp :: "patch_op \<Rightarrow> applier \<Rightarrow> apply_result" where
  "applyOp op a =
     (case opKind op of
        KindAdd \<Rightarrow> applyAdd op a
      | KindRemove \<Rightarrow> applyRemove op a
      | KindReplace \<Rightarrow> applyReplace op a
      | KindOther _ \<Rightarrow> Inl ErrInvalidSyntax)"

definition Apply :: "resource \<Rightarrow> patch_op list \<Rightarrow> profile \<Rightarrow> (scim_error, resource \<times> bool) res" where
  "Apply r ops p =
     rbind (rfold applyOp ops \<lparr>apRes = r, apProfile = p, apChanged = False\<rparr>) (\<lambda>a.
       Inr (apRes a, apChanged a))"

end
