(* ===== verification/Patch_Safety.thy ===== *)
theory Patch_Safety
  imports Patch_Apply
begin

text \<open>
  What the patch engine may do to a resource. \<open>patch_write\<close> is one tracked write to a path
  whose attribute is not readOnly; every operation is a sequence of such writes
  (\<open>applyOp_writes\<close>), so what each write keeps, the engine keeps: the invariant of the
  resource, and the readOnly attributes.
\<close>

subsection \<open>Filter paths and resource paths\<close>

text \<open>
  A filter path is split at its last colon, a resource path at the longest declared URN. The
  two agree when no declared URN continues another one after a colon, and names are
  attribute names.
\<close>

definition urnsApart :: "resource_type \<Rightarrow> bool" where
  "urnsApart rt \<longleftrightarrow>
     list_all (\<lambda>u. prefix urnPrefix (foldName u) \<and>
       list_all (\<lambda>w. foldName u \<noteq> foldName w \<longrightarrow> \<not> urnMatches (foldName w) u) (declaredURNs rt))
     (declaredURNs rt)"

definition validPath :: "fpath \<Rightarrow> bool" where
  "validPath p \<longleftrightarrow>
     validAttrName (pathAttr p) \<and> (pathSub p = [] \<or> validAttrName (pathSub p))"

lemma nameChar_no_sep: "isNameChar c \<Longrightarrow> c \<noteq> CHR ''.'' \<and> c \<noteq> CHR '':''"
  by (auto simp: isNameChar_def isLetter_def isDigit_def less_eq_char_def)

lemma nameStart_no_sep: "isNameStart c \<Longrightarrow> c \<noteq> CHR ''.'' \<and> c \<noteq> CHR '':''"
  by (auto simp: isNameStart_def isLetter_def less_eq_char_def)

lemma validAttrName_no_sep:
  "validAttrName n \<Longrightarrow> n \<noteq> [] \<and> CHR ''.'' \<notin> set n \<and> CHR '':'' \<notin> set n"
  using nameChar_no_sep nameStart_no_sep
  by (cases n) (auto simp: validAttrName_def list_all_iff)

lemma no_colon_not_urn: "CHR '':'' \<notin> set n \<Longrightarrow> \<not> prefix urnPrefix (foldName n)"
proof
  assume "CHR '':'' \<notin> set n" and "prefix urnPrefix (foldName n)"
  then have "CHR '':'' \<in> set (foldName n)" by (auto simp: prefix_def urnPrefix_def)
  with \<open>CHR '':'' \<notin> set n\<close> foldChar_sep(2) show False by (force simp: foldName_def)
qed

lemma splitURNPrefix_qualified:
  assumes apart: "urnsApart rt" and u: "u \<in> set (declaredURNs rt)" and fold: "foldName urn = foldName u"
  obtains w where "foldName w = foldName urn" and "w \<in> set (declaredURNs rt)"
    and "splitURNPrefix rt (urn @ '':'' @ n) =
      (if foldName urn = foldName (schemaID (rtSchema rt)) then ([], n, True) else (w, n, False))"
proof -
  define path where "path = urn @ '':'' @ n"
  define folded where "folded = foldName path"
  define best where "best = longestURN rt folded"
  have folded: "folded = foldName u @ CHR '':'' # foldName n" by (simp add: folded_def path_def fold)
  have idem: "foldName folded = folded" by (simp add: folded_def)
  have len: "length urn = length u" using fold by (metis length_foldName)
  from apart u have pre: "prefix urnPrefix (foldName u)" by (auto simp: urnsApart_def list_all_iff)
  then have "u \<noteq> []" by (auto simp: urnPrefix_def)
  have "urnMatches folded u" by (simp add: urnMatches_def folded nth_append)
  from longestURN_spec(2) [OF idem u this] have longer: "length u \<le> length best"
    by (simp add: best_def)
  with \<open>u \<noteq> []\<close> have "best \<noteq> []" by auto
  then have best: "best \<in> set (declaredURNs rt)" "urnMatches folded best"
    using longestURN_spec(1) [OF idem, of rt] by (auto simp: best_def)
  have "foldName best = take (length best) folded"
    using best(2) by (auto simp: urnMatches_def prefix_def)
  have same: "foldName best = foldName u"
  proof (rule ccontr)
    assume differ: "foldName best \<noteq> foldName u"
    have "length u < length best"
      using longer differ \<open>foldName best = take (length best) folded\<close> folded
      by (cases "length u = length best") auto
    then have "foldName best = foldName u @ CHR '':'' # take (length best - length u - 1) (foldName n)"
      using \<open>foldName best = take (length best) folded\<close> folded by (simp add: take_Cons')
    then have "urnMatches (foldName best) u"
      by (simp add: urnMatches_def nth_append)
    with apart u best(1) differ show False by (auto simp: urnsApart_def list_all_iff)
  qed
  then have "length best = length u" by (metis length_foldName)
  moreover have "prefix urnPrefix folded" using pre by (simp add: folded)
  moreover have "length urn < length path" "drop (Suc (length urn)) path = n"
    by (simp_all add: path_def)
  ultimately have "splitURNPrefix rt path =
      (if foldName urn = foldName (schemaID (rtSchema rt)) then ([], n, True) else (best, n, False))"
    using \<open>best \<noteq> []\<close> same fold len
    by (simp add: splitURNPrefix_def Let_def folded_def [symmetric] best_def [symmetric])
  with same fold best(1) show thesis by (intro that [of best]) (auto simp: path_def)
qed

lemma splitAttrExpr_valid:
  assumes "validAttrName a"
  shows "splitAttrExpr a = Some (a, [])"
    and "validAttrName s \<Longrightarrow> splitAttrExpr (a @ ''.'' @ s) = Some (a, s)"
  using validAttrName_no_sep [OF assms] validAttrName_no_sep [of s]
  by (auto simp: splitAttrExpr_def cut_not_in cut_append)

text \<open>The namespace and the expression a filter path stands for.\<close>

lemma resolvePath_filterPath:
  assumes apart: "urnsApart rt" and ns: "filterNamespace rt (pathURN p) = Some attrs"
    and e: "e \<noteq> []" "CHR '':'' \<notin> set e"
  obtains urn where "resolvePath rt ((if pathURN p \<noteq> [] then pathURN p @ '':'' else []) @ e) =
      resolveAttrExpr rt urn e"
    and "if pathURN p = [] \<or> foldName (pathURN p) = foldName (schemaID (rtSchema rt))
      then urn = [] \<and> attrs = schemaAttributes (rtSchema rt)
      else urn \<noteq> [] \<and> (\<exists>s. extensionSchema rt urn = Some s \<and> attrs = schemaAttributes s)"
proof (cases "pathURN p = []")
  case True
  then have "resolvePath rt ((if pathURN p \<noteq> [] then pathURN p @ '':'' else []) @ e) =
      resolveAttrExpr rt [] e"
    using no_colon_not_urn [OF e(2)] e(1) by (simp add: resolvePath_def splitURNPrefix_def Let_def)
  with True ns show thesis by (intro that [of "[]"]) (auto simp: filterNamespace_def)
next
  case False
  define core where "core \<longleftrightarrow> foldName (pathURN p) = foldName (schemaID (rtSchema rt))"
  obtain u where u: "u \<in> set (declaredURNs rt)" "foldName (pathURN p) = foldName u"
    and ext: "\<not> core \<Longrightarrow> \<exists>s. extensionSchema rt (pathURN p) = Some s \<and> attrs = schemaAttributes s"
  proof (cases core)
    case True
    then show thesis by (intro that [of "schemaID (rtSchema rt)"]) (auto simp: declaredURNs_def core_def)
  next
    case notcore: False
    with ns False obtain s where s: "extensionSchema rt (pathURN p) = Some s" "attrs = schemaAttributes s"
      by (auto simp: filterNamespace_def core_def)
    with extensionSchema_SomeD [OF s(1)] show thesis
      by (intro that [of "schemaID s"]) (auto simp: declaredURNs_def)
  qed
  from splitURNPrefix_qualified [OF apart u]
  obtain w where w: "foldName w = foldName (pathURN p)" "w \<in> set (declaredURNs rt)"
    and split: "splitURNPrefix rt (pathURN p @ '':'' @ e) = (if core then ([], e, True) else (w, e, False))"
    unfolding core_def by metis
  have "prefix urnPrefix (foldName w)" using apart w(2) by (auto simp: urnsApart_def list_all_iff)
  then have "w \<noteq> []" by (auto simp: urnPrefix_def)
  show thesis
  proof (cases core)
    case True
    with False split e(1) have "resolvePath rt (pathURN p @ '':'' @ e) = resolveAttrExpr rt [] e"
      by (simp add: resolvePath_def)
    with False True ns show thesis
      by (intro that [of "[]"]) (auto simp: filterNamespace_def core_def)
  next
    case notcore: False
    with False split e(1) \<open>w \<noteq> []\<close>
    have "resolvePath rt (pathURN p @ '':'' @ e) = resolveAttrExpr rt w e"
      by (simp add: resolvePath_def)
    moreover from ext [OF notcore] obtain s where
      "extensionSchema rt (pathURN p) = Some s" "attrs = schemaAttributes s" by blast
    moreover have "extensionSchema rt w = extensionSchema rt (pathURN p)"
      by (rule extensionSchema_fold_cong [OF w(1)])
    ultimately show thesis
      using False notcore \<open>w \<noteq> []\<close> by (intro that [of w]) (auto simp: core_def)
  qed
qed

lemma resolvePatchTarget_resolves:
  assumes apart: "urnsApart rt" and valid: "validPath p"
    and target: "resolvePatchTarget rt p = Some (a, sub)"
  shows "\<exists>rp. resolvePath rt (attrPathText p) = Inr rp \<and> rpAttr rp = Some a \<and> rpSub rp = None"
    and "pathSub p \<noteq> [] \<Longrightarrow> \<not> multiValued a \<Longrightarrow>
      \<exists>rp. resolvePath rt (fullPathText p) = Inr rp \<and> rpAttr rp = Some a \<and> rpSub rp = sub"
proof -
  from target obtain attrs where ns: "filterNamespace rt (pathURN p) = Some attrs"
    and a: "findAttribute attrs (pathAttr p) = Some a \<or>
      (pathURN p = [] \<and> findAttribute attrs (pathAttr p) = None \<and>
       findAttribute commonAttributes (pathAttr p) = Some a)"
    and sub: "pathSub p = [] \<and> sub = None \<or>
      pathSub p \<noteq> [] \<and> attrType a = TypeComplex \<and>
        (\<exists>s. sub = Some s \<and> findAttribute (subAttributes a) (pathSub p) = Some s)"
    by (cases "findAttribute (subAttributes a) (pathSub p)")
      (auto simp: resolvePatchTarget_filter resolveFilter_def split: option.splits if_splits)
  from valid have attr: "validAttrName (pathAttr p)" by (simp add: validPath_def)
  note seps = validAttrName_no_sep [OF attr]
  have nsattr: "fst (namespaceAttr rt urn (pathAttr p)) = Some a"
    if "if pathURN p = [] \<or> foldName (pathURN p) = foldName (schemaID (rtSchema rt))
      then urn = [] \<and> attrs = schemaAttributes (rtSchema rt)
      else urn \<noteq> [] \<and> (\<exists>s. extensionSchema rt urn = Some s \<and> attrs = schemaAttributes s)" for urn
    using that a by (auto simp: namespaceAttr_def split: if_splits option.splits)
  show "\<exists>rp. resolvePath rt (attrPathText p) = Inr rp \<and> rpAttr rp = Some a \<and> rpSub rp = None"
  proof (rule resolvePath_filterPath [OF apart ns])
    show "pathAttr p \<noteq> []" "CHR '':'' \<notin> set (pathAttr p)" using seps by auto
    fix urn
    assume "resolvePath rt ((if pathURN p \<noteq> [] then pathURN p @ '':'' else []) @ pathAttr p) =
        resolveAttrExpr rt urn (pathAttr p)"
      and "if pathURN p = [] \<or> foldName (pathURN p) = foldName (schemaID (rtSchema rt))
      then urn = [] \<and> attrs = schemaAttributes (rtSchema rt)
      else urn \<noteq> [] \<and> (\<exists>s. extensionSchema rt urn = Some s \<and> attrs = schemaAttributes s)"
    moreover from nsattr [OF this(2)] obtain c where "namespaceAttr rt urn (pathAttr p) = (Some a, c)"
      by (cases "namespaceAttr rt urn (pathAttr p)") auto
    ultimately show ?thesis
      using splitAttrExpr_valid(1) [OF attr]
      by (auto simp: attrPathText_def resolveAttrExpr_def Let_def split: if_splits)
  qed
  show "\<exists>rp. resolvePath rt (fullPathText p) = Inr rp \<and> rpAttr rp = Some a \<and> rpSub rp = sub"
    if s: "pathSub p \<noteq> []" "\<not> multiValued a"
  proof (rule resolvePath_filterPath [OF apart ns])
    from s valid have vs: "validAttrName (pathSub p)" by (simp add: validPath_def)
    show "pathAttr p @ ''.'' @ pathSub p \<noteq> []" "CHR '':'' \<notin> set (pathAttr p @ ''.'' @ pathSub p)"
      using seps validAttrName_no_sep [OF vs] by auto
    fix urn
    assume "resolvePath rt ((if pathURN p \<noteq> [] then pathURN p @ '':'' else []) @
        pathAttr p @ ''.'' @ pathSub p) = resolveAttrExpr rt urn (pathAttr p @ ''.'' @ pathSub p)"
      and "if pathURN p = [] \<or> foldName (pathURN p) = foldName (schemaID (rtSchema rt))
      then urn = [] \<and> attrs = schemaAttributes (rtSchema rt)
      else urn \<noteq> [] \<and> (\<exists>s. extensionSchema rt urn = Some s \<and> attrs = schemaAttributes s)"
    moreover from nsattr [OF this(2)] obtain c where "namespaceAttr rt urn (pathAttr p) = (Some a, c)"
      by (cases "namespaceAttr rt urn (pathAttr p)") auto
    ultimately show ?thesis
      using splitAttrExpr_valid(2) [OF attr vs] sub s
      by (auto simp: attrPathText_def fullPathText_def resolveAttrExpr_def Let_def split: if_splits)
  qed
qed


subsection \<open>Writes\<close>

text \<open>The path of a write resolves to an attribute and sub-attribute that are not readOnly.\<close>

definition writable :: "resource_type \<Rightarrow> string \<Rightarrow> bool" where
  "writable rt path \<longleftrightarrow>
     (case resolvePath rt path of
        Inl _ \<Rightarrow> False
      | Inr rp \<Rightarrow>
          (case rpAttr rp of None \<Rightarrow> False | Some a \<Rightarrow> mutabilityOf a \<noteq> MutabilityReadOnly) \<and>
          (case rpSub rp of None \<Rightarrow> True | Some s \<Rightarrow> mutabilityOf s \<noteq> MutabilityReadOnly))"

inductive patch_write :: "applier \<Rightarrow> applier \<Rightarrow> bool" where
  tracked: "setTracked path v a = Inr a' \<Longrightarrow> writable (rRT (apRes a)) path \<Longrightarrow> patch_write a a'"

inductive_cases patch_writeE: "patch_write a a'"

text \<open>At most one tracked write to a path.\<close>

definition oneWrite :: "string \<Rightarrow> applier \<Rightarrow> applier \<Rightarrow> bool" where
  "oneWrite path a a' \<longleftrightarrow> a' = a \<or> (\<exists>v. setTracked path v a = Inr a')"

lemma oneWrite_refl [simp]: "oneWrite path a a"
  by (simp add: oneWrite_def)

lemma oneWrite_set [simp]: "setTracked path v a = Inr a' \<Longrightarrow> oneWrite path a a'"
  by (auto simp: oneWrite_def)

lemma oneWrite_writes: "oneWrite path a a' \<Longrightarrow> writable (rRT (apRes a)) path \<Longrightarrow> patch_write\<^sup>*\<^sup>* a a'"
  by (auto simp: oneWrite_def intro: tracked)

named_theorems one_write \<open>operations that write one path at most\<close>

lemma addMulti_one [one_write]: "addMulti path attr v a = Inr a' \<Longrightarrow> oneWrite path a a'"
  by (auto simp: addMulti_def res_simps split: if_splits option.splits prod.splits)

lemma mergeComplex_one [one_write]: "mergeComplex path attr v a = Inr a' \<Longrightarrow> oneWrite path a a'"
  by (auto simp: mergeComplex_def res_simps split: if_splits option.splits gval.splits)

lemma addToAttribute_one [one_write]: "addToAttribute path attr v a = Inr a' \<Longrightarrow> oneWrite path a a'"
  by (auto simp: addToAttribute_def split: if_splits intro: one_write)

lemma replaceAttribute_one [one_write]: "replaceAttribute path attr v a = Inr a' \<Longrightarrow> oneWrite path a a'"
  by (auto simp: replaceAttribute_def res_simps split: if_splits intro: one_write)

lemma writeToElements_one [one_write]:
  "writeToElements op p attr sub xs matches a = Inr a' \<Longrightarrow> oneWrite (attrPathText p) a a'"
  by (auto simp: writeToElements_def res_simps split: if_splits)

lemma synthesizeElement_one [one_write]:
  "synthesizeElement op p f sub a = Inr a' \<Longrightarrow> oneWrite (attrPathText p) a a'"
  by (auto simp: synthesizeElement_def res_simps Let_def split: option.splits)

lemma addValuePath_one [one_write]:
  "addValuePath op p f attr sub a = Inr a' \<Longrightarrow> oneWrite (attrPathText p) a a'"
  by (auto simp: addValuePath_def res_simps Let_def split: if_splits intro: one_write)

lemma removeValuePath_one [one_write]:
  "removeValuePath p f attr sub a = Inr a' \<Longrightarrow> oneWrite (attrPathText p) a a'"
  by (auto simp: removeValuePath_def removeSubFromElements_def res_simps Let_def
      split: if_splits option.splits)

lemma replaceValuePath_one [one_write]:
  "replaceValuePath op p f attr sub a = Inr a' \<Longrightarrow> oneWrite (attrPathText p) a a'"
  by (auto simp: replaceValuePath_def res_simps Let_def split: if_splits gval.splits intro: one_write)

lemma setTracked_frame:
  assumes "setTracked path v a = Inr a'"
  shows "rRT (apRes a') = rRT (apRes a)" and "apProfile a' = apProfile a"
    and "Set (apRes a) path v = Inr (apRes a')"
proof -
  from assms obtain r where r: "Set (apRes a) path v = Inr r" and "apRes a' = r" "apProfile a' = apProfile a"
    by (auto simp: setTracked_def res_simps)
  then show "apProfile a' = apProfile a" "Set (apRes a) path v = Inr (apRes a')" by auto
  from r \<open>apRes a' = r\<close> show "rRT (apRes a') = rRT (apRes a)" by (auto elim!: Set_InrE)
qed

lemma patch_writes_frame:
  "patch_write\<^sup>*\<^sup>* a a' \<Longrightarrow> rRT (apRes a') = rRT (apRes a) \<and> apProfile a' = apProfile a"
  by (induction rule: rtranclp_induct) (auto elim!: patch_writeE dest: setTracked_frame)

subsection \<open>Every operation is a sequence of writes\<close>

lemma resolveOpTarget_Inr:
  assumes "resolveOpTarget a op p = Inr (attr, sub)"
  shows "resolvePatchTarget (rRT (apRes a)) p = Some (attr, sub)"
    and "mutabilityOf attr \<noteq> MutabilityReadOnly"
    and "sub = Some s \<Longrightarrow> mutabilityOf s \<noteq> MutabilityReadOnly"
    and "valueFilter p = None \<Longrightarrow> sub \<noteq> None \<Longrightarrow> \<not> multiValued attr"
  using assms
  by (auto simp: resolveOpTarget_def checkMutable_def res_simps split: option.splits if_splits)

lemma opTarget_writable:
  assumes apart: "urnsApart (rRT (apRes a))" and valid: "validPath p"
    and target: "resolveOpTarget a op p = Inr (attr, sub)"
  shows "writable (rRT (apRes a)) (attrPathText p)"
    and "valueFilter p = None \<Longrightarrow> sub \<noteq> None \<Longrightarrow> writable (rRT (apRes a)) (fullPathText p)"
proof -
  note t = resolveOpTarget_Inr [OF target]
  from resolvePatchTarget_resolves(1) [OF apart valid t(1)] t(2)
  show "writable (rRT (apRes a)) (attrPathText p)" by (auto simp: writable_def)
  assume "valueFilter p = None" and sub: "sub \<noteq> None"
  then have "\<not> multiValued attr" using t(4) by blast
  moreover have "pathSub p \<noteq> []"
    using t(1) sub by (auto simp: resolvePatchTarget_def split: option.splits if_splits)
  ultimately obtain rp where "resolvePath (rRT (apRes a)) (fullPathText p) = Inr rp"
      "rpAttr rp = Some attr" "rpSub rp = sub"
    using resolvePatchTarget_resolves(2) [OF apart valid t(1)] by blast
  with t(2,3) show "writable (rRT (apRes a)) (fullPathText p)"
    by (auto simp: writable_def split: option.splits)
qed

definition opValid :: "patch_op \<Rightarrow> bool" where
  "opValid op \<longleftrightarrow> (case opPath op of None \<Rightarrow> True | Some p \<Rightarrow> validPath p)"

text \<open>The names a resource type declares are attribute names.\<close>

definition namesValid :: "resource_type \<Rightarrow> bool" where
  "namesValid rt \<longleftrightarrow>
     list_all (\<lambda>a. validAttrName (attrName a)) (schemaAttributes (rtSchema rt)) \<and>
     list_all (\<lambda>x. list_all (\<lambda>a. validAttrName (attrName a)) (schemaAttributes (extSchema x)))
       (rtExtensions rt)"

lemma validAttrName_fold: "foldName m = foldName n \<Longrightarrow> validAttrName n \<Longrightarrow>
    m \<noteq> [] \<and> CHR ''.'' \<notin> set m \<and> CHR '':'' \<notin> set m"
proof -
  assume fold: "foldName m = foldName n" and "validAttrName n"
  then have n: "n \<noteq> []" "CHR ''.'' \<notin> set n" "CHR '':'' \<notin> set n" using validAttrName_no_sep by auto
  have "CHR '':'' \<in> set (foldName s) \<longleftrightarrow> CHR '':'' \<in> set s" for s
    using foldChar_sep(2) by (force simp: foldName_def)
  then have "CHR '':'' \<notin> set m" using fold n(3) by metis
  moreover have "CHR ''.'' \<notin> set m" using fold n(2) sep_in_foldName by metis
  moreover have "m \<noteq> []" using fold n(1) by auto
  ultimately show ?thesis by blast
qed

lemma commonNames_valid: "a \<in> set commonAttributes \<Longrightarrow> validAttrName (attrName a)"
  by (auto simp: commonAttributes_def validAttrName_def isNameStart_def isNameChar_def isLetter_def
      less_eq_char_def)

text \<open>The target of one pathless key.\<close>

definition pathlessTarget :: "resource_type \<Rightarrow> string \<Rightarrow> attribute option" where
  "pathlessTarget rt key =
     (case findAttribute (schemaAttributes (rtSchema rt)) key of
        Some attr \<Rightarrow> Some attr | None \<Rightarrow> findAttribute commonAttributes key)"

lemma pathless_key_resolves:
  assumes names: "namesValid rt" and target: "pathlessTarget rt key = Some attr"
  shows "\<exists>rp. resolvePath rt key = Inr rp \<and> rpAttr rp = Some attr \<and> rpSub rp = None"
proof -
  from target consider
      "findAttribute (schemaAttributes (rtSchema rt)) key = Some attr"
    | "findAttribute commonAttributes key = Some attr"
    by (auto simp: pathlessTarget_def split: option.splits)
  then have "validAttrName (attrName attr) \<and> foldName (attrName attr) = foldName key"
  proof cases
    case 1
    with findAttribute_SomeD [OF 1] names show ?thesis by (auto simp: namesValid_def list_all_iff)
  next
    case 2
    with findAttribute_SomeD [OF 2] commonNames_valid show ?thesis by auto
  qed
  then have "plainName key"
    using validAttrName_fold [of key "attrName attr"] no_colon_not_urn [of key]
    by (auto simp: plainName_def)
  from resolvePath_plain [OF this, of rt] target show ?thesis
    by (auto simp: namespaceAttr_def pathlessTarget_def split: option.splits)
qed

lemma extension_key_resolves:
  assumes apart: "urnsApart rt" and names: "namesValid rt"
    and s: "extensionSchema rt urn = Some s"
    and core: "foldName urn \<noteq> foldName (schemaID (rtSchema rt))"
    and a: "findAttribute (schemaAttributes s) k = Some attr"
  shows "\<exists>rp. resolvePath rt (urn @ '':'' @ k) = Inr rp \<and> rpAttr rp = Some attr \<and> rpSub rp = None"
proof -
  have "validAttrName (attrName attr)" "foldName (attrName attr) = foldName k"
    using findAttribute_SomeD [OF a] extensionSchema_SomeD [OF s] names
    by (auto simp: namesValid_def list_all_iff)
  then have k: "k \<noteq> []" "CHR ''.'' \<notin> set k" "CHR '':'' \<notin> set k"
    using validAttrName_fold [of k "attrName attr"] by auto
  have decl: "schemaID s \<in> set (declaredURNs rt)" "foldName urn = foldName (schemaID s)"
    using extensionSchema_SomeD [OF s] by (auto simp: declaredURNs_def)
  with apart have "prefix urnPrefix (foldName urn)" by (auto simp: urnsApart_def list_all_iff)
  then have "urn \<noteq> []" by (auto simp: urnPrefix_def)
  define p where "p = FPath urn [] [] None"
  have "filterNamespace rt (pathURN p) = Some (schemaAttributes s)"
    using s core \<open>urn \<noteq> []\<close> by (simp add: filterNamespace_def p_def)
  from resolvePath_filterPath [OF apart this k(1) k(3)]
  obtain w where "resolvePath rt ((if pathURN p \<noteq> [] then pathURN p @ '':'' else []) @ k) = resolveAttrExpr rt w k"
    and w': "if pathURN p = [] \<or> foldName (pathURN p) = foldName (schemaID (rtSchema rt))
      then w = [] \<and> schemaAttributes s = schemaAttributes (rtSchema rt)
      else w \<noteq> [] \<and> (\<exists>t. extensionSchema rt w = Some t \<and> schemaAttributes s = schemaAttributes t)"
    by blast
  then have res: "resolvePath rt (urn @ '':'' @ k) = resolveAttrExpr rt w k"
    using \<open>urn \<noteq> []\<close> by (simp add: p_def)
  from w' have w: "w \<noteq> []" "\<exists>t. extensionSchema rt w = Some t \<and> schemaAttributes s = schemaAttributes t"
    using core \<open>urn \<noteq> []\<close> by (auto simp: p_def)
  have "splitAttrExpr k = Some (k, [])" using k by (simp add: splitAttrExpr_def cut_not_in)
  moreover have "namespaceAttr rt w k = (Some attr, False)" using w a by (auto simp: namespaceAttr_def)
  ultimately show ?thesis using res by (simp add: resolveAttrExpr_def Let_def)
qed

lemma applyPathlessAttr_writes:
  assumes "applyPathlessAttr op path attr v a = Inr a'"
    and "\<exists>rp. resolvePath (rRT (apRes a)) path = Inr rp \<and> rpAttr rp = Some attr \<and> rpSub rp = None"
  shows "patch_write\<^sup>*\<^sup>* a a'"
proof (cases "mutabilityOf attr = MutabilityReadOnly")
  case True
  with assms(1) show ?thesis by (simp add: applyPathlessAttr_def)
next
  case False
  with assms(1) have "oneWrite path a a'"
    by (auto simp: applyPathlessAttr_def res_simps split: if_splits intro: one_write)
  moreover have "writable (rRT (apRes a)) path" using assms(2) False by (auto simp: writable_def)
  ultimately show ?thesis by (rule oneWrite_writes)
qed

text \<open>A loop of writes is a sequence of writes.\<close>

lemma rfold_writes:
  assumes "rfold f xs a = Inr a'"
    and "\<And>x b b'. x \<in> set xs \<Longrightarrow> rRT (apRes b) = rRT (apRes a) \<Longrightarrow> f x b = Inr b' \<Longrightarrow> patch_write\<^sup>*\<^sup>* b b'"
  shows "patch_write\<^sup>*\<^sup>* a a'"
proof (rule rfold_invariant [OF assms(1)])
  fix x u v
  assume "x \<in> set xs" "patch_write\<^sup>*\<^sup>* a u" "f x u = Inr v"
  then show "patch_write\<^sup>*\<^sup>* a v"
    using assms(2) patch_writes_frame [of a u] by (meson rtranclp_trans)
qed simp

definition rtValid :: "resource_type \<Rightarrow> bool" where
  "rtValid rt \<longleftrightarrow>
     urnsApart rt \<and> namesValid rt \<and>
     list_all (\<lambda>x. foldName (schemaID (extSchema x)) \<noteq> foldName (schemaID (rtSchema rt))) (rtExtensions rt)"

lemma applyPathlessKey_writes:
  assumes rt: "rtValid (rRT (apRes a))" and app: "applyPathlessKey op kv a = Inr a'"
  shows "patch_write\<^sup>*\<^sup>* a a'"
proof -
  define rt' where "rt' = rRT (apRes a)"
  from app consider (same) "a' = a"
    | (ext) ext where "extensionAttrs rt' (fst kv) = Some ext"
        "applyPathlessExtension op (fst kv) ext (snd kv) a = Inr a'"
    | (attr) attr where "pathlessTarget rt' (fst kv) = Some attr"
        "applyPathlessAttr op (fst kv) attr (snd kv) a = Inr a'"
    by (auto simp: applyPathlessKey_def Let_def pathlessTarget_def rt'_def
        split: if_splits option.splits)
  then show ?thesis
  proof cases
    case same
    then show ?thesis by simp
  next
    case attr
    from rt have "namesValid rt'" by (simp add: rtValid_def rt'_def)
    from applyPathlessAttr_writes [OF attr(2)] pathless_key_resolves [OF this attr(1)]
    show ?thesis by (simp add: rt'_def)
  next
    case ext
    then obtain s where s: "extensionSchema rt' (fst kv) = Some s" and attrs: "ext = schemaAttributes s"
      by (auto simp: extensionAttrs_def)
    from ext(2) obtain obj where loop: "rfold (applyPathlessExtKey op (fst kv) ext) (sortedEntries obj) a = Inr a'"
      by (auto simp: applyPathlessExtension_def split: gval.splits)
    have core: "foldName (fst kv) \<noteq> foldName (schemaID (rtSchema rt'))"
      using extensionSchema_SomeD [OF s] rt by (auto simp: rtValid_def list_all_iff rt'_def)
    show ?thesis
    proof (rule rfold_writes [OF loop])
      fix x b b'
      assume same: "rRT (apRes b) = rRT (apRes a)" and step: "applyPathlessExtKey op (fst kv) ext x b = Inr b'"
      show "patch_write\<^sup>*\<^sup>* b b'"
      proof (cases "findAttribute ext (fst x)")
        case None
        with step show ?thesis by (simp add: applyPathlessExtKey_def)
      next
        case (Some attr)
        with step have "applyPathlessAttr op (fst kv @ '':'' @ fst x) attr (snd x) b = Inr b'"
          by (simp add: applyPathlessExtKey_def)
        then show ?thesis
          using extension_key_resolves [OF _ _ s core, of "fst x" attr] rt Some attrs same
          by (intro applyPathlessAttr_writes) (auto simp: rtValid_def rt'_def)
      qed
    qed
  qed
qed

lemma addPathless_writes:
  assumes rt: "rtValid (rRT (apRes a))" and app: "addPathless op a = Inr a'"
  shows "patch_write\<^sup>*\<^sup>* a a'"
proof -
  from app obtain obj where loop: "rfold (applyPathlessKey op) (sortedEntries obj) a = Inr a'"
    by (auto simp: addPathless_def split: gval.splits)
  show ?thesis
    by (rule rfold_writes [OF loop]) (auto intro: applyPathlessKey_writes simp: rt)
qed

text \<open>The operations with a path: one write to the path of the attribute or sub-attribute.\<close>

lemma applyOp_writes:
  assumes rt: "rtValid (rRT (apRes a))" and op: "opValid op" and app: "applyOp op a = Inr a'"
  shows "patch_write\<^sup>*\<^sup>* a a'"
proof (cases "opPath op")
  case None
  with app show ?thesis
    using addPathless_writes [OF rt]
    by (auto simp: applyOp_def applyAdd_def applyRemove_def applyReplace_def split: kind.splits)
next
  case (Some p)
  with op have valid: "validPath p" by (simp add: opValid_def)
  from app Some obtain attr sub where target: "resolveOpTarget a op p = Inr (attr, sub)"
    by (auto simp: applyOp_def applyAdd_def applyRemove_def applyReplace_def res_simps split: kind.splits)
  from rt have apart: "urnsApart (rRT (apRes a))" by (simp add: rtValid_def)
  note w = opTarget_writable [OF apart valid target]
  have "oneWrite (attrPathText p) a a' \<or> (valueFilter p = None \<and> sub \<noteq> None \<and> oneWrite (fullPathText p) a a')"
    using app Some target
    by (auto simp: applyOp_def applyAdd_def applyRemove_def applyReplace_def
        split: kind.splits option.splits if_splits intro: one_write)
  then show ?thesis
  proof
    assume "oneWrite (attrPathText p) a a'"
    then show ?thesis by (rule oneWrite_writes) (rule w(1))
  next
    assume "valueFilter p = None \<and> sub \<noteq> None \<and> oneWrite (fullPathText p) a a'"
    then show ?thesis using oneWrite_writes w(2) by auto
  qed
qed

lemma Apply_writes:
  assumes rt: "rtValid (rRT r)" and ops: "list_all opValid ops" and app: "Apply r ops p = Inr (r', c)"
  shows "\<exists>a'. patch_write\<^sup>*\<^sup>* \<lparr>apRes = r, apProfile = p, apChanged = False\<rparr> a' \<and>
    apRes a' = r' \<and> apChanged a' = c"
proof -
  from app obtain a' where loop: "rfold applyOp ops \<lparr>apRes = r, apProfile = p, apChanged = False\<rparr> = Inr a'"
    and "apRes a' = r'" "apChanged a' = c"
    by (auto simp: Apply_def res_simps)
  moreover have "patch_write\<^sup>*\<^sup>* \<lparr>apRes = r, apProfile = p, apChanged = False\<rparr> a'"
    by (rule rfold_writes [OF loop]) (use rt ops in \<open>auto simp: list_all_iff intro: applyOp_writes\<close>)
  ultimately show ?thesis by blast
qed


subsection \<open>What the writes keep\<close>

lemma writes_resourceOk:
  assumes "patch_write\<^sup>*\<^sup>* a a'" and "resourceTypeOk (rRT (apRes a))" and "resourceOk (apRes a)"
  shows "resourceOk (apRes a') \<and> rRT (apRes a') = rRT (apRes a) \<and> rMeta (apRes a') = rMeta (apRes a)"
  using assms
proof (induction rule: rtranclp_induct)
  case (step b c)
  from step.hyps(2) obtain path v where "setTracked path v b = Inr c" by (auto elim: patch_writeE)
  from Set_resourceOk [OF _ _ setTracked_frame(3) [OF this]] step show ?case by simp
qed simp

text \<open>A path of a readOnly attribute is disjoint from every writable path.\<close>

lemma namespaceAttr_fold_cong:
  assumes "foldName u = foldName w" and "foldName m = foldName n"
  shows "namespaceAttr rt u m = namespaceAttr rt w n"
proof -
  have "u = [] \<longleftrightarrow> w = []" using assms(1) by auto
  with extensionSchema_fold_cong [OF assms(1), of rt] findAttribute_fold_cong [OF assms(2)]
  show ?thesis by (simp add: namespaceAttr_def split: option.splits)
qed

lemma readOnly_disjoint:
  assumes w: "resolvePath rt path = Inr rp" "rpAttr rp = Some a" "mutabilityOf a \<noteq> MutabilityReadOnly"
    and q: "resolvePath rt path' = Inr rq" "rpAttr rq = Some b" "mutabilityOf b = MutabilityReadOnly"
  shows "disjointPaths rp rq"
proof (rule ccontr)
  assume "\<not> disjointPaths rp rq"
  then have fold: "foldName (rpUrn rp) = foldName (rpUrn rq)" "foldName (attrName a) = foldName (attrName b)"
    using w(2) q(2) by (auto simp: disjointPaths_def)
  have "namespaceAttr rt (rpUrn rp) (attrName a) = (Some a, rpCommon rp)"
    "namespaceAttr rt (rpUrn rq) (attrName b) = (Some b, rpCommon rq)"
    using resolvePath_resolvedOk [OF w(1)] resolvePath_resolvedOk [OF q(1)] w(2) q(2)
    by (simp_all add: resolvedOk_def)
  with namespaceAttr_fold_cong [OF fold, of rt] have "a = b" by simp
  with w(3) q(3) show False by simp
qed

lemma writes_readOnly:
  assumes writes: "patch_write\<^sup>*\<^sup>* a a'" and ok: "resourceTypeOk (rRT (apRes a))"
    and q: "resolvePath (rRT (apRes a)) path = Inr rq" "rpAttr rq = Some b" "storedPath rq"
    and ro: "mutabilityOf b = MutabilityReadOnly"
  shows "Get (apRes a') path = Get (apRes a) path"
  using writes
proof (induction rule: rtranclp_induct)
  case (step x y)
  have rt: "rRT (apRes x) = rRT (apRes a)" using patch_writes_frame [OF step.hyps(1)] by simp
  from step.hyps(2) obtain pw v where set: "setTracked pw v x = Inr y"
      and "writable (rRT (apRes x)) pw" by (auto elim: patch_writeE)
  then obtain rp d where rp: "resolvePath (rRT (apRes x)) pw = Inr rp" "rpAttr rp = Some d"
      and d: "mutabilityOf d \<noteq> MutabilityReadOnly"
    by (auto simp: writable_def split: sum.splits option.splits)
  have "disjointPaths rp rq"
    using readOnly_disjoint [of "rRT (apRes a)" pw rp d path rq b] rp d q ro rt by simp
  with Set_frame [of "apRes x" pw v "apRes y" rp d path rq b] setTracked_frame(3) [OF set]
    rp q ok rt step.IH show ?case by simp
qed simp

end
