(* ===== verification/Scim_Codec.thy ===== *)
theory Scim_Codec
  imports Scim_Resource
begin

text \<open>
  \<open>scim/codec.go\<close>: decoding of a resource body and projection and encoding of a resource.

  The bytes of a body are not parsed: a body is the tree \<open>json.Decoder\<close> with \<open>UseNumber\<close>
  yields, a \<open>gval\<close> of objects, lists, strings, numbers, booleans and null, and
  \<open>EncodeResource\<close> returns the ordered fields it hands to \<open>marshalOrdered\<close>, each value being
  the Go value \<open>json.Marshal\<close> is called with.
\<close>

subsection \<open>Decoding\<close>

definition decodeAttr ::
    "bool \<Rightarrow> attribute list \<Rightarrow> string \<Rightarrow> gval \<Rightarrow> cval \<Rightarrow> (scim_error, cval) res" where
  "decodeAttr dropReadOnly attrs key v container =
     (case findAttribute attrs key of
        None \<Rightarrow> Inr container
      | Some a \<Rightarrow>
          if dropReadOnly \<and> mutabilityOf a = MutabilityReadOnly then Inr container
          else rbind (coerceOr400 a v) (\<lambda>cv.
                 Inr (if cv = VNil then container
                      else aput (foldName (attrName a)) cv container)))"

definition decodeExtension :: "bool \<Rightarrow> string \<Rightarrow> gval \<Rightarrow> resource \<Rightarrow> (scim_error, resource) res" where
  "decodeExtension dropReadOnly key v r =
     (case extensionSchema (rRT r) key of
        None \<Rightarrow> Inr r
      | Some ext \<Rightarrow>
          if v = VNil then Inr r
          else case v of
            VMap obj \<Rightarrow>
              rbind (rfold (\<lambda>(name, sv). decodeAttr dropReadOnly (schemaAttributes ext) name sv) obj [])
                (\<lambda>container.
                  Inr (if container = [] then r
                       else r\<lparr>rAttrs := aput (foldName (schemaID ext)) (VMap container) (rAttrs r)\<rparr>))
          | _ \<Rightarrow> Inl ErrInvalidSyntax)"

definition metaString :: "gval \<Rightarrow> (scim_error, string) res" where
  "metaString v = (case v of VString s \<Rightarrow> Inr s | _ \<Rightarrow> Inl ErrInvalidValue)"

definition metaTime :: "gval \<Rightarrow> (scim_error, gotime) res" where
  "metaTime v =
     rbind (map_err (\<lambda>_. ErrInvalidValue) (coerceDateTime v)) (\<lambda>cv.
       case cv of VTime t \<Rightarrow> Inr t | _ \<Rightarrow> Inl ErrInvalidValue)"

definition decodeMetaField :: "string \<Rightarrow> gval \<Rightarrow> meta_info \<Rightarrow> (scim_error, meta_info) res" where
  "decodeMetaField folded v m =
     (if folded = ''resourcetype'' then rbind (metaString v) (\<lambda>s. Inr (m\<lparr>mResourceType := s\<rparr>))
      else if folded = ''created'' then rbind (metaTime v) (\<lambda>t. Inr (m\<lparr>mCreated := t\<rparr>))
      else if folded = ''lastmodified'' then rbind (metaTime v) (\<lambda>t. Inr (m\<lparr>mLastModified := t\<rparr>))
      else if folded = ''location'' then rbind (metaString v) (\<lambda>s. Inr (m\<lparr>mLocation := s\<rparr>))
      else if folded = ''version'' then rbind (metaString v) (\<lambda>s. Inr (m\<lparr>mVersion := s\<rparr>))
      else Inr m)"

definition decodeMeta :: "gval \<Rightarrow> resource \<Rightarrow> (scim_error, resource) res" where
  "decodeMeta v r =
     (case v of
        VMap obj \<Rightarrow>
          rbind (rfold (\<lambda>(key, sv) m.
                   if sv = VNil then Inr m else decodeMetaField (foldName key) sv m) obj zeroMeta)
            (\<lambda>m. Inr (SetMeta m r))
      | _ \<Rightarrow> Inl ErrInvalidSyntax)"

definition decodeTopLevel :: "bool \<Rightarrow> string \<times> gval \<Rightarrow> resource \<Rightarrow> (scim_error, resource) res" where
  "decodeTopLevel dropReadOnly kv r =
     (let key = fst kv; v = snd kv; folded = foldName key in
      if folded = attrSchemas then Inr r
      else if folded = attrMeta then
        (if dropReadOnly \<or> v = VNil then Inr r else decodeMeta v r)
      else if folded = ''id'' \<or> folded = ''externalid'' then
        rbind (decodeAttr dropReadOnly commonAttributes folded v (rAttrs r))
          (\<lambda>m. Inr (r\<lparr>rAttrs := m\<rparr>))
      else if prefix urnPrefix folded then decodeExtension dropReadOnly key v r
      else
        rbind (decodeAttr dropReadOnly (schemaAttributes (rtSchema (rRT r))) key v (rAttrs r))
          (\<lambda>m. Inr (r\<lparr>rAttrs := m\<rparr>)))"

text \<open>A body that is not an object does not parse; \<open>null\<close> leaves the Go map nil.\<close>

definition DecodeResource :: "resource_type \<Rightarrow> bool \<Rightarrow> gval \<Rightarrow> (scim_error, resource) res" where
  "DecodeResource rt dropReadOnly body =
     (case body of
        VMap raw \<Rightarrow> rfold (decodeTopLevel dropReadOnly) raw (NewResource rt)
      | VNil \<Rightarrow> Inr (NewResource rt)
      | _ \<Rightarrow> Inl ErrInvalidSyntax)"

subsection \<open>Projection\<close>

record projection =
  prAttributes :: "string list"
  prExcluded :: "string list"

record attr_selection =
  selInclude :: bool
  selOnly :: "string list option"
  selDrop :: "string list option"

text \<open>
  An index maps the key of an attribute to its folded sub-attributes, \<open>None\<close> standing for
  the whole attribute (a nil set). An index that is itself nil is \<open>None\<close>.
\<close>

type_synonym path_index = "(string \<times> string list option) list"

record projector =
  pjRT :: resource_type
  pjAttributes :: "path_index option"
  pjExcluded :: "path_index option"

definition projKey :: "string \<Rightarrow> attribute \<Rightarrow> string" where
  "projKey urn a = foldName urn @ ''|'' @ foldName (attrName a)"

definition indexExtension :: "resource_type \<Rightarrow> string \<Rightarrow> path_index \<Rightarrow> path_index" where
  "indexExtension rt urn out =
     (case extensionSchema rt urn of
        None \<Rightarrow> out
      | Some ext \<Rightarrow> foldl (\<lambda>m a. aput (projKey urn a) None m) out (schemaAttributes ext))"

definition indexStep :: "resource_type \<Rightarrow> path_index \<Rightarrow> string \<Rightarrow> path_index" where
  "indexStep rt out path =
     (case resolvePath rt path of
        Inl _ \<Rightarrow> out
      | Inr rp \<Rightarrow>
          (case rpAttr rp of
             None \<Rightarrow> indexExtension rt (rpUrn rp) out
           | Some a \<Rightarrow>
               let key = projKey (rpUrn rp) a in
               (case rpSub rp of
                  None \<Rightarrow> aput key None out
                | Some sub \<Rightarrow>
                    (case aget out key of
                       Some None \<Rightarrow> out
                     | Some (Some subs) \<Rightarrow> aput key (Some (foldName (attrName sub) # subs)) out
                     | None \<Rightarrow> aput key (Some [foldName (attrName sub)]) out))))"

definition indexPaths :: "resource_type \<Rightarrow> string list \<Rightarrow> path_index option" where
  "indexPaths rt paths =
     (if paths = [] then None else Some (foldl (indexStep rt) [] paths))"

definition newProjector :: "resource_type \<Rightarrow> projection \<Rightarrow> projector" where
  "newProjector rt p =
     \<lparr>pjRT = rt, pjAttributes = indexPaths rt (prAttributes p),
      pjExcluded = indexPaths rt (prExcluded p)\<rparr>"

abbreviation dropped :: attr_selection where
  "dropped \<equiv> \<lparr>selInclude = False, selOnly = None, selDrop = None\<rparr>"

abbreviation kept :: attr_selection where
  "kept \<equiv> \<lparr>selInclude = True, selOnly = None, selDrop = None\<rparr>"

definition selection :: "projector \<Rightarrow> string \<Rightarrow> attribute \<Rightarrow> attr_selection" where
  "selection pr urn a =
     (if returnedOf a = ReturnedNever then dropped
      else if returnedOf a = ReturnedAlways then kept
      else
        let key = projKey urn a in
        case pjAttributes pr of
          Some idx \<Rightarrow>
            (case aget idx key of
               None \<Rightarrow> dropped
             | Some subs \<Rightarrow> \<lparr>selInclude = True, selOnly = subs, selDrop = None\<rparr>)
        | None \<Rightarrow>
            if returnedOf a = ReturnedRequest then dropped
            else (case Option.bind (pjExcluded pr) (\<lambda>idx. aget idx key) of
                    Some None \<Rightarrow> dropped
                  | Some (Some subs) \<Rightarrow> \<lparr>selInclude = True, selOnly = None, selDrop = Some subs\<rparr>
                  | None \<Rightarrow> kept))"

definition keepSub :: "attr_selection \<Rightarrow> string \<Rightarrow> bool" where
  "keepSub s folded =
     (case selOnly s of
        Some only \<Rightarrow> folded \<in> set only
      | None \<Rightarrow> (case selDrop s of Some d \<Rightarrow> folded \<notin> set d | None \<Rightarrow> True))"

subsection \<open>Encoding\<close>

text \<open>The wire form of a value that is not complex.\<close>

definition encodeLeaf :: "gval \<Rightarrow> gval" where
  "encodeLeaf v =
     (case v of
        VTime t \<Rightarrow> VString (formatRFC3339Nano t)
      | VTimes ts \<Rightarrow> VStrings (map formatRFC3339Nano ts)
      | VBytes b \<Rightarrow> VString (base64Encode b)
      | VBytess bs \<Rightarrow> VStrings (map base64Encode bs)
      | _ \<Rightarrow> v)"

text \<open>
  \<open>encodeComplex\<close> emits the assigned sub-attributes in declaration order (the code fills a
  Go map, which \<open>json.Marshal\<close> sorts); the empty object is the code's nil. A sub-attribute
  is never complex in a resource, so its value is encoded by \<open>encodeLeaf\<close>.
\<close>

definition subField :: "cval \<Rightarrow> attr_selection \<Rightarrow> attribute \<Rightarrow> (string \<times> gval) option" where
  "subField cv sel sub =
     (if returnedOf sub = ReturnedNever \<or> \<not> keepSub sel (foldName (attrName sub)) then None
      else map_option (\<lambda>v. (attrName sub, encodeLeaf v)) (aget cv (foldName (attrName sub))))"

definition encodeComplex :: "attribute \<Rightarrow> cval \<Rightarrow> attr_selection \<Rightarrow> gval" where
  "encodeComplex a cv sel =
     (let obj = List.map_filter (subField cv sel) (subAttributes a) in
      if obj = [] then VNil else VMap obj)"

definition encodeValue :: "attribute \<Rightarrow> gval \<Rightarrow> attr_selection \<Rightarrow> gval" where
  "encodeValue a v sel =
     (case v of
        VComplex cv \<Rightarrow> encodeComplex a cv sel
      | VMulti cvs \<Rightarrow>
          (let out = filter (\<lambda>e. e \<noteq> VNil) (map (\<lambda>cv. encodeComplex a cv sel) cvs) in
           if out = [] then VNil else VList out)
      | _ \<Rightarrow> encodeLeaf v)"

type_synonym json_fields = "(string \<times> gval) list"

definition commonField :: "projector \<Rightarrow> resource \<Rightarrow> string \<Rightarrow> (string \<times> gval) option" where
  "commonField pr r name =
     Option.bind (findAttribute commonAttributes name) (\<lambda>a.
       let sel = selection pr [] a in
       if \<not> selInclude sel then None
       else map_option (\<lambda>v. (attrName a, encodeValue a v sel)) (aget (rAttrs r) (foldName name)))"

definition appendCommonFields :: "json_fields \<Rightarrow> resource \<Rightarrow> projector \<Rightarrow> json_fields" where
  "appendCommonFields fs r pr =
     fs @ List.map_filter (commonField pr r) [''id'', ''externalId'']"

definition schemaField ::
    "cval \<Rightarrow> string \<Rightarrow> projector \<Rightarrow> attribute \<Rightarrow> (string \<times> gval) option" where
  "schemaField container urn pr a =
     (let sel = selection pr urn a in
      if \<not> selInclude sel then None
      else case aget container (foldName (attrName a)) of
        None \<Rightarrow> None
      | Some v \<Rightarrow>
          let ev = encodeValue a v sel in
          if ev = VNil then None else Some (attrName a, ev))"

definition appendSchemaFields ::
    "json_fields \<Rightarrow> cval \<Rightarrow> string \<Rightarrow> attribute list \<Rightarrow> projector \<Rightarrow> json_fields" where
  "appendSchemaFields fs container urn attrs pr =
     fs @ List.map_filter (schemaField container urn pr) attrs"

definition extensionField :: "resource \<Rightarrow> projector \<Rightarrow> schema_extension \<Rightarrow> (string \<times> gval) option" where
  "extensionField r pr x =
     (let ext = extSchema x in
      case extContainer (rAttrs r) (schemaID ext) of
        None \<Rightarrow> None
      | Some container \<Rightarrow>
          let extFields = appendSchemaFields [] container (schemaID ext) (schemaAttributes ext) pr in
          if extFields = [] then None else Some (schemaID ext, VMap extFields))"

definition appendExtensionFields :: "json_fields \<Rightarrow> resource \<Rightarrow> projector \<Rightarrow> json_fields" where
  "appendExtensionFields fs r pr =
     fs @ List.map_filter (extensionField r pr) (rtExtensions (rRT r))"

definition encodeMeta :: "cval \<Rightarrow> projector \<Rightarrow> gval" where
  "encodeMeta cv pr =
     (if cv = [] then VNil
      else case findAttribute commonAttributes attrMeta of
        None \<Rightarrow> VNil
      | Some a \<Rightarrow>
          let sel = selection pr [] a in
          if \<not> selInclude sel then VNil else encodeComplex a cv sel)"

text \<open>\<open>json.Marshal\<close> fails on a number that is not finite, and on nothing else here.\<close>

definition jsonFloat :: "float64 \<Rightarrow> bool" where
  "jsonFloat f = (case f of Finite _ \<Rightarrow> True | _ \<Rightarrow> False)"

fun jsonOk :: "gval \<Rightarrow> bool" where
  "jsonOk (VFloat64 f) = jsonFloat f"
| "jsonOk (VFloat64s fs) = list_all jsonFloat fs"
| "jsonOk (VMap m) = list_all (\<lambda>kv. jsonOk (snd kv)) m"
| "jsonOk (VList xs) = list_all jsonOk xs"
| "jsonOk _ = True"

definition marshalOrdered :: "json_fields \<Rightarrow> (go_error, json_fields) res" where
  "marshalOrdered fs = (if list_all (\<lambda>f. jsonOk (snd f)) fs then Inr fs else Inl OtherErr)"

definition encodeFields :: "resource \<Rightarrow> projection \<Rightarrow> json_fields" where
  "encodeFields r p =
     (let pr = newProjector (rRT r) p;
          fs1 = [(attrSchemas, VStrings (Schemas r))];
          fs2 = appendCommonFields fs1 r pr;
          fs3 = appendSchemaFields fs2 (rAttrs r) [] (schemaAttributes (rtSchema (rRT r))) pr;
          fs4 = appendExtensionFields fs3 r pr;
          mv = encodeMeta (metaValue (rMeta r)) pr
      in if mv = VNil then fs4 else fs4 @ [(attrMeta, mv)])"

definition EncodeResource :: "resource \<Rightarrow> projection \<Rightarrow> (go_error, json_fields) res" where
  "EncodeResource r p = marshalOrdered (encodeFields r p)"

subsection \<open>Decoding keeps the invariant\<close>

lemma decodeAttr_ok:
  assumes "decodeAttr d attrs key v m = Inr m'"
  shows "m' = m \<or> (\<exists>a w. findAttribute attrs key = Some a \<and> storedValue a w \<and>
    m' = aput (foldName (attrName a)) w m \<and> (d \<longrightarrow> mutabilityOf a \<noteq> MutabilityReadOnly))"
proof (cases "m' = m")
  case False
  with assms obtain a cv where "findAttribute attrs key = Some a"
      "coerceValue a v = Inr cv" "cv \<noteq> VNil" "m' = aput (foldName (attrName a)) cv m"
      "d \<longrightarrow> mutabilityOf a \<noteq> MutabilityReadOnly"
    by (auto simp: decodeAttr_def res_simps split: option.splits if_splits)
  then show ?thesis using coerceValue_stored by blast
qed simp

lemma decodeAttr_containerOk:
  assumes "decodeAttr d attrs key v m = Inr m'" and "containerOk attrs m"
  shows "containerOk attrs m'"
  using decodeAttr_ok [OF assms(1)] assms(2)
  by (auto intro!: containerOk_aput containerEntryI dest: findAttribute_own)

lemma decodeAttr_core:
  assumes ok: "resourceTypeOk rt" and m: "distinct_keys m" "list_all (resourceEntry rt) m"
    and sub: "\<And>a. findAttribute attrs key = Some a \<Longrightarrow>
      findAttribute (coreAttrs rt) (attrName a) = Some a"
    and dec: "decodeAttr d attrs key v m = Inr m'"
  shows "distinct_keys m' \<and> list_all (resourceEntry rt) m'"
proof -
  have "resourceEntry rt (foldName (attrName a), w)"
    if "findAttribute attrs key = Some a" "storedValue a w" for a w
    using core_not_extension [OF ok sub [OF that(1)]] sub [OF that(1)] that(2)
    by (simp add: resourceEntry_def containerEntry_def)
  with decodeAttr_ok [OF dec] m resourceOk_aput [OF m] show ?thesis by blast
qed

text \<open>No core attribute takes the name of a common attribute, as RFC 7643 reserves them.\<close>

definition commonReserved :: "resource_type \<Rightarrow> bool" where
  "commonReserved rt \<longleftrightarrow>
     set (foldedNames (schemaAttributes (rtSchema rt))) \<inter> set (foldedNames commonAttributes) = {}"

lemma findAttribute_append:
  "findAttribute (xs @ ys) n =
     (case findAttribute xs n of None \<Rightarrow> findAttribute ys n | Some b \<Rightarrow> Some b)"
  by (induction xs) (auto simp: findAttribute_def)

lemma commonAttribute_core:
  assumes "commonReserved rt" and "folded = ''id'' \<or> folded = ''externalid''"
    and a: "findAttribute commonAttributes folded = Some a"
  shows "findAttribute (coreAttrs rt) (attrName a) = Some a"
proof -
  have own: "findAttribute commonAttributes (attrName a) = Some a"
    and fold: "foldName (attrName a) = foldName folded"
    using findAttribute_own [OF a] findAttribute_SomeD [OF a] by auto
  have "foldName (attrName a) \<in> set (foldedNames commonAttributes)"
    using findAttribute_SomeD [OF a] by (force simp: foldedNames_def)
  with assms(1) have "findAttribute (schemaAttributes (rtSchema rt)) (attrName a) = None"
    by (auto simp: findAttribute_None_iff commonReserved_def)
  moreover have "findAttribute storedCommon (attrName a) = Some a"
    using own fold assms(2)
    by (auto simp: storedCommon_def findAttribute_def equalFold_def commonAttributes_def
        attrSchemas_def attrMeta_def split: if_splits)
  ultimately show ?thesis by (simp add: coreAttrs_def findAttribute_append)
qed

lemma schemaAttribute_core:
  "findAttribute (schemaAttributes (rtSchema rt)) key = Some a \<Longrightarrow>
     findAttribute (coreAttrs rt) (attrName a) = Some a"
  by (auto simp: coreAttrs_def findAttribute_append dest: findAttribute_own)

lemma decodeExtension_ok:
  assumes r: "resourceOk r" and dec: "decodeExtension d key v r = Inr r'"
  shows "resourceOk r' \<and> rRT r' = rRT r"
proof (cases "r' = r")
  case False
  with dec obtain ext obj c where s: "extensionSchema (rRT r) key = Some ext"
      and loop: "rfold (\<lambda>(name, sv). decodeAttr d (schemaAttributes ext) name sv) obj [] = Inr c"
      and c: "c \<noteq> []"
      and r': "r' = r\<lparr>rAttrs := aput (foldName (schemaID ext)) (VMap c) (rAttrs r)\<rparr>"
    by (auto simp: decodeExtension_def res_simps split: option.splits gval.splits if_splits)
  have "containerOk (schemaAttributes ext) c"
    by (rule rfold_invariant [OF loop])
      (auto simp: containerOk_def [of _ "[]"] intro: decodeAttr_containerOk)
  moreover have "extensionSchema (rRT r) (schemaID ext) = Some ext"
    using s extensionSchema_SomeD [OF s] extensionSchema_fold_cong [of "schemaID ext" key "rRT r"] by simp
  ultimately show ?thesis
    using commitExtension_ok [of "rAttrs r" "rRT r" "schemaID ext" ext c] r r' c
    by (simp add: resourceOk_def commitExtension_def)
qed (use r in simp)

lemma decodeMeta_ok: "decodeMeta v r = Inr r' \<Longrightarrow> rAttrs r' = rAttrs r \<and> rRT r' = rRT r"
  by (auto simp: decodeMeta_def res_simps SetMeta_def split: gval.splits)

lemma decodeTopLevel_ok:
  assumes ok: "resourceTypeOk (rRT r)" "commonReserved (rRT r)" and r: "resourceOk r"
    and dec: "decodeTopLevel d kv r = Inr r'"
  shows "resourceOk r' \<and> rRT r' = rRT r"
proof -
  from r have m: "distinct_keys (rAttrs r)" "list_all (resourceEntry (rRT r)) (rAttrs r)"
    by (auto simp: resourceOk_def)
  define folded where "folded = foldName (fst kv)"
  have "r' = r \<or> decodeMeta (snd kv) r = Inr r' \<or> decodeExtension d (fst kv) (snd kv) r = Inr r' \<or>
      (\<exists>m'. (folded = ''id'' \<or> folded = ''externalid'') \<and>
        decodeAttr d commonAttributes folded (snd kv) (rAttrs r) = Inr m' \<and> r' = r\<lparr>rAttrs := m'\<rparr>) \<or>
      (\<exists>m'. decodeAttr d (schemaAttributes (rtSchema (rRT r))) (fst kv) (snd kv) (rAttrs r) = Inr m' \<and>
        r' = r\<lparr>rAttrs := m'\<rparr>)"
    using dec unfolding decodeTopLevel_def Let_def folded_def [symmetric] if_eq_iff rbind_eq_Inr sum.inject
    by blast
  then consider (same) "r' = r" | (meta) "decodeMeta (snd kv) r = Inr r'"
    | (ext) "decodeExtension d (fst kv) (snd kv) r = Inr r'"
    | (common) m' where "folded = ''id'' \<or> folded = ''externalid''"
        "decodeAttr d commonAttributes folded (snd kv) (rAttrs r) = Inr m'" "r' = r\<lparr>rAttrs := m'\<rparr>"
    | (core) m' where "decodeAttr d (schemaAttributes (rtSchema (rRT r))) (fst kv) (snd kv) (rAttrs r) = Inr m'"
        "r' = r\<lparr>rAttrs := m'\<rparr>"
    by blast
  then show ?thesis
  proof cases
    case same
    with r show ?thesis by simp
  next
    case meta
    with decodeMeta_ok [OF meta] r show ?thesis by (simp add: resourceOk_def)
  next
    case ext
    then show ?thesis by (rule decodeExtension_ok [OF r])
  next
    case common
    from decodeAttr_core [OF ok(1) m commonAttribute_core [OF ok(2) common(1)] common(2)] common(3)
    show ?thesis by (simp add: resourceOk_def)
  next
    case core
    from decodeAttr_core [OF ok(1) m schemaAttribute_core core(1)] core(2)
    show ?thesis by (simp add: resourceOk_def)
  qed
qed

lemma DecodeResource_ok:
  assumes ok: "resourceTypeOk rt" "commonReserved rt" and dec: "DecodeResource rt d body = Inr r"
  shows "resourceOk r \<and> rRT r = rt"
proof (cases body)
  case (VMap raw)
  with dec have loop: "rfold (decodeTopLevel d) raw (NewResource rt) = Inr r"
    by (simp add: DecodeResource_def)
  have "(\<lambda>r. resourceOk r \<and> rRT r = rt) r"
    by (rule rfold_invariant [OF loop])
      (use ok in \<open>auto simp: NewResource_def resourceOk_def [of "\<lparr>rRT = rt, rAttrs = [], rMeta = zeroMeta\<rparr>"]
        dest: decodeTopLevel_ok\<close>)
  then show ?thesis .
qed (use dec in \<open>auto simp: DecodeResource_def NewResource_def resourceOk_def\<close>)


subsection \<open>What projection selects\<close>

text \<open>Whether a projection path names an attribute key, and whether it names all of it.\<close>

definition selects :: "resource_type \<Rightarrow> string \<Rightarrow> string \<Rightarrow> bool" where
  "selects rt key path \<longleftrightarrow>
     (case resolvePath rt path of
        Inl _ \<Rightarrow> False
      | Inr rp \<Rightarrow>
          (case rpAttr rp of
             Some a \<Rightarrow> projKey (rpUrn rp) a = key
           | None \<Rightarrow>
               (case extensionSchema rt (rpUrn rp) of
                  None \<Rightarrow> False
                | Some s \<Rightarrow> key \<in> projKey (rpUrn rp) ` set (schemaAttributes s))))"

definition selectsWhole :: "resource_type \<Rightarrow> string \<Rightarrow> string \<Rightarrow> bool" where
  "selectsWhole rt key path \<longleftrightarrow>
     selects rt key path \<and>
     (case resolvePath rt path of Inl _ \<Rightarrow> False | Inr rp \<Rightarrow> rpSub rp = None)"

lemma indexExtension_get:
  "aget (indexExtension rt urn out) key =
     (case extensionSchema rt urn of
        Some s \<Rightarrow> if key \<in> projKey urn ` set (schemaAttributes s) then Some None else aget out key
      | None \<Rightarrow> aget out key)"
proof -
  have "aget (foldl (\<lambda>m a. aput (projKey urn a) None m) out as) key =
      (if key \<in> projKey urn ` set as then Some None else aget out key)" for as
    by (induction as arbitrary: out) auto
  then show ?thesis by (simp add: indexExtension_def split: option.splits)
qed

lemma indexStep_get:
  "aget (indexStep rt out path) key \<noteq> None \<longleftrightarrow> aget out key \<noteq> None \<or> selects rt key path"
  "aget (indexStep rt out path) key = Some None \<longleftrightarrow>
     aget out key = Some None \<or> selectsWhole rt key path"
proof -
  show "aget (indexStep rt out path) key \<noteq> None \<longleftrightarrow> aget out key \<noteq> None \<or> selects rt key path"
    by (auto simp: indexStep_def selects_def indexExtension_get Let_def
        split: sum.splits option.splits)
  show "aget (indexStep rt out path) key = Some None \<longleftrightarrow>
      aget out key = Some None \<or> selectsWhole rt key path"
  proof (cases "resolvePath rt path")
    case (Inr rp)
    show ?thesis
    proof (cases "rpAttr rp")
      case None
      then have "rpSub rp = None"
        using resolvePath_resolvedOk [OF Inr] by (simp add: resolvedOk_def)
      with Inr None show ?thesis
        by (auto simp: indexStep_def selectsWhole_def selects_def indexExtension_get split: option.splits)
    next
      case (Some a)
      with Inr show ?thesis
        by (auto simp: indexStep_def selectsWhole_def selects_def Let_def split: option.splits)
    qed
  qed (simp add: indexStep_def selectsWhole_def)
qed

lemma indexPaths_get:
  assumes "indexPaths rt paths = Some idx"
  shows "aget idx key \<noteq> None \<longleftrightarrow> (\<exists>p \<in> set paths. selects rt key p)"
    and "aget idx key = Some None \<longleftrightarrow> (\<exists>p \<in> set paths. selectsWhole rt key p)"
proof -
  have loop: "(aget (foldl (indexStep rt) out ps) key \<noteq> None \<longleftrightarrow>
      aget out key \<noteq> None \<or> (\<exists>p \<in> set ps. selects rt key p)) \<and>
    (aget (foldl (indexStep rt) out ps) key = Some None \<longleftrightarrow>
      aget out key = Some None \<or> (\<exists>p \<in> set ps. selectsWhole rt key p))" for out ps
  proof (induction ps arbitrary: out)
    case (Cons q ps)
    then show ?case by (simp only: foldl_Cons indexStep_get set_simps ball_simps bex_simps) blast
  qed simp
  from assms have idx: "idx = foldl (indexStep rt) [] paths"
    by (auto simp: indexPaths_def split: if_splits)
  show "aget idx key \<noteq> None \<longleftrightarrow> (\<exists>p \<in> set paths. selects rt key p)"
    using loop [of "[]" paths] by (simp add: idx)
  show "aget idx key = Some None \<longleftrightarrow> (\<exists>p \<in> set paths. selectsWhole rt key p)"
    using loop [of "[]" paths] by (simp add: idx)
qed

text \<open>The rules of RFC 7644 section 3.4.2.5 for one attribute.\<close>

definition projectionRule :: "resource_type \<Rightarrow> projection \<Rightarrow> string \<Rightarrow> attribute \<Rightarrow> bool" where
  "projectionRule rt p urn a \<longleftrightarrow>
     (if returnedOf a = ReturnedNever then False
      else if returnedOf a = ReturnedAlways then True
      else if prAttributes p \<noteq> [] then \<exists>q \<in> set (prAttributes p). selects rt (projKey urn a) q
      else returnedOf a \<noteq> ReturnedRequest \<and>
           \<not> (\<exists>q \<in> set (prExcluded p). selectsWhole rt (projKey urn a) q))"

lemma selection_rule:
  "selInclude (selection (newProjector rt p) urn a) \<longleftrightarrow> projectionRule rt p urn a"
proof (cases "prAttributes p = []")
  case True
  show ?thesis
  proof (cases "indexPaths rt (prExcluded p)")
    case None
    with True show ?thesis
      by (auto simp: selection_def newProjector_def projectionRule_def indexPaths_def Let_def
          split: if_splits)
  next
    case (Some idx)
    from indexPaths_get(2) [OF Some, of "projKey urn a"] True Some show ?thesis
      by (auto simp: selection_def newProjector_def projectionRule_def indexPaths_def [of _ "[]"]
          Let_def split: option.splits)
  qed
next
  case False
  then obtain idx where idx: "indexPaths rt (prAttributes p) = Some idx"
    by (auto simp: indexPaths_def)
  from indexPaths_get(1) [OF this, of "projKey urn a"] False idx show ?thesis
    by (auto simp: selection_def newProjector_def projectionRule_def Let_def split: option.splits)
qed

lemma map_filter_set: "y \<in> set (List.map_filter f xs) \<longleftrightarrow> (\<exists>x \<in> set xs. f x = Some y)"
  by (force simp: List.map_filter_def)

text \<open>Which fields of a schema namespace are emitted: those the rule selects, that are
  assigned, and of which something survives the sub-attribute lists.\<close>

lemma schemaFields_emitted:
  assumes "distinct (foldedNames attrs)" and "a \<in> set attrs"
  shows "attrName a \<in> fst ` set (appendSchemaFields [] c urn attrs (newProjector rt p)) \<longleftrightarrow>
    projectionRule rt p urn a \<and>
    (\<exists>v. aget c (foldName (attrName a)) = Some v \<and>
       encodeValue a v (selection (newProjector rt p) urn a) \<noteq> VNil)"
proof -
  have same: "b = a" if "b \<in> set attrs" "attrName b = attrName a" for b
    using that assms findAttribute_in by (metis option.inject)
  have named: "attrName b = n" if "schemaField c urn (newProjector rt p) b = Some (n, w)" for b n w
    using that by (auto simp: schemaField_def Let_def split: option.splits if_splits)
  have "attrName a \<in> fst ` set (appendSchemaFields [] c urn attrs (newProjector rt p)) \<longleftrightarrow>
      (\<exists>b \<in> set attrs. \<exists>w. schemaField c urn (newProjector rt p) b = Some (attrName a, w))"
    by (force simp: appendSchemaFields_def map_filter_set)
  also have "\<dots> \<longleftrightarrow> (\<exists>w. schemaField c urn (newProjector rt p) a = Some (attrName a, w))"
    using assms(2) same named by blast
  finally show ?thesis
    by (auto simp: schemaField_def Let_def selection_rule split: option.splits)
qed


subsection \<open>DropReadOnly\<close>

text \<open>No readOnly attribute of the list is assigned in the container.\<close>

definition readOnlyFree :: "attribute list \<Rightarrow> cval \<Rightarrow> bool" where
  "readOnlyFree attrs m \<longleftrightarrow>
     (\<forall>n a. findAttribute attrs n = Some a \<longrightarrow> mutabilityOf a = MutabilityReadOnly \<longrightarrow>
        aget m (foldName n) = None)"

definition resourceReadOnlyFree :: "resource \<Rightarrow> bool" where
  "resourceReadOnlyFree r \<longleftrightarrow>
     rMeta r = zeroMeta \<and> readOnlyFree (coreAttrs (rRT r)) (rAttrs r) \<and>
     (\<forall>urn s c. extensionSchema (rRT r) urn = Some s \<longrightarrow> extContainer (rAttrs r) urn = Some c \<longrightarrow>
        readOnlyFree (schemaAttributes s) c)"

lemma readOnlyFree_aput:
  assumes "readOnlyFree attrs m" and "findAttribute attrs (attrName a) = Some a"
    and "mutabilityOf a \<noteq> MutabilityReadOnly"
  shows "readOnlyFree attrs (aput (foldName (attrName a)) w m)"
  unfolding readOnlyFree_def
proof (intro allI impI)
  fix n b
  assume b: "findAttribute attrs n = Some b" "mutabilityOf b = MutabilityReadOnly"
  have "foldName n \<noteq> foldName (attrName a)"
    using findAttribute_fold_cong [of n "attrName a" attrs] b assms(2,3) by auto
  with assms(1) b show "aget (aput (foldName (attrName a)) w m) (foldName n) = None"
    by (simp add: readOnlyFree_def)
qed

lemma decodeAttr_readOnlyFree:
  assumes "decodeAttr True attrs key v m = Inr m'" and "readOnlyFree attrs' m"
    and "\<And>a. findAttribute attrs key = Some a \<Longrightarrow> findAttribute attrs' (attrName a) = Some a"
  shows "readOnlyFree attrs' m'"
  using decodeAttr_ok [OF assms(1)] assms(2,3) readOnlyFree_aput [of attrs' m] by auto

lemma decodeAttr_top_readOnlyFree:
  assumes ok: "resourceTypeOk (rRT r)" and free: "resourceReadOnlyFree r"
    and dec: "decodeAttr True attrs key v (rAttrs r) = Inr m'"
    and core: "\<And>a. findAttribute attrs key = Some a \<Longrightarrow>
      findAttribute (coreAttrs (rRT r)) (attrName a) = Some a"
  shows "resourceReadOnlyFree (r\<lparr>rAttrs := m'\<rparr>)"
proof -
  have "readOnlyFree (coreAttrs (rRT r)) m'"
    using decodeAttr_readOnlyFree [OF dec _ core] free by (auto simp: resourceReadOnlyFree_def)
  moreover have "extContainer m' urn = extContainer (rAttrs r) urn"
    if s: "extensionSchema (rRT r) urn = Some s" for urn s
  proof -
    have "aget m' (foldName urn) = aget (rAttrs r) (foldName urn)"
    proof (cases "m' = rAttrs r")
      case False
      with decodeAttr_ok [OF dec] obtain a w where a: "findAttribute attrs key = Some a"
          and m': "m' = aput (foldName (attrName a)) w (rAttrs r)" by auto
      have "foldName urn \<noteq> foldName (attrName a)"
        using core_not_extension [OF ok core [OF a]] s
          extensionSchema_fold_cong [of "foldName (attrName a)" urn "rRT r"] by auto
      then show ?thesis by (simp add: m')
    qed simp
    then show ?thesis by (simp add: extContainer_def)
  qed
  ultimately show ?thesis using free by (simp add: resourceReadOnlyFree_def)
qed

lemma decodeExtension_readOnlyFree:
  assumes ok: "resourceTypeOk (rRT r)" and free: "resourceReadOnlyFree r"
    and dec: "decodeExtension True key v r = Inr r'"
  shows "resourceReadOnlyFree r'"
proof (cases "r' = r")
  case False
  with dec obtain ext obj c where s: "extensionSchema (rRT r) key = Some ext"
      and loop: "rfold (\<lambda>(name, sv). decodeAttr True (schemaAttributes ext) name sv) obj [] = Inr c"
      and r': "r' = r\<lparr>rAttrs := aput (foldName (schemaID ext)) (VMap c) (rAttrs r)\<rparr>"
    by (auto simp: decodeExtension_def res_simps split: option.splits gval.splits if_splits)
  have c: "readOnlyFree (schemaAttributes ext) c"
  proof (rule rfold_invariant [OF loop])
    show "readOnlyFree (schemaAttributes ext) []" by (simp add: readOnlyFree_def)
    show "readOnlyFree (schemaAttributes ext) m'"
      if "readOnlyFree (schemaAttributes ext) m"
        "(\<lambda>(name, sv). decodeAttr True (schemaAttributes ext) name sv) kv m = Inr m'" for kv m m'
      using that findAttribute_own
      by (cases kv) (auto intro: decodeAttr_readOnlyFree)
  qed
  have fold: "foldName (schemaID ext) = foldName key" using extensionSchema_SomeD [OF s] by simp
  have "foldName n \<noteq> foldName (schemaID ext)" if "findAttribute (coreAttrs (rRT r)) n = Some a" for n a
    using core_not_extension [OF ok that] s fold extensionSchema_fold_cong [of "foldName n" key "rRT r"]
    by auto
  then have "readOnlyFree (coreAttrs (rRT r)) (aput (foldName (schemaID ext)) (VMap c) (rAttrs r))"
    using free by (auto simp: readOnlyFree_def resourceReadOnlyFree_def)
  moreover have "readOnlyFree (schemaAttributes t) d"
    if "extensionSchema (rRT r) urn = Some t"
      "extContainer (aput (foldName (schemaID ext)) (VMap c) (rAttrs r)) urn = Some d" for urn t d
  proof (cases "foldName urn = foldName key")
    case True
    with that s fold extensionSchema_fold_cong [OF True, of "rRT r"] c show ?thesis
      by (simp add: extContainer_def)
  next
    case False
    with that free fold show ?thesis by (auto simp: resourceReadOnlyFree_def extContainer_def)
  qed
  ultimately show ?thesis using free by (auto simp: resourceReadOnlyFree_def r')
qed (use free in simp)

lemma decodeTopLevel_readOnlyFree:
  assumes ok: "resourceTypeOk (rRT r)" "commonReserved (rRT r)" and free: "resourceReadOnlyFree r"
    and dec: "decodeTopLevel True kv r = Inr r'"
  shows "resourceReadOnlyFree r' \<and> rRT r' = rRT r"
proof -
  define folded where "folded = foldName (fst kv)"
  have common: "resourceReadOnlyFree (r\<lparr>rAttrs := m'\<rparr>)"
    if "folded = ''id'' \<or> folded = ''externalid''"
      "decodeAttr True commonAttributes folded (snd kv) (rAttrs r) = Inr m'" for m'
    by (rule decodeAttr_top_readOnlyFree [OF ok(1) free that(2)])
      (rule commonAttribute_core [OF ok(2) that(1)])
  have "r' = r \<or> decodeExtension True (fst kv) (snd kv) r = Inr r' \<or>
      (\<exists>m'. (folded = ''id'' \<or> folded = ''externalid'') \<and>
        decodeAttr True commonAttributes folded (snd kv) (rAttrs r) = Inr m' \<and> r' = r\<lparr>rAttrs := m'\<rparr>) \<or>
      (\<exists>m'. decodeAttr True (schemaAttributes (rtSchema (rRT r))) (fst kv) (snd kv) (rAttrs r) = Inr m' \<and>
        r' = r\<lparr>rAttrs := m'\<rparr>)"
    using dec unfolding decodeTopLevel_def Let_def folded_def [symmetric] if_eq_iff rbind_eq_Inr sum.inject
    by blast
  then show ?thesis
  proof (elim disjE exE conjE)
    assume ext: "decodeExtension True (fst kv) (snd kv) r = Inr r'"
    have "rRT r' = rRT r"
      using ext by (auto simp: decodeExtension_def res_simps split: option.splits gval.splits if_splits)
    with decodeExtension_readOnlyFree [OF ok(1) free ext] show ?thesis by simp
  next
    fix m' assume "folded = ''id''" "decodeAttr True commonAttributes folded (snd kv) (rAttrs r) = Inr m'"
      "r' = r\<lparr>rAttrs := m'\<rparr>"
    then show ?thesis using common by auto
  next
    fix m' assume "folded = ''externalid''" "decodeAttr True commonAttributes folded (snd kv) (rAttrs r) = Inr m'"
      "r' = r\<lparr>rAttrs := m'\<rparr>"
    then show ?thesis using common by auto
  next
    fix m' assume "decodeAttr True (schemaAttributes (rtSchema (rRT r))) (fst kv) (snd kv) (rAttrs r) = Inr m'"
      "r' = r\<lparr>rAttrs := m'\<rparr>"
    then show ?thesis
      using decodeAttr_top_readOnlyFree [OF ok(1) free _ schemaAttribute_core] by auto
  qed (use free in auto)
qed

lemma DecodeResource_readOnlyFree:
  assumes ok: "resourceTypeOk rt" "commonReserved rt" and dec: "DecodeResource rt True body = Inr r"
  shows "resourceReadOnlyFree r \<and> rRT r = rt"
proof -
  have new: "resourceReadOnlyFree (NewResource rt)"
    by (simp add: NewResource_def resourceReadOnlyFree_def readOnlyFree_def extContainer_def)
  show ?thesis
  proof (cases body)
    case (VMap raw)
    with dec have loop: "rfold (decodeTopLevel True) raw (NewResource rt) = Inr r"
      by (simp add: DecodeResource_def)
    have "(\<lambda>r. resourceReadOnlyFree r \<and> rRT r = rt) r"
      by (rule rfold_invariant [OF loop])
        (use ok new in \<open>auto simp: NewResource_def dest: decodeTopLevel_readOnlyFree\<close>)
    then show ?thesis .
  qed (use dec new in \<open>auto simp: DecodeResource_def\<close>, simp_all add: NewResource_def)
qed

lemma readOnlyFree_Get:
  assumes free: "resourceReadOnlyFree r" and rp: "resolvePath (rRT r) path = Inr rp"
    and b: "rpAttr rp = Some b" "mutabilityOf b = MutabilityReadOnly"
  shows "Get r path = None"
proof -
  have rpok: "resolvedOk (rRT r) rp" using rp by (rule resolvePath_resolvedOk)
  then have ns: "namespaceAttr (rRT r) (rpUrn rp) (attrName b) = (Some b, rpCommon rp)"
    using b(1) by (simp add: resolvedOk_def)
  have core: "aget (rAttrs r) (foldName (attrName b)) = None"
    if "rpUrn rp = []" "rpCommon rp \<longrightarrow> foldName (attrName b) \<notin> {attrSchemas, attrMeta}"
    using namespace_core [of "rRT r" "attrName b" b "rpCommon rp"] ns that free b(2)
    by (auto simp: resourceReadOnlyFree_def readOnlyFree_def)
  show ?thesis
  proof (cases "rpCommon rp")
    case True
    then have urn: "rpUrn rp = []" and common: "b \<in> set commonAttributes"
      using ns findAttribute_SomeD
      by (auto simp: namespaceAttr_def split: if_splits option.splits)
    have "foldName (attrName b) \<noteq> attrSchemas"
      using common b(2) by (auto simp: commonAttributes_def attrSchemas_def)
    moreover have "metaValue (rMeta r) = []"
      using free by (simp add: resourceReadOnlyFree_def zeroMeta_def metaValue_def timeIsZero_def zeroTime_def)
    ultimately show ?thesis
      using True core [OF urn] rp b(1)
      by (auto simp: Get_def getResolved_def getCommon_def Let_def)
  next
    case False
    show ?thesis
    proof (cases "rpUrn rp = []")
      case True
      with core [OF True] False rp b(1) show ?thesis
        by (simp add: Get_def getResolved_def containerGet_def)
    next
      case urn: False
      with rpok obtain s where s: "extensionSchema (rRT r) (rpUrn rp) = Some s" by (auto simp: resolvedOk_def)
      with ns urn have "findAttribute (schemaAttributes s) (attrName b) = Some b"
        by (auto simp: namespaceAttr_def)
      with s free b(2) have "containerGet c b (rpSub rp) = None"
        if "extContainer (rAttrs r) (rpUrn rp) = Some c" for c
        using that by (auto simp: resourceReadOnlyFree_def readOnlyFree_def containerGet_def)
      with False urn rp b(1) show ?thesis
        by (auto simp: Get_def getResolved_def split: option.splits)
    qed
  qed
qed

end
