(* ===== verification/Samples.thy ===== *)
theory Samples
  imports Patch_Safety Scim_Codec
begin

text \<open>
  A small resource type and a few of its resources, for the instances at which theorems with
  hypotheses are applied. The type has every kind of attribute the engines treat apart:
  readOnly, immutable, returned never and on request, multi-valued, complex, and an
  extension.
\<close>

definition plainAttr :: "string \<Rightarrow> attr_type \<Rightarrow> bool \<Rightarrow> mutability \<Rightarrow> returned \<Rightarrow> attribute" where
  "plainAttr n t mv m r = Attribute n t [] mv [] False [] False m r UniquenessNone []"

definition complexAttr :: "string \<Rightarrow> bool \<Rightarrow> attribute list \<Rightarrow> attribute" where
  "complexAttr n mv subs =
     Attribute n TypeComplex subs mv [] False [] False MutabilityReadWrite ReturnedDefault UniquenessNone []"

definition deviceAttrs :: "attribute list" where
  "deviceAttrs =
     [plainAttr ''name'' TypeString False MutabilityReadWrite ReturnedDefault,
      plainAttr ''active'' TypeBoolean False MutabilityReadWrite ReturnedDefault,
      plainAttr ''serial'' TypeString False MutabilityImmutable ReturnedDefault,
      plainAttr ''state'' TypeString False MutabilityReadOnly ReturnedDefault,
      plainAttr ''secret'' TypeString False MutabilityWriteOnly ReturnedNever,
      plainAttr ''load'' TypeDecimal False MutabilityReadWrite ReturnedDefault,
      plainAttr ''tags'' TypeString True MutabilityReadWrite ReturnedRequest,
      plainAttr ''slots'' TypeInteger True MutabilityReadWrite ReturnedDefault,
      complexAttr ''owner'' False
        [plainAttr ''value'' TypeString False MutabilityReadWrite ReturnedDefault,
         plainAttr ''label'' TypeString False MutabilityReadOnly ReturnedDefault],
      complexAttr ''ports'' True
        [plainAttr ''value'' TypeString False MutabilityReadWrite ReturnedDefault,
         plainAttr ''type'' TypeString False MutabilityReadWrite ReturnedDefault,
         plainAttr ''primary'' TypeBoolean False MutabilityReadWrite ReturnedDefault]]"

definition deviceURN :: string where "deviceURN = ''urn:x:Device''"
definition costURN :: string where "costURN = ''urn:x:Cost''"

definition deviceType :: resource_type where
  "deviceType =
     \<lparr>rtName = ''Device'', rtDescription = [], rtEndpoint = ''/Devices'',
      rtSchema = \<lparr>schemaID = deviceURN, schemaName = ''Device'', schemaDescription = [],
        schemaAttributes = deviceAttrs\<rparr>,
      rtExtensions =
        [\<lparr>extSchema = \<lparr>schemaID = costURN, schemaName = ''Cost'', schemaDescription = [],
            schemaAttributes = [plainAttr ''center'' TypeString False MutabilityReadWrite ReturnedDefault]\<rparr>,
          extRequired = False\<rparr>]\<rparr>"

lemmas sample_defs =
  plainAttr_def complexAttr_def deviceAttrs_def deviceURN_def costURN_def deviceType_def

definition deviceBody :: gval where
  "deviceBody =
     VMap [(''NAME'', VString ''d1''), (''active'', VBool True), (''serial'', VString ''s''),
       (''tags'', VList [VString ''a'']),
       (''ports'', VList
         [VMap [(''value'', VString ''p1''), (''type'', VString ''in''), (''primary'', VBool True)],
          VMap [(''value'', VString ''p2''), (''type'', VString ''out'')]]),
       (''urn:x:cost'', VMap [(''center'', VString ''c'')])]"

definition device :: resource where
  "device =
     (case DecodeResource deviceType False deviceBody of
        Inr r \<Rightarrow> r | Inl _ \<Rightarrow> NewResource deviceType)"

lemma deviceType_ok:
  "resourceTypeOk deviceType" "commonReserved deviceType" "rtValid deviceType"
  by code_simp+

lemma device_decoded: "DecodeResource deviceType False deviceBody = Inr device"
  by code_simp

end
