(* ===== verification/Scim_Properties.thy ===== *)
theory Scim_Properties
  imports Samples
begin

text \<open>
  The properties of the data model: schemas, coercion, paths, the resource container and the
  codec, each with an instance on the sample resource type.
\<close>

subsection \<open>Schemas\<close>

text \<open>\<open>ParseSchema\<close> accepts a schema document exactly when it has an id, every attribute
  (sub-attributes included) is well formed after the defaults are filled in, and no two
  attribute names fold alike; what it returns is the document with its defaults, and parsing
  that again changes nothing.\<close>

theorem ParseSchema_spec:
  "(ParseSchema j = Inr s \<longleftrightarrow>
      s = schemaWithDefaults j \<and> schemaID s \<noteq> [] \<and> list_all attrOk (schemaAttributes s) \<and>
      distinct (foldedNames (schemaAttributes s))) \<and>
   (ParseSchema (schemaWithDefaults j) = ParseSchema j)"
  by (auto simp: ParseSchema_ok schemaValidate_ok) (simp_all add: ParseSchema_def)

subsection \<open>Coercion\<close>

text \<open>A value that is coerced without error is unassigned or in the stored form of its
  attribute: the Go type of the attribute's SCIM type, slices not empty, complex values keyed
  by folded declared names with leaf values only, at most one primary element.\<close>

theorem coerce_total_form:
  assumes "coerceValue a v = Inr w"
  shows "w = VNil \<or> storedValue a w"
  using assms by (rule coerceValue_stored)

theorem coerce_total_form_witness:
  "coerceValue (deviceAttrs ! 8) (VMap [(''VALUE'', VString ''x''), (''zz'', VNil)]) =
     Inr (VComplex [(''value'', VString ''x'')]) \<and>
   storedValue (deviceAttrs ! 8) (VComplex [(''value'', VString ''x'')])"
proof -
  have *: "coerceValue (deviceAttrs ! 8) (VMap [(''VALUE'', VString ''x''), (''zz'', VNil)]) =
     Inr (VComplex [(''value'', VString ''x'')])" by code_simp
  from coerce_total_form [OF this] * show ?thesis by simp
qed

text \<open>Coercion is idempotent: what is stored is coerced to itself, for every attribute
  whose stored form (and that of its sub-attributes) is not one of the typed slices.\<close>

theorem coerce_idempotent:
  assumes "coerceValue a v = Inr w" and "w \<noteq> VNil"
    and "rereadable a" and "list_all rereadable (subAttributes a)"
  shows "coerceValue a w = Inr w"
  using coerceValue_stored [OF assms(1)] assms(2-4) by (auto intro: coerceValue_stored_id)

theorem coerce_idempotent_witness:
  "coerceValue (deviceAttrs ! 9) (VMulti [[(''value'', VString ''p'')]]) =
     Inr (VMulti [[(''value'', VString ''p'')]])"
proof (rule coerce_idempotent [of _ "VList [VMap [(''Value'', VString ''p'')]]"])
  show "coerceValue (deviceAttrs ! 9) (VList [VMap [(''Value'', VString ''p'')]]) =
      Inr (VMulti [[(''value'', VString ''p'')]])" by code_simp
  show "rereadable (deviceAttrs ! 9)" by code_simp
  show "list_all rereadable (subAttributes (deviceAttrs ! 9))" by code_simp
qed simp

text \<open>The stored form of a multi-valued attribute that is neither a string nor complex
  does not coerce: \<open>multiItems\<close> knows none of the typed slices \<open>coerceSlice\<close> builds, so a
  value read with \<open>Get\<close> cannot be written back with \<open>Set\<close>.\<close>

lemma typed_slice_rejected:
  assumes "multiValued a" and "attrType a \<notin> {TypeString, TypeComplex}" and "storedValue a w"
  shows "coerceValue a w = Inl TypeMismatch"
  using assms
  by (auto simp: storedValue_def stored_defs coerceValue_def coerceValueWith_def coerceMultiWith_def
      multiItems_def split: gval.splits)

lemma typed_slice_rejected_witness:
  "coerceValue (deviceAttrs ! 7) (VInt64s [1, 2]) = Inl TypeMismatch"
  by (rule typed_slice_rejected) code_simp+

subsection \<open>Paths\<close>

text \<open>Path resolution ignores letter case, and resolves to attributes the resource type
  declares: two paths with the same fold resolve alike, and a resolved path names an attribute
  of its namespace and, only below a single-valued complex attribute, one of its
  sub-attributes.\<close>

theorem resolvePath_sound:
  "resolvePath rt (foldName path) = resolvePath rt path \<and>
   (case resolvePath rt path of Inl e \<Rightarrow> e = ErrInvalidPath | Inr rp \<Rightarrow> resolvedOk rt rp)"
proof -
  have "e = ErrInvalidPath" if "resolvePath rt path = Inl e" for e
    using that
    by (auto simp: resolvePath_def resolveAttrExpr_def Let_def split: prod.splits if_splits option.splits)
  then show ?thesis
    using resolvePath_foldName resolvePath_resolvedOk by (auto split: sum.splits)
qed

subsection \<open>The resource container\<close>

text \<open>C13. \<open>Set\<close> keeps the invariant of the container on every path and value it accepts:
  keys are folded declared names or declared extension URNs, values are in stored form,
  nothing empty is stored; resource type and metadata stay.\<close>

theorem Set_keeps_invariant:
  assumes "resourceTypeOk (rRT r)" and "resourceOk r" and "Set r path v = Inr r'"
  shows "resourceOk r' \<and> rRT r' = rRT r \<and> rMeta r' = rMeta r"
  using assms by (rule Set_resourceOk)

theorem Set_keeps_invariant_witness:
  "\<exists>r'. Set device ''owner.value'' (VString ''o'') = Inr r' \<and> resourceOk r' \<and>
     Get r' ''OWNER'' = Some (VComplex [(''value'', VString ''o'')])"
proof -
  define r' where "r' = (case Set device ''owner.value'' (VString ''o'') of Inr r \<Rightarrow> r | Inl _ \<Rightarrow> device)"
  have set: "Set device ''owner.value'' (VString ''o'') = Inr r'" unfolding r'_def by code_simp
  have "resourceTypeOk (rRT device)" "resourceOk device" by code_simp+
  from Set_keeps_invariant [OF this set] have "resourceOk r'" by simp
  moreover have "Get r' ''OWNER'' = Some (VComplex [(''value'', VString ''o'')])"
    unfolding r'_def by code_simp
  ultimately show ?thesis using set by blast
qed

text \<open>C4. Reading after writing: \<open>Get\<close> of the written path returns the coerced value, or
  nothing when the value canonicalises to unassigned; every stored path that shares no
  position with it reads as before.\<close>

theorem Get_after_Set:
  assumes "resourceTypeOk (rRT r)" and "Set r path v = Inr r'"
    and "resolvePath (rRT r) path = Inr rp" and "rpAttr rp = Some a"
  shows "(\<exists>cv. coerceValue (targetAttr a (rpSub rp)) v = Inr cv \<and>
      Get r' path = (if cv = VNil then None else Some cv)) \<and>
    (\<forall>path' rq b. resolvePath (rRT r) path' = Inr rq \<longrightarrow> rpAttr rq = Some b \<longrightarrow> storedPath rq \<longrightarrow>
       disjointPaths rp rq \<longrightarrow> Get r' path' = Get r path')"
  using Get_Set [OF assms] Set_frame [OF assms] by (auto simp: assigned_def)

theorem Get_after_Set_witness:
  "\<exists>r'. Set device ''urn:x:Cost:center'' (VString ''k'') = Inr r' \<and>
     Get r' ''urn:x:Cost:center'' = Some (VString ''k'') \<and> Get r' ''name'' = Get device ''name''"
proof -
  define r' where "r' = (case Set device ''urn:x:Cost:center'' (VString ''k'') of Inr r \<Rightarrow> r | Inl _ \<Rightarrow> device)"
  have set: "Set device ''urn:x:Cost:center'' (VString ''k'') = Inr r'" unfolding r'_def by code_simp
  have ok: "resourceTypeOk (rRT device)" by code_simp
  have p: "resolvePath (rRT device) ''urn:x:Cost:center'' = Inr \<lparr>rpUrn = costURN,
      rpAttr = Some (plainAttr ''center'' TypeString False MutabilityReadWrite ReturnedDefault),
      rpSub = None, rpCommon = False\<rparr>" by code_simp
  have q: "resolvePath (rRT device) ''name'' = Inr \<lparr>rpUrn = [],
      rpAttr = Some (deviceAttrs ! 0), rpSub = None, rpCommon = False\<rparr>" by code_simp
  from Get_after_Set [OF ok set p] q
  have "Get r' ''name'' = Get device ''name''"
    by (simp add: disjointPaths_def storedPath_def costURN_def)
  moreover have "Get r' ''urn:x:Cost:center'' = Some (VString ''k'')" unfolding r'_def by code_simp
  ultimately show ?thesis using set by blast
qed

text \<open>The derived \<open>schemas\<close> list names the core schema and exactly the extensions that
  hold data.\<close>

theorem Schemas_derived:
  assumes "resourceOk r"
  shows "u \<in> set (Schemas r) \<longleftrightarrow>
    u = schemaID (rtSchema (rRT r)) \<or>
    (\<exists>x \<in> set (rtExtensions (rRT r)). u = schemaID (extSchema x) \<and>
       (\<exists>c. extContainer (rAttrs r) u = Some c \<and> c \<noteq> []))"
proof -
  have "(\<exists>c. extContainer (rAttrs r) (schemaID (extSchema x)) = Some c \<and> c \<noteq> []) \<longleftrightarrow>
      aget (rAttrs r) (foldName (schemaID (extSchema x))) \<noteq> None"
    if x: "x \<in> set (rtExtensions (rRT r))" for x
  proof
    assume "aget (rAttrs r) (foldName (schemaID (extSchema x))) \<noteq> None"
    then obtain v where v: "aget (rAttrs r) (foldName (schemaID (extSchema x))) = Some v" by blast
    obtain s where "extensionSchema (rRT r) (schemaID (extSchema x)) = Some s"
      using extension_declared [of "schemaID (extSchema x)" "rRT r"] x by auto
    then have "extensionSchema (rRT r) (foldName (schemaID (extSchema x))) = Some s"
      using extensionSchema_fold_cong [of "foldName (schemaID (extSchema x))" "schemaID (extSchema x)" "rRT r"]
      by simp
    moreover have "resourceEntry (rRT r) (foldName (schemaID (extSchema x)), v)"
      using aget_in_set [OF v] assms by (auto simp: resourceOk_def list_all_iff)
    ultimately show "\<exists>c. extContainer (rAttrs r) (schemaID (extSchema x)) = Some c \<and> c \<noteq> []"
      using v by (auto simp: resourceEntry_def extContainer_def split: gval.splits)
  qed (auto simp: extContainer_def split: option.splits)
  then show ?thesis by (auto simp: Schemas_def)
qed

theorem Schemas_derived_witness: "costURN \<in> set (Schemas device)"
proof -
  have "resourceOk device" by code_simp
  note s = Schemas_derived [OF this, of costURN]
  have "extContainer (rAttrs device) costURN = Some [(''center'', VString ''c'')]" by code_simp
  moreover have "\<exists>x \<in> set (rtExtensions (rRT device)). costURN = schemaID (extSchema x)" by code_simp
  ultimately show ?thesis using s by auto
qed


subsection \<open>The codec\<close>

text \<open>C5. A decoded body satisfies the invariant of the container, whatever the body, and
  with \<open>DropReadOnly\<close> no readOnly attribute of the body survives: every path of one reads
  as unassigned, \<open>meta\<close> included.\<close>

theorem DecodeResource_sound:
  assumes "resourceTypeOk rt" and "commonReserved rt" and "DecodeResource rt d body = Inr r"
  shows "resourceOk r \<and> rRT r = rt \<and>
    (d \<longrightarrow> (\<forall>path rp b. resolvePath rt path = Inr rp \<longrightarrow> rpAttr rp = Some b \<longrightarrow>
       mutabilityOf b = MutabilityReadOnly \<longrightarrow> Get r path = None))"
proof (intro conjI impI allI)
  from DecodeResource_ok [OF assms] show "resourceOk r" and rt: "rRT r = rt" by auto
  fix path rp b
  assume d and "resolvePath rt path = Inr rp" "rpAttr rp = Some b"
    "mutabilityOf b = MutabilityReadOnly"
  moreover from \<open>d\<close> have "resourceReadOnlyFree r"
    using DecodeResource_readOnlyFree [OF assms(1,2)] assms(3) by simp
  ultimately show "Get r path = None" using readOnlyFree_Get rt by blast
qed

theorem DecodeResource_sound_witness:
  "\<exists>r. DecodeResource deviceType True
        (VMap [(''id'', VString ''1''), (''STATE'', VString ''on''), (''name'', VString ''n'')]) = Inr r \<and>
      resourceOk r \<and> Get r ''id'' = None \<and> Get r ''state'' = None \<and> Get r ''name'' = Some (VString ''n'')"
proof -
  define body where "body = VMap [(''id'', VString ''1''), (''STATE'', VString ''on''), (''name'', VString ''n'')]"
  define r where "r = (case DecodeResource deviceType True body of Inr r \<Rightarrow> r | Inl _ \<Rightarrow> device)"
  have dec: "DecodeResource deviceType True body = Inr r" unfolding r_def body_def by code_simp
  note sound = DecodeResource_sound [OF deviceType_ok(1,2) dec]
  have st: "resolvePath deviceType ''state'' = Inr \<lparr>rpUrn = [],
      rpAttr = Some (deviceAttrs ! 3), rpSub = None, rpCommon = False\<rparr>" by code_simp
  have id: "resolvePath deviceType ''id'' = Inr \<lparr>rpUrn = [],
      rpAttr = Some (commonAttributes ! 0), rpSub = None, rpCommon = True\<rparr>" by code_simp
  have "mutabilityOf (deviceAttrs ! 3) = MutabilityReadOnly"
    "mutabilityOf (commonAttributes ! 0) = MutabilityReadOnly" by code_simp+
  with sound st id have "resourceOk r" "Get r ''id'' = None" "Get r ''state'' = None" by auto
  moreover have "Get r ''name'' = Some (VString ''n'')" unfolding r_def body_def by code_simp
  ultimately show ?thesis using dec unfolding body_def by blast
qed



end
