(* ===== verification/Filter_RoundTrip.thy ===== *)
theory Filter_RoundTrip
  imports Filter_Parser
begin

text \<open>
  Rendering and parsing: a filter the strict parser accepts is rendered to a text that parses
  to the same expression. The first half shows that the rendering of a well-formed expression
  scans and parses back; the second that the strict parser returns only such expressions.
\<close>

subsection \<open>Words and numbers\<close>

text \<open>The texts that scan to one token.\<close>

definition wordOk :: "string \<Rightarrow> bool" where
  "wordOk w \<longleftrightarrow> nextToken w = Some (TokWord w, [])"

definition numberOk :: "string \<Rightarrow> bool" where
  "numberOk n \<longleftrightarrow> nextToken n = Some (TokNumber n, [])"

text \<open>What may follow a token of more than one byte.\<close>

definition delim :: "string \<Rightarrow> bool" where
  "delim t \<longleftrightarrow> (case t of [] \<Rightarrow> True | c # _ \<Rightarrow> c \<in> {CHR '' '', CHR '')'', CHR ''['', CHR '']''})"

lemma delim_stops:
  assumes "delim t"
  shows "takeWhile isWordChar t = []" "dropWhile isWordChar t = t"
    and "takeWhile isNumChar t = []" "dropWhile isNumChar t = t"
  using assms
  by (auto simp: delim_def isWordChar_def isNumChar_def isLetter_def isDigit_def less_eq_char_def
      split: list.splits)

lemma wordChar_not_blank: "isWordChar c \<Longrightarrow> c \<noteq> CHR '' '' \<and> c \<noteq> CHR 0x09"
  by (auto simp: isWordChar_def isLetter_def isDigit_def less_eq_char_def)

lemma numChar_not_blank: "isNumChar c \<Longrightarrow> c \<noteq> CHR '' '' \<and> c \<noteq> CHR 0x09"
  by (auto simp: isNumChar_def isDigit_def less_eq_char_def)

lemma skipBlank_id: "c \<noteq> CHR '' '' \<Longrightarrow> c \<noteq> CHR 0x09 \<Longrightarrow> skipBlank (c # s) = c # s"
  by (simp add: skipBlank_def)

text \<open>The first byte of a word and of a number.\<close>

definition wordStart :: "char \<Rightarrow> bool" where
  "wordStart c \<longleftrightarrow>
     isWordChar c \<and> punctKind c = None \<and> c \<noteq> CHR 0x22 \<and> c \<noteq> CHR ''-'' \<and> \<not> isDigit c"

lemma punctKind_kinds: "punctKind c = Some k \<Longrightarrow> k \<in> {TokLParen, TokRParen, TokLBracket, TokRBracket}"
  by (auto simp: punctKind_def split: if_splits)

lemma scanString_kind: "scanString s = Some (k, r) \<Longrightarrow> \<exists>d. k = TokString d"
  by (auto simp: scanString_def split: option.splits)

lemma byte_cases:
  assumes "punctKind c \<noteq> None \<Longrightarrow> P" and "punctKind c = None \<Longrightarrow> c = CHR 0x22 \<Longrightarrow> P"
    and "punctKind c = None \<Longrightarrow> c \<noteq> CHR 0x22 \<Longrightarrow> c = CHR ''-'' \<or> isDigit c \<Longrightarrow> P"
    and "punctKind c = None \<Longrightarrow> c \<noteq> CHR 0x22 \<Longrightarrow> \<not> (c = CHR ''-'' \<or> isDigit c) \<Longrightarrow> P"
  shows P
  using assms by blast

lemma nextToken_TokWord:
  "nextToken s = Some (TokWord w, r) \<longleftrightarrow>
     (\<exists>c t. skipBlank s = c # t \<and> wordStart c \<and> w = takeWhile isWordChar (c # t) \<and>
        r = dropWhile isWordChar (c # t))"
proof (cases "skipBlank s")
  case (Cons c t)
  show ?thesis
  proof (rule byte_cases [of c])
    assume "punctKind c \<noteq> None"
    then obtain k where k: "punctKind c = Some k" by blast
    then have "nextToken s = Some (k, t)" using Cons by (simp add: nextToken_def)
    then show ?thesis using punctKind_kinds [OF k] k Cons by (auto simp: wordStart_def)
  next
    assume "punctKind c = None" "c = CHR 0x22"
    then show ?thesis using Cons scanString_kind by (fastforce simp: nextToken_def wordStart_def)
  next
    assume "punctKind c = None" "c \<noteq> CHR 0x22" "c = CHR ''-'' \<or> isDigit c"
    then show ?thesis using Cons by (auto simp: nextToken_def wordStart_def scanNumber_def Let_def)
  next
    assume "punctKind c = None" "c \<noteq> CHR 0x22" "\<not> (c = CHR ''-'' \<or> isDigit c)"
    then show ?thesis using Cons by (auto simp: nextToken_def wordStart_def)
  qed
qed (simp add: nextToken_def)

lemma nextToken_TokNumber:
  "nextToken s = Some (TokNumber n, r) \<longleftrightarrow>
     (\<exists>c t. skipBlank s = c # t \<and> punctKind c = None \<and> c \<noteq> CHR 0x22 \<and> (c = CHR ''-'' \<or> isDigit c) \<and>
        n = takeWhile isNumChar (c # t) \<and> isValidNumber n \<and> r = dropWhile isNumChar (c # t))"
proof (cases "skipBlank s")
  case (Cons c t)
  show ?thesis
  proof (rule byte_cases [of c])
    assume "punctKind c \<noteq> None"
    then obtain k where k: "punctKind c = Some k" by blast
    then have "nextToken s = Some (k, t)" using Cons by (simp add: nextToken_def)
    then show ?thesis using punctKind_kinds [OF k] k Cons by (auto)
  next
    assume "punctKind c = None" "c = CHR 0x22"
    then show ?thesis using Cons scanString_kind by (fastforce simp: nextToken_def)
  next
    assume "punctKind c = None" "c \<noteq> CHR 0x22" "c = CHR ''-'' \<or> isDigit c"
    note * = this
    then have "nextToken s = scanNumber (c # t)" using Cons by (simp add: nextToken_def)
    then show ?thesis
      using * Cons by (auto simp only: scanNumber_def Let_def split: if_splits)
  next
    assume "punctKind c = None" "c \<noteq> CHR 0x22" "\<not> (c = CHR ''-'' \<or> isDigit c)"
    then show ?thesis using Cons by (auto simp: nextToken_def)
  qed
qed (simp add: nextToken_def)

lemma wordOk_iff: "wordOk w \<longleftrightarrow> w \<noteq> [] \<and> wordStart (hd w) \<and> list_all isWordChar w"
proof
  assume "wordOk w"
  then obtain c t where *: "skipBlank w = c # t" "wordStart c" "w = takeWhile isWordChar (c # t)"
    by (auto simp: wordOk_def nextToken_TokWord)
  then have "isWordChar c" by (simp add: wordStart_def)
  with * show "w \<noteq> [] \<and> wordStart (hd w) \<and> list_all isWordChar w"
    by (auto simp: list_all_iff dest: set_takeWhileD)
next
  assume *: "w \<noteq> [] \<and> wordStart (hd w) \<and> list_all isWordChar w"
  then obtain c t where w: "w = c # t" by (cases w) auto
  with * have "skipBlank w = c # t" using wordChar_not_blank [of c] by (simp add: skipBlank_id)
  moreover have "takeWhile isWordChar w = w" "dropWhile isWordChar w = []"
    using * by (auto simp only: takeWhile_eq_all_conv dropWhile_eq_Nil_conv list_all_iff)
  ultimately show "wordOk w"
    unfolding wordOk_def nextToken_TokWord using * w by (metis list.sel(1))
qed

lemma nextToken_word:
  assumes "wordOk w" and "delim t"
  shows "nextToken (w @ t) = Some (TokWord w, t)"
proof -
  from assms(1) obtain c u where w: "w = c # u" "wordStart c" "list_all isWordChar w"
    by (cases w) (auto simp: wordOk_iff)
  then have "isWordChar c" by simp
  then have "skipBlank (w @ t) = c # (u @ t)"
    using wordChar_not_blank [of c] w(1) by (simp add: skipBlank_id)
  moreover have "takeWhile isWordChar (c # (u @ t)) = w" "dropWhile isWordChar (c # (u @ t)) = t"
    using w delim_stops(1,2) [OF assms(2)]
    by (simp_all add: takeWhile_append2 dropWhile_append2 list_all_iff takeWhile_append dropWhile_append)
  ultimately show ?thesis using w(2) by (auto simp: nextToken_TokWord)
qed

lemma TokWord_wordOk: "nextToken s = Some (TokWord w, r) \<Longrightarrow> wordOk w"
  by (auto simp: nextToken_TokWord wordOk_iff wordStart_def list_all_iff dest: set_takeWhileD)

lemma TokNumber_numberOk:
  assumes "nextToken s = Some (TokNumber n, r)" shows "numberOk n"
proof -
  from assms obtain c t where *: "punctKind c = None" "c \<noteq> CHR 0x22" "c = CHR ''-'' \<or> isDigit c"
      "n = takeWhile isNumChar (c # t)" "isValidNumber n"
    by (auto simp: nextToken_TokNumber)
  then have num: "isNumChar c" by (auto simp: isNumChar_def)
  then have "skipBlank n = n" "n = c # takeWhile isNumChar t"
    using *(4) numChar_not_blank [of c] by (simp_all add: skipBlank_id)
  moreover have "takeWhile isNumChar n = n" "dropWhile isNumChar n = []"
    using *(4) by (simp_all add: takeWhile_eq_all_conv dropWhile_eq_Nil_conv)
      (auto dest: set_takeWhileD)
  ultimately show ?thesis using * unfolding numberOk_def nextToken_TokNumber by metis
qed

lemma nextToken_number:
  assumes "numberOk n" and "delim t"
  shows "nextToken (n @ t) = Some (TokNumber n, t)"
proof -
  from assms(1) obtain c u where *: "skipBlank n = c # u" "punctKind c = None" "c \<noteq> CHR 0x22"
      "c = CHR ''-'' \<or> isDigit c" "n = takeWhile isNumChar (c # u)" "isValidNumber n"
    unfolding numberOk_def nextToken_TokNumber by blast
  then have num: "isNumChar c" by (auto simp: isNumChar_def)
  then obtain u' where n: "n = c # u'" using *(5) by simp
  have all: "\<forall>x \<in> set n. isNumChar x" using *(5) by (auto dest: set_takeWhileD)
  have "skipBlank (n @ t) = c # (u' @ t)"
    using numChar_not_blank [OF num] n by (simp add: skipBlank_id)
  moreover have "takeWhile isNumChar (c # (u' @ t)) = n" "dropWhile isNumChar (c # (u' @ t)) = t"
    using n all delim_stops(3,4) [OF assms(2)]
    by (simp_all add: takeWhile_append dropWhile_append)
  ultimately show ?thesis using * unfolding nextToken_TokNumber by metis
qed


subsection \<open>String literals\<close>

text \<open>
  The three forms a byte is rendered in: itself, a short escape, or a \<open>\u\<close> escape whose four
  hex digits are its code. The claim is checked byte by byte.
\<close>

definition quotesBack :: "char \<Rightarrow> bool" where
  "quotesBack c \<longleftrightarrow>
     (let q = quoteChar c in
      q = [c] \<and> c \<noteq> CHR 0x22 \<and> c \<noteq> CHR 0x5C \<and> \<not> of_char c < (32 :: nat) \<or>
      length q = 2 \<and> q ! 0 = CHR 0x5C \<and> q ! 1 \<noteq> CHR ''u'' \<and> shortEscape (q ! 1) = Some c \<or>
      length q = 6 \<and> q ! 0 = CHR 0x5C \<and> q ! 1 = CHR ''u'' \<and>
        CHR 0x22 \<notin> set (drop 2 q) \<and> CHR 0x5C \<notin> set (drop 2 q) \<and>
        hexVal (q ! 2) = Some 0 \<and> hexVal (q ! 3) = Some 0 \<and>
        hexVal (q ! 4) = Some (of_char c div 16) \<and> hexVal (q ! 5) = Some (of_char c mod 16) \<and>
        of_char c < (128 :: nat))"

lemma of_char_hexDigit: "k < 16 \<Longrightarrow> of_char (hexDigit k) = (if k < 10 then 48 + k else 87 + k)"
  by (simp add: hexDigit_def)
lemma hexVal_hexDigit: "k < 16 \<Longrightarrow> hexVal (hexDigit k) = Some k"
  by (auto simp: hexVal_def isDigit_def less_eq_char_def of_char_hexDigit)
lemma hexDigit_plain: "k < 16 \<Longrightarrow> hexDigit k \<noteq> CHR 0x22 \<and> hexDigit k \<noteq> CHR 0x5C"
proof -
  assume k: "k < 16"
  have "(of_char CHR 0x22 :: nat) = 34" "(of_char CHR 0x5C :: nat) = 92" by simp_all
  with of_char_hexDigit [OF k] show ?thesis by (cases "k < 10") auto
qed
lemma quotesBack_escaped:
  assumes "quoteChar c = [CHR 0x5C, CHR ''u'', CHR ''0'', CHR ''0'',
      hexDigit (of_char c div 16), hexDigit (of_char c mod 16)]" and "of_char c < (128 :: nat)"
  shows "quotesBack c"
proof -
  have k: "of_char c div 16 < (16 :: nat)" "of_char c mod 16 < (16 :: nat)" using assms(2) by auto
  have zero: "hexVal CHR ''0'' = Some 0" by (simp add: hexVal_def isDigit_def less_eq_char_def)
  show ?thesis
    using hexDigit_plain [OF k(1)] hexDigit_plain [OF k(2)] assms
    by (auto simp: quotesBack_def hexVal_hexDigit [OF k(1)] hexVal_hexDigit [OF k(2)] zero)
qed

lemma quotesBack_all: "quotesBack c"
proof (cases "c \<in> {CHR 0x22, CHR 0x5C, CHR 0x08, CHR 0x0C, CHR 0x0A, CHR 0x0D, CHR 0x09}")
  case True
  then show ?thesis by (auto simp: quotesBack_def quoteChar_def shortEscape_def)
next
  case special: False
  show ?thesis
  proof (cases "of_char c < (32 :: nat) \<or> c \<in> {CHR ''<'', CHR ''>'', CHR ''&''}")
    case True
    then have "of_char c < (128 :: nat)" by auto
    moreover from special True have "quoteChar c = [CHR 0x5C, CHR ''u'', CHR ''0'', CHR ''0'',
        hexDigit (of_char c div 16), hexDigit (of_char c mod 16)]"
      by (auto simp: quoteChar_def)
    ultimately show ?thesis by (intro quotesBack_escaped)
  next
    case False
    with special have "quoteChar c = [c]" by (auto simp: quoteChar_def)
    with special False show ?thesis by (simp add: quotesBack_def)
  qed
qed

lemma quoteChar_forms:
  obtains (plain) "quoteChar c = [c]" "c \<noteq> CHR 0x22" "c \<noteq> CHR 0x5C" "\<not> of_char c < (32 :: nat)"
  | (short) d where "quoteChar c = [CHR 0x5C, d]" "d \<noteq> CHR ''u''" "shortEscape d = Some c"
  | (hex) i j k l where "quoteChar c = [CHR 0x5C, CHR ''u'', i, j, k, l]"
      "CHR 0x22 \<notin> set [i, j, k, l]" "CHR 0x5C \<notin> set [i, j, k, l]"
      "hexVal i = Some 0" "hexVal j = Some 0"
      "hexVal k = Some (of_char c div 16)" "hexVal l = Some (of_char c mod 16)"
      "of_char c < (128 :: nat)"
proof -
  define q where "q = quoteChar c"
  have two: "q = [q ! 0, q ! 1]" if "length q = 2"
    using that by (auto simp: numeral_2_eq_2 length_Suc_conv)
  have six: "q = [q ! 0, q ! 1, q ! 2, q ! 3, q ! 4, q ! 5]" if "length q = 6"
    by (rule nth_equalityI) (use that in \<open>auto simp: less_Suc_eq numeral_eq_Suc nth_Cons'\<close>)
  from quotesBack_all [of c] consider
      "q = [c] \<and> c \<noteq> CHR 0x22 \<and> c \<noteq> CHR 0x5C \<and> \<not> of_char c < (32 :: nat)"
    | "length q = 2 \<and> q ! 0 = CHR 0x5C \<and> q ! 1 \<noteq> CHR ''u'' \<and> shortEscape (q ! 1) = Some c"
    | "length q = 6" "q ! 0 = CHR 0x5C \<and> q ! 1 = CHR ''u''"
        "CHR 0x22 \<notin> set (drop 2 q) \<and> CHR 0x5C \<notin> set (drop 2 q)"
        "hexVal (q ! 2) = Some 0 \<and> hexVal (q ! 3) = Some 0 \<and>
        hexVal (q ! 4) = Some (of_char c div 16) \<and> hexVal (q ! 5) = Some (of_char c mod 16) \<and>
        of_char c < (128 :: nat)"
    unfolding quotesBack_def Let_def q_def by blast
  then show thesis
  proof cases
    case 1
    then show thesis by (intro plain) (auto simp: q_def)
  next
    case 2
    with two show thesis by (intro short [of "q ! 1"]) (auto simp: q_def)
  next
    case 3
    define i j k l where "i = q ! 2" and "j = q ! 3" and "k = q ! 4" and "l = q ! 5"
    have q: "q = [CHR 0x5C, CHR ''u'', i, j, k, l]"
      using six [OF 3(1)] 3(2) by (simp add: i_def j_def k_def l_def)
    with 3(3) have "CHR 0x22 \<notin> set [i, j, k, l]" "CHR 0x5C \<notin> set [i, j, k, l]" by simp_all
    with q 3(4) show thesis
      by (intro hex [of i j k l]) (simp_all add: q_def [symmetric] i_def j_def k_def l_def)
  qed
qed

lemma scanBody_quoteChar:
  "scanBody (quoteChar c @ u) = map_option (\<lambda>(b, r). (quoteChar c @ b, r)) (scanBody u)"
  by (cases rule: quoteChar_forms [of c]; cases "scanBody u") auto

lemma scanBody_quoteBody: "scanBody (quoteBody s @ CHR 0x22 # t) = Some (quoteBody s, t)"
  by (induction s rule: quoteBody.induct) (simp_all add: scanBody_quoteChar)

lemma unquote_quoteChar: "unquoteBody (quoteChar c @ u) = map_option (\<lambda>b. c # b) (unquoteBody u)"
proof (cases rule: quoteChar_forms [of c])
  case plain
  then show ?thesis by (simp add: unquoteBody.simps [of "c # w" for w])
next
  case (short d)
  then show ?thesis by (simp add: unquoteBody.simps [of "CHR 0x5C # w" for w])
next
  case (hex i j k l)
  then have "hex4 (i # j # k # l # u) = Some (of_char c, u)" by (simp add: hex4_def)
  moreover have "utf8 (of_char c) = [c]" using hex(8) by (simp add: utf8_def)
  ultimately have "unicodeEscape (i # j # k # l # u) = Some ([c], u)"
    using hex(8) by (simp add: unicodeEscape_def)
  with hex(1) show ?thesis
    by (cases "unquoteBody u") (simp_all add: unquoteBody.simps [of "CHR 0x5C # w" for w])
qed

lemma unquote_unicode:
  assumes "hexVal i = Some m" "hexVal j = Some n" "hexVal k = Some o'" "hexVal l = Some p"
    and "4096 * m + 256 * n + 16 * o' + p < 55296"
  shows "unquoteBody (CHR 0x5C # CHR ''u'' # i # j # k # l # u) =
    map_option (\<lambda>b. utf8 (4096 * m + 256 * n + 16 * o' + p) @ b) (unquoteBody u)"
  using assms
  by (simp add: unquoteBody.simps [of "CHR 0x5C # w" for w] unicodeEscape_def hex4_def)

lemma hexVal_digits:
  "hexVal CHR ''0'' = Some 0" "hexVal CHR ''2'' = Some 2" "hexVal CHR ''8'' = Some 8"
  "hexVal CHR ''9'' = Some 9"
  by (simp_all add: hexVal_def isDigit_def less_eq_char_def)

lemma utf8_separators:
  "utf8 8232 = [CHR 0xE2, CHR 0x80, CHR 0xA8]" "utf8 8233 = [CHR 0xE2, CHR 0x80, CHR 0xA9]"
  by (simp_all add: utf8_def char_of_def bit_0)

lemma unquote_separator:
  "unquoteBody (CHR 0x5C # ''u2028'' @ u) = map_option (\<lambda>b. [CHR 0xE2, CHR 0x80, CHR 0xA8] @ b) (unquoteBody u)"
  "unquoteBody (CHR 0x5C # ''u2029'' @ u) = map_option (\<lambda>b. [CHR 0xE2, CHR 0x80, CHR 0xA9] @ b) (unquoteBody u)"
  using unquote_unicode [OF hexVal_digits(2,1,2,3), of u] unquote_unicode [OF hexVal_digits(2,1,2,4), of u]
  by (simp_all add: utf8_separators)

lemma unquote_quoteBody: "unquoteBody (quoteBody s) = Some s"
proof (induction s rule: quoteBody.induct)
  case 1
  show ?case by (simp add: unquoteBody.simps)
next
  case (2 c s)
  have split: "[CHR 0x80, x] @ drop 2 s = s" if "take 2 s = [CHR 0x80, x]" for x
    using append_take_drop_id [of 2 s] that by simp
  consider (ls) "c = CHR 0xE2 \<and> take 2 s = [CHR 0x80, CHR 0xA8]"
    | (ps) "c = CHR 0xE2 \<and> take 2 s = [CHR 0x80, CHR 0xA9]"
    | (other) "\<not> (c = CHR 0xE2 \<and> take 2 s = [CHR 0x80, CHR 0xA8])"
        "\<not> (c = CHR 0xE2 \<and> take 2 s = [CHR 0x80, CHR 0xA9])" by blast
  then show ?case
  proof cases
    case ls
    then have "quoteBody (c # s) = CHR 0x5C # ''u2028'' @ quoteBody (drop 2 s)" by simp
    with 2(1) ls split [of "CHR 0xA8"] show ?thesis by (simp only: unquote_separator) simp
  next
    case ps
    then have "quoteBody (c # s) = CHR 0x5C # ''u2029'' @ quoteBody (drop 2 s)" by simp
    with 2(2) ps split [of "CHR 0xA9"] show ?thesis by (simp only: unquote_separator) simp
  next
    case other
    then have "quoteBody (c # s) = quoteChar c @ quoteBody s" by auto
    with 2(3) [OF other] show ?thesis by (simp only: unquote_quoteChar) simp
  qed
qed

lemma nextToken_quote: "nextToken (jsonQuote s @ t) = Some (TokString s, t)"
  by (simp add: jsonQuote_def nextToken_def skipBlank_def punctKind_def scanString_def
      scanBody_quoteBody unquote_quoteBody)

subsection \<open>Well-formed expressions\<close>

definition pathOk :: "fpath \<Rightarrow> bool" where
  "pathOk p \<longleftrightarrow>
     valueFilter p = None \<and> wordOk (pathString p) \<and> foldName (pathString p) \<noteq> ''not'' \<and>
     splitAttrPath (pathString p) = Some (pathURN p, pathAttr p, pathSub p)"

definition literalOk :: "literal \<Rightarrow> bool" where
  "literalOk v \<longleftrightarrow> (case v of LNumber n \<Rightarrow> numberOk n | _ \<Rightarrow> True)"

text \<open>\<open>inside\<close>: within a value filter, where no further value filter may stand.\<close>

fun exprOk :: "bool \<Rightarrow> expr \<Rightarrow> bool" where
  "exprOk inside (Compare p o' v) = (pathOk p \<and> comparison o' \<and> literalOk v)"
| "exprOk inside (Present p) = pathOk p"
| "exprOk inside (AndExpr l r) = (exprOk inside l \<and> exprOk inside r)"
| "exprOk inside (OrExpr l r) = (exprOk inside l \<and> exprOk inside r)"
| "exprOk inside (NotExpr e) = exprOk inside e"
| "exprOk inside (ValuePath p f) = (\<not> inside \<and> pathOk p \<and> exprOk True f)"

text \<open>The nesting the rendering asks of the parser, which allows \<open>maxDepth\<close>.\<close>

fun depthOf :: "expr \<Rightarrow> int" where
  "depthOf (AndExpr l r) =
     max (if isOr l then depthOf l + 1 else depthOf l)
         (if isOr r \<or> isAnd r then depthOf r + 1 else depthOf r)"
| "depthOf (OrExpr l r) = max (depthOf l) (if isOr r then depthOf r + 1 else depthOf r)"
| "depthOf (NotExpr e) = depthOf e + 2"
| "depthOf (ValuePath p f) = depthOf f"
| "depthOf _ = 0"

lemma depthOf_nonneg [simp]: "0 \<le> depthOf e"
  by (induction e rule: expr_induct) auto

definition andText :: "expr \<Rightarrow> string" where
  "andText e = (if isOr e then paren (exprString e) else exprString e)"

definition unaryText :: "expr \<Rightarrow> string" where
  "unaryText e = (if isOr e \<or> isAnd e then paren (exprString e) else exprString e)"

definition andDepth :: "expr \<Rightarrow> int" where
  "andDepth e = (if isOr e then depthOf e + 1 else depthOf e)"

definition unaryDepth :: "expr \<Rightarrow> int" where
  "unaryDepth e = (if isOr e \<or> isAnd e then depthOf e + 1 else depthOf e)"

lemma renderings:
  "exprString (AndExpr l r) = andText l @ '' and '' @ unaryText r"
  "exprString (OrExpr l r) = exprString l @ '' or '' @ andText r"
  "depthOf (AndExpr l r) = max (andDepth l) (unaryDepth r)"
  "depthOf (OrExpr l r) = max (depthOf l) (andDepth r)"
  by (simp_all add: andText_def unaryText_def andDepth_def unaryDepth_def)

subsection \<open>The parser on a rendering\<close>

text \<open>The state with \<open>s\<close> still to be read, its first token looked at.\<close>

definition lookAt :: "parser \<Rightarrow> string \<Rightarrow> parser" where
  "lookAt p s = (case nextToken s of Some (k, r) \<Rightarrow> p\<lparr>psRest := r, psTok := k\<rparr> | None \<Rightarrow> p)"

definition scans :: "string \<Rightarrow> bool" where
  "scans s \<longleftrightarrow> nextToken s \<noteq> None"

definition tailOk :: "string \<Rightarrow> bool" where
  "tailOk t \<longleftrightarrow> scans t \<and> delim t"

lemma advance_lookAt: "scans (psRest p) \<Longrightarrow> advance p = Inr (lookAt p (psRest p))"
  by (auto simp: advance_def lookAt_def scans_def)

lemma lookAt_tok: "nextToken s = Some (k, r) \<Longrightarrow> lookAt p s = p\<lparr>psRest := r, psTok := k\<rparr>"
  by (simp add: lookAt_def)

lemma lookAt_again [simp]:
  "lookAt (p\<lparr>psRest := r, psTok := k\<rparr>) s = lookAt p s \<or> \<not> scans s"
  by (auto simp: lookAt_def scans_def)

lemma lookAt_frame [simp]:
  "psDepth (lookAt p s) = psDepth p" "psInValueFilter (lookAt p s) = psInValueFilter p"
  "psLenient (lookAt p s) = psLenient p"
  by (auto simp: lookAt_def split: option.splits)

lemma lookAt_update:
  "(lookAt p s)\<lparr>psDepth := d\<rparr> = lookAt (p\<lparr>psDepth := d\<rparr>) s"
  "(lookAt p s)\<lparr>psInValueFilter := b\<rparr> = lookAt (p\<lparr>psInValueFilter := b\<rparr>) s"
  by (auto simp: lookAt_def split: option.splits)

text \<open>One step over a token that is looked at.\<close>

lemma step_over:
  assumes "nextToken s = Some (k, t)" and "scans t"
  shows "advance (lookAt p s) = Inr (lookAt p t)" and "psTok (lookAt p s) = k"
  using assms by (auto simp: lookAt_def advance_def scans_def)

lemma scans_blank: "scans (CHR '' '' # s) = scans s"
  by (simp add: scans_def nextToken_def skipBlank_def)

lemma lookAt_blank: "lookAt p (CHR '' '' # s) = lookAt p s"
  by (simp add: lookAt_def nextToken_def skipBlank_def)

lemma nextToken_punct: "punctKind c = Some k \<Longrightarrow> nextToken (c # t) = Some (k, t)"
  by (auto simp: nextToken_def skipBlank_def punctKind_def split: if_splits)

lemma punct_kinds [simp]:
  "punctKind CHR ''('' = Some TokLParen" "punctKind CHR '')'' = Some TokRParen"
  "punctKind CHR ''['' = Some TokLBracket" "punctKind CHR '']'' = Some TokRBracket"
  by (simp_all add: punctKind_def)

subsection \<open>Atoms\<close>

lemma keyword_words [simp]:
  "wordOk ''and''" "wordOk ''or''" "wordOk ''not''" "wordOk ''pr''" "wordOk ''true''"
  "wordOk ''false''" "wordOk ''null''"
  by (simp_all add: wordOk_iff wordStart_def isWordChar_def isLetter_def isDigit_def punctKind_def
      less_eq_char_def)

lemma opText_word: "comparison o' \<Longrightarrow> wordOk (opText o')"
  by (cases o')
    (simp_all add: comparison_def opText_def wordOk_iff wordStart_def isWordChar_def isLetter_def
      isDigit_def punctKind_def less_eq_char_def)

lemma opText_fold: "comparison o' \<Longrightarrow> foldName (opText o') = opText o'"
  by (cases o') (simp_all add: comparison_def opText_def foldName_def foldChar_def)

lemma delim_simps [simp]:
  "delim (CHR '' '' # t)" "delim (CHR '')'' # t)" "delim (CHR ''['' # t)" "delim (CHR '']'' # t)" "delim []"
  by (simp_all add: delim_def)

lemma tailOk_simps [simp]:
  "tailOk (CHR '')'' # t)" "tailOk (CHR '']'' # t)" "tailOk []"
  by (simp_all add: tailOk_def scans_def nextToken_punct) (simp add: nextToken_def skipBlank_def)

lemma scans_word: "wordOk w \<Longrightarrow> delim t \<Longrightarrow> scans (w @ t)"
  by (simp add: scans_def nextToken_word)

lemma tailOk_keyword: "wordOk w \<Longrightarrow> tailOk (CHR '' '' # w @ CHR '' '' # t)"
  by (simp add: tailOk_def scans_blank scans_word)

text \<open>A word that is looked at, with what follows it.\<close>

lemma step_word:
  assumes "wordOk w" and "delim t" and "scans t"
  shows "psTok (lookAt p (w @ t)) = TokWord w" and "advance (lookAt p (w @ t)) = Inr (lookAt p t)"
  using step_over [OF nextToken_word [OF assms(1,2)] assms(3)] by auto

lemma scans_literal:
  assumes "literalOk v" and "tailOk t" shows "scans (literalString v @ t)"
proof -
  have t: "delim t" using assms(2) by (simp add: tailOk_def)
  have "scans (jsonQuote s @ t)" for s by (simp add: scans_def nextToken_quote)
  moreover have "scans (n @ t)" if "numberOk n" for n
    using nextToken_number [OF that t] by (simp add: scans_def)
  ultimately show ?thesis
    using assms(1) scans_word [OF keyword_words(5) t] scans_word [OF keyword_words(6) t]
      scans_word [OF keyword_words(7) t]
    by (auto simp: literalString_def literalOk_def split: literal.splits)
qed

lemma parseCompValue_render:
  assumes "literalOk v" and "tailOk t"
  shows "parseCompValue (lookAt p (literalString v @ t)) = Inr (v, lookAt p t)"
proof -
  have t: "delim t" "scans t" using assms(2) by (auto simp: tailOk_def)
  show ?thesis
  proof (cases v)
    case (LString s)
    from step_over [OF nextToken_quote t(2)] LString show ?thesis
      by (simp add: parseCompValue_def literalString_def)
  next
    case (LNumber n)
    with assms(1) have "nextToken (n @ t) = Some (TokNumber n, t)"
      by (intro nextToken_number) (simp_all add: literalOk_def t)
    from step_over [OF this t(2)] LNumber show ?thesis
      by (simp add: parseCompValue_def literalString_def)
  next
    case (LBool b)
    show ?thesis
      using step_word [of "''true''" t p] step_word [of "''false''" t p] t LBool
      by (cases b) (simp_all add: parseCompValue_def literalString_def)
  next
    case LNull
    with step_word [of "''null''" t p] t show ?thesis
      by (simp add: parseCompValue_def literalString_def)
  qed
qed

lemma pathOk_word:
  assumes "pathOk q"
  shows "wordOk (pathString q)" and "foldName (pathString q) \<noteq> ''not''"
    and "splitAttrPath (pathString q) = Some (pathURN q, pathAttr q, pathSub q)"
    and "FPath (pathURN q) (pathAttr q) (pathSub q) None = q"
  using assms by (auto simp: pathOk_def) (cases q, auto)

lemma parseOperator_render:
  assumes "comparison o'" and "literalOk v" and "tailOk t"
  shows "parseOperator q (opText o') (lookAt p (opText o' @ CHR '' '' # literalString v @ t)) =
    Inr (Compare q o' v, lookAt p t)"
proof -
  have sc: "scans (CHR '' '' # literalString v @ t)"
    using scans_literal [OF assms(2,3)] by (simp add: scans_blank)
  have o': "opOf (foldName (opText o')) = o'" "o' \<noteq> OpPresent"
    using assms(1) opOf_opText opText_fold by (auto simp: comparison_def)
  note adv = step_word(2) [OF opText_word [OF assms(1)] delim_simps(1) sc, of p]
  from adv parseCompValue_render [OF assms(2,3), of p] show ?thesis
    by (simp add: parseOperator_def o' assms(1) lookAt_blank)
qed

lemma parsePrimary_compare:
  assumes q: "pathOk q" and "comparison o'" and "literalOk v" and "tailOk t"
  shows "parsePrimaryWith por (lookAt p (exprString (Compare q o' v) @ t)) =
    Inr (Compare q o' v, lookAt p t)"
proof -
  define u where "u = opText o' @ CHR '' '' # literalString v @ t"
  have sc: "scans (CHR '' '' # u)"
    using scans_word [OF opText_word [OF assms(2)] delim_simps(1)] by (simp add: u_def scans_blank)
  note w = step_word [OF pathOk_word(1) [OF q] delim_simps(1) sc, of p]
  have "scans (CHR '' '' # literalString v @ t)"
    using scans_literal [OF assms(3,4)] by (simp add: scans_blank)
  note o' = step_word(1) [OF opText_word [OF assms(2)] delim_simps(1) this, of p]
  have "exprString (Compare q o' v) @ t = pathString q @ CHR '' '' # u" by (simp add: u_def)
  with w o' parseOperator_render [OF assms(2-4), of q p] show ?thesis
    by (simp add: parsePrimaryWith_def parseAttrExprWith_def pathOk_word(3,4) [OF q] lookAt_blank u_def)
qed

lemma parsePrimary_present:
  assumes q: "pathOk q" and t: "tailOk t"
  shows "parsePrimaryWith por (lookAt p (exprString (Present q) @ t)) = Inr (Present q, lookAt p t)"
proof -
  have t': "delim t" "scans t" using t by (auto simp: tailOk_def)
  have sc: "scans (CHR '' '' # ''pr'' @ t)"
    using scans_word [of "''pr''" t] t' by (simp add: scans_blank)
  note w = step_word [OF pathOk_word(1) [OF q] delim_simps(1) sc, of p]
  note pr = step_word [OF keyword_words(4) t', of p]
  have "opOf (foldName ''pr'') = OpPresent" by (simp add: opOf_def foldName_def foldChar_def)
  with w pr show ?thesis
    by (simp add: parsePrimaryWith_def parseAttrExprWith_def pathOk_word(3,4) [OF q] lookAt_blank
        parseOperator_def)
qed

text \<open>A value path and a group, given the parse of what is between the brackets.\<close>

lemma parsePrimary_valuePath:
  assumes q: "pathOk q" and t: "scans t" and "\<not> psInValueFilter p" and f: "scans (exprString f @ CHR '']'' # t)"
    and por: "por (lookAt (p\<lparr>psInValueFilter := True\<rparr>) (exprString f @ CHR '']'' # t)) =
      Inr (f, lookAt (p\<lparr>psInValueFilter := True\<rparr>) (CHR '']'' # t))"
  shows "parsePrimaryWith por (lookAt p (exprString (ValuePath q f) @ t)) = Inr (ValuePath q f, lookAt p t)"
proof -
  have lb: "nextToken (CHR ''['' # exprString f @ CHR '']'' # t) =
      Some (TokLBracket, exprString f @ CHR '']'' # t)" by (simp add: nextToken_punct)
  then have sc: "scans (CHR ''['' # exprString f @ CHR '']'' # t)" by (simp add: scans_def)
  note w = step_word [OF pathOk_word(1) [OF q] delim_simps(3) sc, of p]
  note open_br = step_over [OF lb f, of p]
  define p1 where "p1 = p\<lparr>psInValueFilter := True\<rparr>"
  have "p\<lparr>psInValueFilter := False\<rparr> = p" using assms(3) by (cases p) simp
  then have enter: "(lookAt p s)\<lparr>psInValueFilter := True\<rparr> = lookAt p1 s"
    and leave: "(lookAt p1 s)\<lparr>psInValueFilter := False\<rparr> = lookAt p s" for s
    by (simp_all add: lookAt_update p1_def)
  note close_br = step_over [OF nextToken_punct [OF punct_kinds(4)] t]
  show ?thesis
    using w open_br close_br [of p] close_br [of p1] por assms(3)
    by (simp add: parsePrimaryWith_def parseAttrExprWith_def parseValueFilterWith_def Let_def
        pathOk_word(3,4) [OF q] enter leave p1_def [symmetric])
qed

lemma parseGroup_render:
  assumes t: "scans t" and d: "psDepth p + 1 \<le> maxDepth" and e: "scans (exprString e @ CHR '')'' # t)"
    and por: "por (lookAt (p\<lparr>psDepth := psDepth p + 1\<rparr>) (exprString e @ CHR '')'' # t)) =
      Inr (e, lookAt (p\<lparr>psDepth := psDepth p + 1\<rparr>) (CHR '')'' # t))"
  shows "parsePrimaryWith por (lookAt p (paren (exprString e) @ t)) = Inr (e, lookAt p t)"
proof -
  define p1 where "p1 = p\<lparr>psDepth := psDepth p + 1\<rparr>"
  note open_par = step_over [OF nextToken_punct [OF punct_kinds(1)] e]
  note close_par = step_over [OF nextToken_punct [OF punct_kinds(2)] t, of p1]
  have enter: "enter (lookAt p s) = Inr (lookAt p1 s)" for s
    using d by (simp add: enter_def lookAt_update p1_def)
  have leave: "leave (lookAt p1 s) = lookAt p s" for s
    by (simp add: leave_def lookAt_update p1_def)
  show ?thesis
    using open_par [of p] open_par [of p1] close_par por
    by (simp add: parsePrimaryWith_def parseGroupWith_def paren_def enter leave p1_def [symmetric])
qed

subsection \<open>Scanning a rendering\<close>

lemma scans_open: "scans (CHR ''('' # t)"
  by (simp add: scans_def nextToken_punct)

lemma scans_rendering:
  "exprOk b e \<Longrightarrow> delim t \<Longrightarrow> scans (exprString e @ t)"
proof (induction e arbitrary: b t rule: expr_induct)
  case (Compare p o' v)
  then show ?case
    using scans_word [of "pathString p" "CHR '' '' # opText o' @ CHR '' '' # literalString v @ t"]
    by (simp add: pathOk_word)
next
  case (Present p)
  then show ?case using scans_word [of "pathString p" "CHR '' '' # ''pr'' @ t"] by (simp add: pathOk_word)
next
  case (AndExpr l r)
  then have "scans (exprString l @ CHR '' '' # u)" for u by (intro AndExpr.IH(1) [of b]) simp_all
  then show ?case by (simp add: paren_def scans_open)
next
  case (OrExpr l r)
  then have "scans (exprString l @ CHR '' '' # u)" for u by (intro OrExpr.IH(1) [of b]) simp_all
  then show ?case by simp
next
  case (NotExpr e)
  then show ?case using scans_word [of "''not''" "CHR '' '' # paren (exprString e) @ t"] by simp
next
  case (ValuePath p f)
  then show ?case
    using scans_word [of "pathString p" "CHR ''['' # exprString f @ CHR '']'' # t"]
    by (simp add: pathOk_word)
qed

lemma scans_texts:
  assumes "exprOk b e" and "delim t"
  shows "scans (andText e @ t)" and "scans (unaryText e @ t)"
  using scans_rendering [OF assms]
  by (simp_all add: andText_def unaryText_def paren_def scans_open)

subsection \<open>Rendering and parsing\<close>

text \<open>
  The three levels of the grammar. At the level of \<open>and\<close> and \<open>or\<close> the state of the loop after
  the rendering is that after its last operand, with enough of the counter left.
\<close>

definition unaryParses :: "expr \<Rightarrow> bool" where
  "unaryParses e \<longleftrightarrow>
     (\<forall>n p t. exprOk (psInValueFilter p) e \<longrightarrow> psDepth p + unaryDepth e \<le> maxDepth \<longrightarrow> tailOk t \<longrightarrow>
        left_over (lookAt p (unaryText e @ t)) \<le> n \<longrightarrow>
        parseUnaryWith (parseOr n) (lookAt p (unaryText e @ t)) = Inr (e, lookAt p t))"

definition andParses :: "expr \<Rightarrow> bool" where
  "andParses e \<longleftrightarrow>
     (\<forall>n k p t. exprOk (psInValueFilter p) e \<longrightarrow> psDepth p + andDepth e \<le> maxDepth \<longrightarrow> tailOk t \<longrightarrow>
        left_over (lookAt p (andText e @ t)) \<le> n \<longrightarrow> left_over (lookAt p (andText e @ t)) < k \<longrightarrow>
        left_over (lookAt p t) < left_over (lookAt p (andText e @ t)) \<and>
        (\<exists>k'. left_over (lookAt p t) < k' \<and>
           parseAndWith k (parseOr n) (lookAt p (andText e @ t)) =
           parseLoop k' ''and'' AndExpr (parseUnaryWith (parseOr n)) e (lookAt p t)))"

definition orParses :: "expr \<Rightarrow> bool" where
  "orParses e \<longleftrightarrow>
     (\<forall>n k p t. exprOk (psInValueFilter p) e \<longrightarrow> psDepth p + depthOf e \<le> maxDepth \<longrightarrow> tailOk t \<longrightarrow>
        \<not> keyword (lookAt p t) ''and'' \<longrightarrow>
        left_over (lookAt p (exprString e @ t)) \<le> n \<longrightarrow> left_over (lookAt p (exprString e @ t)) < k \<longrightarrow>
        left_over (lookAt p t) < left_over (lookAt p (exprString e @ t)) \<and>
        (\<exists>k'. left_over (lookAt p t) < k' \<and>
           parseOrWith k (parseOr n) (lookAt p (exprString e @ t)) =
           parseLoop k' ''or'' OrExpr (parseAndWith k (parseOr n)) e (lookAt p t)))"

lemma parseLoop_stops:
  "\<not> keyword p kw \<Longrightarrow> 0 < n \<Longrightarrow> parseLoop n kw mk operand l p = Inr (l, p)"
  by (cases n) auto

lemma parseLoop_goes:
  assumes "keyword p kw" and "advance p = Inr q" and "operand q = Inr (r, q')"
  shows "parseLoop (Suc n) kw mk operand l p = parseLoop n kw mk operand (mk l r) q'"
  using assms by simp

text \<open>What \<open>parseOr\<close> does with a whole rendering, before a token that is no connective.\<close>

lemma orParses_parseOr:
  assumes "orParses e" and "exprOk (psInValueFilter p) e" and "psDepth p + depthOf e \<le> maxDepth"
    and "tailOk t" and "\<not> keyword (lookAt p t) ''and''" and "\<not> keyword (lookAt p t) ''or''"
    and "left_over (lookAt p (exprString e @ t)) < n"
  shows "parseOr n (lookAt p (exprString e @ t)) = Inr (e, lookAt p t)"
proof -
  from assms(7) obtain m where n: "n = Suc m" by (cases n) auto
  with assms obtain k' where "left_over (lookAt p t) < k'"
      "parseOrWith n (parseOr m) (lookAt p (exprString e @ t)) =
        parseLoop k' ''or'' OrExpr (parseAndWith n (parseOr m)) e (lookAt p t)"
    unfolding orParses_def by (metis less_Suc_eq_le)
  with parseLoop_stops [OF assms(6), of k'] n show ?thesis by simp
qed

lemma keyword_lookAt:
  "nextToken s = Some (k, t) \<Longrightarrow>
     keyword (lookAt p s) w = (case k of TokWord v \<Rightarrow> foldName v = w | _ \<Rightarrow> False)"
  by (simp add: keyword_def lookAt_def split: token.splits)

lemma keyword_after:
  "wordOk v \<Longrightarrow> keyword (lookAt p (CHR '' '' # v @ CHR '' '' # t)) w \<longleftrightarrow> foldName v = w"
  using keyword_lookAt [OF nextToken_word [OF _ delim_simps(1)], of v p t w] by (simp add: lookAt_blank)

lemma keyword_closing [simp]:
  "\<not> keyword (lookAt p (CHR '')'' # t)) w" "\<not> keyword (lookAt p (CHR '']'' # t)) w"
  by (simp_all add: keyword_lookAt [OF nextToken_punct [OF punct_kinds(2)]]
      keyword_lookAt [OF nextToken_punct [OF punct_kinds(4)]])

lemma lookAt_less:
  assumes "nextToken s = Some (k, t)" and "k \<noteq> TokEOF" and "scans t"
  shows "left_over (lookAt p t) < left_over (lookAt p s)"
  using advance_less [OF step_over(1) [OF assms(1,3)]] step_over(2) [OF assms(1,3)] assms(2) by simp

text \<open>A group is parsed by what parses its inside.\<close>

lemma group_parses:
  assumes e: "orParses e" "exprOk (psInValueFilter p) e" and d: "psDepth p + 1 + depthOf e \<le> maxDepth"
    and t: "tailOk t" and n: "left_over (lookAt p (paren (exprString e) @ t)) \<le> n"
  shows "parsePrimaryWith (parseOr n) (lookAt p (paren (exprString e) @ t)) = Inr (e, lookAt p t)"
proof (rule parseGroup_render)
  define p1 where "p1 = p\<lparr>psDepth := psDepth p + 1\<rparr>"
  show "scans t" using t by (simp add: tailOk_def)
  show "psDepth p + 1 \<le> maxDepth" using d depthOf_nonneg [of e] by linarith
  show sc: "scans (exprString e @ CHR '')'' # t)" by (rule scans_rendering [OF e(2)]) simp
  have lo: "left_over (lookAt p1 s) = left_over (lookAt p s)" for s
    by (simp add: p1_def lookAt_update [symmetric])
  have "left_over (lookAt p (exprString e @ CHR '')'' # t)) < left_over (lookAt p (paren (exprString e) @ t))"
    using lookAt_less [OF nextToken_punct [OF punct_kinds(1)] _ sc, of p] by (simp add: paren_def)
  with n have "left_over (lookAt p1 (exprString e @ CHR '')'' # t)) < n" by (simp add: lo)
  then show "parseOr n (lookAt (p\<lparr>psDepth := psDepth p + 1\<rparr>) (exprString e @ CHR '')'' # t)) =
      Inr (e, lookAt (p\<lparr>psDepth := psDepth p + 1\<rparr>) (CHR '')'' # t))"
    unfolding p1_def [symmetric]
    by (intro orParses_parseOr [OF e(1)]) (use e(2) d in \<open>simp_all add: p1_def\<close>)
qed

text \<open>Where a primary is not the keyword \<open>not\<close>, \<open>parseUnary\<close> is \<open>parsePrimary\<close>.\<close>

lemma parseUnary_primary:
  "\<not> keyword p ''not'' \<Longrightarrow> parseUnaryWith por p = parsePrimaryWith por p"
  by (simp add: parseUnaryWith_def)

lemma not_keyword_path:
  assumes "pathOk q" and "delim t"
  shows "\<not> keyword (lookAt p (pathString q @ t)) ''not''"
  using keyword_lookAt [OF nextToken_word [OF pathOk_word(1) [OF assms(1)] assms(2)]]
    pathOk_word(2) [OF assms(1)] by simp

lemma not_keyword_paren: "\<not> keyword (lookAt p (paren s @ t)) ''not''"
  by (simp add: paren_def keyword_lookAt [OF nextToken_punct [OF punct_kinds(1)]])

lemma unary_level:
  assumes "\<And>n p t. exprOk (psInValueFilter p) e \<Longrightarrow> psDepth p + unaryDepth e \<le> maxDepth \<Longrightarrow>
    tailOk t \<Longrightarrow> left_over (lookAt p (unaryText e @ t)) \<le> n \<Longrightarrow>
    \<not> keyword (lookAt p (unaryText e @ t)) ''not'' \<and>
    parsePrimaryWith (parseOr n) (lookAt p (unaryText e @ t)) = Inr (e, lookAt p t)"
  shows "unaryParses e"
  using assms by (simp add: unaryParses_def parseUnary_primary)

text \<open>From the level of \<open>not\<close> to that of \<open>and\<close>, and on to \<open>or\<close>.\<close>

lemma unary_less:
  assumes "unaryParses e" and "exprOk (psInValueFilter p) e" and "psDepth p + unaryDepth e \<le> maxDepth"
    and "tailOk t" and "left_over (lookAt p (unaryText e @ t)) \<le> n"
  shows "left_over (lookAt p t) < left_over (lookAt p (unaryText e @ t))"
proof -
  have "parseUnaryWith (parseOr n) (lookAt p (unaryText e @ t)) = Inr (e, lookAt p t)"
    using assms by (simp add: unaryParses_def)
  moreover have "consumes (parseUnaryWith (parseOr n)) (lookAt p (unaryText e @ t))"
    by (rule parseUnary_consumes, rule parseOr_consumes) (use assms(5) in simp)
  ultimately show ?thesis by (simp add: consumes_def)
qed

lemma unary_to_and:
  assumes e: "unaryParses e" and "\<not> isAnd e"
  shows "andParses e"
  unfolding andParses_def
proof (intro allI impI)
  fix n k p t
  assume pre: "exprOk (psInValueFilter p) e" "psDepth p + andDepth e \<le> maxDepth" "tailOk t"
    "left_over (lookAt p (andText e @ t)) \<le> n" "left_over (lookAt p (andText e @ t)) < k"
  have same: "andText e = unaryText e" "andDepth e = unaryDepth e"
    using assms(2) by (simp_all add: andText_def unaryText_def andDepth_def unaryDepth_def)
  have "parseUnaryWith (parseOr n) (lookAt p (unaryText e @ t)) = Inr (e, lookAt p t)"
    using e pre by (simp add: unaryParses_def same)
  moreover have "left_over (lookAt p t) < left_over (lookAt p (andText e @ t))"
    using unary_less [OF e pre(1) _ pre(3), of n] pre by (simp add: same)
  ultimately show "left_over (lookAt p t) < left_over (lookAt p (andText e @ t)) \<and> (\<exists>k'. left_over (lookAt p t) < k' \<and>
      parseAndWith k (parseOr n) (lookAt p (andText e @ t)) =
      parseLoop k' ''and'' AndExpr (parseUnaryWith (parseOr n)) e (lookAt p t))"
    using pre(5) by (intro conjI exI [of _ k]) (simp_all add: parseAndWith_def same)
qed

lemma and_less:
  assumes "andParses e" and "exprOk (psInValueFilter p) e" and "psDepth p + andDepth e \<le> maxDepth"
    and "tailOk t" and "left_over (lookAt p (andText e @ t)) \<le> n" and "left_over (lookAt p (andText e @ t)) < k"
    and "\<not> keyword (lookAt p t) ''and''"
  shows "parseAndWith k (parseOr n) (lookAt p (andText e @ t)) = Inr (e, lookAt p t)"
    and "left_over (lookAt p t) < left_over (lookAt p (andText e @ t))"
proof -
  from assms(1-6) obtain k' where "left_over (lookAt p t) < k'"
      "parseAndWith k (parseOr n) (lookAt p (andText e @ t)) =
        parseLoop k' ''and'' AndExpr (parseUnaryWith (parseOr n)) e (lookAt p t)"
    unfolding andParses_def by metis
  with parseLoop_stops [OF assms(7), of k'] show
    *: "parseAndWith k (parseOr n) (lookAt p (andText e @ t)) = Inr (e, lookAt p t)" by simp
  show "left_over (lookAt p t) < left_over (lookAt p (andText e @ t))"
    using assms(1-6) unfolding andParses_def by metis
qed

lemma and_to_or:
  assumes e: "andParses e" and "\<not> isOr e"
  shows "orParses e"
  unfolding orParses_def
proof (intro allI impI)
  fix n k p t
  assume pre: "exprOk (psInValueFilter p) e" "psDepth p + depthOf e \<le> maxDepth" "tailOk t"
    "\<not> keyword (lookAt p t) ''and''"
    "left_over (lookAt p (exprString e @ t)) \<le> n" "left_over (lookAt p (exprString e @ t)) < k"
  have same: "andText e = exprString e" "andDepth e = depthOf e"
    using assms(2) by (simp_all add: andText_def andDepth_def)
  have "psDepth p + andDepth e \<le> maxDepth" "left_over (lookAt p (andText e @ t)) \<le> n"
    "left_over (lookAt p (andText e @ t)) < k" using pre by (simp_all add: same)
  from and_less [OF e pre(1) this(1) pre(3) this(2,3) pre(4)] pre(6)
  show "left_over (lookAt p t) < left_over (lookAt p (exprString e @ t)) \<and> (\<exists>k'. left_over (lookAt p t) < k' \<and>
      parseOrWith k (parseOr n) (lookAt p (exprString e @ t)) =
      parseLoop k' ''or'' OrExpr (parseAndWith k (parseOr n)) e (lookAt p t))"
    by (intro conjI exI [of _ k]) (simp_all add: parseOrWith_def same)
qed

text \<open>One more operand on the right.\<close>

lemma and_step:
  assumes l: "andParses l" and r: "unaryParses r"
  shows "andParses (AndExpr l r)"
  unfolding andParses_def
proof (intro allI impI)
  fix n k p t
  let ?e = "AndExpr l r" and ?t1 = "'' and '' @ unaryText r @ t"
  assume pre: "exprOk (psInValueFilter p) ?e" "psDepth p + andDepth ?e \<le> maxDepth" "tailOk t"
    "left_over (lookAt p (andText ?e @ t)) \<le> n" "left_over (lookAt p (andText ?e @ t)) < k"
  have whole: "andText ?e @ t = andText l @ ?t1" by (simp add: andText_def unaryText_def)
  have ok: "exprOk (psInValueFilter p) l" "exprOk (psInValueFilter p) r" using pre(1) by auto
  have depth: "psDepth p + andDepth l \<le> maxDepth" "psDepth p + unaryDepth r \<le> maxDepth"
    using pre(2) by (auto simp: andDepth_def unaryDepth_def)
  have t1: "tailOk ?t1" using tailOk_keyword [OF keyword_words(1), of "unaryText r @ t"] by simp
  have sc: "scans (unaryText r @ t)" using scans_texts(2) [OF ok(2)] pre(3) by (simp add: tailOk_def)
  have kw: "nextToken ?t1 = Some (TokWord ''and'', CHR '' '' # unaryText r @ t)"
    using nextToken_word [OF keyword_words(1), of "CHR '' '' # unaryText r @ t"]
    by (simp add: nextToken_def skipBlank_def)
  have sc': "scans (CHR '' '' # unaryText r @ t)" using sc by (simp add: scans_blank)
  obtain k' where k': "left_over (lookAt p ?t1) < k'"
      "parseAndWith k (parseOr n) (lookAt p (andText l @ ?t1)) =
        parseLoop k' ''and'' AndExpr (parseUnaryWith (parseOr n)) l (lookAt p ?t1)"
    and grow: "left_over (lookAt p ?t1) < left_over (lookAt p (andText l @ ?t1))"
    using l ok(1) depth(1) t1 pre(4,5) unfolding andParses_def whole by metis
  have adv: "advance (lookAt p ?t1) = Inr (lookAt p (unaryText r @ t))"
    and key: "keyword (lookAt p ?t1) ''and''"
    using step_over(1) [OF kw sc', of p] keyword_lookAt [OF kw, of p]
    by (simp_all add: lookAt_blank foldName_def foldChar_def)
  have less: "left_over (lookAt p (unaryText r @ t)) < left_over (lookAt p ?t1)"
    using lookAt_less [OF kw _ sc', of p] by (simp add: lookAt_blank)
  have n: "left_over (lookAt p (unaryText r @ t)) \<le> n" using less grow pre(4) by (simp add: whole)
  have ur: "parseUnaryWith (parseOr n) (lookAt p (unaryText r @ t)) = Inr (r, lookAt p t)"
    using r ok(2) depth(2) pre(3) n by (simp add: unaryParses_def)
  have shrink: "left_over (lookAt p t) < left_over (lookAt p (unaryText r @ t))"
    by (rule unary_less [OF r ok(2) depth(2) pre(3) n])
  then obtain k'' where "k' = Suc k''" "left_over (lookAt p t) < k''"
    using k'(1) less by (cases k') auto
  with k'(2) parseLoop_goes [where operand = "parseUnaryWith (parseOr n)", OF key adv ur, of k''] shrink less grow
  show "left_over (lookAt p t) < left_over (lookAt p (andText ?e @ t)) \<and> (\<exists>k'. left_over (lookAt p t) < k' \<and>
      parseAndWith k (parseOr n) (lookAt p (andText ?e @ t)) =
      parseLoop k' ''and'' AndExpr (parseUnaryWith (parseOr n)) ?e (lookAt p t))"
    unfolding whole by auto
qed

lemma or_step:
  assumes l: "orParses l" and r: "andParses r"
  shows "orParses (OrExpr l r)"
  unfolding orParses_def
proof (intro allI impI)
  fix n k p t
  let ?e = "OrExpr l r" and ?t1 = "'' or '' @ andText r @ t"
  assume pre: "exprOk (psInValueFilter p) ?e" "psDepth p + depthOf ?e \<le> maxDepth" "tailOk t"
    "\<not> keyword (lookAt p t) ''and''"
    "left_over (lookAt p (exprString ?e @ t)) \<le> n" "left_over (lookAt p (exprString ?e @ t)) < k"
  have whole: "exprString ?e @ t = exprString l @ ?t1" by (simp add: andText_def)
  have ok: "exprOk (psInValueFilter p) l" "exprOk (psInValueFilter p) r" using pre(1) by auto
  have depth: "psDepth p + depthOf l \<le> maxDepth" "psDepth p + andDepth r \<le> maxDepth"
    using pre(2) by (auto simp: andDepth_def)
  have t1: "tailOk ?t1" using tailOk_keyword [OF keyword_words(2), of "andText r @ t"] by simp
  have sc: "scans (andText r @ t)" using scans_texts(1) [OF ok(2)] pre(3) by (simp add: tailOk_def)
  have kw: "nextToken ?t1 = Some (TokWord ''or'', CHR '' '' # andText r @ t)"
    using nextToken_word [OF keyword_words(2), of "CHR '' '' # andText r @ t"]
    by (simp add: nextToken_def skipBlank_def)
  have sc': "scans (CHR '' '' # andText r @ t)" using sc by (simp add: scans_blank)
  have noand: "\<not> keyword (lookAt p ?t1) ''and''" and key: "keyword (lookAt p ?t1) ''or''"
    using keyword_lookAt [OF kw, of p] by (simp_all add: foldName_def foldChar_def)
  obtain k' where k': "left_over (lookAt p ?t1) < k'"
      "parseOrWith k (parseOr n) (lookAt p (exprString l @ ?t1)) =
        parseLoop k' ''or'' OrExpr (parseAndWith k (parseOr n)) l (lookAt p ?t1)"
    and grow: "left_over (lookAt p ?t1) < left_over (lookAt p (exprString l @ ?t1))"
    using l ok(1) depth(1) t1 noand pre(5,6) unfolding orParses_def whole by metis
  have adv: "advance (lookAt p ?t1) = Inr (lookAt p (andText r @ t))"
    using step_over(1) [OF kw sc', of p] by (simp add: lookAt_blank)
  have less: "left_over (lookAt p (andText r @ t)) < left_over (lookAt p ?t1)"
    using lookAt_less [OF kw _ sc', of p] by (simp add: lookAt_blank)
  have n: "left_over (lookAt p (andText r @ t)) \<le> n" "left_over (lookAt p (andText r @ t)) < k"
    using less grow pre(5,6) unfolding whole by linarith+
  note ar = and_less [OF r ok(2) depth(2) pre(3) n pre(4)]
  obtain k'' where "k' = Suc k''" "left_over (lookAt p t) < k''"
    using k'(1) less ar(2) by (cases k') auto
  with k'(2) parseLoop_goes [where operand = "parseAndWith k (parseOr n)", OF key adv ar(1), of k''] ar(2) less grow
  show "left_over (lookAt p t) < left_over (lookAt p (exprString ?e @ t)) \<and> (\<exists>k'. left_over (lookAt p t) < k' \<and>
      parseOrWith k (parseOr n) (lookAt p (exprString ?e @ t)) =
      parseLoop k' ''or'' OrExpr (parseAndWith k (parseOr n)) ?e (lookAt p t))"
    unfolding whole by auto
qed

lemma group_unary:
  assumes "orParses e" and "isOr e \<or> isAnd e"
  shows "unaryParses e"
proof (rule unary_level)
  fix n p t
  assume "exprOk (psInValueFilter p) e" "psDepth p + unaryDepth e \<le> maxDepth" "tailOk t"
    "left_over (lookAt p (unaryText e @ t)) \<le> n"
  with assms not_keyword_paren group_parses [OF assms(1)]
  show "\<not> keyword (lookAt p (unaryText e @ t)) ''not'' \<and>
      parsePrimaryWith (parseOr n) (lookAt p (unaryText e @ t)) = Inr (e, lookAt p t)"
    by (simp add: unaryText_def unaryDepth_def)
qed

lemma not_unary:
  assumes e: "orParses e"
  shows "unaryParses (NotExpr e)"
  unfolding unaryParses_def
proof (intro allI impI)
  fix n p t
  assume pre: "exprOk (psInValueFilter p) (NotExpr e)" "psDepth p + unaryDepth (NotExpr e) \<le> maxDepth" "tailOk t"
    "left_over (lookAt p (unaryText (NotExpr e) @ t)) \<le> n"
  let ?g = "paren (exprString e) @ t"
  define p1 where "p1 = p\<lparr>psDepth := psDepth p + 1\<rparr>"
  have whole: "unaryText (NotExpr e) @ t = ''not'' @ CHR '' '' # ?g" by (simp add: unaryText_def)
  have depth: "psDepth p1 + 1 + depthOf e \<le> maxDepth" "psDepth p + 1 \<le> maxDepth"
  proof -
    have *: "psDepth p + (depthOf e + 2) \<le> maxDepth" using pre(2) by (simp add: unaryDepth_def)
    then show "psDepth p1 + 1 + depthOf e \<le> maxDepth" by (simp add: p1_def)
    from * depthOf_nonneg [of e] show "psDepth p + 1 \<le> maxDepth" by linarith
  qed
  have sc: "scans (CHR '' '' # ?g)" by (simp add: scans_blank paren_def scans_open)
  note word = step_word [OF keyword_words(3) delim_simps(1) sc, of p]
  have lparen: "psTok (lookAt p ?g) = TokLParen"
    by (simp add: paren_def lookAt_tok [OF nextToken_punct [OF punct_kinds(1)]])
  have key: "keyword (lookAt p (''not'' @ CHR '' '' # ?g)) ''not''"
    using word(1) by (simp add: keyword_def foldName_def foldChar_def)
  have enter: "enter (lookAt p s) = Inr (lookAt p1 s)" and leave: "leave (lookAt p1 s) = lookAt p s" for s
    using depth(2) by (simp_all add: enter_def leave_def lookAt_update p1_def)
  have lo: "left_over (lookAt p1 s) = left_over (lookAt p s)" for s
    by (simp add: p1_def lookAt_update [symmetric])
  have "left_over (lookAt p ?g) < left_over (lookAt p (''not'' @ CHR '' '' # ?g))"
    using lookAt_less [OF nextToken_word [OF keyword_words(3) delim_simps(1)] _ sc, of p]
    by (simp add: lookAt_blank)
  with pre(4) have n: "left_over (lookAt p1 ?g) \<le> n" by (simp only: whole lo)
  have "parsePrimaryWith (parseOr n) (lookAt p1 ?g) = Inr (e, lookAt p1 t)"
    by (rule group_parses [OF e _ depth(1) pre(3) n]) (use pre(1) in \<open>simp add: p1_def\<close>)
  with key word(2) lparen show "parseUnaryWith (parseOr n) (lookAt p (unaryText (NotExpr e) @ t)) =
      Inr (NotExpr e, lookAt p t)"
    unfolding whole by (simp add: parseUnaryWith_def lookAt_blank enter leave)
qed

lemma compare_unary: "unaryParses (Compare q o' v)"
  by (rule unary_level)
    (use parsePrimary_compare not_keyword_path [OF _ delim_simps(1)] in
      \<open>fastforce simp: unaryText_def\<close>)

lemma present_unary: "unaryParses (Present q)"
  by (rule unary_level)
    (use parsePrimary_present not_keyword_path [OF _ delim_simps(1)] in
      \<open>fastforce simp: unaryText_def\<close>)

lemma valuePath_unary:
  assumes f: "orParses f"
  shows "unaryParses (ValuePath q f)"
proof (rule unary_level)
  fix n p t
  assume pre: "exprOk (psInValueFilter p) (ValuePath q f)" "psDepth p + unaryDepth (ValuePath q f) \<le> maxDepth"
    "tailOk t" "left_over (lookAt p (unaryText (ValuePath q f) @ t)) \<le> n"
  let ?g = "exprString f @ CHR '']'' # t"
  define p1 where "p1 = p\<lparr>psInValueFilter := True\<rparr>"
  have whole: "unaryText (ValuePath q f) @ t = pathString q @ CHR ''['' # ?g" by (simp add: unaryText_def)
  have ok: "\<not> psInValueFilter p" "pathOk q" "exprOk True f" using pre(1) by auto
  have t: "scans t" using pre(3) by (simp add: tailOk_def)
  have sc: "scans ?g" by (rule scans_rendering [OF ok(3)]) simp
  have br: "nextToken (CHR ''['' # ?g) = Some (TokLBracket, ?g)" by (simp add: nextToken_punct)
  then have sc': "scans (CHR ''['' # ?g)" by (simp add: scans_def)
  have lo: "left_over (lookAt p1 s) = left_over (lookAt p s)" for s
    by (simp add: p1_def lookAt_update [symmetric])
  have "left_over (lookAt p ?g) < left_over (lookAt p (CHR ''['' # ?g))"
    using lookAt_less [OF br _ sc] by simp
  moreover have "left_over (lookAt p (CHR ''['' # ?g)) < left_over (lookAt p (pathString q @ CHR ''['' # ?g))"
    using lookAt_less [OF nextToken_word [OF pathOk_word(1) [OF ok(2)] delim_simps(3)] _ sc'] by simp
  ultimately have n: "left_over (lookAt p1 ?g) < n" using pre(4) by (simp only: whole lo)
  have "parseOr n (lookAt p1 ?g) = Inr (f, lookAt p1 (CHR '']'' # t))"
    by (rule orParses_parseOr [OF f]) (use ok(3) pre(2) n in \<open>simp_all add: p1_def unaryDepth_def\<close>)
  from parsePrimary_valuePath [where por = "parseOr n", OF ok(2) t ok(1) sc] this
    not_keyword_path [OF ok(2) delim_simps(3)]
  show "\<not> keyword (lookAt p (unaryText (ValuePath q f) @ t)) ''not'' \<and>
      parsePrimaryWith (parseOr n) (lookAt p (unaryText (ValuePath q f) @ t)) = Inr (ValuePath q f, lookAt p t)"
    by (simp add: whole p1_def)
qed

lemma rendering_parses: "unaryParses e \<and> andParses e \<and> orParses e"
proof (induction e rule: expr_induct)
  case (AndExpr l r)
  then have "andParses (AndExpr l r)" by (intro and_step) auto
  then have "orParses (AndExpr l r)" by (intro and_to_or) auto
  with group_unary [OF this] \<open>andParses (AndExpr l r)\<close> show ?case by simp
next
  case (OrExpr l r)
  then have o': "orParses (OrExpr l r)" by (intro or_step) auto
  then have "unaryParses (OrExpr l r)" by (intro group_unary) auto
  with unary_to_and [OF this] o' show ?case by simp
qed (auto intro: compare_unary present_unary not_unary valuePath_unary intro!: unary_to_and and_to_or)

theorem parse_rendering:
  assumes "exprOk False e" and "depthOf e \<le> maxDepth"
  shows "Parse lenient (exprString e) = Inr e"
proof -
  define p0 where "p0 = \<lparr>psRest = exprString e, psTok = TokEOF, psLenient = lenient, psDepth = 0, psInValueFilter = False\<rparr>"
  have "scans (exprString e)" using scans_rendering [OF assms(1), of "[]"] by simp
  then have new: "newParser lenient (exprString e) = Inr (lookAt p0 (exprString e))"
    using advance_lookAt [of p0] by (simp add: newParser_def p0_def)
  have eof: "nextToken [] = Some (TokEOF, [])" by (simp add: nextToken_def skipBlank_def)
  have "parseOr (parseFuel (exprString e)) (lookAt p0 (exprString e @ [])) = Inr (e, lookAt p0 [])"
  proof (rule orParses_parseOr)
    show "orParses e" using rendering_parses by blast
    show "left_over (lookAt p0 (exprString e @ [])) < parseFuel (exprString e)"
      using newParser_left_over [OF new] by simp
  qed (use assms in \<open>simp_all add: p0_def keyword_lookAt [OF eof]\<close>)
  with new show ?thesis by (simp add: Parse_def lookAt_tok [OF eof])
qed

subsection \<open>What the strict parser returns\<close>

definition tokOk :: "parser \<Rightarrow> bool" where
  "tokOk p \<longleftrightarrow> (case psTok p of TokWord w \<Rightarrow> wordOk w | TokNumber n \<Rightarrow> numberOk n | _ \<Rightarrow> True)"

text \<open>The parts of the state a parser restores, on states the strict parser reaches.\<close>

definition strictAt :: "parser \<Rightarrow> bool" where
  "strictAt p \<longleftrightarrow> tokOk p \<and> \<not> psLenient p \<and> psDepth p \<le> maxDepth"

definition sameFrame :: "parser \<Rightarrow> parser \<Rightarrow> bool" where
  "sameFrame p q \<longleftrightarrow>
     psDepth q = psDepth p \<and> psInValueFilter q = psInValueFilter p \<and> psLenient q = psLenient p \<and> tokOk q"

lemma sameFrame_trans: "sameFrame p q \<Longrightarrow> sameFrame q r \<Longrightarrow> sameFrame p r"
  by (simp add: sameFrame_def)

lemma sameFrame_strict: "sameFrame p q \<Longrightarrow> strictAt p \<Longrightarrow> strictAt q"
  by (simp add: sameFrame_def strictAt_def)

lemma advance_frame: "advance p = Inr q \<Longrightarrow> sameFrame p q"
  using TokWord_wordOk TokNumber_numberOk
  by (auto simp: advance_def sameFrame_def tokOk_def split: option.splits token.splits)

definition returns :: "(expr \<Rightarrow> int) \<Rightarrow> expr parse \<Rightarrow> parser \<Rightarrow> bool" where
  "returns depth f p \<longleftrightarrow>
     (\<forall>e q. f p = Inr (e, q) \<longrightarrow>
        exprOk (psInValueFilter p) e \<and> psDepth p + depth e \<le> maxDepth \<and> sameFrame p q)"

lemma returnsD:
  assumes "returns depth f p" and "f p = Inr (e, q)"
  shows "exprOk (psInValueFilter p) e" "psDepth p + depth e \<le> maxDepth" "sameFrame p q"
  using assms by (auto simp: returns_def)

lemma cutLast_append: "cutLast sep s = Some (u, r) \<Longrightarrow> s = u @ sep # r"
proof -
  assume *: "cutLast sep s = Some (u, r)"
  then have sep: "sep \<in> set (rev s)" by (auto simp: cutLast_def split: if_splits)
  then obtain ys where d: "dropWhile (\<lambda>c. c \<noteq> sep) (rev s) = sep # ys"
    by (metis (mono_tags, lifting) dropWhile_eq_Nil_conv hd_dropWhile list.exhaust_sel)
  have "rev s = takeWhile (\<lambda>c. c \<noteq> sep) (rev s) @ sep # ys"
    using takeWhile_dropWhile_id [of "\<lambda>c. c \<noteq> sep" "rev s"] d by simp
  then have "s = rev ys @ sep # rev (takeWhile (\<lambda>c. c \<noteq> sep) (rev s))"
    by (metis rev.simps(2) rev_append rev_rev_ident append.assoc append_Cons append_Nil)
  with * d show "s = u @ sep # r" by (auto simp: cutLast_def split: if_splits)
qed

lemma splitAttrPath_string:
  assumes "splitAttrPath w = Some (urn, attr, sub)"
  shows "pathString (FPath urn attr sub None) = w"
proof -
  have rest: "attr @ (if sub \<noteq> [] then ''.'' @ sub else []) = r"
    if "(case cut CHR ''.'' r of (attr', sub', found) \<Rightarrow>
          if \<not> validAttrName attr' then None
          else if found \<and> (\<not> validAttrName sub' \<or> CHR ''.'' \<in> set sub') then None
          else Some (u, attr', sub')) = Some (urn, attr, sub)" for r u
  proof -
    from that obtain found where c: "cut CHR ''.'' r = (attr, sub, found)"
        and v: "found \<longrightarrow> validAttrName sub"
      by (auto split: prod.splits if_splits)
    show ?thesis
    proof (cases found)
      case True
      with v have "sub \<noteq> []" by (auto simp: validAttrName_def)
      then show ?thesis using cut_found [of "CHR ''.''" r attr sub] c True by simp
    next
      case False
      then show ?thesis using cut_not_found [of "CHR ''.''" r attr sub] c by simp
    qed
  qed
  show ?thesis
  proof (cases "cutLast CHR '':'' w")
    case None
    with assms have "urn = []" by (auto simp: splitAttrPath_def split: prod.splits if_splits)
    then show ?thesis using None assms rest [where r = w and u = "[]"] by (simp add: splitAttrPath_def)
  next
    case (Some ur)
    obtain u r where ur: "ur = (u, r)" by (cases ur)
    with Some assms have u: "u = urn" "prefix ''urn:'' (foldName u)"
      by (auto simp: splitAttrPath_def split: prod.splits if_splits)
    then have "urn \<noteq> []" by auto
    have "attr @ (if sub \<noteq> [] then ''.'' @ sub else []) = r"
      using rest [where r = r and u = urn] Some ur u assms by (simp add: splitAttrPath_def)
    moreover have "w = u @ CHR '':'' # r" using Some ur by (simp add: cutLast_append)
    ultimately show ?thesis using \<open>urn \<noteq> []\<close> u(1) by simp
  qed
qed

lemma pathOk_parsed:
  assumes "splitAttrPath w = Some (urn, attr, sub)" and "wordOk w" and "foldName w \<noteq> ''not''"
  shows "pathOk (FPath urn attr sub None)"
  using assms splitAttrPath_string [OF assms(1)] by (simp add: pathOk_def)

lemma parseCompValue_returns:
  assumes "parseCompValue p = Inr (v, q)" and "strictAt p"
  shows "literalOk v \<and> sameFrame p q"
proof -
  from assms(1) have adv: "advance p = Inr q"
    and v: "(case psTok p of
              TokString s \<Rightarrow> Inr (LString s)
            | TokNumber n \<Rightarrow> Inr (LNumber n)
            | TokWord w \<Rightarrow>
                if w = ''true'' then Inr (LBool True)
                else if w = ''false'' then Inr (LBool False)
                else if w = ''null'' then Inr LNull
                else Inl SyntaxError
            | _ \<Rightarrow> Inl SyntaxError) = Inr v"
    by (auto simp: parseCompValue_def rbind_eq_Inr)
  from v assms(2) have "literalOk v"
    by (auto simp: literalOk_def strictAt_def tokOk_def split: token.splits if_splits)
  with advance_frame [OF adv] show ?thesis by simp
qed

lemma parseOperator_returns:
  assumes path: "pathOk path" and st: "strictAt p"
  shows "returns unaryDepth (parseOperator path w) p"
  unfolding returns_def
proof (intro allI impI)
  fix e q
  assume res: "parseOperator path w p = Inr (e, q)"
  define o' where "o' = opOf (foldName w)"
  show "exprOk (psInValueFilter p) e \<and> psDepth p + unaryDepth e \<le> maxDepth \<and> sameFrame p q"
  proof (cases "o' = OpPresent")
    case True
    with res have "advance p = Inr q" "e = Present path"
      by (auto simp: parseOperator_def o'_def [symmetric] rbind_eq_Inr)
    with advance_frame [of p q] path st show ?thesis by (simp add: unaryDepth_def strictAt_def)
  next
    case False
    with res obtain r v where o': "comparison o'" and adv: "advance p = Inr r"
        and v: "parseCompValue r = Inr (v, q)" and e: "e = Compare path o' v"
      by (auto simp: parseOperator_def o'_def [symmetric] rbind_eq_Inr split: if_splits)
    note fr = advance_frame [OF adv]
    from parseCompValue_returns [OF v sameFrame_strict [OF fr st]] sameFrame_trans [OF fr]
      o' path st e show ?thesis by (simp add: unaryDepth_def strictAt_def)
  qed
qed

lemma parseValueFilter_returns:
  assumes por: "\<And>q. strictAt q \<Longrightarrow> returns depthOf por q" and st: "strictAt p"
    and res: "parseValueFilterWith por p = Inr (f, q)"
  shows "exprOk True f \<and> psDepth p + depthOf f \<le> maxDepth \<and> sameFrame p q"
proof -
  from res obtain p1 p2 where adv: "advance p = Inr p1"
      and f: "por (p1\<lparr>psInValueFilter := True\<rparr>) = Inr (f, p2)"
      and fin: "advance (p2\<lparr>psInValueFilter := psInValueFilter p1\<rparr>) = Inr q"
    by (auto simp: parseValueFilterWith_def rbind_eq_Inr Let_def split: if_splits)
  note fr = advance_frame [OF adv]
  have "strictAt (p1\<lparr>psInValueFilter := True\<rparr>)"
    using sameFrame_strict [OF fr st] by (simp add: strictAt_def tokOk_def)
  from returnsD [OF por [OF this] f] fr advance_frame [OF fin] show ?thesis
    by (simp add: sameFrame_def)
qed

lemma parseAttrExpr_returns:
  assumes por: "\<And>q. strictAt q \<Longrightarrow> returns depthOf por q" and st: "strictAt p"
    and w: "wordOk w" "foldName w \<noteq> ''not''"
  shows "returns unaryDepth (parseAttrExprWith por w) p"
  unfolding returns_def
proof (intro allI impI)
  fix e q
  assume res: "parseAttrExprWith por w p = Inr (e, q)"
  then obtain urn attr sub p1 where split: "splitAttrPath w = Some (urn, attr, sub)"
      and adv: "advance p = Inr p1"
      and cont: "(if psTok p1 = TokLBracket then
              (if psInValueFilter p1 then Inl SyntaxError
               else rbind (parseValueFilterWith por p1) (\<lambda>(f, p). Inr (ValuePath (FPath urn attr sub None) f, p)))
            else case psTok p1 of
              TokWord w \<Rightarrow> parseOperator (FPath urn attr sub None) w p1
            | _ \<Rightarrow> Inl SyntaxError) = Inr (e, q)"
    by (auto simp: parseAttrExprWith_def rbind_eq_Inr Let_def split: option.splits)
  note path = pathOk_parsed [OF split w]
  note fr = advance_frame [OF adv]
  note st1 = sameFrame_strict [OF fr st]
  show "exprOk (psInValueFilter p) e \<and> psDepth p + unaryDepth e \<le> maxDepth \<and> sameFrame p q"
  proof (cases "psTok p1 = TokLBracket")
    case True
    with cont obtain f where "\<not> psInValueFilter p1" and f: "parseValueFilterWith por p1 = Inr (f, q)"
        and e: "e = ValuePath (FPath urn attr sub None) f"
      by (auto simp: rbind_eq_Inr split: if_splits)
    with parseValueFilter_returns [OF por st1 f] path fr sameFrame_trans [OF fr] show ?thesis
      by (simp add: sameFrame_def unaryDepth_def)
  next
    case False
    with cont obtain v where "parseOperator (FPath urn attr sub None) v p1 = Inr (e, q)"
      by (auto split: token.splits)
    with returnsD [OF parseOperator_returns [OF path st1] this] fr sameFrame_trans [OF fr]
    show ?thesis by (simp add: sameFrame_def)
  qed
qed

lemma parseGroup_returns:
  assumes por: "\<And>q. strictAt q \<Longrightarrow> returns depthOf por q" and st: "strictAt p"
    and res: "parseGroupWith por p = Inr (e, q)"
  shows "exprOk (psInValueFilter p) e \<and> psDepth p + 1 + depthOf e \<le> maxDepth \<and> sameFrame p q"
proof -
  from res obtain p1 p2 p3 p4 where ent: "enter p = Inr p1" and adv: "advance p1 = Inr p2"
      and e: "por p2 = Inr (e, p3)" and fin: "advance p3 = Inr p4" and q: "q = leave p4"
    by (auto simp: parseGroupWith_def rbind_eq_Inr split: if_splits)
  from ent have p1: "p1 = p\<lparr>psDepth := psDepth p + 1\<rparr>" "psDepth p + 1 \<le> maxDepth"
    by (auto simp: enter_def Let_def split: if_splits)
  have "strictAt p1" using st p1 by (simp add: strictAt_def tokOk_def)
  from returnsD [OF por [OF sameFrame_strict [OF advance_frame [OF adv] this]] e]
    advance_frame [OF adv] advance_frame [OF fin] p1 q show ?thesis
    by (simp add: sameFrame_def leave_def tokOk_def)
qed

lemma parseUnary_returns:
  assumes por: "\<And>q. strictAt q \<Longrightarrow> returns depthOf por q" and st: "strictAt p"
  shows "returns unaryDepth (parseUnaryWith por) p"
  unfolding returns_def
proof (intro allI impI)
  fix e q
  assume res: "parseUnaryWith por p = Inr (e, q)"
  show "exprOk (psInValueFilter p) e \<and> psDepth p + unaryDepth e \<le> maxDepth \<and> sameFrame p q"
  proof (cases "keyword p ''not''")
    case False
    show ?thesis
    proof (cases "psTok p")
      case TokLParen
      with res False have "parseGroupWith por p = Inr (e, q)"
        by (simp add: parseUnaryWith_def parsePrimaryWith_def)
      from parseGroup_returns [OF por st this] show ?thesis by (auto simp: unaryDepth_def)
    next
      case (TokWord w)
      with False st have w: "wordOk w" "foldName w \<noteq> ''not''"
        by (simp_all add: keyword_def strictAt_def tokOk_def)
      from TokWord res False have "parseAttrExprWith por w p = Inr (e, q)"
        by (simp add: parseUnaryWith_def parsePrimaryWith_def)
      from returnsD [OF parseAttrExpr_returns [OF por st w] this] show ?thesis by simp
    qed (use res False in \<open>simp_all add: parseUnaryWith_def parsePrimaryWith_def\<close>)
  next
    case True
    with res st obtain p1 p2 p3 e' where adv: "advance p = Inr p1" and lp: "psTok p1 = TokLParen \<or> psLenient p1"
        and ent: "enter p1 = Inr p2" and g: "parsePrimaryWith por p2 = Inr (e', p3)"
        and q: "e = NotExpr e'" "q = leave p3"
      by (auto simp: parseUnaryWith_def rbind_eq_Inr split: if_splits)
    note fr = advance_frame [OF adv]
    from fr st lp have tok: "psTok p1 = TokLParen" by (auto simp: sameFrame_def strictAt_def)
    from ent have p2: "p2 = p1\<lparr>psDepth := psDepth p1 + 1\<rparr>" "psDepth p1 + 1 \<le> maxDepth"
      by (auto simp: enter_def Let_def split: if_splits)
    have "strictAt p2" using sameFrame_strict [OF fr st] p2 by (simp add: strictAt_def tokOk_def)
    from parseGroup_returns [OF por this] g tok p2(1)
    have "exprOk (psInValueFilter p2) e' \<and> psDepth p2 + 1 + depthOf e' \<le> maxDepth \<and> sameFrame p2 p3"
      by (simp add: parsePrimaryWith_def)
    with p2 q fr show ?thesis
      by (simp add: sameFrame_def leave_def tokOk_def unaryDepth_def)
  qed
qed

text \<open>A loop of a connective: \<open>depth\<close> bounds what has been read, \<open>arg\<close> one operand.\<close>

lemma parseLoop_returns:
  assumes operand: "\<And>q. strictAt q \<Longrightarrow> returns arg operand q" and st: "strictAt p"
    and l: "exprOk (psInValueFilter p) l" "psDepth p + depth l \<le> maxDepth"
    and mk: "\<And>b x y. exprOk b x \<Longrightarrow> exprOk b y \<Longrightarrow> exprOk b (mk x y)"
      "\<And>x y. depth (mk x y) \<le> max (depth x) (arg y)"
    and res: "parseLoop n kw mk operand l p = Inr (e, q)"
  shows "exprOk (psInValueFilter p) e \<and> psDepth p + depth e \<le> maxDepth \<and> sameFrame p q"
  using st l res
proof (induction n arbitrary: l p)
  case (Suc n)
  show ?case
  proof (cases "keyword p kw")
    case True
    with Suc.prems(4) obtain p1 r p2 where adv: "advance p = Inr p1" and r: "operand p1 = Inr (r, p2)"
        and loop: "parseLoop n kw mk operand (mk l r) p2 = Inr (e, q)"
      by (auto simp: rbind_eq_Inr)
    note fr = advance_frame [OF adv]
    note st1 = sameFrame_strict [OF fr Suc.prems(1)]
    note ret = returnsD [OF operand [OF st1] r]
    have fr2: "sameFrame p p2" by (rule sameFrame_trans [OF fr ret(3)])
    have "psDepth p2 + depth (mk l r) \<le> maxDepth"
      using mk(2) [of l r] Suc.prems(3) ret(2) fr fr2 by (simp add: sameFrame_def max_def split: if_splits)
    moreover have "exprOk (psInValueFilter p2) (mk l r)"
      using mk(1) Suc.prems(2) ret(1) fr fr2 by (simp add: sameFrame_def)
    ultimately show ?thesis
      using Suc.IH [OF sameFrame_strict [OF fr2 Suc.prems(1)] _ _ loop] fr2
        sameFrame_trans [OF fr2] by (simp add: sameFrame_def)
  qed (use Suc.prems in \<open>auto simp: sameFrame_def strictAt_def\<close>)
qed simp

lemma parseAnd_returns:
  assumes por: "\<And>q. strictAt q \<Longrightarrow> returns depthOf por q" and st: "strictAt p"
  shows "returns andDepth (parseAndWith n por) p"
  unfolding returns_def
proof (intro allI impI)
  fix e q
  assume "parseAndWith n por p = Inr (e, q)"
  then obtain l p1 where l: "parseUnaryWith por p = Inr (l, p1)"
      and loop: "parseLoop n ''and'' AndExpr (parseUnaryWith por) l p1 = Inr (e, q)"
    by (auto simp: parseAndWith_def rbind_eq_Inr)
  note ret = returnsD [OF parseUnary_returns [OF por st] l]
  have "andDepth l \<le> unaryDepth l" by (simp add: andDepth_def unaryDepth_def)
  with ret have first: "exprOk (psInValueFilter p1) l" "psDepth p1 + andDepth l \<le> maxDepth"
    by (simp_all add: sameFrame_def)
  have mk: "andDepth (AndExpr x y) \<le> max (andDepth x) (unaryDepth y)" for x y
    by (simp add: andDepth_def unaryDepth_def)
  from parseLoop_returns [OF _ sameFrame_strict [OF ret(3) st] first _ mk loop]
    parseUnary_returns [OF por] ret(3) sameFrame_trans [OF ret(3)]
  show "exprOk (psInValueFilter p) e \<and> psDepth p + andDepth e \<le> maxDepth \<and> sameFrame p q"
    by (simp add: sameFrame_def)
qed

lemma parseOr_returns: "strictAt p \<Longrightarrow> returns depthOf (parseOr n) p"
proof (induction n arbitrary: p)
  case (Suc n)
  show ?case
    unfolding returns_def
  proof (intro allI impI)
    fix e q
    assume "parseOr (Suc n) p = Inr (e, q)"
    then obtain l p1 where l: "parseAndWith (Suc n) (parseOr n) p = Inr (l, p1)"
        and loop: "parseLoop (Suc n) ''or'' OrExpr (parseAndWith (Suc n) (parseOr n)) l p1 = Inr (e, q)"
      by (auto simp: parseOrWith_def rbind_eq_Inr)
    note ret = returnsD [OF parseAnd_returns [OF Suc.IH Suc.prems] l]
    have "depthOf l \<le> andDepth l" by (simp add: andDepth_def)
    with ret have first: "exprOk (psInValueFilter p1) l" "psDepth p1 + depthOf l \<le> maxDepth"
      by (simp_all add: sameFrame_def)
    have mk: "depthOf (OrExpr x y) \<le> max (depthOf x) (andDepth y)" for x y
      by (simp add: andDepth_def)
    from parseLoop_returns [OF _ sameFrame_strict [OF ret(3) Suc.prems] first _ mk loop]
      parseAnd_returns [OF Suc.IH] ret(3) sameFrame_trans [OF ret(3)]
    show "exprOk (psInValueFilter p) e \<and> psDepth p + depthOf e \<le> maxDepth \<and> sameFrame p q"
      by (simp add: sameFrame_def)
  qed
qed (simp add: returns_def)

theorem strict_parse_ok:
  assumes "Parse False s = Inr e"
  shows "exprOk False e" and "depthOf e \<le> maxDepth"
proof -
  from assms obtain p q where p: "newParser False s = Inr p" and e: "parseOr (parseFuel s) p = Inr (e, q)"
    by (auto simp: Parse_def rbind_eq_Inr split: prod.splits if_splits)
  have "sameFrame \<lparr>psRest = s, psTok = TokEOF, psLenient = False, psDepth = 0, psInValueFilter = False\<rparr> p"
    using p by (intro advance_frame) (simp add: newParser_def)
  then have fr: "psDepth p = 0" "\<not> psInValueFilter p" "strictAt p"
    by (simp_all add: sameFrame_def strictAt_def maxDepth_def)
  from returnsD [OF parseOr_returns [OF fr(3)] e] fr(1,2)
  show "exprOk False e" and "depthOf e \<le> maxDepth" by simp_all
qed

subsection \<open>Paths\<close>

text \<open>The path without its value filter, and without the sub-attribute that follows one.\<close>

definition basePath :: "fpath \<Rightarrow> fpath" where
  "basePath p =
     FPath (pathURN p) (pathAttr p) (if valueFilter p = None then pathSub p else []) None"

definition fullPathOk :: "fpath \<Rightarrow> bool" where
  "fullPathOk p \<longleftrightarrow>
     wordOk (pathString (basePath p)) \<and>
     splitAttrPath (pathString (basePath p)) = Some (pathURN p, pathAttr p, pathSub (basePath p)) \<and>
     (case valueFilter p of
        None \<Rightarrow> True
      | Some f \<Rightarrow> exprOk True f \<and> depthOf f \<le> maxDepth \<and> (pathSub p = [] \<or> validAttrName (pathSub p)))"

lemma pathString_base:
  "valueFilter p = Some f \<Longrightarrow>
     pathString p = pathString (basePath p) @ ''['' @ exprString f @ '']'' @
       (if pathSub p = [] then [] else ''.'' @ pathSub p)"
  "valueFilter p = None \<Longrightarrow> basePath p = p"
  by (cases p; simp add: basePath_def)+

lemma sub_word: "validAttrName n \<Longrightarrow> wordOk (CHR ''.'' # n)"
  by (cases n)
    (auto simp: wordOk_iff wordStart_def validAttrName_def isNameStart_def isNameChar_def isWordChar_def
      isDigit_def punctKind_def list_all_iff less_eq_char_def)

text \<open>The inside of the brackets of a value path.\<close>

lemma bracket_parses:
  assumes f: "exprOk True f" "depthOf f \<le> maxDepth" and p: "psDepth p = 0" "\<not> psInValueFilter p"
    and t: "scans t" and n: "left_over (lookAt p (''['' @ exprString f @ '']'' @ t)) \<le> n"
  shows "parseValueFilterWith (parseOr n) (lookAt p (''['' @ exprString f @ '']'' @ t)) = Inr (f, lookAt p t)"
proof -
  let ?g = "exprString f @ CHR '']'' # t"
  define p1 where "p1 = p\<lparr>psInValueFilter := True\<rparr>"
  have br: "nextToken (CHR ''['' # ?g) = Some (TokLBracket, ?g)" by (simp add: nextToken_punct)
  have sc: "scans ?g" by (rule scans_rendering [OF f(1)]) simp
  note open_br = step_over [OF br sc, of p]
  note close_br = step_over [OF nextToken_punct [OF punct_kinds(4)] t]
  have "p\<lparr>psInValueFilter := False\<rparr> = p" using p(2) by (cases p) simp
  then have enter: "(lookAt p s)\<lparr>psInValueFilter := True\<rparr> = lookAt p1 s"
    and leave: "(lookAt p1 s)\<lparr>psInValueFilter := False\<rparr> = lookAt p s" for s
    by (simp_all add: lookAt_update p1_def)
  have lo: "left_over (lookAt p1 s) = left_over (lookAt p s)" for s
    by (simp add: p1_def lookAt_update [symmetric])
  have "left_over (lookAt p ?g) < left_over (lookAt p (CHR ''['' # ?g))"
    using lookAt_less [OF br _ sc] by simp
  with n have less: "left_over (lookAt p1 ?g) < n" by (simp add: lo)
  have "parseOr n (lookAt p1 ?g) = Inr (f, lookAt p1 (CHR '']'' # t))"
    by (rule orParses_parseOr) (use rendering_parses f p less in \<open>simp_all add: p1_def\<close>)
  then show ?thesis
    using open_br close_br [of p1] close_br [of p] p(2)
    by (simp add: parseValueFilterWith_def Let_def enter leave)
qed

theorem path_rendering:
  assumes ok: "fullPathOk p"
  shows "ParsePath lenient (pathString p) = Inr p"
proof -
  define s where "s = pathString p"
  define n where "n = parseFuel s"
  define w where "w = pathString (basePath p)"
  define p0 where "p0 = \<lparr>psRest = s, psTok = TokEOF, psLenient = lenient, psDepth = 0, psInValueFilter = False\<rparr>"
  have w: "wordOk w" and split: "splitAttrPath w = Some (pathURN p, pathAttr p, pathSub (basePath p))"
    using ok by (simp_all add: fullPathOk_def w_def)
  have eof: "nextToken [] = Some (TokEOF, [])" by (simp add: nextToken_def skipBlank_def)
  then have sc0: "scans []" by (simp add: scans_def)
  have base: "FPath (pathURN p) (pathAttr p) (pathSub (basePath p)) None = basePath p"
    by (simp add: basePath_def)
  show ?thesis
  proof (cases "valueFilter p")
    case None
    then have s: "s = w" by (simp add: s_def w_def pathString_base(2))
    have new: "newParser lenient s = Inr (lookAt p0 s)"
      using advance_lookAt [of p0] scans_word [OF w, of "[]"] by (simp add: newParser_def p0_def s)
    from step_word [OF w delim_simps(5) sc0, of p0] have
      "psTok (lookAt p0 s) = TokWord w" "advance (lookAt p0 s) = Inr (lookAt p0 [])"
      by (simp_all add: s)
    moreover have "FPath (pathURN p) (pathAttr p) (pathSub p) None = p" using None by (cases p) simp
    ultimately have "parsePath n (lookAt p0 s) = Inr (p, lookAt p0 [])"
      using split None by (simp add: parsePath_def base pathString_base(2) lookAt_tok [OF eof])
    with new show ?thesis by (simp add: ParsePath_def s_def [symmetric] n_def)
  next
    case (Some f)
    define t where "t = (if pathSub p = [] then [] else ''.'' @ pathSub p)"
    have f: "exprOk True f" "depthOf f \<le> maxDepth" and sub: "pathSub p = [] \<or> validAttrName (pathSub p)"
      using ok Some by (simp_all add: fullPathOk_def)
    have s: "s = w @ ''['' @ exprString f @ '']'' @ t"
      using pathString_base(1) [OF Some] by (simp add: s_def w_def t_def)
    let ?u = "''['' @ exprString f @ '']'' @ t"
    have br: "nextToken ?u = Some (TokLBracket, exprString f @ '']'' @ t)" by (simp add: nextToken_punct)
    then have scu: "scans ?u" by (simp add: scans_def)
    have new: "newParser lenient s = Inr (lookAt p0 s)"
      using advance_lookAt [of p0] scans_word [OF w, of ?u] by (simp add: newParser_def p0_def s)
    have word: "psTok (lookAt p0 s) = TokWord w" "advance (lookAt p0 s) = Inr (lookAt p0 ?u)"
      using step_word [OF w _ scu, of p0] by (simp_all add: s)
    have tok: "psTok (lookAt p0 ?u) = TokLBracket" by (subst lookAt_tok [OF br]) simp
    have sct: "scans t"
      using sub sc0 scans_word [OF sub_word, of "pathSub p" "[]"] by (auto simp: t_def)
    have "left_over (lookAt p0 ?u) \<le> n"
      using newParser_left_over [OF new] advance_less [OF word(2)] word(1) by (simp add: n_def)
    with bracket_parses [OF f _ _ sct] have
      body: "parseValueFilterWith (parseOr n) (lookAt p0 ?u) = Inr (f, lookAt p0 t)"
      by (simp add: p0_def)
    have sub0: "pathSub (basePath p) = []" using Some by (simp add: basePath_def)
    have into: "parseValueFilterInto n (basePath p) (lookAt p0 ?u) = Inr (p, lookAt p0 [])"
    proof (cases "pathSub p = []")
      case True
      then have "t = []" "FPath (pathURN p) (pathAttr p) [] (Some f) = p"
        using Some by (auto simp: t_def) (cases p, simp)
      with body sub0 show ?thesis
        by (simp add: parseValueFilterInto_def lookAt_tok [OF eof] basePath_def)
    next
      case False
      with sub have v: "validAttrName (pathSub p)" and t: "t = CHR ''.'' # pathSub p" by (auto simp: t_def)
      have "psTok (lookAt p0 t) = TokWord t" "advance (lookAt p0 t) = Inr (lookAt p0 [])"
        using step_word [OF sub_word [OF v] delim_simps(5) sc0, of p0] by (simp_all add: t)
      moreover have "FPath (pathURN p) (pathAttr p) (pathSub p) (Some f) = p"
        using Some by (cases p) simp
      ultimately show ?thesis
        using body sub0 v t by (simp add: parseValueFilterInto_def basePath_def)
    qed
    have "parsePath n (lookAt p0 s) = Inr (p, lookAt p0 [])"
      using word tok split into by (simp add: parsePath_def base lookAt_tok [OF eof] del: append.simps)
    with new show ?thesis by (simp add: ParsePath_def s_def [symmetric] n_def)
  qed
qed

lemma parseValueFilterInto_ok:
  assumes res: "parseValueFilterInto n path p = Inr (path', q)" and st: "strictAt p"
  shows "\<exists>f. path' = FPath (pathURN path) (pathAttr path) (pathSub path') (Some f) \<and>
    exprOk True f \<and> psDepth p + depthOf f \<le> maxDepth \<and>
    pathSub path = [] \<and> (pathSub path' = [] \<or> validAttrName (pathSub path'))"
proof -
  from res obtain f q1 where sub: "pathSub path = []"
      and f: "parseValueFilterWith (parseOr n) p = Inr (f, q1)"
      and cont: "(case psTok q1 of
          TokWord w \<Rightarrow>
            (case w of
               c # subWord \<Rightarrow>
                 if c \<noteq> CHR ''.'' \<or> \<not> validAttrName subWord then Inl SyntaxError
                 else rbind (advance q1) (\<lambda>p.
                        Inr (FPath (pathURN path) (pathAttr path) subWord (Some f), p))
             | [] \<Rightarrow> Inl SyntaxError)
        | _ \<Rightarrow> Inr (FPath (pathURN path) (pathAttr path) (pathSub path) (Some f), q1)) = Inr (path', q)"
    by (auto simp: parseValueFilterInto_def rbind_eq_Inr split: if_splits)
  from parseValueFilter_returns [OF parseOr_returns st f] have
    "exprOk True f" "psDepth p + depthOf f \<le> maxDepth" by auto
  with cont sub show ?thesis
    by (auto simp: rbind_eq_Inr split: token.splits list.splits if_splits)
qed

theorem strict_path_ok:
  assumes "ParsePath False s = Inr p"
  shows "fullPathOk p"
proof -
  from assms obtain p0 q where p0: "newParser False s = Inr p0" and path: "parsePath (parseFuel s) p0 = Inr (p, q)"
    by (auto simp: ParsePath_def rbind_eq_Inr)
  have "sameFrame \<lparr>psRest = s, psTok = TokEOF, psLenient = False, psDepth = 0, psInValueFilter = False\<rparr> p0"
    using p0 by (intro advance_frame) (simp add: newParser_def)
  then have fr: "psDepth p0 = 0" "strictAt p0" by (simp_all add: sameFrame_def strictAt_def maxDepth_def)
  from path obtain w where tok: "psTok p0 = TokWord w" by (cases "psTok p0") (auto simp: parsePath_def)
  with path obtain urn attr sub where split: "splitAttrPath w = Some (urn, attr, sub)"
    by (cases "splitAttrPath w") (auto simp: parsePath_def)
  have w: "wordOk w" using fr(2) tok by (simp add: strictAt_def tokOk_def)
  from path tok split obtain p1 where adv: "advance p0 = Inr p1"
      and res: "(if psTok p1 = TokLBracket then parseValueFilterInto (parseFuel s) (FPath urn attr sub None) p1
        else Inr (FPath urn attr sub None, p1)) = Inr (p, q)"
    by (auto simp: parsePath_def Let_def rbind_eq_Inr split: if_splits)
  note str = splitAttrPath_string [OF split]
  note fr1 = advance_frame [OF adv]
  show ?thesis
  proof (cases "psTok p1 = TokLBracket")
    case True
    with res have into: "parseValueFilterInto (parseFuel s) (FPath urn attr sub None) p1 = Inr (p, q)" by simp
    from parseValueFilterInto_ok [OF this sameFrame_strict [OF fr1 fr(2)]] obtain f where
      p: "p = FPath urn attr (pathSub p) (Some f)" "exprOk True f" "depthOf f \<le> maxDepth" "sub = []"
        "pathSub p = [] \<or> validAttrName (pathSub p)"
      using fr(1) fr1 by (auto simp: sameFrame_def)
    then have "valueFilter p = Some f" "pathURN p = urn" "pathAttr p = attr"
      by (metis fpath.sel)+
    with p str split w show ?thesis by (simp add: fullPathOk_def basePath_def)
  next
    case False
    with res have "p = FPath urn attr sub None" by simp
    with str split w show ?thesis by (simp add: fullPathOk_def basePath_def)
  qed
qed

end
