(* ===== verification/Filter_Properties.thy ===== *)
theory Filter_Properties
  imports Samples Filter_RoundTrip
begin

text \<open>
  The properties of the filter language: the parser ends on every input, the evaluator is
  case insensitive in paths, what it rejects, and how null and numbers compare.
\<close>

text \<open>C10. The parsers end on every input: started with the fuel \<open>Parse\<close> and \<open>ParsePath\<close>
  compute from the length of the input, the recursion and the loops never run out, so the
  only failures are syntax errors.\<close>

theorem parsers_terminate:
  "Parse lenient s \<noteq> Inl OutOfFuel \<and> ParsePath lenient s \<noteq> Inl OutOfFuel"
  using Parse_total ParsePath_total by simp

text \<open>The letter case of the paths of a filter (URN, attribute and sub-attribute) does
  not change its evaluation, errors included.\<close>

theorem Match_case_insensitive:
  "Match res (foldPaths e) = Match res e"
  by (rule Match_foldPaths)


text \<open>Null, absent and the empty list are one: on a resource satisfying the invariant,
  \<open>eq null\<close> holds of a path exactly when \<open>pr\<close> does not.\<close>

theorem eq_null_is_absent:
  assumes "resourceOk res" and "resolveFilter (rRT res) p = Some r" and "\<not> existentialSub r"
  shows "evalExpr res (Compare p OpEqual LNull) \<longleftrightarrow> \<not> evalExpr res (Present p)"
  using assms by (rule eq_null_absent)

theorem eq_null_is_absent_witness:
  "evalExpr device (Compare (FPath [] ''load'' [] None) OpEqual LNull) \<and>
   \<not> evalExpr device (Compare (FPath [] ''Tags'' [] None) OpEqual LNull)"
proof -
  have ok: "resourceOk device" by code_simp
  have r: "resolveFilter (rRT device) (FPath [] ''load'' [] None) = Some (deviceAttrs ! 5, None)"
    "resolveFilter (rRT device) (FPath [] ''Tags'' [] None) = Some (deviceAttrs ! 6, None)"
    by code_simp+
  have "\<not> evalExpr device (Present (FPath [] ''load'' [] None))"
    "evalExpr device (Present (FPath [] ''Tags'' [] None))" by code_simp+
  with eq_null_is_absent [OF ok r(1)] eq_null_is_absent [OF ok r(2)] show ?thesis
    by (simp add: existentialSub_def)
qed

text \<open>C16. An integer attribute compares with an integer literal exactly, over the whole
  range of 64 bits: no conversion to a float stands between.\<close>

theorem integer_comparison_exact:
  assumes "attrType a = TypeInteger" and "parseInt64 n = Some w"
  shows "compareValue a (VInt64 g) o' (LNumber n) =
    (case o' of OpEqual \<Rightarrow> g = w | OpNotEqual \<Rightarrow> g \<noteq> w
     | OpGreaterThan \<Rightarrow> w < g | OpGreaterThanOrEqual \<Rightarrow> w \<le> g
     | OpLessThan \<Rightarrow> g < w | OpLessThanOrEqual \<Rightarrow> g \<le> w
     | _ \<Rightarrow> False)"
  using assms
  by (simp add: compareValue_def compareNumber_def compareOrdered_def cmpInt_def split: op.splits)

theorem integer_comparison_exact_witness:
  "compareValue (plainAttr ''n'' TypeInteger False MutabilityReadWrite ReturnedDefault)
     (VInt64 9007199254740993) OpGreaterThan (LNumber ''9007199254740992'')"
proof -
  have "attrType (plainAttr ''n'' TypeInteger False MutabilityReadWrite ReturnedDefault) = TypeInteger"
    "parseInt64 ''9007199254740992'' = Some 9007199254740992" by code_simp+
  from integer_comparison_exact [OF this, of 9007199254740993 OpGreaterThan] show ?thesis by simp
qed

text \<open>C8. Parse and print are inverse: the text \<open>String\<close> renders of a filter the strict parser
  accepted parses back to the same expression, in either mode. Precedence, associativity,
  string escapes and the nesting limit are all kept.\<close>

theorem filter_roundtrip:
  assumes "Parse False s = Inr e"
  shows "Parse lenient (exprString e) = Inr e"
  using strict_parse_ok [OF assms] by (rule parse_rendering)

theorem filter_roundtrip_witness:
  "Parse False ''not (a eq \"x\") and (b pr or c.d gt 5)'' =
     Inr (AndExpr (NotExpr (Compare (FPath [] ''a'' [] None) OpEqual (LString ''x'')))
       (OrExpr (Present (FPath [] ''b'' [] None)) (Compare (FPath [] ''c'' ''d'' None) OpGreaterThan (LNumber ''5'')))) \<and>
   Parse True ''not (a eq \"x\") and (b pr or c.d gt 5)'' = Parse False ''not (a eq \"x\") and (b pr or c.d gt 5)''"
proof -
  define e where "e = AndExpr (NotExpr (Compare (FPath [] ''a'' [] None) OpEqual (LString ''x'')))
       (OrExpr (Present (FPath [] ''b'' [] None)) (Compare (FPath [] ''c'' ''d'' None) OpGreaterThan (LNumber ''5'')))"
  have parse: "Parse False ''not (a eq \"x\") and (b pr or c.d gt 5)'' = Inr e" unfolding e_def by code_simp
  have print: "exprString e = ''not (a eq \"x\") and (b pr or c.d gt 5)''" unfolding e_def by code_simp
  from filter_roundtrip [OF parse, of True] print parse show ?thesis unfolding e_def by simp
qed

text \<open>What String renders of a path the strict parser accepted, with a value filter and a sub-attribute
  after it, parses back to the same path.\<close>

theorem path_roundtrip:
  assumes "ParsePath False s = Inr p"
  shows "ParsePath lenient (pathString p) = Inr p"
  using strict_path_ok [OF assms] by (rule path_rendering)

theorem path_roundtrip_witness:
  "ParsePath True (pathString (FPath ''urn:x'' ''ports'' ''type'' (Some (Present (FPath [] ''value'' [] None))))) =
     Inr (FPath ''urn:x'' ''ports'' ''type'' (Some (Present (FPath [] ''value'' [] None))))"
proof (rule path_roundtrip)
  show "ParsePath False ''urn:x:ports[value pr].type'' =
      Inr (FPath ''urn:x'' ''ports'' ''type'' (Some (Present (FPath [] ''value'' [] None))))" by code_simp
qed

end
