(* ===== verification/Patch_Decode.thy ===== *)
theory Patch_Decode
  imports Patch_Safety
begin

text \<open>
  \<open>patch/decode.go\<close>, \<open>patch/normalize.go\<close> and \<open>patch/encode.go\<close>: from a PatchOp message to
  normalised operations, and back. A message is the tree the JSON decoder yields. The passes
  that rewrite values in place return the rewritten operations here.
\<close>

subsection \<open>The envelope\<close>

definition MaxOperations :: nat where "MaxOperations = 1000"

definition MessagePatchOp :: string where
  "MessagePatchOp = ''urn:ietf:params:scim:api:messages:2.0:PatchOp''"

text \<open>One \<open>Operations\<close> element; \<open>None\<close> is an absent member.\<close>

record raw_op =
  roOp :: string
  roPath :: "string option"
  roValue :: "gval option"

text \<open>The member with the given folded key; the last one of the iteration wins.\<close>

definition foldedMember :: "cval \<Rightarrow> string \<Rightarrow> gval option" where
  "foldedMember obj key = foldl (\<lambda>acc kv. if foldName (fst kv) = key then Some (snd kv) else acc) None obj"

definition checkSchemas :: "gval option \<Rightarrow> (scim_error, unit) res" where
  "checkSchemas schemas =
     (case schemas of
        Some (VList xs) \<Rightarrow>
          if list_ex (\<lambda>e. case e of VString s \<Rightarrow> foldName s = foldName MessagePatchOp | _ \<Rightarrow> False) xs
          then Inr () else Inl ErrInvalidSyntax
      | _ \<Rightarrow> Inl ErrInvalidSyntax)"

definition rawOpStep ::
    "string \<times> gval \<Rightarrow> string option \<times> string option \<times> gval option \<Rightarrow>
      (scim_error, string option \<times> string option \<times> gval option) res" where
  "rawOpStep kv st =
     (case st of (op, path, value) \<Rightarrow>
        if foldName (fst kv) = ''op'' then
          (case snd kv of VString s \<Rightarrow> Inr (Some s, path, value) | _ \<Rightarrow> Inl ErrInvalidSyntax)
        else if foldName (fst kv) = ''path'' then
          (case snd kv of VString s \<Rightarrow> Inr (op, Some s, value) | _ \<Rightarrow> Inl ErrInvalidPath)
        else if foldName (fst kv) = ''value'' then Inr (op, path, Some (snd kv))
        else Inr st)"

definition parseRawOp :: "gval \<Rightarrow> (scim_error, raw_op) res" where
  "parseRawOp elem =
     (case elem of
        VMap obj \<Rightarrow>
          rbind (rfold rawOpStep obj (None, None, None)) (\<lambda>(op, path, value).
            case op of
              None \<Rightarrow> Inl ErrInvalidSyntax
            | Some s \<Rightarrow> Inr \<lparr>roOp = s, roPath = path, roValue = value\<rparr>)
      | _ \<Rightarrow> Inl ErrInvalidSyntax)"

text \<open>A loop that collects one result per element.\<close>

definition collect :: "('a \<Rightarrow> ('e, 'b) res) \<Rightarrow> 'a list \<Rightarrow> ('e, 'b list) res" where
  "collect f xs = rfold (\<lambda>x out. rbind (f x) (\<lambda>y. Inr (out @ [y]))) xs []"

definition parseEnvelope :: "gval \<Rightarrow> (scim_error, raw_op list) res" where
  "parseEnvelope doc =
     (case doc of
        VMap obj \<Rightarrow>
          rbind (checkSchemas (foldedMember obj ''schemas'')) (\<lambda>_.
            case foldedMember obj ''operations'' of
              Some (VList xs) \<Rightarrow>
                if xs = [] then Inl ErrInvalidSyntax
                else if MaxOperations < length xs then Inl ErrInvalidSyntax
                else collect parseRawOp xs
            | _ \<Rightarrow> Inl ErrInvalidSyntax)
      | _ \<Rightarrow> Inl ErrInvalidSyntax)"

subsection \<open>One operation\<close>

definition kindOf :: "string \<Rightarrow> kind" where
  "kindOf s =
     (if s = ''add'' then KindAdd else if s = ''remove'' then KindRemove
      else if s = ''replace'' then KindReplace else KindOther s)"

definition parseKind :: "string \<Rightarrow> profile \<Rightarrow> (scim_error, kind) res" where
  "parseKind op p =
     (let k = kindOf (if CaseInsensitiveOps p then foldName op else op) in
      if kindValid k then Inr k else Inl ErrInvalidSyntax)"

definition buildOp :: "profile \<Rightarrow> raw_op \<Rightarrow> (scim_error, patch_op) res" where
  "buildOp p ro =
     rbind (parseKind (roOp ro) p) (\<lambda>k.
     rbind (case roPath ro of
              None \<Rightarrow> Inr None
            | Some s \<Rightarrow> rbind (ParsePathErr (LenientPaths p) s) (\<lambda>q. Inr (Some q))) (\<lambda>path.
       if k = KindRemove then
         (case roValue ro of
            None \<Rightarrow> Inr \<lparr>opKind = k, opPath = path, opValue = VNil\<rparr>
          | Some v \<Rightarrow>
              if \<not> RemoveValueAsSelector p then Inl ErrInvalidValue
              else Inr \<lparr>opKind = k, opPath = path, opValue = v\<rparr>)
       else
         (case roValue ro of
            None \<Rightarrow> Inl ErrInvalidValue
          | Some v \<Rightarrow>
              if v = VNil then Inl ErrInvalidValue
              else Inr \<lparr>opKind = k, opPath = path, opValue = v\<rparr>)))"

subsection \<open>Flattened keys\<close>

definition isFlattenedKey :: "string \<Rightarrow> bool" where
  "isFlattenedKey k \<longleftrightarrow> CHR ''.'' \<in> set k \<or> prefix urnPrefix (foldName k)"

definition isPathlessReplace :: "profile \<Rightarrow> raw_op \<Rightarrow> bool" where
  "isPathlessReplace p ro \<longleftrightarrow> parseKind (roOp ro) p = Inr KindReplace \<and> roPath ro = None"

definition splitFlattenedKeys :: "cval \<Rightarrow> string \<Rightarrow> cval \<times> raw_op list" where
  "splitFlattenedKeys obj op =
     (filter (\<lambda>kv. \<not> isFlattenedKey (fst kv)) obj,
      map (\<lambda>kv. \<lparr>roOp = op, roPath = Some (fst kv), roValue = Some (snd kv)\<rparr>)
        (sortedEntries (filter (\<lambda>kv. isFlattenedKey (fst kv)) obj)))"

definition expandOne :: "profile \<Rightarrow> raw_op \<Rightarrow> raw_op list" where
  "expandOne p ro =
     (if \<not> isPathlessReplace p ro then [ro]
      else case roValue ro of
        Some (VMap obj) \<Rightarrow>
          (case splitFlattenedKeys obj (roOp ro) of (plain, expanded) \<Rightarrow>
             (if plain = [] then []
              else [\<lparr>roOp = roOp ro, roPath = None, roValue = Some (VMap plain)\<rparr>]) @ expanded)
      | _ \<Rightarrow> [ro])"

definition expandPathlessReplace :: "profile \<Rightarrow> raw_op list \<Rightarrow> raw_op list" where
  "expandPathlessReplace p raws = concat (map (expandOne p) raws)"

subsection \<open>Remove selectors\<close>

definition scalarLiteral :: "gval \<Rightarrow> literal option" where
  "scalarLiteral v =
     (case v of
        VString s \<Rightarrow> Some (LString s) | VBool b \<Rightarrow> Some (LBool b) | VNumber n \<Rightarrow> Some (LNumber n)
      | _ \<Rightarrow> None)"

definition eqClause :: "string \<Rightarrow> literal \<Rightarrow> expr" where
  "eqClause k l = Compare (FPath [] k [] None) OpEqual l"

text \<open>The scalar members of the object, null members left out.\<close>

definition selectorStep ::
    "string \<times> gval \<Rightarrow> (string \<times> literal) list \<Rightarrow> (scim_error, (string \<times> literal) list) res" where
  "selectorStep kv out =
     (if snd kv = VNil then Inr out
      else case scalarLiteral (snd kv) of
        Some l \<Rightarrow> Inr (out @ [(fst kv, l)])
      | None \<Rightarrow> Inl ErrInvalidValue)"

definition selectorObjectFilter :: "cval \<Rightarrow> (scim_error, expr) res" where
  "selectorObjectFilter obj =
     rbind (rfold selectorStep obj []) (\<lambda>members.
       case sort_key (\<lambda>kl. foldName (fst kl)) members of
         [] \<Rightarrow> Inl ErrInvalidValue
       | kl # rest \<Rightarrow>
           Inr (foldl (\<lambda>e x. AndExpr e (eqClause (fst x) (snd x))) (eqClause (fst kl) (snd kl)) rest))"

definition selectorFilter :: "gval \<Rightarrow> (scim_error, expr) res" where
  "selectorFilter elem =
     (case scalarLiteral elem of
        Some l \<Rightarrow> Inr (eqClause subAttrValue l)
      | None \<Rightarrow> (case elem of VMap obj \<Rightarrow> selectorObjectFilter obj | _ \<Rightarrow> Inl ErrInvalidValue))"

definition rewriteOne :: "patch_op \<Rightarrow> (scim_error, patch_op list) res" where
  "rewriteOne op =
     (if opKind op \<noteq> KindRemove \<or> opValue op = VNil then Inr [op]
      else case opPath op of
        None \<Rightarrow> Inl ErrInvalidPath
      | Some p \<Rightarrow>
          if valueFilter p \<noteq> None \<or> pathSub p \<noteq> [] then Inl ErrInvalidPath
          else collect (\<lambda>elem. rbind (selectorFilter elem) (\<lambda>vf.
                 Inr \<lparr>opKind = KindRemove, opPath = Some (FPath (pathURN p) (pathAttr p) [] (Some vf)),
                      opValue = VNil\<rparr>))
               (case opValue op of VList xs \<Rightarrow> xs | v \<Rightarrow> [v]))"

definition rewriteRemoveSelectors :: "patch_op list \<Rightarrow> (scim_error, patch_op list) res" where
  "rewriteRemoveSelectors ops = rbind (collect rewriteOne ops) (\<lambda>xss. Inr (concat xss))"

subsection \<open>Wrapped values\<close>

text \<open>The single non-null member of a wrapper object, when its key is \<open>value\<close>.\<close>

definition unwrapSimple :: "gval \<Rightarrow> gval" where
  "unwrapSimple v0 =
     (let v = (case v0 of VList [x] \<Rightarrow> x | _ \<Rightarrow> v0) in
      case v of
        VMap obj \<Rightarrow>
          (case filter (\<lambda>kv. snd kv \<noteq> VNil) obj of
             [(k, member)] \<Rightarrow>
               if foldName k = subAttrValue \<and> scalarLiteral member \<noteq> None then member else v
           | _ \<Rightarrow> v)
      | _ \<Rightarrow> v)"

definition unwrapOp :: "resource_type \<Rightarrow> patch_op \<Rightarrow> patch_op" where
  "unwrapOp rt op =
     (case opPath op of
        None \<Rightarrow> op
      | Some p \<Rightarrow>
          if opKind op \<noteq> KindAdd \<and> opKind op \<noteq> KindReplace then op
          else case resolvePatchTarget rt p of
            None \<Rightarrow> op
          | Some (attr, sub) \<Rightarrow>
              let target = (case sub of Some s \<Rightarrow> s | None \<Rightarrow> attr) in
              if attrType target = TypeComplex then op
              else case (opValue op, multiValued target \<and> sub = None) of
                (VList xs, True) \<Rightarrow> op\<lparr>opValue := VList (map unwrapSimple xs)\<rparr>
              | _ \<Rightarrow> op\<lparr>opValue := unwrapSimple (opValue op)\<rparr>)"

subsection \<open>String primitives\<close>

definition coercePrimitive :: "attribute \<Rightarrow> gval \<Rightarrow> gval" where
  "coercePrimitive a v =
     (case v of
        VString s \<Rightarrow>
          (case attrType a of
             TypeBoolean \<Rightarrow>
               if foldName s = ''true'' then VBool True
               else if foldName s = ''false'' then VBool False else v
           | TypeInteger \<Rightarrow> if parseInt64 s \<noteq> None then VNumber s else v
           | TypeDecimal \<Rightarrow> if parseFloat64 s \<noteq> None then VNumber s else v
           | _ \<Rightarrow> v)
      | _ \<Rightarrow> v)"

definition coerceScalarOrList :: "attribute \<Rightarrow> gval \<Rightarrow> gval" where
  "coerceScalarOrList a v =
     (case v of
        VList xs \<Rightarrow> if multiValued a then VList (map (coercePrimitive a) xs) else coercePrimitive a v
      | _ \<Rightarrow> coercePrimitive a v)"

lemma findAttribute_size: "findAttribute as k = Some s \<Longrightarrow> size s < Suc (size_list size as)"
  using findAttribute_SomeD [of as k s] size_list_estimation' [of s as "size s" size] by simp

function coerceForAttr :: "attribute \<Rightarrow> gval \<Rightarrow> gval" where
  "coerceForAttr a v =
     (if attrType a = TypeComplex then
        (let obj = (\<lambda>o'. map (\<lambda>kv. (fst kv,
               case findAttribute (subAttributes a) (fst kv) of
                 None \<Rightarrow> snd kv | Some s \<Rightarrow> coerceForAttr s (snd kv))) o')
         in case v of
              VList xs \<Rightarrow> VList (map (\<lambda>e. case e of VMap o' \<Rightarrow> VMap (obj o') | _ \<Rightarrow> e) xs)
            | VMap o' \<Rightarrow> VMap (obj o')
            | _ \<Rightarrow> v)
      else coerceScalarOrList a v)"
  by auto
termination
proof (relation "measure (\<lambda>(a, v). size a)")
  fix a :: attribute and kv :: "string \<times> gval" and v s
  assume "findAttribute (subAttributes a) (fst kv) = Some s"
  then show "((s, snd kv), a, v) \<in> measure (\<lambda>(a, v). size a)"
    by (cases a) (auto dest: findAttribute_size)
qed simp

declare coerceForAttr.simps [simp del]

definition coerceObject :: "attribute list \<Rightarrow> cval \<Rightarrow> cval" where
  "coerceObject attrs obj =
     map (\<lambda>kv. (fst kv,
       case findAttribute attrs (fst kv) of None \<Rightarrow> snd kv | Some a \<Rightarrow> coerceForAttr a (snd kv))) obj"

definition coercePathlessEntry :: "resource_type \<Rightarrow> string \<times> gval \<Rightarrow> string \<times> gval" where
  "coercePathlessEntry rt kv =
     (fst kv,
      case extensionAttrs rt (fst kv) of
        Some ext \<Rightarrow> (case snd kv of VMap inner \<Rightarrow> VMap (coerceObject ext inner) | v \<Rightarrow> v)
      | None \<Rightarrow>
          (case pathlessTarget rt (fst kv) of
             None \<Rightarrow> snd kv | Some a \<Rightarrow> coerceForAttr a (snd kv)))"

definition coercePathless :: "resource_type \<Rightarrow> cval \<Rightarrow> cval" where
  "coercePathless rt obj = map (coercePathlessEntry rt) obj"

definition coerceOp :: "resource_type \<Rightarrow> patch_op \<Rightarrow> patch_op" where
  "coerceOp rt op =
     (if opKind op \<noteq> KindAdd \<and> opKind op \<noteq> KindReplace then op
      else case opPath op of
        None \<Rightarrow>
          (case opValue op of VMap obj \<Rightarrow> op\<lparr>opValue := VMap (coercePathless rt obj)\<rparr> | _ \<Rightarrow> op)
      | Some p \<Rightarrow>
          (case resolvePatchTarget rt p of
             None \<Rightarrow> op
           | Some (attr, Some s) \<Rightarrow> op\<lparr>opValue := coerceScalarOrList s (opValue op)\<rparr>
           | Some (attr, None) \<Rightarrow> op\<lparr>opValue := coerceForAttr attr (opValue op)\<rparr>))"

subsection \<open>Decode and EncodeOps\<close>

definition Decode :: "gval \<Rightarrow> resource_type \<Rightarrow> profile \<Rightarrow> (scim_error, patch_op list) res" where
  "Decode body rt p =
     rbind (parseEnvelope body) (\<lambda>raws.
     rbind (collect (buildOp p) (if ExpandPathlessReplace p then expandPathlessReplace p raws else raws)) (\<lambda>ops.
     rbind (if RemoveValueAsSelector p then rewriteRemoveSelectors ops else Inr ops) (\<lambda>ops'.
       Inr (if CoerceStringPrimitives p
            then map (coerceOp rt) (map (unwrapOp rt) ops') else ops'))))"

definition kindText :: "kind \<Rightarrow> string" where
  "kindText k =
     (case k of KindAdd \<Rightarrow> ''add'' | KindRemove \<Rightarrow> ''remove'' | KindReplace \<Rightarrow> ''replace''
      | KindOther s \<Rightarrow> s)"

text \<open>\<open>omitempty\<close> leaves out an absent path and a nil value.\<close>

definition pathMember :: "fpath \<Rightarrow> cval" where
  "pathMember p = (let s = pathString p in if s = [] then [] else [(''path'', VString s)])"

definition encodeOp :: "patch_op \<Rightarrow> (go_error, cval) res" where
  "encodeOp op =
     (if \<not> kindValid (opKind op) then Inl OtherErr
      else if opKind op = KindRemove then
        (case opPath op of
           None \<Rightarrow> Inl OtherErr
         | Some p \<Rightarrow> Inr ((''op'', VString (kindText (opKind op))) # pathMember p))
      else if opValue op = VNil then Inl OtherErr
      else Inr ((''op'', VString (kindText (opKind op))) #
             (case opPath op of None \<Rightarrow> [] | Some p \<Rightarrow> pathMember p) @
             [(''value'', opValue op)]))"

definition EncodeOps :: "patch_op list \<Rightarrow> (go_error, gval) res" where
  "EncodeOps ops =
     (if ops = [] then Inl OtherErr
      else rbind (collect encodeOp ops) (\<lambda>objs.
        Inr (VMap [(''schemas'', VList [VString MessagePatchOp]), (''Operations'', VList (map VMap objs))])))"


subsection \<open>What Decode returns\<close>

lemma collect_Inr: "collect f xs = Inr ys \<longleftrightarrow> list_all2 (\<lambda>x y. f x = Inr y) xs ys"
proof -
  have "rfold (\<lambda>x out. rbind (f x) (\<lambda>y. Inr (out @ [y]))) xs acc = Inr zs \<longleftrightarrow>
      (\<exists>ys. zs = acc @ ys \<and> list_all2 (\<lambda>x y. f x = Inr y) xs ys)" for acc zs
  proof (induction xs arbitrary: acc)
    case (Cons x xs)
    show ?case
    proof (cases "f x")
      case (Inr y)
      then show ?thesis using Cons.IH [of "acc @ [y]"] by (auto simp: list_all2_Cons1)
    qed (simp add: list_all2_Cons1)
  qed auto
  from this [of "[]" ys] show ?thesis by (simp add: collect_def)
qed

lemma collect_all:
  assumes "collect f xs = Inr ys" and "\<And>x y. x \<in> set xs \<Longrightarrow> f x = Inr y \<Longrightarrow> P y"
  shows "\<forall>y \<in> set ys. P y"
proof
  fix y assume "y \<in> set ys"
  then obtain i where i: "i < length ys" "y = ys ! i" by (auto simp: in_set_conv_nth)
  with assms(1) have "f (xs ! i) = Inr y" "xs ! i \<in> set xs"
    by (auto simp: collect_Inr list_all2_conv_all_nth)
  with assms(2) show "P y" by blast
qed

lemma splitAttrPath_valid:
  "splitAttrPath word = Some (urn, attr, sub) \<Longrightarrow> validAttrName attr \<and> (sub = [] \<or> validAttrName sub)"
  by (auto simp: splitAttrPath_def split: option.splits prod.splits if_splits dest: cut_not_found)

lemma parseValueFilterInto_valid:
  assumes "parseValueFilterInto n path p = Inr (path', p')" and "validPath path"
  shows "validPath path'"
proof -
  from assms(1) obtain f q where res: "(case psTok q of
          TokWord w \<Rightarrow>
            (case w of
               c # subWord \<Rightarrow>
                 if c \<noteq> CHR ''.'' \<or> \<not> validAttrName subWord then Inl SyntaxError
                 else rbind (advance q) (\<lambda>p.
                        Inr (FPath (pathURN path) (pathAttr path) subWord (Some f), p))
             | [] \<Rightarrow> Inl SyntaxError)
        | _ \<Rightarrow> Inr (FPath (pathURN path) (pathAttr path) (pathSub path) (Some f), q)) = Inr (path', p')"
    by (auto simp: parseValueFilterInto_def res_simps split: if_splits)
  show ?thesis
  proof (cases "psTok q")
    case (TokWord w)
    with res assms(2) show ?thesis
      by (cases w) (auto simp: res_simps validPath_def split: if_splits)
  qed (use res assms(2) in \<open>auto simp: validPath_def\<close>)
qed

lemma ParsePath_valid:
  assumes "ParsePath lenient s = Inr path" shows "validPath path"
proof -
  from assms obtain p q where res: "parsePath (parseFuel s) p = Inr (path, q)"
    by (auto simp: ParsePath_def res_simps)
  then obtain word where tok: "psTok p = TokWord word"
    by (cases "psTok p") (auto simp: parsePath_def)
  with res obtain urn attr sub where split: "splitAttrPath word = Some (urn, attr, sub)"
    by (cases "splitAttrPath word") (auto simp: parsePath_def)
  with res tok obtain r where "path = FPath urn attr sub None \<or>
      parseValueFilterInto (parseFuel s) (FPath urn attr sub None) r = Inr (path, q)"
    by (auto simp: parsePath_def Let_def res_simps split: if_splits)
  moreover from splitAttrPath_valid [OF split] have "validPath (FPath urn attr sub None)"
    by (simp add: validPath_def)
  ultimately show ?thesis using parseValueFilterInto_valid by blast
qed

definition opNormal :: "patch_op \<Rightarrow> bool" where
  "opNormal op \<longleftrightarrow>
     kindValid (opKind op) \<and> opValid op \<and> (opKind op = KindRemove \<longrightarrow> opValue op = VNil)"

lemma buildOp_normal:
  assumes "buildOp p ro = Inr op"
  shows "kindValid (opKind op)" and "opValid op"
    and "\<not> RemoveValueAsSelector p \<Longrightarrow> opKind op = KindRemove \<Longrightarrow> opValue op = VNil"
proof -
  from assms obtain k path where k: "parseKind (roOp ro) p = Inr k" "opKind op = k" "opPath op = path"
      and path: "(case roPath ro of None \<Rightarrow> Inr None
        | Some s \<Rightarrow> rbind (ParsePathErr (LenientPaths p) s) (\<lambda>q. Inr (Some q))) = Inr path"
    by (auto simp: buildOp_def res_simps split: if_splits option.splits)
  from k show "kindValid (opKind op)" by (auto simp: parseKind_def Let_def split: if_splits)
  from path k(3) show "opValid op"
    by (auto simp: opValid_def ParsePathErr_def res_simps split: option.splits dest: ParsePath_valid)
  show "opValue op = VNil" if "\<not> RemoveValueAsSelector p" "opKind op = KindRemove"
    using assms that by (auto simp: buildOp_def res_simps split: if_splits option.splits)
qed

lemma rewriteOne_normal:
  assumes "rewriteOne op = Inr ops" and "kindValid (opKind op)" and "opValid op"
  shows "\<forall>o' \<in> set ops. opNormal o'"
proof (cases "opKind op \<noteq> KindRemove \<or> opValue op = VNil")
  case True
  with assms show ?thesis by (auto simp: rewriteOne_def opNormal_def)
next
  case False
  with assms(1) obtain q xs where q: "opPath op = Some q"
      and c: "collect (\<lambda>elem. rbind (selectorFilter elem) (\<lambda>vf.
                 Inr \<lparr>opKind = KindRemove, opPath = Some (FPath (pathURN q) (pathAttr q) [] (Some vf)),
                      opValue = VNil\<rparr>)) xs = Inr ops"
    by (auto simp: rewriteOne_def split: option.splits if_splits)
  show ?thesis
    by (rule collect_all [OF c])
      (use assms(3) q in \<open>auto simp: res_simps opNormal_def opValid_def validPath_def kindValid_def\<close>)
qed

lemma passes_normal:
  assumes "opNormal op" shows "opNormal (coerceOp rt (unwrapOp rt op))"
proof -
  have u: "opKind (unwrapOp rt op) = opKind op" "opPath (unwrapOp rt op) = opPath op"
    "opKind op = KindRemove \<Longrightarrow> unwrapOp rt op = op"
    by (auto simp: unwrapOp_def Let_def split: option.splits prod.splits gval.splits bool.splits)
  have c: "opKind (coerceOp rt x) = opKind x" "opPath (coerceOp rt x) = opPath x"
    "opKind x = KindRemove \<Longrightarrow> coerceOp rt x = x" for x
    by (auto simp: coerceOp_def split: option.splits prod.splits gval.splits)
  show ?thesis
    using assms u c(1,2) [of "unwrapOp rt op"] c(3) [of op]
    by (cases "opKind op = KindRemove") (auto simp: opNormal_def opValid_def)
qed

lemma Decode_normal:
  assumes "Decode body rt p = Inr ops" shows "\<forall>op \<in> set ops. opNormal op"
proof -
  from assms obtain raws built ops' where
    built: "collect (buildOp p) raws = Inr built"
    and sel: "(if RemoveValueAsSelector p then rewriteRemoveSelectors built else Inr built) = Inr ops'"
    and ops: "ops = (if CoerceStringPrimitives p then map (coerceOp rt) (map (unwrapOp rt) ops') else ops')"
    by (auto simp: Decode_def res_simps)
  have b: "\<forall>op \<in> set built. kindValid (opKind op) \<and> opValid op \<and>
      (\<not> RemoveValueAsSelector p \<longrightarrow> opKind op = KindRemove \<longrightarrow> opValue op = VNil)"
    by (rule collect_all [OF built]) (use buildOp_normal in blast)
  have "\<forall>op \<in> set ops'. opNormal op"
  proof (cases "RemoveValueAsSelector p")
    case True
    with sel obtain xss where xss: "collect rewriteOne built = Inr xss" and "ops' = concat xss"
      by (auto simp: rewriteRemoveSelectors_def res_simps)
    moreover have "\<forall>xs \<in> set xss. \<forall>o' \<in> set xs. opNormal o'"
      by (rule collect_all [OF xss]) (use b rewriteOne_normal in blast)
    ultimately show ?thesis by auto
  qed (use b sel in \<open>auto simp: opNormal_def\<close>)
  with passes_normal show ?thesis by (auto simp: ops)
qed

text \<open>At most \<open>MaxOperations\<close> elements are accepted.\<close>

lemma parseEnvelope_bound:
  assumes "parseEnvelope doc = Inr raws" shows "raws \<noteq> [] \<and> length raws \<le> MaxOperations"
proof -
  from assms obtain xs where "xs \<noteq> []" "length xs \<le> MaxOperations" "collect parseRawOp xs = Inr raws"
    by (auto simp: parseEnvelope_def res_simps split: gval.splits option.splits if_splits)
  then show ?thesis by (auto simp: collect_Inr dest: list_all2_lengthD)
qed

end
