(* ===== verification/Patch_Add.thy ===== *)
theory Patch_Add
  imports Patch_Decode
begin

text \<open>
  Laws of the element operations of \<open>patch/apply_add.go\<close>: adding what is already there adds
  nothing, a new primary leaves one primary, and what the typed slices of \<open>scim/value.go\<close>
  mean for the engine.
\<close>

subsection \<open>Appending\<close>

text \<open>An element with a \<open>value\<close> equal to itself: every element an IdP adds by its id.\<close>

definition keyed :: "cval \<Rightarrow> bool" where
  "keyed e \<longleftrightarrow> (case aget e subAttrValue of Some v \<Rightarrow> valuesEqual v v | None \<Rightarrow> False)"

lemma hasDuplicate_keyed:
  "keyed e \<Longrightarrow> hasDuplicateElement xs e \<longleftrightarrow>
     (\<exists>x \<in> set xs. valuesEqual (agetNil x subAttrValue) (agetNil e subAttrValue))"
  by (auto simp: keyed_def hasDuplicateElement_def agetNil_def list_ex_iff split: option.splits)

lemma appendComplex_prefix:
  "\<exists>new. fst (foldl appendComplexStep (xs, idx) inc) = xs @ new"
proof (induction inc arbitrary: xs idx)
  case (Cons e inc)
  show ?case
  proof (cases "hasDuplicateElement xs e")
    case True
    with Cons.IH [of xs idx] show ?thesis by (simp add: appendComplexStep_def)
  next
    case False
    with Cons.IH [of "xs @ [e]" "length xs # idx"] show ?thesis
      by (auto simp: appendComplexStep_def)
  qed
qed simp

lemma appendComplex_covers:
  assumes "list_all keyed inc"
  shows "\<forall>e \<in> set inc. hasDuplicateElement (fst (foldl appendComplexStep (xs, idx) inc)) e"
  using assms
proof (induction inc arbitrary: xs idx)
  case (Cons e inc)
  then have k: "keyed e" and inc: "list_all keyed inc" by auto
  define st where "st = appendComplexStep (xs, idx) e"
  have here: "hasDuplicateElement (fst st) e"
    using k by (auto simp: st_def appendComplexStep_def hasDuplicate_keyed)
      (auto simp: keyed_def agetNil_def split: option.splits)
  obtain new where "fst (foldl appendComplexStep st inc) = fst st @ new"
    using appendComplex_prefix [of "fst st" "snd st" inc] by auto
  with here k have "hasDuplicateElement (fst (foldl appendComplexStep st inc)) e"
    by (auto simp: hasDuplicate_keyed)
  with Cons.IH [OF inc, of "fst st" "snd st"] show ?case by (simp add: st_def)
qed simp

lemma appendComplex_dups:
  "\<forall>e \<in> set inc. hasDuplicateElement xs e \<Longrightarrow> foldl appendComplexStep (xs, idx) inc = (xs, idx)"
  by (induction inc) (auto simp: appendComplexStep_def)

lemma demoteOthers_nth:
  "i < length xs \<Longrightarrow> demoteOthers xs keep ! i = xs ! i \<or>
     primaryTrue (xs ! i) \<and> demoteOthers xs keep ! i = aput attrPrimary (VBool False) (xs ! i)"
  by (auto simp: demoteOthers_def nth_enumerate_eq)

lemma length_demoteOthers [simp]: "length (demoteOthers xs keep) = length xs"
  by (simp add: demoteOthers_def)

lemma demoteOthers_value:
  "i < length xs \<Longrightarrow>
     agetNil (demoteOthers xs keep ! i) subAttrValue = agetNil (xs ! i) subAttrValue"
  using demoteOthers_nth [of i xs keep]
  by (auto simp: agetNil_def subAttrValue_def attrPrimary_def)

lemma demoteOthers_values:
  "map (\<lambda>x. agetNil x subAttrValue) (demoteOthers xs keep) = map (\<lambda>x. agetNil x subAttrValue) xs"
  by (rule nth_equalityI) (simp_all add: demoteOthers_value)

lemma hasDuplicate_values:
  "keyed e \<Longrightarrow> hasDuplicateElement xs e \<longleftrightarrow>
     list_ex (\<lambda>v. valuesEqual v (agetNil e subAttrValue)) (map (\<lambda>x. agetNil x subAttrValue) xs)"
  by (simp add: hasDuplicate_keyed list_ex_iff)

lemma demoteOthers_duplicate:
  "keyed e \<Longrightarrow> hasDuplicateElement (demoteOthers xs keep) e = hasDuplicateElement xs e"
  by (simp only: hasDuplicate_values demoteOthers_values)

lemma appendComplex_index:
  "idx \<noteq> [] \<Longrightarrow> snd (foldl appendComplexStep (xs, idx) inc) \<noteq> []"
proof (induction inc arbitrary: xs idx)
  case (Cons e inc)
  obtain ys jdx where st: "appendComplexStep (xs, idx) e = (ys, jdx)" by (cases "appendComplexStep (xs, idx) e")
  with Cons.prems have "jdx \<noteq> []" by (auto simp: appendComplexStep_def split: if_splits)
  from Cons.IH [OF this] show ?case by (simp add: st)
qed simp

lemma appendComplex_unchanged:
  "snd (foldl appendComplexStep (xs, []) inc) = [] \<Longrightarrow> fst (foldl appendComplexStep (xs, []) inc) = xs"
proof (induction inc)
  case (Cons e inc)
  show ?case
  proof (cases "hasDuplicateElement xs e")
    case True
    with Cons show ?thesis by (simp add: appendComplexStep_def)
  next
    case False
    then obtain j js where "appendComplexStep (xs, []) e = (xs @ [e], j # js)"
      by (auto simp: appendComplexStep_def)
    with Cons.prems appendComplex_index [of "j # js" "xs @ [e]" inc] show ?thesis by simp
  qed
qed simp

text \<open>Adding the same elements again adds nothing.\<close>

lemma appendComplexElements_again:
  assumes "list_all keyed inc" and "appendComplexElements ex inc = (out, added)"
  shows "appendComplexElements out inc = (out, False)"
proof -
  define st where "st = foldl appendComplexStep (ex, []) inc"
  have covers: "\<forall>e \<in> set inc. hasDuplicateElement (fst st) e"
    using appendComplex_covers [OF assms(1)] by (simp add: st_def)
  have same: "snd st = [] \<Longrightarrow> fst st = ex"
    using appendComplex_unchanged [of ex inc] by (simp add: st_def)
  have out: "out = (if snd st = [] then ex else demoteOthers (fst st) (snd st))"
    using assms(2) by (auto simp: appendComplexElements_def st_def split: prod.splits if_splits)
  have "\<forall>e \<in> set inc. hasDuplicateElement out e"
    using covers same demoteOthers_duplicate assms(1) by (auto simp: out list_all_iff)
  from appendComplex_dups [OF this] show ?thesis by (simp add: appendComplexElements_def)
qed

subsection \<open>One primary\<close>

text \<open>Writing one element of a list with at most one primary leaves at most one.\<close>

lemma demoteOthers_primary:
  assumes "i < length xs"
    and "length (filter primaryTrue xs) \<le> 1 \<or> primaryTrue (xs ! i)"
  shows "length (filter primaryTrue (demoteOthers xs [i])) \<le> 1"
proof (cases "primaryTrue (xs ! i)")
  case False
  with assms show ?thesis by (simp add: demoteOthers_def)
next
  case True
  have demoted: "\<not> primaryTrue (aput attrPrimary (VBool False) x)" for x
    by (simp add: primaryTrue_def)
  have "\<not> primaryTrue (demoteOthers xs [i] ! j)" if "j < length xs" "j \<noteq> i" for j
    using that assms(1) True demoted by (auto simp: demoteOthers_def nth_enumerate_eq)
  then have "{j. j < length xs \<and> primaryTrue (demoteOthers xs [i] ! j)} \<subseteq> {i}" by auto
  then have "card {j. j < length xs \<and> primaryTrue (demoteOthers xs [i] ! j)} \<le> card {i}"
    by (intro card_mono) auto
  then show ?thesis by (simp add: length_filter_conv_card)
qed

subsection \<open>Elements keep their stored form\<close>

lemma demoted_stored:
  assumes "storedComplex subs x" and "primaryTrue x"
  shows "storedComplex subs (aput attrPrimary (VBool False) x)"
proof -
  from assms(2) have "aget x attrPrimary = Some (VBool True)" by (simp add: primaryTrue_def)
  from aget_in_set [OF this] assms(1) have "storedEntry subs (attrPrimary, VBool True)"
    by (auto simp: storedComplex_def list_all_iff)
  then have "storedEntry subs (attrPrimary, VBool False)"
    by (auto simp: storedEntry_def stored_defs isStoredScalar_def split: option.splits if_splits)
  with assms(1) show ?thesis by (simp add: storedComplex_partial partialComplex_aput)
qed

lemma demoteOthers_stored:
  "list_all (storedComplex subs) xs \<Longrightarrow> list_all (storedComplex subs) (demoteOthers xs keep)"
  using demoteOthers_nth [of _ xs keep] demoted_stored
  by (fastforce simp: list_all_length)

lemma appendComplex_stored:
  "list_all P xs \<Longrightarrow> list_all P inc \<Longrightarrow> list_all P (fst (foldl appendComplexStep (xs, idx) inc))"
  by (induction inc arbitrary: xs idx) (auto simp: appendComplexStep_def)

lemma appendComplexElements_stored:
  assumes "list_all (storedComplex subs) ex" and "list_all (storedComplex subs) inc"
  shows "list_all (storedComplex subs) (fst (appendComplexElements ex inc))"
  using appendComplex_stored [OF assms, of "[]"] assms(1)
  by (auto simp: appendComplexElements_def demoteOthers_stored split: prod.splits)

subsection \<open>Adding twice\<close>

text \<open>Values whose elements are found again: strings, and complex elements with a
  \<open>value\<close>.\<close>

definition keyedElements :: "gval \<Rightarrow> bool" where
  "keyedElements v \<longleftrightarrow>
     (case v of VMulti es \<Rightarrow> list_all keyed es | VStrings _ \<Rightarrow> True | _ \<Rightarrow> False)"

lemma appendStep_set: "set (fst (foldl (appendStep (=)) (xs, b) inc)) = set xs \<union> set inc"
proof (induction inc arbitrary: xs b)
  case (Cons e inc)
  obtain ys c where st: "appendStep (=) (xs, b) e = (ys, c)" by (cases "appendStep (=) (xs, b) e")
  then have "set ys = insert e (set xs)" by (auto simp: appendStep_def list_ex_iff split: if_splits)
  with st Cons.IH show ?case by simp
qed simp

lemma appendStep_dups:
  "set inc \<subseteq> set xs \<Longrightarrow> foldl (appendStep (=)) (xs, b) inc = (xs, b)"
  by (induction inc) (auto simp: appendStep_def list_ex_iff)

lemma appendFunc_again:
  "appendFunc (=) (fst (appendFunc (=) ex inc)) inc = (fst (appendFunc (=) ex inc), False)"
  unfolding appendFunc_def by (rule appendStep_dups) (simp add: appendStep_set)

lemma keyed_self: "list_all keyed es \<Longrightarrow> \<forall>e \<in> set es. hasDuplicateElement es e"
proof
  fix e assume "list_all keyed es" and e: "e \<in> set es"
  then have k: "keyed e" by (simp add: list_all_iff)
  then have "valuesEqual (agetNil e subAttrValue) (agetNil e subAttrValue)"
    by (auto simp: keyed_def agetNil_def split: option.splits)
  with e show "hasDuplicateElement es e" by (auto simp: hasDuplicate_keyed [OF k])
qed

lemma appendNew_simps:
  "appendNew (VMulti xs) (VMulti es) =
     (VMulti (fst (appendComplexElements xs es)), snd (appendComplexElements xs es))"
  "appendNew (VStrings ss) (VStrings ts) =
     (VStrings (fst (appendFunc (=) ss ts)), snd (appendFunc (=) ss ts))"
  by (simp_all add: appendNew_def apfst_def map_prod_def split_beta)

lemma appendNew_self:
  "keyedElements inc \<Longrightarrow> appendNew inc inc = (inc, False)"
  using appendComplex_dups [OF keyed_self]
  by (auto simp: keyedElements_def appendNew_simps appendComplexElements_def appendFunc_def
      appendStep_dups split: gval.splits)

lemma appendNew_again:
  assumes "keyedElements inc" and "appendNew ex inc = (m, b)"
  shows "appendNew m inc = (m, False)"
proof (cases inc)
  case (VMulti es)
  then have es: "list_all keyed es" using assms(1) by (simp add: keyedElements_def)
  show ?thesis
  proof (cases "\<exists>xs. ex = VMulti xs")
    case True
    then obtain xs where ex: "ex = VMulti xs" by blast
    obtain out c where out: "appendComplexElements xs es = (out, c)" by fastforce
    from appendComplexElements_again [OF es this] out assms(2) show ?thesis
      by (auto simp: appendNew_simps VMulti ex)
  qed (use assms(2) VMulti in \<open>auto simp: appendNew_def split: gval.splits\<close>)
next
  case (VStrings es)
  show ?thesis
  proof (cases "\<exists>xs. ex = VStrings xs")
    case True
    then obtain xs where ex: "ex = VStrings xs" by blast
    from appendFunc_again [of xs es] assms(2) show ?thesis
      by (auto simp: appendNew_simps VStrings ex)
  qed (use assms(2) VStrings in \<open>auto simp: appendNew_def split: gval.splits\<close>)
qed (use assms(1) in \<open>simp_all add: keyedElements_def\<close>)

text \<open>Coercion leaves the merged value as it is, or rejects it for a second primary.\<close>

lemma appendNew_coerced:
  assumes a: "multiValued a" "rereadable a" "list_all rereadable (subAttributes a)"
    and st: "storedValue a ex" "storedValue a inc" and new: "appendNew ex inc = (m, True)"
    and co: "coerceValue a m = Inr cv"
  shows "cv = m \<and> m \<noteq> VNil"
proof (cases "attrType a = TypeComplex")
  case False
  with a have "attrType a = TypeString" by (auto simp: rereadable_def)
  with st a(1) obtain xs es where v: "ex = VStrings xs" "inc = VStrings es" "xs \<noteq> []"
    by (auto simp: storedValue_def stored_defs split: gval.splits)
  then have m: "m = VStrings (fst (appendFunc (=) xs es))" using new by (auto simp: appendNew_simps)
  have "fst (appendFunc (=) xs es) \<noteq> []"
    using appendStep_set [of xs False es] v(3) by (fastforce simp: appendFunc_def)
  with m \<open>attrType a = TypeString\<close> a(1) have "storedValue a m"
    by (simp add: storedValue_def stored_defs)
  from coerceValue_stored_id [OF this a(2,3)] co m show ?thesis by auto
next
  case True
  with st a(1) obtain xs es where v: "ex = VMulti xs" "inc = VMulti es" "xs \<noteq> []"
      and xs: "list_all (storedComplex (subAttributes a)) xs"
      and es: "list_all (storedComplex (subAttributes a)) es"
    by (auto simp: storedValue_def split: gval.splits)
  define out where "out = fst (appendComplexElements xs es)"
  from new v have m: "m = VMulti out" and b: "snd (appendComplexElements xs es)"
    by (auto simp: appendNew_simps out_def)
  have "list_all (storedComplex (subAttributes a)) out"
    using appendComplexElements_stored [OF xs es] by (simp add: out_def)
  moreover have "out \<noteq> []"
  proof -
    obtain new where "fst (foldl appendComplexStep (xs, []) es) = xs @ new"
      using appendComplex_prefix by blast
    then have "length out = length (xs @ new) \<or> out = xs"
      by (auto simp: out_def appendComplexElements_def split: prod.splits)
    then show ?thesis using v(3) by auto
  qed
  ultimately show ?thesis
    using multiComplex_loop_stored [of a out "[]" 0] a(3) True a(1) co m
    by (auto simp: coerceValue_def coerceValueWith_def coerceMultiWith_def multiItems_def
        coerceMultiComplex_def split: if_splits)
qed

text \<open>\<open>addMulti\<close> with elements that are found again changes nothing the second time.\<close>

lemma addMulti_again:
  assumes ok: "resourceTypeOk (rRT (apRes a))" "resourceOk (apRes a)"
    and rp: "resolvePath (rRT (apRes a)) path = Inr rp" "rpAttr rp = Some attr" "rpSub rp = None"
    and attr: "multiValued attr" "rereadable attr" "list_all rereadable (subAttributes attr)"
    and inc: "coerceOpValue attr (wrapElements v) = Inr inc" "inc = VNil \<or> keyedElements inc"
    and add: "addMulti path attr v a = Inr a'"
  shows "addMulti path attr v a' = Inr a'"
proof (cases "inc = VNil")
  case True
  then show ?thesis using inc(1) by (simp add: addMulti_def)
next
  case False
  then have keyed: "keyedElements inc" using inc(2) by simp
  have co: "coerceValue attr (wrapElements v) = Inr inc"
    using inc(1) by (simp add: coerceOpValue_def Coerce_def map_err_def split: sum.splits)
  have st: "storedValue attr inc" using coerceValue_stored [OF co] False by simp
  have written: "Get (apRes a') path = Some m"
    if set: "setTracked path m a = Inr a'" and same: "\<And>cv. coerceValue attr m = Inr cv \<Longrightarrow> cv = m \<and> m \<noteq> VNil" for m
    using Get_Set [OF ok(1) setTracked_frame(3) [OF set] rp(1,2)] rp(3) same
    by (auto simp: targetAttr_def assigned_def)
  show ?thesis
  proof (cases "Get (apRes a) path")
    case None
    with add inc(1) False have set: "setTracked path inc a = Inr a'" by (simp add: addMulti_def)
    have "Get (apRes a') path = Some inc"
      by (rule written [OF set]) (use coerceValue_stored_id [OF st attr(2,3)] False in auto)
    with inc(1) False appendNew_self [OF keyed] show ?thesis by (simp add: addMulti_def)
  next
    case (Some ex)
    obtain m b where new: "appendNew ex inc = (m, b)" by fastforce
    show ?thesis
    proof (cases b)
      case False': False
      then have "a' = a" using add inc(1) False Some new by (simp add: addMulti_def)
      with add show ?thesis by simp
    next
      case True
      then have set: "setTracked path m a = Inr a'" using add inc(1) False Some new by (simp add: addMulti_def)
      have sp: "storedPath rp"
      proof -
        obtain m' where "setResolved (apRes a) rp m = Inr m'"
          using setTracked_frame(3) [OF set] rp(1) by (auto elim: Set_InrE)
        then show ?thesis using rp(2)
          by (auto simp: storedPath_def setResolved_def setCommon_def Let_def split: if_splits)
      qed
      have "storedValue attr ex" by (rule Get_stored [OF ok rp(1,2) sp rp(3) Some])
      from appendNew_coerced [OF attr this st] new True
      have "Get (apRes a') path = Some m" by (intro written [OF set]) auto
      with inc(1) False appendNew_again [OF keyed new] show ?thesis by (simp add: addMulti_def)
    qed
  qed
qed

lemma applyOp_add_multi:
  assumes "opKind op = KindAdd" "opPath op = Some p" "valueFilter p = None" "pathSub p = []"
    and "resolvePatchTarget (rRT (apRes a)) p = Some (attr, sub)"
    and "multiValued attr" "mutabilityOf attr = MutabilityReadWrite"
  shows "applyOp op a = addMulti (attrPathText p) attr (opValue op) a"
proof -
  have "sub = None"
    using assms(4,5) by (auto simp: resolvePatchTarget_def split: option.splits if_splits)
  with assms show ?thesis
    by (simp add: applyOp_def applyAdd_def resolveOpTarget_def checkMutable_def
        checkImmutablePathed_def checkImmutableSubPath_def addToAttribute_def)
qed

subsection \<open>Removing\<close>

text \<open>The indexes \<open>matchingElements\<close> returns are those of the elements that match.\<close>

lemma matchLoop:
  assumes "validateExpr rt f (Some attr)"
  shows "rfold (matchStep rt attr f) (enumerate n xs) idx =
    Inr (idx @ map fst (filter (\<lambda>ix. evalElement f (snd ix) attr) (enumerate n xs)))"
  using assms
  by (induction xs arbitrary: n idx) (simp_all add: matchStep_def MatchElement_def)

lemma matchingElements_Inr:
  assumes "matchingElements rt attr f xs = Inr matches" and "xs \<noteq> []"
  shows "matches = map fst (filter (\<lambda>ix. evalElement f (snd ix) attr) (enumerate 0 xs))"
proof (cases "validateExpr rt f (Some attr)")
  case True
  from matchLoop [OF this, of 0 xs "[]"] assms(1) show ?thesis by (simp add: matchingElements_def)
next
  case False
  with assms show ?thesis
    by (cases xs) (simp_all add: matchingElements_def matchStep_def MatchElement_def)
qed

lemma survivors_filter:
  "survivors xs (map fst (filter (\<lambda>ix. P (snd ix)) (enumerate 0 xs))) = filter (\<lambda>x. \<not> P x) xs"
proof -
  have "fst ix \<notin> set (map fst (filter (\<lambda>ix. P (snd ix)) (enumerate 0 xs))) \<longleftrightarrow> \<not> P (snd ix)"
    if "ix \<in> set (enumerate 0 xs)" for ix
    using that by (auto simp: in_set_enumerate_eq)
  then have "filter (\<lambda>ix. fst ix \<notin> set (map fst (filter (\<lambda>ix. P (snd ix)) (enumerate 0 xs)))) (enumerate 0 xs) =
      filter (\<lambda>ix. \<not> P (snd ix)) (enumerate 0 xs)"
    by (intro filter_cong) auto
  moreover have "map snd (filter (\<lambda>ix. \<not> P (snd ix)) (enumerate n ys)) = filter (\<lambda>x. \<not> P x) ys" for n ys
    by (induction ys arbitrary: n) simp_all
  ultimately show ?thesis by (simp add: survivors_def)
qed

lemma survivors_Nil: "survivors xs [] = xs"
  using survivors_filter [of xs "\<lambda>_. False"] by simp

text \<open>A list read is stored; a list of stored elements is written as it is.\<close>

lemma common_not_multi:
  assumes "resolvedOk rt rp" and "rpAttr rp = Some a" and "rpSub rp = None" and "multiValued a"
    and "attrType a = TypeComplex"
  shows "storedPath rp"
proof (rule ccontr)
  assume "\<not> storedPath rp"
  with assms(2) have "rpCommon rp" by (auto simp: storedPath_def)
  with assms(1,2) have "namespaceAttr rt (rpUrn rp) (attrName a) = (Some a, True)"
    by (simp add: resolvedOk_def)
  then have "a \<in> set commonAttributes"
    by (auto simp: namespaceAttr_def split: if_splits option.splits dest: findAttribute_SomeD)
  with assms(4,5) show False by (auto simp: commonAttributes_def)
qed

lemma Get_multi_stored:
  assumes "resourceTypeOk (rRT r)" and "resourceOk r"
    and "resolvePath (rRT r) path = Inr rp" and "rpAttr rp = Some a" and "rpSub rp = None"
    and "multiValued a" and "attrType a = TypeComplex" and "Get r path = Some v"
  shows "storedValue a v"
  using Get_stored [OF assms(1-4) _ assms(5,8)]
    common_not_multi [OF resolvePath_resolvedOk [OF assms(3)] assms(4-7)] by blast

lemma removed_list:
  assumes ok: "resourceTypeOk (rRT (apRes a))"
    and rp: "resolvePath (rRT (apRes a)) path = Inr rp" "rpAttr rp = Some attr" "rpSub rp = None"
    and shape: "multiValued attr" "attrType attr = TypeComplex" "list_all rereadable (subAttributes attr)"
    and ys: "list_all (storedComplex (subAttributes attr)) ys"
    and set: "setTracked path (VList (map VComplex ys)) a = Inr a'"
  shows "Get (apRes a') path = (if ys = [] then None else Some (VMulti ys))"
proof -
  from Get_Set [OF ok setTracked_frame(3) [OF set] rp(1,2)] rp(3) obtain cv where
    "coerceValue attr (VList (map VComplex ys)) = Inr cv" "Get (apRes a') path = assigned cv"
    by (auto simp: targetAttr_def)
  with multiComplex_loop_stored [OF ys shape(3), of "[]" 0] shape(1,2) show ?thesis
    by (auto simp: coerceValue_def coerceValueWith_def coerceMultiWith_def multiItems_def
        coerceMultiComplex_def assigned_def split: if_splits)
qed

end
