(* ===== verification/Patch_Wire.thy ===== *)
theory Patch_Wire
  imports Patch_Decode Filter_RoundTrip
begin

text \<open>
  Encoding and decoding a PatchOp message: what \<open>EncodeOps\<close> writes, \<open>Decode\<close> reads back
  under the strict profile. The values are JSON trees, on which marshalling and decoding the
  text between is the identity.
\<close>

fun jsonTree :: "gval \<Rightarrow> bool" where
  "jsonTree (VMap m) = list_all (\<lambda>kv. jsonTree (snd kv)) m"
| "jsonTree (VList xs) = list_all jsonTree xs"
| "jsonTree v = (case v of VNil \<Rightarrow> True | VString _ \<Rightarrow> True | VBool _ \<Rightarrow> True | VNumber _ \<Rightarrow> True | _ \<Rightarrow> False)"

definition encodable :: "patch_op \<Rightarrow> bool" where
  "encodable op \<longleftrightarrow>
     kindValid (opKind op) \<and> jsonTree (opValue op) \<and>
     (case opPath op of None \<Rightarrow> opKind op \<noteq> KindRemove | Some p \<Rightarrow> fullPathOk p) \<and>
     (opValue op = VNil \<longleftrightarrow> opKind op = KindRemove)"

definition rawOf :: "patch_op \<Rightarrow> raw_op" where
  "rawOf op = \<lparr>roOp = kindText (opKind op), roPath = map_option pathString (opPath op),
     roValue = (if opKind op = KindRemove then None else Some (opValue op))\<rparr>"

lemma fullPathOk_text: "fullPathOk p \<Longrightarrow> pathString p \<noteq> []"
  using pathString_base(2) [of p]
  by (cases "valueFilter p") (auto simp: fullPathOk_def wordOk_iff pathString_base(1))

lemma fold_members:
  "foldName ''op'' = ''op''" "foldName ''path'' = ''path''" "foldName ''value'' = ''value''"
  "foldName ''schemas'' = ''schemas''" "foldName ''Operations'' = ''operations''"
  by code_simp+

lemma encode_one:
  assumes "encodable op"
  shows "\<exists>obj. encodeOp op = Inr obj \<and> parseRawOp (VMap obj) = Inr (rawOf op)"
  using assms fullPathOk_text
  by (cases "opKind op"; cases "opPath op")
    (auto simp: encodable_def encodeOp_def kindValid_def pathMember_def Let_def parseRawOp_def
      rawOpStep_def fold_members rawOf_def)

lemma kind_read: "kindValid k \<Longrightarrow> parseKind (kindText k) StrictProfile = Inr k"
  by (cases k) (auto simp: parseKind_def kindOf_def kindText_def kindValid_def StrictProfile_def)

lemma build_one:
  assumes "encodable op" shows "buildOp StrictProfile (rawOf op) = Inr op"
proof -
  have path: "ParsePathErr (LenientPaths StrictProfile) (pathString p) = Inr p" if "fullPathOk p" for p
    using path_rendering [OF that] by (simp add: ParsePathErr_def)
  show ?thesis
    using assms kind_read [of "opKind op"] path
    by (cases "opPath op") (auto simp: encodable_def buildOp_def rawOf_def)
qed

lemma encode_decode:
  assumes ops: "list_all encodable ops" and len: "ops \<noteq> []" "length ops \<le> MaxOperations"
  shows "rbind (map_err (\<lambda>_. ErrInvalidSyntax) (EncodeOps ops)) (\<lambda>doc. Decode doc rt StrictProfile) = Inr ops"
proof -
  from ops obtain objs where objs: "list_all2 (\<lambda>op obj. encodeOp op = Inr obj) ops objs"
      and raws: "list_all2 (\<lambda>v raw. parseRawOp v = Inr raw) (map VMap objs) (map rawOf ops)"
  proof (induction ops arbitrary: thesis)
    case (Cons op ops)
    from Cons.prems(2) encode_one [of op] obtain obj where
      "encodeOp op = Inr obj" "parseRawOp (VMap obj) = Inr (rawOf op)" by auto
    moreover from Cons obtain objs where "list_all2 (\<lambda>op obj. encodeOp op = Inr obj) ops objs"
      "list_all2 (\<lambda>v raw. parseRawOp v = Inr raw) (map VMap objs) (map rawOf ops)" by auto
    ultimately show ?case by (intro Cons.prems(1) [of "obj # objs"]) simp_all
  qed simp
  define doc where "doc = VMap [(''schemas'', VList [VString MessagePatchOp]), (''Operations'', VList (map VMap objs))]"
  have "EncodeOps ops = Inr doc"
    using len(1) objs by (simp add: EncodeOps_def collect_Inr [THEN iffD2] doc_def)
  moreover have "length objs = length ops" using objs by (simp add: list_all2_lengthD)
  then have "parseEnvelope doc = Inr (map rawOf ops)"
    using len collect_Inr [THEN iffD2, OF raws]
    by (auto simp: parseEnvelope_def doc_def foldedMember_def fold_members checkSchemas_def)
  moreover have "collect (buildOp StrictProfile) (map rawOf ops) = Inr ops"
    using ops by (simp add: collect_Inr list_all2_conv_all_nth list_all_length build_one)
  ultimately show ?thesis by (simp add: Decode_def StrictProfile_def)
qed

end
