(* ===== verification/Patch_Properties.thy ===== *)
theory Patch_Properties
  imports Patch_Add Patch_Wire Samples
begin

text \<open>
  The properties of the patch engine: what a message may do to a resource, what each
  operation does to the elements of a list, and the places where the engine writes more, or
  less, than the schema allows.
\<close>

subsection \<open>Whole messages\<close>

text \<open>C3. A PatchOp message that decodes and applies leaves a resource that satisfies the
  invariant of the container, of the same resource type and with the same metadata,
  under every profile.\<close>

theorem patch_keeps_invariant:
  assumes "resourceTypeOk (rRT r)" and "rtValid (rRT r)" and "resourceOk r"
    and "Decode body (rRT r) p = Inr ops" and "Apply r ops p = Inr (r', changed)"
  shows "resourceOk r' \<and> rRT r' = rRT r \<and> rMeta r' = rMeta r"
proof -
  have "list_all opValid ops" using Decode_normal [OF assms(4)] by (auto simp: list_all_iff opNormal_def)
  from Apply_writes [OF assms(2) this assms(5)] obtain a' where
    "patch_write\<^sup>*\<^sup>* \<lparr>apRes = r, apProfile = p, apChanged = False\<rparr> a'" "apRes a' = r'" by blast
  from writes_resourceOk [OF this(1)] this(2) assms(1,3) show ?thesis by simp
qed

definition samplePatch :: gval where
  "samplePatch =
     VMap [(''schemas'', VList [VString MessagePatchOp]),
       (''Operations'', VList
         [VMap [(''op'', VString ''Add''), (''path'', VString ''ports''),
            (''value'', VList [VMap [(''value'', VString ''p3''), (''primary'', VString ''true'')]])],
          VMap [(''op'', VString ''remove''), (''path'', VString ''ports[value eq \"p2\"]'')],
          VMap [(''op'', VString ''replace''), (''value'', VMap [(''owner.value'', VString ''o'')])]])]"

definition sampleOps :: "patch_op list" where
  "sampleOps = (case Decode samplePatch deviceType DefaultProfile of Inr ops \<Rightarrow> ops | Inl _ \<Rightarrow> [])"

definition patched :: resource where
  "patched = (case Apply device sampleOps DefaultProfile of Inr (r, _) \<Rightarrow> r | Inl _ \<Rightarrow> device)"

lemma sample_decoded: "Decode samplePatch (rRT device) DefaultProfile = Inr sampleOps"
  by code_simp

lemma sample_applied: "Apply device sampleOps DefaultProfile = Inr (patched, True)"
  by code_simp

lemma device_ok: "resourceTypeOk (rRT device)" "rtValid (rRT device)" "resourceOk device"
  by code_simp+

theorem patch_keeps_invariant_witness:
  "resourceOk patched \<and> Get patched ''ports'' =
     Some (VMulti [[(''value'', VString ''p1''), (''type'', VString ''in''), (''primary'', VBool False)],
       [(''value'', VString ''p3''), (''primary'', VBool True)]])"
proof -
  from patch_keeps_invariant [OF device_ok sample_decoded sample_applied] have "resourceOk patched" by simp
  moreover have "Get patched ''ports'' =
     Some (VMulti [[(''value'', VString ''p1''), (''type'', VString ''in''), (''primary'', VBool False)],
       [(''value'', VString ''p3''), (''primary'', VBool True)]])" by code_simp
  ultimately show ?thesis by simp
qed

text \<open>C1. No message changes a readOnly attribute: every stored path of one reads as
  before, whatever the operations and the profile.\<close>

theorem patch_readOnly_attributes:
  assumes "resourceTypeOk (rRT r)" and "rtValid (rRT r)"
    and "Decode body (rRT r) p = Inr ops" and "Apply r ops p = Inr (r', changed)"
    and "resolvePath (rRT r) path = Inr rp" and "rpAttr rp = Some b" and "storedPath rp"
    and "mutabilityOf b = MutabilityReadOnly"
  shows "Get r' path = Get r path"
proof -
  have "list_all opValid ops" using Decode_normal [OF assms(3)] by (auto simp: list_all_iff opNormal_def)
  from Apply_writes [OF assms(2) this assms(4)] obtain a' where
    "patch_write\<^sup>*\<^sup>* \<lparr>apRes = r, apProfile = p, apChanged = False\<rparr> a'" "apRes a' = r'" by blast
  from writes_readOnly [OF this(1) _ _ assms(6-8)] this(2) assms(1,5) show ?thesis by simp
qed

theorem patch_readOnly_attributes_witness: "Get patched ''STATE'' = Get device ''STATE''"
proof -
  have q: "resolvePath (rRT device) ''STATE'' = Inr \<lparr>rpUrn = [],
      rpAttr = Some (deviceAttrs ! 3), rpSub = None, rpCommon = False\<rparr>" by code_simp
  have "mutabilityOf (deviceAttrs ! 3) = MutabilityReadOnly" by code_simp
  then show ?thesis
    by (intro patch_readOnly_attributes [OF device_ok(1,2) sample_decoded sample_applied q])
      (simp_all add: storedPath_def)
qed

text \<open>C12. What \<open>Decode\<close> returns is in normal form: every kind is add, remove or replace,
  every path splits into attribute names, and no remove carries a value; a message has
  between one and \<open>MaxOperations\<close> elements.\<close>

theorem Decode_normalises:
  assumes "Decode body rt p = Inr ops"
  shows "list_all opNormal ops \<and>
    (\<exists>raws. parseEnvelope body = Inr raws \<and> raws \<noteq> [] \<and> length raws \<le> MaxOperations)"
proof -
  from assms obtain raws where "parseEnvelope body = Inr raws" by (auto simp: Decode_def res_simps)
  with parseEnvelope_bound [OF this] Decode_normal [OF assms] show ?thesis
    by (auto simp: list_all_iff)
qed

theorem Decode_normalises_witness: "list_all opNormal sampleOps \<and> length sampleOps = 3"
proof -
  have "length sampleOps = 3" by code_simp
  with Decode_normalises [OF sample_decoded] show ?thesis by simp
qed

text \<open>C9. \<open>EncodeOps\<close> and \<open>Decode\<close> are inverse on the messages a client sends: operations
  with a kind, a path that prints and parses, and JSON values are read back unchanged under
  the strict profile.\<close>

theorem encode_decode_roundtrip:
  assumes "list_all encodable ops" and "ops \<noteq> []" and "length ops \<le> MaxOperations"
  shows "rbind (map_err (\<lambda>_. ErrInvalidSyntax) (EncodeOps ops)) (\<lambda>doc. Decode doc rt StrictProfile) = Inr ops"
  using assms by (rule encode_decode)

definition wireOps :: "patch_op list" where
  "wireOps =
     [\<lparr>opKind = KindReplace,
        opPath = Some (FPath [] ''ports'' ''type'' (Some (Compare (FPath [] ''value'' [] None) OpEqual (LString ''a'')))),
        opValue = VString ''in''\<rparr>,
      \<lparr>opKind = KindAdd, opPath = None, opValue = VMap [(''name'', VString ''n'')]\<rparr>,
      \<lparr>opKind = KindRemove, opPath = Some (FPath ''urn:x:Cost'' ''center'' [] None), opValue = VNil\<rparr>]"

theorem encode_decode_roundtrip_witness:
  "rbind (map_err (\<lambda>_. ErrInvalidSyntax) (EncodeOps wireOps)) (\<lambda>doc. Decode doc deviceType StrictProfile) =
   Inr wireOps"
proof (rule encode_decode_roundtrip)
  show "list_all encodable wireOps" by code_simp
  show "wireOps \<noteq> []" "length wireOps \<le> MaxOperations" by (simp_all add: wireOps_def MaxOperations_def)
qed

subsection \<open>Single operations\<close>

text \<open>An operation whose path names a readOnly attribute, or a readOnly sub-attribute of
  a single-valued complex one, fails with \<open>mutability\<close>, whatever its kind, value and
  profile; a remove without a path fails with \<open>noTarget\<close>.\<close>

theorem pathed_readOnly_rejected:
  assumes "opPath op = Some p" and "resolvePatchTarget (rRT (apRes a)) p = Some (attr, sub)"
    and "mutabilityOf (case sub of Some s \<Rightarrow> s | None \<Rightarrow> attr) = MutabilityReadOnly"
    and "multiValued attr \<longrightarrow> sub = None \<or> valueFilter p \<noteq> None" and "kindValid (opKind op)"
  shows "applyOp op a = Inl ErrMutability"
proof -
  have "resolveOpTarget a op p = Inl ErrMutability"
    using assms(2-4) by (auto simp: resolveOpTarget_def checkMutable_def split: option.splits)
  with assms(1,5) show ?thesis
    by (auto simp: applyOp_def applyAdd_def applyRemove_def applyReplace_def kindValid_def split: kind.splits)
qed

definition sampleApplier :: applier where
  "sampleApplier = \<lparr>apRes = device, apProfile = StrictProfile, apChanged = False\<rparr>"

theorem pathed_readOnly_rejected_witness:
  "applyOp \<lparr>opKind = KindReplace, opPath = Some (FPath [] ''owner'' ''label'' None),
     opValue = VString ''x''\<rparr> sampleApplier = Inl ErrMutability"
proof (rule pathed_readOnly_rejected)
  show "resolvePatchTarget (rRT (apRes sampleApplier)) (FPath [] ''owner'' ''label'' None) =
      Some (deviceAttrs ! 8, Some (subAttributes (deviceAttrs ! 8) ! 1))" by code_simp
  show "mutabilityOf (case Some (subAttributes (deviceAttrs ! 8) ! 1) of Some s \<Rightarrow> s | None \<Rightarrow> deviceAttrs ! 8) =
      MutabilityReadOnly" by code_simp
  have "\<not> multiValued (deviceAttrs ! 8)" by code_simp
  then show "multiValued (deviceAttrs ! 8) \<longrightarrow> Some (subAttributes (deviceAttrs ! 8) ! 1) = None \<or>
      valueFilter (FPath [] ''owner'' ''label'' None) \<noteq> None" by simp
qed (simp_all add: kindValid_def)


definition portAdd :: patch_op where
  "portAdd = \<lparr>opKind = KindAdd, opPath = Some (FPath [] ''Ports'' [] None),
     opValue = VMap [(''value'', VString ''p3''), (''primary'', VBool True)]\<rparr>"


text \<open>C6. A remove with a value filter removes exactly the elements that satisfy the filter
  and keeps the others in order; when none is left the attribute is unassigned.\<close>

theorem remove_exact:
  assumes "resourceTypeOk (rRT (apRes a))" and "urnsApart (rRT (apRes a))" and "resourceOk (apRes a)"
    and "opKind op = KindRemove" and "opPath op = Some p" and "validPath p"
    and "valueFilter p = Some f" and "pathSub p = []"
    and "resolvePatchTarget (rRT (apRes a)) p = Some (attr, None)"
    and "list_all rereadable (subAttributes attr)"
    and "Get (apRes a) (attrPathText p) = Some (VMulti xs)" and "applyOp op a = Inr a'"
  shows "Get (apRes a') (attrPathText p) =
    (let ys = filter (\<lambda>x. \<not> evalElement f x attr) xs in if ys = [] then None else Some (VMulti ys))"
proof -
  from resolvePatchTarget_resolves(1) [OF assms(2,6,9)] obtain rp where
    rp: "resolvePath (rRT (apRes a)) (attrPathText p) = Inr rp" "rpAttr rp = Some attr" "rpSub rp = None"
    by blast
  from assms(4,5,7,9,12) have rem: "removeValuePath p f attr None a = Inr a'"
    by (auto simp: applyOp_def applyRemove_def resolveOpTarget_def res_simps split: if_splits)
  then have shape: "multiValued attr" "attrType attr = TypeComplex"
    by (auto simp: removeValuePath_def split: if_splits)
  have st: "storedValue attr (VMulti xs)"
    by (rule Get_multi_stored [OF assms(1,3) rp shape assms(11)])
  then have xs: "xs \<noteq> []" by (simp add: storedValue_def shape)
  from rem obtain matches where m: "matchingElements (rRT (apRes a)) attr f xs = Inr matches"
      and step: "(if matches = [] then Inr a
        else if required attr \<and> length matches = length xs then Inl ErrMutability
        else setTracked (attrPathText p) (VList (map VComplex (survivors xs matches))) a) = Inr a'"
    by (auto simp: removeValuePath_def getList_def assms(11) shape res_simps cong: if_cong)
  have surv: "survivors xs matches = filter (\<lambda>x. \<not> evalElement f x attr) xs"
    using survivors_filter [of xs "\<lambda>x. evalElement f x attr"] matchingElements_Inr [OF m xs] by simp
  show ?thesis
  proof (cases "matches = []")
    case True
    then have "filter (\<lambda>x. \<not> evalElement f x attr) xs = xs"
      using surv survivors_Nil [of xs] by simp
    with True step assms(11) xs show ?thesis by simp
  next
    case False
    with step have "setTracked (attrPathText p) (VList (map VComplex (survivors xs matches))) a = Inr a'"
      by (simp split: if_splits)
    moreover have "list_all (storedComplex (subAttributes attr)) (survivors xs matches)"
      using st shape surv by (auto simp: storedValue_def list_all_iff)
    ultimately show ?thesis
      using removed_list [OF assms(1) rp shape assms(10)] surv by (simp add: Let_def)
  qed
qed

theorem remove_exact_witness:
  "\<exists>a'. applyOp \<lparr>opKind = KindRemove,
        opPath = Some (FPath [] ''ports'' [] (Some (Compare (FPath [] ''type'' [] None) OpEqual (LString ''in'')))),
        opValue = VNil\<rparr> sampleApplier = Inr a' \<and>
      Get (apRes a') ''ports'' = Some (VMulti [[(''value'', VString ''p2''), (''type'', VString ''out'')]])"
proof -
  define f where "f = Compare (FPath [] ''type'' [] None) OpEqual (LString ''in'')"
  define q where "q = FPath [] ''ports'' [] (Some f)"
  define op where "op = \<lparr>opKind = KindRemove, opPath = Some q, opValue = VNil\<rparr>"
  define a' where "a' = (case applyOp op sampleApplier of Inr a \<Rightarrow> a | Inl _ \<Rightarrow> sampleApplier)"
  define xs where "xs = [[(''value'', VString ''p1''), (''type'', VString ''in''), (''primary'', VBool True)],
    [(''value'', VString ''p2''), (''type'', VString ''out'')]]"
  have app: "applyOp op sampleApplier = Inr a'"
    unfolding a'_def op_def q_def f_def by code_simp
  have "Get (apRes a') (attrPathText q) =
      (let ys = filter (\<lambda>x. \<not> evalElement f x (deviceAttrs ! 9)) xs in
       if ys = [] then None else Some (VMulti ys))"
  proof (rule remove_exact [OF _ _ _ _ _ _ _ _ _ _ _ app])
    show "opPath op = Some q" "opKind op = KindRemove" by (simp_all add: op_def)
    show "valueFilter q = Some f" "pathSub q = []" by (simp_all add: q_def)
    show "validPath q" unfolding q_def by code_simp
    show "resolvePatchTarget (rRT (apRes sampleApplier)) q = Some (deviceAttrs ! 9, None)"
      unfolding q_def f_def by code_simp
    show "Get (apRes sampleApplier) (attrPathText q) = Some (VMulti xs)"
      unfolding q_def f_def xs_def by code_simp
  qed (code_simp+)
  moreover have "filter (\<lambda>x. \<not> evalElement f x (deviceAttrs ! 9)) xs =
      [[(''value'', VString ''p2''), (''type'', VString ''out'')]]"
    unfolding xs_def f_def by code_simp
  ultimately have "Get (apRes a') ''ports'' =
      Some (VMulti [[(''value'', VString ''p2''), (''type'', VString ''out'')]])"
    by (simp add: q_def attrPathText_def)
  with app show ?thesis unfolding op_def q_def f_def by blast
qed

subsection \<open>Where the engine departs from the schema\<close>

text \<open>A readOnly sub-attribute is protected only by its own path: an add to the complex
  attribute merges it in like any other member.\<close>

lemma readOnly_sub_merged:
  "mutabilityOf (subAttributes (deviceAttrs ! 8) ! 1) = MutabilityReadOnly \<and>
   map_sum id (\<lambda>rc. (Get (fst rc) ''owner.label'', snd rc))
     (Apply device [\<lparr>opKind = KindAdd, opPath = Some (FPath [] ''owner'' [] None),
        opValue = VMap [(''label'', VString ''x'')]\<rparr>] StrictProfile) =
   Inr (Some (VString ''x''), True)"
  by code_simp

text \<open>An add of null to an assigned immutable attribute, without a path, unassigns it:
  the immutability check takes null to contribute nothing, the write takes it to clear.\<close>

lemma immutable_cleared_by_null:
  "mutabilityOf (deviceAttrs ! 2) = MutabilityImmutable \<and>
   Get device ''serial'' = Some (VString ''s'') \<and>
   map_sum id (\<lambda>rc. (Get (fst rc) ''serial'', snd rc))
     (Apply device [\<lparr>opKind = KindAdd, opPath = None, opValue = VMap [(''serial'', VNil)]\<rparr>] StrictProfile) =
   Inr (None, True) \<and>
   Apply device [\<lparr>opKind = KindAdd, opPath = None, opValue = VMap [(''serial'', VString ''t'')]\<rparr>] StrictProfile =
   Inl ErrMutability"
proof (intro conjI)
qed (code_simp+)

text \<open>A multi-valued attribute that is neither a string nor complex cannot be patched:
  a replace with any value that coerces to something, and a first add, fail with
  \<open>invalidValue\<close>, since the coerced slice is coerced again on the way into the container.\<close>

theorem typed_slice_unpatchable:
  assumes "resolvePath (rRT (apRes a)) path = Inr rp" and "rpAttr rp = Some attr" and "rpSub rp = None"
    and "storedPath rp" and "resourceTypeOk (rRT (apRes a))"
    and "multiValued attr" and "attrType attr \<notin> {TypeString, TypeComplex}"
    and "coerceOpValue attr (wrapElements v) = Inr w" and "w \<noteq> VNil"
  shows "(\<nexists>a'. replaceAttribute path attr v a = Inr a') \<and>
    (Get (apRes a) path = None \<longrightarrow> (\<nexists>a'. addMulti path attr v a = Inr a'))"
proof -
  have co: "coerceValue attr (wrapElements v) = Inr w"
    using assms(8) by (simp add: coerceOpValue_def Coerce_def map_err_def split: sum.splits)
  then have "storedValue attr w" using coerceValue_stored [OF co] assms(9) by simp
  then have rejected: "coerceValue attr w = Inl TypeMismatch"
    using assms(6,7)
    by (auto simp: storedValue_def stored_defs coerceValue_def coerceValueWith_def coerceMultiWith_def
        multiItems_def split: gval.splits)
  have "setTracked path w a \<noteq> Inr a'" for a'
  proof
    assume "setTracked path w a = Inr a'"
    from Get_Set [OF assms(5) setTracked_frame(3) [OF this] assms(1,2)] rejected assms(3) show False
      by (simp add: targetAttr_def)
  qed
  with assms(6,8,9) show ?thesis by (auto simp: replaceAttribute_def addMulti_def)
qed

theorem typed_slice_unpatchable_witness:
  "\<nexists>a'. replaceAttribute ''slots'' (deviceAttrs ! 7) (VNumber ''1'') sampleApplier = Inr a'"
proof -
  have *: "resolvePath (rRT (apRes sampleApplier)) ''slots'' = Inr \<lparr>rpUrn = [],
      rpAttr = Some (deviceAttrs ! 7), rpSub = None, rpCommon = False\<rparr>"
    "resourceTypeOk (rRT (apRes sampleApplier))" "multiValued (deviceAttrs ! 7)"
    "coerceOpValue (deviceAttrs ! 7) (wrapElements (VNumber ''1'')) = Inr (VInt64s [1])"
    by code_simp+
  have "attrType (deviceAttrs ! 7) = TypeInteger" by code_simp
  with typed_slice_unpatchable [OF *(1) _ _ _ *(2,3) _ *(4)] show ?thesis
    by (simp add: storedPath_def)
qed

text \<open>The string coercion of the lenient profiles accepts what \<open>strconv.ParseFloat\<close>
  accepts, not what JSON accepts: the string NaN becomes a stored number that
  \<open>EncodeResource\<close> cannot encode.\<close>

lemma nan_stored_not_encoded:
  "(case Decode (VMap [(''schemas'', VList [VString MessagePatchOp]),
        (''Operations'', VList [VMap [(''op'', VString ''replace''), (''path'', VString ''load''),
           (''value'', VString ''NaN'')]])]) deviceType DefaultProfile of
      Inl _ \<Rightarrow> False
    | Inr ops \<Rightarrow>
        (case Apply device ops DefaultProfile of
           Inl _ \<Rightarrow> False
         | Inr (r, _) \<Rightarrow>
             Get r ''load'' = Some (VFloat64 NaN) \<and>
             EncodeResource r \<lparr>prAttributes = [], prExcluded = []\<rparr> = Inl OtherErr))"
  by code_simp

end
