(* ===== verification/Scim_Id.thy ===== *)
theory Scim_Id
  imports Scim_Error Filter_Ast "HOL-Library.Word"
begin

text \<open>
  \<open>scim/id.go\<close>: server-generated identifiers. The sixteen bytes of \<open>crypto/rand\<close> are an
  argument, \<open>None\<close> when the read fails; the bytes are words of eight bits.
\<close>

unbundle bit_operations_syntax

text \<open>The verb \<open>%x\<close> of a byte: two lower-case hexadecimal digits.\<close>

definition hexByte :: "8 word \<Rightarrow> string" where
  "hexByte b = [hexDigit (unat b div 16), hexDigit (unat b mod 16)]"

definition hexBytes :: "8 word list \<Rightarrow> string" where
  "hexBytes bs = concat (map hexByte bs)"

definition NewID :: "8 word list option \<Rightarrow> (go_error, string) res" where
  "NewID random =
     (case random of
        None \<Rightarrow> Inl OtherErr
      | Some bs \<Rightarrow>
          let b = bs[6 := (bs ! 6 AND 0x0F) OR 0x40];
              b = b[8 := (b ! 8 AND 0x3F) OR 0x80]
          in Inr (hexBytes (take 4 b) @ ''-'' @ hexBytes (take 2 (drop 4 b)) @ ''-'' @
               hexBytes (take 2 (drop 6 b)) @ ''-'' @ hexBytes (take 2 (drop 8 b)) @ ''-'' @
               hexBytes (take 6 (drop 10 b))))"

definition ValidateID :: "string \<Rightarrow> (scim_error, unit) res" where
  "ValidateID i =
     (if i = [] then Inl ErrInvalidValue
      else if foldName i = ''bulkid'' then Inl ErrInvalidValue else Inr ())"

subsection \<open>The form of an identifier\<close>

lemma length_hexByte [simp]: "length (hexByte b) = 2"
  by (simp add: hexByte_def)

lemma length_hexBytes [simp]: "length (hexBytes bs) = 2 * length bs"
  by (induction bs) (simp_all add: hexBytes_def)

lemma length_NewID: "length bs = 16 \<Longrightarrow> NewID (Some bs) = Inr i \<Longrightarrow> length i = 36"
  by (auto simp: NewID_def Let_def)

lemma NewID_valid:
  assumes "length bs = 16" "NewID (Some bs) = Inr i"
  shows "ValidateID i = Inr ()"
proof -
  have "length i = 36" by (rule length_NewID [OF assms])
  then have "i \<noteq> []" and "foldName i \<noteq> ''bulkid''"
    using length_foldName [of i] by (auto simp del: length_foldName)
  then show ?thesis by (simp add: ValidateID_def)
qed

text \<open>The version nibble is 4 and the two variant bits are 10, whatever the random bytes.\<close>

lemma unat_high: "unat (w :: 8 word) div 16 = unat (drop_bit 4 w)"
proof -
  have "unat (drop_bit 4 w) = drop_bit 4 (unat w)" by (rule unat_drop_bit_eq)
  then show ?thesis by (simp only: drop_bit_eq_div) simp
qed

lemma version_nibble: "unat (((b :: 8 word) AND 0x0F) OR 0x40) div 16 = 4"
proof -
  have "drop_bit 4 ((b AND 0x0F) OR 0x40) = (4 :: 8 word)"
    by (simp add: drop_bit_and drop_bit_or)
  then show ?thesis by (simp add: unat_high)
qed

lemma variant_nibble: "unat (((b :: 8 word) AND 0x3F) OR 0x80) div 16 \<in> {8, 9, 10, 11}"
proof -
  define c where "c = drop_bit 4 b AND 3"
  have "unat c = unat (drop_bit 4 b) AND unat (3 :: 8 word)"
    unfolding c_def by (rule unsigned_and_eq)
  also have "\<dots> = unat (drop_bit 4 b) mod 4"
    using take_bit_eq_mask [of 2 "unat (drop_bit 4 b)"]
    by (simp add: mask_eq_exp_minus_1 take_bit_eq_mod)
  finally have "unat c \<in> {0, 1, 2, 3}" by auto
  then have "c \<in> {0, 1, 2, 3}" by (auto simp: word_unat_eq_iff)
  moreover have "drop_bit 4 ((b AND 0x3F) OR 0x80) = c OR 8"
    by (simp add: drop_bit_and drop_bit_or c_def)
  ultimately show ?thesis by (auto simp: unat_high)
qed

text \<open>An identifier: 36 bytes, the version digit at position 14 and the variant digit at
  position 19.\<close>

lemma hexBytes_simps [simp]: "hexBytes [] = []" "hexBytes (b # bs) = hexByte b @ hexBytes bs"
  by (simp_all add: hexBytes_def)

lemma NewID_shape:
  assumes "length bs = 16" "NewID (Some bs) = Inr i"
  shows "i ! 14 = CHR ''4''" and "i ! 19 \<in> set ''89ab''"
proof -
  from assms(1) obtain b0 b1 b2 b3 b4 b5 b6 b7 b8 b9 b10 b11 b12 b13 b14 b15 where
    "bs = [b0, b1, b2, b3, b4, b5, b6, b7, b8, b9, b10, b11, b12, b13, b14, b15]"
    by (auto simp: length_Suc_conv eval_nat_numeral)
  with assms(2) have i: "i = hexByte b0 @ hexByte b1 @ hexByte b2 @ hexByte b3 @ ''-'' @ hexByte b4 @
      hexByte b5 @ ''-'' @ hexByte ((b6 AND 0x0F) OR 0x40) @ hexByte b7 @ ''-'' @
      hexByte ((b8 AND 0x3F) OR 0x80) @ hexByte b9 @ ''-'' @ hexByte b10 @ hexByte b11 @ hexByte b12 @
      hexByte b13 @ hexByte b14 @ hexByte b15"
    by (simp add: NewID_def Let_def)
  have four: "hexDigit 4 = CHR ''4''" by code_simp
  have digits: "hexDigit n \<in> set ''89ab''" if "n \<in> {8, 9, 10, 11}" for n
  proof -
    have "\<forall>n \<in> set [8, 9, 10, 11]. hexDigit n \<in> set ''89ab''" by code_simp
    with that show ?thesis by auto
  qed
  show "i ! 14 = CHR ''4''"
    using version_nibble [of b6] four by (simp add: i hexByte_def)
  show "i ! 19 \<in> set ''89ab''"
    using digits [OF variant_nibble [of b8]] unfolding i by (simp add: hexByte_def)
qed

end
