(* ===== verification/Go_Slices.thy ===== *)
theory Go_Slices
  imports Go_Std "HOL-Library.Multiset"
begin

text \<open>
  The \<open>slices\<close> functions the server sorts and cuts with, 64-bit \<open>int\<close> addition, and
  \<open>strings.Split\<close> and \<open>strings.Join\<close>.

  \<open>slices.SortStableFunc\<close> sorts blocks of twenty elements by insertion and merges them in
  place. \<open>sortStableFunc\<close> is that insertion sort on the whole list: the same algorithm up to
  twenty elements, and beyond them the same list for every comparison that orders the
  elements weakly, where the stable sorting of a list is unique. The locale \<open>weak_order\<close> is
  that requirement of the package's documentation on the comparison, with what a sort then
  promises.
\<close>

subsection \<open>Integers\<close>

text \<open>The sum of two Go \<open>int\<close> values: wraps around at 64 bits.\<close>

definition addInt :: "int \<Rightarrow> int \<Rightarrow> int" where
  "addInt a b = (a + b + 2 ^ 63) mod 2 ^ 64 - 2 ^ 63"

lemma addInt_exact: "inInt64 (a + b) \<Longrightarrow> addInt a b = a + b"
  by (simp add: addInt_def inInt64_def)

lemma addInt_range: "inInt64 (addInt a b)"
  using pos_mod_bound [of "2 ^ 64" "a + b + 2 ^ 63"] pos_mod_sign [of "2 ^ 64" "a + b + 2 ^ 63"]
  by (simp add: addInt_def inInt64_def)

text \<open>The slice expression \<open>xs[from:to]\<close> within the length of \<open>xs\<close>; \<open>None\<close> is the panic.\<close>

definition sliceExpr :: "int \<Rightarrow> int \<Rightarrow> 'a list \<Rightarrow> 'a list option" where
  "sliceExpr from to xs =
     (if 0 \<le> from \<and> from \<le> to \<and> to \<le> int (length xs)
      then Some (take (nat (to - from)) (drop (nat from) xs)) else None)"

subsection \<open>Splitting and joining\<close>

text \<open>\<open>strings.Split\<close> at a one-byte separator; the result is never empty.\<close>

fun splitOn :: "char \<Rightarrow> string \<Rightarrow> string list" where
  "splitOn sep [] = [[]]"
| "splitOn sep (c # s) =
     (if c = sep then [] # splitOn sep s
      else (case splitOn sep s of [] \<Rightarrow> [[c]] | p # ps \<Rightarrow> (c # p) # ps))"

fun joinWith :: "char \<Rightarrow> string list \<Rightarrow> string" where
  "joinWith sep [] = []"
| "joinWith sep [p] = p"
| "joinWith sep (p # ps) = p @ sep # joinWith sep ps"

lemma splitOn_not_Nil [simp]: "splitOn sep s \<noteq> []"
  by (cases s) (auto split: list.splits)

lemma splitOn_plain: "sep \<notin> set s \<Longrightarrow> splitOn sep s = [s]"
  by (induction s) auto

lemma splitOn_append: "sep \<notin> set p \<Longrightarrow> splitOn sep (p @ sep # s) = p # splitOn sep s"
  by (induction p) auto

lemma splitOn_join:
  "ps \<noteq> [] \<Longrightarrow> (\<forall>p \<in> set ps. sep \<notin> set p) \<Longrightarrow> splitOn sep (joinWith sep ps) = ps"
  by (induction sep ps rule: joinWith.induct) (simp_all add: splitOn_plain splitOn_append)

subsection \<open>Sorting\<close>

text \<open>One step of the insertion sort on the sorted block in reverse: the new element moves
  left while it is less than its predecessor.\<close>

fun insertBack :: "('a \<Rightarrow> 'a \<Rightarrow> int) \<Rightarrow> 'a \<Rightarrow> 'a list \<Rightarrow> 'a list" where
  "insertBack cmp x [] = [x]"
| "insertBack cmp x (y # ys) = (if cmp x y < 0 then y # insertBack cmp x ys else x # y # ys)"

definition sortStableFunc :: "('a \<Rightarrow> 'a \<Rightarrow> int) \<Rightarrow> 'a list \<Rightarrow> 'a list" where
  "sortStableFunc cmp xs = rev (fold (insertBack cmp) xs [])"

lemma mset_insertBack [simp]: "mset (insertBack cmp x ys) = add_mset x (mset ys)"
  by (induction ys) auto

lemma set_insertBack [simp]: "set (insertBack cmp x ys) = insert x (set ys)"
  by (induction ys) auto

lemma mset_fold_insertBack: "mset (fold (insertBack cmp) xs ys) = mset xs + mset ys"
  by (induction xs arbitrary: ys) simp_all

lemma mset_sortStableFunc [simp]: "mset (sortStableFunc cmp xs) = mset xs"
  by (simp add: sortStableFunc_def mset_fold_insertBack)

lemma set_sortStableFunc [simp]: "set (sortStableFunc cmp xs) = set xs"
  by (metis mset_sortStableFunc set_mset_mset)

lemma length_sortStableFunc [simp]: "length (sortStableFunc cmp xs) = length xs"
  by (metis mset_sortStableFunc size_mset)

lemma sortStableFunc_Nil [simp]: "sortStableFunc cmp [] = []"
  by (simp add: sortStableFunc_def)

lemma sortStableFunc_map:
  "sortStableFunc cmp (map f xs) = map f (sortStableFunc (\<lambda>a b. cmp (f a) (f b)) xs)"
proof -
  have step: "insertBack cmp (f x) (map f ys) = map f (insertBack (\<lambda>a b. cmp (f a) (f b)) x ys)" for x ys
    by (induction ys) auto
  have "fold (insertBack cmp) (map f xs) (map f ys) =
      map f (fold (insertBack (\<lambda>a b. cmp (f a) (f b))) xs ys)" for ys
    by (induction xs arbitrary: ys) (simp_all add: step)
  from this [of "[]"] show ?thesis by (simp add: sortStableFunc_def rev_map)
qed

text \<open>Elements the comparison always puts last end up last, in their order, whatever the
  comparison does on the others.\<close>

lemma sortStableFunc_last:
  assumes low: "\<And>x y. \<not> P x \<Longrightarrow> P y \<Longrightarrow> cmp x y < 0"
    and high: "\<And>x y. P x \<Longrightarrow> \<not> cmp x y < 0"
  shows "\<exists>us. sortStableFunc cmp xs = us @ filter P xs \<and> (\<forall>u \<in> set us. \<not> P u)"
proof -
  have skip: "insertBack cmp x (ps @ us) = ps @ insertBack cmp x us"
    if "\<forall>p \<in> set ps. P p" "\<not> P x" for x ps us
    using that by (induction ps) (simp_all add: low)
  have front: "insertBack cmp x ys = x # ys" if "P x" for x ys
    using that by (cases ys) (simp_all add: high)
  have step: "\<exists>us'. insertBack cmp x (ps @ us) = (if P x then x # ps else ps) @ us' \<and> (\<forall>u \<in> set us'. \<not> P u)"
    if "\<forall>p \<in> set ps. P p" "\<forall>u \<in> set us. \<not> P u" for x ps us
  proof (cases "P x")
    case True
    with that(2) show ?thesis by (intro exI [of _ us]) (simp add: front)
  next
    case False
    with that show ?thesis by (intro exI [of _ "insertBack cmp x us"]) (simp add: skip)
  qed
  have "\<exists>us'. fold (insertBack cmp) xs (ps @ us) = rev (filter P xs) @ ps @ us' \<and> (\<forall>u \<in> set us'. \<not> P u)"
    if "\<forall>p \<in> set ps. P p" "\<forall>u \<in> set us. \<not> P u" for ps us
    using that
  proof (induction xs arbitrary: ps us)
    case (Cons x xs)
    from step [OF Cons.prems, of x] obtain us' where
      "insertBack cmp x (ps @ us) = (if P x then x # ps else ps) @ us'" "\<forall>u \<in> set us'. \<not> P u" by blast
    with Cons.IH [of "if P x then x # ps else ps" us'] Cons.prems(1) show ?case
      by (cases "P x") simp_all
  qed simp
  from this [of "[]" "[]"] obtain us where
    "fold (insertBack cmp) xs [] = rev (filter P xs) @ us" "\<forall>u \<in> set us. \<not> P u" by auto
  then show ?thesis by (intro exI [of _ "rev us"]) (simp add: sortStableFunc_def)
qed

text \<open>What \<open>slices.SortStableFunc\<close> asks of the comparison, on the elements of a list.\<close>

locale weak_order =
  fixes cmp :: "'a \<Rightarrow> 'a \<Rightarrow> int" and S :: "'a set"
  assumes anti: "a \<in> S \<Longrightarrow> b \<in> S \<Longrightarrow> cmp b a = - cmp a b"
    and trans_le: "a \<in> S \<Longrightarrow> b \<in> S \<Longrightarrow> c \<in> S \<Longrightarrow> cmp a b \<le> 0 \<Longrightarrow> cmp b c \<le> 0 \<Longrightarrow> cmp a c \<le> 0"
begin

lemma flip: "a \<in> S \<Longrightarrow> b \<in> S \<Longrightarrow> 0 \<le> cmp a b \<Longrightarrow> cmp b a \<le> 0"
  using anti [of a b] by simp

lemma equiv_left:
  assumes "a \<in> S" "b \<in> S" "c \<in> S" "cmp a b = 0" "cmp a c = 0"
  shows "cmp b c = 0"
proof -
  have "cmp b a = 0" "cmp c a = 0" using assms anti [of a b] anti [of a c] by simp_all
  then have "cmp b c \<le> 0" "cmp c b \<le> 0" using trans_le [of b a c] trans_le [of c a b] assms by auto
  then show ?thesis using anti [of b c] assms by simp
qed

lemma insertBack_sorted:
  assumes "sorted_wrt (\<lambda>a b. cmp b a \<le> 0) ys" "x \<in> S" "set ys \<subseteq> S"
  shows "sorted_wrt (\<lambda>a b. cmp b a \<le> 0) (insertBack cmp x ys)"
  using assms
proof (induction ys)
  case (Cons y ys)
  show ?case
  proof (cases "cmp x y < 0")
    case True
    with Cons show ?thesis by auto
  next
    case False
    with Cons.prems have "cmp y x \<le> 0" by (intro flip) auto
    with Cons.prems have "cmp z x \<le> 0" if "z \<in> set (y # ys)" for z
      using that trans_le [of z y x] by auto
    with False Cons.prems show ?thesis by simp
  qed
qed simp

lemma insertBack_stable:
  assumes "sorted_wrt (\<lambda>a b. cmp b a \<le> 0) ys" "x \<in> S" "z \<in> S" "set ys \<subseteq> S"
  shows "filter (\<lambda>y. cmp z y = 0) (insertBack cmp x ys) =
    (if cmp z x = 0 then [x] else []) @ filter (\<lambda>y. cmp z y = 0) ys"
  using assms
proof (induction ys)
  case (Cons y ys)
  have "cmp z y \<noteq> 0" if "cmp x y < 0" "cmp z x = 0"
    using equiv_left [of z x y] that Cons.prems by auto
  with Cons show ?case by auto
qed simp

lemma sort_sorted:
  assumes "set xs \<subseteq> S"
  shows "sorted_wrt (\<lambda>a b. cmp a b \<le> 0) (sortStableFunc cmp xs)"
    and "z \<in> S \<Longrightarrow> filter (\<lambda>y. cmp z y = 0) (sortStableFunc cmp xs) = filter (\<lambda>y. cmp z y = 0) xs"
proof -
  have inv: "sorted_wrt (\<lambda>a b. cmp b a \<le> 0) (fold (insertBack cmp) xs ys) \<and>
      (z \<in> S \<longrightarrow> filter (\<lambda>y. cmp z y = 0) (fold (insertBack cmp) xs ys) =
        rev (filter (\<lambda>y. cmp z y = 0) xs) @ filter (\<lambda>y. cmp z y = 0) ys)"
    if "sorted_wrt (\<lambda>a b. cmp b a \<le> 0) ys" "set xs \<subseteq> S" "set ys \<subseteq> S" for ys z
    using that
  proof (induction xs arbitrary: ys)
    case (Cons x xs)
    with insertBack_sorted [of ys x] Cons.IH [of "insertBack cmp x ys"] insertBack_stable [of ys x z]
    show ?case by auto
  qed simp
  from inv [of "[]"] assms show "sorted_wrt (\<lambda>a b. cmp a b \<le> 0) (sortStableFunc cmp xs)"
    by (simp add: sortStableFunc_def sorted_wrt_rev)
  from inv [of "[]" z] assms
  show "z \<in> S \<Longrightarrow> filter (\<lambda>y. cmp z y = 0) (sortStableFunc cmp xs) = filter (\<lambda>y. cmp z y = 0) xs"
    by (simp add: sortStableFunc_def rev_filter [symmetric])
qed

end

end
