(* ===== verification/Server_Sort.thy ===== *)
theory Server_Sort
  imports Go_Slices Filter_Match Patch_Op
begin

text \<open>
  \<open>server/sort.go\<close> and \<open>server/resolve.go\<close>: the resolution of a \<open>sortBy\<close> path, the sort key
  a resource contributes, the comparison of two keys and \<open>SortResources\<close>. A key that is Go
  \<open>nil\<close> is \<open>VNil\<close>. The list the code sorts in place is the list returned.
\<close>

subsection \<open>Resolution\<close>

definition resolveAttr :: "resource_type \<Rightarrow> fpath \<Rightarrow> (attribute \<times> attribute option) option" where
  "resolveAttr rt p =
     (case namespaceAttrs rt (pathURN p) of
        None \<Rightarrow> None
      | Some attrs \<Rightarrow>
          (case (case FindAttribute attrs (pathAttr p) of
                   Some a \<Rightarrow> Some a
                 | None \<Rightarrow> if pathURN p = [] then FindAttribute commonAttributes (pathAttr p) else None) of
             None \<Rightarrow> None
           | Some a \<Rightarrow>
               if pathSub p = [] then Some (a, None)
               else if attrType a \<noteq> TypeComplex then None
               else (case FindAttribute (subAttributes a) (pathSub p) of
                       None \<Rightarrow> None
                     | Some s \<Rightarrow> Some (a, Some s))))"

text \<open>The three packages resolve a path alike.\<close>

lemma resolveAttr_filter: "resolveAttr rt p = resolveFilter rt p"
  unfolding FindAttribute_def resolveAttr_def
  by (simp add: resolveFilter_def namespaceAttrs_def filterNamespace_def extensionAttrs_def)

subsection \<open>Sort keys\<close>

fun matchFrom :: "fpath \<Rightarrow> expr \<Rightarrow> resource \<Rightarrow> nat \<Rightarrow> cval list \<Rightarrow> nat option" where
  "matchFrom by f probe i [] = None"
| "matchFrom by f probe i (el # els) =
     (case Set probe (attrPathText by) (VMulti [el]) of
        Inl _ \<Rightarrow> None
      | Inr probe' \<Rightarrow>
          (case Match probe' (ValuePath (FPath (pathURN by) (pathAttr by) [] None) f) of
             Inl _ \<Rightarrow> None
           | Inr ok \<Rightarrow> if ok then Some i else matchFrom by f probe' (Suc i) els))"

definition matchIndex :: "resource_type \<Rightarrow> fpath \<Rightarrow> expr \<Rightarrow> cval list \<Rightarrow> nat option" where
  "matchIndex rt by f els = matchFrom by f (NewResource rt) 0 els"

definition pickElement :: "resource_type \<Rightarrow> fpath \<Rightarrow> cval list \<Rightarrow> cval option" where
  "pickElement rt by els =
     (case valueFilter by of
        Some f \<Rightarrow> map_option (nth els) (matchIndex rt by f els)
      | None \<Rightarrow>
          (case indexFunc (\<lambda>cv. aget cv ''primary'' = Some (VBool True)) els of
             Some i \<Rightarrow> Some (els ! i)
           | None \<Rightarrow> Some (els ! 0)))"

definition multiSortKey :: "resource \<Rightarrow> resource_type \<Rightarrow> fpath \<Rightarrow> attribute option \<Rightarrow> gval" where
  "multiSortKey r rt by sub =
     (case Get r (attrPathText by) of
        Some (VMulti els) \<Rightarrow>
          if els = [] then VNil
          else (case pickElement rt by els of
                  None \<Rightarrow> VNil
                | Some elem \<Rightarrow>
                    agetNil elem (case sub of None \<Rightarrow> ''value'' | Some s \<Rightarrow> foldName (attrName s)))
      | _ \<Rightarrow> VNil)"

definition sortKey :: "resource \<Rightarrow> resource_type \<Rightarrow> fpath \<Rightarrow> attribute \<Rightarrow> attribute option \<Rightarrow> gval" where
  "sortKey r rt by attr sub =
     (if multiValued attr \<and> attrType attr = TypeComplex then multiSortKey r rt by sub
      else case Get r (fullPathText by) of None \<Rightarrow> VNil | Some v \<Rightarrow> v)"

subsection \<open>Comparison\<close>

definition compareStrings :: "string \<Rightarrow> gval \<Rightarrow> bool \<Rightarrow> int" where
  "compareStrings a b exact =
     (case b of
        VString bv \<Rightarrow> if exact then strCompare a bv else strCompare (foldName a) (foldName bv)
      | _ \<Rightarrow> 0)"

definition boolCompare :: "bool \<Rightarrow> bool \<Rightarrow> int" where
  "boolCompare a b = (if a = b then 0 else if \<not> a then -1 else 1)"

definition compareNumbers :: "float64 \<Rightarrow> gval \<Rightarrow> int" where
  "compareNumbers a b =
     (case (case b of VInt64 i \<Rightarrow> Some (intToFloat64 i) | VFloat64 f \<Rightarrow> Some f | _ \<Rightarrow> None) of
        None \<Rightarrow> 0
      | Some bv \<Rightarrow> if fltLess a bv then -1 else if fltLess bv a then 1 else 0)"

text \<open>\<open>time.Time.Compare\<close> compares instants.\<close>

definition compareKeys :: "gval \<Rightarrow> gval \<Rightarrow> attribute \<Rightarrow> int" where
  "compareKeys a b target =
     (case a of
        VString av \<Rightarrow> compareStrings av b (caseExact target)
      | VRef av \<Rightarrow> (case b of VRef bv \<Rightarrow> strCompare av bv | _ \<Rightarrow> 0)
      | VBool av \<Rightarrow> (case b of VBool bv \<Rightarrow> boolCompare av bv | _ \<Rightarrow> 0)
      | VInt64 av \<Rightarrow> compareNumbers (intToFloat64 av) b
      | VFloat64 av \<Rightarrow> compareNumbers av b
      | VTime av \<Rightarrow> (case b of VTime bv \<Rightarrow> cmpInt (instant av) (instant bv) | _ \<Rightarrow> 0)
      | VBytes av \<Rightarrow> (case b of VBytes bv \<Rightarrow> strCompare av bv | _ \<Rightarrow> 0)
      | _ \<Rightarrow> 0)"

definition sortCompare :: "gval \<Rightarrow> gval \<Rightarrow> attribute \<Rightarrow> bool \<Rightarrow> int" where
  "sortCompare a b target ascending =
     (if a = VNil \<and> b = VNil then 0
      else if a = VNil then 1
      else if b = VNil then -1
      else let c = compareKeys a b target in if \<not> ascending then - c else c)"

definition SortResources :: "resource list \<Rightarrow> resource_type \<Rightarrow> fpath option \<Rightarrow> bool \<Rightarrow> resource list" where
  "SortResources xs rt by ascending =
     (case by of
        None \<Rightarrow> xs
      | Some p \<Rightarrow>
          (case resolveAttr rt p of
             None \<Rightarrow> xs
           | Some (attr, sub) \<Rightarrow>
               map snd (sortStableFunc
                 (\<lambda>a b. sortCompare (fst a) (fst b) (targetAttr attr sub) ascending)
                 (map (\<lambda>r. (sortKey r rt p attr sub, r)) xs))))"

lemma SortResources_eq:
  "resolveAttr rt p = Some (attr, sub) \<Longrightarrow>
   SortResources xs rt (Some p) ascending =
     sortStableFunc (\<lambda>r r'. sortCompare (sortKey r rt p attr sub) (sortKey r' rt p attr sub)
       (targetAttr attr sub) ascending) xs"
  by (simp add: SortResources_def sortStableFunc_map comp_def)

lemma mset_SortResources [simp]: "mset (SortResources xs rt by asc) = mset xs"
proof (cases "by")
  case (Some p)
  show ?thesis
  proof (cases "resolveAttr rt p")
    case None
    with Some show ?thesis by (simp add: SortResources_def)
  next
    case target: (Some t)
    with Some show ?thesis by (cases t) (simp add: SortResources_eq)
  qed
qed (simp add: SortResources_def)

lemma set_SortResources [simp]: "set (SortResources xs rt by asc) = set xs"
  by (metis mset_SortResources set_mset_mset)

lemma length_SortResources [simp]: "length (SortResources xs rt by asc) = length xs"
  by (metis mset_SortResources size_mset)

subsection \<open>The order of the keys\<close>

text \<open>The kinds of key that compare with each other; a NaN compares with nothing.\<close>

datatype key_class = StringKey | RefKey | BoolKey | NumberKey | TimeKey | BytesKey | NoKey

definition keyClass :: "gval \<Rightarrow> key_class" where
  "keyClass k =
     (case k of
        VString _ \<Rightarrow> StringKey | VRef _ \<Rightarrow> RefKey | VBool _ \<Rightarrow> BoolKey
      | VInt64 _ \<Rightarrow> NumberKey | VFloat64 f \<Rightarrow> if f = NaN then NoKey else NumberKey
      | VTime _ \<Rightarrow> TimeKey | VBytes _ \<Rightarrow> BytesKey | _ \<Rightarrow> NoKey)"

definition classKeys :: "key_class \<Rightarrow> gval set" where
  "classKeys c = {k. k = VNil \<or> keyClass k = c \<and> c \<noteq> NoKey}"

lemma keyClass_VNil [simp]: "keyClass VNil = NoKey"
  by (simp add: keyClass_def)

lemma strCompare_anti: "strCompare b a = - strCompare a b"
  by (auto simp: strCompare_def)

lemma strCompare_le_trans: "strCompare a b \<le> 0 \<Longrightarrow> strCompare b c \<le> 0 \<Longrightarrow> strCompare a c \<le> 0"
  by (auto simp: strCompare_def split: if_splits)

definition numberOf :: "gval \<Rightarrow> float64" where
  "numberOf k = (case k of VInt64 i \<Rightarrow> intToFloat64 i | VFloat64 f \<Rightarrow> f | _ \<Rightarrow> NaN)"

lemma intToFloat64_not_NaN: "intToFloat64 i \<noteq> NaN"
  by (auto simp: intToFloat64_def roundFloat64_def Let_def)

lemma number_key:
  assumes "keyClass k = NumberKey"
  shows "numberOf k \<noteq> NaN" and "keyClass k' = NumberKey \<Longrightarrow> compareKeys k k' t = cmpFloat (numberOf k) (numberOf k')"
  using assms
  by (auto simp: keyClass_def numberOf_def intToFloat64_not_NaN compareKeys_def compareNumbers_def cmpFloat_def
      split: gval.splits if_splits)

lemma fltLess_asym: "fltLess a b \<Longrightarrow> \<not> fltLess b a"
  by (cases "(a, b)" rule: fltLess.cases) auto

lemma fltLess_negtrans: "b \<noteq> NaN \<Longrightarrow> \<not> fltLess b a \<Longrightarrow> \<not> fltLess c b \<Longrightarrow> \<not> fltLess c a"
  by (cases a; cases b; cases c) (auto split: if_splits)

lemma cmpFloat_le: "cmpFloat a b \<le> 0 \<longleftrightarrow> \<not> fltLess b a"
  using fltLess_asym [of a b] by (auto simp: cmpFloat_def)

lemma cmpFloat_anti: "cmpFloat b a = - cmpFloat a b"
  using fltLess_asym [of a b] by (auto simp: cmpFloat_def)

lemma compareNumbers_cmp:
  "compareNumbers x b =
     (case b of VInt64 i \<Rightarrow> cmpFloat x (intToFloat64 i) | VFloat64 y \<Rightarrow> cmpFloat x y | _ \<Rightarrow> 0)"
  by (cases b) (simp_all add: compareNumbers_def cmpFloat_def)

lemma compareKeys_anti: "compareKeys b a t = - compareKeys a b t"
proof (cases a)
  case (VString x)
  then show ?thesis
    using strCompare_anti [of x] strCompare_anti [of "foldName x"]
    by (cases b) (simp_all add: compareKeys_def compareStrings_def compareNumbers_cmp)
next
  case (VBool x)
  then show ?thesis
    by (cases b) (simp_all add: compareKeys_def compareStrings_def compareNumbers_cmp boolCompare_def)
next
  case (VInt64 x)
  then show ?thesis using cmpFloat_anti [of _ "intToFloat64 x"]
    by (cases b) (simp_all add: compareKeys_def compareStrings_def compareNumbers_cmp)
next
  case (VFloat64 x)
  then show ?thesis using cmpFloat_anti [of _ x]
    by (cases b) (simp_all add: compareKeys_def compareStrings_def compareNumbers_cmp)
next
  case (VTime x)
  then show ?thesis
    by (cases b) (simp_all add: compareKeys_def compareStrings_def compareNumbers_cmp cmpInt_def)
next
  case (VBytes x)
  then show ?thesis using strCompare_anti [of x]
    by (cases b) (simp_all add: compareKeys_def compareStrings_def compareNumbers_cmp)
next
  case (VRef x)
  then show ?thesis using strCompare_anti [of x]
    by (cases b) (simp_all add: compareKeys_def compareStrings_def compareNumbers_cmp)
qed (cases b; simp add: compareKeys_def compareStrings_def compareNumbers_cmp)+

lemma compareKeys_trans:
  assumes "keyClass a = c" "keyClass b = c" "keyClass d = c" "c \<noteq> NoKey"
    and "compareKeys a b t \<le> 0" "compareKeys b d t \<le> 0"
  shows "compareKeys a d t \<le> 0"
proof (cases c)
  case NumberKey
  with assms number_key show ?thesis
    using fltLess_negtrans [of "numberOf b" "numberOf a" "numberOf d"] by (simp add: cmpFloat_le)
next
  case StringKey
  with assms obtain x y z where "a = VString x" "b = VString y" "d = VString z"
    by (auto simp: keyClass_def split: gval.splits if_splits)
  with assms(5,6) show ?thesis
    by (auto simp: compareKeys_def compareStrings_def dest: strCompare_le_trans split: if_splits)
next
  case RefKey
  with assms obtain x y z where "a = VRef x" "b = VRef y" "d = VRef z"
    by (auto simp: keyClass_def split: gval.splits if_splits)
  with assms(5,6) show ?thesis by (auto simp: compareKeys_def dest: strCompare_le_trans)
next
  case BoolKey
  with assms obtain x y z where "a = VBool x" "b = VBool y" "d = VBool z"
    by (auto simp: keyClass_def split: gval.splits if_splits)
  with assms(5,6) show ?thesis by (auto simp: compareKeys_def boolCompare_def split: if_splits)
next
  case TimeKey
  with assms obtain x y z where "a = VTime x" "b = VTime y" "d = VTime z"
    by (auto simp: keyClass_def split: gval.splits if_splits)
  with assms(5,6) show ?thesis by (auto simp: compareKeys_def cmpInt_def split: if_splits)
next
  case BytesKey
  with assms obtain x y z where "a = VBytes x" "b = VBytes y" "d = VBytes z"
    by (auto simp: keyClass_def split: gval.splits if_splits)
  with assms(5,6) show ?thesis by (auto simp: compareKeys_def dest: strCompare_le_trans)
qed (use assms in auto)

text \<open>On keys of one kind, missing ones among them, \<open>sortCompare\<close> is what the sort asks of
  its comparison, in both directions.\<close>

interpretation keys: weak_order "\<lambda>a b. sortCompare a b target asc" "classKeys c" for target asc c
proof
  fix a b
  show "sortCompare b a target asc = - sortCompare a b target asc"
    using compareKeys_anti [of a b target] by (simp add: sortCompare_def Let_def)
next
  fix a b d
  assume S: "a \<in> classKeys c" "b \<in> classKeys c" "d \<in> classKeys c"
    and le: "sortCompare a b target asc \<le> 0" "sortCompare b d target asc \<le> 0"
  show "sortCompare a d target asc \<le> 0"
  proof (cases "a = VNil \<or> b = VNil \<or> d = VNil")
    case True
    with le show ?thesis by (auto simp: sortCompare_def Let_def split: if_splits)
  next
    case False
    with S have c: "keyClass a = c" "keyClass b = c" "keyClass d = c" "c \<noteq> NoKey"
      by (auto simp: classKeys_def)
    show ?thesis
    proof (cases asc)
      case True
      with False le compareKeys_trans [OF c] show ?thesis by (simp add: sortCompare_def)
    next
      case desc: False
      with False le have "compareKeys d b target \<le> 0" "compareKeys b a target \<le> 0"
        using compareKeys_anti [of b d target] compareKeys_anti [of a b target]
        by (simp_all add: sortCompare_def Let_def)
      from compareKeys_trans [OF c(3,2,1,4) this] compareKeys_anti [of d a target] False desc
      show ?thesis by (simp add: sortCompare_def Let_def)
    qed
  qed
qed

end
