(* ===== verification/Server_Store.thy ===== *)
theory Server_Store
  imports Scim_Id Server_Sort
begin

text \<open>
  \<open>server/store.go\<close>: the interface the server calls a store through, as a record of its
  methods, with the optional capabilities as options. A method takes the store's state and
  returns the next one with its result; a method that fails returns no state, so the store
  stays as it was. What a call reads from outside, the random bytes of an identifier and the
  clock, is its argument \<open>env\<close>.

  The locale \<open>store_contract\<close> is the documented contract, over an abstraction \<open>rows\<close> of the
  state to the table of its resources in insertion order.
\<close>

subsection \<open>Queries\<close>

record query =
  qFilter :: "expr option"
  qSortBy :: "fpath option"
  qAscending :: bool
  qStartIndex :: int
  qCount :: int

definition zeroQuery :: query where
  "zeroQuery = \<lparr>qFilter = None, qSortBy = None, qAscending = False, qStartIndex = 0, qCount = 0\<rparr>"

record page =
  pgResources :: "resource list"
  pgTotalResults :: int

text \<open>The selection of a filter: each resource in order, until one fails to match.\<close>

fun matchAll :: "expr option \<Rightarrow> resource list \<Rightarrow> (go_error, resource list) res" where
  "matchAll f [] = Inr []"
| "matchAll f (r # rs) =
     (case f of
        None \<Rightarrow> rbind (matchAll f rs) (\<lambda>out. Inr (r # out))
      | Some e \<Rightarrow>
          rbind (map_err ScimErr (Match r e)) (\<lambda>ok.
          rbind (matchAll f rs) (\<lambda>out. Inr (if ok then r # out else out))))"

lemma matchAll_None [simp]: "matchAll None rs = Inr rs"
  by (induction rs) simp_all

lemma matchAll_Inr:
  "matchAll (Some e) rs = Inr out \<longleftrightarrow>
     (\<forall>r \<in> set rs. validateExpr (rRT r) e None) \<and> out = filter (\<lambda>r. evalExpr r e) rs"
  by (induction rs arbitrary: out) (auto simp: res_simps Match_def)

lemma matchAll_Inl: "matchAll f rs = Inl e \<Longrightarrow> e = ScimErr ErrInvalidFilter"
  by (induction rs) (auto simp: res_simps Match_def split: option.splits if_splits)

lemma matchAll_valid:
  "(\<forall>r \<in> set rs. validateExpr (rRT r) e None) \<Longrightarrow>
     matchAll (Some e) rs = Inr (filter (\<lambda>r. evalExpr r e) rs)"
  by (simp add: matchAll_Inr)

lemma matchAll_mset:
  assumes "mset rs = mset rs'" "matchAll f rs = Inr out"
  shows "\<exists>out'. matchAll f rs' = Inr out' \<and> mset out' = mset out"
proof (cases f)
  case (Some e)
  from assms(1) have "set rs = set rs'" by (rule mset_eq_setD)
  with assms Some show ?thesis by (simp add: matchAll_Inr mset_filter)
qed (use assms in simp)

subsection \<open>The interface\<close>

record env =
  envRandom :: "8 word list option"
  envNow :: gotime

record 's store =
  stCreate :: "env \<Rightarrow> resource \<Rightarrow> 's \<Rightarrow> (go_error, resource \<times> 's) res"
  stGet :: "string \<Rightarrow> 's \<Rightarrow> (go_error, resource) res"
  stList :: "query \<Rightarrow> 's \<Rightarrow> (go_error, page) res"
  stReplace :: "string \<Rightarrow> resource \<Rightarrow> 's \<Rightarrow> (go_error, resource \<times> 's) res"
  stDelete :: "string \<Rightarrow> 's \<Rightarrow> (go_error, 's) res"
  stPatcher :: "(env \<Rightarrow> string \<Rightarrow> patch_op list \<Rightarrow> 's \<Rightarrow> (go_error, resource \<times> 's) res) option"
  stSupportsFilter :: "(expr \<Rightarrow> bool) option"
  stSupportsSort :: "(fpath \<Rightarrow> bool) option"

abbreviation notFound :: go_error where "notFound \<equiv> ScimErr ErrNotFound"
abbreviation preconditionFailed :: go_error where "preconditionFailed \<equiv> ScimErr ErrPreconditionFailed"

subsection \<open>The contract\<close>

locale store_contract =
  fixes st :: "'s store"
    and rt :: resource_type
    and invar :: "'s \<Rightarrow> bool"
    and rows :: "'s \<Rightarrow> resource amap"
    and accepts :: "resource \<Rightarrow> bool"
    and agrees :: "string \<Rightarrow> string \<Rightarrow> bool"
  assumes rows_distinct: "invar s \<Longrightarrow> distinct_keys (rows s)"
    and rows_accepted: "invar s \<Longrightarrow> aget (rows s) i = Some r \<Longrightarrow> accepts r"
    and get_row: "invar s \<Longrightarrow>
      stGet st i s = (case aget (rows s) i of None \<Rightarrow> Inl notFound | Some r \<Rightarrow> Inr r)"
    and create_row: "invar s \<Longrightarrow> accepts res \<Longrightarrow> stCreate st env res s = Inr (r, s') \<Longrightarrow>
      invar s' \<and> (\<exists>i. aget (rows s) i = None \<and> rows s' = rows s @ [(i, r)] \<and>
        (\<forall>j. Get res ''id'' = Some (VString j) \<longrightarrow> j \<noteq> [] \<longrightarrow> i = j \<and> rAttrs r = rAttrs res))"
    and replace_row: "invar s \<Longrightarrow> accepts res \<Longrightarrow> stReplace st i res s = Inr (r, s') \<Longrightarrow>
      invar s' \<and> rows s' = aput i r (rows s) \<and>
      (\<exists>cur. aget (rows s) i = Some cur \<and> agrees (mVersion (rMeta res)) (mVersion (rMeta cur)))"
    and replace_missing: "invar s \<Longrightarrow> aget (rows s) i = None \<Longrightarrow> stReplace st i res s = Inl notFound"
    and replace_stale: "invar s \<Longrightarrow> aget (rows s) i = Some cur \<Longrightarrow>
      \<not> agrees (mVersion (rMeta res)) (mVersion (rMeta cur)) \<Longrightarrow> stReplace st i res s = Inl preconditionFailed"
    and replace_fresh: "invar s \<Longrightarrow> accepts res \<Longrightarrow> aget (rows s) i = Some cur \<Longrightarrow>
      agrees (mVersion (rMeta res)) (mVersion (rMeta cur)) \<Longrightarrow> stReplace st i res s \<noteq> Inl preconditionFailed"
    and delete_row: "invar s \<Longrightarrow>
      (case stDelete st i s of
         Inl e \<Rightarrow> e = notFound \<and> aget (rows s) i = None
       | Inr s' \<Rightarrow> invar s' \<and> aget (rows s) i \<noteq> None \<and> rows s' = adel i (rows s))"
    and agrees_refl: "agrees v v"
begin

lemma get_after_create:
  assumes "invar s" "accepts res" "stCreate st env res s = Inr (r, s')"
    and "Get res ''id'' = Some (VString j)" "j \<noteq> []"
  shows "stGet st j s' = Inr r \<and> (\<forall>i. i \<noteq> j \<longrightarrow> stGet st i s' = stGet st i s)"
proof -
  from create_row [OF assms(1-3)] assms(4,5) have
    "invar s'" "aget (rows s) j = None" "rows s' = rows s @ [(j, r)]" by auto
  with assms(1) show ?thesis by (simp add: get_row map_add_def split: option.splits)
qed

lemma get_after_replace:
  assumes "invar s" "accepts res" "stReplace st i res s = Inr (r, s')"
  shows "stGet st j s' = (if j = i then Inr r else stGet st j s)"
  using replace_row [OF assms] assms(1) by (auto simp: get_row)

lemma get_after_delete:
  assumes "invar s" "stDelete st i s = Inr s'"
  shows "stGet st j s' = (if j = i then Inl notFound else stGet st j s)"
  using delete_row [OF assms(1), of i] assms by (simp add: get_row)

lemma get_accepted: "invar s \<Longrightarrow> stGet st i s = Inr r \<Longrightarrow> accepts r"
  using rows_accepted [of s i r] by (simp add: get_row split: option.splits)

end

end
