(* ===== verification/Server_Config.thy ===== *)
theory Server_Config
  imports Server_Store
begin

text \<open>
  \<open>server/config.go\<close>: the configuration and its validation, which also fills in the
  defaults. \<open>Auth\<close> is the verification function of the bearer scheme (\<open>server/auth.go\<close>),
  \<open>True\<close> admitting a token. The logger is not modelled. Integers are 64 bits wide.
\<close>

subsection \<open>The bearer scheme\<close>

definition bearerPrefix :: string where "bearerPrefix = ''bearer ''"

text \<open>The token of an \<open>Authorization\<close> header.\<close>

definition bearerToken :: "string \<Rightarrow> string option" where
  "bearerToken header =
     (let n = length bearerPrefix in
      if length header \<le> n \<or> \<not> equalFold (take n header) bearerPrefix then None
      else let token = trimSpace (drop n header) in if token = [] then None else Some token)"

text \<open>\<open>subtle.ConstantTimeCompare\<close> is equality of byte strings.\<close>

definition StaticBearerToken :: "string \<Rightarrow> string \<Rightarrow> bool" where
  "StaticBearerToken want got \<longleftrightarrow> \<not> (want = [] \<or> got \<noteq> want)"

definition authorized :: "(string \<Rightarrow> bool) \<Rightarrow> string \<Rightarrow> bool" where
  "authorized verify header = (case bearerToken header of None \<Rightarrow> False | Some token \<Rightarrow> verify token)"

subsection \<open>Configuration\<close>

record 's registration =
  regType :: resource_type
  regStore :: "'s store option"

record 's config =
  cfgBaseURL :: string
  cfgResourceTypes :: "'s registration list"
  cfgProfile :: profile
  cfgAuth :: "(string \<Rightarrow> bool) option"
  cfgExemptSPC :: bool
  cfgMaxFilterResults :: int
  cfgDefaultPageSize :: int
  cfgMaxPageSize :: int
  cfgMaxBodyBytes :: int

definition defaultPageSize :: int where "defaultPageSize = 100"
definition defaultMaxPageSize :: int where "defaultMaxPageSize = 200"
definition defaultMaxBodyBytes :: int where "defaultMaxBodyBytes = 1048576"

definition trimRight :: "char \<Rightarrow> string \<Rightarrow> string" where
  "trimRight c s = rev (dropWhile (\<lambda>x. x = c) (rev s))"

datatype config_error =
    NoBaseURL | NoResourceTypes | BadMaxFilterResults | BadDefaultPageSize | BadMaxPageSize
  | BadMaxBodyBytes | NoStore | BadEndpoint | DuplicateEndpoint | BadSchema schema_error

definition validateRegistration ::
    "'s registration \<Rightarrow> string list \<Rightarrow> (config_error, string list) res" where
  "validateRegistration reg seen =
     (let ep = rtEndpoint (regType reg) in
      if regStore reg = None then Inl NoStore
      else if ep = [] \<or> \<not> prefix ''/'' ep \<or> count_list ep CHR ''/'' \<noteq> 1 then Inl BadEndpoint
      else if foldName ep \<in> set seen then Inl DuplicateEndpoint
      else rbind (map_err BadSchema (schemaValidate (rtSchema (regType reg)))) (\<lambda>_.
           rbind (rfold (\<lambda>x _. map_err BadSchema (schemaValidate (extSchema x)))
                    (rtExtensions (regType reg)) ()) (\<lambda>_.
             Inr (foldName ep # seen))))"

definition validateRegistrations :: "'s config \<Rightarrow> (config_error, unit) res" where
  "validateRegistrations c = rbind (rfold validateRegistration (cfgResourceTypes c) []) (\<lambda>_. Inr ())"

definition configValidate :: "'s config \<Rightarrow> (config_error, 's config) res" where
  "configValidate c =
     (if cfgBaseURL c = [] then Inl NoBaseURL
      else let c = c\<lparr>cfgBaseURL := trimRight CHR ''/'' (cfgBaseURL c)\<rparr> in
      if cfgResourceTypes c = [] then Inl NoResourceTypes
      else if cfgMaxFilterResults c \<le> 0 then Inl BadMaxFilterResults
      else let c = (if cfgDefaultPageSize c = 0 then c\<lparr>cfgDefaultPageSize := defaultPageSize\<rparr> else c) in
      if cfgDefaultPageSize c < 0 then Inl BadDefaultPageSize
      else let c = (if cfgMaxPageSize c = 0
                    then c\<lparr>cfgMaxPageSize := max defaultMaxPageSize (cfgDefaultPageSize c)\<rparr> else c) in
      if cfgMaxPageSize c < cfgDefaultPageSize c then Inl BadMaxPageSize
      else let c = (if cfgMaxBodyBytes c = 0 then c\<lparr>cfgMaxBodyBytes := defaultMaxBodyBytes\<rparr> else c) in
      if cfgMaxBodyBytes c < 0 then Inl BadMaxBodyBytes
      else rbind (validateRegistrations c) (\<lambda>_. Inr c))"

text \<open>The zero profile asks for no tolerance.\<close>

definition strictMode :: "'s config \<Rightarrow> bool" where
  "strictMode c \<longleftrightarrow> cfgProfile c = StrictProfile"

subsection \<open>What validation guarantees\<close>

definition configLimits :: "'s config \<Rightarrow> bool" where
  "configLimits c \<longleftrightarrow>
     0 < cfgMaxFilterResults c \<and> 0 < cfgDefaultPageSize c \<and>
     cfgDefaultPageSize c \<le> cfgMaxPageSize c \<and> 0 < cfgMaxBodyBytes c"

definition endpointOk :: "string \<Rightarrow> bool" where
  "endpointOk ep \<longleftrightarrow> (\<exists>name. ep = CHR ''/'' # name \<and> CHR ''/'' \<notin> set name)"

lemma endpointOk_iff: "endpointOk ep \<longleftrightarrow> \<not> (ep = [] \<or> \<not> prefix ''/'' ep \<or> count_list ep CHR ''/'' \<noteq> 1)"
  by (cases ep) (auto simp: endpointOk_def count_list_0_iff)

lemma validateRegistrations_loop:
  "rfold validateRegistration regs seen = Inr seen' \<longleftrightarrow>
     seen' = rev (map (\<lambda>r. foldName (rtEndpoint (regType r))) regs) @ seen \<and>
     list_all (\<lambda>r. regStore r \<noteq> None \<and> endpointOk (rtEndpoint (regType r)) \<and>
       schemaValidate (rtSchema (regType r)) = Inr () \<and>
       list_all (\<lambda>x. schemaValidate (extSchema x) = Inr ()) (rtExtensions (regType r))) regs \<and>
     distinct (map (\<lambda>r. foldName (rtEndpoint (regType r))) regs) \<and>
     set (map (\<lambda>r. foldName (rtEndpoint (regType r))) regs) \<inter> set seen = {}"
proof (induction regs arbitrary: seen)
  case (Cons r regs)
  have exts: "rfold (\<lambda>x _. map_err BadSchema (schemaValidate (extSchema x))) xs () = Inr () \<longleftrightarrow>
      list_all (\<lambda>x. schemaValidate (extSchema x) = Inr ()) xs" for xs
    by (induction xs) (auto simp: res_simps)
  have "validateRegistration r seen = Inr s \<longleftrightarrow>
      s = foldName (rtEndpoint (regType r)) # seen \<and> regStore r \<noteq> None \<and> endpointOk (rtEndpoint (regType r)) \<and>
      foldName (rtEndpoint (regType r)) \<notin> set seen \<and> schemaValidate (rtSchema (regType r)) = Inr () \<and>
      list_all (\<lambda>x. schemaValidate (extSchema x) = Inr ()) (rtExtensions (regType r))" for s
    unfolding endpointOk_iff validateRegistration_def Let_def if_eq_iff rbind_eq_Inr map_err_eq_Inr
    by (auto simp: exts)
  then show ?case by (auto simp: rbind_eq_Inr Cons.IH)
qed auto

lemma configValidate_limits:
  assumes "configValidate c = Inr c'"
  shows "configLimits c' \<and> cfgResourceTypes c' = cfgResourceTypes c \<and> cfgResourceTypes c \<noteq> [] \<and>
    cfgProfile c' = cfgProfile c \<and> cfgMaxFilterResults c' = cfgMaxFilterResults c \<and>
    validateRegistrations c' = Inr ()"
  using assms unfolding configValidate_def
  by (auto simp: Let_def configLimits_def defaultPageSize_def defaultMaxPageSize_def
      defaultMaxBodyBytes_def rbind_eq_Inr if_eq_iff split: if_splits)

end
