(* ===== verification/Server_Pipeline.thy ===== *)
theory Server_Pipeline
  imports Server_Config Scim_Codec Patch_Safety
begin

text \<open>
  \<open>server/pipeline.go\<close> and \<open>server/etag.go\<close>: validation of a resource about to be written,
  the merge of a PUT body with the current resource, and entity tags. The hexadecimal SHA-256
  of the JSON of a resource is the parameter \<open>digest\<close>, a function of the fields
  \<open>EncodeResource\<close> returns; the clock is an argument.
\<close>

subsection \<open>Validation\<close>

definition checkCanonical :: "attribute \<Rightarrow> string \<Rightarrow> bool \<Rightarrow> (scim_error, unit) res" where
  "checkCanonical attr s strict =
     (if \<not> strict \<or> canonicalValues attr = [] then Inr ()
      else if list_ex (\<lambda>c. foldName c = foldName s) (canonicalValues attr) then Inr ()
      else Inl ErrInvalidValue)"

definition validateSub :: "bool \<Rightarrow> cval \<Rightarrow> attribute \<Rightarrow> (scim_error, unit) res" where
  "validateSub strict el sub =
     (case aget el (foldName (attrName sub)) of
        None \<Rightarrow>
          if required sub \<and> mutabilityOf sub \<noteq> MutabilityReadOnly then Inl ErrInvalidValue else Inr ()
      | Some (VString s) \<Rightarrow> checkCanonical sub s strict
      | Some _ \<Rightarrow> Inr ())"

definition validateElement :: "attribute \<Rightarrow> cval \<Rightarrow> bool \<Rightarrow> (scim_error, unit) res" where
  "validateElement attr el strict = rfold (\<lambda>sub _. validateSub strict el sub) (subAttributes attr) ()"

definition validateValue :: "attribute \<Rightarrow> gval \<Rightarrow> bool \<Rightarrow> (scim_error, unit) res" where
  "validateValue attr v strict =
     (case v of
        VComplex m \<Rightarrow> validateElement attr m strict
      | VMulti ms \<Rightarrow> rfold (\<lambda>el _. validateElement attr el strict) ms ()
      | VString s \<Rightarrow> checkCanonical attr s strict
      | VStrings ss \<Rightarrow> rfold (\<lambda>s _. checkCanonical attr s strict) ss ()
      | _ \<Rightarrow> Inr ())"

definition validateAttr :: "resource \<Rightarrow> string \<Rightarrow> bool \<Rightarrow> attribute \<Rightarrow> (scim_error, unit) res" where
  "validateAttr r pre strict attr =
     (case Get r (pre @ attrName attr) of
        None \<Rightarrow>
          if required attr \<and> mutabilityOf attr \<noteq> MutabilityReadOnly then Inl ErrInvalidValue else Inr ()
      | Some v \<Rightarrow> validateValue attr v strict)"

definition validateContainer ::
    "resource \<Rightarrow> string \<Rightarrow> attribute list \<Rightarrow> bool \<Rightarrow> (scim_error, unit) res" where
  "validateContainer r pre attrs strict = rfold (\<lambda>attr _. validateAttr r pre strict attr) attrs ()"

definition validateExtension :: "resource \<Rightarrow> bool \<Rightarrow> schema_extension \<Rightarrow> (scim_error, unit) res" where
  "validateExtension r strict x =
     (let ext = extSchema x in
      if extRequired x \<and> \<not> list_ex (\<lambda>s. foldName s = foldName (schemaID ext)) (Schemas r)
      then Inl ErrInvalidValue
      else validateContainer r (schemaID ext @ '':'') (schemaAttributes ext) strict)"

definition validateResource :: "resource \<Rightarrow> resource_type \<Rightarrow> bool \<Rightarrow> (scim_error, unit) res" where
  "validateResource r rt strict =
     rbind (validateContainer r [] (schemaAttributes (rtSchema rt)) strict) (\<lambda>_.
       rfold (\<lambda>x _. validateExtension r strict x) (rtExtensions rt) ())"

subsection \<open>Merging a PUT\<close>

text \<open>
  \<open>jsonEqual\<close> compares the JSON of two stored values. \<open>jsonForm\<close> is the tree of that JSON:
  objects with sorted keys, times and bytes as their text. A float stands for its number
  text; two values of one attribute are both floats or both integers.
\<close>

definition jsonLeaf :: "gval \<Rightarrow> gval" where
  "jsonLeaf v =
     (case v of VRef s \<Rightarrow> VString s | VRefs ss \<Rightarrow> VStrings ss | _ \<Rightarrow> encodeLeaf v)"

definition jsonObject :: "cval \<Rightarrow> gval" where
  "jsonObject m = VMap (sort_key fst (map (\<lambda>kv. (fst kv, jsonLeaf (snd kv))) m))"

definition jsonForm :: "gval \<Rightarrow> gval" where
  "jsonForm v =
     (case v of
        VComplex m \<Rightarrow> jsonObject m
      | VMulti ms \<Rightarrow> VList (map jsonObject ms)
      | _ \<Rightarrow> jsonLeaf v)"

definition jsonEqual :: "gval \<Rightarrow> gval \<Rightarrow> bool" where
  "jsonEqual a b \<longleftrightarrow> jsonOk (jsonForm a) \<and> jsonOk (jsonForm b) \<and> jsonForm a = jsonForm b"

definition mergeImmutable :: "string \<Rightarrow> gval option \<Rightarrow> resource \<Rightarrow> (scim_error, resource) res" where
  "mergeImmutable path cur incoming =
     (case cur of
        None \<Rightarrow> Inr incoming
      | Some curV \<Rightarrow>
          (case Get incoming path of
             None \<Rightarrow> Set incoming path curV
           | Some inV \<Rightarrow> if \<not> jsonEqual inV curV then Inl ErrMutability else Inr incoming))"

definition mergePutAttr :: "resource \<Rightarrow> string \<Rightarrow> attribute \<Rightarrow> resource \<Rightarrow> (scim_error, resource) res" where
  "mergePutAttr current pre attr incoming =
     (let path = pre @ attrName attr; cur = Get current path in
      case mutabilityOf attr of
        MutabilityReadOnly \<Rightarrow> (case cur of None \<Rightarrow> Inr incoming | Some v \<Rightarrow> Set incoming path v)
      | MutabilityImmutable \<Rightarrow> mergeImmutable path cur incoming
      | _ \<Rightarrow> Inr incoming)"

definition mergePutAttrs ::
    "resource \<Rightarrow> string \<Rightarrow> attribute list \<Rightarrow> resource \<Rightarrow> (scim_error, resource) res" where
  "mergePutAttrs current pre attrs incoming = rfold (mergePutAttr current pre) attrs incoming"

definition mergePut ::
    "gotime \<Rightarrow> resource \<Rightarrow> resource \<Rightarrow> resource_type \<Rightarrow> (scim_error, resource) res" where
  "mergePut now incoming current rt =
     rbind (mergePutAttrs current [] (schemaAttributes (rtSchema rt)) incoming) (\<lambda>incoming.
     rbind (rfold (\<lambda>x. mergePutAttrs current (schemaID (extSchema x) @ '':'') (schemaAttributes (extSchema x)))
              (rtExtensions rt) incoming) (\<lambda>incoming.
     rbind (Set incoming ''id'' (getNil current ''id'')) (\<lambda>incoming.
       Inr (SetMeta ((rMeta current)\<lparr>mLastModified := now\<rparr>) incoming))))"

subsection \<open>Entity tags\<close>

type_synonym digest = "json_fields \<Rightarrow> string"

definition zeroProjection :: projection where
  "zeroProjection = \<lparr>prAttributes = [], prExcluded = []\<rparr>"

definition resourceETag :: "digest \<Rightarrow> resource \<Rightarrow> (go_error, string) res" where
  "resourceETag digest r =
     (if mVersion (rMeta r) \<noteq> [] then Inr (mVersion (rMeta r))
      else rbind (EncodeResource r zeroProjection) (\<lambda>body.
        Inr (''W/'' @ [CHR 0x22] @ digest body @ [CHR 0x22])))"

definition stampETag :: "digest \<Rightarrow> resource \<Rightarrow> (go_error, string \<times> resource) res" where
  "stampETag digest r =
     rbind (resourceETag digest r) (\<lambda>tag. Inr (tag, SetMeta ((rMeta r)\<lparr>mVersion := tag\<rparr>) r))"

definition opaqueTag :: "string \<Rightarrow> string" where
  "opaqueTag tag = trimChar (CHR 0x22) (trimPrefix ''W/'' (trimSpace tag))"

definition etagMatch :: "string \<Rightarrow> string \<Rightarrow> bool" where
  "etagMatch header tag \<longleftrightarrow>
     trimSpace header = ''*'' \<or>
     list_ex (\<lambda>candidate. opaqueTag candidate = opaqueTag tag) (splitOn CHR '','' header)"

definition checkIfMatch :: "digest \<Rightarrow> string \<Rightarrow> resource \<Rightarrow> (go_error, unit) res" where
  "checkIfMatch digest header cur =
     (if header = [] then Inr ()
      else rbind (resourceETag digest cur) (\<lambda>tag.
        if \<not> etagMatch header tag then Inl preconditionFailed else Inr ()))"

subsection \<open>Laws\<close>

lemma rfold_unit_Inr: "rfold (\<lambda>x _. f x) xs () = Inr () \<longleftrightarrow> (\<forall>x \<in> set xs. f x = Inr ())"
  by (induction xs) (auto simp: res_simps)

lemma rfold_unit_Inl: "rfold (\<lambda>x _. f x) xs () = Inl e \<Longrightarrow> \<exists>x \<in> set xs. f x = Inl e"
  by (induction xs) (auto simp: res_simps)

text \<open>The weak prefix and the quotes do not matter: the three spellings of one tag agree.\<close>

lemma dropWhile_absent: "x \<notin> set xs \<Longrightarrow> dropWhile (\<lambda>y. y = x) xs = xs"
  by (cases xs) auto

lemma trimChar_quoted:
  assumes "c \<notin> set ds" "ds \<noteq> []"
  shows "trimChar c (c # ds @ [c]) = ds" and "trimChar c ds = ds"
proof -
  from assms obtain d ds' where "ds = d # ds'" "d \<noteq> c" by (cases ds) auto
  then have "dropWhile (\<lambda>x. x = c) (c # ds @ [c]) = ds @ [c]" by simp
  with dropWhile_absent [of c "rev ds"] dropWhile_absent [of c ds] assms(1)
  show "trimChar c (c # ds @ [c]) = ds" "trimChar c ds = ds"
    by (simp_all add: trimChar_def)
qed

definition bareTag :: "string \<Rightarrow> bool" where
  "bareTag ds \<longleftrightarrow> ds \<noteq> [] \<and> CHR 0x22 \<notin> set ds \<and> \<not> isSpace (hd ds) \<and> \<not> isSpace (last ds) \<and>
     \<not> prefix ''W/'' ds"

lemma trimSpace_id: "xs \<noteq> [] \<Longrightarrow> \<not> isSpace (hd xs) \<Longrightarrow> \<not> isSpace (last xs) \<Longrightarrow> trimSpace xs = xs"
proof -
  assume xs: "xs \<noteq> []" "\<not> isSpace (hd xs)" "\<not> isSpace (last xs)"
  then have "dropWhile isSpace xs = xs" by (simp add: dropWhile_eq_self_iff)
  moreover from xs have "dropWhile isSpace (rev xs) = rev xs" by (simp add: dropWhile_eq_self_iff hd_rev)
  ultimately show ?thesis by (simp add: trimSpace_def)
qed

lemma opaqueTag_spellings:
  assumes "bareTag ds"
  shows "opaqueTag ds = ds" and "opaqueTag (CHR 0x22 # ds @ [CHR 0x22]) = ds"
    and "opaqueTag (''W/'' @ CHR 0x22 # ds @ [CHR 0x22]) = ds"
proof -
  have quote: "\<not> isSpace (CHR 0x22)" "\<not> isSpace (CHR ''W'')" by (simp_all add: isSpace_def)
  from assms have ds: "ds \<noteq> []" "CHR 0x22 \<notin> set ds" by (simp_all add: bareTag_def)
  note trims = trimChar_quoted [OF ds(2,1)]
  show "opaqueTag ds = ds"
    using assms trims(2) by (simp add: opaqueTag_def bareTag_def trimSpace_id trimPrefix_def)
  have "trimSpace (CHR 0x22 # ds @ [CHR 0x22]) = CHR 0x22 # ds @ [CHR 0x22]"
    using quote by (intro trimSpace_id) simp_all
  then show "opaqueTag (CHR 0x22 # ds @ [CHR 0x22]) = ds"
    using trims(1) by (simp add: opaqueTag_def trimPrefix_def)
  have "trimSpace (''W/'' @ CHR 0x22 # ds @ [CHR 0x22]) = ''W/'' @ CHR 0x22 # ds @ [CHR 0x22]"
    using quote by (intro trimSpace_id) simp_all
  then show "opaqueTag (''W/'' @ CHR 0x22 # ds @ [CHR 0x22]) = ds"
    using trims(1) by (simp add: opaqueTag_def trimPrefix_def)
qed

subsection \<open>What a PUT keeps\<close>

lemma mergePutAttr_write:
  "mergePutAttr current pre attr inc = Inr inc' \<Longrightarrow>
     inc' = inc \<or> (\<exists>v. Set inc (pre @ attrName attr) v = Inr inc')"
  by (auto simp: mergePutAttr_def mergeImmutable_def Let_def split: mutability.splits option.splits if_splits)

text \<open>The paths the merge writes, below one namespace.\<close>

lemma core_path:
  assumes "namesValid rt" "a \<in> set (schemaAttributes (rtSchema rt))" "distinct (foldedNames (schemaAttributes (rtSchema rt)))"
  shows "resolvePath rt (attrName a) = Inr \<lparr>rpUrn = [], rpAttr = Some a, rpSub = None, rpCommon = False\<rparr>"
proof -
  have "validAttrName (attrName a)" using assms(1,2) by (auto simp: namesValid_def list_all_iff)
  then have "plainName (attrName a)"
    using validAttrName_no_sep [of "attrName a"] no_colon_not_urn [of "attrName a"] by (auto simp: plainName_def)
  moreover have "findAttribute (schemaAttributes (rtSchema rt)) (attrName a) = Some a"
    using assms(3,2) by (rule findAttribute_in)
  ultimately show ?thesis by (simp add: resolvePath_plain namespaceAttr_def)
qed

lemma extension_path:
  assumes apart: "urnsApart rt" and names: "namesValid rt"
    and core: "list_all (\<lambda>x. foldName (schemaID (extSchema x)) \<noteq> foldName (schemaID (rtSchema rt))) (rtExtensions rt)"
    and x: "x \<in> set (rtExtensions rt)" and a: "a \<in> set (schemaAttributes (extSchema x))"
    and res: "resolvePath rt (schemaID (extSchema x) @ '':'' @ attrName a) = Inr rp"
  shows "rpUrn rp \<noteq> [] \<and> rpAttr rp \<noteq> None"
proof -
  define urn where "urn = schemaID (extSchema x)"
  from x have u: "urn \<in> set (declaredURNs rt)" by (auto simp: urn_def declaredURNs_def)
  from apart u have "prefix urnPrefix (foldName urn)" by (auto simp: urnsApart_def list_all_iff)
  then have ne: "urn \<noteq> []" by (auto simp: urnPrefix_def)
  from names x a have "validAttrName (attrName a)" by (auto simp: namesValid_def list_all_iff)
  then have k: "attrName a \<noteq> []" using validAttrName_no_sep by blast
  from core x have "foldName urn \<noteq> foldName (schemaID (rtSchema rt))" by (auto simp: urn_def list_all_iff)
  with splitURNPrefix_qualified [OF apart u refl, of "attrName a"] obtain w where
    w: "foldName w = foldName urn" "splitURNPrefix rt (urn @ '':'' @ attrName a) = (w, attrName a, False)"
    by (auto split: if_splits)
  from w(1) ne have "w \<noteq> []" by auto
  with res w(2) k have "resolveAttrExpr rt w (attrName a) = Inr rp"
    by (simp add: resolvePath_def urn_def [symmetric])
  with \<open>w \<noteq> []\<close> show ?thesis by (elim resolveAttrExpr_Inr) auto
qed

text \<open>One merged attribute: what is written, what stays, and what it reads as.\<close>

definition putType :: "resource_type \<Rightarrow> bool" where
  "putType rt \<longleftrightarrow>
     resourceTypeOk rt \<and> commonReserved rt \<and> rtValid rt \<and>
     distinct (foldedNames (schemaAttributes (rtSchema rt)))"

lemma mergePutAttr_keeps:
  assumes "putType (rRT inc)" and "resourceOk inc" and "mergePutAttr current pre attr inc = Inr inc'"
  shows "resourceOk inc' \<and> rRT inc' = rRT inc"
proof -
  from mergePutAttr_write [OF assms(3)] consider "inc' = inc" | v where "Set inc (pre @ attrName attr) v = Inr inc'"
    by blast
  then show ?thesis
  proof cases
    case (2 v)
    with Set_resourceOk [OF _ assms(2) 2] assms(1) show ?thesis by (simp add: putType_def)
  qed (use assms(2) in simp)
qed

lemma mergePutAttr_frame:
  assumes rt: "putType (rRT inc)" and step: "mergePutAttr current pre attr inc = Inr inc'"
    and a: "a \<in> set (schemaAttributes (rtSchema (rRT inc)))"
    and other: "\<And>rp. resolvePath (rRT inc) (pre @ attrName attr) = Inr rp \<Longrightarrow>
      rpAttr rp \<noteq> None \<and> (rpUrn rp \<noteq> [] \<or>
        map_option (foldName \<circ> attrName) (rpAttr rp) \<noteq> Some (foldName (attrName a)))"
  shows "Get inc' (attrName a) = Get inc (attrName a)"
proof -
  from mergePutAttr_write [OF step] consider "inc' = inc" | v where "Set inc (pre @ attrName attr) v = Inr inc'"
    by blast
  then show ?thesis
  proof cases
    case (2 v)
    from 2 obtain rp where rp: "resolvePath (rRT inc) (pre @ attrName attr) = Inr rp" by (auto elim: Set_InrE)
    from other [OF rp] obtain b where b: "rpAttr rp = Some b"
      and dis: "rpUrn rp \<noteq> [] \<or> foldName (attrName b) \<noteq> foldName (attrName a)" by auto
    note q = core_path [of "rRT inc" a]
    have "disjointPaths rp \<lparr>rpUrn = [], rpAttr = Some a, rpSub = None, rpCommon = False\<rparr>"
      using dis b by (auto simp: disjointPaths_def)
    with rt a show ?thesis
      by (intro Set_frame [OF _ 2 rp b q]) (auto simp: putType_def rtValid_def storedPath_def)
  qed simp
qed

lemma mergePutAttr_own:
  assumes rt: "putType (rRT inc)" "rRT current = rRT inc" and cur: "resourceOk current"
    and step: "mergePutAttr current [] a inc = Inr inc'"
    and a: "a \<in> set (schemaAttributes (rtSchema (rRT inc)))" and v: "Get current (attrName a) = Some v"
  shows "mutabilityOf a = MutabilityReadOnly \<Longrightarrow> list_all rereadable (subAttributes a) \<Longrightarrow>
      Get inc' (attrName a) = Some v"
    and "mutabilityOf a = MutabilityImmutable \<Longrightarrow> list_all rereadable (subAttributes a) \<Longrightarrow>
      Get inc' (attrName a) = Some v \<or> (\<exists>w. Get inc' (attrName a) = Some w \<and> jsonEqual w v)"
proof -
  have rp: "resolvePath (rRT inc) (attrName a) = Inr \<lparr>rpUrn = [], rpAttr = Some a, rpSub = None, rpCommon = False\<rparr>"
    using rt(1) a by (intro core_path) (auto simp: putType_def rtValid_def)
  have stored: "storedValue a v"
    by (rule Get_stored [OF _ cur _ _ _ _ v]) (use rt rp in \<open>auto simp: putType_def storedPath_def\<close>)
  have set: "Get q (attrName a) = Some v"
    if run: "Set inc (attrName a) v = Inr q" and subs: "list_all rereadable (subAttributes a)" for q
  proof -
    from Get_Set [OF _ run rp] rt(1) obtain cv where
      cv: "coerceValue a v = Inr cv" "Get q (attrName a) = assigned cv"
      by (auto simp: putType_def targetAttr_def)
    have "rereadable a"
    proof (rule ccontr)
      assume "\<not> rereadable a"
      with stored have "coerceValue a v = Inl TypeMismatch"
        by (auto simp: rereadable_def storedValue_def stored_defs coerceValue_def coerceValueWith_def
            coerceMultiWith_def multiItems_def split: gval.splits)
      with cv(1) show False by simp
    qed
    with coerceValue_stored_id [OF stored _ subs] cv stored show ?thesis
      by (auto simp: assigned_def)
  qed
  show "Get inc' (attrName a) = Some v"
    if "mutabilityOf a = MutabilityReadOnly" "list_all rereadable (subAttributes a)"
    using step v that set by (simp add: mergePutAttr_def)
  show "Get inc' (attrName a) = Some v \<or> (\<exists>w. Get inc' (attrName a) = Some w \<and> jsonEqual w v)"
    if "mutabilityOf a = MutabilityImmutable" "list_all rereadable (subAttributes a)"
    using step v that set
    by (auto simp: mergePutAttr_def mergeImmutable_def Let_def split: option.splits if_splits)
qed

text \<open>The merge of one namespace after the attribute, and of the extensions, leave it.\<close>

lemma mergePutAttrs_keeps:
  assumes "putType (rRT inc)" "resourceOk inc" "mergePutAttrs current pre attrs inc = Inr inc'"
  shows "resourceOk inc' \<and> rRT inc' = rRT inc"
proof -
  from assms(3) have loop: "rfold (mergePutAttr current pre) attrs inc = Inr inc'"
    by (simp add: mergePutAttrs_def)
  have "(\<lambda>r. resourceOk r \<and> rRT r = rRT inc) inc'"
  proof (rule rfold_invariant [OF loop])
    fix b u v
    assume "resourceOk u \<and> rRT u = rRT inc" and step: "mergePutAttr current pre b u = Inr v"
    with mergePutAttr_keeps [OF _ _ step] assms(1) show "resourceOk v \<and> rRT v = rRT inc" by simp
  qed (use assms(2) in simp)
  then show ?thesis .
qed

lemma mergePutAttrs_frame:
  assumes "putType (rRT inc)" "resourceOk inc" "mergePutAttrs current pre attrs inc = Inr inc'"
    and a: "a \<in> set (schemaAttributes (rtSchema (rRT inc)))"
    and other: "\<And>b rp. b \<in> set attrs \<Longrightarrow> resolvePath (rRT inc) (pre @ attrName b) = Inr rp \<Longrightarrow>
      rpAttr rp \<noteq> None \<and> (rpUrn rp \<noteq> [] \<or>
        map_option (foldName \<circ> attrName) (rpAttr rp) \<noteq> Some (foldName (attrName a)))"
  shows "Get inc' (attrName a) = Get inc (attrName a)"
proof -
  from assms(3) have loop: "rfold (mergePutAttr current pre) attrs inc = Inr inc'"
    by (simp add: mergePutAttrs_def)
  have "(\<lambda>r. resourceOk r \<and> rRT r = rRT inc \<and> Get r (attrName a) = Get inc (attrName a)) inc'"
  proof (rule rfold_invariant [OF loop])
    fix b u v
    assume b: "b \<in> set attrs" and u: "resourceOk u \<and> rRT u = rRT inc \<and> Get u (attrName a) = Get inc (attrName a)"
      and step: "mergePutAttr current pre b u = Inr v"
    from mergePutAttr_frame [OF _ step, of a] u assms(1) a other [OF b] mergePutAttr_keeps [OF _ _ step]
    show "resourceOk v \<and> rRT v = rRT inc \<and> Get v (attrName a) = Get inc (attrName a)" by simp
  qed (use assms(2) in simp)
  then show ?thesis by simp
qed

lemma mergeCore_reads:
  assumes rt: "putType (rRT inc)" "rRT current = rRT inc" and ok: "resourceOk current" "resourceOk inc"
    and merge: "mergePutAttrs current [] (schemaAttributes (rtSchema (rRT inc))) inc = Inr inc'"
    and a: "a \<in> set (schemaAttributes (rtSchema (rRT inc)))" "list_all rereadable (subAttributes a)"
    and v: "Get current (attrName a) = Some v"
  shows "mutabilityOf a = MutabilityReadOnly \<Longrightarrow> Get inc' (attrName a) = Some v"
    and "mutabilityOf a = MutabilityImmutable \<Longrightarrow>
      Get inc' (attrName a) = Some v \<or> (\<exists>w. Get inc' (attrName a) = Some w \<and> jsonEqual w v)"
proof -
  from split_list [OF a(1)] obtain xs ys where attrs: "schemaAttributes (rtSchema (rRT inc)) = xs @ a # ys" by blast
  from merge obtain u w where u: "mergePutAttrs current [] xs inc = Inr u"
    and w: "mergePutAttr current [] a u = Inr w" and rest: "mergePutAttrs current [] ys w = Inr inc'"
    by (auto simp: mergePutAttrs_def attrs rfold_append res_simps)
  have ku: "resourceOk u" "rRT u = rRT inc" using mergePutAttrs_keeps [OF rt(1) ok(2) u] by auto
  have kw: "resourceOk w" "rRT w = rRT inc" using mergePutAttr_keeps [OF _ ku(1) w] ku rt(1) by auto
  have "Get inc' (attrName a) = Get w (attrName a)"
  proof (rule mergePutAttrs_frame [OF _ kw(1) rest])
    fix b rp
    assume b: "b \<in> set ys" and rp: "resolvePath (rRT w) ([] @ attrName b) = Inr rp"
    have names: "distinct (foldedNames (xs @ a # ys))" using rt(1) by (simp add: putType_def attrs)
    have "resolvePath (rRT inc) (attrName b) =
        Inr \<lparr>rpUrn = [], rpAttr = Some b, rpSub = None, rpCommon = False\<rparr>"
      using rt(1) b by (intro core_path) (auto simp: putType_def rtValid_def attrs)
    with rp kw(2) have "rpAttr rp = Some b" by auto
    moreover have "foldName (attrName b) \<noteq> foldName (attrName a)"
    proof
      assume "foldName (attrName b) = foldName (attrName a)"
      with imageI [OF b, of "\<lambda>x. foldName (attrName x)"]
      have "foldName (attrName a) \<in> (\<lambda>x. foldName (attrName x)) ` set ys" by simp
      with names show False by (simp add: foldedNames_def)
    qed
    ultimately show "rpAttr rp \<noteq> None \<and> (rpUrn rp \<noteq> [] \<or>
        map_option (foldName \<circ> attrName) (rpAttr rp) \<noteq> Some (foldName (attrName a)))" by simp
  qed (use rt(1) kw a(1) in simp_all)
  moreover note mergePutAttr_own [OF _ _ ok(1) w _ v, unfolded ku(2), OF rt(1,2) a(1)]
  ultimately show "mutabilityOf a = MutabilityReadOnly \<Longrightarrow> Get inc' (attrName a) = Some v"
    and "mutabilityOf a = MutabilityImmutable \<Longrightarrow>
      Get inc' (attrName a) = Some v \<or> (\<exists>w. Get inc' (attrName a) = Some w \<and> jsonEqual w v)"
    using a(2) by simp_all
qed

lemma mergeExtensions_frame:
  assumes rt: "putType (rRT inc)" and ok: "resourceOk inc"
    and merge: "rfold (\<lambda>x. mergePutAttrs current (schemaID (extSchema x) @ '':'') (schemaAttributes (extSchema x)))
      (rtExtensions (rRT inc)) inc = Inr inc'"
    and a: "a \<in> set (schemaAttributes (rtSchema (rRT inc)))"
  shows "resourceOk inc' \<and> rRT inc' = rRT inc \<and> Get inc' (attrName a) = Get inc (attrName a)"
proof -
  have "(\<lambda>r. resourceOk r \<and> rRT r = rRT inc \<and> Get r (attrName a) = Get inc (attrName a)) inc'"
  proof (rule rfold_invariant [OF merge])
    fix x u v
    assume x: "x \<in> set (rtExtensions (rRT inc))"
      and u: "resourceOk u \<and> rRT u = rRT inc \<and> Get u (attrName a) = Get inc (attrName a)"
      and step: "mergePutAttrs current (schemaID (extSchema x) @ '':'') (schemaAttributes (extSchema x)) u = Inr v"
    have valid: "urnsApart (rRT inc)" "namesValid (rRT inc)"
      "list_all (\<lambda>x. foldName (schemaID (extSchema x)) \<noteq> foldName (schemaID (rtSchema (rRT inc)))) (rtExtensions (rRT inc))"
      using rt by (simp_all add: putType_def rtValid_def)
    have "Get v (attrName a) = Get u (attrName a)"
    proof (rule mergePutAttrs_frame [OF _ _ step])
      fix b rp
      assume "b \<in> set (schemaAttributes (extSchema x))"
        and "resolvePath (rRT u) ((schemaID (extSchema x) @ '':'') @ attrName b) = Inr rp"
      with extension_path [OF valid x, of b rp] u
      show "rpAttr rp \<noteq> None \<and> (rpUrn rp \<noteq> [] \<or>
        map_option (foldName \<circ> attrName) (rpAttr rp) \<noteq> Some (foldName (attrName a)))" by simp
    qed (use u rt a in simp_all)
    with u mergePutAttrs_keeps [OF _ _ step] rt
    show "resourceOk v \<and> rRT v = rRT inc \<and> Get v (attrName a) = Get inc (attrName a)" by simp
  qed (use ok in simp)
  then show ?thesis .
qed

text \<open>Writing the id leaves the attributes of the core schema.\<close>

lemma Set_id_frame:
  assumes rt: "putType (rRT r)" and set: "Set r ''id'' v = Inr r'"
    and a: "a \<in> set (schemaAttributes (rtSchema (rRT r)))"
  shows "Get r' (attrName a) = Get r (attrName a)"
proof -
  from set obtain rp where rp: "resolvePath (rRT r) ''id'' = Inr rp" by (auto elim: Set_InrE)
  have plain: "plainName ''id''" by (simp add: plainName_def urnPrefix_def)
  from rp resolvePath_plain [OF plain, of "rRT r"] obtain b common where
    b: "namespaceAttr (rRT r) [] ''id'' = (Some b, common)" "rpAttr rp = Some b"
    by (auto split: prod.splits option.splits)
  from namespaceAttr_fold [OF b(1)] have "foldName (attrName b) = ''id''" by simp
  moreover have "foldName (attrName a) \<noteq> ''id''"
  proof -
    have "''id'' \<in> set (foldedNames commonAttributes)" by (simp add: foldedNames_def commonAttributes_def)
    moreover have "foldName (attrName a) \<in> set (foldedNames (schemaAttributes (rtSchema (rRT r))))"
      using a by (simp add: foldedNames_def)
    ultimately show ?thesis using rt by (auto simp: putType_def commonReserved_def)
  qed
  ultimately have "disjointPaths rp \<lparr>rpUrn = [], rpAttr = Some a, rpSub = None, rpCommon = False\<rparr>"
    using b(2) by (simp add: disjointPaths_def)
  with Set_frame [OF _ set rp b(2) core_path [OF _ a]] rt show ?thesis
    by (simp add: putType_def rtValid_def storedPath_def)
qed

lemma mergePut_keeps:
  assumes rt: "putType rt" and ok: "resourceOk inc" "rRT inc = rt"
    and merge: "mergePut now inc current rt = Inr merged"
  shows "resourceOk merged \<and> rRT merged = rt \<and> rMeta merged = (rMeta current)\<lparr>mLastModified := now\<rparr>"
proof -
  from merge obtain r1 r2 r3 where r1: "mergePutAttrs current [] (schemaAttributes (rtSchema rt)) inc = Inr r1"
    and r2: "rfold (\<lambda>x. mergePutAttrs current (schemaID (extSchema x) @ '':'') (schemaAttributes (extSchema x)))
      (rtExtensions rt) r1 = Inr r2"
    and r3: "Set r2 ''id'' (getNil current ''id'') = Inr r3"
    and merged: "merged = SetMeta ((rMeta current)\<lparr>mLastModified := now\<rparr>) r3"
    unfolding mergePut_def rbind_eq_Inr by blast
  have k1: "resourceOk r1 \<and> rRT r1 = rt" using mergePutAttrs_keeps [OF _ ok(1) r1] ok(2) rt by simp
  have "(\<lambda>r. resourceOk r \<and> rRT r = rt) r2"
  proof (rule rfold_invariant [OF r2])
    fix x u v
    assume "resourceOk u \<and> rRT u = rt"
      and "mergePutAttrs current (schemaID (extSchema x) @ '':'') (schemaAttributes (extSchema x)) u = Inr v"
    with mergePutAttrs_keeps [of u current _ _ v] rt show "resourceOk v \<and> rRT v = rt" by simp
  qed (use k1 in simp)
  with Set_resourceOk [OF _ _ r3] rt have "resourceOk r3 \<and> rRT r3 = rt" by (auto simp: putType_def)
  with merged show ?thesis by (auto simp: SetMeta_def resourceOk_def)
qed

lemma mergePut_reads:
  assumes rt: "putType (rRT inc)" "rRT current = rRT inc" and ok: "resourceOk current" "resourceOk inc"
    and merge: "mergePut now inc current (rRT inc) = Inr merged"
    and a: "a \<in> set (schemaAttributes (rtSchema (rRT inc)))" "list_all rereadable (subAttributes a)"
    and v: "Get current (attrName a) = Some v"
  shows "mutabilityOf a = MutabilityReadOnly \<Longrightarrow> Get merged (attrName a) = Some v"
    and "mutabilityOf a = MutabilityImmutable \<Longrightarrow>
      Get merged (attrName a) = Some v \<or> (\<exists>w. Get merged (attrName a) = Some w \<and> jsonEqual w v)"
    and "resourceOk merged \<and> rRT merged = rRT inc \<and> rMeta merged = (rMeta current)\<lparr>mLastModified := now\<rparr>"
proof -
  from merge obtain r1 r2 r3 where r1: "mergePutAttrs current [] (schemaAttributes (rtSchema (rRT inc))) inc = Inr r1"
    and r2: "rfold (\<lambda>x. mergePutAttrs current (schemaID (extSchema x) @ '':'') (schemaAttributes (extSchema x)))
      (rtExtensions (rRT inc)) r1 = Inr r2"
    and r3: "Set r2 ''id'' (getNil current ''id'') = Inr r3"
    and merged: "merged = SetMeta ((rMeta current)\<lparr>mLastModified := now\<rparr>) r3"
    unfolding mergePut_def rbind_eq_Inr by blast
  have k1: "resourceOk r1" "rRT r1 = rRT inc" using mergePutAttrs_keeps [OF rt(1) ok(2) r1] by auto
  have k2: "resourceOk r2" "rRT r2 = rRT inc" "Get r2 (attrName a) = Get r1 (attrName a)"
    using mergeExtensions_frame [of r1 current r2 a] k1 r2 rt(1) a(1) by auto
  have k3: "resourceOk r3" "rRT r3 = rRT inc"
    using Set_resourceOk [OF _ k2(1) r3] k2(2) rt(1) by (auto simp: putType_def)
  have core: "resolvePath (rRT inc) (attrName a) = Inr \<lparr>rpUrn = [], rpAttr = Some a, rpSub = None, rpCommon = False\<rparr>"
    using rt(1) a(1) by (intro core_path) (auto simp: putType_def rtValid_def)
  have "Get r3 (attrName a) = Get r2 (attrName a)"
    using Set_id_frame [OF _ r3, of a] k2(2) rt(1) a(1) by simp
  moreover have "Get (SetMeta m r3) (attrName a) = Get r3 (attrName a)" for m
    using core k3(2) by (simp add: Get_def SetMeta_def getResolved_def)
  ultimately have eq: "Get merged (attrName a) = Get r1 (attrName a)" using k2(3) merged by simp
  from mergeCore_reads [OF rt ok r1 a v] eq
  show "mutabilityOf a = MutabilityReadOnly \<Longrightarrow> Get merged (attrName a) = Some v"
    and "mutabilityOf a = MutabilityImmutable \<Longrightarrow>
      Get merged (attrName a) = Some v \<or> (\<exists>w. Get merged (attrName a) = Some w \<and> jsonEqual w v)"
    by simp_all
  show "resourceOk merged \<and> rRT merged = rRT inc \<and> rMeta merged = (rMeta current)\<lparr>mLastModified := now\<rparr>"
    using merged k3 by (simp add: SetMeta_def resourceOk_def)
qed

end
