(* ===== verification/Scim_List.thy ===== *)
theory Scim_List
  imports Scim_Value Scim_Error
begin

text \<open>
  \<open>scim/list.go\<close>: the ListResponse message. Raw JSON is the tree of its text; a number that
  is written is its decimal text.
\<close>

definition MessageListResponse :: string where
  "MessageListResponse = ''urn:ietf:params:scim:api:messages:2.0:ListResponse''"

record list_response =
  lsTotalResults :: int
  lsStartIndex :: int
  lsItemsPerPage :: int
  lsResources :: "gval list"

definition jsonNumber :: "int \<Rightarrow> gval" where
  "jsonNumber i = VNumber (formatInt i)"

definition ListResponse_MarshalJSON :: "list_response \<Rightarrow> gval" where
  "ListResponse_MarshalJSON lr =
     VMap ([(''schemas'', VList [VString MessageListResponse]),
            (''totalResults'', jsonNumber (lsTotalResults lr))] @
       (if 0 < lsStartIndex lr then [(''startIndex'', jsonNumber (lsStartIndex lr))] else []) @
       (if 0 < lsItemsPerPage lr then [(''itemsPerPage'', jsonNumber (lsItemsPerPage lr))] else []) @
       [(''Resources'', VList (lsResources lr))])"

text \<open>What \<open>json.Unmarshal\<close> stores in a field: null leaves a string as it is and clears a
  slice or a pointer.\<close>

definition jsonString :: "gval \<Rightarrow> string \<Rightarrow> (scim_error, string) res" where
  "jsonString v old =
     (case v of VNil \<Rightarrow> Inr old | VString s \<Rightarrow> Inr s | _ \<Rightarrow> Inl ErrInvalidSyntax)"

definition jsonStrings :: "gval \<Rightarrow> (scim_error, string list) res" where
  "jsonStrings v =
     (case v of
        VNil \<Rightarrow> Inr []
      | VList vs \<Rightarrow>
          rfold (\<lambda>x out. rbind (jsonString x []) (\<lambda>s. Inr (out @ [s]))) vs []
      | _ \<Rightarrow> Inl ErrInvalidSyntax)"

definition jsonInt :: "gval \<Rightarrow> (scim_error, int option) res" where
  "jsonInt v =
     (case v of
        VNil \<Rightarrow> Inr None
      | VNumber n \<Rightarrow> (case parseInt64 n of Some i \<Rightarrow> Inr (Some i) | None \<Rightarrow> Inl ErrInvalidSyntax)
      | _ \<Rightarrow> Inl ErrInvalidSyntax)"

definition listInt :: "gval \<Rightarrow> (scim_error, int) res" where
  "listInt v =
     (case (case v of VNumber n \<Rightarrow> parseInt64 n | VString s \<Rightarrow> parseInt64 s | _ \<Rightarrow> None) of
        None \<Rightarrow> Inl ErrInvalidValue
      | Some i \<Rightarrow> Inr i)"

definition listField :: "string \<times> gval \<Rightarrow> list_response \<Rightarrow> (scim_error, list_response) res" where
  "listField kv out =
     (let k = foldName (fst kv) in
      if k = ''totalresults'' then rbind (listInt (snd kv)) (\<lambda>i. Inr (out\<lparr>lsTotalResults := i\<rparr>))
      else if k = ''startindex'' then rbind (listInt (snd kv)) (\<lambda>i. Inr (out\<lparr>lsStartIndex := i\<rparr>))
      else if k = ''itemsperpage'' then rbind (listInt (snd kv)) (\<lambda>i. Inr (out\<lparr>lsItemsPerPage := i\<rparr>))
      else if k = ''resources'' then
        (case snd kv of
           VList rs \<Rightarrow> Inr (out\<lparr>lsResources := rs\<rparr>)
         | VNil \<Rightarrow> Inr (out\<lparr>lsResources := []\<rparr>)
         | _ \<Rightarrow> Inl ErrInvalidSyntax)
      else Inr out)"

definition zeroList :: list_response where
  "zeroList = \<lparr>lsTotalResults = 0, lsStartIndex = 0, lsItemsPerPage = 0, lsResources = []\<rparr>"

definition ListResponse_UnmarshalJSON :: "gval \<Rightarrow> (scim_error, list_response) res" where
  "ListResponse_UnmarshalJSON data =
     (case data of
        VMap raw \<Rightarrow> rfold listField raw zeroList
      | VNil \<Rightarrow> Inr zeroList
      | _ \<Rightarrow> Inl ErrInvalidSyntax)"

lemma listInt_jsonNumber: "inInt64 i \<Longrightarrow> listInt (jsonNumber i) = Inr i"
  by (simp add: listInt_def jsonNumber_def parseInt64_formatInt)

lemma list_marshal_unmarshal:
  assumes "inInt64 (lsTotalResults lr)" "inInt64 (lsStartIndex lr)" "inInt64 (lsItemsPerPage lr)"
    and "0 \<le> lsStartIndex lr" "0 \<le> lsItemsPerPage lr"
  shows "ListResponse_UnmarshalJSON (ListResponse_MarshalJSON lr) = Inr lr"
proof -
  have fields:
    "listField (''schemas'', v) out = Inr out"
    "listField (''totalResults'', v) out = rbind (listInt v) (\<lambda>i. Inr (out\<lparr>lsTotalResults := i\<rparr>))"
    "listField (''startIndex'', v) out = rbind (listInt v) (\<lambda>i. Inr (out\<lparr>lsStartIndex := i\<rparr>))"
    "listField (''itemsPerPage'', v) out = rbind (listInt v) (\<lambda>i. Inr (out\<lparr>lsItemsPerPage := i\<rparr>))"
    "listField (''Resources'', VList rs) out = Inr (out\<lparr>lsResources := rs\<rparr>)" for v out rs
    by (simp_all add: listField_def Let_def)
  have "lsStartIndex lr = 0 \<or> 0 < lsStartIndex lr" "lsItemsPerPage lr = 0 \<or> 0 < lsItemsPerPage lr"
    using assms(4,5) by auto
  with assms(1-3) show ?thesis
    by (auto simp: ListResponse_UnmarshalJSON_def ListResponse_MarshalJSON_def fields listInt_jsonNumber zeroList_def)
qed

text \<open>Lax providers: the letter case of the keys and numbers wrapped in strings do not matter.\<close>

lemma listField_fold: "listField (foldName k, v) out = listField (k, v) out"
  by (simp only: listField_def fst_conv snd_conv foldName_idem)

lemma listInt_wrapped: "listInt (VString n) = listInt (VNumber n)"
  by (simp add: listInt_def)

end
