(* ===== verification/Server_Query.thy ===== *)
theory Server_Query
  imports Server_Config Filter_Parser Scim_Codec Scim_List
begin

text \<open>
  \<open>server/query.go\<close> and \<open>server/engine.go\<close>: the parameters of a list request, from the URL
  or a search body, normalised to one query, and the execution of the query: pushed down to
  the store, or by scanning what the store lists. URL values are the decoded map; a search
  body is the tree of its JSON.
\<close>

subsection \<open>Parameters\<close>

record listRequest =
  lrQuery :: query
  lrProjection :: projection

record rawListParams =
  rawFilter :: string
  rawSortBy :: string
  rawSortOrder :: string
  rawStartIndex :: string
  rawCount :: string
  rawAttributes :: string
  rawExcluded :: string

definition splitAttrList :: "string \<Rightarrow> string list" where
  "splitAttrList s =
     (if s = [] then [] else filter (\<lambda>p. p \<noteq> []) (map trimSpace (splitOn CHR '','' s)))"

definition parseProjection :: "string \<Rightarrow> string \<Rightarrow> (scim_error, projection) res" where
  "parseProjection attributes excluded =
     (if attributes \<noteq> [] \<and> excluded \<noteq> [] then Inl ErrInvalidValue
      else Inr \<lparr>prAttributes = splitAttrList attributes, prExcluded = splitAttrList excluded\<rparr>)"

definition normalizeSort :: "rawListParams \<Rightarrow> resource_type \<Rightarrow> query \<Rightarrow> (scim_error, query) res" where
  "normalizeSort raw rt q =
     rbind (if rawSortBy raw = [] then Inr q
            else rbind (map_err (\<lambda>_. ErrInvalidValue) (ParsePath False (rawSortBy raw))) (\<lambda>p.
              if resolveAttr rt p = None then Inl ErrInvalidValue else Inr (q\<lparr>qSortBy := Some p\<rparr>)))
       (\<lambda>q.
          let order = foldName (rawSortOrder raw) in
          if order = [] \<or> order = ''ascending'' then Inr (q\<lparr>qAscending := True\<rparr>)
          else if order = ''descending'' then Inr (q\<lparr>qAscending := False\<rparr>)
          else Inl ErrInvalidValue)"

definition normalizePagination :: "rawListParams \<Rightarrow> int \<Rightarrow> int \<Rightarrow> query \<Rightarrow> (scim_error, query) res" where
  "normalizePagination raw defaultCount maxCount q =
     (let q = q\<lparr>qStartIndex := 1\<rparr> in
      rbind (if rawStartIndex raw = [] then Inr q
             else case parseInt64 (rawStartIndex raw) of
                    None \<Rightarrow> Inl ErrInvalidValue
                  | Some n \<Rightarrow> Inr (if 1 < n then q\<lparr>qStartIndex := n\<rparr> else q))
        (\<lambda>q.
           let q = q\<lparr>qCount := defaultCount\<rparr> in
           if rawCount raw = [] then Inr q
           else case parseInt64 (rawCount raw) of
                  None \<Rightarrow> Inl ErrInvalidValue
                | Some n \<Rightarrow> Inr (q\<lparr>qCount := min (max n 0) maxCount\<rparr>)))"

definition normalize ::
    "rawListParams \<Rightarrow> resource_type \<Rightarrow> 's config \<Rightarrow> (scim_error, listRequest) res" where
  "normalize raw rt cfg =
     rbind (parseProjection (rawAttributes raw) (rawExcluded raw)) (\<lambda>proj.
     rbind (if rawFilter raw = [] then Inr zeroQuery
            else rbind (ParseFilter False (rawFilter raw)) (\<lambda>e. Inr (zeroQuery\<lparr>qFilter := Some e\<rparr>))) (\<lambda>q.
     rbind (normalizeSort raw rt q) (\<lambda>q.
     rbind (normalizePagination raw (cfgDefaultPageSize cfg) (cfgMaxPageSize cfg) q) (\<lambda>q.
       Inr \<lparr>lrQuery = q, lrProjection = proj\<rparr>))))"

text \<open>\<open>url.Values.Get\<close>: the first value of the key, or the empty string.\<close>

type_synonym url_values = "string list amap"

definition urlGet :: "url_values \<Rightarrow> string \<Rightarrow> string" where
  "urlGet vs k = (case aget vs k of Some (v # _) \<Rightarrow> v | _ \<Rightarrow> [])"

definition parseListParams ::
    "url_values \<Rightarrow> resource_type \<Rightarrow> 's config \<Rightarrow> (scim_error, listRequest) res" where
  "parseListParams vs rt cfg =
     normalize
       \<lparr>rawFilter = urlGet vs ''filter'', rawSortBy = urlGet vs ''sortBy'',
        rawSortOrder = urlGet vs ''sortOrder'', rawStartIndex = urlGet vs ''startIndex'',
        rawCount = urlGet vs ''count'', rawAttributes = urlGet vs ''attributes'',
        rawExcluded = urlGet vs ''excludedAttributes''\<rparr> rt cfg"

subsection \<open>The search body\<close>

record searchRequest =
  srAttributes :: "string list"
  srExcluded :: "string list"
  srFilter :: string
  srSortBy :: string
  srSortOrder :: string
  srStartIndex :: "int option"
  srCount :: "int option"

definition searchField :: "string \<times> gval \<Rightarrow> searchRequest \<Rightarrow> (scim_error, searchRequest) res" where
  "searchField kv sr =
     (let k = foldName (fst kv); v = snd kv in
      if k = ''attributes'' then rbind (jsonStrings v) (\<lambda>x. Inr (sr\<lparr>srAttributes := x\<rparr>))
      else if k = ''excludedattributes'' then rbind (jsonStrings v) (\<lambda>x. Inr (sr\<lparr>srExcluded := x\<rparr>))
      else if k = ''filter'' then rbind (jsonString v (srFilter sr)) (\<lambda>x. Inr (sr\<lparr>srFilter := x\<rparr>))
      else if k = ''sortby'' then rbind (jsonString v (srSortBy sr)) (\<lambda>x. Inr (sr\<lparr>srSortBy := x\<rparr>))
      else if k = ''sortorder'' then rbind (jsonString v (srSortOrder sr)) (\<lambda>x. Inr (sr\<lparr>srSortOrder := x\<rparr>))
      else if k = ''startindex'' then rbind (jsonInt v) (\<lambda>x. Inr (sr\<lparr>srStartIndex := x\<rparr>))
      else if k = ''count'' then rbind (jsonInt v) (\<lambda>x. Inr (sr\<lparr>srCount := x\<rparr>))
      else Inr sr)"

definition zeroSearch :: searchRequest where
  "zeroSearch = \<lparr>srAttributes = [], srExcluded = [], srFilter = [], srSortBy = [], srSortOrder = [],
     srStartIndex = None, srCount = None\<rparr>"

definition searchParams :: "searchRequest \<Rightarrow> rawListParams" where
  "searchParams sr =
     \<lparr>rawFilter = srFilter sr, rawSortBy = srSortBy sr, rawSortOrder = srSortOrder sr,
      rawStartIndex = (case srStartIndex sr of None \<Rightarrow> [] | Some i \<Rightarrow> formatInt i),
      rawCount = (case srCount sr of None \<Rightarrow> [] | Some i \<Rightarrow> formatInt i),
      rawAttributes = joinWith CHR '','' (srAttributes sr),
      rawExcluded = joinWith CHR '','' (srExcluded sr)\<rparr>"

definition parseSearchBody ::
    "gval \<Rightarrow> resource_type \<Rightarrow> 's config \<Rightarrow> (scim_error, listRequest) res" where
  "parseSearchBody body rt cfg =
     rbind (case body of
              VMap raw \<Rightarrow> rfold searchField raw zeroSearch
            | VNil \<Rightarrow> Inr zeroSearch
            | _ \<Rightarrow> Inl ErrInvalidSyntax)
       (\<lambda>sr. normalize (searchParams sr) rt cfg)"

subsection \<open>Execution\<close>

record 's typeHandler =
  thRT :: resource_type
  thStore :: "'s store"
  thConfig :: "'s config"

definition supportsFilter :: "'s typeHandler \<Rightarrow> expr \<Rightarrow> bool" where
  "supportsFilter h f = (case stSupportsFilter (thStore h) of None \<Rightarrow> True | Some c \<Rightarrow> c f)"

definition supportsSort :: "'s typeHandler \<Rightarrow> fpath \<Rightarrow> bool" where
  "supportsSort h p = (case stSupportsSort (thStore h) of None \<Rightarrow> True | Some c \<Rightarrow> c p)"

text \<open>\<open>paginate\<close> of the engine; \<open>None\<close> is the panic of the slice expression.\<close>

definition paginate :: "'a list \<Rightarrow> int \<Rightarrow> int \<Rightarrow> 'a list option" where
  "paginate xs startIndex n =
     (let offset = addInt startIndex (- 1) in
      if int (length xs) \<le> offset \<or> n = 0 then Some []
      else sliceExpr offset (min (addInt offset n) (int (length xs))) xs)"

definition scanQuery :: "'s typeHandler \<Rightarrow> query \<Rightarrow> bool \<Rightarrow> 's \<Rightarrow> (go_error, page) res" where
  "scanQuery h q pushFilter s =
     (let limit = cfgMaxFilterResults (thConfig h);
          fetch = zeroQuery\<lparr>qStartIndex := 1, qCount := addInt limit 1,
            qFilter := (if pushFilter then qFilter q else None)\<rparr>
      in rbind (stList (thStore h) fetch s) (\<lambda>p.
         if limit < pgTotalResults p \<or> limit < int (length (pgResources p))
         then Inl (ScimErr ErrTooMany)
         else rbind (if pushFilter then Inr (pgResources p) else matchAll (qFilter q) (pgResources p))
           (\<lambda>matched.
              let sorted = SortResources matched (thRT h) (qSortBy q) (qAscending q) in
              case paginate sorted (qStartIndex q) (qCount q) of
                None \<Rightarrow> Inl OtherErr
              | Some window \<Rightarrow> Inr \<lparr>pgResources = window, pgTotalResults = int (length sorted)\<rparr>)))"

definition runQuery :: "'s typeHandler \<Rightarrow> query \<Rightarrow> 's \<Rightarrow> (go_error, page) res" where
  "runQuery h q s =
     (let pushFilter = (case qFilter q of None \<Rightarrow> True | Some f \<Rightarrow> supportsFilter h f);
          pushSort = (case qSortBy q of None \<Rightarrow> True | Some p \<Rightarrow> supportsSort h p)
      in if pushFilter \<and> pushSort then stList (thStore h) q s else scanQuery h q pushFilter s)"

subsection \<open>Bounds of a normalised request\<close>

lemma normalizeSort_frame:
  "normalizeSort raw rt q = Inr q' \<Longrightarrow>
     qFilter q' = qFilter q \<and>
     (qSortBy q' = qSortBy q \<or> (\<exists>p. qSortBy q' = Some p \<and> resolveAttr rt p \<noteq> None))"
  by (auto simp: normalizeSort_def res_simps Let_def split: if_splits)

lemma normalizePagination_bounds:
  assumes "normalizePagination raw d m q = Inr q'" "0 \<le> d" "d \<le> m"
  shows "1 \<le> qStartIndex q' \<and> 0 \<le> qCount q' \<and> qCount q' \<le> m \<and>
    qFilter q' = qFilter q \<and> qSortBy q' = qSortBy q \<and> qAscending q' = qAscending q"
  using assms
  by (auto simp: normalizePagination_def res_simps Let_def split: if_splits option.splits)

lemma normalize_bounds:
  assumes "normalize raw rt cfg = Inr lr" and "configLimits cfg"
  shows "1 \<le> qStartIndex (lrQuery lr) \<and> 0 \<le> qCount (lrQuery lr) \<and>
    qCount (lrQuery lr) \<le> cfgMaxPageSize cfg \<and>
    (qFilter (lrQuery lr) = None \<longleftrightarrow> rawFilter raw = []) \<and>
    (\<forall>p. qSortBy (lrQuery lr) = Some p \<longrightarrow> resolveAttr rt p \<noteq> None) \<and>
    (prAttributes (lrProjection lr) = [] \<or> prExcluded (lrProjection lr) = [])"
proof -
  from assms(1) obtain proj q1 q2 q3 where proj: "parseProjection (rawAttributes raw) (rawExcluded raw) = Inr proj"
    and q1: "(if rawFilter raw = [] then Inr zeroQuery
            else rbind (ParseFilter False (rawFilter raw)) (\<lambda>e. Inr (zeroQuery\<lparr>qFilter := Some e\<rparr>))) = Inr q1"
    and q2: "normalizeSort raw rt q1 = Inr q2"
    and q3: "normalizePagination raw (cfgDefaultPageSize cfg) (cfgMaxPageSize cfg) q2 = Inr q3"
    and lr: "lr = \<lparr>lrQuery = q3, lrProjection = proj\<rparr>"
    unfolding normalize_def rbind_eq_Inr by blast
  from q1 have "qSortBy q1 = None" "qFilter q1 = None \<longleftrightarrow> rawFilter raw = []"
    by (auto simp: zeroQuery_def res_simps split: if_splits)
  with normalizeSort_frame [OF q2] normalizePagination_bounds [OF q3] assms(2)
  have "1 \<le> qStartIndex q3" "0 \<le> qCount q3" "qCount q3 \<le> cfgMaxPageSize cfg"
    "qFilter q3 = None \<longleftrightarrow> rawFilter raw = []" "\<forall>p. qSortBy q3 = Some p \<longrightarrow> resolveAttr rt p \<noteq> None"
    by (auto simp: configLimits_def)
  moreover have "prAttributes proj = [] \<or> prExcluded proj = []"
    using proj by (auto simp: parseProjection_def splitAttrList_def split: if_splits)
  ultimately show ?thesis by (simp add: lr)
qed

text \<open>Both transports give the same request for the same parameters: the integers survive
  the detour over text.\<close>

lemma search_integers:
  "inInt64 i \<Longrightarrow> parseInt64 (formatInt i) = Some i \<and> formatInt i \<noteq> []"
  using parseInt64_formatInt [of i] by (auto simp: formatInt_def)

subsection \<open>The fallback answers as the push-down\<close>

text \<open>The answer to a query over a table of resources: select, sort, cut the page.\<close>

definition listSpec :: "resource_type \<Rightarrow> query \<Rightarrow> resource list \<Rightarrow> (go_error, page) res" where
  "listSpec rt q rs =
     rbind (matchAll (qFilter q) rs) (\<lambda>matched.
       Inr \<lparr>pgResources = take (nat (qCount q)) (drop (nat (qStartIndex q - 1))
              (SortResources matched rt (qSortBy q) (qAscending q))),
            pgTotalResults = int (length matched)\<rparr>)"

definition queryOk :: "query \<Rightarrow> bool" where
  "queryOk q \<longleftrightarrow> 1 \<le> qStartIndex q \<and> qStartIndex q < 2 ^ 63 \<and> 0 \<le> qCount q \<and> qCount q < 2 ^ 62"

lemma paginate_window:
  assumes "int (length xs) < 2 ^ 62" "1 \<le> start" "start < 2 ^ 63" "0 \<le> n" "n < 2 ^ 62"
  shows "paginate xs start n = Some (take (nat n) (drop (nat (start - 1)) xs))"
proof -
  define i where "i = nat (start - 1)"
  have "addInt start (- 1) = start + - 1"
    by (rule addInt_exact) (use assms(2,3) in \<open>simp add: inInt64_def\<close>)
  then have offset: "addInt start (- 1) = int i" using assms(2) by (simp add: i_def)
  show ?thesis
  proof (cases "length xs \<le> i \<or> n = 0")
    case True
    then show ?thesis by (auto simp: paginate_def offset i_def [symmetric])
  next
    case False
    with assms have "addInt (int i) n = int i + n"
      by (intro addInt_exact) (simp add: inInt64_def)
    moreover define e where "e = min (int i + n) (int (length xs))"
    have "take (nat (e - int i)) (drop i xs) = take (nat n) (drop i xs)"
      using False assms(4) by (auto simp: e_def min_def)
    ultimately show ?thesis
      using False assms(4)
      by (simp add: paginate_def offset sliceExpr_def e_def [symmetric] i_def [symmetric])
        (simp add: e_def)
  qed
qed

text \<open>A store that answers lists itself, over the table of its contract.\<close>

locale listing_store = store_contract +
  assumes list_rows: "invar s \<Longrightarrow> int (length (rows s)) < 2 ^ 62 \<Longrightarrow> qCount q < 2 ^ 62 \<Longrightarrow>
    stList st q s = listSpec rt q (map snd (rows s))"
begin

text \<open>With the scan fallback the answer is that of the push-down, or \<open>tooMany\<close>.\<close>

lemma scanQuery_spec:
  assumes inv: "invar s" and h: "thRT h = rt" "thStore h = st" and q: "queryOk q"
    and size: "int (length (rows s)) < 2 ^ 62"
    and limit: "0 < cfgMaxFilterResults (thConfig h)" "cfgMaxFilterResults (thConfig h) < 2 ^ 62 - 1"
  shows "scanQuery h q pushFilter s =
    (case matchAll (if pushFilter then qFilter q else None) (map snd (rows s)) of
       Inl e \<Rightarrow> Inl e
     | Inr fetched \<Rightarrow>
         if cfgMaxFilterResults (thConfig h) < int (length fetched) then Inl (ScimErr ErrTooMany)
         else listSpec rt q (map snd (rows s)))"
proof -
  define L where "L = cfgMaxFilterResults (thConfig h)"
  define rs where "rs = map snd (rows s)"
  define f where "f = (if pushFilter then qFilter q else None)"
  have add: "addInt L 1 = L + 1" using limit by (intro addInt_exact) (simp add: L_def inInt64_def)
  define fetch where "fetch = zeroQuery\<lparr>qStartIndex := 1, qCount := addInt L 1, qFilter := f\<rparr>"
  have list: "stList st fetch s = listSpec rt fetch rs"
    unfolding rs_def using limit add by (intro list_rows inv size) (simp add: fetch_def L_def)
  have scan: "scanQuery h q pushFilter s = rbind (listSpec rt fetch rs) (\<lambda>p.
         if L < pgTotalResults p \<or> L < int (length (pgResources p)) then Inl (ScimErr ErrTooMany)
         else rbind (if pushFilter then Inr (pgResources p) else matchAll (qFilter q) (pgResources p))
           (\<lambda>matched.
              let sorted = SortResources matched rt (qSortBy q) (qAscending q) in
              case paginate sorted (qStartIndex q) (qCount q) of
                None \<Rightarrow> Inl OtherErr
              | Some window \<Rightarrow> Inr \<lparr>pgResources = window, pgTotalResults = int (length sorted)\<rparr>))"
    unfolding scanQuery_def Let_def h L_def [symmetric] f_def [symmetric] fetch_def [symmetric] list ..
  show ?thesis
  proof (cases "matchAll f rs")
    case (Inl e)
    moreover have "listSpec rt fetch rs = Inl e" using Inl by (simp add: listSpec_def fetch_def)
    ultimately show ?thesis
      unfolding f_def [symmetric] rs_def [symmetric] L_def [symmetric] scan by simp
  next
    case (Inr fetched)
    have fetched: "listSpec rt fetch rs =
        Inr \<lparr>pgResources = take (nat (L + 1)) fetched, pgTotalResults = int (length fetched)\<rparr>"
      by (simp add: listSpec_def fetch_def Inr zeroQuery_def SortResources_def add)
    show ?thesis
    proof (cases "L < int (length fetched)")
      case True
      with Inr show ?thesis
        unfolding f_def [symmetric] rs_def [symmetric] L_def [symmetric] scan fetched by simp
    next
      case False
      then have all: "take (nat (L + 1)) fetched = fetched" by simp
      have "(if pushFilter then Inr fetched else matchAll (qFilter q) fetched) = matchAll (qFilter q) rs"
        using Inr by (auto simp: f_def)
      moreover have "length matched \<le> length (rows s)" if "matchAll (qFilter q) rs = Inr matched" for matched
        using that matchAll_Inr [of _ rs matched] length_filter_le [of _ rs]
        by (cases "qFilter q") (auto simp: rs_def)
      moreover have "paginate (SortResources matched rt (qSortBy q) (qAscending q)) (qStartIndex q) (qCount q) =
          Some (take (nat (qCount q)) (drop (nat (qStartIndex q - 1))
            (SortResources matched rt (qSortBy q) (qAscending q))))"
        if "length matched \<le> length (rows s)" for matched
        using that q size by (intro paginate_window) (simp_all add: queryOk_def)
      moreover have "scanQuery h q pushFilter s =
          rbind (if pushFilter then Inr fetched else matchAll (qFilter q) fetched) (\<lambda>matched.
            let sorted = SortResources matched rt (qSortBy q) (qAscending q) in
            case paginate sorted (qStartIndex q) (qCount q) of
              None \<Rightarrow> Inl OtherErr
            | Some window \<Rightarrow> Inr \<lparr>pgResources = window, pgTotalResults = int (length sorted)\<rparr>)"
        using False by (simp add: scan fetched all)
      ultimately have "scanQuery h q pushFilter s = listSpec rt q rs"
        by (cases "matchAll (qFilter q) rs") (simp_all add: listSpec_def Let_def)
      with False Inr show ?thesis
        unfolding f_def [symmetric] rs_def [symmetric] L_def [symmetric] by simp
    qed
  qed
qed

lemma runQuery_spec:
  assumes inv: "invar s" and h: "thRT h = rt" "thStore h = st" and q: "queryOk q"
    and size: "int (length (rows s)) < 2 ^ 62"
    and limit: "0 < cfgMaxFilterResults (thConfig h)" "cfgMaxFilterResults (thConfig h) < 2 ^ 62 - 1"
  shows "runQuery h q s = listSpec rt q (map snd (rows s)) \<or> runQuery h q s = Inl (ScimErr ErrTooMany)"
proof (cases "(case qFilter q of None \<Rightarrow> True | Some f \<Rightarrow> supportsFilter h f) \<and>
    (case qSortBy q of None \<Rightarrow> True | Some p \<Rightarrow> supportsSort h p)")
  case True
  then have "runQuery h q s = stList st q s" unfolding runQuery_def Let_def h by simp
  also have "\<dots> = listSpec rt q (map snd (rows s))"
    using q by (intro list_rows inv size) (simp add: queryOk_def)
  finally show ?thesis by simp
next
  case False
  define b where "b = (case qFilter q of None \<Rightarrow> True | Some f \<Rightarrow> supportsFilter h f)"
  from False have run: "runQuery h q s = scanQuery h q b s"
    unfolding runQuery_def Let_def b_def [symmetric] by auto
  from scanQuery_spec [OF assms, of b] show ?thesis
    unfolding run listSpec_def by (cases b) (auto split: sum.splits if_splits)
qed

end

end
