(* ===== verification/Server_Handlers.thy ===== *)
theory Server_Handlers
  imports Server_Pipeline Server_Query Patch_Decode
begin

text \<open>
  \<open>server/typehandler.go\<close>, \<open>handler_crud.go\<close>, \<open>handler_patch.go\<close>, \<open>handler_query.go\<close> and
  \<open>errors.go\<close>: the handlers of one resource type, from the request to the response and the
  next state of the store.

  A request is what the handlers read of it: the path value \<open>id\<close>, the conditional headers,
  the decoded URL query, and the body with its length, \<open>None\<close> when it is not JSON. Other
  writers may run between the read and the write of a handler: writers that bypass the server,
  and PATCH requests a store serves natively, which take no stripe lock (\<open>locks.go\<close>). What they
  do between the \<open>n\<close>-th read and the write after it is the argument \<open>others n\<close>. A write that
  fails leaves the state the other writers left, so every answer comes with the state.
\<close>

subsection \<open>Requests and responses\<close>

record request =
  rqID :: string
  rqIfMatch :: string
  rqIfNoneMatch :: string
  rqQuery :: url_values
  rqBodyLength :: int
  rqBody :: "gval option"

datatype body =
    NoBody | ErrorBody scim_error | ResourceBody json_fields | ListBody list_response

record response =
  rsStatus :: int
  rsETag :: "string option"
  rsLocation :: "string option"
  rsBody :: body

definition writeError :: "go_error \<Rightarrow> response" where
  "writeError e =
     (let se = (case e of ScimErr s \<Rightarrow> s | OtherErr \<Rightarrow> ScimError 500 [])
      in \<lparr>rsStatus = errStatus se, rsETag = None, rsLocation = None, rsBody = ErrorBody se\<rparr>)"

definition location :: "'s typeHandler \<Rightarrow> string \<Rightarrow> string" where
  "location h i = cfgBaseURL (thConfig h) @ rtEndpoint (thRT h) @ ''/'' @ i"

definition assignCreateIdentity :: "'s typeHandler \<Rightarrow> env \<Rightarrow> resource \<Rightarrow> (go_error, resource) res" where
  "assignCreateIdentity h e r =
     rbind (NewID (envRandom e)) (\<lambda>i.
     rbind (map_err ScimErr (Set r ''id'' (VString i))) (\<lambda>r.
       Inr (SetMeta \<lparr>mResourceType = rtName (thRT h), mCreated = envNow e, mLastModified = envNow e,
                     mLocation = location h i, mVersion = []\<rparr> r)))"

definition readBody :: "'s typeHandler \<Rightarrow> request \<Rightarrow> (go_error, gval) res" where
  "readBody h rq =
     (if cfgMaxBodyBytes (thConfig h) < rqBodyLength rq then Inl (ScimErr (ScimError 413 []))
      else case rqBody rq of None \<Rightarrow> Inl (ScimErr ErrInvalidSyntax) | Some b \<Rightarrow> Inr b)"

definition requestProjection :: "request \<Rightarrow> (go_error, projection) res" where
  "requestProjection rq =
     map_err ScimErr (parseProjection (urlGet (rqQuery rq) ''attributes'')
       (urlGet (rqQuery rq) ''excludedAttributes''))"

definition writeResource :: "digest \<Rightarrow> resource \<Rightarrow> projection \<Rightarrow> int \<Rightarrow> response" where
  "writeResource digest r p status =
     (case rbind (stampETag digest r) (\<lambda>(tag, r). rbind (EncodeResource r p) (\<lambda>b. Inr (tag, r, b))) of
        Inl e \<Rightarrow> writeError e
      | Inr (tag, r, b) \<Rightarrow>
          \<lparr>rsStatus = status, rsETag = Some tag,
           rsLocation = (if status = 201 then Some (mLocation (rMeta r)) else None),
           rsBody = ResourceBody b\<rparr>)"

text \<open>A write of the store, and the answer to a request with the next state.\<close>

definition commit :: "('s \<Rightarrow> (go_error, 'a \<times> 's) res) \<Rightarrow> 's \<Rightarrow> (go_error, 'a) res \<times> 's" where
  "commit write s = (case write s of Inl e \<Rightarrow> (Inl e, s) | Inr (a, s') \<Rightarrow> (Inr a, s'))"

definition respond :: "(go_error, 'a) res \<times> 's \<Rightarrow> ('a \<Rightarrow> response) \<Rightarrow> response \<times> 's" where
  "respond rs write = ((case fst rs of Inl e \<Rightarrow> writeError e | Inr a \<Rightarrow> write a), snd rs)"

subsection \<open>Create, get, replace, delete\<close>

definition prepareCreate ::
    "'s typeHandler \<Rightarrow> env \<Rightarrow> request \<Rightarrow> (go_error, resource \<times> projection) res" where
  "prepareCreate h e rq =
     rbind (requestProjection rq) (\<lambda>proj.
     rbind (readBody h rq) (\<lambda>b.
     rbind (map_err ScimErr (DecodeResource (thRT h) True b)) (\<lambda>r.
     rbind (map_err ScimErr (validateResource r (thRT h) (strictMode (thConfig h)))) (\<lambda>_.
     rbind (assignCreateIdentity h e r) (\<lambda>r. Inr (r, proj))))))"

definition handleCreate ::
    "'s typeHandler \<Rightarrow> digest \<Rightarrow> env \<Rightarrow> request \<Rightarrow> 's \<Rightarrow> response \<times> 's" where
  "handleCreate h digest e rq s =
     (case prepareCreate h e rq of
        Inl err \<Rightarrow> (writeError err, s)
      | Inr (r, proj) \<Rightarrow>
          respond (commit (stCreate (thStore h) e r) s) (\<lambda>created. writeResource digest created proj 201))"

definition handleGet :: "'s typeHandler \<Rightarrow> digest \<Rightarrow> request \<Rightarrow> 's \<Rightarrow> response" where
  "handleGet h digest rq s =
     (case rbind (requestProjection rq) (\<lambda>proj.
           rbind (stGet (thStore h) (rqID rq) s) (\<lambda>r.
           rbind (resourceETag digest r) (\<lambda>tag. Inr (proj, r, tag)))) of
        Inl e \<Rightarrow> writeError e
      | Inr (proj, r, tag) \<Rightarrow>
          if rqIfNoneMatch rq \<noteq> [] \<and> etagMatch (rqIfNoneMatch rq) tag
          then \<lparr>rsStatus = 304, rsETag = Some tag, rsLocation = None, rsBody = NoBody\<rparr>
          else writeResource digest r proj 200)"

text \<open>The resource a PUT writes, from the current one.\<close>

definition mergedPut ::
    "'s typeHandler \<Rightarrow> digest \<Rightarrow> env \<Rightarrow> request \<Rightarrow> resource \<Rightarrow> resource \<Rightarrow> (go_error, resource) res" where
  "mergedPut h digest e rq incoming current =
     rbind (checkIfMatch digest (rqIfMatch rq) current) (\<lambda>_.
     rbind (map_err ScimErr (mergePut (envNow e) incoming current (thRT h))) (\<lambda>incoming.
     rbind (map_err ScimErr (validateResource incoming (thRT h) (strictMode (thConfig h)))) (\<lambda>_.
       Inr incoming)))"

definition replaceLocked ::
    "'s typeHandler \<Rightarrow> digest \<Rightarrow> env \<Rightarrow> (nat \<Rightarrow> 's \<Rightarrow> 's) \<Rightarrow> request \<Rightarrow> resource \<Rightarrow> 's \<Rightarrow>
     (go_error, resource) res \<times> 's" where
  "replaceLocked h digest e others rq incoming s =
     (case rbind (stGet (thStore h) (rqID rq) s) (mergedPut h digest e rq incoming) of
        Inl err \<Rightarrow> (Inl err, s)
      | Inr r \<Rightarrow> commit (stReplace (thStore h) (rqID rq) r) (others 0 s))"

definition prepareReplace ::
    "'s typeHandler \<Rightarrow> request \<Rightarrow> (go_error, resource \<times> projection) res" where
  "prepareReplace h rq =
     rbind (requestProjection rq) (\<lambda>proj.
     rbind (readBody h rq) (\<lambda>b.
     rbind (map_err ScimErr (DecodeResource (thRT h) True b)) (\<lambda>incoming. Inr (incoming, proj))))"

definition handleReplace ::
    "'s typeHandler \<Rightarrow> digest \<Rightarrow> env \<Rightarrow> (nat \<Rightarrow> 's \<Rightarrow> 's) \<Rightarrow> request \<Rightarrow> 's \<Rightarrow> response \<times> 's" where
  "handleReplace h digest e others rq s =
     (case prepareReplace h rq of
        Inl err \<Rightarrow> (writeError err, s)
      | Inr (incoming, proj) \<Rightarrow>
          respond (replaceLocked h digest e others rq incoming s) (\<lambda>r. writeResource digest r proj 200))"

definition handleDelete ::
    "'s typeHandler \<Rightarrow> digest \<Rightarrow> (nat \<Rightarrow> 's \<Rightarrow> 's) \<Rightarrow> request \<Rightarrow> 's \<Rightarrow> response \<times> 's" where
  "handleDelete h digest others rq s =
     (case (if rqIfMatch rq = [] then Inr s
            else rbind (stGet (thStore h) (rqID rq) s) (\<lambda>current.
                 rbind (checkIfMatch digest (rqIfMatch rq) current) (\<lambda>_. Inr (others 0 s)))) of
        Inl e \<Rightarrow> (writeError e, s)
      | Inr s1 \<Rightarrow>
          (case stDelete (thStore h) (rqID rq) s1 of
             Inl e \<Rightarrow> (writeError e, s1)
           | Inr s2 \<Rightarrow> (\<lparr>rsStatus = 204, rsETag = None, rsLocation = None, rsBody = NoBody\<rparr>, s2)))"

subsection \<open>Patch\<close>

definition patchRetries :: nat where "patchRetries = 3"

definition preflightPatch :: "'s typeHandler \<Rightarrow> resource \<Rightarrow> patch_op list \<Rightarrow> (go_error, unit) res" where
  "preflightPatch h current ops =
     rbind (map_err ScimErr (Apply current ops (cfgProfile (thConfig h)))) (\<lambda>(r, changed).
       if \<not> changed then Inr () else map_err ScimErr (validateResource r (thRT h) True))"

definition patchNative ::
    "'s typeHandler \<Rightarrow> (env \<Rightarrow> string \<Rightarrow> patch_op list \<Rightarrow> 's \<Rightarrow> (go_error, resource \<times> 's) res) \<Rightarrow>
     digest \<Rightarrow> env \<Rightarrow> (nat \<Rightarrow> 's \<Rightarrow> 's) \<Rightarrow> request \<Rightarrow> patch_op list \<Rightarrow> 's \<Rightarrow>
     (go_error, resource) res \<times> 's" where
  "patchNative h patcher digest e others rq ops s =
     (if rqIfMatch rq = [] \<and> \<not> strictMode (thConfig h) then commit (patcher e (rqID rq) ops) s
      else (case rbind (stGet (thStore h) (rqID rq) s) (\<lambda>current.
                 rbind (checkIfMatch digest (rqIfMatch rq) current) (\<lambda>_.
                   if strictMode (thConfig h) then preflightPatch h current ops else Inr ())) of
              Inl err \<Rightarrow> (Inl err, s)
            | Inr _ \<Rightarrow> commit (patcher e (rqID rq) ops) (others 0 s)))"

text \<open>One attempt of the compare-and-swap loop: what is written and whether there is a change.
  \<open>now n\<close> is the clock at attempt \<open>n\<close>.\<close>

definition patchOnce ::
    "'s typeHandler \<Rightarrow> digest \<Rightarrow> request \<Rightarrow> patch_op list \<Rightarrow> bool \<Rightarrow> resource \<Rightarrow>
     (go_error, resource \<times> bool) res" where
  "patchOnce h digest rq ops first current =
     rbind (if first then checkIfMatch digest (rqIfMatch rq) current else Inr ()) (\<lambda>_.
     rbind (map_err ScimErr (Apply current ops (cfgProfile (thConfig h)))) (\<lambda>(r, changed).
       if \<not> changed then Inr (current, False)
       else rbind (map_err ScimErr (validateResource r (thRT h) (strictMode (thConfig h)))) (\<lambda>_.
         Inr (r, True))))"

definition staleError :: "go_error \<Rightarrow> bool" where
  "staleError e = (case e of ScimErr s \<Rightarrow> errStatus s = 412 | OtherErr \<Rightarrow> False)"

function patchLoop ::
    "'s typeHandler \<Rightarrow> digest \<Rightarrow> (nat \<Rightarrow> gotime) \<Rightarrow> (nat \<Rightarrow> 's \<Rightarrow> 's) \<Rightarrow> request \<Rightarrow> patch_op list \<Rightarrow>
     nat \<Rightarrow> 's \<Rightarrow> (go_error, resource) res \<times> 's" where
  "patchLoop h digest now others rq ops attempt s =
     (case rbind (stGet (thStore h) (rqID rq) s) (patchOnce h digest rq ops (attempt = 0)) of
        Inl e \<Rightarrow> (Inl e, s)
      | Inr (r, changed) \<Rightarrow>
          if \<not> changed then (Inr r, s)
          else
            let s1 = others attempt s in
            (case stReplace (thStore h) (rqID rq)
                    (SetMeta ((rMeta r)\<lparr>mLastModified := now attempt\<rparr>) r) s1 of
               Inr (replaced, s2) \<Rightarrow> (Inr replaced, s2)
             | Inl e \<Rightarrow>
                 if \<not> staleError e \<or> patchRetries \<le> attempt + 1 then (Inl e, s1)
                 else patchLoop h digest now others rq ops (attempt + 1) s1))"
  by pat_completeness auto
termination
  by (relation "measure (\<lambda>(_, _, _, _, _, _, attempt, _). patchRetries - attempt)") auto

declare patchLoop.simps [simp del]

definition patchFallback ::
    "'s typeHandler \<Rightarrow> digest \<Rightarrow> (nat \<Rightarrow> gotime) \<Rightarrow> (nat \<Rightarrow> 's \<Rightarrow> 's) \<Rightarrow> request \<Rightarrow> patch_op list \<Rightarrow> 's \<Rightarrow>
     (go_error, resource) res \<times> 's" where
  "patchFallback h digest now others rq ops s = patchLoop h digest now others rq ops 0 s"

definition preparePatch ::
    "'s typeHandler \<Rightarrow> request \<Rightarrow> (go_error, patch_op list \<times> projection) res" where
  "preparePatch h rq =
     rbind (requestProjection rq) (\<lambda>proj.
     rbind (readBody h rq) (\<lambda>b.
     rbind (map_err ScimErr (Decode b (thRT h) (cfgProfile (thConfig h)))) (\<lambda>ops. Inr (ops, proj))))"

definition handlePatch ::
    "'s typeHandler \<Rightarrow> digest \<Rightarrow> env \<Rightarrow> (nat \<Rightarrow> 's \<Rightarrow> 's) \<Rightarrow> request \<Rightarrow> 's \<Rightarrow> response \<times> 's" where
  "handlePatch h digest e others rq s =
     (case preparePatch h rq of
        Inl err \<Rightarrow> (writeError err, s)
      | Inr (ops, proj) \<Rightarrow>
          respond
            (case stPatcher (thStore h) of
               Some patcher \<Rightarrow> patchNative h patcher digest e others rq ops s
             | None \<Rightarrow> patchFallback h digest (\<lambda>_. envNow e) others rq ops s)
            (\<lambda>r. writeResource digest r proj 200))"

subsection \<open>Lists\<close>

definition encodeListed :: "digest \<Rightarrow> projection \<Rightarrow> resource \<Rightarrow> (go_error, gval) res" where
  "encodeListed digest p r =
     rbind (stampETag digest r) (\<lambda>(_, r). rbind (EncodeResource r p) (\<lambda>fs. Inr (VMap fs)))"

definition respondList :: "'s typeHandler \<Rightarrow> digest \<Rightarrow> listRequest \<Rightarrow> 's \<Rightarrow> response" where
  "respondList h digest lr s =
     (case rbind (runQuery h (lrQuery lr) s) (\<lambda>p.
           rbind (rfold (\<lambda>r out. rbind (encodeListed digest (lrProjection lr) r) (\<lambda>v. Inr (out @ [v])))
                    (pgResources p) []) (\<lambda>encoded. Inr (p, encoded))) of
        Inl e \<Rightarrow> writeError e
      | Inr (p, encoded) \<Rightarrow>
          \<lparr>rsStatus = 200, rsETag = None, rsLocation = None,
           rsBody = ListBody \<lparr>lsTotalResults = pgTotalResults p, lsStartIndex = qStartIndex (lrQuery lr),
             lsItemsPerPage = int (length encoded), lsResources = encoded\<rparr>\<rparr>)"

definition handleList :: "'s typeHandler \<Rightarrow> digest \<Rightarrow> request \<Rightarrow> 's \<Rightarrow> response" where
  "handleList h digest rq s =
     (case parseListParams (rqQuery rq) (thRT h) (thConfig h) of
        Inl e \<Rightarrow> writeError (ScimErr e)
      | Inr lr \<Rightarrow> respondList h digest lr s)"

definition handleSearch :: "'s typeHandler \<Rightarrow> digest \<Rightarrow> request \<Rightarrow> 's \<Rightarrow> response" where
  "handleSearch h digest rq s =
     (case rbind (readBody h rq) (\<lambda>b. map_err ScimErr (parseSearchBody b (thRT h) (thConfig h))) of
        Inl e \<Rightarrow> writeError e
      | Inr lr \<Rightarrow> respondList h digest lr s)"

end
