(* ===== verification/Scim_SchemaDoc.thy ===== *)
theory Scim_SchemaDoc
  imports Scim_List
begin

text \<open>
  The wire form of a schema (RFC 7643 section 7) in \<open>scim/schema.go\<close>: \<open>toJSON\<close> and \<open>MarshalJSON\<close>, and
  the decoding half of \<open>ParseSchema\<close>, from the tree of a document to the record \<open>ParseSchema\<close> of
  \<open>Scim_Schema\<close> fills and validates. Members are matched in any letter case, unknown ones are
  skipped, null leaves a member as it is, and a member of another JSON type is an error.
\<close>

subsection \<open>Writing\<close>

definition typeText :: "attr_type \<Rightarrow> string" where
  "typeText t =
     (case t of
        TypeString \<Rightarrow> ''string'' | TypeBoolean \<Rightarrow> ''boolean'' | TypeDecimal \<Rightarrow> ''decimal''
      | TypeInteger \<Rightarrow> ''integer'' | TypeDateTime \<Rightarrow> ''dateTime'' | TypeBinary \<Rightarrow> ''binary''
      | TypeReference \<Rightarrow> ''reference'' | TypeComplex \<Rightarrow> ''complex'' | TypeOther s \<Rightarrow> s)"

definition mutabilityText :: "mutability \<Rightarrow> string" where
  "mutabilityText m =
     (case m of
        MutabilityReadOnly \<Rightarrow> ''readOnly'' | MutabilityReadWrite \<Rightarrow> ''readWrite''
      | MutabilityImmutable \<Rightarrow> ''immutable'' | MutabilityWriteOnly \<Rightarrow> ''writeOnly''
      | MutabilityOther s \<Rightarrow> s)"

definition returnedText :: "returned \<Rightarrow> string" where
  "returnedText r =
     (case r of
        ReturnedAlways \<Rightarrow> ''always'' | ReturnedNever \<Rightarrow> ''never'' | ReturnedDefault \<Rightarrow> ''default''
      | ReturnedRequest \<Rightarrow> ''request'' | ReturnedOther s \<Rightarrow> s)"

definition uniquenessText :: "uniqueness \<Rightarrow> string" where
  "uniquenessText u =
     (case u of
        UniquenessNone \<Rightarrow> ''none'' | UniquenessServer \<Rightarrow> ''server'' | UniquenessGlobal \<Rightarrow> ''global''
      | UniquenessOther s \<Rightarrow> s)"

definition omitempty :: "string \<Rightarrow> string \<Rightarrow> (string \<times> gval) list" where
  "omitempty k s = (if s = [] then [] else [(k, VString s)])"

definition omitemptyList :: "string \<Rightarrow> gval list \<Rightarrow> (string \<times> gval) list" where
  "omitemptyList k vs = (if vs = [] then [] else [(k, VList vs)])"

fun attrToJSON :: "attribute \<Rightarrow> gval" where
  "attrToJSON (Attribute n t subs mv desc req canon ce m r u refs) =
     VMap ([(''name'', VString n), (''type'', VString (typeText t))] @
       omitemptyList ''subAttributes'' (map attrToJSON subs) @ [(''multiValued'', VBool mv)] @
       omitempty ''description'' desc @ [(''required'', VBool req)] @
       omitemptyList ''canonicalValues'' (map VString canon) @
       [(''caseExact'', VBool ce), (''mutability'', VString (mutabilityText m)),
        (''returned'', VString (returnedText r)), (''uniqueness'', VString (uniquenessText u))] @
       omitemptyList ''referenceTypes'' (map VString refs))"

definition Schema_MarshalJSON :: "schema \<Rightarrow> gval" where
  "Schema_MarshalJSON s =
     VMap ([(''id'', VString (schemaID s))] @ omitempty ''name'' (schemaName s) @
       omitempty ''description'' (schemaDescription s) @
       [(''attributes'', VList (map attrToJSON (schemaAttributes s)))])"

subsection \<open>Reading\<close>

definition typeOf :: "string \<Rightarrow> attr_type" where
  "typeOf s =
     (case find (\<lambda>t. typeText t = s)
             [TypeString, TypeBoolean, TypeDecimal, TypeInteger, TypeDateTime, TypeBinary,
              TypeReference, TypeComplex] of
        Some t \<Rightarrow> t | None \<Rightarrow> TypeOther s)"

definition mutabilityFrom :: "string \<Rightarrow> mutability" where
  "mutabilityFrom s =
     (case find (\<lambda>m. mutabilityText m = s)
             [MutabilityReadOnly, MutabilityReadWrite, MutabilityImmutable, MutabilityWriteOnly] of
        Some m \<Rightarrow> m | None \<Rightarrow> MutabilityOther s)"

definition returnedFrom :: "string \<Rightarrow> returned" where
  "returnedFrom s =
     (case find (\<lambda>r. returnedText r = s)
             [ReturnedAlways, ReturnedNever, ReturnedDefault, ReturnedRequest] of
        Some r \<Rightarrow> r | None \<Rightarrow> ReturnedOther s)"

definition uniquenessFrom :: "string \<Rightarrow> uniqueness" where
  "uniquenessFrom s =
     (case find (\<lambda>u. uniquenessText u = s) [UniquenessNone, UniquenessServer, UniquenessGlobal] of
        Some u \<Rightarrow> u | None \<Rightarrow> UniquenessOther s)"

definition jsonBool :: "gval \<Rightarrow> bool \<Rightarrow> (scim_error, bool) res" where
  "jsonBool v old = (case v of VNil \<Rightarrow> Inr old | VBool b \<Rightarrow> Inr b | _ \<Rightarrow> Inl ErrInvalidSyntax)"

text \<open>The zero attribute.\<close>

definition zeroAttribute :: attribute where
  "zeroAttribute =
     Attribute [] (TypeOther []) [] False [] False [] False (MutabilityOther []) (ReturnedOther [])
       (UniquenessOther []) []"

text \<open>A string member of a struct: what is there stays on null.\<close>

definition textMember :: "gval \<Rightarrow> string \<Rightarrow> (string \<Rightarrow> 'a) \<Rightarrow> (scim_error, 'a) res" where
  "textMember v old put = rbind (jsonString v old) (\<lambda>s. Inr (put s))"

text \<open>A member other than \<open>subAttributes\<close>, by its folded name.\<close>

fun attrMember :: "string \<Rightarrow> gval \<Rightarrow> attribute \<Rightarrow> (scim_error, attribute) res" where
  "attrMember k v (Attribute n t subs mv desc req canon ce m r u refs) =
     (if k = ''name'' then textMember v n (\<lambda>n. Attribute n t subs mv desc req canon ce m r u refs)
      else if k = ''type'' then
        textMember v (typeText t) (\<lambda>s. Attribute n (typeOf s) subs mv desc req canon ce m r u refs)
      else if k = ''multivalued'' then
        rbind (jsonBool v mv) (\<lambda>b. Inr (Attribute n t subs b desc req canon ce m r u refs))
      else if k = ''description'' then
        textMember v desc (\<lambda>s. Attribute n t subs mv s req canon ce m r u refs)
      else if k = ''required'' then
        rbind (jsonBool v req) (\<lambda>b. Inr (Attribute n t subs mv desc b canon ce m r u refs))
      else if k = ''canonicalvalues'' then
        rbind (jsonStrings v) (\<lambda>ss. Inr (Attribute n t subs mv desc req ss ce m r u refs))
      else if k = ''caseexact'' then
        rbind (jsonBool v ce) (\<lambda>b. Inr (Attribute n t subs mv desc req canon b m r u refs))
      else if k = ''mutability'' then
        textMember v (mutabilityText m) (\<lambda>s. Attribute n t subs mv desc req canon ce (mutabilityFrom s) r u refs)
      else if k = ''returned'' then
        textMember v (returnedText r) (\<lambda>s. Attribute n t subs mv desc req canon ce m (returnedFrom s) u refs)
      else if k = ''uniqueness'' then
        textMember v (uniquenessText u) (\<lambda>s. Attribute n t subs mv desc req canon ce m r (uniquenessFrom s) refs)
      else if k = ''referencetypes'' then
        rbind (jsonStrings v) (\<lambda>ss. Inr (Attribute n t subs mv desc req canon ce m r u ss))
      else Inr (Attribute n t subs mv desc req canon ce m r u refs))"

fun withSubs :: "attribute list \<Rightarrow> attribute \<Rightarrow> attribute" where
  "withSubs subs (Attribute n t _ mv desc req canon ce m r u refs) =
     Attribute n t subs mv desc req canon ce m r u refs"

text \<open>An attribute, a list of attributes and the members of an attribute.\<close>

fun toAttribute :: "gval \<Rightarrow> (scim_error, attribute) res"
  and toAttributes :: "gval list \<Rightarrow> (scim_error, attribute list) res"
  and toMembers :: "(string \<times> gval) list \<Rightarrow> attribute \<Rightarrow> (scim_error, attribute) res" where
  "toAttribute (VMap raw) = toMembers raw zeroAttribute"
| "toAttribute VNil = Inr zeroAttribute"
| "toAttribute _ = Inl ErrInvalidSyntax"
| "toAttributes [] = Inr []"
| "toAttributes (v # vs) = rbind (toAttribute v) (\<lambda>a. rbind (toAttributes vs) (\<lambda>as. Inr (a # as)))"
| "toMembers [] a = Inr a"
| "toMembers ((k, v) # raw) a =
     rbind
       (if foldName k = ''subattributes'' then
          (case v of
             VNil \<Rightarrow> Inr (withSubs [] a)
           | VList vs \<Rightarrow> rbind (toAttributes vs) (\<lambda>subs. Inr (withSubs subs a))
           | _ \<Rightarrow> Inl ErrInvalidSyntax)
        else attrMember (foldName k) v a)
       (toMembers raw)"

definition schemaMember :: "string \<times> gval \<Rightarrow> schema \<Rightarrow> (scim_error, schema) res" where
  "schemaMember kv s =
     (let k = foldName (fst kv); v = snd kv in
      if k = ''id'' then textMember v (schemaID s) (\<lambda>x. s\<lparr>schemaID := x\<rparr>)
      else if k = ''name'' then textMember v (schemaName s) (\<lambda>x. s\<lparr>schemaName := x\<rparr>)
      else if k = ''description'' then textMember v (schemaDescription s) (\<lambda>x. s\<lparr>schemaDescription := x\<rparr>)
      else if k = ''attributes'' then
        (case v of
           VNil \<Rightarrow> Inr (s\<lparr>schemaAttributes := []\<rparr>)
         | VList vs \<Rightarrow> rbind (toAttributes vs) (\<lambda>as. Inr (s\<lparr>schemaAttributes := as\<rparr>))
         | _ \<Rightarrow> Inl ErrInvalidSyntax)
      else Inr s)"

definition zeroSchema :: schema where
  "zeroSchema = \<lparr>schemaID = [], schemaName = [], schemaDescription = [], schemaAttributes = []\<rparr>"

text \<open>\<open>ParseSchema\<close> of a document; its errors are not told apart.\<close>

definition ParseSchemaDoc :: "gval \<Rightarrow> (go_error, schema) res" where
  "ParseSchemaDoc data =
     rbind (map_err (\<lambda>_. OtherErr)
             (case data of
                VMap raw \<Rightarrow> rfold schemaMember raw zeroSchema
              | VNil \<Rightarrow> Inr zeroSchema
              | _ \<Rightarrow> Inl ErrInvalidSyntax))
       (\<lambda>j. map_err (\<lambda>_. OtherErr) (ParseSchema j))"

subsection \<open>What is written is read back\<close>

lemma typeOf_text: "typeValid t \<Longrightarrow> typeOf (typeText t) = t"
  by (cases t) (simp_all add: typeOf_def typeText_def typeValid_def)

lemma mutabilityFrom_text: "mutabilityValid m \<Longrightarrow> mutabilityFrom (mutabilityText m) = m"
  by (cases m) (simp_all add: mutabilityFrom_def mutabilityText_def mutabilityValid_def)

lemma returnedFrom_text: "returnedValid r \<Longrightarrow> returnedFrom (returnedText r) = r"
  by (cases r) (simp_all add: returnedFrom_def returnedText_def returnedValid_def)

lemma uniquenessFrom_text: "uniquenessValid u \<Longrightarrow> uniquenessFrom (uniquenessText u) = u"
  by (cases u) (simp_all add: uniquenessFrom_def uniquenessText_def uniquenessValid_def)

lemmas texts_read = typeOf_text mutabilityFrom_text returnedFrom_text uniquenessFrom_text

lemma toMembers_append: "toMembers (xs @ ys) a = rbind (toMembers xs a) (toMembers ys)"
  by (induction xs arbitrary: a) (auto simp: rbind_def split: sum.splits)

lemma toAttributes_map:
  "(\<And>a. a \<in> set as \<Longrightarrow> toAttribute (f a) = Inr a) \<Longrightarrow> toAttributes (map f as) = Inr as"
  by (induction as) auto

lemma strings_loop:
  "rfold (\<lambda>x out. rbind (jsonString x []) (\<lambda>s. Inr (out @ [s]))) (map VString ss) out = Inr (out @ ss)"
  by (induction ss arbitrary: out) (simp_all add: jsonString_def)

lemma jsonStrings_read [simp]: "jsonStrings (VList (map VString ss)) = Inr ss"
  by (simp add: jsonStrings_def strings_loop)

lemma folded_members:
  "foldName ''name'' = ''name''" "foldName ''type'' = ''type''"
  "foldName ''subAttributes'' = ''subattributes''" "foldName ''multiValued'' = ''multivalued''"
  "foldName ''description'' = ''description''" "foldName ''required'' = ''required''"
  "foldName ''canonicalValues'' = ''canonicalvalues''" "foldName ''caseExact'' = ''caseexact''"
  "foldName ''mutability'' = ''mutability''" "foldName ''returned'' = ''returned''"
  "foldName ''uniqueness'' = ''uniqueness''" "foldName ''referenceTypes'' = ''referencetypes''"
  "foldName ''id'' = ''id''" "foldName ''attributes'' = ''attributes''"
  "foldName ''schemas'' = ''schemas''" "foldName ''meta'' = ''meta''"
  by code_simp+

lemmas member_simps = folded_members textMember_def jsonString_def jsonBool_def

text \<open>An omitted member reads as the zero value it had.\<close>

lemma attribute_read: "attrOk a \<Longrightarrow> toAttribute (attrToJSON a) = Inr a"
proof (induction a rule: attrToJSON.induct)
  case (1 n t subs mv desc req canon ce m r u refs)
  then have valid: "typeValid t" "mutabilityValid m" "returnedValid r" "uniquenessValid u"
    and "list_all attrOk subs" by auto
  with "1.IH" have subs: "toAttributes (map attrToJSON subs) = Inr subs"
    by (intro toAttributes_map) (auto simp: list_all_iff)
  show ?case
    using texts_read valid subs
    by (cases "subs = []"; cases "desc = []"; cases "canon = []"; cases "refs = []")
      (simp_all add: zeroAttribute_def omitempty_def omitemptyList_def member_simps)
qed

lemma attrOk_defaults: "attrOk a \<Longrightarrow> attrWithDefaults a = a"
proof (induction a rule: attrWithDefaults.induct)
  case (1 n t subs mv desc req canon ce m r u refs)
  then have "map attrWithDefaults subs = subs"
    by (intro map_idI) (auto simp: list_all_iff)
  with 1 show ?case
    by (auto simp: default_defs valid_defs)
qed

lemma schema_defaults: "schemaValidate s = Inr () \<Longrightarrow> schemaWithDefaults s = s"
proof -
  assume "schemaValidate s = Inr ()"
  then have "map attrWithDefaults (schemaAttributes s) = schemaAttributes s"
    by (intro map_idI) (auto simp: schemaValidate_ok list_all_iff attrOk_defaults)
  then show ?thesis by (simp add: schemaWithDefaults_def)
qed

lemma ParseSchema_valid: "schemaValidate s = Inr () \<Longrightarrow> ParseSchema s = Inr s"
  by (simp add: ParseSchema_def schema_defaults)

lemma attributes_read: "schemaValidate s = Inr () \<Longrightarrow> toAttributes (map attrToJSON (schemaAttributes s)) = Inr (schemaAttributes s)"
  by (intro toAttributes_map) (auto simp: schemaValidate_ok list_all_iff attribute_read)

lemma schema_read:
  assumes "schemaValidate s = Inr ()"
  shows "ParseSchemaDoc (Schema_MarshalJSON s) = Inr s"
proof (cases s)
  case (fields i n d as)
  with attributes_read [OF assms] ParseSchema_valid [OF assms] show ?thesis
    by (cases "n = []"; cases "d = []")
      (simp_all add: ParseSchemaDoc_def Schema_MarshalJSON_def zeroSchema_def omitempty_def schemaMember_def
        Let_def member_simps)
qed

end
