(* ===== verification/Server_Discovery.thy ===== *)
theory Server_Discovery
  imports Server_Handlers Scim_SchemaDoc
begin

text \<open>
  \<open>server/discovery.go\<close>: the documents of RFC 7644 section 4, generated from the validated
  configuration, and the handlers that serve them. A document is the tree of its JSON, the
  members in the order of the struct, an empty \<open>omitempty\<close> member left out. The authentication
  scheme is that of \<open>BearerToken\<close>, the one scheme the package defines.
\<close>

subsection \<open>Documents\<close>

definition SchemaServiceProviderConfig :: string where
  "SchemaServiceProviderConfig = ''urn:ietf:params:scim:schemas:core:2.0:ServiceProviderConfig''"
definition SchemaResourceType :: string where
  "SchemaResourceType = ''urn:ietf:params:scim:schemas:core:2.0:ResourceType''"
definition SchemaSchema :: string where
  "SchemaSchema = ''urn:ietf:params:scim:schemas:core:2.0:Schema''"

definition supportedDoc :: "bool \<Rightarrow> gval" where
  "supportedDoc b = VMap [(''supported'', VBool b)]"

definition metaDoc :: "string \<Rightarrow> string \<Rightarrow> gval" where
  "metaDoc t loc = VMap [(''resourceType'', VString t), (''location'', VString loc)]"

definition bearerScheme :: gval where
  "bearerScheme =
     VMap [(''type'', VString ''oauthbearertoken''), (''name'', VString ''OAuth Bearer Token''),
       (''description'', VString ''Authentication scheme using the OAuth Bearer Token standard''),
       (''specUri'', VString ''https://www.rfc-editor.org/info/rfc6750''), (''primary'', VBool True)]"

definition spcDoc :: "'s config \<Rightarrow> gval" where
  "spcDoc c =
     VMap [(''schemas'', VList [VString SchemaServiceProviderConfig]), (''patch'', supportedDoc True),
       (''bulk'', VMap [(''supported'', VBool False), (''maxOperations'', jsonNumber 0),
          (''maxPayloadSize'', jsonNumber 0)]),
       (''filter'', VMap [(''supported'', VBool True),
          (''maxResults'', jsonNumber (cfgMaxFilterResults c))]),
       (''changePassword'', supportedDoc False), (''sort'', supportedDoc True),
       (''etag'', supportedDoc True),
       (''authenticationSchemes'', VList (case cfgAuth c of None \<Rightarrow> [] | Some _ \<Rightarrow> [bearerScheme])),
       (''meta'', metaDoc ''ServiceProviderConfig'' (cfgBaseURL c @ ''/ServiceProviderConfig''))]"

definition extensionDoc :: "schema_extension \<Rightarrow> gval" where
  "extensionDoc x = VMap [(''schema'', VString (schemaID (extSchema x))), (''required'', VBool (extRequired x))]"

definition resourceTypeDoc :: "'s config \<Rightarrow> resource_type \<Rightarrow> gval" where
  "resourceTypeDoc c rt =
     VMap ([(''schemas'', VList [VString SchemaResourceType]), (''id'', VString (rtName rt)),
        (''name'', VString (rtName rt))] @ omitempty ''description'' (rtDescription rt) @
       [(''endpoint'', VString (rtEndpoint rt)), (''schema'', VString (schemaID (rtSchema rt)))] @
       omitemptyList ''schemaExtensions'' (map extensionDoc (rtExtensions rt)) @
       [(''meta'', metaDoc ''ResourceType'' (cfgBaseURL c @ ''/ResourceTypes/'' @ rtName rt))])"

fun attributeDoc :: "attribute \<Rightarrow> gval" where
  "attributeDoc (Attribute n t subs mv desc req canon ce m r u refs) =
     VMap ([(''name'', VString n), (''type'', VString (typeText t))] @
       omitemptyList ''subAttributes'' (map attributeDoc subs) @ [(''multiValued'', VBool mv)] @
       omitempty ''description'' desc @ [(''required'', VBool req)] @
       omitemptyList ''canonicalValues'' (map VString canon) @
       [(''caseExact'', VBool ce), (''mutability'', VString (mutabilityText m)),
        (''returned'', VString (returnedText r)), (''uniqueness'', VString (uniquenessText u))] @
       omitemptyList ''referenceTypes'' (map VString refs))"

text \<open>\<open>attributeDocs\<close> of no attribute is a nil slice: null where the member is not omitted.\<close>

definition attributeDocs :: "attribute list \<Rightarrow> gval" where
  "attributeDocs attrs = (if attrs = [] then VNil else VList (map attributeDoc attrs))"

definition schemaDoc :: "'s config \<Rightarrow> schema \<Rightarrow> gval" where
  "schemaDoc c s =
     VMap ([(''schemas'', VList [VString SchemaSchema]), (''id'', VString (schemaID s))] @
       omitempty ''name'' (schemaName s) @ omitempty ''description'' (schemaDescription s) @
       [(''attributes'', attributeDocs (schemaAttributes s)),
        (''meta'', metaDoc ''Schema'' (cfgBaseURL c @ ''/Schemas/'' @ schemaID s))])"

subsection \<open>The set of documents\<close>

record discovery =
  dcSPC :: gval
  dcResourceTypes :: "gval list"
  dcByName :: "gval amap"
  dcSchemas :: "gval list"
  dcByURN :: "gval amap"

definition buildResourceType :: "'s config \<Rightarrow> resource_type \<Rightarrow> discovery \<Rightarrow> discovery" where
  "buildResourceType c rt d =
     d\<lparr>dcResourceTypes := dcResourceTypes d @ [resourceTypeDoc c rt],
       dcByName := aput (foldName (rtName rt)) (resourceTypeDoc c rt) (dcByName d)\<rparr>"

definition addSchema :: "'s config \<Rightarrow> schema \<Rightarrow> discovery \<Rightarrow> discovery" where
  "addSchema c s d =
     (let key = foldName (schemaID s) in
      if aget (dcByURN d) key \<noteq> None then d
      else d\<lparr>dcSchemas := dcSchemas d @ [schemaDoc c s], dcByURN := aput key (schemaDoc c s) (dcByURN d)\<rparr>)"

definition usedSchemas :: "'s config \<Rightarrow> schema list" where
  "usedSchemas c =
     concat (map (\<lambda>reg. rtSchema (regType reg) # map extSchema (rtExtensions (regType reg)))
       (cfgResourceTypes c))"

definition buildSchemas :: "'s config \<Rightarrow> discovery \<Rightarrow> discovery" where
  "buildSchemas c d = fold (addSchema c) (usedSchemas c) d"

definition newDiscovery :: "'s config \<Rightarrow> discovery" where
  "newDiscovery c =
     buildSchemas c
       (fold (\<lambda>reg. buildResourceType c (regType reg)) (cfgResourceTypes c)
         \<lparr>dcSPC = spcDoc c, dcResourceTypes = [], dcByName = [], dcSchemas = [], dcByURN = []\<rparr>)"

subsection \<open>Handlers\<close>

definition jsonResponse :: "gval \<Rightarrow> response" where
  "jsonResponse doc =
     \<lparr>rsStatus = 200, rsETag = None, rsLocation = None,
      rsBody = ResourceBody (case doc of VMap m \<Rightarrow> m | _ \<Rightarrow> [])\<rparr>"

definition rejectFilter :: "request \<Rightarrow> response \<Rightarrow> response" where
  "rejectFilter rq served =
     (if urlGet (rqQuery rq) ''filter'' = [] then served
      else writeError (ScimErr (ScimError 403 [])))"

definition handleSPC :: "discovery \<Rightarrow> request \<Rightarrow> response" where
  "handleSPC d rq = rejectFilter rq (jsonResponse (dcSPC d))"

definition serveList :: "gval list \<Rightarrow> request \<Rightarrow> response" where
  "serveList docs rq =
     rejectFilter rq
       \<lparr>rsStatus = 200, rsETag = None, rsLocation = None,
        rsBody = ListBody \<lparr>lsTotalResults = int (length docs), lsStartIndex = 1,
          lsItemsPerPage = int (length docs), lsResources = docs\<rparr>\<rparr>"

definition serveDoc :: "gval amap \<Rightarrow> string \<Rightarrow> request \<Rightarrow> response" where
  "serveDoc index key rq =
     rejectFilter rq
       (case aget index (foldName key) of None \<Rightarrow> writeError notFound | Some doc \<Rightarrow> jsonResponse doc)"

definition handleResourceTypes :: "discovery \<Rightarrow> request \<Rightarrow> response" where
  "handleResourceTypes d rq = serveList (dcResourceTypes d) rq"

definition handleResourceType :: "discovery \<Rightarrow> string \<Rightarrow> request \<Rightarrow> response" where
  "handleResourceType d name rq = serveDoc (dcByName d) name rq"

definition handleSchemas :: "discovery \<Rightarrow> request \<Rightarrow> response" where
  "handleSchemas d rq = serveList (dcSchemas d) rq"

definition handleSchema :: "discovery \<Rightarrow> string \<Rightarrow> request \<Rightarrow> response" where
  "handleSchema d i rq = serveDoc (dcByURN d) i rq"

subsection \<open>What is advertised\<close>

lemma addSchema_lookup:
  "aget (dcByURN (fold (addSchema c) ss d)) k =
     (case aget (dcByURN d) k of
        Some doc \<Rightarrow> Some doc
      | None \<Rightarrow> map_option (schemaDoc c) (find (\<lambda>s. foldName (schemaID s) = k) ss))"
proof (induction ss arbitrary: d)
  case (Cons s ss)
  have "aget (dcByURN (addSchema c s d)) k =
      (case aget (dcByURN d) k of Some doc \<Rightarrow> Some doc
       | None \<Rightarrow> if k = foldName (schemaID s) then Some (schemaDoc c s) else None)"
    by (auto simp: addSchema_def Let_def split: option.splits)
  with Cons.IH [of "addSchema c s d"] show ?case by (auto split: option.splits)
qed (simp split: option.splits)

lemma buildResourceType_frame:
  "dcByURN (fold (\<lambda>reg. buildResourceType c (regType reg)) regs d) = dcByURN d"
  "dcSchemas (fold (\<lambda>reg. buildResourceType c (regType reg)) regs d) = dcSchemas d"
  by (induction regs arbitrary: d) (simp_all add: buildResourceType_def)

text \<open>Every schema of every registered type is served by its URN, in any letter case.\<close>

lemma schema_served:
  assumes "s \<in> set (usedSchemas c)"
  shows "\<exists>s' \<in> set (usedSchemas c). foldName (schemaID s') = foldName (schemaID s) \<and>
    aget (dcByURN (newDiscovery c)) (foldName (schemaID s)) = Some (schemaDoc c s')"
proof -
  have "find (\<lambda>t. foldName (schemaID t) = foldName (schemaID s)) (usedSchemas c) \<noteq> None"
    using assms by (auto simp: find_None_iff)
  then obtain s' where s': "find (\<lambda>t. foldName (schemaID t) = foldName (schemaID s)) (usedSchemas c) = Some s'"
    by blast
  then have "s' \<in> set (usedSchemas c)" "foldName (schemaID s') = foldName (schemaID s)"
    by (auto simp: find_Some_iff)
  with s' show ?thesis
    by (auto simp: newDiscovery_def buildSchemas_def addSchema_lookup buildResourceType_frame)
qed

lemma addSchema_keys:
  "distinct (map fst (dcByURN d)) \<and> map snd (dcByURN d) = dcSchemas d \<Longrightarrow>
     distinct (map fst (dcByURN (fold (addSchema c) ss d))) \<and>
     map snd (dcByURN (fold (addSchema c) ss d)) = dcSchemas (fold (addSchema c) ss d)"
proof (induction ss arbitrary: d)
  case (Cons s ss)
  have append: "aput k v m = m @ [(k, v)]" if "aget m k = None" for k v and m :: "gval amap"
    using that by (induction m) (auto split: if_splits)
  have absent: "k \<notin> fst ` set m" if "aget m k = None" for k and m :: "gval amap"
    using that by (induction m) (auto split: if_splits)
  have "distinct (map fst (dcByURN (addSchema c s d))) \<and>
      map snd (dcByURN (addSchema c s d)) = dcSchemas (addSchema c s d)"
  proof (cases "aget (dcByURN d) (foldName (schemaID s)) = None")
    case True
    then have "addSchema c s d =
        d\<lparr>dcSchemas := dcSchemas d @ [schemaDoc c s],
          dcByURN := dcByURN d @ [(foldName (schemaID s), schemaDoc c s)]\<rparr>"
      by (simp add: addSchema_def Let_def append [OF True])
    with Cons.prems absent [OF True] show ?thesis by simp
  next
    case False
    then show ?thesis using Cons.prems by (simp add: addSchema_def Let_def)
  qed
  from Cons.IH [OF this] show ?case by simp
qed simp

end
