(* ===== verification/Server_Router.thy ===== *)
theory Server_Router
  imports Server_Discovery "HOL-Library.Word"
begin

unbundle bit_operations_syntax

text \<open>
  \<open>server/router.go\<close>, \<open>middleware.go\<close>, the guard of \<open>auth.go\<close>, the wiring of
  \<open>typehandler.go\<close> and the stripes of \<open>locks.go\<close>: from a configuration to the served
  requests.

  The path of a request is the list of its decoded segments, a trailing slash being the last
  segment \<open>/\<close>, as \<open>http.ServeMux\<close> matches it; the redirects of the mux for unclean paths come
  before the handlers and are not modelled, nor are endpoints with a brace, a blank or a
  percent sign, which a pattern reads in a way of its own. A HEAD request is routed like a GET.
  The state is one store state for each endpoint, and so are its other writers. A panic of a handler is answered with status
  500 (\<open>withRecover\<close>), the answer \<open>OtherErr\<close> has as well; the log is not modelled.
\<close>

subsection \<open>Lock stripes\<close>

definition lockStripes :: nat where "lockStripes = 32"

definition fnv1a :: "string \<Rightarrow> 32 word" where
  "fnv1a s = fold (\<lambda>c h. (h XOR word_of_nat (of_char c)) * 16777619) s 2166136261"

definition lockStripe :: "string \<Rightarrow> string \<Rightarrow> nat" where
  "lockStripe endpoint i = unat (fnv1a (endpoint @ CHR ''/'' # i)) mod lockStripes"

subsection \<open>Routes\<close>

datatype 's route =
    CreateRoute "'s typeHandler"
  | ListRoute "'s typeHandler"
  | SearchRoute "'s typeHandler"
  | GetRoute "'s typeHandler" string
  | ReplaceRoute "'s typeHandler" string
  | PatchRoute "'s typeHandler" string
  | DeleteRoute "'s typeHandler" string
  | SPCRoute
  | ResourceTypesRoute
  | ResourceTypeRoute string
  | SchemasRoute
  | SchemaRoute string
  | UnsupportedRoute
  | NoRoute

definition registerType :: "'s typeHandler \<Rightarrow> string \<Rightarrow> string list \<Rightarrow> 's route option" where
  "registerType h method path =
     (case path of
        [ep] \<Rightarrow>
          if CHR ''/'' # ep \<noteq> rtEndpoint (thRT h) then None
          else if method = ''POST'' then Some (CreateRoute h)
          else if method = ''GET'' then Some (ListRoute h)
          else None
      | [ep, i] \<Rightarrow>
          if CHR ''/'' # ep \<noteq> rtEndpoint (thRT h) \<or> i = ''/'' then None
          else if method = ''POST'' then (if i = ''.search'' then Some (SearchRoute h) else None)
          else if method = ''GET'' then Some (GetRoute h i)
          else if method = ''PUT'' then Some (ReplaceRoute h i)
          else if method = ''PATCH'' then Some (PatchRoute h i)
          else if method = ''DELETE'' then Some (DeleteRoute h i)
          else None
      | _ \<Rightarrow> None)"

definition registerDiscovery :: "string \<Rightarrow> string list \<Rightarrow> 's route option" where
  "registerDiscovery method path =
     (if method \<noteq> ''GET'' then None
      else case path of
        [p] \<Rightarrow>
          if p = ''ServiceProviderConfig'' then Some SPCRoute
          else if p = ''ResourceTypes'' then Some ResourceTypesRoute
          else if p = ''Schemas'' then Some SchemasRoute
          else None
      | [p, key] \<Rightarrow>
          if key = ''/'' then None
          else if p = ''ResourceTypes'' then Some (ResourceTypeRoute key)
          else if p = ''Schemas'' then Some (SchemaRoute key)
          else None
      | _ \<Rightarrow> None)"

text \<open>The endpoints that are not implemented, whatever the method.\<close>

definition registerUnsupported :: "string list \<Rightarrow> 's route option" where
  "registerUnsupported path =
     (case path of
        p # _ \<Rightarrow> if p = ''Bulk'' \<or> p = ''Me'' then Some UnsupportedRoute else None
      | [] \<Rightarrow> None)"

text \<open>The routes of a method; a pattern without a method comes after them.\<close>

fun firstRoute :: "'s typeHandler list \<Rightarrow> string \<Rightarrow> string list \<Rightarrow> 's route option" where
  "firstRoute [] method path = registerDiscovery method path"
| "firstRoute (h # hs) method path =
     (case registerType h method path of Some r \<Rightarrow> Some r | None \<Rightarrow> firstRoute hs method path)"

definition muxRoute :: "'s typeHandler list \<Rightarrow> string \<Rightarrow> string list \<Rightarrow> 's route" where
  "muxRoute hs method path =
     (case firstRoute hs (if method = ''HEAD'' then ''GET'' else method) path of
        Some r \<Rightarrow> r
      | None \<Rightarrow> (case registerUnsupported path of Some r \<Rightarrow> r | None \<Rightarrow> NoRoute))"

subsection \<open>The server\<close>

datatype new_error = ConfigError config_error | PatternPanic

record 's server =
  svConfig :: "'s config"
  svTypes :: "'s typeHandler list"
  svDiscovery :: discovery

definition newTypeHandler :: "'s config \<Rightarrow> 's registration \<Rightarrow> 's store \<Rightarrow> 's typeHandler" where
  "newTypeHandler c reg st = \<lparr>thRT = regType reg, thStore = st, thConfig = c\<rparr>"

text \<open>Registering a pattern twice, or one whose path is not clean, panics.\<close>

definition registrable :: "string \<Rightarrow> bool" where
  "registrable ep \<longleftrightarrow>
     ep \<noteq> ''/'' \<and> ep \<noteq> ''/.'' \<and> ep \<noteq> ''/..'' \<and>
     ep \<noteq> ''/ServiceProviderConfig'' \<and> ep \<noteq> ''/ResourceTypes'' \<and> ep \<noteq> ''/Schemas''"

definition newServer :: "'s config \<Rightarrow> (new_error, 's server) res" where
  "newServer cfg =
     rbind (map_err ConfigError (configValidate cfg)) (\<lambda>c.
       if \<not> list_all (\<lambda>reg. registrable (rtEndpoint (regType reg))) (cfgResourceTypes c) then Inl PatternPanic
       else Inr \<lparr>svConfig = c,
         svTypes = List.map_filter (\<lambda>reg. map_option (newTypeHandler c reg) (regStore reg)) (cfgResourceTypes c),
         svDiscovery = newDiscovery c\<rparr>)"

subsection \<open>Requests\<close>

text \<open>What \<open>mime.ParseMediaType\<close> makes of the \<open>Content-Type\<close> header.\<close>

datatype content_type = NoContentType | BadContentType | ContentType string

record http_request =
  hqMethod :: string
  hqPath :: "string list"
  hqContentType :: content_type
  hqContentLength :: int
  hqAuthorization :: string
  hqRequest :: request

definition statusError :: "int \<Rightarrow> response" where
  "statusError n = writeError (ScimErr (ScimError n []))"

definition serveRoute ::
    "'s server \<Rightarrow> digest \<Rightarrow> env \<Rightarrow> (string \<Rightarrow> nat \<Rightarrow> 's \<Rightarrow> 's) \<Rightarrow> request \<Rightarrow> 's route \<Rightarrow> (string \<Rightarrow> 's) \<Rightarrow>
     response \<times> (string \<Rightarrow> 's)" where
  "serveRoute sv digest e others rq route s =
     (let ep = (\<lambda>h. rtEndpoint (thRT h));
          write = (\<lambda>h (rsp, s'). (rsp, s(ep h := s')));
          read = (\<lambda>rsp. (rsp, s))
      in case route of
        CreateRoute h \<Rightarrow> write h (handleCreate h digest e rq (s (ep h)))
      | ListRoute h \<Rightarrow> read (handleList h digest rq (s (ep h)))
      | SearchRoute h \<Rightarrow> read (handleSearch h digest rq (s (ep h)))
      | GetRoute h i \<Rightarrow> read (handleGet h digest (rq\<lparr>rqID := i\<rparr>) (s (ep h)))
      | ReplaceRoute h i \<Rightarrow> write h (handleReplace h digest e (others (ep h)) (rq\<lparr>rqID := i\<rparr>) (s (ep h)))
      | PatchRoute h i \<Rightarrow> write h (handlePatch h digest e (others (ep h)) (rq\<lparr>rqID := i\<rparr>) (s (ep h)))
      | DeleteRoute h i \<Rightarrow> write h (handleDelete h digest (others (ep h)) (rq\<lparr>rqID := i\<rparr>) (s (ep h)))
      | SPCRoute \<Rightarrow> read (handleSPC (svDiscovery sv) rq)
      | ResourceTypesRoute \<Rightarrow> read (handleResourceTypes (svDiscovery sv) rq)
      | ResourceTypeRoute k \<Rightarrow> read (handleResourceType (svDiscovery sv) k rq)
      | SchemasRoute \<Rightarrow> read (handleSchemas (svDiscovery sv) rq)
      | SchemaRoute k \<Rightarrow> read (handleSchema (svDiscovery sv) k rq)
      | UnsupportedRoute \<Rightarrow> read (statusError 501)
      | NoRoute \<Rightarrow> read (writeError notFound))"

definition mediaType :: string where "mediaType = ''application/scim+json''"

definition mediaTypeOk :: "http_request \<Rightarrow> bool" where
  "mediaTypeOk hq \<longleftrightarrow>
     \<not> (hqContentLength hq \<noteq> 0 \<and> hqContentType hq \<noteq> NoContentType \<and>
        (case hqContentType hq of
           ContentType parsed \<Rightarrow> parsed \<noteq> mediaType \<and> parsed \<noteq> ''application/json''
         | _ \<Rightarrow> True))"

definition serveCore ::
    "'s server \<Rightarrow> digest \<Rightarrow> env \<Rightarrow> (string \<Rightarrow> nat \<Rightarrow> 's \<Rightarrow> 's) \<Rightarrow> http_request \<Rightarrow> (string \<Rightarrow> 's) \<Rightarrow>
     response \<times> (string \<Rightarrow> 's)" where
  "serveCore sv digest e others hq s =
     (if \<not> mediaTypeOk hq then (statusError 415, s)
      else serveRoute sv digest e others (hqRequest hq)
             (muxRoute (svTypes sv) (hqMethod hq) (hqPath hq)) s)"

definition exempt :: "'s server \<Rightarrow> http_request \<Rightarrow> bool" where
  "exempt sv hq \<longleftrightarrow>
     cfgExemptSPC (svConfig sv) \<and> (hqMethod hq = ''GET'' \<or> hqMethod hq = ''HEAD'') \<and>
     hqPath hq = [''ServiceProviderConfig'']"

definition ServeHTTP ::
    "'s server \<Rightarrow> digest \<Rightarrow> env \<Rightarrow> (string \<Rightarrow> nat \<Rightarrow> 's \<Rightarrow> 's) \<Rightarrow> http_request \<Rightarrow> (string \<Rightarrow> 's) \<Rightarrow>
     response \<times> (string \<Rightarrow> 's)" where
  "ServeHTTP sv digest e others hq s =
     (case cfgAuth (svConfig sv) of
        None \<Rightarrow> serveCore sv digest e others hq s
      | Some verify \<Rightarrow>
          if \<not> exempt sv hq \<and> \<not> authorized verify (hqAuthorization hq) then (statusError 401, s)
          else serveCore sv digest e others hq s)"

end
