(* ===== verification/Mem_Store.thy ===== *)
theory Mem_Store
  imports Server_Store Patch_Safety Scim_Codec
begin

text \<open>
  \<open>server/memstore\<close>: the in-memory store. The state is the struct \<open>Store\<close>; its methods run
  under the store's lock, so each is one step on the state. A set \<open>map[string]struct\<close> is the
  list of its members. The counters \<open>clock\<close> and \<open>seq\<close> are \<open>uint64\<close> in the code and natural
  numbers here: both grow by one per write, so they stay below \<open>2 ^ 64\<close>. Resources are cloned
  at the boundary, which is the identity on values.
\<close>

subsection \<open>State\<close>

record memstore =
  msRT :: resource_type
  msProfile :: profile
  msItems :: "resource amap"
  msSeq :: "nat amap"
  msOrder :: "string list"
  msRank :: "nat amap"
  msClock :: nat
  msUnique :: "string list"
  msExtra :: "string list"
  msIndex :: "string list amap amap"

definition WithProfile :: "profile \<Rightarrow> memstore \<Rightarrow> memstore" where
  "WithProfile p s = s\<lparr>msProfile := p\<rparr>"

definition WithIndex :: "string \<Rightarrow> memstore \<Rightarrow> memstore" where
  "WithIndex attr s = s\<lparr>msExtra := msExtra s @ [foldName attr]\<rparr>"

definition uniqueAttrs :: "attribute list \<Rightarrow> string list" where
  "uniqueAttrs attrs =
     map (\<lambda>a. foldName (attrName a))
       (filter (\<lambda>a. uniquenessOf a \<noteq> UniquenessOther [] \<and> uniquenessOf a \<noteq> UniquenessNone) attrs)"

definition NewStore :: "resource_type \<Rightarrow> (memstore \<Rightarrow> memstore) list \<Rightarrow> memstore" where
  "NewStore rt opts =
     fold (\<lambda>f. f) opts
       \<lparr>msRT = rt, msProfile = DefaultProfile, msItems = [], msSeq = [], msOrder = [], msRank = [],
        msClock = 0, msUnique = uniqueAttrs (schemaAttributes (rtSchema rt)), msExtra = [],
        msIndex = []\<rparr>"

definition insertItem :: "string \<Rightarrow> resource \<Rightarrow> memstore \<Rightarrow> memstore" where
  "insertItem i r s =
     s\<lparr>msClock := msClock s + 1, msRank := aput i (msClock s + 1) (msRank s),
       msOrder := msOrder s @ [i], msItems := aput i r (msItems s)\<rparr>"

definition removeItem :: "string \<Rightarrow> memstore \<Rightarrow> memstore" where
  "removeItem i s =
     s\<lparr>msItems := adel i (msItems s), msSeq := adel i (msSeq s), msRank := adel i (msRank s),
       msOrder := remove1 i (msOrder s)\<rparr>"

subsection \<open>Indexes\<close>

definition indexedAttrs :: "memstore \<Rightarrow> string list" where
  "indexedAttrs s = msUnique s @ msExtra s"

definition indexValues :: "resource \<Rightarrow> string \<Rightarrow> string list" where
  "indexValues r attr =
     (case Get r attr of
        Some (VString t) \<Rightarrow> [foldName t]
      | Some (VStrings ts) \<Rightarrow> map foldName ts
      | _ \<Rightarrow> [])"

definition indexOf :: "string list amap amap \<Rightarrow> string \<Rightarrow> string list amap" where
  "indexOf idx attr = (case aget idx attr of None \<Rightarrow> [] | Some m \<Rightarrow> m)"

definition bucketOf :: "string list amap amap \<Rightarrow> string \<Rightarrow> string \<Rightarrow> string list" where
  "bucketOf idx attr term = (case aget (indexOf idx attr) term of None \<Rightarrow> [] | Some ids \<Rightarrow> ids)"

definition dropTerm :: "string \<Rightarrow> string \<Rightarrow> string \<Rightarrow> string list amap amap \<Rightarrow> string list amap amap" where
  "dropTerm i attr term idx =
     (case aget (indexOf idx attr) term of
        None \<Rightarrow> idx
      | Some ids \<Rightarrow>
          let ids' = removeAll i ids in
          aput attr (if ids' = [] then adel term (indexOf idx attr)
                     else aput term ids' (indexOf idx attr)) idx)"

definition addTerm :: "string \<Rightarrow> string \<Rightarrow> string \<Rightarrow> string list amap amap \<Rightarrow> string list amap amap" where
  "addTerm i attr term idx =
     aput attr (aput term (List.insert i (bucketOf idx attr term)) (indexOf idx attr)) idx"

definition termsOf :: "resource option \<Rightarrow> string \<Rightarrow> string list" where
  "termsOf r attr = (case r of None \<Rightarrow> [] | Some r \<Rightarrow> indexValues r attr)"

definition reindexAttr ::
    "string \<Rightarrow> resource option \<Rightarrow> resource option \<Rightarrow> string \<Rightarrow> string list amap amap \<Rightarrow>
     string list amap amap" where
  "reindexAttr i old cur attr idx =
     fold (addTerm i attr) (termsOf cur attr) (fold (dropTerm i attr) (termsOf old attr) idx)"

definition reindex :: "string \<Rightarrow> resource option \<Rightarrow> resource option \<Rightarrow> memstore \<Rightarrow> memstore" where
  "reindex i old cur s = s\<lparr>msIndex := fold (reindexAttr i old cur) (indexedAttrs s) (msIndex s)\<rparr>"

definition checkUnique :: "string \<Rightarrow> resource \<Rightarrow> memstore \<Rightarrow> (go_error, unit) res" where
  "checkUnique i r s =
     (if list_ex (\<lambda>attr. list_ex (\<lambda>term. list_ex (\<lambda>holder. holder \<noteq> i) (bucketOf (msIndex s) attr term))
           (indexValues r attr)) (msUnique s)
      then Inl (ScimErr ErrUniqueness) else Inr ())"

subsection \<open>Versions\<close>

definition seqOf :: "memstore \<Rightarrow> string \<Rightarrow> nat" where
  "seqOf s i = (case aget (msSeq s) i of None \<Rightarrow> 0 | Some n \<Rightarrow> n)"

definition versionString :: "nat \<Rightarrow> string" where
  "versionString n = ''W/'' @ [CHR 0x22] @ formatNat n @ [CHR 0x22]"

definition bumpVersion :: "string \<Rightarrow> resource \<Rightarrow> memstore \<Rightarrow> resource \<times> memstore" where
  "bumpVersion i r s =
     (let n = seqOf s i + 1
      in (SetMeta ((rMeta r)\<lparr>mVersion := versionString n\<rparr>) r, s\<lparr>msSeq := aput i n (msSeq s)\<rparr>))"

definition opaqueVersion :: "string \<Rightarrow> string" where
  "opaqueVersion v = trimChar (CHR 0x22) (trimPrefix ''W/'' (trimSpace v))"

definition versionMatches :: "string \<Rightarrow> string \<Rightarrow> bool" where
  "versionMatches token current \<longleftrightarrow> token = [] \<or> opaqueVersion token = opaqueVersion current"

subsection \<open>Operations\<close>

definition assignedID :: "resource \<Rightarrow> string option" where
  "assignedID r = (case Get r ''id'' of Some (VString i) \<Rightarrow> if i = [] then None else Some i | _ \<Rightarrow> None)"

definition memCreate :: "env \<Rightarrow> resource \<Rightarrow> memstore \<Rightarrow> (go_error, resource \<times> memstore) res" where
  "memCreate e res s =
     rbind (case assignedID res of
              Some i \<Rightarrow> Inr (i, res)
            | None \<Rightarrow>
                rbind (NewID (envRandom e)) (\<lambda>i.
                rbind (map_err ScimErr (Set res ''id'' (VString i))) (\<lambda>stored. Inr (i, stored))))
       (\<lambda>(i, stored).
          if aget (msItems s) i \<noteq> None then Inl (ScimErr ErrUniqueness)
          else rbind (checkUnique i stored s) (\<lambda>_.
            let (stored', s1) = bumpVersion i stored s
            in Inr (stored', reindex i None (Some stored') (insertItem i stored' s1))))"

definition memGet :: "string \<Rightarrow> memstore \<Rightarrow> (go_error, resource) res" where
  "memGet i s = (case aget (msItems s) i of None \<Rightarrow> Inl notFound | Some r \<Rightarrow> Inr r)"

definition memReplace :: "string \<Rightarrow> resource \<Rightarrow> memstore \<Rightarrow> (go_error, resource \<times> memstore) res" where
  "memReplace i res s =
     (case aget (msItems s) i of
        None \<Rightarrow> Inl notFound
      | Some cur \<Rightarrow>
          if \<not> versionMatches (mVersion (rMeta res)) (mVersion (rMeta cur)) then Inl preconditionFailed
          else rbind (map_err ScimErr (Set res ''id'' (VString i))) (\<lambda>stored.
               rbind (checkUnique i stored s) (\<lambda>_.
               let (stored', s1) = bumpVersion i stored s;
                   s2 = reindex i (Some cur) (Some stored') s1
               in Inr (stored', s2\<lparr>msItems := aput i stored' (msItems s2)\<rparr>))))"

definition memDelete :: "string \<Rightarrow> memstore \<Rightarrow> (go_error, memstore) res" where
  "memDelete i s =
     (case aget (msItems s) i of
        None \<Rightarrow> Inl notFound
      | Some cur \<Rightarrow> Inr (removeItem i (reindex i (Some cur) None s)))"

definition memPatch ::
    "env \<Rightarrow> string \<Rightarrow> patch_op list \<Rightarrow> memstore \<Rightarrow> (go_error, resource \<times> memstore) res" where
  "memPatch e i ops s =
     (case aget (msItems s) i of
        None \<Rightarrow> Inl notFound
      | Some cur \<Rightarrow>
          rbind (map_err ScimErr (Apply cur ops (msProfile s))) (\<lambda>(stored, changed).
            if \<not> changed then Inr (cur, s)
            else rbind (checkUnique i stored s) (\<lambda>_.
              let stored1 = SetMeta ((rMeta stored)\<lparr>mLastModified := envNow e\<rparr>) stored;
                  (stored', s1) = bumpVersion i stored1 s;
                  s2 = reindex i (Some cur) (Some stored') s1
              in Inr (stored', s2\<lparr>msItems := aput i stored' (msItems s2)\<rparr>))))"

subsection \<open>List\<close>

text \<open>The bucket of a bare \<open>eq\<close> comparison with a string on an indexed attribute.\<close>

definition indexLookup :: "expr option \<Rightarrow> memstore \<Rightarrow> string list option" where
  "indexLookup f s =
     (case f of
        Some (Compare p OpEqual (LString want)) \<Rightarrow>
          if pathURN p \<noteq> [] \<or> pathSub p \<noteq> [] then None
          else (case aget (msIndex s) (foldName (pathAttr p)) of
                  None \<Rightarrow> None
                | Some m \<Rightarrow> Some (case aget m (foldName want) of None \<Rightarrow> [] | Some ids \<Rightarrow> ids))
      | _ \<Rightarrow> None)"

definition rankOf :: "memstore \<Rightarrow> string \<Rightarrow> nat" where
  "rankOf s i = (case aget (msRank s) i of None \<Rightarrow> 0 | Some n \<Rightarrow> n)"

text \<open>\<open>slices.SortFunc\<close> by the ranks, which differ from each other.\<close>

definition candidateSet :: "expr option \<Rightarrow> memstore \<Rightarrow> resource list" where
  "candidateSet f s =
     List.map_filter (aget (msItems s))
       (case indexLookup f s of
          Some ids \<Rightarrow> sort_key (rankOf s) (filter (\<lambda>i. aget (msItems s) i \<noteq> None) ids)
        | None \<Rightarrow> msOrder s)"

definition matchCandidates :: "expr option \<Rightarrow> memstore \<Rightarrow> (go_error, resource list) res" where
  "matchCandidates f s = matchAll f (candidateSet f s)"

text \<open>The window of a page; a slice expression out of bounds panics.\<close>

definition memPaginate :: "'a list \<Rightarrow> int \<Rightarrow> int \<Rightarrow> 'a list option" where
  "memPaginate xs startIndex n =
     (let start = (if startIndex < 1 then 1 else startIndex)
      in if n \<le> 0 then Some []
         else let from = start - 1
              in if int (length xs) \<le> from then Some []
                 else sliceExpr from (min (addInt from n) (int (length xs))) xs)"

definition memList :: "query \<Rightarrow> memstore \<Rightarrow> (go_error, page) res" where
  "memList q s =
     rbind (matchCandidates (qFilter q) s) (\<lambda>matched.
       let sorted = SortResources matched (msRT s) (qSortBy q) (qAscending q)
       in case memPaginate sorted (qStartIndex q) (qCount q) of
            None \<Rightarrow> Inl OtherErr
          | Some window \<Rightarrow> Inr \<lparr>pgResources = window, pgTotalResults = int (length sorted)\<rparr>)"

definition memStore :: "memstore store" where
  "memStore =
     \<lparr>stCreate = memCreate, stGet = memGet, stList = memList, stReplace = memReplace,
      stDelete = memDelete, stPatcher = Some memPatch, stSupportsFilter = None, stSupportsSort = None\<rparr>"

end
