(* ===== verification/Mem_Invariant.thy ===== *)
theory Mem_Invariant
  imports Mem_Store
begin

text \<open>
  The invariant of the in-memory store: the insertion order lists exactly the stored ids,
  without duplicates and by increasing rank; every resource is well-formed, carries its own
  id and the version its counter names; the index holds exactly the folded values of the
  indexed attributes; no two resources share a value of a unique attribute. Every operation
  keeps it, from the empty store on.
\<close>

subsection \<open>The index\<close>

lemma indexOf_aput [simp]: "indexOf (aput attr m idx) attr' = (if attr' = attr then m else indexOf idx attr')"
  by (simp add: indexOf_def)

lemma bucket_dropTerm:
  "set (bucketOf (dropTerm i attr t idx) attr' t') =
     (if attr' = attr \<and> t' = t then set (bucketOf idx attr' t') - {i} else set (bucketOf idx attr' t'))"
  by (auto simp: dropTerm_def bucketOf_def Let_def removeAll_filter_not_eq filter_empty_conv
      split: option.splits)

lemma bucket_addTerm:
  "set (bucketOf (addTerm i attr t idx) attr' t') =
     (if attr' = attr \<and> t' = t then insert i (set (bucketOf idx attr' t')) else set (bucketOf idx attr' t'))"
  by (auto simp: addTerm_def bucketOf_def split: option.splits)

lemma distinct_dropTerm:
  "distinct (bucketOf idx attr' t') \<Longrightarrow> distinct (bucketOf (dropTerm i attr t idx) attr' t')"
  by (auto simp: dropTerm_def bucketOf_def Let_def distinct_removeAll split: option.splits)

lemma distinct_addTerm:
  "distinct (bucketOf idx attr' t') \<Longrightarrow> distinct (bucketOf (addTerm i attr t idx) attr' t')"
  by (auto simp: addTerm_def bucketOf_def split: option.splits)

lemma bucket_dropTerms:
  "set (bucketOf (fold (dropTerm i attr) ts idx) attr' t') =
     (if attr' = attr \<and> t' \<in> set ts then set (bucketOf idx attr' t') - {i}
      else set (bucketOf idx attr' t'))"
  by (induction ts arbitrary: idx) (auto simp: bucket_dropTerm)

lemma bucket_addTerms:
  "set (bucketOf (fold (addTerm i attr) ts idx) attr' t') =
     (if attr' = attr \<and> t' \<in> set ts then insert i (set (bucketOf idx attr' t'))
      else set (bucketOf idx attr' t'))"
  by (induction ts arbitrary: idx) (auto simp: bucket_addTerm)

lemma bucket_reindexAttr:
  "set (bucketOf (reindexAttr i old cur attr idx) attr' t) =
     (if attr' \<noteq> attr then set (bucketOf idx attr' t)
      else if t \<in> set (termsOf cur attr) then insert i (set (bucketOf idx attr' t))
      else if t \<in> set (termsOf old attr) then set (bucketOf idx attr' t) - {i}
      else set (bucketOf idx attr' t))"
  by (auto simp: reindexAttr_def bucket_addTerms bucket_dropTerms)

lemma bucket_reindex:
  "set (bucketOf (fold (reindexAttr i old cur) attrs idx) attr t) =
     (if attr \<notin> set attrs then set (bucketOf idx attr t)
      else if t \<in> set (termsOf cur attr) then insert i (set (bucketOf idx attr t))
      else if t \<in> set (termsOf old attr) then set (bucketOf idx attr t) - {i}
      else set (bucketOf idx attr t))"
  by (induction attrs arbitrary: idx) (auto simp: bucket_reindexAttr)

lemma distinct_reindex:
  assumes "distinct (bucketOf idx attr' t')"
  shows "distinct (bucketOf (fold (reindexAttr i old cur) attrs idx) attr' t')"
proof -
  have drop: "distinct (bucketOf (fold (dropTerm i attr) ts idx) attr' t')"
    if "distinct (bucketOf idx attr' t')" for attr ts idx
    using that by (induction ts arbitrary: idx) (auto intro: distinct_dropTerm)
  have add: "distinct (bucketOf (fold (addTerm i attr) ts idx) attr' t')"
    if "distinct (bucketOf idx attr' t')" for attr ts idx
    using that by (induction ts arbitrary: idx) (auto intro: distinct_addTerm)
  from assms show ?thesis
    by (induction attrs arbitrary: idx) (auto simp: reindexAttr_def intro: drop add)
qed

text \<open>An index exists only for an attribute that has held a string.\<close>

lemma index_reindex:
  assumes "aget (fold (reindexAttr i old cur) attrs idx) attr \<noteq> None"
  shows "aget idx attr \<noteq> None \<or> termsOf cur attr \<noteq> [] \<and> attr \<in> set attrs"
proof -
  have drop: "aget (fold (dropTerm i a) ts idx) attr = None" if "aget idx attr = None" for a ts idx
    using that
  proof (induction ts arbitrary: idx)
    case (Cons t ts)
    have "aget (dropTerm i a t idx) attr = None"
      using Cons.prems by (auto simp: dropTerm_def indexOf_def Let_def split: option.splits)
    with Cons.IH show ?case by simp
  qed simp
  have add: "aget (fold (addTerm i a) ts idx) attr = None" if "aget idx attr = None" "attr = a \<longrightarrow> ts = []" for a ts idx
    using that by (induction ts arbitrary: idx) (auto simp: addTerm_def)
  have "aget (fold (reindexAttr i old cur) attrs idx) attr = None"
    if "aget idx attr = None" "termsOf cur attr = [] \<or> attr \<notin> set attrs"
    using that
  proof (induction attrs arbitrary: idx)
    case (Cons a attrs)
    have "aget (reindexAttr i old cur a idx) attr = None"
      unfolding reindexAttr_def using Cons.prems by (intro add drop) auto
    with Cons.IH Cons.prems(2) show ?case by auto
  qed simp
  with assms show ?thesis
    by (cases "aget idx attr = None"; cases "termsOf cur attr = [] \<or> attr \<notin> set attrs") auto
qed

subsection \<open>Identifiers, metadata and versions\<close>

text \<open>The resource types a store is used with.\<close>

definition storeType :: "resource_type \<Rightarrow> bool" where
  "storeType rt \<longleftrightarrow> resourceTypeOk rt \<and> commonReserved rt \<and> rtValid rt"

lemma id_plain: "plainName ''id''"
  by (simp add: plainName_def urnPrefix_def)

lemma resolve_id:
  assumes "commonReserved rt"
  shows "\<exists>a. resolvePath rt ''id'' = Inr \<lparr>rpUrn = [], rpAttr = Some a, rpSub = None, rpCommon = True\<rparr> \<and>
    attrType a = TypeString \<and> \<not> multiValued a \<and> foldName (attrName a) = ''id''"
proof -
  have c: "\<exists>a. findAttribute commonAttributes ''id'' = Some a \<and> attrType a = TypeString \<and> \<not> multiValued a \<and>
      foldName (attrName a) = ''id''"
    by (simp add: commonAttributes_def findAttribute_def equalFold_def)
  then obtain a where a: "findAttribute commonAttributes ''id'' = Some a" "attrType a = TypeString"
    "\<not> multiValued a" "foldName (attrName a) = ''id''" by blast
  have "foldName ''id'' \<in> set (foldedNames commonAttributes)"
    using a(1,4) findAttribute_SomeD [OF a(1)] by (force simp: foldedNames_def)
  with assms have "findAttribute (schemaAttributes (rtSchema rt)) ''id'' = None"
    by (auto simp: findAttribute_None_iff commonReserved_def)
  with a resolvePath_plain [OF id_plain, of rt] show ?thesis by (auto simp: namespaceAttr_def)
qed

lemma coerce_string:
  "attrType a = TypeString \<Longrightarrow> \<not> multiValued a \<Longrightarrow> coerceValue a (VString i) = Inr (VString i)"
  by (simp add: coerceValue_def coerceValueWith_def coerceSingleWith_def coerceString_def)

lemma Set_id:
  assumes "storeType (rRT r)" and "resourceOk r" and "i \<noteq> []"
  obtains r' where "Set r ''id'' (VString i) = Inr r'" "resourceOk r'" "rRT r' = rRT r"
    "rMeta r' = rMeta r" "assignedID r' = Some i"
proof -
  from assms(1) have ok: "resourceTypeOk (rRT r)" "commonReserved (rRT r)" by (auto simp: storeType_def)
  from resolve_id [OF ok(2)] obtain a where
    rp: "resolvePath (rRT r) ''id'' = Inr \<lparr>rpUrn = [], rpAttr = Some a, rpSub = None, rpCommon = True\<rparr>"
    and a: "attrType a = TypeString" "\<not> multiValued a" "foldName (attrName a) = ''id''" by blast
  have "\<exists>m. setResolved r \<lparr>rpUrn = [], rpAttr = Some a, rpSub = None, rpCommon = True\<rparr> (VString i) = Inr m"
    using a by (simp add: setResolved_def setCommon_def setInContainer_def coerce_string attrSchemas_def
        attrMeta_def Let_def)
  with rp obtain m where set: "Set r ''id'' (VString i) = Inr (r\<lparr>rAttrs := m\<rparr>)" by (auto simp: Set_def)
  from Get_Set [OF ok(1) set rp] have "Get (r\<lparr>rAttrs := m\<rparr>) ''id'' = Some (VString i)"
    using coerce_string [OF a(1,2)] by (simp add: targetAttr_def assigned_def)
  with assms(3) have "assignedID (r\<lparr>rAttrs := m\<rparr>) = Some i" by (simp add: assignedID_def)
  moreover have "resourceOk (r\<lparr>rAttrs := m\<rparr>)" using Set_resourceOk [OF ok(1) assms(2) set] by simp
  ultimately show ?thesis using set by (intro that) auto
qed

text \<open>The metadata shows only below \<open>meta\<close>.\<close>

lemma getResolved_SetMeta:
  "rpSub rp = None \<Longrightarrow>
     getResolved (SetMeta m r) rp = getResolved r rp \<or>
     (\<forall>v. getResolved (SetMeta m r) rp = Some v \<or> getResolved r rp = Some v \<longrightarrow> (\<exists>c. v = VComplex c))"
  by (auto simp: getResolved_def SetMeta_def getCommon_def subValue_def Schemas_def Let_def
      split: option.splits list.splits if_splits)

lemma indexValues_SetMeta:
  assumes "\<And>rp. resolvePath (rRT r) attr = Inr rp \<Longrightarrow> rpSub rp = None"
  shows "indexValues (SetMeta m r) attr = indexValues r attr"
proof (cases "resolvePath (rRT r) attr")
  case (Inr rp)
  have eq: "Get (SetMeta m r) attr = getResolved (SetMeta m r) rp" "Get r attr = getResolved r rp"
    using Inr by (simp_all add: Get_def SetMeta_def)
  from getResolved_SetMeta [OF assms [OF Inr], of m r] show ?thesis
  proof
    assume "getResolved (SetMeta m r) rp = getResolved r rp"
    with eq show ?thesis by (simp add: indexValues_def)
  next
    assume c: "\<forall>v. getResolved (SetMeta m r) rp = Some v \<or> getResolved r rp = Some v \<longrightarrow> (\<exists>c. v = VComplex c)"
    have "indexValues q attr = []" if "\<forall>v. Get q attr = Some v \<longrightarrow> (\<exists>c. v = VComplex c)" for q
      using that by (auto simp: indexValues_def split: option.splits)
    with c eq show ?thesis by auto
  qed
qed (simp add: indexValues_def Get_def SetMeta_def)

lemma SetMeta_simps [simp]:
  "rRT (SetMeta m r) = rRT r" "rMeta (SetMeta m r) = m" "rAttrs (SetMeta m r) = rAttrs r"
  by (simp_all add: SetMeta_def)

lemma assignedID_SetMeta:
  assumes "commonReserved (rRT r)" shows "assignedID (SetMeta m r) = assignedID r"
proof -
  from resolve_id [OF assms] show ?thesis
    by (auto simp: assignedID_def Get_def getResolved_def getCommon_def attrSchemas_def attrMeta_def Let_def)
qed

lemma unique_attr_plain:
  assumes "storeType rt" "attr \<in> set (uniqueAttrs (schemaAttributes (rtSchema rt)))"
    and "resolvePath rt attr = Inr rp"
  shows "rpSub rp = None"
proof -
  from assms(2) obtain a where "a \<in> set (schemaAttributes (rtSchema rt))" "attr = foldName (attrName a)"
    by (auto simp: uniqueAttrs_def)
  moreover with assms(1) have "validAttrName (attrName a)"
    by (auto simp: storeType_def rtValid_def namesValid_def list_all_iff)
  ultimately have "plainName attr"
    using validAttrName_fold [of attr "attrName a"] no_colon_not_urn [of attr] by (auto simp: plainName_def)
  from resolvePath_plain [OF this, of rt] assms(3) show ?thesis by (auto split: option.splits prod.splits)
qed

lemma dropWhile_none: "x \<notin> set xs \<Longrightarrow> dropWhile (\<lambda>y. y = x) xs = xs"
  by (cases xs) auto

lemma trimChar_in_quotes: "c \<notin> set ds \<Longrightarrow> ds \<noteq> [] \<Longrightarrow> trimChar c (c # ds @ [c]) = ds"
proof -
  assume c: "c \<notin> set ds" and "ds \<noteq> []"
  then obtain d ds' where "ds = d # ds'" by (cases ds) auto
  with c have "dropWhile (\<lambda>x. x = c) (c # ds @ [c]) = ds @ [c]" by auto
  with dropWhile_none [of c "rev ds"] c show ?thesis by (simp add: trimChar_def)
qed

lemma opaque_versionString: "opaqueVersion (versionString n) = formatNat n"
proof -
  define ds where "ds = formatNat n"
  have "isDigit c" if "c \<in> set ds" for c
    using that formatNat_digits [of n] by (auto simp: ds_def list_all_iff)
  moreover have "\<not> isDigit (CHR 0x22)" by code_simp
  ultimately have quote: "CHR 0x22 \<notin> set ds" by auto
  have trim: "trimSpace (versionString n) = versionString n"
    by (simp add: trimSpace_def versionString_def isSpace_def)
  have pre: "trimPrefix ''W/'' (versionString n) = CHR 0x22 # ds @ [CHR 0x22]"
    by (simp add: trimPrefix_def versionString_def ds_def)
  show ?thesis
    unfolding opaqueVersion_def trim pre using trimChar_in_quotes [OF quote] by (simp add: ds_def)
qed

lemma versionString_inject [simp]: "versionString m = versionString n \<longleftrightarrow> m = n"
  by (simp add: versionString_def)

lemma versionString_not_Nil [simp]: "versionString n \<noteq> []"
  by (simp add: versionString_def)

lemma versionMatches_string: "versionMatches (versionString m) (versionString n) \<longleftrightarrow> m = n"
  by (simp add: versionMatches_def opaque_versionString)

subsection \<open>The invariant\<close>

definition orderOk :: "memstore \<Rightarrow> bool" where
  "orderOk s \<longleftrightarrow>
     distinct (msOrder s) \<and> (\<forall>i. i \<in> set (msOrder s) \<longleftrightarrow> aget (msItems s) i \<noteq> None) \<and>
     (\<forall>i \<in> set (msOrder s). rankOf s i \<le> msClock s) \<and>
     sorted_wrt (\<lambda>i j. rankOf s i < rankOf s j) (msOrder s)"

definition itemsOk :: "memstore \<Rightarrow> bool" where
  "itemsOk s \<longleftrightarrow>
     (\<forall>i r. aget (msItems s) i = Some r \<longrightarrow>
        resourceOk r \<and> rRT r = msRT s \<and> assignedID r = Some i \<and>
        mVersion (rMeta r) = versionString (seqOf s i) \<and> 1 \<le> seqOf s i) \<and>
     (\<forall>i. aget (msItems s) i = None \<longrightarrow> seqOf s i = 0)"

definition indexOk :: "memstore \<Rightarrow> bool" where
  "indexOk s \<longleftrightarrow>
     (\<forall>attr t i. i \<in> set (bucketOf (msIndex s) attr t) \<longleftrightarrow>
        attr \<in> set (indexedAttrs s) \<and> (\<exists>r. aget (msItems s) i = Some r \<and> t \<in> set (indexValues r attr))) \<and>
     (\<forall>attr t. distinct (bucketOf (msIndex s) attr t)) \<and>
     (\<forall>attr. aget (msIndex s) attr \<noteq> None \<longrightarrow> attr \<in> set (indexedAttrs s) \<and>
        (\<exists>r. resourceOk r \<and> rRT r = msRT s \<and> indexValues r attr \<noteq> []))"

definition uniqueOk :: "memstore \<Rightarrow> bool" where
  "uniqueOk s \<longleftrightarrow>
     (\<forall>attr \<in> set (msUnique s). \<forall>i j r r'. aget (msItems s) i = Some r \<longrightarrow> aget (msItems s) j = Some r' \<longrightarrow>
        i \<noteq> j \<longrightarrow> set (indexValues r attr) \<inter> set (indexValues r' attr) = {})"

definition configOk :: "memstore \<Rightarrow> bool" where
  "configOk s \<longleftrightarrow>
     storeType (msRT s) \<and> msUnique s = uniqueAttrs (schemaAttributes (rtSchema (msRT s)))"

definition storeOk :: "memstore \<Rightarrow> bool" where
  "storeOk s \<longleftrightarrow> configOk s \<and> orderOk s \<and> itemsOk s \<and> indexOk s \<and> uniqueOk s"

text \<open>What the state holds, in insertion order: the table the contract speaks of.\<close>

definition memRows :: "memstore \<Rightarrow> resource amap" where
  "memRows s = List.map_filter (\<lambda>i. map_option (Pair i) (aget (msItems s) i)) (msOrder s)"

lemma NewStore_ok:
  assumes "storeType rt" and "\<forall>f \<in> set opts. (\<exists>p. f = WithProfile p) \<or> (\<exists>attr. f = WithIndex attr)"
  shows "storeOk (NewStore rt opts) \<and> memRows (NewStore rt opts) = [] \<and> msRT (NewStore rt opts) = rt"
proof -
  define empty :: "memstore \<Rightarrow> bool" where "empty s \<longleftrightarrow>
      msRT s = rt \<and> msItems s = [] \<and> msSeq s = [] \<and> msOrder s = [] \<and> msIndex s = [] \<and>
      msUnique s = uniqueAttrs (schemaAttributes (rtSchema rt))" for s
  have "empty (fold (\<lambda>f. f) opts s)" if "empty s" for s
    using that assms(2)
    by (induction opts arbitrary: s) (auto simp: empty_def WithProfile_def WithIndex_def)
  then have "empty (NewStore rt opts)" unfolding NewStore_def by (simp add: empty_def)
  with assms(1) show ?thesis
    by (simp add: empty_def storeOk_def configOk_def orderOk_def itemsOk_def indexOk_def uniqueOk_def
        memRows_def seqOf_def bucketOf_def indexOf_def List.map_filter_simps)
qed

lemma checkUnique_Inr:
  assumes "indexOk s" and "checkUnique i r s = Inr ()"
    and "attr \<in> set (msUnique s)" "aget (msItems s) j = Some r'" "j \<noteq> i"
  shows "set (indexValues r attr) \<inter> set (indexValues r' attr) = {}"
proof (rule ccontr)
  assume "set (indexValues r attr) \<inter> set (indexValues r' attr) \<noteq> {}"
  then obtain t where t: "t \<in> set (indexValues r attr)" "t \<in> set (indexValues r' attr)" by blast
  with assms(1,3,4) have "j \<in> set (bucketOf (msIndex s) attr t)"
    by (auto simp: indexOk_def indexedAttrs_def)
  with t assms(2,3,5) show False by (auto simp: checkUnique_def list_ex_iff split: if_splits)
qed

lemma checkUnique_Inl:
  assumes "indexOk s" and "checkUnique i r s = Inl e"
  shows "e = ScimErr ErrUniqueness \<and>
    (\<exists>attr \<in> set (msUnique s). \<exists>j r'. aget (msItems s) j = Some r' \<and> j \<noteq> i \<and>
      set (indexValues r attr) \<inter> set (indexValues r' attr) \<noteq> {})"
proof -
  from assms(2) have e: "e = ScimErr ErrUniqueness" by (simp add: checkUnique_def split: if_splits)
  from assms(2) obtain attr t j where "attr \<in> set (msUnique s)" and t: "t \<in> set (indexValues r attr)"
    and "j \<in> set (bucketOf (msIndex s) attr t)" "j \<noteq> i"
    unfolding checkUnique_def list_ex_iff by (simp split: if_splits) blast
  moreover with assms(1) obtain r' where "aget (msItems s) j = Some r'" "t \<in> set (indexValues r' attr)"
    unfolding indexOk_def by blast
  ultimately show ?thesis using e by blast
qed

text \<open>The unique attributes of a resource do not see its metadata.\<close>

lemma unique_SetMeta:
  assumes "configOk s" "attr \<in> set (msUnique s)" "rRT r = msRT s"
  shows "indexValues (SetMeta m r) attr = indexValues r attr"
  using assms by (intro indexValues_SetMeta unique_attr_plain) (auto simp: configOk_def)

lemma termsOf_iff:
  "t \<in> set (termsOf (aget m i) attr) \<longleftrightarrow> (\<exists>r. aget m i = Some r \<and> t \<in> set (indexValues r attr))"
  by (cases "aget m i") (simp_all add: termsOf_def)

text \<open>The reindexed state: the index is exact for the new value of one id.\<close>

lemma indexOk_reindex:
  assumes ok: "indexOk s" and old: "old = aget (msItems s) i"
    and cur: "\<And>r. cur = Some r \<Longrightarrow> resourceOk r \<and> rRT r = msRT s"
    and s': "msIndex s' = msIndex (reindex i old cur s)" "indexedAttrs s' = indexedAttrs s" "msRT s' = msRT s"
      "\<And>j. aget (msItems s') j = (if j = i then cur else aget (msItems s) j)"
  shows "indexOk s'"
proof -
  have index: "msIndex s' = fold (reindexAttr i old cur) (indexedAttrs s) (msIndex s)"
    by (simp add: s'(1) reindex_def)
  have exact: "j \<in> set (bucketOf (msIndex s) attr t) \<longleftrightarrow>
      attr \<in> set (indexedAttrs s) \<and> t \<in> set (termsOf (aget (msItems s) j) attr)" for j attr t
    using ok by (simp add: indexOk_def termsOf_iff)
  have "j \<in> set (bucketOf (msIndex s') attr t) \<longleftrightarrow>
      attr \<in> set (indexedAttrs s') \<and> t \<in> set (termsOf (aget (msItems s') j) attr)" for j attr t
  proof (cases "j = i")
    case True
    have "i \<in> set (bucketOf (msIndex s) attr t) \<longleftrightarrow> attr \<in> set (indexedAttrs s) \<and> t \<in> set (termsOf old attr)"
      by (simp add: exact old)
    with True show ?thesis by (simp add: index bucket_reindex s'(2,4))
  next
    case False
    then show ?thesis by (simp add: index bucket_reindex s'(2,4) exact)
  qed
  moreover have "distinct (bucketOf (msIndex s') attr t)" for attr t
    using ok by (simp add: index distinct_reindex indexOk_def)
  moreover have "attr \<in> set (indexedAttrs s') \<and> (\<exists>r. resourceOk r \<and> rRT r = msRT s' \<and> indexValues r attr \<noteq> [])"
    if "aget (msIndex s') attr \<noteq> None" for attr
  proof -
    from index_reindex [OF that [unfolded index]] show ?thesis
    proof
      assume "aget (msIndex s) attr \<noteq> None"
      with ok s'(2,3) show ?thesis by (auto simp: indexOk_def)
    next
      assume "termsOf cur attr \<noteq> [] \<and> attr \<in> set (indexedAttrs s)"
      with cur s'(2,3) show ?thesis by (auto simp: termsOf_def split: option.splits)
    qed
  qed
  ultimately show ?thesis unfolding indexOk_def termsOf_iff by blast
qed

subsection \<open>Every write keeps it\<close>

lemma aget_memRows:
  assumes "orderOk s" shows "aget (memRows s) i = aget (msItems s) i"
proof -
  have "aget (List.map_filter (\<lambda>i. map_option (Pair i) (aget m i)) xs) i = (if i \<in> set xs then aget m i else None)"
    for m :: "resource amap" and xs
  proof (induction xs)
    case (Cons x xs)
    then show ?case by (cases "aget m x") (simp_all add: List.map_filter_simps)
  qed (simp add: List.map_filter_simps)
  moreover have "aget (msItems s) i = None" if "i \<notin> set (msOrder s)"
    using assms that by (simp add: orderOk_def)
  ultimately show ?thesis by (simp add: memRows_def)
qed

lemma fst_map_filter:
  "\<forall>i \<in> set xs. m i \<noteq> None \<Longrightarrow> map fst (List.map_filter (\<lambda>i. map_option (Pair i) (m i)) xs) = xs"
proof (induction xs)
  case (Cons x xs)
  then obtain r where "m x = Some r" by auto
  with Cons show ?case by (simp add: List.map_filter_simps)
qed (simp add: List.map_filter_simps)

lemma fst_memRows:
  assumes "orderOk s" shows "map fst (memRows s) = msOrder s"
  unfolding memRows_def
  by (rule fst_map_filter) (use assms in \<open>unfold orderOk_def, blast\<close>)

text \<open>Two tables with the same keys in the same order and the same lookups are equal.\<close>

lemma amap_by_keys: "distinct_keys m \<Longrightarrow> m = map (\<lambda>k. (k, the (aget m k))) (map fst m)"
proof (rule nth_equalityI)
  fix n
  assume "distinct_keys m" "n < length m"
  then have "aget m (fst (m ! n)) = Some (snd (m ! n))"
    by (simp add: distinct_keys_def map_of_is_SomeI)
  then show "m ! n = map (\<lambda>k. (k, the (aget m k))) (map fst m) ! n"
    using \<open>n < length m\<close> by (simp add: prod_eq_iff)
qed simp

lemma amap_ext:
  assumes "distinct_keys m" and keys: "map fst m = map fst m'" and "\<And>k. aget m k = aget m' k"
  shows "m = m'"
proof -
  have "distinct_keys m'" using assms(1) keys by (simp add: distinct_keys_def)
  from amap_by_keys [OF this] amap_by_keys [OF assms(1)] keys assms(3) show ?thesis by simp
qed

lemma fst_aput: "map fst (aput k v m) = (if k \<in> set (map fst m) then map fst m else map fst m @ [k])"
  by (simp add: update_keys)

text \<open>One stored resource replaced by another, as \<open>Replace\<close> and \<open>Patch\<close> do.\<close>

definition putItem :: "string \<Rightarrow> resource \<Rightarrow> memstore \<Rightarrow> memstore" where
  "putItem i r s =
     (let (r', s1) = bumpVersion i r s;
          s2 = reindex i (aget (msItems s) i) (Some r') s1
      in s2\<lparr>msItems := aput i r' (msItems s2)\<rparr>)"

lemma rankOf_frame: "msRank s' = msRank s \<Longrightarrow> rankOf s' = rankOf s"
  by (simp add: rankOf_def fun_eq_iff)

lemma bumped_item:
  assumes "configOk s" "rRT r = msRT s" "assignedID r = Some i" "resourceOk r"
  defines "r' \<equiv> SetMeta ((rMeta r)\<lparr>mVersion := versionString (seqOf s i + 1)\<rparr>) r"
  shows "resourceOk r' \<and> rRT r' = msRT s \<and> assignedID r' = Some i \<and>
    mVersion (rMeta r') = versionString (seqOf s i + 1)"
  using assms by (simp add: assignedID_SetMeta configOk_def storeType_def)

lemma putItem_ok:
  assumes ok: "storeOk s" and cur: "aget (msItems s) i = Some cur"
    and r: "resourceOk r" "rRT r = msRT s" "assignedID r = Some i"
    and uniq: "checkUnique i r s = Inr ()"
  defines "r' \<equiv> SetMeta ((rMeta r)\<lparr>mVersion := versionString (seqOf s i + 1)\<rparr>) r"
  shows "storeOk (putItem i r s) \<and> msRT (putItem i r s) = msRT s \<and>
    memRows (putItem i r s) = aput i r' (memRows s) \<and>
    (\<forall>j. seqOf (putItem i r s) j = (if j = i then seqOf s i + 1 else seqOf s j))"
proof -
  define s' where "s' = putItem i r s"
  from ok have parts: "configOk s" "orderOk s" "itemsOk s" "indexOk s" "uniqueOk s"
    by (simp_all add: storeOk_def)
  have s': "msItems s' = aput i r' (msItems s)" "msOrder s' = msOrder s" "msRank s' = msRank s"
    "msClock s' = msClock s" "msUnique s' = msUnique s" "msRT s' = msRT s" "indexedAttrs s' = indexedAttrs s"
    "msSeq s' = aput i (seqOf s i + 1) (msSeq s)"
    "msIndex s' = msIndex (reindex i (Some cur) (Some r') s)"
    by (simp_all add: s'_def putItem_def bumpVersion_def reindex_def r'_def indexedAttrs_def Let_def cur)
  have seq: "seqOf s' j = (if j = i then seqOf s i + 1 else seqOf s j)" for j
    by (simp add: seqOf_def [of s'] s'(8)) (simp add: seqOf_def)
  have item: "resourceOk r'" "rRT r' = msRT s" "assignedID r' = Some i"
    "mVersion (rMeta r') = versionString (seqOf s i + 1)"
    using bumped_item [OF parts(1) r(2,3,1)] by (simp_all add: r'_def)
  have "configOk s'" using parts(1) s' by (simp add: configOk_def)
  moreover have "orderOk s'"
    using parts(2) cur rankOf_frame [OF s'(3)] by (auto simp: orderOk_def s')
  moreover have "itemsOk s'"
    using parts(3) item cur by (auto simp: itemsOk_def s' seq)
  moreover have "indexOk s'"
    by (rule indexOk_reindex [OF parts(4), of "Some cur" i "Some r'"]) (use cur item s' in auto)
  moreover have "uniqueOk s'"
  proof -
    have "set (indexValues r' attr) \<inter> set (indexValues q attr) = {}"
      if "attr \<in> set (msUnique s)" "aget (msItems s) j = Some q" "j \<noteq> i" for attr j q
      using checkUnique_Inr [OF parts(4) uniq that] unique_SetMeta [OF parts(1) that(1) r(2)]
      by (simp add: r'_def)
    with parts(5) show ?thesis by (auto simp: uniqueOk_def s' Int_commute split: if_splits)
  qed
  ultimately have ok': "storeOk s'" by (simp add: storeOk_def)
  then have "orderOk s'" by (simp add: storeOk_def)
  have "memRows s' = aput i r' (memRows s)"
  proof (rule amap_ext)
    show "distinct_keys (memRows s')"
      using \<open>orderOk s'\<close> fst_memRows [of s'] by (simp add: distinct_keys_def orderOk_def)
    have "i \<in> set (msOrder s)" using parts(2) cur by (auto simp: orderOk_def)
    then show "map fst (memRows s') = map fst (aput i r' (memRows s))"
      using fst_memRows [OF \<open>orderOk s'\<close>] fst_memRows [OF parts(2)] s'(2)
      by (simp add: fst_aput del: set_map)
    show "aget (memRows s') k = aget (aput i r' (memRows s)) k" for k
      by (simp add: aget_memRows \<open>orderOk s'\<close> parts(2) s')
  qed
  with ok' s' seq show ?thesis by (simp add: s'_def)
qed

text \<open>A new resource stored at the end of the order, as \<open>Create\<close> does.\<close>

definition addItem :: "string \<Rightarrow> resource \<Rightarrow> memstore \<Rightarrow> memstore" where
  "addItem i r s =
     (let (r', s1) = bumpVersion i r s
      in reindex i None (Some r') (insertItem i r' s1))"

lemma addItem_ok:
  assumes ok: "storeOk s" and new: "aget (msItems s) i = None"
    and r: "resourceOk r" "rRT r = msRT s" "assignedID r = Some i"
    and uniq: "checkUnique i r s = Inr ()"
  defines "r' \<equiv> SetMeta ((rMeta r)\<lparr>mVersion := versionString (seqOf s i + 1)\<rparr>) r"
  shows "storeOk (addItem i r s) \<and> msRT (addItem i r s) = msRT s \<and>
    memRows (addItem i r s) = memRows s @ [(i, r')] \<and>
    (\<forall>j. seqOf (addItem i r s) j = (if j = i then seqOf s i + 1 else seqOf s j))"
proof -
  define s' where "s' = addItem i r s"
  from ok have parts: "configOk s" "orderOk s" "itemsOk s" "indexOk s" "uniqueOk s"
    by (simp_all add: storeOk_def)
  have s': "msItems s' = aput i r' (msItems s)" "msOrder s' = msOrder s @ [i]"
    "msRank s' = aput i (msClock s + 1) (msRank s)" "msClock s' = msClock s + 1"
    "msUnique s' = msUnique s" "msRT s' = msRT s" "indexedAttrs s' = indexedAttrs s"
    "msSeq s' = aput i (seqOf s i + 1) (msSeq s)"
    "msIndex s' = msIndex (reindex i None (Some r') s)"
    by (simp_all add: s'_def addItem_def insertItem_def bumpVersion_def reindex_def r'_def
        indexedAttrs_def Let_def)
  have seq: "seqOf s' j = (if j = i then seqOf s i + 1 else seqOf s j)" for j
    by (simp add: seqOf_def [of s'] s'(8)) (simp add: seqOf_def)
  have rank: "rankOf s' j = (if j = i then msClock s + 1 else rankOf s j)" for j
    by (simp add: rankOf_def s'(3))
  have item: "resourceOk r'" "rRT r' = msRT s" "assignedID r' = Some i"
    "mVersion (rMeta r') = versionString (seqOf s i + 1)"
    using bumped_item [OF parts(1) r(2,3,1)] by (simp_all add: r'_def)
  have fresh: "i \<notin> set (msOrder s)" using parts(2) new by (simp add: orderOk_def)
  have "configOk s'" using parts(1) s' by (simp add: configOk_def)
  moreover have "orderOk s'"
  proof -
    have "sorted_wrt (\<lambda>j k. rankOf s' j < rankOf s' k) (msOrder s)"
      by (rule sorted_wrt_mono_rel [of "msOrder s" "\<lambda>j k. rankOf s j < rankOf s k"])
        (use parts(2) fresh in \<open>auto simp: rank orderOk_def\<close>)
    moreover have "\<forall>j \<in> set (msOrder s). rankOf s' j < msClock s + 1 \<and> rankOf s' j \<le> msClock s + 1"
      using parts(2) fresh by (auto simp: orderOk_def rank)
    moreover have "\<forall>j. j \<in> set (msOrder s) \<longleftrightarrow> aget (msItems s) j \<noteq> None"
      using parts(2) unfolding orderOk_def by blast
    moreover have "distinct (msOrder s)" using parts(2) by (simp add: orderOk_def)
    moreover have "rankOf s' i = msClock s + 1" by (simp add: rank)
    ultimately show ?thesis
      using fresh unfolding orderOk_def s'(1,2,4) by (simp add: sorted_wrt_append)
  qed
  moreover have "itemsOk s'"
    using parts(3) item by (auto simp: itemsOk_def s' seq)
  moreover have "indexOk s'"
    by (rule indexOk_reindex [OF parts(4), of None i "Some r'"]) (use new item s' in auto)
  moreover have "uniqueOk s'"
  proof -
    have "set (indexValues r' attr) \<inter> set (indexValues q attr) = {}"
      if "attr \<in> set (msUnique s)" "aget (msItems s) j = Some q" "j \<noteq> i" for attr j q
      using checkUnique_Inr [OF parts(4) uniq that] unique_SetMeta [OF parts(1) that(1) r(2)]
      by (simp add: r'_def)
    with parts(5) show ?thesis by (auto simp: uniqueOk_def s' Int_commute split: if_splits)
  qed
  ultimately have ok': "storeOk s'" by (simp add: storeOk_def)
  then have order': "orderOk s'" by (simp add: storeOk_def)
  have "memRows s' = memRows s @ [(i, r')]"
  proof (rule amap_ext)
    show "distinct_keys (memRows s')"
      using order' fst_memRows [of s'] by (simp add: distinct_keys_def orderOk_def)
    show "map fst (memRows s') = map fst (memRows s @ [(i, r')])"
      using fst_memRows [OF order'] fst_memRows [OF parts(2)] s'(2) by simp
    show "aget (memRows s') k = aget (memRows s @ [(i, r')]) k" for k
      using new by (cases "k = i") (simp_all add: aget_memRows order' parts(2) s'(1) map_add_def split: option.splits)
  qed
  with ok' s' seq show ?thesis by (simp add: s'_def)
qed

text \<open>A resource removed, as \<open>Delete\<close> does.\<close>

definition dropItem :: "string \<Rightarrow> memstore \<Rightarrow> memstore" where
  "dropItem i s = removeItem i (reindex i (aget (msItems s) i) None s)"

lemma dropItem_ok:
  assumes ok: "storeOk s" and cur: "aget (msItems s) i = Some cur"
  shows "storeOk (dropItem i s) \<and> msRT (dropItem i s) = msRT s \<and>
    memRows (dropItem i s) = adel i (memRows s) \<and>
    (\<forall>j. seqOf (dropItem i s) j = (if j = i then 0 else seqOf s j))"
proof -
  define s' where "s' = dropItem i s"
  from ok have parts: "configOk s" "orderOk s" "itemsOk s" "indexOk s" "uniqueOk s"
    by (simp_all add: storeOk_def)
  have s': "msItems s' = adel i (msItems s)" "msOrder s' = remove1 i (msOrder s)"
    "msRank s' = adel i (msRank s)" "msClock s' = msClock s" "msUnique s' = msUnique s"
    "msRT s' = msRT s" "indexedAttrs s' = indexedAttrs s" "msSeq s' = adel i (msSeq s)"
    "msIndex s' = msIndex (reindex i (Some cur) None s)"
    by (simp_all add: s'_def dropItem_def removeItem_def reindex_def indexedAttrs_def cur)
  have seq: "seqOf s' j = (if j = i then 0 else seqOf s j)" for j
    by (simp add: seqOf_def s'(8))
  have rank: "rankOf s' j = (if j = i then 0 else rankOf s j)" for j
    by (simp add: rankOf_def s'(3))
  have dist: "distinct (msOrder s)" using parts(2) by (simp add: orderOk_def)
  have "configOk s'" using parts(1) s' by (simp add: configOk_def)
  moreover have "orderOk s'"
  proof -
    have "sorted_wrt (\<lambda>j k. rankOf s' j < rankOf s' k) (remove1 i (msOrder s))"
    proof -
      have eq: "remove1 i (msOrder s) = filter (\<lambda>j. j \<noteq> i) (msOrder s)"
        using dist by (simp add: distinct_remove1_removeAll removeAll_filter_not_eq eq_commute)
      have "sorted_wrt (\<lambda>j k. rankOf s j < rankOf s k) (remove1 i (msOrder s))"
        unfolding eq using parts(2) by (intro sorted_wrt_filter) (simp add: orderOk_def)
      then show ?thesis
        by (rule sorted_wrt_mono_rel [rotated]) (use dist in \<open>auto simp: rank\<close>)
    qed
    with parts(2) dist show ?thesis
      by (auto simp: orderOk_def s'(1,2,4) rank)
  qed
  moreover have "itemsOk s'"
    using parts(3) by (auto simp: itemsOk_def s' seq)
  moreover have "indexOk s'"
    by (rule indexOk_reindex [OF parts(4), of "Some cur" i None]) (use cur s' in auto)
  moreover have "uniqueOk s'"
    using parts(5) by (auto simp: uniqueOk_def s' split: if_splits)
  ultimately have ok': "storeOk s'" by (simp add: storeOk_def)
  then have order': "orderOk s'" by (simp add: storeOk_def)
  have "memRows s' = adel i (memRows s)"
  proof (rule amap_ext)
    show "distinct_keys (memRows s')"
      using order' fst_memRows [of s'] by (simp add: distinct_keys_def orderOk_def)
    have "map fst (adel i (memRows s)) = filter (\<lambda>j. j \<noteq> i) (map fst (memRows s))"
      by (simp add: AList.delete_eq filter_map comp_def case_prod_unfold eq_commute)
    then show "map fst (memRows s') = map fst (adel i (memRows s))"
      using fst_memRows [OF order'] fst_memRows [OF parts(2)] s'(2) dist
      by (simp add: distinct_remove1_removeAll removeAll_filter_not_eq eq_commute)
    show "aget (memRows s') k = aget (adel i (memRows s)) k" for k
      by (simp add: aget_memRows order' parts(2) s')
  qed
  with ok' s' seq show ?thesis by (simp add: s'_def)
qed

end
