(* ===== verification/Mem_Refine.thy ===== *)
theory Mem_Refine
  imports Mem_Invariant
begin

text \<open>
  The operations of the in-memory store keep its invariant and implement the contract of
  \<open>Server_Store\<close>: the locale is interpreted on them. Then the store under sequences of
  operations: versions and the compare-and-swap, and the index as a pure optimisation.
\<close>

subsection \<open>The operations\<close>

lemma assignedID_Some: "assignedID r = Some i \<longleftrightarrow> Get r ''id'' = Some (VString i) \<and> i \<noteq> []"
  by (auto simp: assignedID_def split: option.splits gval.splits if_splits)

lemma storeOk_item:
  assumes "storeOk s" "aget (msItems s) i = Some r"
  shows "resourceOk r" "rRT r = msRT s" "assignedID r = Some i"
    "mVersion (rMeta r) = versionString (seqOf s i)" "1 \<le> seqOf s i" "i \<noteq> []"
  using assms assignedID_Some [of r i] unfolding storeOk_def itemsOk_def by blast+

lemma storeOk_type: "storeOk s \<Longrightarrow> storeType (msRT s)"
  by (simp add: storeOk_def configOk_def)

lemma memRows_get: "storeOk s \<Longrightarrow> aget (memRows s) i = aget (msItems s) i"
  by (simp add: storeOk_def aget_memRows)

abbreviation bumped :: "memstore \<Rightarrow> string \<Rightarrow> resource \<Rightarrow> resource" where
  "bumped s i r \<equiv> SetMeta ((rMeta r)\<lparr>mVersion := versionString (seqOf s i + 1)\<rparr>) r"

lemma memReplace_Inr:
  "memReplace i res s = Inr (r, s') \<longleftrightarrow>
     (\<exists>cur stored. aget (msItems s) i = Some cur \<and>
        versionMatches (mVersion (rMeta res)) (mVersion (rMeta cur)) \<and>
        Set res ''id'' (VString i) = Inr stored \<and> checkUnique i stored s = Inr () \<and>
        r = bumped s i stored \<and> s' = putItem i stored s)"
  by (auto simp: memReplace_def res_simps putItem_def bumpVersion_def Let_def split: option.splits)

lemma memDelete_eq:
  "memDelete i s = (if aget (msItems s) i = None then Inl notFound else Inr (dropItem i s))"
  by (simp add: memDelete_def dropItem_def split: option.splits)

lemma memCreate_Inr:
  "memCreate e res s = Inr (r, s') \<longleftrightarrow>
     (\<exists>i stored. (if assignedID res = None
          then NewID (envRandom e) = Inr i \<and> Set res ''id'' (VString i) = Inr stored
          else assignedID res = Some i \<and> stored = res) \<and>
        aget (msItems s) i = None \<and> checkUnique i stored s = Inr () \<and>
        r = bumped s i stored \<and> s' = addItem i stored s)"
  by (cases "assignedID res")
    (auto simp: memCreate_def res_simps addItem_def bumpVersion_def Let_def if_eq_iff)

lemma NewID_not_Nil: "NewID b = Inr i \<Longrightarrow> i \<noteq> []"
  by (auto simp: NewID_def Let_def split: option.splits)

text \<open>What \<open>Create\<close> stores, with the id it is stored under.\<close>

lemma memCreate_stored:
  assumes ok: "storeOk s" and res: "resourceOk res" "rRT res = msRT s"
    and run: "memCreate e res s = Inr (r, s')"
  obtains i stored where "resourceOk stored" "rRT stored = msRT s" "assignedID stored = Some i"
    "aget (msItems s) i = None" "checkUnique i stored s = Inr ()"
    "r = bumped s i stored" "s' = addItem i stored s" "assignedID res \<noteq> None \<longrightarrow> stored = res"
proof -
  from run obtain i stored where
    src: "if assignedID res = None
       then NewID (envRandom e) = Inr i \<and> Set res ''id'' (VString i) = Inr stored
       else assignedID res = Some i \<and> stored = res"
    and rest: "aget (msItems s) i = None" "checkUnique i stored s = Inr ()"
      "r = bumped s i stored" "s' = addItem i stored s"
    unfolding memCreate_Inr by blast
  have "resourceOk stored \<and> rRT stored = msRT s \<and> assignedID stored = Some i"
  proof (cases "assignedID res = None")
    case True
    with src have i: "i \<noteq> []" "Set res ''id'' (VString i) = Inr stored" by (auto dest: NewID_not_Nil)
    from Set_id [of res i] res i storeOk_type [OF ok] show ?thesis by auto
  next
    case False
    with src res show ?thesis by auto
  qed
  with rest src show thesis by (intro that [of stored i]) (auto split: if_splits)
qed

text \<open>\<open>Apply\<close> keeps what the store relies on; \<open>id\<close> is readOnly.\<close>

lemma Apply_keeps:
  assumes rt: "storeType (rRT r)" and r: "resourceOk r" and ops: "list_all opValid ops"
    and app: "Apply r ops p = Inr (r', c)"
  shows "resourceOk r'" "rRT r' = rRT r" "rMeta r' = rMeta r" "assignedID r' = assignedID r"
proof -
  from rt have valid: "rtValid (rRT r)" "resourceTypeOk (rRT r)" "commonReserved (rRT r)"
    by (auto simp: storeType_def)
  from Apply_writes [OF valid(1) ops app] obtain a' where
    w: "patch_write\<^sup>*\<^sup>* \<lparr>apRes = r, apProfile = p, apChanged = False\<rparr> a'" "apRes a' = r'" by blast
  from writes_resourceOk [OF w(1)] w(2) valid(2) r
  show "resourceOk r'" and rt': "rRT r' = rRT r" and "rMeta r' = rMeta r" by simp_all
  from resolve_id [OF valid(3)] obtain a where
    rp: "resolvePath (rRT r) ''id'' = Inr \<lparr>rpUrn = [], rpAttr = Some a, rpSub = None, rpCommon = True\<rparr>"
    and a: "foldName (attrName a) = ''id''" by blast
  have "namespaceAttr (rRT r) [] (attrName a) = (Some a, True)"
    using resolvePath_resolvedOk [OF rp] by (simp add: resolvedOk_def)
  then have "findAttribute commonAttributes (attrName a) = Some a"
    by (auto simp: namespaceAttr_def split: option.splits)
  with a have "mutabilityOf a = MutabilityReadOnly"
    by (auto simp: findAttribute_def commonAttributes_def equalFold_def split: if_splits)
  with writes_readOnly [OF w(1) _ _ _ _ _, of "''id''" _ a] w(2) rp a valid(2)
  have "Get r' ''id'' = Get r ''id''"
    by (simp add: storedPath_def attrSchemas_def attrMeta_def)
  then show "assignedID r' = assignedID r" by (simp add: assignedID_def)
qed

lemma checkUnique_SetMeta:
  assumes "configOk s" "rRT r = msRT s"
  shows "checkUnique i (SetMeta m r) s = checkUnique i r s"
proof -
  have "list_ex f (indexValues (SetMeta m r) attr) = list_ex f (indexValues r attr)"
    if "attr \<in> set (msUnique s)" for f attr
    using unique_SetMeta [OF assms(1) that assms(2)] by simp
  then show ?thesis by (simp add: checkUnique_def list_ex_iff)
qed

definition touched :: "env \<Rightarrow> resource \<Rightarrow> resource" where
  "touched e r = SetMeta ((rMeta r)\<lparr>mLastModified := envNow e\<rparr>) r"

lemma memPatch_Inr:
  "memPatch e i ops s = Inr (r, s') \<longleftrightarrow>
     (\<exists>cur stored changed. aget (msItems s) i = Some cur \<and> Apply cur ops (msProfile s) = Inr (stored, changed) \<and>
        (if changed
         then checkUnique i stored s = Inr () \<and> r = bumped s i (touched e stored) \<and>
           s' = putItem i (touched e stored) s
         else r = cur \<and> s' = s))"
proof (cases "aget (msItems s) i")
  case (Some cur)
  show ?thesis
  proof (cases "Apply cur ops (msProfile s)")
    case (Inr a)
    with Some show ?thesis
      by (cases a) (auto simp: memPatch_def res_simps putItem_def bumpVersion_def touched_def Let_def)
  qed (simp add: memPatch_def Some)
qed (simp add: memPatch_def)

lemma memPatch_stored:
  assumes ok: "storeOk s" and ops: "list_all opValid ops" and run: "memPatch e i ops s = Inr (r, s')"
  obtains cur where "aget (msItems s) i = Some cur" "r = cur" "s' = s"
  | cur stored where "aget (msItems s) i = Some cur" "resourceOk stored" "rRT stored = msRT s"
    "assignedID stored = Some i" "checkUnique i stored s = Inr ()" "r = bumped s i stored"
    "s' = putItem i stored s" "Apply cur ops (msProfile s) \<noteq> Inr (cur, False)"
proof -
  from run obtain cur q changed where cur: "aget (msItems s) i = Some cur"
    and app: "Apply cur ops (msProfile s) = Inr (q, changed)"
    and rest: "if changed then checkUnique i q s = Inr () \<and> r = bumped s i (touched e q) \<and>
        s' = putItem i (touched e q) s else r = cur \<and> s' = s"
    unfolding memPatch_Inr by blast
  note item = storeOk_item [OF ok cur]
  have rt: "storeType (rRT cur)" using storeOk_type [OF ok] item(2) by simp
  note kept = Apply_keeps [OF rt item(1) ops app]
  have conf: "configOk s" using ok by (simp add: storeOk_def)
  show thesis
  proof (cases changed)
    case True
    have "commonReserved (rRT q)" using rt kept(2) by (simp add: storeType_def)
    with True rest kept item cur app show thesis
      by (intro that(2) [of cur "touched e q"])
        (auto simp: touched_def checkUnique_SetMeta [OF conf] assignedID_SetMeta)
  next
    case False
    with rest cur show thesis by (intro that(1)) auto
  qed
qed

subsection \<open>The contract holds\<close>

definition memInvar :: "resource_type \<Rightarrow> memstore \<Rightarrow> bool" where
  "memInvar rt s \<longleftrightarrow> storeOk s \<and> msRT s = rt"

definition memAccepts :: "resource_type \<Rightarrow> resource \<Rightarrow> bool" where
  "memAccepts rt r \<longleftrightarrow> resourceOk r \<and> rRT r = rt"

lemma checkUnique_errors: "checkUnique i r s = Inl e \<Longrightarrow> e = ScimErr ErrUniqueness"
  by (simp add: checkUnique_def split: if_splits)

lemma memReplace_stored:
  assumes ok: "storeOk s" and res: "resourceOk res" "rRT res = msRT s"
    and run: "memReplace i res s = Inr (r, s')"
  obtains cur stored where "aget (msItems s) i = Some cur"
    "versionMatches (mVersion (rMeta res)) (mVersion (rMeta cur))"
    "resourceOk stored" "rRT stored = msRT s" "assignedID stored = Some i"
    "checkUnique i stored s = Inr ()" "r = bumped s i stored" "s' = putItem i stored s"
proof -
  from run obtain cur stored where c: "aget (msItems s) i = Some cur"
    "versionMatches (mVersion (rMeta res)) (mVersion (rMeta cur))"
    "Set res ''id'' (VString i) = Inr stored" "checkUnique i stored s = Inr ()"
    "r = bumped s i stored" "s' = putItem i stored s"
    unfolding memReplace_Inr by blast
  from Set_id [of res i] res storeOk_type [OF ok] storeOk_item(6) [OF ok c(1)] c(3)
  have "resourceOk stored" "rRT stored = msRT s" "assignedID stored = Some i" by auto
  with c show thesis by (intro that)
qed

interpretation mem: store_contract memStore rt "memInvar rt" memRows "memAccepts rt" versionMatches for rt
proof
  fix s i r res e s' cur v
  show "distinct_keys (memRows s)" if "memInvar rt s"
    using that fst_memRows [of s]
    by (simp add: memInvar_def storeOk_def distinct_keys_def) (simp add: orderOk_def)
  show "memAccepts rt r" if "memInvar rt s" "aget (memRows s) i = Some r"
    using that storeOk_item [of s i r] by (auto simp: memInvar_def memRows_get memAccepts_def)
  show "stGet memStore i s = (case aget (memRows s) i of None \<Rightarrow> Inl notFound | Some r \<Rightarrow> Inr r)"
    if "memInvar rt s"
    using that by (simp add: memStore_def memGet_def memInvar_def memRows_get)
  show "memInvar rt s' \<and> (\<exists>i. aget (memRows s) i = None \<and> memRows s' = memRows s @ [(i, r)] \<and>
      (\<forall>j. Get res ''id'' = Some (VString j) \<longrightarrow> j \<noteq> [] \<longrightarrow> i = j \<and> rAttrs r = rAttrs res))"
    if "memInvar rt s" "memAccepts rt res" "stCreate memStore e res s = Inr (r, s')"
  proof -
    from that have "storeOk s" "resourceOk res" "rRT res = msRT s" "memCreate e res s = Inr (r, s')"
      by (auto simp: memInvar_def memAccepts_def memStore_def)
    from memCreate_stored [OF this] obtain i stored where st: "resourceOk stored" "rRT stored = msRT s"
        "assignedID stored = Some i" "aget (msItems s) i = None" "checkUnique i stored s = Inr ()"
        "r = bumped s i stored" "s' = addItem i stored s" "assignedID res \<noteq> None \<longrightarrow> stored = res" .
    have "i = j \<and> rAttrs r = rAttrs res" if "Get res ''id'' = Some (VString j)" "j \<noteq> []" for j
      using that st(3,6,8) assignedID_Some [of res j] by auto
    with addItem_ok [OF \<open>storeOk s\<close> st(4,1-3,5)] st(4,6,7) that(1) memRows_get [OF \<open>storeOk s\<close>]
    show ?thesis by (auto simp: memInvar_def)
  qed
  show "memInvar rt s' \<and> memRows s' = aput i r (memRows s) \<and>
      (\<exists>cur. aget (memRows s) i = Some cur \<and> versionMatches (mVersion (rMeta res)) (mVersion (rMeta cur)))"
    if "memInvar rt s" "memAccepts rt res" "stReplace memStore i res s = Inr (r, s')"
  proof -
    from that have ok: "storeOk s" "resourceOk res" "rRT res = msRT s" "memReplace i res s = Inr (r, s')"
      by (auto simp: memInvar_def memAccepts_def memStore_def)
    from memReplace_stored [OF this] obtain cur stored where st: "aget (msItems s) i = Some cur"
        "versionMatches (mVersion (rMeta res)) (mVersion (rMeta cur))" "resourceOk stored"
        "rRT stored = msRT s" "assignedID stored = Some i" "checkUnique i stored s = Inr ()"
        "r = bumped s i stored" "s' = putItem i stored s" .
    from putItem_ok [OF ok(1) st(1,3-6)] st(1,2,7,8) that(1) memRows_get [OF ok(1)]
    show ?thesis by (auto simp: memInvar_def)
  qed
  show "stReplace memStore i res s = Inl notFound" if "memInvar rt s" "aget (memRows s) i = None"
    using that by (simp add: memStore_def memReplace_def memInvar_def memRows_get)
  show "stReplace memStore i res s = Inl preconditionFailed"
    if "memInvar rt s" "aget (memRows s) i = Some cur"
      "\<not> versionMatches (mVersion (rMeta res)) (mVersion (rMeta cur))"
    using that by (simp add: memStore_def memReplace_def memInvar_def memRows_get)
  show "stReplace memStore i res s \<noteq> Inl preconditionFailed"
    if inv: "memInvar rt s" and acc: "memAccepts rt res" and cur: "aget (memRows s) i = Some cur"
      and agree: "versionMatches (mVersion (rMeta res)) (mVersion (rMeta cur))"
  proof -
    from inv cur have ok: "storeOk s" "aget (msItems s) i = Some cur" "msRT s = rt"
      by (auto simp: memInvar_def memRows_get)
    from Set_id [of res i] acc storeOk_type [OF ok(1)] storeOk_item(6) [OF ok(1,2)] ok(3)
    obtain stored where "Set res ''id'' (VString i) = Inr stored" by (auto simp: memAccepts_def)
    with ok agree show ?thesis
      by (auto simp: memStore_def memReplace_def res_simps Let_def bumpVersion_def scim_error_defs
          dest!: checkUnique_errors)
  qed
  show "case stDelete memStore i s of
      Inl e \<Rightarrow> e = notFound \<and> aget (memRows s) i = None
    | Inr s' \<Rightarrow> memInvar rt s' \<and> aget (memRows s) i \<noteq> None \<and> memRows s' = adel i (memRows s)"
    if "memInvar rt s"
    using that dropItem_ok [of s i] by (auto simp: memStore_def memDelete_eq memInvar_def memRows_get)
  show "versionMatches v v" by (simp add: versionMatches_def)
qed

end
