(* ===== verification/Mem_Runs.thy ===== *)
theory Mem_Runs
  imports Mem_Refine
begin

text \<open>
  The in-memory store over time and as a query engine. The methods run under the store's
  lock, so any interleaving of concurrent callers is a sequence of operations: \<open>storeDo\<close> is
  one of them, a failing one leaving the state. Versions along a run, the compare-and-swap
  of \<open>Replace\<close>, and \<open>List\<close>: the index is an optimisation of the full scan, and pages cut
  the sorted selection.
\<close>

subsection \<open>Runs\<close>

datatype store_op =
    OpCreate env resource
  | OpReplace string resource
  | OpPatch env string "patch_op list"
  | OpDelete string

definition after :: "'s \<Rightarrow> (go_error, resource \<times> 's) res \<Rightarrow> 's" where
  "after s r = (case r of Inl _ \<Rightarrow> s | Inr (_, s') \<Rightarrow> s')"

fun storeDo :: "store_op \<Rightarrow> memstore \<Rightarrow> memstore" where
  "storeDo (OpCreate e res) s = after s (memCreate e res s)"
| "storeDo (OpReplace i res) s = after s (memReplace i res s)"
| "storeDo (OpPatch e i ops) s = after s (memPatch e i ops s)"
| "storeDo (OpDelete i) s = (case memDelete i s of Inl _ \<Rightarrow> s | Inr s' \<Rightarrow> s')"

text \<open>What the server hands to a store: well-formed resources of the store's type, and
  operations \<open>Decode\<close> returned.\<close>

fun opAccepted :: "resource_type \<Rightarrow> store_op \<Rightarrow> bool" where
  "opAccepted rt (OpCreate e res) = memAccepts rt res"
| "opAccepted rt (OpReplace i res) = memAccepts rt res"
| "opAccepted rt (OpPatch e i ops) = list_all opValid ops"
| "opAccepted rt (OpDelete i) = True"

inductive reachable :: "resource_type \<Rightarrow> memstore \<Rightarrow> bool" for rt where
  start: "\<forall>f \<in> set opts. (\<exists>p. f = WithProfile p) \<or> (\<exists>attr. f = WithIndex attr) \<Longrightarrow>
    reachable rt (NewStore rt opts)"
| step: "reachable rt s \<Longrightarrow> opAccepted rt op \<Longrightarrow> reachable rt (storeDo op s)"

text \<open>One operation and one id: the stored resource stays, or the version counter grows.\<close>

definition advances :: "string \<Rightarrow> memstore \<Rightarrow> memstore \<Rightarrow> bool" where
  "advances i s s' \<longleftrightarrow>
     aget (msItems s') i = aget (msItems s) i \<and> seqOf s' i = seqOf s i \<or>
     (\<exists>r. aget (msItems s') i = Some r) \<and> seqOf s i < seqOf s' i"

lemma advances_refl [simp]: "advances i s s"
  by (simp add: advances_def)

lemma memRows_frame:
  assumes "storeOk s" "storeOk s'" "aget (memRows s') j = aget (memRows s) j"
  shows "aget (msItems s') j = aget (msItems s) j"
  using assms by (simp add: memRows_get)

lemma putItem_advances:
  assumes ok: "storeOk s" and cur: "aget (msItems s) i = Some cur"
    and r: "resourceOk r" "rRT r = msRT s" "assignedID r = Some i" "checkUnique i r s = Inr ()"
  shows "advances j s (putItem i r s)"
proof -
  from putItem_ok [OF ok cur r] have ok': "storeOk (putItem i r s)"
    and rows: "memRows (putItem i r s) = aput i (bumped s i r) (memRows s)"
    and seq: "seqOf (putItem i r s) j = (if j = i then seqOf s i + 1 else seqOf s j)" by auto
  have "aget (msItems (putItem i r s)) j = (if j = i then Some (bumped s i r) else aget (msItems s) j)"
    using memRows_get [OF ok', of j] memRows_get [OF ok, of j] by (simp add: rows split: if_splits)
  with seq show ?thesis by (simp add: advances_def)
qed

lemma addItem_advances:
  assumes ok: "storeOk s" and new: "aget (msItems s) i = None"
    and r: "resourceOk r" "rRT r = msRT s" "assignedID r = Some i" "checkUnique i r s = Inr ()"
  shows "advances j s (addItem i r s)"
proof -
  from addItem_ok [OF ok new r] have ok': "storeOk (addItem i r s)"
    and rows: "memRows (addItem i r s) = memRows s @ [(i, bumped s i r)]"
    and seq: "seqOf (addItem i r s) j = (if j = i then seqOf s i + 1 else seqOf s j)" by auto
  have "aget (msItems (addItem i r s)) j = (if j = i then Some (bumped s i r) else aget (msItems s) j)"
    using memRows_get [OF ok', of j] memRows_get [OF ok, of j] new
    by (cases "j = i") (simp_all add: rows map_add_def split: option.splits)
  with seq show ?thesis by (simp add: advances_def)
qed

lemma dropItem_advances:
  assumes ok: "storeOk s" and cur: "aget (msItems s) i = Some cur" and "j \<noteq> i"
  shows "advances j s (dropItem i s)"
proof -
  from dropItem_ok [OF ok cur] have ok': "storeOk (dropItem i s)"
    and rows: "memRows (dropItem i s) = adel i (memRows s)"
    and seq: "seqOf (dropItem i s) j = (if j = i then 0 else seqOf s j)" by auto
  have "aget (msItems (dropItem i s)) j = aget (msItems s) j"
    using memRows_get [OF ok', of j] memRows_get [OF ok, of j] assms(3) by (simp add: rows)
  with seq assms(3) show ?thesis by (simp add: advances_def)
qed

lemma storeDo_step:
  assumes ok: "storeOk s" and op: "opAccepted (msRT s) op"
  shows "storeOk (storeDo op s) \<and> msRT (storeDo op s) = msRT s \<and>
    (op \<noteq> OpDelete j \<longrightarrow> advances j s (storeDo op s))"
proof (cases op)
  case (OpCreate e res)
  show ?thesis
  proof (cases "memCreate e res s")
    case (Inr a)
    then obtain r s' where run: "memCreate e res s = Inr (r, s')" by (cases a) auto
    from op OpCreate have acc: "resourceOk res" "rRT res = msRT s" by (simp_all add: memAccepts_def)
    from memCreate_stored [OF ok acc run] obtain i stored where st: "resourceOk stored"
      "rRT stored = msRT s" "assignedID stored = Some i" "aget (msItems s) i = None"
      "checkUnique i stored s = Inr ()" "s' = addItem i stored s" by metis
    with addItem_ok [OF ok st(4,1-3,5)] addItem_advances [OF ok st(4,1-3,5)] run OpCreate
    show ?thesis by (simp add: after_def)
  qed (use ok OpCreate in \<open>simp add: after_def\<close>)
next
  case (OpReplace i res)
  show ?thesis
  proof (cases "memReplace i res s")
    case (Inr a)
    then obtain r s' where run: "memReplace i res s = Inr (r, s')" by (cases a) auto
    from op OpReplace have acc: "resourceOk res" "rRT res = msRT s" by (simp_all add: memAccepts_def)
    from memReplace_stored [OF ok acc run] obtain cur stored where st: "aget (msItems s) i = Some cur"
      "resourceOk stored" "rRT stored = msRT s" "assignedID stored = Some i"
      "checkUnique i stored s = Inr ()" "s' = putItem i stored s" by metis
    with putItem_ok [OF ok st(1-5)] putItem_advances [OF ok st(1-5)] run OpReplace
    show ?thesis by (simp add: after_def)
  qed (use ok OpReplace in \<open>simp add: after_def\<close>)
next
  case (OpPatch e i ops)
  show ?thesis
  proof (cases "memPatch e i ops s")
    case (Inr a)
    then obtain r s' where run: "memPatch e i ops s = Inr (r, s')" by (cases a) auto
    from op OpPatch have "list_all opValid ops" by simp
    from memPatch_stored [OF ok this run] show ?thesis
    proof cases
      case 1
      with ok run OpPatch show ?thesis by (simp add: after_def)
    next
      case (2 cur stored)
      with putItem_ok [OF ok 2(1-5)] putItem_advances [OF ok 2(1-5)] run OpPatch
      show ?thesis by (simp add: after_def)
    qed
  qed (use ok OpPatch in \<open>simp add: after_def\<close>)
next
  case (OpDelete i)
  show ?thesis
  proof (cases "aget (msItems s) i")
    case None
    with ok OpDelete show ?thesis by (simp add: memDelete_eq)
  next
    case (Some cur)
    with dropItem_ok [OF ok Some] dropItem_advances [OF ok Some, of j] OpDelete
    show ?thesis by (auto simp: memDelete_eq)
  qed
qed

lemma reachable_ok: "reachable rt s \<Longrightarrow> storeType rt \<Longrightarrow> storeOk s \<and> msRT s = rt"
proof (induction rule: reachable.induct)
  case (start opts)
  with NewStore_ok [of rt opts] show ?case by blast
next
  case (step s op)
  with storeDo_step [of s op] show ?case by simp
qed

definition storeRun :: "store_op list \<Rightarrow> memstore \<Rightarrow> memstore" where
  "storeRun ops s = fold storeDo ops s"

lemma storeRun_ok:
  assumes "storeOk s" "list_all (opAccepted (msRT s)) ops"
  shows "storeOk (storeRun ops s) \<and> msRT (storeRun ops s) = msRT s"
  using assms
proof (induction ops arbitrary: s)
  case (Cons op ops)
  with storeDo_step [of s op] show ?case by (simp add: storeRun_def)
qed (simp add: storeRun_def)

lemma storeRun_advances:
  assumes "storeOk s" "list_all (opAccepted (msRT s)) ops" "OpDelete i \<notin> set ops"
  shows "advances i s (storeRun ops s)"
  using assms
proof (induction ops arbitrary: s)
  case (Cons op ops)
  have one: "storeOk (storeDo op s)" "msRT (storeDo op s) = msRT s" "advances i s (storeDo op s)"
    using storeDo_step [of s op i] Cons.prems by auto
  have "advances i (storeDo op s) (storeRun ops (storeDo op s))"
    by (rule Cons.IH) (use one Cons.prems in auto)
  with one(3) show ?case by (auto simp: storeRun_def advances_def)
qed (simp add: storeRun_def)

text \<open>The version read is a witness of the resource read, as long as the id is not deleted.\<close>

lemma same_version_same_resource:
  assumes ok: "storeOk s" "list_all (opAccepted (msRT s)) ops" "OpDelete i \<notin> set ops"
    and read: "aget (msItems s) i = Some cur" and now: "aget (msItems (storeRun ops s)) i = Some cur'"
    and agree: "versionMatches (mVersion (rMeta cur)) (mVersion (rMeta cur'))"
  shows "cur' = cur"
proof -
  have ok': "storeOk (storeRun ops s)" using storeRun_ok [OF ok(1,2)] by simp
  from agree have "seqOf s i = seqOf (storeRun ops s) i"
    by (simp add: storeOk_item(4) [OF ok(1) read] storeOk_item(4) [OF ok' now] versionMatches_string)
  with storeRun_advances [OF ok] read now show ?thesis by (auto simp: advances_def)
qed

subsection \<open>The index\<close>

text \<open>Attributes whose values the index holds: for all resources of the type their value is a
  string or a list of strings, once it is for one.\<close>

lemma string_attribute:
  assumes rt: "storeType rt" and r0: "resourceOk r0" "rRT r0 = rt" "indexValues r0 attr \<noteq> []"
    and rp: "resolvePath rt attr = Inr rp" "rpSub rp = None"
    and r: "resourceOk r" "rRT r = rt" "Get r attr = Some v"
  shows "(\<exists>t. v = VString t) \<or> (\<exists>ts. v = VStrings ts)"
proof -
  from rt have ok: "resourceTypeOk rt" by (simp add: storeType_def)
  from r0(3) obtain w where w: "Get r0 attr = Some w" "(\<exists>t. w = VString t) \<or> (\<exists>ts. w = VStrings ts)"
    by (auto simp: indexValues_def split: option.splits gval.splits)
  have get: "Get q attr = getResolved q rp" if "rRT q = rt" for q using rp that by (simp add: Get_def)
  show ?thesis
  proof (cases "rpAttr rp")
    case None
    with w get [OF r0(2)] show ?thesis by (auto simp: getResolved_def)
  next
    case (Some a)
    show ?thesis
    proof (cases "storedPath rp")
      case True
      from Get_stored [of r0 attr rp a w] Get_stored [of r attr rp a v] ok r0 r rp Some True w(1)
      have "storedValue a w" "storedValue a v" by auto
      with w(2) show ?thesis
        by (cases v)
          (auto simp: storedValue_def stored_defs isStoredScalar_def split: if_splits)
    next
      case False
      with Some get [OF r0(2)] get [OF r(2)] w r(3) rp(2) show ?thesis
        by (auto simp: storedPath_def getResolved_def getCommon_def subValue_def Let_def
            split: if_splits list.splits)
    qed
  qed
qed

text \<open>A resource an \<open>eq\<close> on the attribute holds of is in the bucket of the literal.\<close>

lemma eq_string_indexed:
  assumes rt: "storeType rt" and r: "resourceOk r" "rRT r = rt"
    and r0: "resourceOk r0" "rRT r0 = rt" "indexValues r0 (foldName (pathAttr p)) \<noteq> []"
    and p: "pathURN p = []" "pathSub p = []"
    and match: "evalExpr r (Compare p OpEqual (LString want))"
  shows "foldName want \<in> set (indexValues r (foldName (pathAttr p)))"
proof -
  from match r(2) p obtain a where res: "resolveFilter rt p = Some (a, None)"
    and ex: "list_ex (\<lambda>got. compareValue a got OpEqual (LString want)) (candidates r (a, None) p)"
    by (auto simp: evalCompare_def filterTarget_def resolveFilter_def split: option.splits if_splits)
  have path: "fullPathText p = pathAttr p" by (simp add: fullPathText_def attrPathText_def p)
  from res p have "pathlessTarget rt (pathAttr p) = Some a"
    by (auto simp: resolveFilter_def filterNamespace_def pathlessTarget_def split: option.splits if_splits)
  from pathless_key_resolves [OF _ this] rt obtain rp where
    rp: "resolvePath rt (pathAttr p) = Inr rp" "rpSub rp = None"
    by (auto simp: storeType_def rtValid_def)
  have fold: "Get q (foldName (pathAttr p)) = Get q (pathAttr p)" for q
    by (rule Get_fold_cong) simp
  from ex obtain v where v: "Get r (pathAttr p) = Some v"
    and got: "list_ex (\<lambda>got. compareValue a got OpEqual (LString want))
      (if multiValued a then multiCandidates v else [v])"
    by (cases "Get r (pathAttr p)") (auto simp: candidates_def existentialSub_def path compareValue_def)
  from string_attribute [OF rt r0(1,2) _ rp r v] r0(3)
  have "(\<exists>t. v = VString t) \<or> (\<exists>ts. v = VStrings ts)" by (simp add: indexValues_def fold)
  moreover have eq: "foldName want = foldName t" if "compareValue a (VString t) OpEqual (LString want)" for t
    using that
    by (auto simp: compareValue_def compareStringForm_def compareOrdered_def compareBool_def compareNumber_def
        compareDateTime_def compareBinary_def split: attr_type.splits if_splits)
  moreover have "\<not> compareValue a (VStrings ts) OpEqual (LString want)" for ts
    by (auto simp: compareValue_def compareStringForm_def compareBool_def compareNumber_def
        compareDateTime_def compareBinary_def split: attr_type.splits)
  ultimately show ?thesis using got v
    by (auto simp: indexValues_def fold multiCandidates_def list_ex_iff split: if_splits)
qed

text \<open>The resources in insertion order, and a bucket of them.\<close>

abbreviation memAll :: "memstore \<Rightarrow> resource list" where
  "memAll s \<equiv> map snd (memRows s)"

lemma map_filter_items: "List.map_filter (aget m) xs = map snd (List.map_filter (\<lambda>i. map_option (Pair i) (aget m i)) xs)"
proof (induction xs)
  case (Cons x xs)
  then show ?case by (cases "aget m x") (simp_all add: List.map_filter_simps)
qed (simp add: List.map_filter_simps)

lemma candidates_scan: "indexLookup f s = None \<Longrightarrow> candidateSet f s = memAll s"
  by (simp add: candidateSet_def memRows_def map_filter_items)

lemma candidates_bucket:
  assumes ok: "storeOk s" and look: "indexLookup f s = Some ids" and dist: "distinct ids"
  shows "candidateSet f s = map snd (filter (\<lambda>kv. fst kv \<in> set ids) (memRows s))"
proof -
  from ok have ord: "orderOk s" by (simp add: storeOk_def)
  define ys where "ys = filter (\<lambda>i. i \<in> set ids) (msOrder s)"
  have "sort_key (rankOf s) (filter (\<lambda>i. aget (msItems s) i \<noteq> None) ids) = ys"
  proof (rule sort_key_inj_key_eq)
    have "set (filter (\<lambda>i. aget (msItems s) i \<noteq> None) ids) = set ys"
      using ord by (auto simp: ys_def orderOk_def)
    moreover have "distinct ys" using ord by (simp add: ys_def orderOk_def)
    ultimately show eq: "mset (filter (\<lambda>i. aget (msItems s) i \<noteq> None) ids) = mset ys"
      using dist set_eq_iff_mset_eq_distinct [of "filter (\<lambda>i. aget (msItems s) i \<noteq> None) ids" ys]
      by (simp del: set_filter mset_filter)
    have sorted: "sorted_wrt (\<lambda>i j. rankOf s i < rankOf s j) ys"
      unfolding ys_def using ord by (intro sorted_wrt_filter) (simp add: orderOk_def)
    then have "sorted_wrt (\<lambda>i j. i < j) (map (rankOf s) ys)" by (simp add: sorted_wrt_map)
    then show "sorted (map (rankOf s) ys)" by (simp add: strict_sorted_iff)
    have "distinct (map (rankOf s) ys)"
      using \<open>sorted_wrt (\<lambda>i j. i < j) (map (rankOf s) ys)\<close> strict_sorted_iff by blast
    then show "inj_on (rankOf s) (set (filter (\<lambda>i. aget (msItems s) i \<noteq> None) ids))"
      using mset_eq_setD [OF eq] by (simp add: distinct_map)
  qed
  moreover have "List.map_filter (\<lambda>i. map_option (Pair i) (m i)) (filter P xs) =
      filter (\<lambda>kv. P (fst kv)) (List.map_filter (\<lambda>i. map_option (Pair i) (m i)) xs)"
    for P xs and m :: "string \<Rightarrow> resource option"
  proof (induction xs)
    case (Cons x xs)
    then show ?case by (cases "m x") (simp_all add: List.map_filter_simps)
  qed (simp add: List.map_filter_simps)
  ultimately show ?thesis
    by (simp add: candidateSet_def look map_filter_items memRows_def ys_def)
qed

lemma index_is_scan:
  assumes ok: "storeOk s"
  shows "matchCandidates f s = matchAll f (memAll s)"
proof (cases "indexLookup f s")
  case None
  then show ?thesis by (simp add: matchCandidates_def candidates_scan)
next
  case (Some ids)
  then obtain p want m where f: "f = Some (Compare p OpEqual (LString want))"
    and p: "pathURN p = []" "pathSub p = []" and m: "aget (msIndex s) (foldName (pathAttr p)) = Some m"
    and ids: "ids = bucketOf (msIndex s) (foldName (pathAttr p)) (foldName want)"
    by (auto simp: indexLookup_def bucketOf_def indexOf_def
        split: option.splits expr.splits op.splits literal.splits if_splits)
  define attr where "attr = foldName (pathAttr p)"
  from ok have ix: "indexOk s" by (simp add: storeOk_def)
  then have dist: "distinct ids" by (simp add: ids indexOk_def)
  from ix m obtain r0 where r0: "resourceOk r0" "rRT r0 = msRT s" "indexValues r0 attr \<noteq> []"
    and indexed: "attr \<in> set (indexedAttrs s)"
    by (auto simp: indexOk_def attr_def)
  have valid: "validateExpr rt (Compare p OpEqual (LString want)) None" for rt
    by (simp add: validateCompare_def ordering_def)
  have bucket: "i \<in> set ids" if row: "(i, r) \<in> set (memRows s)"
    and match: "evalExpr r (Compare p OpEqual (LString want))" for i r
  proof -
    have "aget (memRows s) i = Some r"
      using row mem.rows_distinct [of "msRT s" s] ok by (simp add: aget_set_iff memInvar_def)
    then have item: "aget (msItems s) i = Some r" by (simp add: memRows_get ok)
    from eq_string_indexed [OF storeOk_type [OF ok] storeOk_item(1,2) [OF ok item] r0(1,2) _ p match] r0(3)
    have "foldName want \<in> set (indexValues r attr)" by (simp add: attr_def)
    with ix indexed item show ?thesis unfolding ids attr_def [symmetric] by (auto simp: indexOk_def)
  qed
  have "filter (\<lambda>r. evalExpr r (Compare p OpEqual (LString want)))
      (map snd (filter (\<lambda>kv. fst kv \<in> set ids) (memRows s))) =
    filter (\<lambda>r. evalExpr r (Compare p OpEqual (LString want))) (memAll s)"
    using bucket by (auto simp: filter_map comp_def intro!: arg_cong [where f = "map snd"] filter_cong)
  with valid candidates_bucket [OF ok Some dist] show ?thesis
    by (simp add: matchCandidates_def f matchAll_valid del: evalExpr.simps validateExpr.simps)
qed

subsection \<open>Lists\<close>

text \<open>A page is a window of the list, unless the end of the window overflows.\<close>

lemma memPaginate_window:
  assumes "inInt64 (int (length xs))" "n \<le> 0 \<or> int (length xs) + n < 2 ^ 63"
  shows "memPaginate xs start n = Some (take (nat n) (drop (nat (start - 1)) xs))"
proof (cases "n \<le> 0")
  case False
  define i where "i = nat (start - 1)"
  have start: "(if start < 1 then 1 else start) - 1 = int i" by (simp add: i_def)
  show ?thesis
  proof (cases "length xs \<le> i")
    case True
    with False start show ?thesis by (simp add: memPaginate_def Let_def i_def [symmetric])
  next
    case inside: False
    with False assms have "addInt (int i) n = int i + n"
      by (intro addInt_exact) (simp add: inInt64_def)
    moreover define e where "e = min (int i + n) (int (length xs))"
    have "take (nat (e - int i)) (drop i xs) = take (nat n) (drop i xs)"
      using False inside by (auto simp: e_def min_def)
    ultimately show ?thesis
      using False inside start
      by (simp add: memPaginate_def Let_def sliceExpr_def e_def [symmetric] i_def [symmetric])
        (simp add: e_def)
  qed
qed (simp add: memPaginate_def)

lemma windows_cover: "concat (map (\<lambda>k. take n (drop (k * n) xs)) [0..<m]) = take (m * n) xs"
proof (induction m)
  case (Suc m)
  have "take (m * n + n) xs = take (m * n) xs @ take n (drop (m * n) xs)" by (rule take_add)
  with Suc show ?case by (simp add: add.commute [of n])
qed simp

text \<open>\<open>List\<close> is: select in insertion order, sort, cut the window.\<close>

lemma memList_spec:
  assumes ok: "storeOk s"
    and size: "int (length (memRows s)) < 2 ^ 63" "qCount q \<le> 0 \<or> int (length (memRows s)) + qCount q < 2 ^ 63"
  shows "memList q s =
    rbind (matchAll (qFilter q) (memAll s)) (\<lambda>matched.
      Inr \<lparr>pgResources = take (nat (qCount q)) (drop (nat (qStartIndex q - 1))
             (SortResources matched (msRT s) (qSortBy q) (qAscending q))),
           pgTotalResults = int (length matched)\<rparr>)"
proof (cases "matchAll (qFilter q) (memAll s)")
  case (Inr matched)
  then have "length matched \<le> length (memRows s)"
    using matchAll_Inr [of _ "memAll s" matched] length_filter_le [of _ "memAll s"]
    by (cases "qFilter q") auto
  with size have "qCount q \<le> 0 \<or> int (length matched) + qCount q < 2 ^ 63" "int (length matched) < 2 ^ 63"
    by auto
  with memPaginate_window [of "SortResources matched (msRT s) (qSortBy q) (qAscending q)" "qCount q"]
  show ?thesis
    by (simp add: memList_def index_is_scan [OF ok] Inr Let_def inInt64_def)
qed (simp add: memList_def index_is_scan [OF ok])

end
