(* ===== verification/Handler_Laws.thy ===== *)
theory Handler_Laws
  imports Server_Router Mem_Runs
begin

text \<open>
  The handlers on a store other writers share. The locale \<open>shared_store\<close> adds to the contract
  of a store what its versions promise: as long as the other writers do not delete the
  resource, an equal version means the resource read. A PUT or a PATCH then takes effect at
  one moment, on the resource it was computed from. The in-memory store is an instance, the
  other writers being any sequence of its operations.
\<close>

subsection \<open>Writes under other writers\<close>

lemma commit_Inr: "commit f s = (Inr a, s') \<longleftrightarrow> f s = Inr (a, s')"
  by (auto simp: commit_def split: sum.splits)

lemma commit_Inl: "commit f s = (Inl e, s') \<longleftrightarrow> f s = Inl e \<and> s' = s"
  by (auto simp: commit_def split: sum.splits)

text \<open>One attempt of the loop.\<close>

lemma patchLoop_failed:
  "rbind (stGet (thStore h) (rqID rq) s) (patchOnce h digest rq ops (n = 0)) = Inl e \<Longrightarrow>
     patchLoop h digest now others rq ops n s = (Inl e, s)"
  by (simp add: patchLoop.simps [of _ _ _ _ _ _ n])

lemma patchLoop_unchanged:
  "rbind (stGet (thStore h) (rqID rq) s) (patchOnce h digest rq ops (n = 0)) = Inr (q, False) \<Longrightarrow>
     patchLoop h digest now others rq ops n s = (Inr q, s)"
  by (simp add: patchLoop.simps [of _ _ _ _ _ _ n])

lemma patchLoop_changed:
  "rbind (stGet (thStore h) (rqID rq) s) (patchOnce h digest rq ops (n = 0)) = Inr (q, True) \<Longrightarrow>
     patchLoop h digest now others rq ops n s =
       (case stReplace (thStore h) (rqID rq) (SetMeta ((rMeta q)\<lparr>mLastModified := now n\<rparr>) q) (others n s) of
          Inr (r, s') \<Rightarrow> (Inr r, s')
        | Inl e \<Rightarrow>
            if staleError e \<and> n + 1 < patchRetries
            then patchLoop h digest now others rq ops (n + 1) (others n s)
            else (Inl e, others n s))"
  by (auto simp: patchLoop.simps [of _ _ _ _ _ _ n] Let_def split: sum.splits)

locale shared_store = store_contract +
  fixes writers :: "string \<Rightarrow> ('a \<Rightarrow> 'a) \<Rightarrow> bool"
  assumes accepts_def: "accepts r \<longleftrightarrow> resourceOk r \<and> rRT r = rt"
    and writers_invar: "writers i w \<Longrightarrow> invar s \<Longrightarrow> invar (w s)"
    and version_witness: "writers i w \<Longrightarrow> invar s \<Longrightarrow> aget (rows s) i = Some cur \<Longrightarrow>
      aget (rows (w s)) i = Some cur' \<Longrightarrow>
      agrees (mVersion (rMeta cur)) (mVersion (rMeta cur')) \<Longrightarrow> cur' = cur"
begin

text \<open>The compare-and-swap succeeds only on the resource the version was read from.\<close>

lemma cas:
  assumes inv: "invar s" and w: "writers i w" and read: "stGet st i s = Inr cur"
    and res: "accepts res" "mVersion (rMeta res) = mVersion (rMeta cur)"
    and run: "stReplace st i res (w s) = Inr (r, s')"
  shows "invar (w s) \<and> stGet st i (w s) = Inr cur \<and> invar s' \<and> rows s' = aput i r (rows (w s))"
proof -
  have inv': "invar (w s)" using writers_invar [OF w inv] .
  from replace_row [OF inv' res(1) run] obtain cur' where
    r: "invar s'" "rows s' = aput i r (rows (w s))" "aget (rows (w s)) i = Some cur'"
      "agrees (mVersion (rMeta res)) (mVersion (rMeta cur'))" by blast
  from read have "aget (rows s) i = Some cur" by (simp add: get_row [OF inv] split: option.splits)
  from version_witness [OF w inv this r(3)] r(4) res(2) have "cur' = cur" by simp
  with r inv' show ?thesis by (simp add: get_row)
qed

lemma apply_accepted:
  assumes "putType rt" "accepts r" "list_all opValid ops" "Apply r ops p = Inr (r', c)"
  shows "accepts r' \<and> rMeta r' = rMeta r"
  using Apply_keeps [OF _ _ assms(3,4)] assms(1,2)
  by (simp add: accepts_def putType_def storeType_def)

text \<open>One attempt of a PATCH, as an atomic step.\<close>

definition atomicPatch ::
    "'a typeHandler \<Rightarrow> gotime \<Rightarrow> string \<Rightarrow> patch_op list \<Rightarrow> 'a \<Rightarrow> resource \<Rightarrow> 'a \<Rightarrow> bool" where
  "atomicPatch h now i ops s r s' \<longleftrightarrow>
     invar s \<and>
     (\<exists>cur q changed. stGet st i s = Inr cur \<and>
        Apply cur ops (cfgProfile (thConfig h)) = Inr (q, changed) \<and>
        (if changed
         then validateResource q rt (strictMode (thConfig h)) = Inr () \<and>
              stReplace st i (SetMeta ((rMeta q)\<lparr>mLastModified := now\<rparr>) q) s = Inr (r, s')
         else r = cur \<and> s' = s))"

lemma patchOnce_Inr:
  "patchOnce h digest rq ops first cur = Inr (q, changed) \<Longrightarrow>
     \<exists>q'. Apply cur ops (cfgProfile (thConfig h)) = Inr (q', changed) \<and>
       (if changed then q = q' \<and> validateResource q (thRT h) (strictMode (thConfig h)) = Inr () else q = cur)"
  by (auto simp: patchOnce_def res_simps if_eq_iff split: if_splits)

lemma patchLoop_atomic:
  assumes typed: "putType rt" and h: "thRT h = rt" "thStore h = st" and ops: "list_all opValid ops"
    and w: "\<And>n. writers (rqID rq) (others n)"
  shows "invar s \<Longrightarrow> patchLoop h digest now others rq ops n s = (Inr r, s') \<Longrightarrow>
    \<exists>s1 k. atomicPatch h (now k) (rqID rq) ops s1 r s'"
proof (induction "patchRetries - n" arbitrary: n s rule: less_induct)
  case less
  show ?case
  proof (cases "rbind (stGet st (rqID rq) s) (patchOnce h digest rq ops (n = 0))")
    case (Inl e)
    with less.prems(2) show ?thesis using patchLoop_failed [of h rq s digest ops n e] by (simp add: h)
  next
    case (Inr a)
    then obtain cur q changed where cur: "stGet st (rqID rq) s = Inr cur"
      and once: "patchOnce h digest rq ops (n = 0) cur = Inr (q, changed)" and a: "a = (q, changed)"
      by (cases a) (auto simp: rbind_eq_Inr)
    from patchOnce_Inr [OF once] obtain q' where
      app: "Apply cur ops (cfgProfile (thConfig h)) = Inr (q', changed)"
      and q: "if changed then q = q' \<and> validateResource q rt (strictMode (thConfig h)) = Inr () else q = cur"
      unfolding h by blast
    show ?thesis
    proof (cases changed)
      case False
      with patchLoop_unchanged [of h rq s digest ops n q] less.prems Inr a q have "r = cur" "s' = s"
        by (simp_all add: h)
      with less.prems(1) cur app False have "atomicPatch h (now n) (rqID rq) ops s r s'"
        by (auto simp: atomicPatch_def)
      then show ?thesis by blast
    next
      case True
      define s1 where "s1 = others n s"
      define upd where "upd = SetMeta ((rMeta q)\<lparr>mLastModified := now n\<rparr>) q"
      have loop: "patchLoop h digest now others rq ops n s =
       (case stReplace st (rqID rq) upd s1 of
          Inr (r, s') \<Rightarrow> (Inr r, s')
        | Inl e \<Rightarrow>
            if staleError e \<and> n + 1 < patchRetries then patchLoop h digest now others rq ops (n + 1) s1
            else (Inl e, s1))"
        unfolding s1_def upd_def
        by (rule patchLoop_changed [of h rq s digest ops n q now others, unfolded h])
          (use Inr a True in simp)
      from True q app have app': "Apply cur ops (cfgProfile (thConfig h)) = Inr (q, True)" by simp
      from cur less.prems(1) have "accepts cur" by (simp add: get_accepted)
      from apply_accepted [OF typed this ops app'] have acc: "accepts upd" "rMeta q = rMeta cur"
        by (auto simp: upd_def accepts_def)
      have inv1: "invar s1" unfolding s1_def by (rule writers_invar [OF w less.prems(1)])
      show ?thesis
      proof (cases "stReplace st (rqID rq) upd s1")
        case (Inl e)
        with less.prems(2) loop have
          retry: "n + 1 < patchRetries" "patchLoop h digest now others rq ops (n + 1) s1 = (Inr r, s')"
          by (simp_all split: if_splits)
        then have "patchRetries - (n + 1) < patchRetries - n" by simp
        from less.hyps [OF this inv1 retry(2)] show ?thesis .
      next
        case (Inr b)
        with less.prems(2) loop have "b = (r, s')" by (cases b) simp
        with Inr have run: "stReplace st (rqID rq) upd (others n s) = Inr (r, s')" by (simp add: s1_def)
        have version: "mVersion (rMeta upd) = mVersion (rMeta cur)" using acc(2) by (simp add: upd_def)
        from cas [OF less.prems(1) w cur acc(1) version run] have "stGet st (rqID rq) s1 = Inr cur"
          by (simp add: s1_def)
        with inv1 app' q True run have "atomicPatch h (now n) (rqID rq) ops s1 r s'"
          by (auto simp: atomicPatch_def upd_def s1_def)
        then show ?thesis by blast
      qed
    qed
  qed
qed

text \<open>An attempt the other writers leave alone does not fail with a stale version.\<close>

lemma patchLoop_settles:
  assumes typed: "putType rt" and h: "thRT h = rt" "thStore h = st" and ops: "list_all opValid ops"
    and w: "\<And>n. writers (rqID rq) (others n)"
    and quiet: "\<And>s. invar s \<Longrightarrow> aget (rows (others 2 s)) (rqID rq) = aget (rows s) (rqID rq)"
  shows "invar s \<Longrightarrow> n < patchRetries \<Longrightarrow> patchLoop h digest now others rq ops n s = (Inl e, s') \<Longrightarrow>
    e \<noteq> preconditionFailed \<or>
    (\<exists>s1 cur first. invar s1 \<and> stGet st (rqID rq) s1 = Inr cur \<and> patchOnce h digest rq ops first cur = Inl e)"
proof (induction "patchRetries - n" arbitrary: n s rule: less_induct)
  case less
  show ?case
  proof (cases "rbind (stGet st (rqID rq) s) (patchOnce h digest rq ops (n = 0))")
    case (Inl e')
    with less.prems(3) patchLoop_failed [of h rq s digest ops n e'] have e: "e' = e" by (simp add: h)
    show ?thesis
    proof (cases "stGet st (rqID rq) s")
      case (Inl _)
      with \<open>rbind _ _ = Inl e'\<close> e less.prems(1) show ?thesis
        by (auto simp: get_row scim_error_defs split: option.splits)
    next
      case (Inr cur)
      with \<open>rbind _ _ = Inl e'\<close> e less.prems(1) show ?thesis by auto
    qed
  next
    case (Inr a)
    then obtain cur q changed where cur: "stGet st (rqID rq) s = Inr cur"
      and once: "patchOnce h digest rq ops (n = 0) cur = Inr (q, changed)" and a: "a = (q, changed)"
      by (cases a) (auto simp: rbind_eq_Inr)
    have changed: changed
      using less.prems(3) Inr a patchLoop_unchanged [of h rq s digest ops n q] by (cases changed) (simp_all add: h)
    define s1 where "s1 = others n s"
    define upd where "upd = SetMeta ((rMeta q)\<lparr>mLastModified := now n\<rparr>) q"
    have inv1: "invar s1" unfolding s1_def by (rule writers_invar [OF w less.prems(1)])
    have loop: "patchLoop h digest now others rq ops n s =
       (case stReplace st (rqID rq) upd s1 of
          Inr (r, s') \<Rightarrow> (Inr r, s')
        | Inl e \<Rightarrow>
            if staleError e \<and> n + 1 < patchRetries then patchLoop h digest now others rq ops (n + 1) s1
            else (Inl e, s1))"
      unfolding s1_def upd_def
        by (rule patchLoop_changed [of h rq s digest ops n q now others, unfolded h])
          (use Inr a changed in simp)
    with less.prems(3) obtain e' where fail: "stReplace st (rqID rq) upd s1 = Inl e'"
      by (auto split: sum.splits)
    with loop less.prems(3) consider "\<not> staleError e" | "patchRetries \<le> n + 1" "e' = e"
      | "n + 1 < patchRetries" "patchLoop h digest now others rq ops (n + 1) s1 = (Inl e, s')"
      by (auto split: if_splits)
    then show ?thesis
    proof cases
      case 1
      then show ?thesis by (auto simp: staleError_def scim_error_defs)
    next
      case 2
      with less.prems(2) have n: "n = 2" by (simp add: patchRetries_def)
      from patchOnce_Inr [OF once] changed have
        app: "Apply cur ops (cfgProfile (thConfig h)) = Inr (q, True)" by auto
      from cur less.prems(1) have "accepts cur" by (simp add: get_accepted)
      from apply_accepted [OF typed this ops app] have acc: "accepts upd" "mVersion (rMeta upd) = mVersion (rMeta cur)"
        by (auto simp: upd_def accepts_def)
      from cur less.prems(1) have "aget (rows s) (rqID rq) = Some cur"
        by (simp add: get_row split: option.splits)
      with quiet [OF less.prems(1)] n have "aget (rows s1) (rqID rq) = Some cur" by (simp add: s1_def)
      from replace_fresh [OF inv1 acc(1) this] acc(2) agrees_refl fail 2(2)
      have "e \<noteq> preconditionFailed" by auto
      then show ?thesis ..
    next
      case 3
      then have "patchRetries - (n + 1) < patchRetries - n" "n + 1 < patchRetries" by simp_all
      from less.hyps [OF this(1) inv1 this(2) 3(2)] show ?thesis .
    qed
  qed
qed

text \<open>A PUT takes effect at one moment.\<close>

lemma replaceLocked_atomic:
  assumes typed: "putType rt" and h: "thRT h = rt" "thStore h = st" and w: "writers (rqID rq) (others 0)"
    and inv: "invar s" and inc: "accepts incoming"
    and run: "replaceLocked h digest e others rq incoming s = (Inr r, s')"
  shows "\<exists>cur merged. stGet st (rqID rq) (others 0 s) = Inr cur \<and>
    mergedPut h digest e rq incoming cur = Inr merged \<and>
    stReplace st (rqID rq) merged (others 0 s) = Inr (r, s') \<and>
    mergePut (envNow e) incoming cur rt = Inr merged \<and> accepts cur \<and> accepts merged \<and>
    invar s' \<and> rows s' = aput (rqID rq) r (rows (others 0 s))"
proof -
  from run obtain cur merged where cur: "stGet st (rqID rq) s = Inr cur"
    and put: "mergedPut h digest e rq incoming cur = Inr merged"
    and put1: "stReplace st (rqID rq) merged (others 0 s) = Inr (r, s')"
    unfolding replaceLocked_def h by (auto simp: rbind_eq_Inr commit_Inr split: sum.splits)
  from put have merge: "mergePut (envNow e) incoming cur rt = Inr merged"
    by (auto simp: mergedPut_def res_simps h)
  with mergePut_keeps [OF typed _ _ merge] inc
  have acc: "accepts merged" "mVersion (rMeta merged) = mVersion (rMeta cur)" by (auto simp: accepts_def)
  from cas [OF inv w cur acc put1] get_accepted [OF inv cur] cur put put1 merge acc(1) show ?thesis by blast
qed

end

subsection \<open>Every handler keeps the invariant of the store\<close>

locale patched_store = shared_store +
  assumes patcher_invar: "stPatcher st = Some p \<Longrightarrow> putType rt \<Longrightarrow> invar s \<Longrightarrow> list_all opValid ops \<Longrightarrow>
    p env i ops s = Inr (r, s') \<Longrightarrow> invar s'"
begin

lemma commit_keeps:
  assumes "invar s" "\<And>a s'. f s = Inr (a, s') \<Longrightarrow> invar s'"
  shows "invar (snd (commit f s))"
  using assms by (auto simp: commit_def split: sum.splits)

lemma handleCreate_keeps:
  assumes typed: "putType rt" and h: "thRT h = rt" "thStore h = st" and inv: "invar s"
  shows "invar (snd (handleCreate h digest e rq s))"
proof (cases "prepareCreate h e rq")
  case (Inr a)
  then obtain r proj where prep: "prepareCreate h e rq = Inr (r, proj)" by (cases a) auto
  then obtain b d i q where dec: "DecodeResource rt True b = Inr d"
    and r: "Set d ''id'' (VString i) = Inr q" "r = SetMeta (rMeta r) q"
    by (auto simp: prepareCreate_def assignCreateIdentity_def res_simps h)
  from typed have rt: "resourceTypeOk rt" "commonReserved rt" by (auto simp: putType_def)
  from DecodeResource_ok [OF rt dec] Set_resourceOk [OF _ _ r(1)] rt(1)
  have "accepts (SetMeta (rMeta r) q)" by (auto simp: accepts_def)
  then have "accepts r" using r(2) by simp
  with create_row [OF inv this] inv have "invar (snd (commit (stCreate st e r) s))"
    by (intro commit_keeps) blast+
  then show ?thesis by (simp add: handleCreate_def prep respond_def h)
qed (simp add: handleCreate_def inv)

lemma handleReplace_keeps:
  assumes typed: "putType rt" and h: "thRT h = rt" "thStore h = st" and inv: "invar s"
    and others: "\<And>n s. invar s \<Longrightarrow> invar (others n s)"
  shows "invar (snd (handleReplace h digest e others rq s))"
proof (cases "prepareReplace h rq")
  case (Inr a)
  then obtain inc proj where prep: "prepareReplace h rq = Inr (inc, proj)" by (cases a) auto
  then obtain b where dec: "DecodeResource rt True b = Inr inc"
    by (auto simp: prepareReplace_def res_simps h)
  from DecodeResource_ok [OF _ _ dec] typed have inc: "resourceOk inc" "rRT inc = rt"
    by (auto simp: putType_def)
  have "invar (snd (replaceLocked h digest e others rq inc s))"
  proof (cases "rbind (stGet st (rqID rq) s) (mergedPut h digest e rq inc)")
    case (Inr m)
    then obtain cur where "mergePut (envNow e) inc cur rt = Inr m"
      by (auto simp: mergedPut_def res_simps h)
    with mergePut_keeps [OF typed inc] have "accepts m" by (simp add: accepts_def)
    with replace_row [OF others [OF inv] this] have
      "invar (snd (commit (stReplace st (rqID rq) m) (others 0 s)))"
      by (intro commit_keeps others inv) blast
    with Inr show ?thesis by (simp add: replaceLocked_def h)
  qed (simp add: replaceLocked_def h inv)
  then show ?thesis by (simp add: handleReplace_def prep respond_def)
qed (simp add: handleReplace_def inv)

lemma handleDelete_keeps:
  assumes h: "thStore h = st" and inv: "invar s" and others: "\<And>n s. invar s \<Longrightarrow> invar (others n s)"
  shows "invar (snd (handleDelete h digest others rq s))"
proof -
  have run: "invar s2" if "stDelete st (rqID rq) s1 = Inr s2" "invar s1" for s1 s2
    using delete_row [OF that(2), of "rqID rq"] that(1) by simp
  show ?thesis
    unfolding handleDelete_def h
    using run inv others by (auto simp: rbind_eq_Inr split: sum.split if_splits)
qed

lemma patchLoop_keeps:
  assumes typed: "putType rt" and h: "thRT h = rt" "thStore h = st" and ops: "list_all opValid ops"
    and others: "\<And>n s. invar s \<Longrightarrow> invar (others n s)"
  shows "invar s \<Longrightarrow> invar (snd (patchLoop h digest now others rq ops n s))"
proof (induction "patchRetries - n" arbitrary: n s rule: less_induct)
  case less
  note inv = less.prems
  show ?case
  proof (cases "rbind (stGet st (rqID rq) s) (patchOnce h digest rq ops (n = 0))")
    case (Inl e)
    with patchLoop_failed [of h rq s digest ops n e] inv show ?thesis by (simp add: h)
  next
    case (Inr a)
    then obtain cur q changed where cur: "stGet st (rqID rq) s = Inr cur"
      and once: "patchOnce h digest rq ops (n = 0) cur = Inr (q, changed)" and a: "a = (q, changed)"
      by (cases a) (auto simp: rbind_eq_Inr)
    show ?thesis
    proof (cases changed)
      case False
      with patchLoop_unchanged [of h rq s digest ops n q] inv Inr a show ?thesis by (simp add: h)
    next
      case True
      define upd where "upd = SetMeta ((rMeta q)\<lparr>mLastModified := now n\<rparr>) q"
      from patchOnce_Inr [OF once] True have "Apply cur ops (cfgProfile (thConfig h)) = Inr (q, True)" by auto
      from apply_accepted [OF typed get_accepted [OF inv cur] ops this] have acc: "accepts upd"
        by (auto simp: upd_def accepts_def)
      note written = replace_row [OF others [OF inv] acc]
      have "invar (snd (patchLoop h digest now others rq ops (n + 1) (others n s)))" if "n + 1 < patchRetries"
        by (rule less.hyps [OF _ others [OF inv]]) (use that in simp)
      with written others [OF inv] patchLoop_changed [of h rq s digest ops n q now others] Inr a True
      show ?thesis by (auto simp: h upd_def [symmetric] split: sum.splits)
    qed
  qed
qed

lemma handlePatch_keeps:
  assumes typed: "putType rt" and h: "thRT h = rt" "thStore h = st" and inv: "invar s"
    and others: "\<And>n s. invar s \<Longrightarrow> invar (others n s)"
  shows "invar (snd (handlePatch h digest e others rq s))"
proof (cases "preparePatch h rq")
  case (Inr a)
  then obtain ops proj where prep: "preparePatch h rq = Inr (ops, proj)" by (cases a) auto
  then obtain b where "Decode b rt (cfgProfile (thConfig h)) = Inr ops"
    by (auto simp: preparePatch_def res_simps h)
  then have ops: "list_all opValid ops"
    by (auto dest!: Decode_normal simp: list_all_iff opNormal_def)
  show ?thesis
  proof (cases "stPatcher st")
    case None
    with patchLoop_keeps [OF typed h ops others inv] show ?thesis
      by (simp add: handlePatch_def prep respond_def h patchFallback_def)
  next
    case (Some p)
    have "invar (snd (commit (p e (rqID rq) ops) s1))" if "invar s1" for s1
      using patcher_invar [OF Some typed that ops] that by (intro commit_keeps) blast+
    then have "invar (snd (patchNative h p digest e others rq ops s))"
      using inv others by (auto simp: patchNative_def split: sum.split)
    with Some show ?thesis by (simp add: handlePatch_def prep respond_def h)
  qed
qed (simp add: handlePatch_def inv)

end

subsection \<open>The in-memory store is shared\<close>

definition storeWriters :: "resource_type \<Rightarrow> string \<Rightarrow> (memstore \<Rightarrow> memstore) \<Rightarrow> bool" where
  "storeWriters rt i w \<longleftrightarrow>
     (\<forall>s. \<exists>ops. w s = storeRun ops s \<and> list_all (opAccepted rt) ops \<and> OpDelete i \<notin> set ops)"

interpretation memserved:
  patched_store memStore rt "memInvar rt" memRows "memAccepts rt" versionMatches "storeWriters rt" for rt
proof
  fix r i w s cur cur' p ops env s'
  show "memAccepts rt r \<longleftrightarrow> resourceOk r \<and> rRT r = rt" by (simp add: memAccepts_def)
  show "memInvar rt (w s)" if "storeWriters rt i w" "memInvar rt s"
    using that storeRun_ok [of s] unfolding storeWriters_def memInvar_def by metis
  show "cur' = cur" if w: "storeWriters rt i w" and inv: "memInvar rt s"
    and rows: "aget (memRows s) i = Some cur" "aget (memRows (w s)) i = Some cur'"
    and agree: "versionMatches (mVersion (rMeta cur)) (mVersion (rMeta cur'))"
  proof -
    from w obtain ops where ops: "w s = storeRun ops s" "list_all (opAccepted rt) ops" "OpDelete i \<notin> set ops"
      unfolding storeWriters_def by blast
    from inv have ok: "storeOk s" "msRT s = rt" by (auto simp: memInvar_def)
    with storeRun_ok [of s ops] ops have ok': "storeOk (w s)" by simp
    from rows ok(1) ok' have "aget (msItems s) i = Some cur" "aget (msItems (w s)) i = Some cur'"
      by (simp_all add: memRows_get)
    with same_version_same_resource [OF ok(1), of ops i cur cur'] ok(2) ops agree show ?thesis by simp
  qed
  show "memInvar rt s'"
    if "stPatcher memStore = Some p" "putType rt" "memInvar rt s" "list_all opValid ops" "p env i ops s = Inr (r, s')"
  proof -
    from that have run: "memPatch env i ops s = Inr (r, s')" by (simp add: memStore_def)
    from that storeDo_step [of s "OpPatch env i ops"] have "storeOk (storeDo (OpPatch env i ops) s)"
      "msRT (storeDo (OpPatch env i ops) s) = rt" by (auto simp: memInvar_def)
    with run show ?thesis by (simp add: memInvar_def after_def)
  qed
qed

interpretation memlist: listing_store memStore rt "memInvar rt" memRows "memAccepts rt" versionMatches for rt
proof
  show "stList memStore q s = listSpec rt q (map snd (memRows s))"
    if "memInvar rt s" "int (length (memRows s)) < 2 ^ 62" "qCount q < 2 ^ 62" for q s
    using that memList_spec [of s q] by (auto simp: memStore_def listSpec_def memInvar_def)
qed

text \<open>A store with the same operations that may lack the native PATCH and may report filters
  and sort paths it does not push down. The contract does not depend on that.\<close>

definition limitedStore :: "bool \<Rightarrow> (expr \<Rightarrow> bool) option \<Rightarrow> (fpath \<Rightarrow> bool) option \<Rightarrow> memstore store" where
  "limitedStore native filters sorts =
     memStore\<lparr>stPatcher := (if native then Some memPatch else None),
       stSupportsFilter := filters, stSupportsSort := sorts\<rparr>"

lemma limited_sel [simp]:
  "stCreate (limitedStore n f g) = stCreate memStore" "stGet (limitedStore n f g) = stGet memStore"
  "stList (limitedStore n f g) = stList memStore" "stReplace (limitedStore n f g) = stReplace memStore"
  "stDelete (limitedStore n f g) = stDelete memStore"
  by (simp_all add: limitedStore_def)

lemma limited_patcher: "stPatcher (limitedStore n f g) = Some p \<Longrightarrow> stPatcher memStore = Some p"
  by (simp add: limitedStore_def memStore_def split: if_splits)

lemma memStore_limited: "memStore = limitedStore True None None"
  by (simp add: limitedStore_def memStore_def)

lemma limited_contract:
  "store_contract (limitedStore n f g) (memInvar rt) memRows (memAccepts rt) versionMatches"
  using mem.store_contract_axioms unfolding store_contract_def limited_sel .

interpretation limited: patched_store "limitedStore n f g" rt "memInvar rt" memRows "memAccepts rt"
  versionMatches "storeWriters rt" for n f g rt
proof (unfold patched_store_def shared_store_def, intro conjI)
  show "store_contract (limitedStore n f g) (memInvar rt) memRows (memAccepts rt) versionMatches"
    by (rule limited_contract)
  show "shared_store_axioms rt (memInvar rt) memRows (memAccepts rt) versionMatches (storeWriters rt)"
    by (rule conjunct2 [OF memserved.shared_store_axioms [unfolded shared_store_def]])
  show "patched_store_axioms (limitedStore n f g) rt (memInvar rt)"
    by (rule patched_store_axioms.intro) (rule memserved.patcher_invar [OF limited_patcher])
qed

interpretation limitedlist: listing_store "limitedStore n f g" rt "memInvar rt" memRows "memAccepts rt"
  versionMatches for n f g rt
  by (intro listing_store.intro listing_store_axioms.intro limited_contract)
    (simp add: memlist.list_rows)

end
