(* ===== verification/Server_Laws.thy ===== *)
theory Server_Laws
  imports Handler_Laws
begin

text \<open>
  The server as a whole: what the wiring of a configuration guarantees, where the requests are
  routed, and the invariant of its stores under any request.
\<close>

subsection \<open>Routing\<close>

definition routeHandler :: "'s route \<Rightarrow> 's typeHandler option" where
  "routeHandler r =
     (case r of
        CreateRoute h \<Rightarrow> Some h | ListRoute h \<Rightarrow> Some h | SearchRoute h \<Rightarrow> Some h
      | GetRoute h _ \<Rightarrow> Some h | ReplaceRoute h _ \<Rightarrow> Some h | PatchRoute h _ \<Rightarrow> Some h
      | DeleteRoute h _ \<Rightarrow> Some h | _ \<Rightarrow> None)"

lemma registerType_handler:
  "registerType h verb path = Some r \<Longrightarrow>
     routeHandler r = Some h \<and> (\<exists>ep rest. path = ep # rest \<and> CHR ''/'' # ep = rtEndpoint (thRT h))"
  by (auto simp: registerType_def routeHandler_def split: list.splits if_splits)

lemma registerDiscovery_handler: "registerDiscovery verb path = Some r \<Longrightarrow> routeHandler r = None"
  by (auto simp: registerDiscovery_def routeHandler_def split: list.splits if_splits)

lemma firstRoute_handler:
  "firstRoute hs verb path = Some r \<Longrightarrow> routeHandler r = Some h \<Longrightarrow> h \<in> set hs"
  by (induction hs)
    (auto split: option.splits dest: registerType_handler registerDiscovery_handler)

lemma muxRoute_handler: "routeHandler (muxRoute hs verb path) = Some h \<Longrightarrow> h \<in> set hs"
  by (auto simp: muxRoute_def Let_def registerUnsupported_def routeHandler_def
      split: option.splits list.splits if_splits dest: firstRoute_handler [of hs _ path])

text \<open>The registered types have endpoints of their own.\<close>

lemma firstRoute_type:
  assumes "h \<in> set hs" "distinct (map (rtEndpoint \<circ> thRT) hs)" "rtEndpoint (thRT h) = CHR ''/'' # ep"
    and "registerType h verb (ep # rest) = Some r"
  shows "firstRoute hs verb (ep # rest) = Some r"
  using assms(1,2)
proof (induction hs)
  case (Cons g hs)
  show ?case
  proof (cases "g = h")
    case False
    with Cons.prems(1) have "(rtEndpoint \<circ> thRT) h \<in> (rtEndpoint \<circ> thRT) ` set hs" by auto
    with Cons.prems(2) assms(3) have "rtEndpoint (thRT g) \<noteq> CHR ''/'' # ep" by auto
    then have "registerType g verb (ep # rest) = None"
      using registerType_handler [of g verb "ep # rest"] by (cases "registerType g verb (ep # rest)") auto
    with Cons False show ?thesis by simp
  qed (simp add: assms(4))
qed simp

lemma firstRoute_discovery:
  assumes "\<forall>h \<in> set hs. rtEndpoint (thRT h) \<noteq> CHR ''/'' # ep"
  shows "firstRoute hs verb (ep # rest) = registerDiscovery verb (ep # rest)"
  using assms
proof (induction hs)
  case (Cons g hs)
  then have "registerType g verb (ep # rest) = None"
    using registerType_handler [of g verb "ep # rest"] by (cases "registerType g verb (ep # rest)") auto
  with Cons show ?case by simp
qed simp

subsection \<open>The wiring\<close>

definition wired :: "'s server \<Rightarrow> bool" where
  "wired sv \<longleftrightarrow>
     configLimits (svConfig sv) \<and>
     distinct (map (rtEndpoint \<circ> thRT) (svTypes sv)) \<and>
     list_all (\<lambda>h. endpointOk (rtEndpoint (thRT h)) \<and> registrable (rtEndpoint (thRT h)) \<and>
       thConfig h = svConfig sv) (svTypes sv)"

lemma newServer_wired:
  assumes "newServer cfg = Inr sv"
  shows "wired sv \<and> map thRT (svTypes sv) = map regType (cfgResourceTypes cfg) \<and>
    map (Some \<circ> thStore) (svTypes sv) = map regStore (cfgResourceTypes cfg) \<and>
    cfgAuth (svConfig sv) = cfgAuth cfg \<and> cfgExemptSPC (svConfig sv) = cfgExemptSPC cfg \<and>
    svDiscovery sv = newDiscovery (svConfig sv)"
proof -
  from assms obtain c where c: "configValidate cfg = Inr c"
    and reg: "list_all (\<lambda>reg. registrable (rtEndpoint (regType reg))) (cfgResourceTypes c)"
    and sv: "sv = \<lparr>svConfig = c,
      svTypes = List.map_filter (\<lambda>reg. map_option (newTypeHandler c reg) (regStore reg)) (cfgResourceTypes c),
      svDiscovery = newDiscovery c\<rparr>"
    unfolding newServer_def by (auto simp: res_simps split: if_splits)
  note limits = configValidate_limits [OF c]
  have auth: "cfgAuth c = cfgAuth cfg \<and> cfgExemptSPC c = cfgExemptSPC cfg"
    using c unfolding configValidate_def by (auto simp: Let_def rbind_eq_Inr if_eq_iff split: if_splits)
  from limits have "\<exists>seen. rfold validateRegistration (cfgResourceTypes c) [] = Inr seen"
    by (auto simp: validateRegistrations_def rbind_eq_Inr)
  then have regs: "list_all (\<lambda>r. regStore r \<noteq> None \<and> endpointOk (rtEndpoint (regType r))) (cfgResourceTypes c)"
    and dist: "distinct (map (\<lambda>r. foldName (rtEndpoint (regType r))) (cfgResourceTypes c))"
    unfolding validateRegistrations_loop by (auto simp: list_all_iff)
  have types: "List.map_filter (\<lambda>reg. map_option (newTypeHandler c reg) (regStore reg)) rs =
      map (\<lambda>reg. newTypeHandler c reg (the (regStore reg))) rs"
    if "list_all (\<lambda>r. regStore r \<noteq> None) rs" for rs
    using that by (induction rs) (auto simp: List.map_filter_simps)
  have stores: "list_all (\<lambda>r. regStore r \<noteq> None) (cfgResourceTypes c)" using regs by (simp add: list_all_iff)
  have "distinct (map (\<lambda>r. rtEndpoint (regType r)) (cfgResourceTypes c))"
    using dist by (simp add: distinct_map comp_def) (auto simp: inj_on_def)
  then have dist': "distinct (map (\<lambda>r. rtEndpoint (regType r)) (cfgResourceTypes cfg))"
    using limits by simp
  have st: "svTypes sv = map (\<lambda>reg. newTypeHandler c reg (the (regStore reg))) (cfgResourceTypes cfg)"
    "svConfig sv = c" "svDiscovery sv = newDiscovery c"
    using types [OF stores] limits by (simp_all add: sv)
  from regs reg limits have all: "\<forall>r \<in> set (cfgResourceTypes cfg). regStore r \<noteq> None \<and>
      endpointOk (rtEndpoint (regType r)) \<and> registrable (rtEndpoint (regType r))"
    by (simp add: list_all_iff)
  have "wired sv"
    using limits all dist' by (simp add: wired_def st newTypeHandler_def comp_def list_all_iff)
  moreover have "map (Some \<circ> thStore) (svTypes sv) = map regStore (cfgResourceTypes cfg)"
    using all by (simp add: st newTypeHandler_def)
  ultimately show ?thesis using auth by (simp add: st newTypeHandler_def comp_def)
qed

subsection \<open>The stores of a server\<close>

definition serverOk :: "memstore server \<Rightarrow> (string \<Rightarrow> memstore) \<Rightarrow> bool" where
  "serverOk sv s \<longleftrightarrow> list_all (\<lambda>h. memInvar (thRT h) (s (rtEndpoint (thRT h)))) (svTypes sv)"

definition memBacked :: "memstore server \<Rightarrow> bool" where
  "memBacked sv \<longleftrightarrow>
     list_all (\<lambda>h. (\<exists>n f g. thStore h = limitedStore n f g) \<and> putType (thRT h)) (svTypes sv)"

lemma serverOk_update:
  assumes ok: "serverOk sv s" and w: "wired sv" and h: "h \<in> set (svTypes sv)" and s': "memInvar (thRT h) s'"
  shows "serverOk sv (s(rtEndpoint (thRT h) := s'))"
proof -
  from w have "inj_on (rtEndpoint \<circ> thRT) (set (svTypes sv))" by (simp add: wired_def distinct_map)
  then have "rtEndpoint (thRT g) = rtEndpoint (thRT h) \<longrightarrow> g = h" if "g \<in> set (svTypes sv)" for g
    using that h by (auto simp: inj_on_def)
  with ok s' show ?thesis by (auto simp: serverOk_def list_all_iff)
qed

lemma serveRoute_keeps:
  assumes w: "wired sv" and mem: "memBacked sv" and ok: "serverOk sv s"
    and types: "\<And>h. routeHandler route = Some h \<Longrightarrow> h \<in> set (svTypes sv)"
    and others: "\<And>h n s. h \<in> set (svTypes sv) \<Longrightarrow> memInvar (thRT h) s \<Longrightarrow>
      memInvar (thRT h) (others (rtEndpoint (thRT h)) n s)"
  shows "serverOk sv (snd (serveRoute sv digest e others rq route s))"
proof (cases "routeHandler route")
  case None
  then show ?thesis using ok by (cases route) (simp_all add: serveRoute_def Let_def routeHandler_def)
next
  case (Some h)
  then have h: "h \<in> set (svTypes sv)" by (rule types)
  with mem obtain n f g where st: "putType (thRT h)" "thStore h = limitedStore n f g"
    by (auto simp: memBacked_def list_all_iff)
  define ep where "ep = rtEndpoint (thRT h)"
  have inv: "memInvar (thRT h) (s ep)" using ok h by (simp add: serverOk_def list_all_iff ep_def)
  have oth: "\<And>n s. memInvar (thRT h) s \<Longrightarrow> memInvar (thRT h) (others ep n s)"
    using others [OF h] by (simp add: ep_def)
  note keeps =
    limited.handleCreate_keeps [OF st(1) refl st(2) inv]
    limited.handleReplace_keeps [OF st(1) refl st(2) inv, of "others ep", OF oth]
    limited.handlePatch_keeps [OF st(1) refl st(2) inv, of "others ep", OF oth]
    limited.handleDelete_keeps [OF st(2) inv, of "others ep", OF oth]
  show ?thesis
    using Some ok keeps [THEN serverOk_update [OF ok w h], folded ep_def]
    by (cases route) (simp_all add: serveRoute_def Let_def routeHandler_def ep_def split_beta)
qed

lemma ServeHTTP_keeps:
  assumes w: "wired sv" and mem: "memBacked sv" and ok: "serverOk sv s"
    and others: "\<And>h n s. h \<in> set (svTypes sv) \<Longrightarrow> memInvar (thRT h) s \<Longrightarrow>
      memInvar (thRT h) (others (rtEndpoint (thRT h)) n s)"
  shows "serverOk sv (snd (ServeHTTP sv digest e others hq s))"
proof -
  have core: "serverOk sv (snd (serveCore sv digest e others hq s))"
    using serveRoute_keeps [OF w mem ok muxRoute_handler others] ok by (simp add: serveCore_def)
  show ?thesis
    using core ok by (auto simp: ServeHTTP_def split: option.split)
qed

end
