(* ===== verification/Server_Samples.thy ===== *)
theory Server_Samples
  imports Server_Laws Samples
begin

text \<open>
  A resource type with a unique, an immutable and a readOnly attribute, its resources, stores
  that hold them and a server configuration, for the instances at which the theorems about the
  server are applied.
\<close>

definition badgeAttrs :: "attribute list" where
  "badgeAttrs =
     [Attribute ''code'' TypeString [] False [] False [] False MutabilityReadWrite ReturnedDefault
        UniquenessServer [],
      plainAttr ''serial'' TypeString False MutabilityImmutable ReturnedDefault,
      plainAttr ''state'' TypeString False MutabilityReadOnly ReturnedDefault,
      plainAttr ''level'' TypeInteger False MutabilityReadWrite ReturnedDefault]"

definition badgeType :: resource_type where
  "badgeType =
     \<lparr>rtName = ''Badge'', rtDescription = [], rtEndpoint = ''/Badges'',
      rtSchema = \<lparr>schemaID = ''urn:x:Badge'', schemaName = ''Badge'', schemaDescription = [],
        schemaAttributes = badgeAttrs\<rparr>,
      rtExtensions = []\<rparr>"

lemmas badge_defs = badgeAttrs_def badgeType_def plainAttr_def

lemma badgeType_ok: "putType badgeType"
  unfolding putType_def by code_simp

lemma badgeType_store: "storeType badgeType"
  using badgeType_ok by (simp add: putType_def storeType_def)

definition badge :: "string \<Rightarrow> string \<Rightarrow> int \<Rightarrow> resource" where
  "badge i code level =
     \<lparr>rRT = badgeType,
      rAttrs = [(''id'', VString i), (''code'', VString code), (''serial'', VString ''s''),
        (''state'', VString ''on''), (''level'', VInt64 level)],
      rMeta = zeroMeta\<rparr>"

definition badge1 :: resource where "badge1 = badge ''b1'' ''C1'' 7"
definition badge2 :: resource where "badge2 = badge ''b2'' ''C2'' 3"

lemma badge_accepted: "memAccepts badgeType badge1" "memAccepts badgeType badge2"
  unfolding memAccepts_def by code_simp+

definition sampleEnv :: env where
  "sampleEnv = \<lparr>envRandom = None, envNow = GoTime 100 0\<rparr>"

definition emptyStore :: memstore where "emptyStore = NewStore badgeType []"

definition oneBadge :: memstore where "oneBadge = storeDo (OpCreate sampleEnv badge1) emptyStore"

definition twoBadges :: memstore where "twoBadges = storeDo (OpCreate sampleEnv badge2) oneBadge"

lemma twoBadges_reachable: "reachable badgeType oneBadge" "reachable badgeType twoBadges"
proof -
  have "reachable badgeType emptyStore" unfolding emptyStore_def by (rule reachable.start) simp
  then show one: "reachable badgeType oneBadge"
    unfolding oneBadge_def using badge_accepted by (intro reachable.step) simp_all
  then show "reachable badgeType twoBadges"
    unfolding twoBadges_def using badge_accepted by (intro reachable.step) simp_all
qed

definition stamped :: "nat \<Rightarrow> resource \<Rightarrow> resource" where
  "stamped n r = SetMeta ((rMeta r)\<lparr>mVersion := versionString n\<rparr>) r"

lemma twoBadges_rows:
  "memGet ''b1'' twoBadges = Inr (stamped 1 badge1)" "memGet ''b2'' twoBadges = Inr (stamped 1 badge2)"
  "memGet ''b1'' oneBadge = Inr (stamped 1 badge1)"
  by code_simp+

subsection \<open>A server\<close>

definition badgeConfig :: "memstore config" where
  "badgeConfig =
     \<lparr>cfgBaseURL = ''https://x/'', cfgResourceTypes = [\<lparr>regType = badgeType, regStore = Some memStore\<rparr>],
      cfgProfile = DefaultProfile, cfgAuth = None, cfgExemptSPC = False, cfgMaxFilterResults = 10,
      cfgDefaultPageSize = 0, cfgMaxPageSize = 0, cfgMaxBodyBytes = 0\<rparr>"

definition badgeHandler :: "bool \<Rightarrow> memstore typeHandler" where
  "badgeHandler native =
     \<lparr>thRT = badgeType, thStore = limitedStore native None None, thConfig = badgeConfig\<rparr>"

definition sampleDigest :: digest where "sampleDigest = (\<lambda>_. ''d'')"

definition putRequest :: request where
  "putRequest =
     \<lparr>rqID = ''b1'', rqIfMatch = ''W/'' @ [CHR 0x22, CHR ''1'', CHR 0x22], rqIfNoneMatch = [], rqQuery = [],
      rqBodyLength = 20, rqBody = Some (VMap [(''code'', VString ''C9''), (''state'', VString ''off'')])\<rparr>"

text \<open>Writers that replace \<open>b1\<close> before the first write, and none.\<close>

definition raceOnce :: "nat \<Rightarrow> memstore \<Rightarrow> memstore" where
  "raceOnce n s = (if n = 0 then storeRun [OpReplace ''b1'' badge1] s else s)"

lemma raceOnce_writers: "storeWriters badgeType i (raceOnce n)"
proof -
  have "list_all (opAccepted badgeType) [OpReplace ''b1'' badge1]" using badge_accepted by simp
  then show ?thesis
    unfolding storeWriters_def raceOnce_def
    by (auto intro: exI [of _ "[OpReplace ''b1'' badge1]"] exI [of _ "[]"] simp: storeRun_def)
qed

lemma quiet_writers: "storeWriters badgeType i (\<lambda>s. s)"
  unfolding storeWriters_def by (auto intro: exI [of _ "[]"] simp: storeRun_def)

lemma twoBadges_invar: "memInvar badgeType twoBadges"
  using reachable_ok [OF twoBadges_reachable(2) badgeType_store] by (simp add: memInvar_def)

definition levelOps :: "patch_op list" where
  "levelOps = [\<lparr>opKind = KindReplace, opPath = Some (FPath [] ''level'' [] None), opValue = VInt64 9\<rparr>]"

lemma levelOps_valid: "list_all opValid levelOps"
  by code_simp

definition newBadge :: resource where
  "newBadge = (case DecodeResource badgeType True (the (rqBody putRequest)) of Inr r \<Rightarrow> r | Inl _ \<Rightarrow> badge1)"

lemma newBadge_ok: "resourceOk newBadge" "rRT newBadge = badgeType"
  by code_simp+

text \<open>The configuration after validation, a handler of its server and a list request.\<close>

definition liveConfig :: "memstore config" where
  "liveConfig =
     badgeConfig\<lparr>cfgBaseURL := ''https://x'', cfgDefaultPageSize := 100, cfgMaxPageSize := 200,
       cfgMaxBodyBytes := 1048576\<rparr>"

lemma badge_schema: "schemaValidate (rtSchema badgeType) = Inr ()"
  by code_simp

lemma badgeConfig_valid: "configValidate badgeConfig = Inr liveConfig"
  by (simp add: configValidate_def badgeConfig_def liveConfig_def trimRight_def defaultPageSize_def
      defaultMaxPageSize_def defaultMaxBodyBytes_def validateRegistrations_def validateRegistration_def
      Let_def badge_schema) (simp add: badgeType_def)

definition liveHandler :: "memstore typeHandler" where
  "liveHandler = \<lparr>thRT = badgeType, thStore = memStore, thConfig = liveConfig\<rparr>"

definition listSample :: request where
  "listSample =
     \<lparr>rqID = [], rqIfMatch = [], rqIfNoneMatch = [],
      rqQuery = [(''sortBy'', [''code'']), (''sortOrder'', [''descending'']), (''count'', [''1''])],
      rqBodyLength = 0, rqBody = None\<rparr>"

text \<open>The same with a bearer token.\<close>

definition guardedConfig :: "memstore config" where
  "guardedConfig = badgeConfig\<lparr>cfgAuth := Some (StaticBearerToken ''key'')\<rparr>"

lemma guardedConfig_valid:
  "configValidate guardedConfig = Inr (liveConfig\<lparr>cfgAuth := Some (StaticBearerToken ''key'')\<rparr>)"
  by (simp add: guardedConfig_def configValidate_def badgeConfig_def liveConfig_def trimRight_def
      defaultPageSize_def defaultMaxPageSize_def defaultMaxBodyBytes_def validateRegistrations_def
      validateRegistration_def Let_def badge_schema) (simp add: badgeType_def)

lemma badge_registrable:
  "list_all (\<lambda>reg. registrable (rtEndpoint (regType reg))) (cfgResourceTypes liveConfig)"
  by (simp add: liveConfig_def badgeConfig_def registrable_def) (simp add: badgeType_def)

lemma guarded_server: "\<exists>sv. newServer guardedConfig = Inr sv"
  using badge_registrable by (simp add: newServer_def guardedConfig_valid)

lemma badge_server: "\<exists>sv. newServer badgeConfig = Inr sv"
  using badge_registrable by (simp add: newServer_def badgeConfig_valid)

definition postSample :: http_request where
  "postSample =
     \<lparr>hqMethod = ''POST'', hqPath = [''Badges''], hqContentType = ContentType ''application/json'',
      hqContentLength = 20, hqAuthorization = ''Bearer kex'', hqRequest = putRequest\<rparr>"

end
