(* ===== verification/Store_Properties.thy ===== *)
theory Store_Properties
  imports Server_Samples
begin

text \<open>
  The properties of the in-memory store and of the queries on it, over every state its
  operations reach.
\<close>



text \<open>C18. Uniqueness is a property of the stored data: in every reachable state two resources
  never hold, up to letter case, the same string in a core attribute declared unique.\<close>

theorem unique_values:
  assumes "reachable rt s" and "storeType rt"
    and "a \<in> set (schemaAttributes (rtSchema rt))" and "uniquenessOf a \<in> {UniquenessServer, UniquenessGlobal}"
    and "memGet i s = Inr r" and "memGet j s = Inr r'" and "i \<noteq> j"
    and "Get r (attrName a) = Some (VString t)" and "Get r' (attrName a) = Some (VString t')"
  shows "foldName t \<noteq> foldName t'"
proof
  assume eq: "foldName t = foldName t'"
  from reachable_ok [OF assms(1,2)] have ok: "uniqueOk s" "configOk s" "msRT s = rt" by (auto simp: storeOk_def)
  from assms(3,4) ok(2,3) have attr: "foldName (attrName a) \<in> set (msUnique s)"
    by (auto simp: configOk_def uniqueAttrs_def)
  have fold: "Get q (foldName (attrName a)) = Get q (attrName a)" for q by (rule Get_fold_cong) simp
  from assms(5,6) have "aget (msItems s) i = Some r" "aget (msItems s) j = Some r'"
    by (auto simp: memGet_def split: option.splits)
  with ok(1) attr assms(7) have
    "set (indexValues r (foldName (attrName a))) \<inter> set (indexValues r' (foldName (attrName a))) = {}"
    unfolding uniqueOk_def by blast
  with eq show False by (simp add: indexValues_def fold assms(8,9))
qed

theorem unique_values_witness:
  "foldName ''C1'' \<noteq> foldName ''C2'' \<and> memGet ''b1'' twoBadges = Inr (stamped 1 badge1) \<and>
   memGet ''b2'' twoBadges = Inr (stamped 1 badge2)"
proof -
  define a where "a = badgeAttrs ! 0"
  have a: "a \<in> set (schemaAttributes (rtSchema badgeType))"
    "uniquenessOf a \<in> {UniquenessServer, UniquenessGlobal}"
    unfolding a_def by (simp_all add: badge_defs)
  have "Get (stamped 1 badge1) (attrName a) = Some (VString ''C1'')"
    "Get (stamped 1 badge2) (attrName a) = Some (VString ''C2'')"
    unfolding a_def by code_simp+
  with unique_values [OF twoBadges_reachable(2) badgeType_store a twoBadges_rows(1,2)] twoBadges_rows
  show ?thesis by simp
qed

text \<open>C19. No lost update: between a Get and a Replace that carries the version it returned, let
  any operations run except a Delete of the resource. Then the resource is still the one that
  was read, or the Replace fails with preconditionFailed and changes nothing.\<close>

theorem replace_compares_and_swaps:
  assumes "reachable rt s" and "storeType rt"
    and "list_all (opAccepted rt) ops" and "OpDelete i \<notin> set ops"
    and "memGet i s = Inr cur" and "mVersion (rMeta res) = mVersion (rMeta cur)"
  shows "memGet i (storeRun ops s) = Inr cur \<or> memReplace i res (storeRun ops s) = Inl preconditionFailed"
proof (cases "memReplace i res (storeRun ops s) = Inl preconditionFailed")
  case False
  from reachable_ok [OF assms(1,2)] have ok: "storeOk s" "msRT s = rt" by auto
  from assms(5) have read: "aget (msItems s) i = Some cur" by (simp add: memGet_def split: option.splits)
  with storeRun_advances [OF ok(1), of ops i] assms(3,4) ok(2) obtain cur' where
    now: "aget (msItems (storeRun ops s)) i = Some cur'" by (auto simp: advances_def)
  with False have "versionMatches (mVersion (rMeta res)) (mVersion (rMeta cur'))"
    by (auto simp: memReplace_def split: if_splits)
  with same_version_same_resource [OF ok(1), of ops i cur cur'] assms(3,4,6) ok(2) read now
  show ?thesis by (simp add: memGet_def)
qed simp

theorem replace_compares_and_swaps_witness:
  "memReplace ''b1'' (stamped 1 badge1) (storeRun [OpReplace ''b1'' badge1] oneBadge) = Inl preconditionFailed"
proof -
  have "opAccepted badgeType (OpReplace ''b1'' badge1)" using badge_accepted by simp
  then have "memGet ''b1'' (storeRun [OpReplace ''b1'' badge1] oneBadge) = Inr (stamped 1 badge1) \<or>
      memReplace ''b1'' (stamped 1 badge1) (storeRun [OpReplace ''b1'' badge1] oneBadge) = Inl preconditionFailed"
    by (intro replace_compares_and_swaps [OF twoBadges_reachable(1) badgeType_store _ _ twoBadges_rows(3)]) simp_all
  moreover have "memGet ''b1'' (storeRun [OpReplace ''b1'' badge1] oneBadge) = Inr (stamped 2 badge1)"
    by code_simp
  moreover have "stamped 2 badge1 \<noteq> stamped 1 badge1" by code_simp
  ultimately show ?thesis by simp
qed

text \<open>C20. The index is an optimisation only: whatever the filter, selecting through the index
  gives the resources a scan of all of them selects, in the same order, errors included.\<close>

theorem index_lookup_is_scan:
  assumes "reachable rt s" and "storeType rt"
  shows "matchCandidates f s = matchAll f (map snd (memRows s))"
  using reachable_ok [OF assms] by (simp add: index_is_scan)

theorem index_lookup_is_scan_witness:
  "\<exists>f. indexLookup f twoBadges = Some [''b2''] \<and>
     matchCandidates f twoBadges = matchAll f [stamped 1 badge1, stamped 1 badge2]"
proof -
  define f where "f = Some (Compare (FPath [] ''Code'' [] None) OpEqual (LString ''c2''))"
  have "indexLookup f twoBadges = Some [''b2'']" unfolding f_def by code_simp
  moreover have "map snd (memRows twoBadges) = [stamped 1 badge1, stamped 1 badge2]" by code_simp
  ultimately show ?thesis
    using index_lookup_is_scan [OF twoBadges_reachable(2) badgeType_store, of f] by auto
qed

end
