(* ===== verification/Server_Properties.thy ===== *)
theory Server_Properties
  imports Store_Properties
begin

text \<open>
  The properties of the server: requests as a whole, the writes under other writers, and the
  answers to lists.
\<close>

subsection \<open>Writes\<close>

lemma Get_SetMeta_core:
  assumes "putType (rRT r)" "a \<in> set (schemaAttributes (rtSchema (rRT r)))"
  shows "Get (SetMeta m r) (attrName a) = Get r (attrName a)"
proof -
  have "resolvePath (rRT r) (attrName a) = Inr \<lparr>rpUrn = [], rpAttr = Some a, rpSub = None, rpCommon = False\<rparr>"
    using assms by (intro core_path) (auto simp: putType_def rtValid_def)
  then show ?thesis by (simp add: Get_def SetMeta_def getResolved_def)
qed

lemma checkIfMatch_version:
  assumes "checkIfMatch digest header cur = Inr ()" "mVersion (rMeta cur) \<noteq> []"
  shows "header = [] \<or> etagMatch header (mVersion (rMeta cur))"
  using assms by (auto simp: checkIfMatch_def resourceETag_def split: if_splits)

lemma memGet_rows: "memInvar rt s \<Longrightarrow> memGet i s = (case aget (memRows s) i of None \<Rightarrow> Inl notFound | Some r \<Rightarrow> Inr r)"
  using mem.get_row [of rt s i] by (simp add: memStore_def)

lemma mem_sel:
  "stCreate memStore = memCreate" "stGet memStore = memGet" "stList memStore = memList"
  "stReplace memStore = memReplace" "stDelete memStore = memDelete"
  by (simp_all add: memStore_def)





text \<open>C23. The compare-and-swap loop gives up with preconditionFailed only for a reason of the
  request itself, as soon as the third attempt is left alone by other writers: it is then
  answered by the If-Match check, the operations or the validation of some state.\<close>

theorem patch_settles:
  assumes "putType rt" and "thRT h = rt" and "thStore h = limitedStore n f g"
    and "list_all opValid ops" and "\<And>k. storeWriters rt (rqID rq) (others k)" and "memInvar rt s"
    and "\<And>s. memGet (rqID rq) (others 2 s) = memGet (rqID rq) s"
    and "patchFallback h digest now others rq ops s = (Inl err, s')"
  shows "err \<noteq> preconditionFailed \<or>
    (\<exists>s1 cur first. memInvar rt s1 \<and> memGet (rqID rq) s1 = Inr cur \<and>
       patchOnce h digest rq ops first cur = Inl err)"
proof -
  have loop: "patchLoop h digest now others rq ops 0 s = (Inl err, s')"
    using assms(8) by (simp add: patchFallback_def)
  have retries: "(0::nat) < patchRetries" by (simp add: patchRetries_def)
  have quiet: "aget (memRows (others 2 s)) (rqID rq) = aget (memRows s) (rqID rq)" if inv: "memInvar rt s" for s
  proof -
    have "storeOk s" "storeOk (others 2 s)"
      using inv memserved.writers_invar [OF assms(5) inv] by (auto simp: memInvar_def)
    then show ?thesis using assms(7) [of s] by (auto simp: memRows_get memGet_def split: option.splits)
  qed
  from limited.patchLoop_settles [OF assms(1-5) quiet assms(6) retries loop] show ?thesis
    by (simp only: limited_sel mem_sel)
qed

theorem patch_settles_witness:
  "notFound \<noteq> preconditionFailed \<and>
   patchFallback (badgeHandler False) sampleDigest (\<lambda>_. GoTime 5 0) raceOnce
     (putRequest\<lparr>rqID := ''no''\<rparr>) levelOps twoBadges = (Inl notFound, twoBadges)"
proof -
  define rq where "rq = putRequest\<lparr>rqID := ''no''\<rparr>"
  have none: "memGet ''no'' twoBadges = Inl notFound" by code_simp
  have run: "patchFallback (badgeHandler False) sampleDigest (\<lambda>_. GoTime 5 0) raceOnce rq levelOps twoBadges =
      (Inl notFound, twoBadges)"
    by (simp add: patchFallback_def patchLoop.simps badgeHandler_def mem_sel rq_def none)
  have h: "thRT (badgeHandler False) = badgeType" "thStore (badgeHandler False) = limitedStore False None None"
    by (simp_all add: badgeHandler_def)
  have w: "storeWriters badgeType (rqID rq) (raceOnce k)" for k by (rule raceOnce_writers)
  have "memGet (rqID rq) (raceOnce 2 s) = memGet (rqID rq) s" for s by (simp add: raceOnce_def)
  from patch_settles [OF badgeType_ok h levelOps_valid w twoBadges_invar this run] run show ?thesis
    by (auto simp: scim_error_defs rq_def)
qed

end
