(* ===== verification/List_Properties.thy ===== *)
theory List_Properties
  imports Server_Properties
begin

text \<open>
  The properties of list answers: sorting, pages, the fallback of the query engine and the
  answer of the list handler; and of the server as a whole.
\<close>

subsection \<open>Sorting\<close>

text \<open>The stored values of a sortable attribute are keys of one class.\<close>

definition sortClass :: "attr_type \<Rightarrow> key_class" where
  "sortClass t =
     (case t of TypeString \<Rightarrow> StringKey | TypeReference \<Rightarrow> RefKey | TypeBoolean \<Rightarrow> BoolKey
      | TypeInteger \<Rightarrow> NumberKey | TypeDateTime \<Rightarrow> TimeKey | TypeBinary \<Rightarrow> BytesKey | _ \<Rightarrow> NoKey)"

lemma stored_key:
  assumes "storedValue a v" "\<not> multiValued a" "sortClass (attrType a) \<noteq> NoKey"
  shows "v \<in> classKeys (sortClass (attrType a))" and "v \<noteq> VNil"
proof -
  from assms(3) have "attrType a \<noteq> TypeComplex" by (auto simp: sortClass_def)
  with assms(1,2) have scalar: "storedScalar (attrType a) v"
    by (simp add: storedValue_leaf storedLeaf_def)
  show "v \<in> classKeys (sortClass (attrType a))"
    using scalar assms(3)
    by (cases "attrType a"; cases v)
      (simp_all add: storedScalar_def isStoredScalar_def sortClass_def classKeys_def keyClass_def)
  show "v \<noteq> VNil" using assms(1) by auto
qed

lemma common_not_plain:
  assumes "findAttribute commonAttributes n = Some a" "foldName (attrName a) \<in> {attrSchemas, attrMeta}"
  shows "multiValued a \<or> attrType a = TypeComplex"
proof -
  from findAttribute_SomeD [OF assms(1)] have "a \<in> set commonAttributes" by simp
  with assms(2) show ?thesis by (auto simp: commonAttributes_def attrSchemas_def attrMeta_def)
qed

lemma sort_target:
  assumes rt: "storeType rt" and p: "pathURN p = []" "pathSub p = []" "resolveAttr rt p = Some (a, None)"
    and a: "\<not> multiValued a" "attrType a \<noteq> TypeComplex"
  obtains rp where "resolvePath rt (pathAttr p) = Inr rp" "rpAttr rp = Some a" "rpSub rp = None" "storedPath rp"
proof -
  from p have target: "pathlessTarget rt (pathAttr p) = Some a"
    by (auto simp: resolveAttr_filter resolveFilter_def filterNamespace_def pathlessTarget_def
        split: option.splits if_splits)
  from pathless_key_resolves [OF _ target] rt obtain rp where
    rp: "resolvePath rt (pathAttr p) = Inr rp" "rpAttr rp = Some a" "rpSub rp = None"
    by (auto simp: storeType_def rtValid_def)
  have "foldName (attrName a) \<notin> {attrSchemas, attrMeta}" if "rpCommon rp"
  proof -
    from resolvePath_resolvedOk [OF rp(1)] rp(2) that
    have "namespaceAttr rt (rpUrn rp) (attrName a) = (Some a, True)" by (simp add: resolvedOk_def)
    then have "findAttribute commonAttributes (attrName a) = Some a"
      by (auto simp: namespaceAttr_def split: option.splits if_splits)
    with common_not_plain [OF this] a show ?thesis by blast
  qed
  with rp show thesis by (intro that [of rp]) (auto simp: storedPath_def)
qed

lemma sort_keys_of_class:
  assumes rt: "storeType rt" and r: "resourceOk r" "rRT r = rt"
    and p: "pathURN p = []" "pathSub p = []" "resolveAttr rt p = Some (a, None)"
    and a: "\<not> multiValued a" "sortClass (attrType a) \<noteq> NoKey"
  shows "sortKey r rt p a None \<in> classKeys (sortClass (attrType a))"
    and "sortKey r rt p a None = VNil \<longleftrightarrow> Get r (pathAttr p) = None"
proof -
  have path: "fullPathText p = pathAttr p" by (simp add: fullPathText_def attrPathText_def p)
  from a(2) have "attrType a \<noteq> TypeComplex" by (auto simp: sortClass_def)
  with sort_target [OF rt p a(1)] obtain rp where
    rp: "resolvePath rt (pathAttr p) = Inr rp" "rpAttr rp = Some a" "rpSub rp = None" "storedPath rp" .
  have ok: "resourceTypeOk (rRT r)" using rt r(2) by (simp add: storeType_def)
  have stored: "storedValue a v" if "Get r (pathAttr p) = Some v" for v
    using Get_stored [OF ok r(1) _ rp(2,4,3) that] rp(1) r(2) by simp
  have key: "sortKey r rt p a None = (case Get r (pathAttr p) of None \<Rightarrow> VNil | Some v \<Rightarrow> v)"
    using a(1) by (simp add: sortKey_def path)
  show "sortKey r rt p a None \<in> classKeys (sortClass (attrType a))"
    "sortKey r rt p a None = VNil \<longleftrightarrow> Get r (pathAttr p) = None"
    using stored_key [OF stored a] by (auto simp: key classKeys_def split: option.split)
qed

lemma weak_order_vimage:
  assumes "weak_order cmp S" shows "weak_order (\<lambda>a b. cmp (f a) (f b)) (f -` S)"
proof -
  from assms show ?thesis unfolding weak_order_def vimage_def by blast
qed

text \<open>C24. Sorting by a single-valued string, reference, boolean, integer, dateTime or binary
  attribute permutes the resources, puts every pair in the order of the comparison, in both
  directions with the resources that lack the attribute last, and keeps the order of
  resources with equal keys.\<close>

theorem sort_is_stable_sort:
  assumes "storeType rt" and "\<forall>r \<in> set rs. resourceOk r \<and> rRT r = rt"
    and "pathURN p = []" and "pathSub p = []" and "resolveAttr rt p = Some (a, None)"
    and "\<not> multiValued a" and "sortClass (attrType a) \<noteq> NoKey"
  shows "mset (SortResources rs rt (Some p) asc) = mset rs \<and>
    sorted_wrt (\<lambda>r r'. sortCompare (sortKey r rt p a None) (sortKey r' rt p a None) a asc \<le> 0)
      (SortResources rs rt (Some p) asc) \<and>
    sorted_wrt (\<lambda>r r'. Get r' (pathAttr p) \<noteq> None \<longrightarrow> Get r (pathAttr p) \<noteq> None)
      (SortResources rs rt (Some p) asc) \<and>
    (\<forall>r \<in> set rs.
       filter (\<lambda>r'. sortCompare (sortKey r rt p a None) (sortKey r' rt p a None) a asc = 0)
         (SortResources rs rt (Some p) asc) =
       filter (\<lambda>r'. sortCompare (sortKey r rt p a None) (sortKey r' rt p a None) a asc = 0) rs)"
proof -
  define cmp where "cmp = (\<lambda>r r'. sortCompare (sortKey r rt p a None) (sortKey r' rt p a None) a asc)"
  define S where "S = (\<lambda>r. sortKey r rt p a None) -` classKeys (sortClass (attrType a))"
  note key = sort_keys_of_class [OF assms(1) _ _ assms(3-7)]
  have sorted: "SortResources rs rt (Some p) asc = sortStableFunc cmp rs"
    using assms(5) by (simp add: SortResources_eq cmp_def targetAttr_def)
  have "weak_order cmp S"
    unfolding cmp_def S_def by (rule weak_order_vimage [OF keys.weak_order_axioms])
  moreover have sub: "set rs \<subseteq> S" using key(1) assms(2) by (auto simp: S_def)
  ultimately have order: "sorted_wrt (\<lambda>r r'. cmp r r' \<le> 0) (sortStableFunc cmp rs)"
    and stable: "\<And>z. z \<in> S \<Longrightarrow> filter (\<lambda>y. cmp z y = 0) (sortStableFunc cmp rs) = filter (\<lambda>y. cmp z y = 0) rs"
    by (auto dest: weak_order.sort_sorted)
  have "sorted_wrt (\<lambda>r r'. Get r' (pathAttr p) \<noteq> None \<longrightarrow> Get r (pathAttr p) \<noteq> None) (sortStableFunc cmp rs)"
  proof (rule sorted_wrt_mono_rel [OF _ order])
    fix r r'
    assume "r \<in> set (sortStableFunc cmp rs)" "r' \<in> set (sortStableFunc cmp rs)" and le: "cmp r r' \<le> 0"
    then have "r \<in> set rs" "r' \<in> set rs" by simp_all
    with key(2) [of r] key(2) [of r'] assms(2) le
    show "Get r' (pathAttr p) \<noteq> None \<longrightarrow> Get r (pathAttr p) \<noteq> None"
      by (auto simp: cmp_def sortCompare_def)
  qed
  with order stable sub show ?thesis
    unfolding sorted by (auto simp: cmp_def)
qed

definition codePath :: fpath where "codePath = FPath [] ''code'' [] None"

lemma codePath_resolves: "resolveAttr badgeType codePath = Some (badgeAttrs ! 0, None)"
  by code_simp

theorem sort_is_stable_sort_witness:
  "SortResources [badge1, badge2] badgeType (Some codePath) False = [badge2, badge1] \<and>
   sorted_wrt (\<lambda>r r'. sortCompare (sortKey r badgeType codePath (badgeAttrs ! 0) None)
       (sortKey r' badgeType codePath (badgeAttrs ! 0) None) (badgeAttrs ! 0) False \<le> 0)
     (SortResources [badge1, badge2] badgeType (Some codePath) False)"
proof -
  have ok: "\<forall>r \<in> set [badge1, badge2]. resourceOk r \<and> rRT r = badgeType"
    using badge_accepted by (simp add: memAccepts_def)
  have path: "pathURN codePath = []" "pathSub codePath = []" by (simp_all add: codePath_def)
  have attr: "\<not> multiValued (badgeAttrs ! 0)" "sortClass (attrType (badgeAttrs ! 0)) \<noteq> NoKey"
    by (simp_all add: badge_defs sortClass_def)
  note sort = sort_is_stable_sort [OF badgeType_store ok path codePath_resolves attr, of False]
  have "SortResources [badge1, badge2] badgeType (Some codePath) False = [badge2, badge1]"
    by code_simp
  then show ?thesis using sort [THEN conjunct2, THEN conjunct1] by (rule conjI)
qed

subsection \<open>Queries\<close>

text \<open>C25. The scan fallback of the query engine answers as the push-down: whatever filters and
  sort paths a store reports it cannot evaluate, the query has the answer the store would give
  itself, or, when the store holds more resources than MaxFilterResults, tooMany.\<close>

theorem fallback_answers_as_pushdown:
  assumes "reachable rt s" and "storeType rt" and "thRT h = rt" and "thStore h = limitedStore n f g"
    and "queryOk q" and "int (length (memRows s)) < 2 ^ 62"
    and "0 < cfgMaxFilterResults (thConfig h)" and "cfgMaxFilterResults (thConfig h) < 2 ^ 62 - 1"
  shows "runQuery h q s = memList q s \<or>
    runQuery h q s = Inl (ScimErr ErrTooMany) \<and> cfgMaxFilterResults (thConfig h) < int (length (memRows s))"
proof -
  from reachable_ok [OF assms(1,2)] have inv: "memInvar rt s" by (simp add: memInvar_def)
  note list = limitedlist.list_rows [OF inv assms(6), of q]
  have spec: "memList q s = listSpec rt q (map snd (memRows s))"
    using list assms(5) by (simp add: mem_sel queryOk_def)
  have scan: "scanQuery h q b s = memList q s \<or> scanQuery h q b s = Inl (ScimErr ErrTooMany) \<and>
      cfgMaxFilterResults (thConfig h) < int (length (memRows s))" for b
  proof (cases "matchAll (if b then qFilter q else None) (map snd (memRows s))")
    case (Inl e)
    then have "b" by (cases b) simp_all
    with Inl limitedlist.scanQuery_spec [OF inv assms(3-8), of b] show ?thesis
      by (simp add: spec listSpec_def)
  next
    case (Inr fetched)
    then have "length fetched \<le> length (memRows s)"
      using matchAll_Inr [of _ "map snd (memRows s)" fetched] length_filter_le [of _ "map snd (memRows s)"]
      by (cases "if b then qFilter q else None") (auto split: if_splits)
    with Inr limitedlist.scanQuery_spec [OF inv assms(3-8), of b] show ?thesis
      by (simp add: spec)
  qed
  show ?thesis
  proof (cases "(case qFilter q of None \<Rightarrow> True | Some f \<Rightarrow> supportsFilter h f) \<and>
      (case qSortBy q of None \<Rightarrow> True | Some p \<Rightarrow> supportsSort h p)")
    case True
    then show ?thesis by (simp add: runQuery_def Let_def assms(4) mem_sel)
  next
    case False
    then obtain b where "runQuery h q s = scanQuery h q b s" by (auto simp: runQuery_def Let_def)
    with scan [of b] show ?thesis by simp
  qed
qed

definition codeQuery :: query where
  "codeQuery = zeroQuery\<lparr>qFilter := Some (Present (FPath [] ''code'' [] None)), qSortBy := Some codePath,
     qAscending := False, qStartIndex := 1, qCount := 5\<rparr>"

theorem fallback_answers_as_pushdown_witness:
  "runQuery \<lparr>thRT = badgeType, thStore = limitedStore False (Some (\<lambda>_. False)) None, thConfig = badgeConfig\<rparr>
     codeQuery twoBadges =
   Inr \<lparr>pgResources = [stamped 1 badge2, stamped 1 badge1], pgTotalResults = 2\<rparr>"
proof -
  define h where
    "h = \<lparr>thRT = badgeType, thStore = limitedStore False (Some (\<lambda>_. False)) None, thConfig = badgeConfig\<rparr>"
  have h: "thRT h = badgeType" "thStore h = limitedStore False (Some (\<lambda>_. False)) None"
    "cfgMaxFilterResults (thConfig h) = 10"
    by (simp_all add: h_def badgeConfig_def)
  have size: "int (length (memRows twoBadges)) = 2" by code_simp
  have "queryOk codeQuery" by (simp add: queryOk_def codeQuery_def zeroQuery_def)
  from fallback_answers_as_pushdown [OF twoBadges_reachable(2) badgeType_store h(1,2) this]
  have "runQuery h codeQuery twoBadges = memList codeQuery twoBadges"
    unfolding size h(3) by simp
  moreover have "memList codeQuery twoBadges =
      Inr \<lparr>pgResources = [stamped 1 badge2, stamped 1 badge1], pgTotalResults = 2\<rparr>"
    by code_simp
  ultimately show ?thesis unfolding h_def by (rule trans)
qed

end
