(* ===== verification/Serve_Properties.thy ===== *)
theory Serve_Properties
  imports List_Properties
begin

text \<open>
  The properties of the server as a whole: the invariant of its stores under any request, the
  answer of the list handler, the guard in front of the routes and the routes themselves.
\<close>

subsection \<open>The stores\<close>

text \<open>C26. A server made by New over in-memory stores keeps the invariant of every one of its
  stores under any request: whatever the method, the path, the credentials, the headers and
  the body, and whatever other writers do that keep it, each store holds well-formed
  resources of its type under their own ids, with consistent indexes, unique attributes
  unique and versions in step.\<close>

theorem requests_keep_stores:
  assumes "newServer cfg = Inr sv"
    and "\<forall>reg \<in> set (cfgResourceTypes cfg).
      putType (regType reg) \<and> (\<exists>n f g. regStore reg = Some (limitedStore n f g))"
    and "\<forall>reg \<in> set (cfgResourceTypes cfg). memInvar (regType reg) (s (rtEndpoint (regType reg)))"
    and "\<forall>reg \<in> set (cfgResourceTypes cfg). \<forall>k s. memInvar (regType reg) s \<longrightarrow>
      memInvar (regType reg) (others (rtEndpoint (regType reg)) k s)"
  shows "\<forall>reg \<in> set (cfgResourceTypes cfg).
    memInvar (regType reg) (snd (ServeHTTP sv digest e others hq s) (rtEndpoint (regType reg)))"
proof -
  from newServer_wired [OF assms(1)] have w: "wired sv"
    and rts: "map thRT (svTypes sv) = map regType (cfgResourceTypes cfg)"
    and sts: "map (Some \<circ> thStore) (svTypes sv) = map regStore (cfgResourceTypes cfg)" by auto
  have all: "list_all (\<lambda>h. P (thRT h)) (svTypes sv) \<longleftrightarrow> (\<forall>reg \<in> set (cfgResourceTypes cfg). P (regType reg))" for P
  proof -
    have "list_all P (map thRT (svTypes sv)) \<longleftrightarrow> list_all P (map regType (cfgResourceTypes cfg))" using rts by simp
    then show ?thesis by (simp add: list.pred_map comp_def list_all_iff)
  qed
  have stores: "list_all (\<lambda>h. \<exists>n f g. thStore h = limitedStore n f g) (svTypes sv)"
  proof -
    have "list_all (\<lambda>st. \<exists>n f g. st = Some (limitedStore n f g)) (map regStore (cfgResourceTypes cfg))"
      using assms(2) by (simp add: list_all_iff)
    then have "list_all (\<lambda>st. \<exists>n f g. st = Some (limitedStore n f g)) (map (Some \<circ> thStore) (svTypes sv))"
      by (simp only: sts)
    then show ?thesis by (simp add: list.pred_map comp_def)
  qed
  have mem: "memBacked sv" using stores assms(2) all [of putType] by (simp add: memBacked_def list_all_iff)
  have ok: "serverOk sv s" using assms(3) all [of "\<lambda>rt. memInvar rt (s (rtEndpoint rt))"] by (simp add: serverOk_def)
  have "list_all (\<lambda>h. \<forall>k s. memInvar (thRT h) s \<longrightarrow> memInvar (thRT h) (others (rtEndpoint (thRT h)) k s)) (svTypes sv)"
    using assms(4) all [of "\<lambda>rt. \<forall>k s. memInvar rt s \<longrightarrow> memInvar rt (others (rtEndpoint rt) k s)"] by simp
  then have "serverOk sv (snd (ServeHTTP sv digest e others hq s))"
    by (intro ServeHTTP_keeps [OF w mem ok]) (auto simp: list_all_iff)
  then show ?thesis
    using all [of "\<lambda>rt. memInvar rt (snd (ServeHTTP sv digest e others hq s) (rtEndpoint rt))"]
    by (simp add: serverOk_def)
qed

lemma badge_regs: "cfgResourceTypes badgeConfig = [\<lparr>regType = badgeType, regStore = Some memStore\<rparr>]"
  by (simp add: badgeConfig_def)

theorem requests_keep_stores_witness:
  "\<exists>sv. newServer badgeConfig = Inr sv \<and>
     memInvar badgeType (snd (ServeHTTP sv sampleDigest sampleEnv (\<lambda>_. raceOnce) postSample
       (\<lambda>_. twoBadges)) ''/Badges'')"
proof -
  from badge_server obtain sv where sv: "newServer badgeConfig = Inr sv" by blast
  have "\<forall>k s. memInvar badgeType s \<longrightarrow> memInvar badgeType (raceOnce k s)"
    using memserved.writers_invar [OF raceOnce_writers] by blast
  then have others: "\<forall>reg \<in> set (cfgResourceTypes badgeConfig). \<forall>k s.
      memInvar (regType reg) s \<longrightarrow> memInvar (regType reg) (raceOnce k s)"
    by (simp add: badge_regs)
  have types: "\<forall>reg \<in> set (cfgResourceTypes badgeConfig).
      putType (regType reg) \<and> (\<exists>n f g. regStore reg = Some (limitedStore n f g))"
    using memStore_limited by (simp add: badge_regs badgeType_ok) blast
  have start: "\<forall>reg \<in> set (cfgResourceTypes badgeConfig). memInvar (regType reg) twoBadges"
    by (simp add: badge_regs twoBadges_invar)
  have "rtEndpoint badgeType = ''/Badges''" by (simp add: badgeType_def)
  with sv requests_keep_stores [OF sv types start others, of sampleDigest sampleEnv postSample]
  show ?thesis by (auto simp: badge_regs)
qed

subsection \<open>Lists\<close>

lemma encode_all:
  "rfold (\<lambda>r out. rbind (f r) (\<lambda>v. Inr (out @ [v]))) rs out = Inr vs \<Longrightarrow>
     \<exists>ws. vs = out @ ws \<and> list_all2 (\<lambda>r v. f r = Inr v) rs ws"
proof (induction rs arbitrary: out)
  case (Cons r rs)
  from Cons.prems obtain v where v: "f r = Inr v"
    and rest: "rfold (\<lambda>r out. rbind (f r) (\<lambda>v. Inr (out @ [v]))) rs (out @ [v]) = Inr vs"
    by (auto simp: rbind_eq_Inr)
  from Cons.IH [OF rest] obtain ws where "vs = (out @ [v]) @ ws" "list_all2 (\<lambda>r v. f r = Inr v) rs ws" by blast
  with v show ?case by (intro exI [of _ "v # ws"]) simp
qed simp

text \<open>C27. A list answer of the handler is the requested page of the requested selection: the
  resources that satisfy the filter, sorted, from startIndex on and at most count of them,
  each encoded under the projection; totalResults counts the whole selection, startIndex is at
  least 1 and no page is larger than MaxPageSize.\<close>

theorem list_answers_the_query:
  assumes "reachable (thRT h) s" and "storeType (thRT h)" and "thStore h = memStore"
    and "configLimits (thConfig h)" and "cfgMaxPageSize (thConfig h) < 2 ^ 62"
    and "int (length (memRows s)) < 2 ^ 62"
    and "rsBody (handleList h digest rq s) = ListBody ls"
  shows "\<exists>lr matched.
    parseListParams (rqQuery rq) (thRT h) (thConfig h) = Inr lr \<and>
    matchAll (qFilter (lrQuery lr)) (map snd (memRows s)) = Inr matched \<and>
    lsTotalResults ls = int (length matched) \<and>
    lsStartIndex ls = qStartIndex (lrQuery lr) \<and> 1 \<le> lsStartIndex ls \<and>
    lsItemsPerPage ls = int (length (lsResources ls)) \<and> lsItemsPerPage ls \<le> cfgMaxPageSize (thConfig h) \<and>
    list_all2 (\<lambda>r v. encodeListed digest (lrProjection lr) r = Inr v)
      (take (nat (qCount (lrQuery lr))) (drop (nat (qStartIndex (lrQuery lr) - 1))
        (SortResources matched (thRT h) (qSortBy (lrQuery lr)) (qAscending (lrQuery lr)))))
      (lsResources ls)"
proof (cases "parseListParams (rqQuery rq) (thRT h) (thConfig h)")
  case (Inl e)
  then show ?thesis using assms(7) by (simp add: handleList_def writeError_def Let_def)
next
  case (Inr lr)
  define q where "q = lrQuery lr"
  have bounds: "1 \<le> qStartIndex q" "0 \<le> qCount q" "qCount q \<le> cfgMaxPageSize (thConfig h)"
    using normalize_bounds [OF Inr [unfolded parseListParams_def] assms(4)] by (simp_all add: q_def)
  from assms(7) Inr obtain p encoded where run: "runQuery h q s = Inr p"
    and enc: "rfold (\<lambda>r out. rbind (encodeListed digest (lrProjection lr) r) (\<lambda>v. Inr (out @ [v])))
      (pgResources p) [] = Inr encoded"
    and ls: "ls = \<lparr>lsTotalResults = pgTotalResults p, lsStartIndex = qStartIndex q,
      lsItemsPerPage = int (length encoded), lsResources = encoded\<rparr>"
    by (auto simp: handleList_def respondList_def writeError_def Let_def rbind_eq_Inr q_def
        split: sum.splits)
  have "runQuery h q s = memList q s"
    by (simp add: runQuery_def Let_def supportsFilter_def supportsSort_def assms(3) memStore_def
        split: option.split)
  moreover from reachable_ok [OF assms(1,2)] have inv: "memInvar (thRT h) s" by (simp add: memInvar_def)
  moreover have "memList q s = listSpec (thRT h) q (map snd (memRows s))"
    using memlist.list_rows [OF inv assms(6), of q] bounds assms(5) by (simp add: mem_sel)
  ultimately have "listSpec (thRT h) q (map snd (memRows s)) = Inr p" using run by simp
  then obtain matched where matched: "matchAll (qFilter q) (map snd (memRows s)) = Inr matched"
    and p: "pgResources p = take (nat (qCount q)) (drop (nat (qStartIndex q - 1))
        (SortResources matched (thRT h) (qSortBy q) (qAscending q)))" "pgTotalResults p = int (length matched)"
    by (auto simp: listSpec_def rbind_eq_Inr)
  from encode_all [OF enc] have all: "list_all2 (\<lambda>r v. encodeListed digest (lrProjection lr) r = Inr v)
      (pgResources p) encoded" by simp
  then have "length encoded = length (pgResources p)" by (simp add: list_all2_lengthD)
  then have "int (length encoded) \<le> qCount q" using bounds(2) by (simp add: p)
  with bounds Inr matched p all show ?thesis by (auto simp: ls q_def)
qed

theorem list_answers_the_query_witness:
  "\<exists>ls lr. rsBody (handleList liveHandler sampleDigest listSample twoBadges) = ListBody ls \<and>
     parseListParams (rqQuery listSample) badgeType liveConfig = Inr lr \<and>
     lsTotalResults ls = 2 \<and> lsItemsPerPage ls = 1 \<and> lsItemsPerPage ls \<le> cfgMaxPageSize liveConfig"
proof -
  define body where "body = rsBody (handleList liveHandler sampleDigest listSample twoBadges)"
  have "case body of ListBody ls \<Rightarrow> lsTotalResults ls = 2 \<and> lsItemsPerPage ls = 1 | _ \<Rightarrow> False"
    unfolding body_def by code_simp
  then obtain ls where ls: "body = ListBody ls" "lsTotalResults ls = 2" "lsItemsPerPage ls = 1"
    by (auto split: body.splits)
  have h: "thRT liveHandler = badgeType" "thStore liveHandler = memStore" "thConfig liveHandler = liveConfig"
    by (simp_all add: liveHandler_def)
  have size: "int (length (memRows twoBadges)) = 2" by code_simp
  have limits: "configLimits liveConfig" "cfgMaxPageSize liveConfig = 200"
    by (simp_all add: configLimits_def liveConfig_def badgeConfig_def)
  from list_answers_the_query [of liveHandler, unfolded h, OF twoBadges_reachable(2) badgeType_store refl limits(1),
      unfolded limits(2) size, OF _ _ ls(1) [unfolded body_def]]
  obtain lr where "parseListParams (rqQuery listSample) badgeType liveConfig = Inr lr" by auto
  with ls show ?thesis by (auto simp: body_def limits(2))
qed

subsection \<open>The guard and the routes\<close>

text \<open>C33. With StaticBearerToken a request is served only when it presents the secret: every
  other one is answered with status 401 and leaves all stores as they are, except that
  ServiceProviderConfig may be read without credentials when the configuration exempts it,
  which changes no store either. An empty secret admits no one.\<close>

theorem guard_admits_only_the_secret:
  assumes "newServer cfg = Inr sv" and "cfgAuth cfg = Some (StaticBearerToken secret)"
  shows "ServeHTTP sv digest e others hq s = (statusError 401, s) \<or>
    (secret \<noteq> [] \<and> equalFold (take 7 (hqAuthorization hq)) ''bearer '' \<and>
     trimSpace (drop 7 (hqAuthorization hq)) = secret) \<or>
    (cfgExemptSPC cfg \<and> hqPath hq = [''ServiceProviderConfig''] \<and>
     snd (ServeHTTP sv digest e others hq s) = s)"
proof -
  from newServer_wired [OF assms(1)] assms(2) have w: "wired sv"
    and sv: "cfgAuth (svConfig sv) = Some (StaticBearerToken secret)" "cfgExemptSPC (svConfig sv) = cfgExemptSPC cfg"
    by auto
  show ?thesis
  proof (cases "exempt sv hq")
    case True
    then have hq: "cfgExemptSPC cfg" "hqPath hq = [''ServiceProviderConfig'']"
      "hqMethod hq = ''GET'' \<or> hqMethod hq = ''HEAD''" by (simp_all add: exempt_def sv)
    have own: "\<forall>h \<in> set (svTypes sv). rtEndpoint (thRT h) \<noteq> CHR ''/'' # ''ServiceProviderConfig''"
      using w by (auto simp: wired_def list_all_iff registrable_def)
    from hq firstRoute_discovery [OF own, of "''GET''" "[]"]
    have "muxRoute (svTypes sv) (hqMethod hq) (hqPath hq) = SPCRoute"
      by (auto simp: muxRoute_def registerDiscovery_def)
    then have "snd (ServeHTTP sv digest e others hq s) = s"
      using True by (simp add: ServeHTTP_def sv serveCore_def serveRoute_def Let_def)
    with hq show ?thesis by blast
  next
    case False
    show ?thesis
    proof (cases "authorized (StaticBearerToken secret) (hqAuthorization hq)")
      case True
      then obtain t where "bearerToken (hqAuthorization hq) = Some t" "secret \<noteq> []" "t = secret"
        by (auto simp: authorized_def StaticBearerToken_def split: option.splits)
      moreover have "length bearerPrefix = 7" by (simp add: bearerPrefix_def)
      ultimately show ?thesis
        unfolding bearerToken_def Let_def by (auto simp: bearerPrefix_def [symmetric] split: if_splits)
    next
      case unauthorized: False
      with False show ?thesis by (simp add: ServeHTTP_def sv)
    qed
  qed
qed

theorem guard_admits_only_the_secret_witness:
  "\<exists>sv. newServer guardedConfig = Inr sv \<and>
     ServeHTTP sv sampleDigest sampleEnv (\<lambda>_ _ s. s) postSample (\<lambda>_. twoBadges) =
       (statusError 401, \<lambda>_. twoBadges)"
proof -
  from guarded_server obtain sv where sv: "newServer guardedConfig = Inr sv" by blast
  have "cfgAuth guardedConfig = Some (StaticBearerToken ''key'')" by (simp add: guardedConfig_def)
  note guard = guard_admits_only_the_secret [OF sv this, of sampleDigest sampleEnv "\<lambda>_ _ s. s" postSample "\<lambda>_. twoBadges"]
  have "trimSpace (drop 7 (hqAuthorization postSample)) = ''kex''" by code_simp
  moreover have "\<not> cfgExemptSPC guardedConfig" by (simp add: guardedConfig_def badgeConfig_def)
  ultimately show ?thesis using guard sv by auto
qed

text \<open>C34. Every operation of every registered type is reached at its documented method and path,
  a GET of a search path reading as a resource of that id, and no registered type hides the
  discovery endpoints.\<close>

theorem routes_reach_the_handlers:
  assumes "newServer cfg = Inr sv" and "h \<in> set (svTypes sv)"
    and "rtEndpoint (thRT h) = CHR ''/'' # ep" and "i \<noteq> ''/''"
  shows "muxRoute (svTypes sv) ''POST'' [ep] = CreateRoute h \<and>
    muxRoute (svTypes sv) ''GET'' [ep] = ListRoute h \<and>
    muxRoute (svTypes sv) ''POST'' [ep, ''.search''] = SearchRoute h \<and>
    muxRoute (svTypes sv) ''GET'' [ep, i] = GetRoute h i \<and>
    muxRoute (svTypes sv) ''HEAD'' [ep, i] = GetRoute h i \<and>
    muxRoute (svTypes sv) ''PUT'' [ep, i] = ReplaceRoute h i \<and>
    muxRoute (svTypes sv) ''PATCH'' [ep, i] = PatchRoute h i \<and>
    muxRoute (svTypes sv) ''DELETE'' [ep, i] = DeleteRoute h i \<and>
    muxRoute (svTypes sv) ''GET'' [''Schemas''] = SchemasRoute \<and>
    muxRoute (svTypes sv) ''GET'' [''Schemas'', i] = SchemaRoute i \<and>
    muxRoute (svTypes sv) ''GET'' [''ResourceTypes''] = ResourceTypesRoute \<and>
    muxRoute (svTypes sv) ''GET'' [''ResourceTypes'', i] = ResourceTypeRoute i \<and>
    muxRoute (svTypes sv) ''GET'' [''ServiceProviderConfig''] = SPCRoute"
proof -
  from newServer_wired [OF assms(1)] have w: "wired sv" by simp
  then have dist: "distinct (map (rtEndpoint \<circ> thRT) (svTypes sv))" by (simp add: wired_def)
  have own: "muxRoute (svTypes sv) m (ep # rest) = r"
    if "registerType h (if m = ''HEAD'' then ''GET'' else m) (ep # rest) = Some r" for m rest r
    using firstRoute_type [OF assms(2) dist assms(3) that] by (simp add: muxRoute_def)
  have "\<forall>h \<in> set (svTypes sv). rtEndpoint (thRT h) \<noteq> CHR ''/'' # p"
    if "p \<in> {''Schemas'', ''ResourceTypes'', ''ServiceProviderConfig''}" for p
    using w that by (auto simp: wired_def list_all_iff registrable_def)
  then have disc: "muxRoute (svTypes sv) ''GET'' (p # rest) = r"
    if "p \<in> {''Schemas'', ''ResourceTypes'', ''ServiceProviderConfig''}"
      "registerDiscovery ''GET'' (p # rest) = Some r" for p rest r
    using that firstRoute_discovery [of "svTypes sv" p "''GET''" rest] by (simp add: muxRoute_def)
  show ?thesis
    by (intro conjI own disc) (use assms(3,4) in \<open>simp_all add: registerType_def registerDiscovery_def\<close>)
qed

theorem routes_reach_the_handlers_witness:
  "\<exists>sv h. newServer badgeConfig = Inr sv \<and> muxRoute (svTypes sv) ''PATCH'' [''Badges'', ''b1''] = PatchRoute h ''b1'' \<and>
     thRT h = badgeType"
proof -
  from badge_server obtain sv where sv: "newServer badgeConfig = Inr sv" by blast
  with newServer_wired [OF sv] obtain h where h: "svTypes sv = [h]" "thRT h = badgeType"
    by (cases "svTypes sv") (auto simp: badge_regs)
  have "muxRoute (svTypes sv) ''PATCH'' [''Badges'', ''b1''] = PatchRoute h ''b1''"
    using routes_reach_the_handlers [OF sv, of h "''Badges''" "''b1''"] h by (simp add: badgeType_def)
  with sv h(2) show ?thesis by blast
qed

end
