(* ===== verification/Server_Findings.thy ===== *)
theory Server_Findings
  imports Serve_Properties
begin

text \<open>
  Behaviours of the server the model shows and the documentation does not mention, each on a
  concrete configuration or resource.
\<close>

text \<open>\<open>Config.validate\<close> accepts an endpoint that is also a discovery endpoint; \<open>New\<close> then registers
  the pattern twice, which panics instead of returning an error.\<close>

definition reservedConfig :: "memstore config" where
  "reservedConfig =
     badgeConfig\<lparr>cfgResourceTypes :=
       [\<lparr>regType = badgeType\<lparr>rtEndpoint := ''/Schemas''\<rparr>, regStore = Some memStore\<rparr>]\<rparr>"

lemma reserved_endpoint_panics:
  "(\<exists>c. configValidate reservedConfig = Inr c) \<and> newServer reservedConfig = Inl PatternPanic"
proof -
  have schema: "schemaValidate (rtSchema (badgeType\<lparr>rtEndpoint := ep\<rparr>)) = Inr ()" for ep
    using badge_schema by simp
  have "configValidate reservedConfig =
      Inr (liveConfig\<lparr>cfgResourceTypes := cfgResourceTypes reservedConfig\<rparr>)"
    by (simp add: reservedConfig_def configValidate_def badgeConfig_def liveConfig_def trimRight_def
        defaultPageSize_def defaultMaxPageSize_def defaultMaxBodyBytes_def validateRegistrations_def
        validateRegistration_def Let_def badge_schema) (simp add: badgeType_def)
  then show ?thesis by (simp add: newServer_def) (simp add: reservedConfig_def registrable_def)
qed

text \<open>With \<open>MaxFilterResults\<close> the largest integer, an accepted value, the fetch size
  \<open>MaxFilterResults + 1\<close> of the scan overflows: the fallback answers an empty list.\<close>

definition unlimitedHandler :: "memstore typeHandler" where
  "unlimitedHandler =
     \<lparr>thRT = badgeType, thStore = limitedStore False (Some (\<lambda>_. False)) None,
      thConfig = liveConfig\<lparr>cfgMaxFilterResults := 2 ^ 63 - 1\<rparr>\<rparr>"

lemma unlimited_scan_is_empty:
  "configLimits (thConfig unlimitedHandler) \<and>
   runQuery unlimitedHandler codeQuery twoBadges = Inr \<lparr>pgResources = [], pgTotalResults = 0\<rparr> \<and>
   memList codeQuery twoBadges =
     Inr \<lparr>pgResources = [stamped 1 badge2, stamped 1 badge1], pgTotalResults = 2\<rparr>"
  by code_simp

text \<open>A PUT of a resource with a readOnly or immutable attribute stored as a typed slice fails with
  invalidValue, because the merge writes the stored slice back.\<close>

definition slotType :: resource_type where
  "slotType =
     badgeType\<lparr>rtSchema := (rtSchema badgeType)\<lparr>schemaAttributes :=
       [plainAttr ''slots'' TypeInteger True MutabilityReadOnly ReturnedDefault]\<rparr>\<rparr>"

definition slotted :: resource where
  "slotted = \<lparr>rRT = slotType, rAttrs = [(''id'', VString ''s''), (''slots'', VInt64s [1, 2])], rMeta = zeroMeta\<rparr>"

lemma put_rejects_typed_slice:
  "putType slotType \<and> resourceOk slotted \<and>
   mergePut zeroTime (NewResource slotType) slotted slotType = Inl ErrInvalidValue"
  unfolding putType_def by code_simp

end
