(* ===== verification/Scim_Builtin.thy ===== *)
theory Scim_Builtin
  imports Server_Pipeline
begin

text \<open>
  \<open>scim/schema_gen.go\<close> and the built-in types of \<open>scim/resource_type.go\<close>: the schemas of
  RFC 7643 as the generated code has them, one definition per top-level attribute, with their
  descriptions, and the User and Group resource types. They satisfy what the theorems about
  resources, PATCH, the store and the server ask of a resource type.
\<close>

subsection \<open>User\<close>

definition attr_User_userName :: attribute where
  "attr_User_userName =
     Attribute ''userName'' TypeString [] False
       (''Unique identifier for the User, typically used by the user to directly'' @
        '' authenticate to the service provider. Each User MUST include a non-empty'' @
        '' userName value.  This identifier MUST be unique across the service'' @
        '' provider's entire set of Users. REQUIRED.'')
       True [] False MutabilityReadWrite ReturnedDefault UniquenessServer []"

definition attr_User_name :: attribute where
  "attr_User_name =
     Attribute ''name'' TypeComplex 
       [Attribute ''formatted'' TypeString [] False
          (''The full name, including all middle names, titles, and suffixes as'' @
           '' appropriate, formatted for display (e.g., 'Ms. Barbara J Jensen, III').'')
          False [] False MutabilityReadWrite ReturnedDefault UniquenessNone [],
        Attribute ''familyName'' TypeString [] False
          (''The family name of the User, or last name in most Western languages (e.g.,'' @
           '' 'Jensen' given the full name 'Ms. Barbara J Jensen, III').'')
          False [] False MutabilityReadWrite ReturnedDefault UniquenessNone [],
        Attribute ''givenName'' TypeString [] False
          (''The given name of the User, or first name in most Western languages (e.g.,'' @
           '' 'Barbara' given the full name 'Ms. Barbara J Jensen, III').'')
          False [] False MutabilityReadWrite ReturnedDefault UniquenessNone [],
        Attribute ''middleName'' TypeString [] False
          (''The middle name(s) of the User (e.g., 'Jane' given the full name 'Ms.'' @
           '' Barbara J Jensen, III').'')
          False [] False MutabilityReadWrite ReturnedDefault UniquenessNone [],
        Attribute ''honorificPrefix'' TypeString [] False
          (''The honorific prefix(es) of the User, or title in most Western languages'' @
           '' (e.g., 'Ms.' given the full name 'Ms. Barbara J Jensen, III').'')
          False [] False MutabilityReadWrite ReturnedDefault UniquenessNone [],
        Attribute ''honorificSuffix'' TypeString [] False
          (''The honorific suffix(es) of the User, or suffix in most Western languages'' @
           '' (e.g., 'III' given the full name 'Ms. Barbara J Jensen, III').'')
          False [] False MutabilityReadWrite ReturnedDefault UniquenessNone []] False
       (''The components of the user's real name. Providers MAY return just the full'' @
        '' name as a single string in the formatted sub-attribute, or they MAY return'' @
        '' just the individual component attributes using the other sub-attributes, or'' @
        '' they MAY return both.  If both variants are returned, they SHOULD be'' @
        '' describing the same name, with the formatted name indicating how the'' @
        '' component attributes should be combined.'')
       False [] False MutabilityReadWrite ReturnedDefault UniquenessNone []"

definition attr_User_displayName :: attribute where
  "attr_User_displayName =
     Attribute ''displayName'' TypeString [] False
       (''The name of the User, suitable for display to end-users.  The name SHOULD be'' @
        '' the full name of the User being described, if known.'')
       False [] False MutabilityReadWrite ReturnedDefault UniquenessNone []"

definition attr_User_nickName :: attribute where
  "attr_User_nickName =
     Attribute ''nickName'' TypeString [] False
       (''The casual way to address the user in real life, e.g., 'Bob' or 'Bobby'' @ [CHR 0x27] @
        '' instead of 'Robert'.  This attribute SHOULD NOT be used to represent a'' @
        '' User's username (e.g., 'bjensen' or 'mpepperidge').'')
       False [] False MutabilityReadWrite ReturnedDefault UniquenessNone []"

definition attr_User_profileUrl :: attribute where
  "attr_User_profileUrl =
     Attribute ''profileUrl'' TypeReference [] False
       (''A fully qualified URL pointing to a page representing the User's online'' @
        '' profile.'')
       False [] False MutabilityReadWrite ReturnedDefault UniquenessNone [''external'']"

definition attr_User_title :: attribute where
  "attr_User_title =
     Attribute ''title'' TypeString [] False
       (''The user's title, such as '' @ [CHR 0x22] @ ''Vice President.'' @ [CHR 0x22])
       False [] False MutabilityReadWrite ReturnedDefault UniquenessNone []"

definition attr_User_userType :: attribute where
  "attr_User_userType =
     Attribute ''userType'' TypeString [] False
       (''Used to identify the relationship between the organization and the user.'' @
        ''  Typical values used might be 'Contractor', 'Employee', 'Intern', 'Temp','' @
        '' 'External', and 'Unknown', but any value may be used.'')
       False [] False MutabilityReadWrite ReturnedDefault UniquenessNone []"

definition attr_User_preferredLanguage :: attribute where
  "attr_User_preferredLanguage =
     Attribute ''preferredLanguage'' TypeString [] False
       (''Indicates the User's preferred written or spoken language.  Generally used'' @
        '' for selecting a localized user interface; e.g., 'en_US' specifies the'' @
        '' language English and country US.'')
       False [] False MutabilityReadWrite ReturnedDefault UniquenessNone []"

definition attr_User_locale :: attribute where
  "attr_User_locale =
     Attribute ''locale'' TypeString [] False
       (''Used to indicate the User's default location for purposes of localizing'' @
        '' items such as currency, date time format, or numerical representations.'')
       False [] False MutabilityReadWrite ReturnedDefault UniquenessNone []"

definition attr_User_timezone :: attribute where
  "attr_User_timezone =
     Attribute ''timezone'' TypeString [] False
       (''The User's time zone in the 'Olson' time zone database format, e.g.,'' @
        '' 'America/Los_Angeles'.'')
       False [] False MutabilityReadWrite ReturnedDefault UniquenessNone []"

definition attr_User_active :: attribute where
  "attr_User_active =
     Attribute ''active'' TypeBoolean [] False
       ''A Boolean value indicating the User's administrative status.''
       False [] False MutabilityReadWrite ReturnedDefault UniquenessNone []"

definition attr_User_password :: attribute where
  "attr_User_password =
     Attribute ''password'' TypeString [] False
       (''The User's cleartext password.  This attribute is intended to be used as a'' @
        '' means to specify an initial password when creating a new User or to reset'' @
        '' an existing User's password.'')
       False [] False MutabilityWriteOnly ReturnedNever UniquenessNone []"

definition attr_User_emails :: attribute where
  "attr_User_emails =
     Attribute ''emails'' TypeComplex 
       [Attribute ''value'' TypeString [] False
          (''Email addresses for the user.  The value SHOULD be canonicalized by the'' @
           '' service provider, e.g., 'bjensen@example.com' instead of'' @
           '' 'bjensen@EXAMPLE.COM'. Canonical type values of 'work', 'home', and'' @
           '' 'other'.'')
          False [] False MutabilityReadWrite ReturnedDefault UniquenessNone [],
        Attribute ''display'' TypeString [] False
          ''A human-readable name, primarily used for display purposes.  READ-ONLY.''
          False [] False MutabilityReadWrite ReturnedDefault UniquenessNone [],
        Attribute ''type'' TypeString [] False
          ''A label indicating the attribute's function, e.g., 'work' or 'home'.''
          False [''work'', ''home'', ''other''] False MutabilityReadWrite ReturnedDefault UniquenessNone [],
        Attribute ''primary'' TypeBoolean [] False
          (''A Boolean value indicating the 'primary' or preferred attribute value for'' @
           '' this attribute, e.g., the preferred mailing address or primary email'' @
           '' address.  The primary attribute value 'true' MUST appear no more than once.'')
          False [] False MutabilityReadWrite ReturnedDefault UniquenessNone []] True
       (''Email addresses for the user.  The value SHOULD be canonicalized by the'' @
        '' service provider, e.g., 'bjensen@example.com' instead of'' @
        '' 'bjensen@EXAMPLE.COM'. Canonical type values of 'work', 'home', and'' @
        '' 'other'.'')
       False [] False MutabilityReadWrite ReturnedDefault UniquenessNone []"

definition attr_User_phoneNumbers :: attribute where
  "attr_User_phoneNumbers =
     Attribute ''phoneNumbers'' TypeComplex 
       [Attribute ''value'' TypeString [] False
          ''Phone number of the User.''
          False [] False MutabilityReadWrite ReturnedDefault UniquenessNone [],
        Attribute ''display'' TypeString [] False
          ''A human-readable name, primarily used for display purposes.  READ-ONLY.''
          False [] False MutabilityReadWrite ReturnedDefault UniquenessNone [],
        Attribute ''type'' TypeString [] False
          ''A label indicating the attribute's function, e.g., 'work', 'home', 'mobile'.''
          False [''work'', ''home'', ''mobile'', ''fax'', ''pager'', ''other''] False MutabilityReadWrite ReturnedDefault UniquenessNone [],
        Attribute ''primary'' TypeBoolean [] False
          (''A Boolean value indicating the 'primary' or preferred attribute value for'' @
           '' this attribute, e.g., the preferred phone number or primary phone number.'' @
           ''  The primary attribute value 'true' MUST appear no more than once.'')
          False [] False MutabilityReadWrite ReturnedDefault UniquenessNone []] True
       (''Phone numbers for the User.  The value SHOULD be canonicalized by the'' @
        '' service provider according to the format specified in RFC 3966, e.g.,'' @
        '' 'tel:+1-201-555-0123'. Canonical type values of 'work', 'home', 'mobile','' @
        '' 'fax', 'pager', and 'other'.'')
       False [] False MutabilityReadWrite ReturnedDefault UniquenessNone []"

definition attr_User_ims :: attribute where
  "attr_User_ims =
     Attribute ''ims'' TypeComplex 
       [Attribute ''value'' TypeString [] False
          ''Instant messaging address for the User.''
          False [] False MutabilityReadWrite ReturnedDefault UniquenessNone [],
        Attribute ''display'' TypeString [] False
          ''A human-readable name, primarily used for display purposes.  READ-ONLY.''
          False [] False MutabilityReadWrite ReturnedDefault UniquenessNone [],
        Attribute ''type'' TypeString [] False
          ''A label indicating the attribute's function, e.g., 'aim', 'gtalk', 'xmpp'.''
          False [''aim'', ''gtalk'', ''icq'', ''xmpp'', ''msn'', ''skype'', ''qq'', ''yahoo''] False MutabilityReadWrite ReturnedDefault UniquenessNone [],
        Attribute ''primary'' TypeBoolean [] False
          (''A Boolean value indicating the 'primary' or preferred attribute value for'' @
           '' this attribute, e.g., the preferred messenger or primary messenger.  The'' @
           '' primary attribute value 'true' MUST appear no more than once.'')
          False [] False MutabilityReadWrite ReturnedDefault UniquenessNone []] True
       ''Instant messaging addresses for the User.''
       False [] False MutabilityReadWrite ReturnedDefault UniquenessNone []"

definition attr_User_photos :: attribute where
  "attr_User_photos =
     Attribute ''photos'' TypeComplex 
       [Attribute ''value'' TypeReference [] False
          ''URL of a photo of the User.''
          False [] False MutabilityReadWrite ReturnedDefault UniquenessNone [''external''],
        Attribute ''display'' TypeString [] False
          ''A human-readable name, primarily used for display purposes.  READ-ONLY.''
          False [] False MutabilityReadWrite ReturnedDefault UniquenessNone [],
        Attribute ''type'' TypeString [] False
          ''A label indicating the attribute's function, i.e., 'photo' or 'thumbnail'.''
          False [''photo'', ''thumbnail''] False MutabilityReadWrite ReturnedDefault UniquenessNone [],
        Attribute ''primary'' TypeBoolean [] False
          (''A Boolean value indicating the 'primary' or preferred attribute value for'' @
           '' this attribute, e.g., the preferred photo or thumbnail.  The primary'' @
           '' attribute value 'true' MUST appear no more than once.'')
          False [] False MutabilityReadWrite ReturnedDefault UniquenessNone []] True
       ''URLs of photos of the User.''
       False [] False MutabilityReadWrite ReturnedDefault UniquenessNone []"

definition attr_User_addresses :: attribute where
  "attr_User_addresses =
     Attribute ''addresses'' TypeComplex 
       [Attribute ''formatted'' TypeString [] False
          (''The full mailing address, formatted for display or use with a mailing label.'' @
           ''  This attribute MAY contain newlines.'')
          False [] False MutabilityReadWrite ReturnedDefault UniquenessNone [],
        Attribute ''streetAddress'' TypeString [] False
          (''The full street address component, which may include house number, street'' @
           '' name, P.O. box, and multi-line extended street address information.  This'' @
           '' attribute MAY contain newlines.'')
          False [] False MutabilityReadWrite ReturnedDefault UniquenessNone [],
        Attribute ''locality'' TypeString [] False
          ''The city or locality component.''
          False [] False MutabilityReadWrite ReturnedDefault UniquenessNone [],
        Attribute ''region'' TypeString [] False
          ''The state or region component.''
          False [] False MutabilityReadWrite ReturnedDefault UniquenessNone [],
        Attribute ''postalCode'' TypeString [] False
          ''The zip code or postal code component.''
          False [] False MutabilityReadWrite ReturnedDefault UniquenessNone [],
        Attribute ''country'' TypeString [] False
          ''The country name component.''
          False [] False MutabilityReadWrite ReturnedDefault UniquenessNone [],
        Attribute ''type'' TypeString [] False
          ''A label indicating the attribute's function, e.g., 'work' or 'home'.''
          False [''work'', ''home'', ''other''] False MutabilityReadWrite ReturnedDefault UniquenessNone []] True
       (''A physical mailing address for this User. Canonical type values of 'work','' @
        '' 'home', and 'other'.  This attribute is a complex type with the following'' @
        '' sub-attributes.'')
       False [] False MutabilityReadWrite ReturnedDefault UniquenessNone []"

definition attr_User_groups :: attribute where
  "attr_User_groups =
     Attribute ''groups'' TypeComplex 
       [Attribute ''value'' TypeString [] False
          ''The identifier of the User's group.''
          False [] False MutabilityReadOnly ReturnedDefault UniquenessNone [],
        Attribute ''$ref'' TypeReference [] False
          ''The URI of the corresponding 'Group' resource to which the user belongs.''
          False [] False MutabilityReadOnly ReturnedDefault UniquenessNone [''User'', ''Group''],
        Attribute ''display'' TypeString [] False
          ''A human-readable name, primarily used for display purposes.  READ-ONLY.''
          False [] False MutabilityReadOnly ReturnedDefault UniquenessNone [],
        Attribute ''type'' TypeString [] False
          ''A label indicating the attribute's function, e.g., 'direct' or 'indirect'.''
          False [''direct'', ''indirect''] False MutabilityReadOnly ReturnedDefault UniquenessNone []] True
       (''A list of groups to which the user belongs, either through direct'' @
        '' membership, through nested groups, or dynamically calculated.'')
       False [] False MutabilityReadOnly ReturnedDefault UniquenessNone []"

definition attr_User_entitlements :: attribute where
  "attr_User_entitlements =
     Attribute ''entitlements'' TypeComplex 
       [Attribute ''value'' TypeString [] False
          ''The value of an entitlement.''
          False [] False MutabilityReadWrite ReturnedDefault UniquenessNone [],
        Attribute ''display'' TypeString [] False
          ''A human-readable name, primarily used for display purposes.  READ-ONLY.''
          False [] False MutabilityReadWrite ReturnedDefault UniquenessNone [],
        Attribute ''type'' TypeString [] False
          ''A label indicating the attribute's function.''
          False [] False MutabilityReadWrite ReturnedDefault UniquenessNone [],
        Attribute ''primary'' TypeBoolean [] False
          (''A Boolean value indicating the 'primary' or preferred attribute value for'' @
           '' this attribute.  The primary attribute value 'true' MUST appear no more'' @
           '' than once.'')
          False [] False MutabilityReadWrite ReturnedDefault UniquenessNone []] True
       ''A list of entitlements for the User that represent a thing the User has.''
       False [] False MutabilityReadWrite ReturnedDefault UniquenessNone []"

definition attr_User_roles :: attribute where
  "attr_User_roles =
     Attribute ''roles'' TypeComplex 
       [Attribute ''value'' TypeString [] False
          ''The value of a role.''
          False [] False MutabilityReadWrite ReturnedDefault UniquenessNone [],
        Attribute ''display'' TypeString [] False
          ''A human-readable name, primarily used for display purposes.  READ-ONLY.''
          False [] False MutabilityReadWrite ReturnedDefault UniquenessNone [],
        Attribute ''type'' TypeString [] False
          ''A label indicating the attribute's function.''
          False [] False MutabilityReadWrite ReturnedDefault UniquenessNone [],
        Attribute ''primary'' TypeBoolean [] False
          (''A Boolean value indicating the 'primary' or preferred attribute value for'' @
           '' this attribute.  The primary attribute value 'true' MUST appear no more'' @
           '' than once.'')
          False [] False MutabilityReadWrite ReturnedDefault UniquenessNone []] True
       (''A list of roles for the User that collectively represent who the User is,'' @
        '' e.g., 'Student', 'Faculty'.'')
       False [] False MutabilityReadWrite ReturnedDefault UniquenessNone []"

definition attr_User_x509Certificates :: attribute where
  "attr_User_x509Certificates =
     Attribute ''x509Certificates'' TypeComplex 
       [Attribute ''value'' TypeBinary [] False
          ''The value of an X.509 certificate.''
          False [] False MutabilityReadWrite ReturnedDefault UniquenessNone [],
        Attribute ''display'' TypeString [] False
          ''A human-readable name, primarily used for display purposes.  READ-ONLY.''
          False [] False MutabilityReadWrite ReturnedDefault UniquenessNone [],
        Attribute ''type'' TypeString [] False
          ''A label indicating the attribute's function.''
          False [] False MutabilityReadWrite ReturnedDefault UniquenessNone [],
        Attribute ''primary'' TypeBoolean [] False
          (''A Boolean value indicating the 'primary' or preferred attribute value for'' @
           '' this attribute.  The primary attribute value 'true' MUST appear no more'' @
           '' than once.'')
          False [] False MutabilityReadWrite ReturnedDefault UniquenessNone []] True
       ''A list of certificates issued to the User.''
       False [] False MutabilityReadWrite ReturnedDefault UniquenessNone []"

definition UserSchema :: schema where
  "UserSchema =
     \<lparr>schemaID = ''urn:ietf:params:scim:schemas:core:2.0:User'', schemaName = ''User'',
      schemaDescription = ''User Account'',
      schemaAttributes =
        [attr_User_userName,
         attr_User_name,
         attr_User_displayName,
         attr_User_nickName,
         attr_User_profileUrl,
         attr_User_title,
         attr_User_userType,
         attr_User_preferredLanguage,
         attr_User_locale,
         attr_User_timezone,
         attr_User_active,
         attr_User_password,
         attr_User_emails,
         attr_User_phoneNumbers,
         attr_User_ims,
         attr_User_photos,
         attr_User_addresses,
         attr_User_groups,
         attr_User_entitlements,
         attr_User_roles,
         attr_User_x509Certificates]\<rparr>"

lemmas User_attrs =
  attr_User_userName_def attr_User_name_def attr_User_displayName_def attr_User_nickName_def attr_User_profileUrl_def attr_User_title_def attr_User_userType_def attr_User_preferredLanguage_def attr_User_locale_def attr_User_timezone_def attr_User_active_def attr_User_password_def attr_User_emails_def attr_User_phoneNumbers_def attr_User_ims_def attr_User_photos_def attr_User_addresses_def attr_User_groups_def attr_User_entitlements_def attr_User_roles_def attr_User_x509Certificates_def

subsection \<open>Group\<close>

definition attr_Group_displayName :: attribute where
  "attr_Group_displayName =
     Attribute ''displayName'' TypeString [] False
       ''A human-readable name for the Group. REQUIRED.''
       False [] False MutabilityReadWrite ReturnedDefault UniquenessNone []"

definition attr_Group_members :: attribute where
  "attr_Group_members =
     Attribute ''members'' TypeComplex 
       [Attribute ''value'' TypeString [] False
          ''Identifier of the member of this Group.''
          False [] False MutabilityImmutable ReturnedDefault UniquenessNone [],
        Attribute ''$ref'' TypeReference [] False
          ''The URI corresponding to a SCIM resource that is a member of this Group.''
          False [] False MutabilityImmutable ReturnedDefault UniquenessNone [''User'', ''Group''],
        Attribute ''type'' TypeString [] False
          ''A label indicating the type of resource, e.g., 'User' or 'Group'.''
          False [''User'', ''Group''] False MutabilityImmutable ReturnedDefault UniquenessNone []] True
       ''A list of members of the Group.''
       False [] False MutabilityReadWrite ReturnedDefault UniquenessNone []"

definition GroupSchema :: schema where
  "GroupSchema =
     \<lparr>schemaID = ''urn:ietf:params:scim:schemas:core:2.0:Group'', schemaName = ''Group'',
      schemaDescription = ''Group'',
      schemaAttributes =
        [attr_Group_displayName,
         attr_Group_members]\<rparr>"

lemmas Group_attrs =
  attr_Group_displayName_def attr_Group_members_def

subsection \<open>EnterpriseUser\<close>

definition attr_EnterpriseUser_employeeNumber :: attribute where
  "attr_EnterpriseUser_employeeNumber =
     Attribute ''employeeNumber'' TypeString [] False
       (''Numeric or alphanumeric identifier assigned to a person, typically based on'' @
        '' order of hire or association with an organization.'')
       False [] False MutabilityReadWrite ReturnedDefault UniquenessNone []"

definition attr_EnterpriseUser_costCenter :: attribute where
  "attr_EnterpriseUser_costCenter =
     Attribute ''costCenter'' TypeString [] False
       ''Identifies the name of a cost center.''
       False [] False MutabilityReadWrite ReturnedDefault UniquenessNone []"

definition attr_EnterpriseUser_organization :: attribute where
  "attr_EnterpriseUser_organization =
     Attribute ''organization'' TypeString [] False
       ''Identifies the name of an organization.''
       False [] False MutabilityReadWrite ReturnedDefault UniquenessNone []"

definition attr_EnterpriseUser_division :: attribute where
  "attr_EnterpriseUser_division =
     Attribute ''division'' TypeString [] False
       ''Identifies the name of a division.''
       False [] False MutabilityReadWrite ReturnedDefault UniquenessNone []"

definition attr_EnterpriseUser_department :: attribute where
  "attr_EnterpriseUser_department =
     Attribute ''department'' TypeString [] False
       ''Identifies the name of a department.''
       False [] False MutabilityReadWrite ReturnedDefault UniquenessNone []"

definition attr_EnterpriseUser_manager :: attribute where
  "attr_EnterpriseUser_manager =
     Attribute ''manager'' TypeComplex 
       [Attribute ''value'' TypeString [] False
          ''The id of the SCIM resource representing the User's manager.  REQUIRED.''
          False [] False MutabilityReadWrite ReturnedDefault UniquenessNone [],
        Attribute ''$ref'' TypeReference [] False
          ''The URI of the SCIM resource representing the User's manager.  REQUIRED.''
          False [] False MutabilityReadWrite ReturnedDefault UniquenessNone [''User''],
        Attribute ''displayName'' TypeString [] False
          ''The displayName of the User's manager. OPTIONAL and READ-ONLY.''
          False [] False MutabilityReadOnly ReturnedDefault UniquenessNone []] False
       (''The User's manager.  A complex type that optionally allows service providers'' @
        '' to represent organizational hierarchy by referencing the 'id' attribute of'' @
        '' another User.'')
       False [] False MutabilityReadWrite ReturnedDefault UniquenessNone []"

definition EnterpriseUserSchema :: schema where
  "EnterpriseUserSchema =
     \<lparr>schemaID = ''urn:ietf:params:scim:schemas:extension:enterprise:2.0:User'', schemaName = ''EnterpriseUser'',
      schemaDescription = ''Enterprise User'',
      schemaAttributes =
        [attr_EnterpriseUser_employeeNumber,
         attr_EnterpriseUser_costCenter,
         attr_EnterpriseUser_organization,
         attr_EnterpriseUser_division,
         attr_EnterpriseUser_department,
         attr_EnterpriseUser_manager]\<rparr>"

lemmas EnterpriseUser_attrs =
  attr_EnterpriseUser_employeeNumber_def attr_EnterpriseUser_costCenter_def attr_EnterpriseUser_organization_def attr_EnterpriseUser_division_def attr_EnterpriseUser_department_def attr_EnterpriseUser_manager_def

subsection \<open>ServiceProviderConfig\<close>

definition attr_ServiceProviderConfig_documentationUri :: attribute where
  "attr_ServiceProviderConfig_documentationUri =
     Attribute ''documentationUri'' TypeReference [] False
       (''An HTTP-addressable URL pointing to the service provider's human-consumable'' @
        '' help documentation.'')
       False [] False MutabilityReadOnly ReturnedDefault UniquenessNone [''external'']"

definition attr_ServiceProviderConfig_patch :: attribute where
  "attr_ServiceProviderConfig_patch =
     Attribute ''patch'' TypeComplex 
       [Attribute ''supported'' TypeBoolean [] False
          ''A Boolean value specifying whether or not the operation is supported.''
          True [] False MutabilityReadOnly ReturnedDefault UniquenessNone []] False
       ''A complex type that specifies PATCH configuration options.''
       True [] False MutabilityReadOnly ReturnedDefault UniquenessNone []"

definition attr_ServiceProviderConfig_bulk :: attribute where
  "attr_ServiceProviderConfig_bulk =
     Attribute ''bulk'' TypeComplex 
       [Attribute ''supported'' TypeBoolean [] False
          ''A Boolean value specifying whether or not the operation is supported.''
          True [] False MutabilityReadOnly ReturnedDefault UniquenessNone [],
        Attribute ''maxOperations'' TypeInteger [] False
          ''An integer value specifying the maximum number of operations.''
          True [] False MutabilityReadOnly ReturnedDefault UniquenessNone [],
        Attribute ''maxPayloadSize'' TypeInteger [] False
          ''An integer value specifying the maximum payload size in bytes.''
          True [] False MutabilityReadOnly ReturnedDefault UniquenessNone []] False
       ''A complex type that specifies bulk configuration options.''
       True [] False MutabilityReadOnly ReturnedDefault UniquenessNone []"

definition attr_ServiceProviderConfig_filter :: attribute where
  "attr_ServiceProviderConfig_filter =
     Attribute ''filter'' TypeComplex 
       [Attribute ''supported'' TypeBoolean [] False
          ''A Boolean value specifying whether or not the operation is supported.''
          True [] False MutabilityReadOnly ReturnedDefault UniquenessNone [],
        Attribute ''maxResults'' TypeInteger [] False
          (''An integer value specifying the maximum number of resources returned in a'' @
           '' response.'')
          True [] False MutabilityReadOnly ReturnedDefault UniquenessNone []] False
       ''A complex type that specifies FILTER options.''
       True [] False MutabilityReadOnly ReturnedDefault UniquenessNone []"

definition attr_ServiceProviderConfig_changePassword :: attribute where
  "attr_ServiceProviderConfig_changePassword =
     Attribute ''changePassword'' TypeComplex 
       [Attribute ''supported'' TypeBoolean [] False
          ''A Boolean value specifying whether or not the operation is supported.''
          True [] False MutabilityReadOnly ReturnedDefault UniquenessNone []] False
       (''A complex type that specifies configuration options related to changing a'' @
        '' password.'')
       True [] False MutabilityReadOnly ReturnedDefault UniquenessNone []"

definition attr_ServiceProviderConfig_sort :: attribute where
  "attr_ServiceProviderConfig_sort =
     Attribute ''sort'' TypeComplex 
       [Attribute ''supported'' TypeBoolean [] False
          ''A Boolean value specifying whether or not the operation is supported.''
          True [] False MutabilityReadOnly ReturnedDefault UniquenessNone []] False
       ''A complex type that specifies sort result options.''
       True [] False MutabilityReadOnly ReturnedDefault UniquenessNone []"

definition attr_ServiceProviderConfig_authenticationSchemes :: attribute where
  "attr_ServiceProviderConfig_authenticationSchemes =
     Attribute ''authenticationSchemes'' TypeComplex 
       [Attribute ''name'' TypeString [] False
          ''The common authentication scheme name, e.g., HTTP Basic.''
          True [] False MutabilityReadOnly ReturnedDefault UniquenessNone [],
        Attribute ''description'' TypeString [] False
          ''A description of the authentication scheme.''
          True [] False MutabilityReadOnly ReturnedDefault UniquenessNone [],
        Attribute ''specUri'' TypeReference [] False
          (''An HTTP-addressable URL pointing to the authentication scheme's'' @
           '' specification.'')
          False [] False MutabilityReadOnly ReturnedDefault UniquenessNone [''external''],
        Attribute ''documentationUri'' TypeReference [] False
          (''An HTTP-addressable URL pointing to the authentication scheme's usage'' @
           '' documentation.'')
          False [] False MutabilityReadOnly ReturnedDefault UniquenessNone [''external'']] True
       ''A complex type that specifies supported authentication scheme properties.''
       True [] False MutabilityReadOnly ReturnedDefault UniquenessNone []"

definition ServiceProviderConfigSchema :: schema where
  "ServiceProviderConfigSchema =
     \<lparr>schemaID = ''urn:ietf:params:scim:schemas:core:2.0:ServiceProviderConfig'', schemaName = ''Service Provider Configuration'',
      schemaDescription = ''Schema for representing the service provider's configuration'',
      schemaAttributes =
        [attr_ServiceProviderConfig_documentationUri,
         attr_ServiceProviderConfig_patch,
         attr_ServiceProviderConfig_bulk,
         attr_ServiceProviderConfig_filter,
         attr_ServiceProviderConfig_changePassword,
         attr_ServiceProviderConfig_sort,
         attr_ServiceProviderConfig_authenticationSchemes]\<rparr>"

lemmas ServiceProviderConfig_attrs =
  attr_ServiceProviderConfig_documentationUri_def attr_ServiceProviderConfig_patch_def attr_ServiceProviderConfig_bulk_def attr_ServiceProviderConfig_filter_def attr_ServiceProviderConfig_changePassword_def attr_ServiceProviderConfig_sort_def attr_ServiceProviderConfig_authenticationSchemes_def

subsection \<open>ResourceType\<close>

definition attr_ResourceType_id :: attribute where
  "attr_ResourceType_id =
     Attribute ''id'' TypeString [] False
       (''The resource type's server unique id. May be the same as the 'name'' @ [CHR 0x27] @
        '' attribute.'')
       False [] False MutabilityReadOnly ReturnedDefault UniquenessNone []"

definition attr_ResourceType_name :: attribute where
  "attr_ResourceType_name =
     Attribute ''name'' TypeString [] False
       (''The resource type name.  When applicable, service providers MUST specify the'' @
        '' name, e.g., 'User'.'')
       True [] False MutabilityReadOnly ReturnedDefault UniquenessNone []"

definition attr_ResourceType_description :: attribute where
  "attr_ResourceType_description =
     Attribute ''description'' TypeString [] False
       (''The resource type's human-readable description.  When applicable, service'' @
        '' providers MUST specify the description.'')
       False [] False MutabilityReadOnly ReturnedDefault UniquenessNone []"

definition attr_ResourceType_endpoint :: attribute where
  "attr_ResourceType_endpoint =
     Attribute ''endpoint'' TypeReference [] False
       (''The resource type's HTTP-addressable endpoint relative to the Base URL,'' @
        '' e.g., '/Users'.'')
       True [] False MutabilityReadOnly ReturnedDefault UniquenessNone [''uri'']"

definition attr_ResourceType_schema :: attribute where
  "attr_ResourceType_schema =
     Attribute ''schema'' TypeReference [] False
       ''The resource type's primary/base schema URI.''
       True [] True MutabilityReadOnly ReturnedDefault UniquenessNone [''uri'']"

definition attr_ResourceType_schemaExtensions :: attribute where
  "attr_ResourceType_schemaExtensions =
     Attribute ''schemaExtensions'' TypeComplex 
       [Attribute ''schema'' TypeReference [] False
          ''The URI of a schema extension.''
          True [] True MutabilityReadOnly ReturnedDefault UniquenessNone [''uri''],
        Attribute ''required'' TypeBoolean [] False
          (''A Boolean value that specifies whether or not the schema extension is'' @
           '' required for the resource type.  If true, a resource of this type MUST'' @
           '' include this schema extension and also include any attributes declared as'' @
           '' required in this schema extension. If false, a resource of this type MAY'' @
           '' omit this schema extension.'')
          True [] False MutabilityReadOnly ReturnedDefault UniquenessNone []] True
       ''A list of URIs of the resource type's schema extensions.''
       True [] False MutabilityReadOnly ReturnedDefault UniquenessNone []"

definition ResourceTypeSchema :: schema where
  "ResourceTypeSchema =
     \<lparr>schemaID = ''urn:ietf:params:scim:schemas:core:2.0:ResourceType'', schemaName = ''ResourceType'',
      schemaDescription = ''Specifies the schema that describes a SCIM resource type'',
      schemaAttributes =
        [attr_ResourceType_id,
         attr_ResourceType_name,
         attr_ResourceType_description,
         attr_ResourceType_endpoint,
         attr_ResourceType_schema,
         attr_ResourceType_schemaExtensions]\<rparr>"

lemmas ResourceType_attrs =
  attr_ResourceType_id_def attr_ResourceType_name_def attr_ResourceType_description_def attr_ResourceType_endpoint_def attr_ResourceType_schema_def attr_ResourceType_schemaExtensions_def

subsection \<open>SchemaMeta\<close>

definition attr_SchemaMeta_id :: attribute where
  "attr_SchemaMeta_id =
     Attribute ''id'' TypeString [] False
       (''The unique URI of the schema. When applicable, service providers MUST'' @
        '' specify the URI.'')
       True [] False MutabilityReadOnly ReturnedDefault UniquenessNone []"

definition attr_SchemaMeta_name :: attribute where
  "attr_SchemaMeta_name =
     Attribute ''name'' TypeString [] False
       (''The schema's human-readable name.  When applicable, service providers MUST'' @
        '' specify the name, e.g., 'User'.'')
       True [] False MutabilityReadOnly ReturnedDefault UniquenessNone []"

definition attr_SchemaMeta_description :: attribute where
  "attr_SchemaMeta_description =
     Attribute ''description'' TypeString [] False
       (''The schema's human-readable name.  When applicable, service providers MUST'' @
        '' specify the name, e.g., 'User'.'')
       False [] False MutabilityReadOnly ReturnedDefault UniquenessNone []"

definition attr_SchemaMeta_attributes :: attribute where
  "attr_SchemaMeta_attributes =
     Attribute ''attributes'' TypeComplex 
       [Attribute ''name'' TypeString [] False
          ''The attribute's name.''
          True [] True MutabilityReadOnly ReturnedDefault UniquenessNone [],
        Attribute ''type'' TypeString [] False
          (''The attribute's data type. Valid values include 'string', 'complex','' @
           '' 'boolean', 'decimal', 'integer', 'dateTime', 'reference'.'')
          True [''string'', ''complex'', ''boolean'', ''decimal'', ''integer'', ''dateTime'', ''reference''] False MutabilityReadOnly ReturnedDefault UniquenessNone [],
        Attribute ''multiValued'' TypeBoolean [] False
          ''A Boolean value indicating an attribute's plurality.''
          True [] False MutabilityReadOnly ReturnedDefault UniquenessNone [],
        Attribute ''description'' TypeString [] False
          ''A human-readable description of the attribute.''
          False [] True MutabilityReadOnly ReturnedDefault UniquenessNone [],
        Attribute ''required'' TypeBoolean [] False
          ''A boolean value indicating whether or not the attribute is required.''
          False [] False MutabilityReadOnly ReturnedDefault UniquenessNone [],
        Attribute ''canonicalValues'' TypeString [] True
          (''A collection of canonical values.  When applicable, service providers MUST'' @
           '' specify the canonical types, e.g., 'work', 'home'.'')
          False [] True MutabilityReadOnly ReturnedDefault UniquenessNone [],
        Attribute ''caseExact'' TypeBoolean [] False
          (''A Boolean value indicating whether or not a string attribute is case'' @
           '' sensitive.'')
          False [] False MutabilityReadOnly ReturnedDefault UniquenessNone [],
        Attribute ''mutability'' TypeString [] False
          ''Indicates whether or not an attribute is modifiable.''
          False [''readOnly'', ''readWrite'', ''immutable'', ''writeOnly''] True MutabilityReadOnly ReturnedDefault UniquenessNone [],
        Attribute ''returned'' TypeString [] False
          ''Indicates when an attribute is returned in a response (e.g., to a query).''
          False [''always'', ''never'', ''default'', ''request''] True MutabilityReadOnly ReturnedDefault UniquenessNone [],
        Attribute ''uniqueness'' TypeString [] False
          ''Indicates how unique a value must be.''
          False [''none'', ''server'', ''global''] True MutabilityReadOnly ReturnedDefault UniquenessNone [],
        Attribute ''referenceTypes'' TypeString [] True
          (''Used only with an attribute of type 'reference'.  Specifies a SCIM'' @
           '' resourceType that a reference attribute MAY refer to, e.g., 'User'.'')
          False [] True MutabilityReadOnly ReturnedDefault UniquenessNone [],
        Attribute ''subAttributes'' TypeComplex 
          [Attribute ''name'' TypeString [] False
             ''The attribute's name.''
             True [] True MutabilityReadOnly ReturnedDefault UniquenessNone [],
           Attribute ''type'' TypeString [] False
             (''The attribute's data type. Valid values include 'string', 'complex','' @
              '' 'boolean', 'decimal', 'integer', 'dateTime', 'reference'.'')
             True [''string'', ''complex'', ''boolean'', ''decimal'', ''integer'', ''dateTime'', ''reference''] False MutabilityReadOnly ReturnedDefault UniquenessNone [],
           Attribute ''multiValued'' TypeBoolean [] False
             ''A Boolean value indicating an attribute's plurality.''
             True [] False MutabilityReadOnly ReturnedDefault UniquenessNone [],
           Attribute ''description'' TypeString [] False
             ''A human-readable description of the attribute.''
             False [] True MutabilityReadOnly ReturnedDefault UniquenessNone [],
           Attribute ''required'' TypeBoolean [] False
             ''A boolean value indicating whether or not the attribute is required.''
             False [] False MutabilityReadOnly ReturnedDefault UniquenessNone [],
           Attribute ''canonicalValues'' TypeString [] True
             (''A collection of canonical values.  When applicable, service providers MUST'' @
              '' specify the canonical types, e.g., 'work', 'home'.'')
             False [] True MutabilityReadOnly ReturnedDefault UniquenessNone [],
           Attribute ''caseExact'' TypeBoolean [] False
             (''A Boolean value indicating whether or not a string attribute is case'' @
              '' sensitive.'')
             False [] False MutabilityReadOnly ReturnedDefault UniquenessNone [],
           Attribute ''mutability'' TypeString [] False
             ''Indicates whether or not an attribute is modifiable.''
             False [''readOnly'', ''readWrite'', ''immutable'', ''writeOnly''] True MutabilityReadOnly ReturnedDefault UniquenessNone [],
           Attribute ''returned'' TypeString [] False
             ''Indicates when an attribute is returned in a response (e.g., to a query).''
             False [''always'', ''never'', ''default'', ''request''] True MutabilityReadOnly ReturnedDefault UniquenessNone [],
           Attribute ''uniqueness'' TypeString [] False
             ''Indicates how unique a value must be.''
             False [''none'', ''server'', ''global''] True MutabilityReadOnly ReturnedDefault UniquenessNone [],
           Attribute ''referenceTypes'' TypeString [] False
             (''Used only with an attribute of type 'reference'.  Specifies a SCIM'' @
              '' resourceType that a reference attribute MAY refer to, e.g., 'User'.'')
             False [] True MutabilityReadOnly ReturnedDefault UniquenessNone []] True
          ''Used to define the sub-attributes of a complex attribute.''
          False [] False MutabilityReadOnly ReturnedDefault UniquenessNone []] True
       ''A complex attribute that includes the attributes of a schema.''
       True [] False MutabilityReadOnly ReturnedDefault UniquenessNone []"

definition SchemaMetaSchema :: schema where
  "SchemaMetaSchema =
     \<lparr>schemaID = ''urn:ietf:params:scim:schemas:core:2.0:Schema'', schemaName = ''Schema'',
      schemaDescription = ''Specifies the schema that describes a SCIM schema'',
      schemaAttributes =
        [attr_SchemaMeta_id,
         attr_SchemaMeta_name,
         attr_SchemaMeta_description,
         attr_SchemaMeta_attributes]\<rparr>"

lemmas SchemaMeta_attrs =
  attr_SchemaMeta_id_def attr_SchemaMeta_name_def attr_SchemaMeta_description_def attr_SchemaMeta_attributes_def

subsection \<open>Resource types\<close>

definition UserResourceType :: resource_type where
  "UserResourceType =
     \<lparr>rtName = ''User'', rtDescription = ''User Account'', rtEndpoint = ''/Users'',
      rtSchema = UserSchema,
      rtExtensions = [\<lparr>extSchema = EnterpriseUserSchema, extRequired = False\<rparr>]\<rparr>"

definition GroupResourceType :: resource_type where
  "GroupResourceType =
     \<lparr>rtName = ''Group'', rtDescription = ''Group'', rtEndpoint = ''/Groups'',
      rtSchema = GroupSchema, rtExtensions = []\<rparr>"

definition builtinSchemas :: "schema list" where
  "builtinSchemas =
     [UserSchema, GroupSchema, EnterpriseUserSchema, ServiceProviderConfigSchema, ResourceTypeSchema,
      SchemaMetaSchema]"

definition readBack :: "resource_type \<Rightarrow> bool" where
  "readBack rt \<longleftrightarrow>
     list_all (\<lambda>a. rereadable a \<and> list_all rereadable (subAttributes a))
       (schemaAttributes (rtSchema rt) @ concat (map (schemaAttributes \<circ> extSchema) (rtExtensions rt)))"


end
