(* ===== verification/Client_Retry.thy ===== *)
theory Client_Retry
  imports Go_Slices
begin

text \<open>
  \<open>client/retry.go\<close>: the retry policy as pure functions. Durations are nanoseconds in 64 bits, the
  factor and the jitter are \<open>float64\<close> with the rounding of the language. The random draw of the
  jitter and the reading of HTTP dates (\<open>http.ParseTime\<close>, which consults the zone table of the
  machine) are arguments.
\<close>

subsection \<open>Arithmetic\<close>

fun fltNeg :: "float64 \<Rightarrow> float64" where
  "fltNeg (Finite x) = Finite (- x)"
| "fltNeg (Infinite s) = Infinite (\<not> s)"
| "fltNeg NaN = NaN"

fun fltAdd :: "float64 \<Rightarrow> float64 \<Rightarrow> float64" where
  "fltAdd (Finite x) (Finite y) = roundFloat64 (x + y)"
| "fltAdd (Infinite s) (Infinite t) = (if s = t then Infinite s else NaN)"
| "fltAdd (Infinite s) (Finite y) = Infinite s"
| "fltAdd (Finite x) (Infinite t) = Infinite t"
| "fltAdd _ _ = NaN"

definition fltSub :: "float64 \<Rightarrow> float64 \<Rightarrow> float64" where
  "fltSub a b = fltAdd a (fltNeg b)"

fun fltMul :: "float64 \<Rightarrow> float64 \<Rightarrow> float64" where
  "fltMul (Finite x) (Finite y) = roundFloat64 (x * y)"
| "fltMul (Infinite s) (Infinite t) = Infinite (s \<noteq> t)"
| "fltMul (Infinite s) (Finite y) = (if y = 0 then NaN else Infinite (s \<noteq> (y < 0)))"
| "fltMul (Finite x) (Infinite t) = (if x = 0 then NaN else Infinite ((x < 0) \<noteq> t))"
| "fltMul _ _ = NaN"

definition fltLessEq :: "float64 \<Rightarrow> float64 \<Rightarrow> bool" where
  "fltLessEq a b \<longleftrightarrow> fltLess a b \<or> fltEq a b"

text \<open>The product of two 64-bit integers, and the difference of two instants: \<open>t.Sub(u)\<close>
  saturates at the ends of the range.\<close>

definition mulInt :: "int \<Rightarrow> int \<Rightarrow> int" where
  "mulInt a b = (a * b + 2 ^ 63) mod 2 ^ 64 - 2 ^ 63"

lemma mulInt_exact: "inInt64 (a * b) \<Longrightarrow> mulInt a b = a * b"
  by (simp add: mulInt_def inInt64_def)

definition timeSub :: "int \<Rightarrow> int \<Rightarrow> int" where
  "timeSub t u = max (- (2 ^ 63)) (min (2 ^ 63 - 1) (t - u))"

subsection \<open>The policy\<close>

definition millisecond :: int where "millisecond = 1000000"
definition second :: int where "second = 1000000000"

record retry_config =
  rcMaxAttempts :: int
  rcBaseDelay :: int
  rcFactor :: float64
  rcMaxDelay :: int
  rcJitter :: float64
  rcRetryStatus :: "int list option"
  rcRetryNonIdempotent :: bool

definition DefaultRetryConfig :: retry_config where
  "DefaultRetryConfig =
     \<lparr>rcMaxAttempts = 10, rcBaseDelay = 500 * millisecond, rcFactor = Finite 2,
      rcMaxDelay = 30 * second, rcJitter = roundFloat64 (1 / 5),
      rcRetryStatus = Some [500, 502, 503, 504], rcRetryNonIdempotent = False\<rparr>"

definition retryNormalize :: "retry_config \<Rightarrow> retry_config" where
  "retryNormalize rc =
     (let rc = (if rcMaxAttempts rc < 1 then rc\<lparr>rcMaxAttempts := 1\<rparr> else rc);
          rc = (if fltLess (rcFactor rc) (Finite 1) then rc\<lparr>rcFactor := Finite 1\<rparr> else rc);
          rc = (if rcBaseDelay rc \<le> 0 then rc\<lparr>rcBaseDelay := rcBaseDelay DefaultRetryConfig\<rparr> else rc);
          rc = (if rcMaxDelay rc \<le> 0 then rc\<lparr>rcMaxDelay := rcBaseDelay rc\<rparr> else rc);
          rc = (if fltLess (rcJitter rc) (Finite 0) then rc\<lparr>rcJitter := Finite 0\<rparr>
                else if fltLess (Finite 1) (rcJitter rc) then rc\<lparr>rcJitter := Finite 1\<rparr> else rc)
      in if rcRetryStatus rc = None then rc\<lparr>rcRetryStatus := rcRetryStatus DefaultRetryConfig\<rparr> else rc)"

definition inRetryStatus :: "retry_config \<Rightarrow> int \<Rightarrow> bool" where
  "inRetryStatus rc status \<longleftrightarrow> (case rcRetryStatus rc of None \<Rightarrow> False | Some l \<Rightarrow> status \<in> set l)"

definition shouldRetry :: "retry_config \<Rightarrow> int \<Rightarrow> bool" where
  "shouldRetry rc status \<longleftrightarrow> status = 429 \<or> inRetryStatus rc status"

definition isIdempotent :: "string \<Rightarrow> bool" where
  "isIdempotent verb \<longleftrightarrow> verb \<in> {''GET'', ''HEAD'', ''PUT'', ''DELETE'', ''OPTIONS''}"

text \<open>Status 0 stands for a network error.\<close>

definition retryable :: "retry_config \<Rightarrow> string \<Rightarrow> int \<Rightarrow> bool" where
  "retryable rc verb status =
     (if status = 429 then True
      else if status \<noteq> 0 \<and> \<not> inRetryStatus rc status then False
      else rcRetryNonIdempotent rc \<or> isIdempotent verb)"

subsection \<open>Delays\<close>

text \<open>The loop of \<open>backoffDelay\<close> with \<open>k\<close> rounds left.\<close>

fun backoffLoop :: "retry_config \<Rightarrow> nat \<Rightarrow> float64 \<Rightarrow> float64" where
  "backoffLoop rc 0 capped = capped"
| "backoffLoop rc (Suc k) capped =
     (let c = fltMul capped (rcFactor rc); top = intToFloat64 (rcMaxDelay rc)
      in if fltLessEq top c then top else backoffLoop rc k c)"

definition backoffDelay :: "retry_config \<Rightarrow> float64 \<Rightarrow> int \<Rightarrow> int" where
  "backoffDelay rc draw n =
     (let capped = backoffLoop rc (nat (n - 1)) (intToFloat64 (rcBaseDelay rc)) in
      if fltEq (rcJitter rc) (Finite 0) then float64ToInt64 capped
      else let low = fltMul capped (fltSub (Finite 1) (rcJitter rc))
           in float64ToInt64 (fltAdd low (fltMul draw (fltSub capped low))))"

text \<open>\<open>None\<close> when the header is absent or unreadable.\<close>

definition parseRetryAfter :: "(string \<Rightarrow> int option) \<Rightarrow> string \<Rightarrow> int \<Rightarrow> int option" where
  "parseRetryAfter parseTime header now =
     (if header = [] then None
      else case parseInt64 header of
        Some secs \<Rightarrow> Some (if secs < 0 then 0 else mulInt secs second)
      | None \<Rightarrow>
          (case parseTime header of
             Some t \<Rightarrow> (let d = timeSub t now in Some (if 0 < d then d else 0))
           | None \<Rightarrow> None))"

subsection \<open>What normalisation guarantees\<close>

definition policyOk :: "retry_config \<Rightarrow> bool" where
  "policyOk rc \<longleftrightarrow>
     1 \<le> rcMaxAttempts rc \<and> 0 < rcBaseDelay rc \<and> 0 < rcMaxDelay rc \<and>
     \<not> fltLess (rcFactor rc) (Finite 1) \<and> \<not> fltLess (rcJitter rc) (Finite 0) \<and>
     \<not> fltLess (Finite 1) (rcJitter rc) \<and> rcRetryStatus rc \<noteq> None"

lemma retryNormalize_ok: "policyOk (retryNormalize rc)"
  by (simp add: retryNormalize_def policyOk_def Let_def DefaultRetryConfig_def millisecond_def)

lemma retryNormalize_fix: "policyOk rc \<Longrightarrow> retryNormalize rc = rc"
  by (auto simp: retryNormalize_def policyOk_def Let_def)

text \<open>An integer of at most 53 bits is a \<open>float64\<close>.\<close>

lemma pow2_pos [simp]: "0 < pow2 k"
  by (simp add: pow2_def)

lemma roundHalfEven_int [simp]: "roundHalfEven (of_int i) = i"
  by (simp add: roundHalfEven_def)

lemma roundHalfEven_nonneg: "0 \<le> r \<Longrightarrow> 0 \<le> roundHalfEven r"
  by (auto simp: roundHalfEven_def Let_def)

lemma roundFloat64_nonneg:
  assumes "0 \<le> x"
  shows "\<exists>y. roundFloat64 x = Finite y \<and> 0 \<le> y \<or> roundFloat64 x = Infinite False"
proof -
  have "0 \<le> of_int (roundHalfEven (\<bar>x\<bar> / pow2 s)) * pow2 s" for s
    by (intro mult_nonneg_nonneg) (simp_all add: roundHalfEven_nonneg less_imp_le)
  with assms show ?thesis
    by (auto simp: roundFloat64_def Let_def)
qed

lemma round_multiple:
  assumes "r / pow2 s = of_int m"
  shows "of_int (roundHalfEven (r / pow2 s)) * pow2 s = r"
proof -
  have "pow2 s \<noteq> 0" using pow2_pos [of s] by (rule less_imp_neq [symmetric])
  then show ?thesis unfolding assms roundHalfEven_int using assms by (simp add: divide_eq_eq)
qed

lemma int_multiple: "s \<le> 0 \<Longrightarrow> of_int a / pow2 s = (of_int (a * 2 ^ nat (- s)) :: rat)"
  by (cases "s = 0") (simp_all add: pow2_def)

lemma binExp_int:
  assumes "0 < a" "a < 2 ^ 53" shows "binExp (of_int a) \<le> 52"
proof -
  have "bitlen a \<le> 53" using assms by (simp add: bitlen_le_iff_power)
  moreover have "binExp (of_int a) \<le> bitlen a - 1"
  proof -
    have "floorlog 2 (Suc 0) = 1" by (simp add: floorlog_eq_zero_iff compute_floorlog)
    then show ?thesis using assms(1) by (simp add: binExp_def bitlen_def Let_def)
  qed
  ultimately show ?thesis by linarith
qed

lemma intToFloat64_exact:
  assumes "\<bar>i\<bar> < 2 ^ 53" shows "intToFloat64 i = Finite (of_int i)"
proof (cases "i = 0")
  case False
  define a where "a = \<bar>i\<bar>"
  define s where "s = max (binExp (of_int a) - 52) (- 1074)"
  have a: "0 < a" "a < 2 ^ 53" using False assms by (simp_all add: a_def)
  then have "s \<le> 0" using binExp_int [of a] by (simp add: s_def)
  then have m: "of_int (roundHalfEven (of_int a / pow2 s)) * pow2 s = (of_int a :: rat)"
    by (rule round_multiple [OF int_multiple])
  have abs: "\<bar>of_int i :: rat\<bar> = of_int a" "(of_int i :: rat) \<noteq> 0" using False by (simp_all add: a_def)
  have "\<not> (2 ^ 1024 \<le> (of_int a :: rat))"
  proof -
    have "(of_int a :: rat) < of_int (2 ^ 53)" using a(2) by (simp only: of_int_less_iff)
    also have "(of_int (2 ^ 53) :: rat) \<le> 2 ^ 1024" by simp
    finally show ?thesis by (simp only: not_le)
  qed
  with m have "roundFloat64 (of_int i) = Finite (if (of_int i :: rat) < 0 then - of_int a else of_int a)"
    unfolding roundFloat64_def Let_def abs(1) s_def [symmetric] by (simp only: abs(2) if_False)
  then show ?thesis by (simp add: intToFloat64_def a_def)
qed (simp add: intToFloat64_def roundFloat64_def)

lemma float64ToInt64_int [simp]: "inInt64 i \<Longrightarrow> float64ToInt64 (Finite (of_int i)) = i"
  by (simp add: float64ToInt64_def truncRat_def)

lemma float64ToInt64_bounds:
  assumes "0 \<le> x" "x \<le> of_int i" "inInt64 i"
  shows "0 \<le> float64ToInt64 (Finite x) \<and> float64ToInt64 (Finite x) \<le> i"
proof -
  have "0 \<le> \<lfloor>x\<rfloor>" "\<lfloor>x\<rfloor> \<le> i" using assms by (simp_all add: floor_le_iff)
  with assms show ?thesis by (auto simp: float64ToInt64_def truncRat_def inInt64_def)
qed

subsection \<open>The delays of the policy\<close>

lemma backoffLoop_capped:
  assumes "rcFactor rc = Finite f" "0 \<le> f" "0 < rcMaxDelay rc" "rcMaxDelay rc < 2 ^ 53"
    and "capped = Finite x" "0 \<le> x" "0 < k"
  shows "\<exists>y. backoffLoop rc k capped = Finite y \<and> 0 \<le> y \<and> y \<le> of_int (rcMaxDelay rc)"
  using assms(5-)
proof (induction k arbitrary: capped x)
  case (Suc k)
  have top: "intToFloat64 (rcMaxDelay rc) = Finite (of_int (rcMaxDelay rc))"
    using assms(3,4) by (intro intToFloat64_exact) simp
  have "0 \<le> x * f" using Suc.prems(2) assms(2) by simp
  from roundFloat64_nonneg [OF this] obtain y where
    y: "roundFloat64 (x * f) = Finite y \<and> 0 \<le> y \<or> roundFloat64 (x * f) = Infinite False" by blast
  show ?case
  proof (cases "fltLessEq (Finite (of_int (rcMaxDelay rc))) (roundFloat64 (x * f))")
    case True
    then show ?thesis using assms(1,3) Suc.prems(1) by (simp add: top)
  next
    case False
    with y have y: "roundFloat64 (x * f) = Finite y" "0 \<le> y" "y < of_int (rcMaxDelay rc)"
      by (auto simp: fltLessEq_def)
    show ?thesis
    proof (cases k)
      case 0
      then show ?thesis using False assms(1) Suc.prems(1) y by (simp add: top)
    next
      case (Suc j)
      then have "\<exists>y'. backoffLoop rc k (Finite y) = Finite y' \<and> 0 \<le> y' \<and> y' \<le> of_int (rcMaxDelay rc)"
        using y(2) by (intro Suc.IH [of _ y]) simp_all
      then show ?thesis using False assms(1) Suc.prems(1) y by (simp add: top)
    qed
  qed
qed simp

lemma backoffDelay_bounds:
  assumes "policyOk rc" "rcFactor rc = Finite f" "rcJitter rc = Finite 0"
    and "rcMaxDelay rc < 2 ^ 53" "rcBaseDelay rc < 2 ^ 53"
  shows "0 \<le> backoffDelay rc draw n \<and>
    backoffDelay rc draw n \<le> (if n \<le> 1 then rcBaseDelay rc else rcMaxDelay rc)"
proof -
  have rc: "0 < rcBaseDelay rc" "0 < rcMaxDelay rc" "0 \<le> f" using assms(1,2) by (auto simp: policyOk_def)
  have range: "inInt64 (rcBaseDelay rc)" "inInt64 (rcMaxDelay rc)"
    using rc assms(4,5) by (simp_all add: inInt64_def)
  have base: "intToFloat64 (rcBaseDelay rc) = Finite (of_int (rcBaseDelay rc))"
    using rc assms(5) by (intro intToFloat64_exact) simp
  show ?thesis
  proof (cases "n \<le> 1")
    case True
    then show ?thesis using assms(3) rc range by (simp add: backoffDelay_def base)
  next
    case False
    then have "0 < nat (n - 1)" by simp
    from backoffLoop_capped [OF assms(2) rc(3,2) assms(4) base _ this] rc obtain y where
      "backoffLoop rc (nat (n - 1)) (intToFloat64 (rcBaseDelay rc)) = Finite y"
      "0 \<le> y" "y \<le> of_int (rcMaxDelay rc)" by (auto simp: base)
    with float64ToInt64_bounds [of y "rcMaxDelay rc"] range False assms(3) show ?thesis
      by (simp add: backoffDelay_def)
  qed
qed

end
