(* ===== verification/Scim_ErrorDoc.thy ===== *)
theory Scim_ErrorDoc
  imports Scim_List
begin

text \<open>
  The error document of \<open>scim/errors.go\<close> (RFC 7644 section 3.12): what a provider writes and what
  a client reads. A provider writes the status as a string; a client reads a string or a number.
  The detail is written by nobody here and its text is not kept, but a detail that is not a
  string makes the document unreadable.
\<close>

definition MessageError :: string where
  "MessageError = ''urn:ietf:params:scim:api:messages:2.0:Error''"

record errorJSON =
  ejSchemas :: "string list"
  ejStatus :: "gval option"
  ejScimType :: string
  ejDetail :: string

definition Error_MarshalJSON :: "scim_error \<Rightarrow> gval" where
  "Error_MarshalJSON e =
     VMap ([(''schemas'', VList [VString MessageError]),
            (''status'', VString (formatInt (errStatus e)))] @
       (if errScimType e = [] then [] else [(''scimType'', VString (errScimType e))]))"

definition errorField :: "string \<times> gval \<Rightarrow> errorJSON \<Rightarrow> (scim_error, errorJSON) res" where
  "errorField kv j =
     (let k = foldName (fst kv); v = snd kv in
      if k = ''schemas'' then rbind (jsonStrings v) (\<lambda>x. Inr (j\<lparr>ejSchemas := x\<rparr>))
      else if k = ''status'' then Inr (j\<lparr>ejStatus := Some v\<rparr>)
      else if k = ''scimtype'' then rbind (jsonString v (ejScimType j)) (\<lambda>x. Inr (j\<lparr>ejScimType := x\<rparr>))
      else if k = ''detail'' then rbind (jsonString v (ejDetail j)) (\<lambda>x. Inr (j\<lparr>ejDetail := x\<rparr>))
      else Inr j)"

text \<open>\<open>null\<close> reads as the empty string, which is not a number.\<close>

definition parseErrorStatus :: "gval option \<Rightarrow> (go_error, int) res" where
  "parseErrorStatus raw =
     (case raw of
        None \<Rightarrow> Inr 0
      | Some v \<Rightarrow>
          (case (case v of VString s \<Rightarrow> parseInt64 s | VNumber n \<Rightarrow> parseInt64 n | _ \<Rightarrow> None) of
             None \<Rightarrow> Inl OtherErr
           | Some n \<Rightarrow> Inr n))"

definition zeroErrorJSON :: errorJSON where
  "zeroErrorJSON = \<lparr>ejSchemas = [], ejStatus = None, ejScimType = [], ejDetail = []\<rparr>"

definition Error_UnmarshalJSON :: "gval \<Rightarrow> (go_error, scim_error) res" where
  "Error_UnmarshalJSON data =
     rbind (map_err (\<lambda>_. OtherErr)
             (case data of
                VMap raw \<Rightarrow> rfold errorField raw zeroErrorJSON
              | VNil \<Rightarrow> Inr zeroErrorJSON
              | _ \<Rightarrow> Inl ErrInvalidSyntax)) (\<lambda>j.
     rbind (parseErrorStatus (ejStatus j)) (\<lambda>status.
       Inr (ScimError status (ejScimType j))))"

lemma errorField_simps:
  "errorField (''schemas'', v) j = rbind (jsonStrings v) (\<lambda>x. Inr (j\<lparr>ejSchemas := x\<rparr>))"
  "errorField (''status'', v) j = Inr (j\<lparr>ejStatus := Some v\<rparr>)"
  "errorField (''scimType'', VString s) j = Inr (j\<lparr>ejScimType := s\<rparr>)"
  by (simp_all add: errorField_def Let_def jsonString_def)

text \<open>What is written is read back.\<close>

lemma error_marshal_unmarshal:
  assumes "inInt64 (errStatus e)"
  shows "Error_UnmarshalJSON (Error_MarshalJSON e) = Inr e"
  using assms
  by (cases e)
    (auto simp: Error_UnmarshalJSON_def Error_MarshalJSON_def errorField_simps jsonStrings_def jsonString_def
      zeroErrorJSON_def parseErrorStatus_def parseInt64_formatInt)

end
