(* ===== verification/Client_Transport.thy ===== *)
theory Client_Transport
  imports Client_Retry Scim_ErrorDoc Scim_Codec
begin

text \<open>
  \<open>client/transport.go\<close>, \<open>errors.go\<close>, \<open>options.go\<close> and the wiring of \<open>client.go\<close>: the requests of
  the client and their retries.

  Whatever the client does to the world outside goes through a record \<open>net\<close>: the token source,
  one HTTP exchange, the context and its timer, the clock, the random draw. The state of that
  world is threaded through the calls. An exchange yields a response or, for a network error
  and a body that cannot be read, nothing. A body is blank, not JSON, or a JSON tree. The base
  URL is the list of the escaped segments of its path. Log output is left out.
\<close>

subsection \<open>Messages\<close>

datatype payload = Blank | NotJson | Json gval

record message =
  msMethod :: string
  msPath :: "string list"
  msQuery :: "string list amap"
  msHeaders :: "string amap"
  msBody :: "gval option"

record raw_response =
  rwStatus :: int
  rwHeader :: "string amap"
  rwBody :: payload

text \<open>The errors of the client; \<open>Wrapped\<close> is \<open>fmt.Errorf\<close> around an error of the library, and
  \<open>Panicked\<close> stands for a nil dereference.\<close>

datatype client_error =
    Protocol scim_error
  | Conflict scim_error
  | Exhausted int "client_error option"
  | ContextEnded
  | TokenFailed
  | NetworkFailed
  | Wrapped go_error
  | Ambiguous
  | Stalled
  | Panicked

text \<open>\<open>errors.AsType[*scim.Error]\<close>: the chain of \<open>Unwrap\<close>.\<close>

fun asScimError :: "client_error \<Rightarrow> scim_error option" where
  "asScimError (Protocol e) = Some e"
| "asScimError (Conflict e) = Some e"
| "asScimError (Exhausted n (Some e)) = asScimError e"
| "asScimError (Wrapped (ScimErr e)) = Some e"
| "asScimError _ = None"

definition decodeError :: "int \<Rightarrow> payload \<Rightarrow> client_error" where
  "decodeError status b =
     (let plain = ScimError status [];
          e = (case b of
                 Json v \<Rightarrow>
                   (case Error_UnmarshalJSON v of
                      Inr e \<Rightarrow> if errStatus e = 0 then plain else e
                    | Inl _ \<Rightarrow> plain)
               | _ \<Rightarrow> plain)
      in if errStatus e = 412 then Conflict e else Protocol e)"

subsection \<open>The client and the world\<close>

record client =
  clBase :: "string list"
  clRetry :: retry_config
  clSearch :: bool
  clPatchFallback :: bool

record 'w net =
  ntToken :: "('w \<Rightarrow> string option \<times> 'w) option"
  ntSend :: "message \<Rightarrow> 'w \<Rightarrow> raw_response option \<times> 'w"
  ntDone :: "'w \<Rightarrow> bool"
  ntWait :: "int \<Rightarrow> 'w \<Rightarrow> bool \<times> 'w"
  ntDraw :: "'w \<Rightarrow> float64"
  ntNow :: "'w \<Rightarrow> int"
  ntParseTime :: "string \<Rightarrow> int option"

text \<open>The options in the order they are passed.\<close>

datatype client_option = WithRetry retry_config | WithSearchTransport bool | WithPatchFallback bool

definition defaultConfig :: "string list \<Rightarrow> client" where
  "defaultConfig base =
     \<lparr>clBase = base, clRetry = DefaultRetryConfig, clSearch = False, clPatchFallback = True\<rparr>"

definition applyOption :: "client_option \<Rightarrow> client \<Rightarrow> client" where
  "applyOption opt c =
     (case opt of
        WithRetry rc \<Rightarrow> c\<lparr>clRetry := rc\<rparr>
      | WithSearchTransport b \<Rightarrow> c\<lparr>clSearch := b\<rparr>
      | WithPatchFallback b \<Rightarrow> c\<lparr>clPatchFallback := b\<rparr>)"

text \<open>\<open>New\<close> of a base URL that is absolute.\<close>

definition newClient :: "string list \<Rightarrow> client_option list \<Rightarrow> client" where
  "newClient base opts =
     (let c = fold applyOption opts (defaultConfig base)
      in c\<lparr>clRetry := retryNormalize (clRetry c)\<rparr>)"

subsection \<open>URLs\<close>

text \<open>
  \<open>URL.JoinPath\<close>: the elements are joined by slashes and cleaned as \<open>path.Join\<close> does, so a
  segment is split at its slashes, and empty and dot segments disappear; then the path is
  unescaped, and where that fails the URL stays as it was. What a server sees are the segments
  of the path as it is sent, unescaped: the joined path when all its bytes may stand in a URL,
  and otherwise the escaped form of the unescaped path. A trailing slash is a last segment \<open>/\<close>.
\<close>

definition cleanStep :: "string list \<Rightarrow> string \<Rightarrow> string list" where
  "cleanStep stack s =
     (if s = [] \<or> s = ''.'' then stack else if s = ''..'' then tl stack else s # stack)"

definition cleanPath :: "string list \<Rightarrow> string list" where
  "cleanPath ss = rev (foldl cleanStep [] ss)"

definition unhex :: "char \<Rightarrow> nat option" where
  "unhex c =
     (if isDigit c then Some (of_char c - 48)
      else if CHR ''a'' \<le> c \<and> c \<le> CHR ''f'' then Some (of_char c - 87)
      else if CHR ''A'' \<le> c \<and> c \<le> CHR ''F'' then Some (of_char c - 55)
      else None)"

fun unescape :: "string \<Rightarrow> string option" where
  "unescape [] = Some []"
| "unescape (c # s) =
     (if c \<noteq> CHR ''%'' then map_option ((#) c) (unescape s)
      else case s of
        a # b # r \<Rightarrow>
          (case (unhex a, unhex b) of
             (Some x, Some y) \<Rightarrow> map_option ((#) (char_of (16 * x + y))) (unescape r)
           | _ \<Rightarrow> None)
      | _ \<Rightarrow> None)"

definition isAlnum :: "char \<Rightarrow> bool" where
  "isAlnum c \<longleftrightarrow>
     list_ex (\<lambda>(low, high). low \<le> c \<and> c \<le> high)
       [(CHR ''0'', CHR ''9''), (CHR ''A'', CHR ''Z''), (CHR ''a'', CHR ''z'')]"

definition validPathChar :: "char \<Rightarrow> bool" where
  "validPathChar c \<longleftrightarrow> isAlnum c \<or> c \<in> set ''-_.~!$&()*+,;=:@[]%'' \<or> c = CHR 0x27"

definition sentSegments :: "string list \<Rightarrow> string list option" where
  "sentSegments p =
     map_option (\<lambda>us. if list_all (list_all validPathChar) p then us else concat (map (splitOn CHR ''/'') us))
       (those (map unescape p))"

definition joinPath :: "string list \<Rightarrow> string list \<Rightarrow> string list option" where
  "joinPath base segments =
     (let p = cleanPath (concat (map (splitOn CHR ''/'') (base @ segments)));
          slash = p = [] \<or> segments \<noteq> [] \<and> last segments \<noteq> [] \<and> last (last segments) = CHR ''/''
      in map_option (\<lambda>us. us @ (if slash then [''/''] else [])) (sentSegments p))"

definition requestURL :: "client \<Rightarrow> string list \<Rightarrow> string list" where
  "requestURL c segments =
     (case joinPath (clBase c) segments of
        Some us \<Rightarrow> us
      | None \<Rightarrow> (case joinPath (clBase c) [] of Some us \<Rightarrow> us | None \<Rightarrow> []))"

subsection \<open>One attempt\<close>

definition clientMediaType :: string where "clientMediaType = ''application/scim+json''"

definition setHeaders :: "bool \<Rightarrow> string \<Rightarrow> string amap \<Rightarrow> string amap" where
  "setHeaders hasBody token headers =
     fold (\<lambda>(k, v) h. aput k v h) headers
       ((\<lambda>h. if token \<noteq> [] then aput ''Authorization'' (''Bearer '' @ token) h else h)
        ((\<lambda>h. if hasBody then aput ''Content-Type'' clientMediaType h else h)
         (aput ''Accept'' clientMediaType [])))"

definition bearer :: "'w net \<Rightarrow> 'w \<Rightarrow> (client_error, string) res \<times> 'w" where
  "bearer nt w =
     (case ntToken nt of
        None \<Rightarrow> (Inr [], w)
      | Some source \<Rightarrow>
          (case source w of (None, w) \<Rightarrow> (Inl TokenFailed, w) | (Some t, w) \<Rightarrow> (Inr t, w)))"

definition attempt :: "'w net \<Rightarrow> message \<Rightarrow> string \<Rightarrow> 'w \<Rightarrow> raw_response option \<times> 'w" where
  "attempt nt ms token w =
     ntSend nt (ms\<lparr>msHeaders := setHeaders (msBody ms \<noteq> None) token (msHeaders ms)\<rparr>) w"

subsection \<open>Retries\<close>

definition realSleep :: "'w net \<Rightarrow> int \<Rightarrow> 'w \<Rightarrow> bool \<times> 'w" where
  "realSleep nt d w = (if d \<le> 0 then (\<not> ntDone nt w, w) else ntWait nt d w)"

definition retryDelay :: "client \<Rightarrow> 'w net \<Rightarrow> int \<Rightarrow> raw_response option \<Rightarrow> 'w \<Rightarrow> int" where
  "retryDelay c nt n resp w =
     (let delay = backoffDelay (clRetry c) (ntDraw nt w) n in
      case resp of
        None \<Rightarrow> delay
      | Some r \<Rightarrow>
          (case parseRetryAfter (ntParseTime nt)
                  (case aget (rwHeader r) ''Retry-After'' of None \<Rightarrow> [] | Some v \<Rightarrow> v) (ntNow nt w) of
             None \<Rightarrow> delay
           | Some after \<Rightarrow> min after (rcMaxDelay (clRetry c))))"

definition waitBeforeRetry ::
    "client \<Rightarrow> 'w net \<Rightarrow> int \<Rightarrow> raw_response option \<Rightarrow> 'w \<Rightarrow> (client_error, unit) res \<times> 'w" where
  "waitBeforeRetry c nt n resp w =
     (case realSleep nt (retryDelay c nt n resp w) w of
        (fired, w) \<Rightarrow> (if fired then Inr () else Inl ContextEnded, w))"

text \<open>What one round of the loop decides.\<close>

datatype round = Finished "(client_error, raw_response) res" | Again client_error "raw_response option"

definition tryOnce :: "client \<Rightarrow> 'w net \<Rightarrow> message \<Rightarrow> 'w \<Rightarrow> round \<times> 'w" where
  "tryOnce c nt ms w =
     (case bearer nt w of
        (Inl e, w) \<Rightarrow> (Finished (Inl e), w)
      | (Inr token, w) \<Rightarrow>
          (case attempt nt ms token w of
             (None, w) \<Rightarrow>
               (if ntDone nt w then Finished (Inl ContextEnded)
                else if \<not> retryable (clRetry c) (msMethod ms) 0 then Finished (Inl NetworkFailed)
                else Again NetworkFailed None, w)
           | (Some r, w) \<Rightarrow>
               (if \<not> retryable (clRetry c) (msMethod ms) (rwStatus r) then Finished (Inr r)
                else Again (decodeError (rwStatus r) (rwBody r)) (Some r), w)))"

function doLoop ::
    "client \<Rightarrow> 'w net \<Rightarrow> message \<Rightarrow> int \<Rightarrow> client_error option \<Rightarrow> 'w \<Rightarrow>
     (client_error, raw_response) res \<times> 'w" where
  "doLoop c nt ms n err w =
     (let limit = rcMaxAttempts (clRetry c) in
      if limit < n then (Inl (Exhausted limit err), w)
      else case tryOnce c nt ms w of
        (Finished r, w) \<Rightarrow> (r, w)
      | (Again e resp, w) \<Rightarrow>
          if n = limit then (Inl (Exhausted limit (Some e)), w)
          else case waitBeforeRetry c nt n resp w of
            (Inl we, w) \<Rightarrow> (Inl we, w)
          | (Inr _, w) \<Rightarrow> doLoop c nt ms (n + 1) (Some e) w)"
  by pat_completeness auto
termination
  by (relation "measure (\<lambda>(c, _, _, n, _, _). nat (rcMaxAttempts (clRetry c) + 1 - n))") auto

declare doLoop.simps [simp del]

definition doRequest :: "client \<Rightarrow> 'w net \<Rightarrow> message \<Rightarrow> 'w \<Rightarrow> (client_error, raw_response) res \<times> 'w" where
  "doRequest c nt ms w = doLoop c nt ms 1 None w"

subsection \<open>Resources\<close>

text \<open>A success without a body yields no resource. The client keeps readOnly attributes.\<close>

definition decodeReply :: "resource_type \<Rightarrow> raw_response \<Rightarrow> (client_error, resource option) res" where
  "decodeReply rt r =
     (if 400 \<le> rwStatus r then Inl (decodeError (rwStatus r) (rwBody r))
      else case rwBody r of
        Blank \<Rightarrow> Inr None
      | NotJson \<Rightarrow> Inl (Wrapped (ScimErr ErrInvalidSyntax))
      | Json v \<Rightarrow>
          rbind (map_err (\<lambda>e. Wrapped (ScimErr e)) (DecodeResource rt False v)) (\<lambda>r. Inr (Some r)))"

definition doResource ::
    "client \<Rightarrow> 'w net \<Rightarrow> message \<Rightarrow> resource_type \<Rightarrow> 'w \<Rightarrow> (client_error, resource option) res \<times> 'w" where
  "doResource c nt ms rt w =
     (case doRequest c nt ms w of (r, w) \<Rightarrow> (rbind r (decodeReply rt), w))"

definition isNotImplemented :: "client_error \<Rightarrow> bool" where
  "isNotImplemented e \<longleftrightarrow> (case asScimError e of Some s \<Rightarrow> errStatus s = 501 | None \<Rightarrow> False)"

end
