(* ===== verification/Client_Retries.thy ===== *)
theory Client_Retries
  imports Client_Transport
begin

text \<open>
  The exchanges a request makes: the loop of \<open>do\<close> run over a world that writes down every
  message with its reply.
\<close>

definition logged :: "'w net \<Rightarrow> ('w \<times> (message \<times> raw_response option) list) net" where
  "logged nt =
     \<lparr>ntToken = map_option (\<lambda>source (w, l). case source w of (t, w) \<Rightarrow> (t, (w, l))) (ntToken nt),
      ntSend = (\<lambda>m (w, l). case ntSend nt m w of (a, w) \<Rightarrow> (a, (w, l @ [(m, a)]))),
      ntDone = (\<lambda>(w, l). ntDone nt w),
      ntWait = (\<lambda>d (w, l). case ntWait nt d w of (b, w) \<Rightarrow> (b, (w, l))),
      ntDraw = (\<lambda>(w, l). ntDraw nt w),
      ntNow = (\<lambda>(w, l). ntNow nt w),
      ntParseTime = ntParseTime nt\<rparr>"

lemma logged_sel [simp]:
  "ntDone (logged nt) (w, l) = ntDone nt w"
  "ntWait (logged nt) d (w, l) = (case ntWait nt d w of (b, w) \<Rightarrow> (b, (w, l)))"
  "ntDraw (logged nt) (w, l) = ntDraw nt w"
  "ntNow (logged nt) (w, l) = ntNow nt w"
  "ntParseTime (logged nt) = ntParseTime nt"
  by (simp_all add: logged_def)

definition replyStatus :: "raw_response option \<Rightarrow> int" where
  "replyStatus a = (case a of None \<Rightarrow> 0 | Some r \<Rightarrow> rwStatus r)"

lemma bearer_logged:
  "bearer (logged nt) (w, l) = (case bearer nt w of (t, w') \<Rightarrow> (t, (w', l)))"
  by (auto simp: bearer_def logged_def split: option.splits prod.splits)

lemma bearer_Inl: "bearer nt w = (Inl e, w') \<Longrightarrow> e = TokenFailed"
  by (auto simp: bearer_def split: option.splits prod.splits)

text \<open>One round makes one exchange, or none when there is no token.\<close>

definition exchange :: "client \<Rightarrow> message \<Rightarrow> round \<Rightarrow> (message \<times> raw_response option) list \<Rightarrow> bool" where
  "exchange c ms out tr \<longleftrightarrow>
     (tr = [] \<and> out = Finished (Inl TokenFailed)) \<or>
     (\<exists>m a. tr = [(m, a)] \<and> m\<lparr>msHeaders := msHeaders ms\<rparr> = ms \<and>
        (case out of
           Finished (Inr r) \<Rightarrow> a = Some r \<and> \<not> retryable (clRetry c) (msMethod ms) (replyStatus a)
         | Finished (Inl e) \<Rightarrow> a = None \<and> (e = ContextEnded \<or> e = NetworkFailed)
         | Again e r \<Rightarrow> a = r \<and> retryable (clRetry c) (msMethod ms) (replyStatus a)))"

lemma tryOnce_logged:
  assumes "tryOnce c (logged nt) ms (w, l) = (out, wl)"
  shows "\<exists>w' tr. wl = (w', l @ tr) \<and> tryOnce c nt ms w = (out, w') \<and> exchange c ms out tr"
proof (cases "bearer nt w")
  case (Pair t w1)
  show ?thesis
  proof (cases t)
    case (Inl e)
    with Pair bearer_Inl [of nt w e w1] assms show ?thesis
      by (auto simp: tryOnce_def bearer_logged exchange_def)
  next
    case (Inr token)
    define m where "m = ms\<lparr>msHeaders := setHeaders (msBody ms \<noteq> None) token (msHeaders ms)\<rparr>"
    obtain a w2 where send: "ntSend nt m w1 = (a, w2)" by fastforce
    have att: "attempt nt ms token w1 = (a, w2)"
      using send by (simp add: attempt_def m_def)
    have att': "attempt (logged nt) ms token (w1, l) = (a, (w2, l @ [(m, a)]))"
      using send by (simp add: attempt_def logged_def m_def)
    have m: "m\<lparr>msHeaders := msHeaders ms\<rparr> = ms" by (simp add: m_def)
    show ?thesis
      using assms Pair Inr m
      by (cases a) (auto simp: tryOnce_def bearer_logged att att' exchange_def replyStatus_def)
  qed
qed

lemma wait_logged:
  "waitBeforeRetry c (logged nt) n r (w, l) =
     (case waitBeforeRetry c nt n r w of (t, w') \<Rightarrow> (t, (w', l)))"
proof -
  have "retryDelay c (logged nt) n r (w, l) = retryDelay c nt n r w"
    by (simp add: retryDelay_def cong: option.case_cong)
  then show ?thesis
    by (auto simp: waitBeforeRetry_def realSleep_def split: prod.splits)
qed

lemma wait_Inl: "waitBeforeRetry c nt n r w = (Inl e, w') \<Longrightarrow> e = ContextEnded"
  by (auto simp: waitBeforeRetry_def split: prod.splits if_splits)

text \<open>What the log of the attempts from \<open>n\<close> on says about their result.\<close>

definition attempts ::
    "client \<Rightarrow> message \<Rightarrow> int \<Rightarrow> (client_error, raw_response) res \<Rightarrow> (message \<times> raw_response option) list \<Rightarrow> bool" where
  "attempts c ms n r tr \<longleftrightarrow>
     int (length tr) \<le> rcMaxAttempts (clRetry c) + 1 - n \<and>
     list_all (\<lambda>(m, a). m\<lparr>msHeaders := msHeaders ms\<rparr> = ms) tr \<and>
     list_all (\<lambda>(m, a). retryable (clRetry c) (msMethod ms) (replyStatus a)) (butlast tr) \<and>
     (\<forall>resp. r = Inr resp \<longrightarrow>
        tr \<noteq> [] \<and> snd (last tr) = Some resp \<and> \<not> retryable (clRetry c) (msMethod ms) (rwStatus resp)) \<and>
     (\<forall>k e. r = Inl (Exhausted k e) \<longrightarrow> int (length tr) = rcMaxAttempts (clRetry c) + 1 - n \<and>
        tr \<noteq> [] \<and> retryable (clRetry c) (msMethod ms) (replyStatus (snd (last tr))))"

lemma attempts_Cons:
  assumes "attempts c ms (n + 1) r tr" "exchange c ms (Again e resp) [x]"
  shows "attempts c ms n r (x # tr)"
  using assms by (cases "tr = []") (auto simp: attempts_def exchange_def split: prod.splits)

lemma attempts_Finished:
  assumes "exchange c ms (Finished r) tr" "n \<le> rcMaxAttempts (clRetry c)"
  shows "attempts c ms n r tr"
  using assms by (cases r) (auto simp: attempts_def exchange_def replyStatus_def)

lemma attempts_stop:
  assumes "exchange c ms (Again e resp) tr" "n \<le> rcMaxAttempts (clRetry c)"
    and "e' = ContextEnded \<or> n = rcMaxAttempts (clRetry c)"
  shows "attempts c ms n (Inl e') tr"
  using assms by (auto simp: attempts_def exchange_def)

lemma doLoop_logged:
  assumes "doLoop c (logged nt) ms n err (w, l) = (r, wl)" "n \<le> rcMaxAttempts (clRetry c)"
  shows "\<exists>w' tr. wl = (w', l @ tr) \<and> doLoop c nt ms n err w = (r, w') \<and> attempts c ms n r tr"
  using assms
proof (induction "nat (rcMaxAttempts (clRetry c) - n)" arbitrary: n err w l)
  case (0 n err w l)
  then have n: "n = rcMaxAttempts (clRetry c)" by simp
  obtain out wl1 where out: "tryOnce c (logged nt) ms (w, l) = (out, wl1)" by (rule prod.exhaust)
  from tryOnce_logged [OF this] obtain w1 tr where
    *: "wl1 = (w1, l @ tr)" "tryOnce c nt ms w = (out, w1)" "exchange c ms out tr" by blast
  from 0(2) show ?case
    unfolding doLoop.simps [of c "logged nt" ms n] doLoop.simps [of c nt ms n]
    using n out * by (cases out) (auto simp: Let_def intro: attempts_Finished attempts_stop)
next
  case (Suc k n err w l)
  then have n: "n < rcMaxAttempts (clRetry c)" by linarith
  obtain out wl1 where out: "tryOnce c (logged nt) ms (w, l) = (out, wl1)" by (rule prod.exhaust)
  from tryOnce_logged [OF this] obtain w1 tr1 where
    *: "wl1 = (w1, l @ tr1)" "tryOnce c nt ms w = (out, w1)" "exchange c ms out tr1" by blast
  show ?case
  proof (cases out)
    case (Finished r1)
    with Suc.prems(1) n out * show ?thesis
      unfolding doLoop.simps [of c "logged nt" ms n] doLoop.simps [of c nt ms n]
      by (auto simp: Let_def intro!: attempts_Finished less_imp_le)
  next
    case (Again e resp)
    with *(3) obtain x where x: "tr1 = [x]" by (auto simp: exchange_def)
    obtain t w2 where wait: "waitBeforeRetry c nt n resp w1 = (t, w2)" by fastforce
    show ?thesis
    proof (cases t)
      case (Inl we)
      with wait_Inl [of c nt n resp w1 we w2] wait have "we = ContextEnded" by simp
      with Suc.prems(1) n out * Again x wait Inl show ?thesis
        unfolding doLoop.simps [of c "logged nt" ms n] doLoop.simps [of c nt ms n]
        by (auto simp: Let_def wait_logged intro!: attempts_stop)
    next
      case (Inr u)
      have step: "doLoop c nt ms n err w = doLoop c nt ms (n + 1) (Some e) w2"
        using n * Again wait Inr by (simp add: doLoop.simps [of c nt ms n] Let_def)
      have "doLoop c (logged nt) ms (n + 1) (Some e) (w2, l @ [x]) = (r, wl)"
        using Suc.prems(1) n out * Again x wait Inr
        by (simp add: doLoop.simps [of c "logged nt" ms n] Let_def wait_logged)
      then obtain w' tr where
        "wl = (w', (l @ [x]) @ tr)" "doLoop c nt ms (n + 1) (Some e) w2 = (r, w')" "attempts c ms (n + 1) r tr"
        using Suc.hyps(1) [of "n + 1"] Suc.hyps(2) n by fastforce
      moreover have "attempts c ms n r (x # tr)"
        using attempts_Cons calculation(3) *(3) Again x by blast
      ultimately show ?thesis using step by (intro exI [of _ w'] exI [of _ "x # tr"]) simp
    qed
  qed
qed

lemma doRequest_logged:
  assumes "doRequest c (logged nt) ms (w, []) = (r, (w', tr))" "1 \<le> rcMaxAttempts (clRetry c)"
  shows "doRequest c nt ms w = (r, w') \<and> attempts c ms 1 r tr"
  using doLoop_logged [of c nt ms 1 None w "[]" r "(w', tr)"] assms by (auto simp: doRequest_def)

end
