(* ===== verification/Client_Discovery.thy ===== *)
theory Client_Discovery
  imports Client_Transport Scim_SchemaDoc
begin

text \<open>
  \<open>client/capabilities.go\<close> and the type resolution of \<open>client.go\<close>: what a client learns from the
  discovery documents of its target, and keeps.

  A session is what the client keeps between calls (the capabilities and the types it has
  resolved) and the world behind \<open>net\<close>. One caller at a time runs here; the fetch that
  concurrent callers share is \<open>Client_Flight\<close>.
\<close>

subsection \<open>Sessions\<close>

record capabilities =
  PatchSupported :: bool
  ETagSupported :: bool
  FilterSupported :: bool
  MaxFilterResults :: int
  SortSupported :: bool
  BulkSupported :: bool
  BulkMaxOperations :: int
  BulkMaxPayloadSize :: int
  ChangePasswordSupported :: bool

record 'w session =
  ssCaps :: "capabilities option"
  ssTypes :: "resource_type amap"
  ssWorld :: 'w

type_synonym ('w, 'a) action = "'w session \<Rightarrow> (client_error, 'a) res \<times> 'w session"

definition andThen :: "('w, 'a) action \<Rightarrow> ('a \<Rightarrow> ('w, 'b) action) \<Rightarrow> ('w, 'b) action" where
  "andThen m f ss = (case m ss of (Inl e, ss) \<Rightarrow> (Inl e, ss) | (Inr a, ss) \<Rightarrow> f a ss)"

definition pure :: "(client_error, 'a) res \<Rightarrow> ('w, 'a) action" where
  "pure r ss = (r, ss)"

definition onWorld :: "('w \<Rightarrow> (client_error, 'a) res \<times> 'w) \<Rightarrow> ('w, 'a) action" where
  "onWorld f ss = (case f (ssWorld ss) of (r, w) \<Rightarrow> (r, ss\<lparr>ssWorld := w\<rparr>))"

lemma andThen_simps [simp]:
  "m ss = (Inl e, ss') \<Longrightarrow> andThen m f ss = (Inl e, ss')"
  "m ss = (Inr a, ss') \<Longrightarrow> andThen m f ss = f a ss'"
  by (simp_all add: andThen_def)

lemma andThen_pure [simp]: "andThen (pure r) f ss = (case r of Inl e \<Rightarrow> (Inl e, ss) | Inr a \<Rightarrow> f a ss)"
  by (simp add: andThen_def pure_def split: sum.split)

definition getMessage :: "client \<Rightarrow> string list \<Rightarrow> message" where
  "getMessage c segments =
     \<lparr>msMethod = ''GET'', msPath = requestURL c segments, msQuery = [], msHeaders = [], msBody = None\<rparr>"

text \<open>A document: the tree of the body of a success.\<close>

definition documentReply :: "raw_response \<Rightarrow> (client_error, gval) res" where
  "documentReply r =
     (if 400 \<le> rwStatus r then Inl (decodeError (rwStatus r) (rwBody r))
      else case rwBody r of Json v \<Rightarrow> Inr v | _ \<Rightarrow> Inl (Wrapped OtherErr))"

definition fetchDocument :: "client \<Rightarrow> 'w net \<Rightarrow> string list \<Rightarrow> 'w \<Rightarrow> (client_error, gval) res \<times> 'w" where
  "fetchDocument c nt segments w =
     (case doRequest c nt (getMessage c segments) w of (r, w) \<Rightarrow> (rbind r documentReply, w))"

subsection \<open>Decoding the ServiceProviderConfig\<close>

text \<open>An object read into a struct, member by member; null leaves it as it is.\<close>

definition structObject ::
    "(string \<Rightarrow> gval \<Rightarrow> 'a \<Rightarrow> (scim_error, 'a) res) \<Rightarrow> gval \<Rightarrow> 'a \<Rightarrow> (scim_error, 'a) res" where
  "structObject f v a =
     (case v of
        VMap raw \<Rightarrow> rfold (\<lambda>(k, v). f (foldName k) v) raw a
      | VNil \<Rightarrow> Inr a
      | _ \<Rightarrow> Inl ErrInvalidSyntax)"

definition intMember :: "gval \<Rightarrow> int \<Rightarrow> (int \<Rightarrow> 'a) \<Rightarrow> (scim_error, 'a) res" where
  "intMember v old put =
     rbind (jsonInt v) (\<lambda>n. Inr (put (case n of None \<Rightarrow> old | Some i \<Rightarrow> i)))"

definition boolMember :: "gval \<Rightarrow> bool \<Rightarrow> (bool \<Rightarrow> 'a) \<Rightarrow> (scim_error, 'a) res" where
  "boolMember v old put = rbind (jsonBool v old) (\<lambda>b. Inr (put b))"

definition spcFlag :: "gval \<Rightarrow> bool \<Rightarrow> (scim_error, bool) res" where
  "spcFlag = structObject (\<lambda>k v b. if k = ''supported'' then jsonBool v b else Inr b)"

definition spcBulk :: "gval \<Rightarrow> bool \<times> int \<times> int \<Rightarrow> (scim_error, bool \<times> int \<times> int) res" where
  "spcBulk = structObject (\<lambda>k v (s, ops, size).
     if k = ''supported'' then boolMember v s (\<lambda>s. (s, ops, size))
     else if k = ''maxoperations'' then intMember v ops (\<lambda>ops. (s, ops, size))
     else if k = ''maxpayloadsize'' then intMember v size (\<lambda>size. (s, ops, size))
     else Inr (s, ops, size))"

definition spcFilter :: "gval \<Rightarrow> bool \<times> int \<Rightarrow> (scim_error, bool \<times> int) res" where
  "spcFilter = structObject (\<lambda>k v (s, n).
     if k = ''supported'' then boolMember v s (\<lambda>s. (s, n))
     else if k = ''maxresults'' then intMember v n (\<lambda>n. (s, n))
     else Inr (s, n))"

definition zeroCapabilities :: capabilities where
  "zeroCapabilities =
     \<lparr>PatchSupported = False, ETagSupported = False, FilterSupported = False, MaxFilterResults = 0,
      SortSupported = False, BulkSupported = False, BulkMaxOperations = 0, BulkMaxPayloadSize = 0,
      ChangePasswordSupported = False\<rparr>"

definition spcWire :: "string \<Rightarrow> gval \<Rightarrow> capabilities \<Rightarrow> (scim_error, capabilities) res" where
  "spcWire k v c =
     (if k = ''patch'' then rbind (spcFlag v (PatchSupported c)) (\<lambda>b. Inr (c\<lparr>PatchSupported := b\<rparr>))
      else if k = ''bulk'' then
        rbind (spcBulk v (BulkSupported c, BulkMaxOperations c, BulkMaxPayloadSize c)) (\<lambda>(s, ops, size).
          Inr (c\<lparr>BulkSupported := s, BulkMaxOperations := ops, BulkMaxPayloadSize := size\<rparr>))
      else if k = ''filter'' then
        rbind (spcFilter v (FilterSupported c, MaxFilterResults c)) (\<lambda>(s, n).
          Inr (c\<lparr>FilterSupported := s, MaxFilterResults := n\<rparr>))
      else if k = ''changepassword'' then
        rbind (spcFlag v (ChangePasswordSupported c)) (\<lambda>b. Inr (c\<lparr>ChangePasswordSupported := b\<rparr>))
      else if k = ''sort'' then rbind (spcFlag v (SortSupported c)) (\<lambda>b. Inr (c\<lparr>SortSupported := b\<rparr>))
      else if k = ''etag'' then rbind (spcFlag v (ETagSupported c)) (\<lambda>b. Inr (c\<lparr>ETagSupported := b\<rparr>))
      else Inr c)"

definition parseSPC :: "gval \<Rightarrow> (client_error, capabilities) res" where
  "parseSPC v = map_err (\<lambda>_. Wrapped OtherErr) (structObject spcWire v zeroCapabilities)"

definition fetchCapabilities :: "client \<Rightarrow> 'w net \<Rightarrow> 'w \<Rightarrow> (client_error, capabilities) res \<times> 'w" where
  "fetchCapabilities c nt w =
     (case fetchDocument c nt [''ServiceProviderConfig''] w of (r, w) \<Rightarrow> (rbind r parseSPC, w))"

text \<open>
  The fetch runs without the cancellation of its caller, publishes a success, and a caller
  whose context has ended meanwhile returns the error of the context.
\<close>

definition detached :: "'w net \<Rightarrow> 'w net" where
  "detached nt =
     nt\<lparr>ntDone := (\<lambda>_. False), ntWait := (\<lambda>d w. (True, snd (ntWait nt d w)))\<rparr>"

definition Capabilities :: "client \<Rightarrow> 'w net \<Rightarrow> ('w, capabilities) action" where
  "Capabilities c nt ss =
     (case ssCaps ss of
        Some caps \<Rightarrow> (Inr caps, ss)
      | None \<Rightarrow>
          (case fetchCapabilities c (detached nt) (ssWorld ss) of
             (r, w) \<Rightarrow>
               (if ntDone nt w then Inl ContextEnded else r,
                ss\<lparr>ssCaps := (case r of Inr caps \<Rightarrow> Some caps | Inl _ \<Rightarrow> None), ssWorld := w\<rparr>)))"

definition InvalidateCapabilities :: "'w session \<Rightarrow> 'w session" where
  "InvalidateCapabilities ss = ss\<lparr>ssCaps := None\<rparr>"

subsection \<open>Resource types\<close>

record resourceTypeWire =
  wtName :: string
  wtEndpoint :: string
  wtSchema :: string
  wtExtensions :: "(string \<times> bool) list"

definition extensionWire :: "gval \<Rightarrow> (scim_error, string \<times> bool) res" where
  "extensionWire v =
     structObject (\<lambda>k v (u, b).
       if k = ''schema'' then textMember v u (\<lambda>u. (u, b))
       else if k = ''required'' then boolMember v b (\<lambda>b. (u, b))
       else Inr (u, b)) v ([], False)"

definition typeMember :: "string \<Rightarrow> gval \<Rightarrow> resourceTypeWire \<Rightarrow> (scim_error, resourceTypeWire) res" where
  "typeMember k v t =
     (if k = ''name'' then textMember v (wtName t) (\<lambda>s. t\<lparr>wtName := s\<rparr>)
      else if k = ''endpoint'' then textMember v (wtEndpoint t) (\<lambda>s. t\<lparr>wtEndpoint := s\<rparr>)
      else if k = ''schema'' then textMember v (wtSchema t) (\<lambda>s. t\<lparr>wtSchema := s\<rparr>)
      else if k = ''schemaextensions'' then
        (case v of
           VNil \<Rightarrow> Inr (t\<lparr>wtExtensions := []\<rparr>)
         | VList vs \<Rightarrow>
             rbind (rfold (\<lambda>v out. rbind (extensionWire v) (\<lambda>x. Inr (out @ [x]))) vs [])
               (\<lambda>xs. Inr (t\<lparr>wtExtensions := xs\<rparr>))
         | _ \<Rightarrow> Inl ErrInvalidSyntax)
      else Inr t)"

definition zeroTypeWire :: resourceTypeWire where
  "zeroTypeWire = \<lparr>wtName = [], wtEndpoint = [], wtSchema = [], wtExtensions = []\<rparr>"

definition parseTypeDoc :: "gval \<Rightarrow> (client_error, resourceTypeWire) res" where
  "parseTypeDoc v = map_err (\<lambda>_. Wrapped OtherErr) (structObject typeMember v zeroTypeWire)"

definition fetchSchema :: "client \<Rightarrow> 'w net \<Rightarrow> string \<Rightarrow> 'w \<Rightarrow> (client_error, schema) res \<times> 'w" where
  "fetchSchema c nt urn w =
     (case fetchDocument c nt [''Schemas'', urn] w of
        (r, w) \<Rightarrow> (rbind r (\<lambda>v. map_err Wrapped (ParseSchemaDoc v)), w))"

fun fetchExtensions ::
    "client \<Rightarrow> 'w net \<Rightarrow> (string \<times> bool) list \<Rightarrow> 'w \<Rightarrow> (client_error, schema_extension list) res \<times> 'w" where
  "fetchExtensions c nt [] w = (Inr [], w)"
| "fetchExtensions c nt ((urn, req) # xs) w =
     (case fetchSchema c nt urn w of
        (Inl e, w) \<Rightarrow> (Inl e, w)
      | (Inr s, w) \<Rightarrow>
          (case fetchExtensions c nt xs w of
             (r, w) \<Rightarrow> (rbind r (\<lambda>es. Inr (\<lparr>extSchema = s, extRequired = req\<rparr> # es)), w)))"

definition fetchResourceType :: "client \<Rightarrow> 'w net \<Rightarrow> string \<Rightarrow> 'w \<Rightarrow> (client_error, resource_type) res \<times> 'w" where
  "fetchResourceType c nt name w =
     (case fetchDocument c nt [''ResourceTypes'', name] w of
        (r, w) \<Rightarrow>
          (case rbind r parseTypeDoc of
             Inl e \<Rightarrow> (Inl e, w)
           | Inr t \<Rightarrow>
               (case fetchSchema c nt (wtSchema t) w of
                  (Inl e, w) \<Rightarrow> (Inl e, w)
                | (Inr base, w) \<Rightarrow>
                    (case fetchExtensions c nt (wtExtensions t) w of
                       (r, w) \<Rightarrow>
                         (rbind r (\<lambda>exts. Inr \<lparr>rtName = wtName t, rtDescription = [], rtEndpoint = wtEndpoint t,
                            rtSchema = base, rtExtensions = exts\<rparr>), w)))))"

text \<open>The built-in types are known; a custom type is resolved once.\<close>

datatype resolver = StaticType resource_type | DiscoveredType string

definition resourceType :: "client \<Rightarrow> 'w net \<Rightarrow> resolver \<Rightarrow> ('w, resource_type) action" where
  "resourceType c nt res ss =
     (case res of
        StaticType rt \<Rightarrow> (Inr rt, ss)
      | DiscoveredType name \<Rightarrow>
          (case aget (ssTypes ss) (foldName name) of
             Some rt \<Rightarrow> (Inr rt, ss)
           | None \<Rightarrow>
               (case fetchResourceType c nt name (ssWorld ss) of
                  (Inl e, w) \<Rightarrow> (Inl e, ss\<lparr>ssWorld := w\<rparr>)
                | (Inr rt, w) \<Rightarrow>
                    (Inr rt, ss\<lparr>ssTypes := aput (foldName name) rt (ssTypes ss), ssWorld := w\<rparr>))))"

end
