(* ===== verification/Client_Flight.thy ===== *)
theory Client_Flight
  imports Client_Discovery
begin

text \<open>
  The fetch of the capabilities that concurrent callers share (\<open>Capabilities\<close>, \<open>runCapsFetch\<close> and
  \<open>InvalidateCapabilities\<close> of \<open>client/capabilities.go\<close>), as a step relation. Every section under
  \<open>capsMu\<close> is one step, and so are the reply of the target, the close of the channel and the
  return of a caller; steps of different goroutines come in any order. A fetch is known by the
  order in which it began.
\<close>

subsection \<open>States and steps\<close>

datatype stage = Running | Replied | Published | Closed

record fetch =
  ftStage :: stage
  ftResult :: "(client_error, capabilities) res"

text \<open>The result of a fetch counts from its reply on; before, it is the zero value.\<close>

record flight =
  flCache :: "capabilities option"
  flInflight :: "nat option"
  flFetches :: "fetch list"
  flWaiting :: "nat \<Rightarrow> nat option"

datatype event =
    CallCached nat
  | CallJoins nat
  | CallStarts nat
  | Reply nat "(client_error, capabilities) res"
  | Publish nat
  | Close nat
  | Return nat
  | GiveUp nat
  | Invalidate

definition noFlight :: flight where
  "noFlight = \<lparr>flCache = None, flInflight = None, flFetches = [], flWaiting = (\<lambda>_. None)\<rparr>"

definition newFetch :: fetch where
  "newFetch = \<lparr>ftStage = Running, ftResult = Inr zeroCapabilities\<rparr>"

definition setFetch :: "nat \<Rightarrow> (fetch \<Rightarrow> fetch) \<Rightarrow> flight \<Rightarrow> flight" where
  "setFetch f g s = s\<lparr>flFetches := (flFetches s)[f := g (flFetches s ! f)]\<rparr>"

definition atStage :: "flight \<Rightarrow> nat \<Rightarrow> stage \<Rightarrow> bool" where
  "atStage s f st \<longleftrightarrow> f < length (flFetches s) \<and> ftStage (flFetches s ! f) = st"

definition publish :: "nat \<Rightarrow> flight \<Rightarrow> flight" where
  "publish f s =
     (setFetch f (\<lambda>x. x\<lparr>ftStage := Published\<rparr>) s)
       \<lparr>flCache := (case ftResult (flFetches s ! f) of Inr caps \<Rightarrow> Some caps | Inl _ \<Rightarrow> flCache s),
        flInflight := (if flInflight s = Some f then None else flInflight s)\<rparr>"

text \<open>The label of a step carries what a call returns, if it returns.\<close>

inductive flight_step :: "flight \<Rightarrow> event \<Rightarrow> (client_error, capabilities) res option \<Rightarrow> flight \<Rightarrow> bool" where
  call_cached:
    "flWaiting s i = None \<Longrightarrow> flCache s = Some caps \<Longrightarrow> flight_step s (CallCached i) (Some (Inr caps)) s"
| call_joins:
    "flWaiting s i = None \<Longrightarrow> flCache s = None \<Longrightarrow> flInflight s = Some f \<Longrightarrow>
     flight_step s (CallJoins i) None (s\<lparr>flWaiting := (flWaiting s)(i := Some f)\<rparr>)"
| call_starts:
    "flWaiting s i = None \<Longrightarrow> flCache s = None \<Longrightarrow> flInflight s = None \<Longrightarrow>
     flight_step s (CallStarts i) None
       (s\<lparr>flInflight := Some (length (flFetches s)), flFetches := flFetches s @ [newFetch],
          flWaiting := (flWaiting s)(i := Some (length (flFetches s)))\<rparr>)"
| reply:
    "atStage s f Running \<Longrightarrow>
     flight_step s (Reply f r) None (setFetch f (\<lambda>x. x\<lparr>ftStage := Replied, ftResult := r\<rparr>) s)"
| publish:
    "atStage s f Replied \<Longrightarrow> flight_step s (Publish f) None (publish f s)"
| close:
    "atStage s f Published \<Longrightarrow>
     flight_step s (Close f) None (setFetch f (\<lambda>x. x\<lparr>ftStage := Closed\<rparr>) s)"
| return:
    "flWaiting s i = Some f \<Longrightarrow> atStage s f Closed \<Longrightarrow>
     flight_step s (Return i) (Some (ftResult (flFetches s ! f)))
       (s\<lparr>flWaiting := (flWaiting s)(i := None)\<rparr>)"
| give_up:
    "flWaiting s i = Some f \<Longrightarrow>
     flight_step s (GiveUp i) (Some (Inl ContextEnded)) (s\<lparr>flWaiting := (flWaiting s)(i := None)\<rparr>)"
| invalidate:
    "flight_step s Invalidate None (s\<lparr>flCache := None\<rparr>)"

inductive_cases flight_stepE: "flight_step s e r t"

type_synonym flight_trace = "(event \<times> (client_error, capabilities) res option) list"

inductive flight_run :: "flight_trace \<Rightarrow> flight \<Rightarrow> bool" where
  start: "flight_run [] noFlight"
| step: "flight_run tr s \<Longrightarrow> flight_step s e r t \<Longrightarrow> flight_run (tr @ [(e, r)]) t"

subsection \<open>Counting\<close>

definition fetchesBegun :: "flight_trace \<Rightarrow> nat" where
  "fetchesBegun tr = length (filter (\<lambda>(e, r). \<exists>i. e = CallStarts i) tr)"

definition fetchesFailed :: "flight_trace \<Rightarrow> nat" where
  "fetchesFailed tr = length (filter (\<lambda>(e, r). \<exists>f err. e = Reply f (Inl err)) tr)"

definition invalidations :: "flight_trace \<Rightarrow> nat" where
  "invalidations tr = length (filter (\<lambda>(e, r). e = Invalidate) tr)"

lemma count_Nil [simp]:
  "fetchesBegun [] = 0" "fetchesFailed [] = 0" "invalidations [] = 0"
  by (simp_all add: fetchesBegun_def fetchesFailed_def invalidations_def)

lemma count_snoc [simp]:
  "fetchesBegun (tr @ [(e, r)]) = fetchesBegun tr + (case e of CallStarts _ \<Rightarrow> 1 | _ \<Rightarrow> 0)"
  "fetchesFailed (tr @ [(e, r)]) =
     fetchesFailed tr + (case e of Reply f (Inl _) \<Rightarrow> 1 | _ \<Rightarrow> 0)"
  "invalidations (tr @ [(e, r)]) = invalidations tr + (case e of Invalidate \<Rightarrow> 1 | _ \<Rightarrow> 0)"
  by (auto simp: fetchesBegun_def fetchesFailed_def invalidations_def split: event.split sum.split)

subsection \<open>The invariant\<close>

definition unsettled :: "fetch \<Rightarrow> bool" where
  "unsettled x \<longleftrightarrow> ftStage x = Running \<or> ftStage x = Replied"

definition failedReply :: "fetch \<Rightarrow> bool" where
  "failedReply x \<longleftrightarrow> ftStage x = Replied \<and> (\<exists>e. ftResult x = Inl e)"

text \<open>
  The fetch in flight is the one that is not settled; a cached value is the result of a settled
  fetch; a caller waits for a fetch that exists. Every fetch but one is paid for by a failure
  or an invalidation.
\<close>

definition flightOk :: "flight_trace \<Rightarrow> flight \<Rightarrow> bool" where
  "flightOk tr s \<longleftrightarrow>
     (\<forall>f < length (flFetches s). unsettled (flFetches s ! f) \<longleftrightarrow> flInflight s = Some f) \<and>
     (\<forall>f. flInflight s = Some f \<longrightarrow> f < length (flFetches s)) \<and>
     (\<forall>caps. flCache s = Some caps \<longrightarrow>
        (\<exists>f < length (flFetches s). \<not> unsettled (flFetches s ! f) \<and> ftResult (flFetches s ! f) = Inr caps)) \<and>
     (\<forall>i f. flWaiting s i = Some f \<longrightarrow> f < length (flFetches s)) \<and>
     (\<forall>f. flInflight s = Some f \<longrightarrow> flCache s = None) \<and>
     fetchesBegun tr = length (flFetches s) \<and>
     fetchesBegun tr + (case flInflight s of Some f \<Rightarrow> if failedReply (flFetches s ! f) then 1 else 0 | None \<Rightarrow> 0) \<le>
       fetchesFailed tr + invalidations tr + (if flCache s \<noteq> None \<or> flInflight s \<noteq> None then 1 else 0)"

lemma flightOk_start: "flightOk [] noFlight"
  by (simp add: flightOk_def noFlight_def)

lemma stage_simps [simp]:
  "unsettled newFetch" "\<not> failedReply newFetch"
  by (simp_all add: unsettled_def failedReply_def newFetch_def)

lemma flightOk_step:
  assumes ok: "flightOk tr s" and step: "flight_step s e r t"
  shows "flightOk (tr @ [(e, r)]) t"
  using step
proof cases
  case (call_cached i caps)
  with ok show ?thesis by (simp add: flightOk_def)
next
  case (call_joins i f)
  with ok show ?thesis by (auto simp: flightOk_def)
next
  case (call_starts i)
  with ok show ?thesis by (auto simp: flightOk_def nth_append less_Suc_eq)
next
  case (reply f r)
  then have f: "f < length (flFetches s)" "unsettled (flFetches s ! f)"
    by (simp_all add: atStage_def unsettled_def)
  with ok have "flInflight s = Some f" "flCache s = None" by (auto simp: flightOk_def)
  with ok f reply show ?thesis
    by (cases r) (auto simp: flightOk_def setFetch_def nth_list_update unsettled_def failedReply_def atStage_def)
next
  case (publish f)
  then have f: "f < length (flFetches s)" "unsettled (flFetches s ! f)" "ftStage (flFetches s ! f) = Replied"
    by (simp_all add: atStage_def unsettled_def)
  with ok have "flInflight s = Some f" "flCache s = None" by (auto simp: flightOk_def)
  with ok f publish show ?thesis
    by (cases "ftResult (flFetches s ! f)")
      (auto simp: flightOk_def publish_def setFetch_def nth_list_update unsettled_def failedReply_def)
next
  case (close f)
  then show ?thesis
    using ok by (auto simp: flightOk_def setFetch_def nth_list_update unsettled_def failedReply_def atStage_def)
next
  case (return i f)
  with ok show ?thesis by (auto simp: flightOk_def)
next
  case (give_up i f)
  with ok show ?thesis by (auto simp: flightOk_def)
next
  case invalidate
  with ok show ?thesis by (auto simp: flightOk_def split: option.splits if_splits)
qed

lemma flight_run_ok: "flight_run tr s \<Longrightarrow> flightOk tr s"
  by (induction rule: flight_run.induct) (auto intro: flightOk_start flightOk_step)

text \<open>Whatever a call returns, other than the end of its context, is a reply of the target.\<close>

definition replied :: "flight_trace \<Rightarrow> (client_error, capabilities) res \<Rightarrow> bool" where
  "replied tr r \<longleftrightarrow> (\<exists>f. Reply f r \<in> fst ` set tr)"

definition honest :: "flight_trace \<Rightarrow> event \<times> (client_error, capabilities) res option \<Rightarrow> bool" where
  "honest tr er \<longleftrightarrow>
     (case er of
        (GiveUp _, r) \<Rightarrow> r = Some (Inl ContextEnded)
      | (_, Some r) \<Rightarrow> replied tr r
      | (_, None) \<Rightarrow> True)"

definition flightHonest :: "flight_trace \<Rightarrow> flight \<Rightarrow> bool" where
  "flightHonest tr s \<longleftrightarrow>
     (\<forall>x \<in> set (flFetches s). ftStage x \<noteq> Running \<longrightarrow> replied tr (ftResult x)) \<and>
     (\<forall>caps. flCache s = Some caps \<longrightarrow> replied tr (Inr caps)) \<and>
     (\<forall>er \<in> set tr. honest tr er)"

lemma replied_mono: "replied tr r \<Longrightarrow> replied (tr @ tr') r"
  by (auto simp: replied_def)

lemma honest_mono: "honest tr er \<Longrightarrow> honest (tr @ tr') er"
  by (auto simp: honest_def intro: replied_mono split: prod.splits event.splits option.splits)

lemma flightHonest_step:
  assumes ok: "flightHonest tr s" and step: "flight_step s e r t"
  shows "flightHonest (tr @ [(e, r)]) t"
proof -
  note up = replied_mono honest_mono
  from ok have fetches: "\<And>f. f < length (flFetches s) \<Longrightarrow> ftStage (flFetches s ! f) \<noteq> Running \<Longrightarrow>
      replied tr (ftResult (flFetches s ! f))"
    and cache: "\<And>caps. flCache s = Some caps \<Longrightarrow> replied tr (Inr caps)"
    and past: "\<forall>er \<in> set tr. honest tr er"
    by (simp_all add: flightHonest_def)
  have set: "ftStage x \<noteq> Running \<Longrightarrow> replied (tr @ [(e, r)]) (ftResult x)" if "x \<in> set (flFetches t)" for x
    using step that fetches
  proof cases
    case (reply f r')
    then have new: "replied (tr @ [(e, r)]) r'" by (auto simp: replied_def)
    assume "ftStage x \<noteq> Running"
    moreover from that reply obtain g where
      "g < length (flFetches s)" "x = flFetches (setFetch f (\<lambda>x. x\<lparr>ftStage := Replied, ftResult := r'\<rparr>) s) ! g"
      by (auto simp: setFetch_def in_set_conv_nth)
    ultimately show ?thesis
      using fetches [of g] new by (cases "g = f") (auto simp: setFetch_def intro: up)
  qed (auto simp: setFetch_def publish_def in_set_conv_nth nth_list_update nth_append less_Suc_eq newFetch_def
      atStage_def intro: up split: if_splits)
  have "flCache t = Some caps \<Longrightarrow> replied (tr @ [(e, r)]) (Inr caps)" for caps
    using step
  proof cases
    case (publish f)
    assume "flCache t = Some caps"
    then have "ftResult (flFetches s ! f) = Inr caps \<or> flCache s = Some caps"
      using publish by (auto simp: publish_def split: sum.splits)
    moreover have "replied tr (ftResult (flFetches s ! f))"
      using fetches [of f] publish by (simp add: atStage_def)
    ultimately show ?thesis using cache by (auto intro: up)
  qed (auto simp: setFetch_def intro: up cache)
  moreover have "honest (tr @ [(e, r)]) (e, r)"
    using step
  proof cases
    case (return i f)
    then have "replied tr (ftResult (flFetches s ! f))" using fetches [of f] by (simp add: atStage_def)
    with return show ?thesis by (simp add: honest_def replied_mono)
  qed (auto simp: honest_def intro: up cache)
  ultimately show ?thesis
    using set past by (auto simp: flightHonest_def intro: up)
qed

lemma flight_run_honest: "flight_run tr s \<Longrightarrow> flightHonest tr s"
proof (induction rule: flight_run.induct)
  case start
  then show ?case by (simp add: flightHonest_def noFlight_def)
qed (rule flightHonest_step)

subsection \<open>Progress\<close>

text \<open>A caller that waits returns as soon as the fetch it waits for has run to its end.\<close>

lemma setFetch_stage [simp]:
  "atStage (setFetch f g s) f st \<longleftrightarrow> f < length (flFetches s) \<and> ftStage (g (flFetches s ! f)) = st"
  "flWaiting (setFetch f g s) = flWaiting s" "length (flFetches (setFetch f g s)) = length (flFetches s)"
  "f < length (flFetches s) \<Longrightarrow> flFetches (setFetch f g s) ! f = g (flFetches s ! f)"
  by (auto simp: atStage_def setFetch_def)

lemma publish_stage [simp]:
  "atStage (publish f s) f st \<longleftrightarrow> f < length (flFetches s) \<and> st = Published"
  "flWaiting (publish f s) = flWaiting s" "length (flFetches (publish f s)) = length (flFetches s)"
  "f < length (flFetches s) \<Longrightarrow> ftResult (flFetches (publish f s) ! f) = ftResult (flFetches s ! f)"
  "f < length (flFetches s) \<Longrightarrow> ftStage (flFetches (publish f s) ! f) = Published"
  by (auto simp: atStage_def publish_def setFetch_def)

lemma waiter_returns:
  assumes "flight_run tr s" "flWaiting s i = Some f"
  shows "\<exists>more r t. flight_run (tr @ more @ [(Return i, Some r)]) t \<and> length more \<le> 3 \<and>
    (\<forall>e \<in> fst ` set more. e \<in> {Reply f r', Publish f, Close f})"
proof -
  from flight_run_ok [OF assms(1)] assms(2) have f: "f < length (flFetches s)" by (auto simp: flightOk_def)
  have closed: ?thesis if "flight_run (tr @ more) u" "flWaiting u i = Some f" "atStage u f Closed"
    "length more \<le> 3" "\<forall>e \<in> fst ` set more. e \<in> {Reply f r', Publish f, Close f}" for more u
  proof -
    from flight_run.step [OF that(1) flight_step.return [OF that(2,3)]] that(4,5) show ?thesis
      by (intro exI conjI) (simp_all add: append_assoc [symmetric] del: append_assoc)
  qed
  have published: ?thesis if "flight_run (tr @ more) u" "flWaiting u i = Some f" "atStage u f Published"
    "length more \<le> 2" "\<forall>e \<in> fst ` set more. e \<in> {Reply f r', Publish f, Close f}" for more u
    using that flight_run.step [OF that(1) flight_step.close [OF that(3)]]
    by (intro closed [of "more @ [(Close f, None)]" "setFetch f (\<lambda>x. x\<lparr>ftStage := Closed\<rparr>) u"]) (auto simp: atStage_def)
  have replied: ?thesis if "flight_run (tr @ more) u" "flWaiting u i = Some f" "atStage u f Replied"
    "length more \<le> 1" "\<forall>e \<in> fst ` set more. e \<in> {Reply f r', Publish f, Close f}" for more u
    using that flight_run.step [OF that(1) flight_step.publish [OF that(3)]]
    by (intro published [of "more @ [(Publish f, None)]" "publish f u"]) (auto simp: atStage_def)
  show ?thesis
  proof (cases "ftStage (flFetches s ! f)")
    case Running
    with f have run: "atStage s f Running" by (simp add: atStage_def)
    from assms f flight_run.step [OF assms(1) flight_step.reply [OF run, of r']] show ?thesis
      by (intro replied [of "[(Reply f r', None)]" "setFetch f (\<lambda>x. x\<lparr>ftStage := Replied, ftResult := r'\<rparr>) s"]) auto
  next
    case Replied
    with assms f show ?thesis by (intro replied [of "[]" s]) (auto simp: atStage_def)
  next
    case Published
    with assms f show ?thesis by (intro published [of "[]" s]) (auto simp: atStage_def)
  next
    case Closed
    with assms f show ?thesis by (intro closed [of "[]" s]) (auto simp: atStage_def)
  qed
qed

end
