(* ===== verification/Scim_Wire.thy ===== *)
theory Scim_Wire
  imports Scim_Codec
begin

text \<open>
  The JSON of Go values: the tree \<open>json.Marshal\<close> prints and a decoder with \<open>UseNumber\<close> reads, where
  every number is its text. Integers print in base ten; a \<open>float64\<close> prints with the fewest digits
  that read back to it (\<open>strconv.FormatFloat\<close> with precision -1), without an exponent between
  1e-6 and 1e21; times and byte slices print as the text of their encoders. A \<open>float32\<close>, which no
  resource stores, prints here as the \<open>float64\<close> of its value.
\<close>

subsection \<open>Shortest decimals\<close>

text \<open>The decimal exponent of a positive rational: \<open>10 ^ e \<le> x < 10 ^ (e + 1)\<close>.\<close>

definition decExp :: "rat \<Rightarrow> int" where
  "decExp x =
     (if 1 \<le> x then int (length (formatNat (nat \<lfloor>x\<rfloor>))) - 1
      else - int (length (formatNat (nat (\<lceil>1 / x\<rceil> - 1)))))"

text \<open>Of the two decimals of \<open>n\<close> digits next to \<open>x\<close>, the nearer one that rounds to \<open>x\<close>.\<close>

definition nearDecimal :: "rat \<Rightarrow> int \<Rightarrow> int option" where
  "nearDecimal x k =
     (let lo = \<lfloor>x / pow10 k\<rfloor>; hi = lo + 1;
          reads = (\<lambda>m. roundFloat64 (of_int m * pow10 k) = Finite x)
      in if reads lo \<and> (x - of_int lo * pow10 k \<le> of_int hi * pow10 k - x \<or> \<not> reads hi) then Some lo
         else if reads hi then Some hi else None)"

fun shortest :: "rat \<Rightarrow> int \<Rightarrow> nat \<Rightarrow> nat \<Rightarrow> int \<times> int" where
  "shortest x e n 0 = (\<lfloor>x / pow10 (e - int n + 1)\<rfloor>, e - int n + 1)"
| "shortest x e n (Suc fuel) =
     (case nearDecimal x (e - int n + 1) of
        Some m \<Rightarrow> (m, e - int n + 1)
      | None \<Rightarrow> shortest x e (n + 1) fuel)"

text \<open>The digits of \<open>m * 10 ^ k\<close> without trailing zeros, and the exponent of the first one.\<close>

definition decimalDigits :: "int \<times> int \<Rightarrow> string \<times> int" where
  "decimalDigits mk =
     (case mk of (m, k) \<Rightarrow>
        let ds = formatNat (nat m)
        in (rev (dropWhile (\<lambda>c. c = CHR ''0'') (rev ds)), k + int (length ds) - 1))"

definition formatDigits :: "string \<Rightarrow> int \<Rightarrow> string" where
  "formatDigits ds e =
     (if e < - 6 \<or> 21 \<le> e then
        take 1 ds @ (if length ds \<le> 1 then [] else CHR ''.'' # drop 1 ds) @ ''e'' @
        (if e < 0 then ''-'' else ''+'') @ formatNat (nat \<bar>e\<bar>)
      else if e < 0 then ''0.'' @ replicate (nat (- e - 1)) CHR ''0'' @ ds
      else if int (length ds) \<le> e + 1 then ds @ replicate (nat (e + 1) - length ds) CHR ''0''
      else take (nat (e + 1)) ds @ CHR ''.'' # drop (nat (e + 1)) ds)"

definition formatFloat64 :: "float64 \<Rightarrow> string" where
  "formatFloat64 f =
     (case f of
        Finite x \<Rightarrow>
          if x = 0 then ''0''
          else (if x < 0 then ''-'' else []) @
            (case decimalDigits (shortest \<bar>x\<bar> (decExp \<bar>x\<bar>) 1 16) of (ds, e) \<Rightarrow> formatDigits ds e)
      | Infinite neg \<Rightarrow> if neg then ''-Inf'' else ''+Inf''
      | NaN \<Rightarrow> ''NaN'')"

subsection \<open>Trees\<close>

fun jsonText :: "gval \<Rightarrow> gval" where
  "jsonText VNil = VNil"
| "jsonText (VString s) = VString s"
| "jsonText (VBool b) = VBool b"
| "jsonText (VInt64 i) = VNumber (formatInt i)"
| "jsonText (VFloat64 f) = VNumber (formatFloat64 f)"
| "jsonText (VTime t) = VString (formatRFC3339Nano t)"
| "jsonText (VBytes b) = VString (base64Encode b)"
| "jsonText (VRef s) = VString s"
| "jsonText (VComplex m) = VMap (map (\<lambda>(k, v). (k, jsonText v)) m)"
| "jsonText (VMulti ms) = VList (map (\<lambda>m. VMap (map (\<lambda>(k, v). (k, jsonText v)) m)) ms)"
| "jsonText (VStrings ss) = VList (map VString ss)"
| "jsonText (VBools bs) = VList (map VBool bs)"
| "jsonText (VInt64s is) = VList (map (\<lambda>i. VNumber (formatInt i)) is)"
| "jsonText (VFloat64s fs) = VList (map (\<lambda>f. VNumber (formatFloat64 f)) fs)"
| "jsonText (VTimes ts) = VList (map (\<lambda>t. VString (formatRFC3339Nano t)) ts)"
| "jsonText (VBytess bs) = VList (map (\<lambda>b. VString (base64Encode b)) bs)"
| "jsonText (VRefs ss) = VList (map VString ss)"
| "jsonText (VNumber n) = VNumber n"
| "jsonText (VList vs) = VList (map jsonText vs)"
| "jsonText (VMap m) = VMap (map (\<lambda>(k, v). (k, jsonText v)) m)"
| "jsonText (VInt i) = VNumber (formatInt i)"
| "jsonText (VInt32 i) = VNumber (formatInt i)"
| "jsonText (VFloat32 f) = VNumber (formatFloat64 f)"
| "jsonText (VComplexes ms) = VList (map (\<lambda>m. VMap (map (\<lambda>(k, v). (k, jsonText v)) m)) ms)"
| "jsonText (VMaps ms) = VList (map (\<lambda>m. VMap (map (\<lambda>(k, v). (k, jsonText v)) m)) ms)"

text \<open>The document of a resource.\<close>

definition resourceDoc :: "json_fields \<Rightarrow> gval" where
  "resourceDoc fs = jsonText (VMap fs)"

definition noProjection :: projection where
  "noProjection = \<lparr>prAttributes = [], prExcluded = []\<rparr>"

end
