(* ===== verification/Scim_RoundTrip.thy ===== *)
theory Scim_RoundTrip
  imports Scim_Wire
begin

text \<open>
  Encoding a resource and decoding the document again. \<open>published\<close> is the resource as its
  document shows it: without what is returned never or on request, the members in the order of
  their declarations. A value is stable when the text of its leaves reads back as it is, which
  strings, booleans, 64-bit integers and references always do.
\<close>

subsection \<open>What a document shows\<close>

definition emitted :: "attribute \<Rightarrow> bool" where
  "emitted a \<longleftrightarrow> returnedOf a \<noteq> ReturnedNever \<and> returnedOf a \<noteq> ReturnedRequest"

definition pubSub :: "cval \<Rightarrow> attribute \<Rightarrow> (string \<times> gval) option" where
  "pubSub m sub =
     (if returnedOf sub = ReturnedNever then None
      else map_option (Pair (foldName (attrName sub))) (aget m (foldName (attrName sub))))"

definition pubComplex :: "attribute \<Rightarrow> cval \<Rightarrow> cval" where
  "pubComplex a m = List.map_filter (pubSub m) (subAttributes a)"

definition pubValue :: "attribute \<Rightarrow> gval \<Rightarrow> gval" where
  "pubValue a v =
     (case v of
        VComplex m \<Rightarrow> if pubComplex a m = [] then VNil else VComplex (pubComplex a m)
      | VMulti ms \<Rightarrow>
          (let ms' = filter (\<lambda>m. m \<noteq> []) (map (pubComplex a) ms) in if ms' = [] then VNil else VMulti ms')
      | _ \<Rightarrow> v)"

definition pubField :: "cval \<Rightarrow> attribute \<Rightarrow> (string \<times> gval) option" where
  "pubField m a =
     (if \<not> emitted a then None
      else case aget m (foldName (attrName a)) of
        None \<Rightarrow> None
      | Some v \<Rightarrow> if pubValue a v = VNil then None else Some (foldName (attrName a), pubValue a v))"

definition pubContainer :: "attribute list \<Rightarrow> cval \<Rightarrow> cval" where
  "pubContainer attrs m = List.map_filter (pubField m) attrs"

definition pubCommon :: "cval \<Rightarrow> cval" where
  "pubCommon m = List.map_filter (\<lambda>k. map_option (Pair k) (aget m k)) [''id'', ''externalid'']"

definition pubExtension :: "cval \<Rightarrow> schema_extension \<Rightarrow> (string \<times> gval) option" where
  "pubExtension m x =
     (let s = extSchema x in
      case extContainer m (schemaID s) of
        None \<Rightarrow> None
      | Some c \<Rightarrow>
          let c' = pubContainer (schemaAttributes s) c in
          if c' = [] then None else Some (foldName (schemaID s), VMap c'))"

definition publishedAttrs :: "resource_type \<Rightarrow> cval \<Rightarrow> cval" where
  "publishedAttrs rt m =
     pubCommon m @ pubContainer (schemaAttributes (rtSchema rt)) m @
     List.map_filter (pubExtension m) (rtExtensions rt)"

definition published :: "resource \<Rightarrow> resource" where
  "published r = r\<lparr>rAttrs := publishedAttrs (rRT r) (rAttrs r)\<rparr>"

subsection \<open>Stability\<close>

definition leafStable :: "attribute \<Rightarrow> gval \<Rightarrow> bool" where
  "leafStable a v \<longleftrightarrow>
     attrType a \<noteq> TypeComplex \<and> v \<noteq> VNil \<and> coerceSub a (jsonText (encodeLeaf v)) = Inr v"

definition complexStable :: "attribute \<Rightarrow> cval \<Rightarrow> bool" where
  "complexStable a m \<longleftrightarrow>
     list_all (\<lambda>sub. case aget m (foldName (attrName sub)) of None \<Rightarrow> True | Some w \<Rightarrow> leafStable sub w)
       (subAttributes a)"

definition valueStable :: "attribute \<Rightarrow> gval \<Rightarrow> bool" where
  "valueStable a v \<longleftrightarrow>
     (case v of
        VComplex m \<Rightarrow> attrType a = TypeComplex \<and> complexStable a m
      | VMulti ms \<Rightarrow> attrType a = TypeComplex \<and> list_all (complexStable a) ms
      | _ \<Rightarrow> leafStable a v)"

definition containerStable :: "attribute list \<Rightarrow> cval \<Rightarrow> bool" where
  "containerStable attrs m \<longleftrightarrow>
     list_all (\<lambda>a. case aget m (foldName (attrName a)) of None \<Rightarrow> True | Some v \<Rightarrow> valueStable a v) attrs"

definition timeStable :: "gotime \<Rightarrow> bool" where
  "timeStable t \<longleftrightarrow>
     (if timeIsZero t then t = zeroTime else parseRFC3339 (formatRFC3339Nano t) = Some t)"

definition wireStable :: "resource \<Rightarrow> bool" where
  "wireStable r \<longleftrightarrow>
     containerStable (schemaAttributes (rtSchema (rRT r))) (rAttrs r) \<and>
     list_all (\<lambda>x. case extContainer (rAttrs r) (schemaID (extSchema x)) of
         None \<Rightarrow> True | Some c \<Rightarrow> containerStable (schemaAttributes (extSchema x)) c) (rtExtensions (rRT r)) \<and>
     timeStable (mCreated (rMeta r)) \<and> timeStable (mLastModified (rMeta r))"

text \<open>Types whose documents are read member by member without confusion.\<close>

definition plainSubs :: "attribute \<Rightarrow> bool" where
  "plainSubs a \<longleftrightarrow>
     distinct (foldedNames (subAttributes a)) \<and> list_all (\<lambda>s. attrType s \<noteq> TypeComplex) (subAttributes a)"

definition wireAttrs :: "attribute list \<Rightarrow> bool" where
  "wireAttrs attrs \<longleftrightarrow> distinct (foldedNames attrs) \<and> list_all plainSubs attrs"

definition wireType :: "resource_type \<Rightarrow> bool" where
  "wireType rt \<longleftrightarrow>
     wireAttrs (schemaAttributes (rtSchema rt)) \<and>
     list_all (\<lambda>n. n \<notin> set (foldedNames commonAttributes) \<and> \<not> prefix urnPrefix n)
       (foldedNames (schemaAttributes (rtSchema rt))) \<and>
     distinct (map (\<lambda>x. foldName (schemaID (extSchema x))) (rtExtensions rt)) \<and>
     list_all (\<lambda>x. prefix urnPrefix (foldName (schemaID (extSchema x))) \<and>
       wireAttrs (schemaAttributes (extSchema x))) (rtExtensions rt)"

subsection \<open>Values\<close>

lemma map_filter_simps' [simp]:
  "List.map_filter f [] = []"
  "List.map_filter f (x # xs) = (case f x of None \<Rightarrow> List.map_filter f xs | Some y \<Rightarrow> y # List.map_filter f xs)"
  by (simp_all add: List.map_filter_simps)

lemma map_filter_keys: "(\<And>x y. f x = Some y \<Longrightarrow> fst y = g x) \<Longrightarrow> fst ` set (List.map_filter f xs) \<subseteq> g ` set xs"
  by (fastforce simp: map_filter_set)

lemma subField_kept:
  "subField m kept sub =
     (if returnedOf sub = ReturnedNever then None
      else map_option (\<lambda>v. (attrName sub, encodeLeaf v)) (aget m (foldName (attrName sub))))"
  by (simp add: subField_def keepSub_def)

lemma aput_fresh: "k \<notin> fst ` set m \<Longrightarrow> aput k v m = m @ [(k, v)]"
  by (induction m) auto

abbreviation textPair :: "string \<times> gval \<Rightarrow> string \<times> gval" where
  "textPair \<equiv> \<lambda>(k, v). (k, jsonText v)"

lemma complex_loop:
  assumes "distinct (foldedNames (subAttributes a))" "set subs \<subseteq> set (subAttributes a)"
    and "distinct (foldedNames subs)" "fst ` set out \<inter> set (foldedNames subs) = {}"
    and "list_all (\<lambda>sub. case aget m (foldName (attrName sub)) of None \<Rightarrow> True | Some w \<Rightarrow> leafStable sub w) subs"
  shows "rfold (complexStep a) (map textPair (List.map_filter (subField m kept) subs)) out =
    Inr (out @ List.map_filter (pubSub m) subs)"
  using assms(2-)
proof (induction subs arbitrary: out)
  case (Cons sub subs)
  note IH = Cons.IH and prems = Cons.prems
  show ?case
  proof (cases "returnedOf sub = ReturnedNever \<or> aget m (foldName (attrName sub)) = None")
    case True
    then have "subField m kept sub = None" "pubSub m sub = None"
      by (auto simp: subField_kept pubSub_def)
    moreover have "rfold (complexStep a) (map textPair (List.map_filter (subField m kept) subs)) out =
        Inr (out @ List.map_filter (pubSub m) subs)"
      using prems by (intro IH) auto
    ultimately show ?thesis by simp
  next
    case False
    then obtain w where w: "aget m (foldName (attrName sub)) = Some w" by auto
    with prems have st: "leafStable sub w" by simp
    then have "jsonText (encodeLeaf w) \<noteq> VNil"
      by (auto simp: leafStable_def coerceSub_def coerceValueWith_def)
    moreover have "findAttribute (subAttributes a) (attrName sub) = Some sub"
      using assms(1) prems(1) by (intro findAttribute_in) auto
    moreover have "foldName (attrName sub) \<notin> fst ` set out" using prems(3) by auto
    ultimately have step: "complexStep a (attrName sub, jsonText (encodeLeaf w)) out =
        Inr (out @ [(foldName (attrName sub), w)])"
      using st by (simp add: complexStep_def leafStable_def aput_fresh)
    have "rfold (complexStep a) (map textPair (List.map_filter (subField m kept) subs))
          (out @ [(foldName (attrName sub), w)]) =
        Inr ((out @ [(foldName (attrName sub), w)]) @ List.map_filter (pubSub m) subs)"
      using prems by (intro IH) auto
    with False w step show ?thesis by (simp add: subField_kept [of m sub] pubSub_def [of m sub])
  qed
qed simp

lemma encodeComplex_text:
  "jsonText (encodeComplex a m kept) =
     (let obj = List.map_filter (subField m kept) (subAttributes a) in
      if obj = [] then VNil else VMap (map textPair obj))"
  by (simp add: encodeComplex_def Let_def)

lemma subField_Nil: "List.map_filter (subField m kept) subs = [] \<longleftrightarrow> List.map_filter (pubSub m) subs = []"
  by (induction subs) (auto simp: subField_kept pubSub_def split: option.splits)

lemma complex_read:
  assumes "plainSubs a" "complexStable a m" "pubComplex a m \<noteq> []"
  shows "coerceComplex a (jsonText (encodeComplex a m kept)) = Inr (VComplex (pubComplex a m))"
  using complex_loop [of a "subAttributes a" "[]" m] assms
  by (simp add: encodeComplex_text coerceComplex_def plainSubs_def complexStable_def pubComplex_def Let_def subField_Nil)

lemma encodeComplex_Nil: "encodeComplex a m kept = VNil \<longleftrightarrow> pubComplex a m = []"
  by (simp add: encodeComplex_def pubComplex_def Let_def subField_Nil)

lemma aget_pubComplex: "aget (pubComplex a m) k = Some v \<Longrightarrow> aget m k = Some v"
proof -
  have "aget (List.map_filter (pubSub m) subs) k = Some v \<Longrightarrow> aget m k = Some v" for subs
    by (induction subs) (auto simp: pubSub_def split: option.splits if_splits)
  then show "aget (pubComplex a m) k = Some v \<Longrightarrow> aget m k = Some v"
    by (simp add: pubComplex_def)
qed

lemma multi_loop:
  assumes "plainSubs a" "list_all (complexStable a) ms"
  shows "rfold (multiComplexStep coerceComplex a)
      (map jsonText (filter (\<lambda>e. e \<noteq> VNil) (map (\<lambda>m. encodeComplex a m kept) ms))) (out, p) =
    (let ms' = filter (\<lambda>m. m \<noteq> []) (map (pubComplex a) ms)
     in Inr (out @ ms', p + length (filter primaryTrue ms')))"
  using assms(2)
proof (induction ms arbitrary: out p)
  case (Cons m ms)
  show ?case
  proof (cases "pubComplex a m = []")
    case True
    with Cons show ?thesis by (simp add: encodeComplex_Nil)
  next
    case False
    with Cons complex_read [OF assms(1), of m] show ?thesis
      by (simp add: encodeComplex_Nil multiComplexStep_def Let_def)
  qed
qed simp

lemma primaries_fewer: "length (filter primaryTrue (filter (\<lambda>m. m \<noteq> []) (map (pubComplex a) ms))) \<le> length (filter primaryTrue ms)"
  by (induction ms) (auto simp: primaryTrue_def dest: aget_pubComplex)

lemma leaf_forms: "storedLeaf a v \<Longrightarrow> encodeValue a v kept = encodeLeaf v \<and> pubValue a v = v"
  by (auto simp: storedLeaf_def storedSlice_def storedScalar_def isStoredScalar_def encodeValue_def pubValue_def
      split: gval.splits if_splits)

lemma value_read:
  assumes st: "storedValue a v" and stable: "valueStable a v" and subs: "plainSubs a"
  shows "coerceValue a (jsonText (encodeValue a v kept)) = Inr (pubValue a v) \<and>
    (encodeValue a v kept = VNil \<longleftrightarrow> pubValue a v = VNil)"
proof (cases "attrType a = TypeComplex")
  case False
  with st have leaf: "storedLeaf a v" by (simp add: storedValue_leaf)
  with False stable have ls: "leafStable a v"
    by (cases v) (auto simp: valueStable_def storedLeaf_def storedSlice_def storedScalar_def isStoredScalar_def
        split: if_splits)
  have "encodeLeaf v \<noteq> VNil" using ls by (auto simp: leafStable_def coerceSub_def coerceValueWith_def)
  with leaf_forms [OF leaf] ls False show ?thesis
    by (auto simp: leafStable_def coerceSub_eq)
next
  case True
  show ?thesis
  proof (cases "multiValued a")
    case False
    with st True obtain m where v: "v = VComplex m" by (auto simp: storedValue_def split: gval.splits)
    show ?thesis
    proof (cases "pubComplex a m = []")
      case empty: True
      then have "encodeComplex a m kept = VNil" by (simp add: encodeComplex_Nil)
      with empty v show ?thesis
        by (simp add: encodeValue_def pubValue_def coerceValue_def coerceValueWith_def)
    next
      case nonempty: False
      with v stable have read: "coerceComplex a (jsonText (encodeComplex a m kept)) = Inr (VComplex (pubComplex a m))"
        by (intro complex_read [OF subs]) (simp_all add: valueStable_def)
      have tree: "jsonText (encodeComplex a m kept) \<noteq> VNil" using read by (auto simp: coerceComplex_def)
      have "\<not> isStoredScalar TypeComplex w" for w by (auto simp: isStoredScalar_def split: gval.splits)
      with read tree nonempty v True False encodeComplex_Nil [of a m] show ?thesis
        by (simp add: encodeValue_def pubValue_def coerceValue_def coerceValueWith_def coerceSingleWith_def)
    qed
  next
    case multi: True
    with st True obtain ms where v: "v = VMulti ms" and one: "length (filter primaryTrue ms) \<le> 1"
      by (auto simp: storedValue_def split: gval.splits)
    define out where "out = filter (\<lambda>e. e \<noteq> VNil) (map (\<lambda>m. encodeComplex a m kept) ms)"
    define ms' where "ms' = filter (\<lambda>m. m \<noteq> []) (map (pubComplex a) ms)"
    have nil: "out = [] \<longleftrightarrow> ms' = []"
      by (auto simp: out_def ms'_def filter_empty_conv encodeComplex_Nil)
    have loop: "rfold (multiComplexStep coerceComplex a) (map jsonText out) ([], 0) =
        Inr (ms', length (filter primaryTrue ms'))"
      using multi_loop [OF subs, of ms "[]" 0] stable v by (simp add: out_def ms'_def valueStable_def Let_def)
    have "length (filter primaryTrue ms') \<le> 1"
      using primaries_fewer [of a ms] one unfolding ms'_def by linarith
    with loop nil v True multi show ?thesis
      by (auto simp: encodeValue_def pubValue_def out_def [symmetric] ms'_def [symmetric] Let_def coerceValue_def
          coerceValueWith_def coerceMultiWith_def multiItems_def coerceMultiComplex_def)
  qed
qed

subsection \<open>Containers\<close>

abbreviation openProjector :: "resource_type \<Rightarrow> projector" where
  "openProjector rt \<equiv> newProjector rt noProjection"

lemma selection_open: "selection (openProjector rt) urn a = (if emitted a then kept else dropped)"
  by (simp add: selection_def newProjector_def noProjection_def indexPaths_def emitted_def)

lemma field_read:
  assumes "plainSubs a" "\<And>v. aget m (foldName (attrName a)) = Some v \<Longrightarrow> storedValue a v \<and> valueStable a v"
  shows "(schemaField m urn (openProjector rt) a = None \<and> pubField m a = None) \<or>
    (\<exists>t w. schemaField m urn (openProjector rt) a = Some (attrName a, t) \<and>
       pubField m a = Some (foldName (attrName a), w) \<and> w \<noteq> VNil \<and> coerceValue a (jsonText t) = Inr w)"
proof (cases "emitted a \<and> aget m (foldName (attrName a)) \<noteq> None")
  case True
  then obtain v where v: "aget m (foldName (attrName a)) = Some v" by auto
  with assms(2) value_read [OF _ _ assms(1)] have
    "coerceValue a (jsonText (encodeValue a v kept)) = Inr (pubValue a v)"
    "encodeValue a v kept = VNil \<longleftrightarrow> pubValue a v = VNil" by blast+
  with True v show ?thesis
    by (simp add: schemaField_def pubField_def selection_open Let_def)
next
  case False
  then show ?thesis by (auto simp: schemaField_def pubField_def selection_open Let_def)
qed

lemma pubField_key: "pubField m a = Some y \<Longrightarrow> fst y = foldName (attrName a)"
  by (auto simp: pubField_def split: if_splits option.splits)

lemma pubContainer_keys: "fst ` set (pubContainer attrs m) \<subseteq> set (foldedNames attrs)"
  using map_filter_keys [of "pubField m" "foldName \<circ> attrName" attrs] pubField_key [of m]
  by (simp add: pubContainer_def foldedNames_def)

text \<open>A loop that adds one member to a container, for every attribute that is there.\<close>

definition readsField :: "(string \<times> gval \<Rightarrow> cval \<Rightarrow> (scim_error, cval) res) \<Rightarrow> attribute \<Rightarrow> bool" where
  "readsField f a \<longleftrightarrow>
     (\<forall>t w c. coerceValue a (jsonText t) = Inr w \<longrightarrow> w \<noteq> VNil \<longrightarrow> foldName (attrName a) \<notin> fst ` set c \<longrightarrow>
        f (attrName a, jsonText t) c = Inr (c @ [(foldName (attrName a), w)]))"

lemma container_loop:
  assumes "list_all plainSubs attrs" "distinct (foldedNames attrs)"
    and "\<forall>a \<in> set attrs. readsField f a"
    and "\<And>a v. a \<in> set attrs \<Longrightarrow> aget m (foldName (attrName a)) = Some v \<Longrightarrow> storedValue a v \<and> valueStable a v"
    and "fst ` set c \<inter> set (foldedNames attrs) = {}"
  shows "rfold f (map textPair (List.map_filter (schemaField m urn (openProjector rt)) attrs)) c =
    Inr (c @ pubContainer attrs m)"
  using assms
proof (induction attrs arbitrary: c)
  case (Cons a attrs)
  note IH = Cons.IH and prems = Cons.prems
  have a: "plainSubs a" "\<And>v. aget m (foldName (attrName a)) = Some v \<Longrightarrow> storedValue a v \<and> valueStable a v"
    using prems(1,4) by auto
  have rest: "list_all plainSubs attrs" "distinct (foldedNames attrs)" "\<forall>a \<in> set attrs. readsField f a"
    "\<And>b v. b \<in> set attrs \<Longrightarrow> aget m (foldName (attrName b)) = Some v \<Longrightarrow> storedValue b v \<and> valueStable b v"
    using prems(1-4) by simp_all
  have fresh: "foldName (attrName a) \<notin> fst ` set c" "fst ` set c \<inter> set (foldedNames attrs) = {}"
    "foldName (attrName a) \<notin> set (foldedNames attrs)"
    using prems(2,5) by auto
  have "(schemaField m urn (openProjector rt) a = None \<and> pubField m a = None) \<or>
    (\<exists>t w. schemaField m urn (openProjector rt) a = Some (attrName a, t) \<and>
       pubField m a = Some (foldName (attrName a), w) \<and> w \<noteq> VNil \<and> coerceValue a (jsonText t) = Inr w)"
    by (rule field_read [OF a])
  then consider "schemaField m urn (openProjector rt) a = None" "pubField m a = None"
    | t w where "schemaField m urn (openProjector rt) a = Some (attrName a, t)"
        "pubField m a = Some (foldName (attrName a), w)" "w \<noteq> VNil" "coerceValue a (jsonText t) = Inr w"
    by (elim disjE exE conjE) (rule that, assumption+)+
  then show ?case
  proof cases
    case 1
    have "rfold f (map textPair (List.map_filter (schemaField m urn (openProjector rt)) attrs)) c =
        Inr (c @ pubContainer attrs m)"
      by (rule IH [OF rest fresh(2)])
    with 1 show ?thesis by (simp add: pubContainer_def)
  next
    case 2
    have "readsField f a" using prems(3) by simp
    with 2 fresh(1) have step: "f (attrName a, jsonText t) c = Inr (c @ [(foldName (attrName a), w)])"
      by (simp add: readsField_def)
    have "rfold f (map textPair (List.map_filter (schemaField m urn (openProjector rt)) attrs))
          (c @ [(foldName (attrName a), w)]) = Inr ((c @ [(foldName (attrName a), w)]) @ pubContainer attrs m)"
      by (rule IH [OF rest]) (use fresh in auto)
    with 2 step show ?thesis by (simp add: pubContainer_def)
  qed
qed (simp add: pubContainer_def)

lemma decodeAttr_reads:
  assumes "findAttribute attrs (attrName a) = Some a"
  shows "readsField (\<lambda>(name, sv). decodeAttr False attrs name sv) a"
  using assms by (simp add: readsField_def decodeAttr_def aput_fresh)

lemma container_stored:
  assumes "containerOk attrs m" "containerStable attrs m" "distinct (foldedNames attrs)" "a \<in> set attrs"
    and "aget m (foldName (attrName a)) = Some v"
  shows "storedValue a v \<and> valueStable a v"
  using containerOk_get [OF assms(1,5) findAttribute_in [OF assms(3,4)]] assms(2,4,5)
  by (force simp: containerStable_def list_all_iff)

lemma extension_read:
  assumes "wireAttrs (schemaAttributes s)" "containerOk (schemaAttributes s) c" "containerStable (schemaAttributes s) c"
  shows "rfold (\<lambda>(name, sv). decodeAttr False (schemaAttributes s) name sv)
      (map textPair (appendSchemaFields [] c (schemaID s) (schemaAttributes s) (openProjector rt))) [] =
    Inr (pubContainer (schemaAttributes s) c)"
proof -
  have attrs: "list_all plainSubs (schemaAttributes s)" "distinct (foldedNames (schemaAttributes s))"
    using assms(1) by (simp_all add: wireAttrs_def)
  then have "\<forall>a \<in> set (schemaAttributes s). readsField (\<lambda>(name, sv). decodeAttr False (schemaAttributes s) name sv) a"
    by (auto intro: decodeAttr_reads findAttribute_in)
  from container_loop [OF attrs this, of c "[]" "schemaID s" rt]
    container_stored [OF assms(2,3) attrs(2)]
  show ?thesis by (simp add: appendSchemaFields_def)
qed

subsection \<open>Resources\<close>

text \<open>A member of the document that only changes the container.\<close>

lemma lift_loop:
  assumes "\<And>kv r. kv \<in> set xs \<Longrightarrow> rRT r = rt \<Longrightarrow>
      decodeTopLevel False kv r = rbind (g kv (rAttrs r)) (\<lambda>m. Inr (r\<lparr>rAttrs := m\<rparr>))"
    and "rRT r = rt"
  shows "rfold (decodeTopLevel False) xs r = rbind (rfold g xs (rAttrs r)) (\<lambda>m. Inr (r\<lparr>rAttrs := m\<rparr>))"
  using assms
proof (induction xs arbitrary: r)
  case (Cons kv xs)
  then show ?case by (cases "g kv (rAttrs r)") simp_all
qed simp

lemma decode_core:
  assumes "wireType rt" "a \<in> set (schemaAttributes (rtSchema rt))" "rRT r = rt"
  shows "decodeTopLevel False (attrName a, v) r =
    rbind (decodeAttr False (schemaAttributes (rtSchema rt)) (attrName a) v (rAttrs r)) (\<lambda>m. Inr (r\<lparr>rAttrs := m\<rparr>))"
proof -
  have "foldName (attrName a) \<in> set (foldedNames (schemaAttributes (rtSchema rt)))"
    using assms(2) by (auto simp: foldedNames_def)
  with assms(1) have "foldName (attrName a) \<notin> {''id'', ''externalid'', ''meta'', ''schemas''}"
    "\<not> prefix urnPrefix (foldName (attrName a))"
    by (auto simp: wireType_def list_all_iff foldedNames_commonAttributes)
  then show ?thesis
    using assms(3) by (simp add: decodeTopLevel_def Let_def attrSchemas_def attrMeta_def)
qed

lemma schemaField_name: "schemaField m urn pr a = Some kv \<Longrightarrow> fst kv = attrName a"
  by (auto simp: schemaField_def Let_def split: if_splits option.splits)

lemma core_read:
  assumes rt: "wireType rt" and r: "rRT r = rt"
    and m: "\<And>a v. a \<in> set (schemaAttributes (rtSchema rt)) \<Longrightarrow> aget m (foldName (attrName a)) = Some v \<Longrightarrow>
      storedValue a v \<and> valueStable a v"
    and c: "fst ` set (rAttrs r) \<subseteq> {''id'', ''externalid''}"
  shows "rfold (decodeTopLevel False)
      (map textPair (appendSchemaFields [] m [] (schemaAttributes (rtSchema rt)) (openProjector rt))) r =
    Inr (r\<lparr>rAttrs := rAttrs r @ pubContainer (schemaAttributes (rtSchema rt)) m\<rparr>)"
proof -
  define attrs where "attrs = schemaAttributes (rtSchema rt)"
  define g where "g = (\<lambda>(name, sv). decodeAttr False attrs name sv)"
  have attrs: "list_all plainSubs attrs" "distinct (foldedNames attrs)"
    using rt by (simp_all add: wireType_def wireAttrs_def attrs_def)
  have reads: "\<forall>a \<in> set attrs. readsField g a"
    unfolding g_def using attrs(2) by (auto intro: decodeAttr_reads findAttribute_in)
  have "fst ` set (rAttrs r) \<inter> set (foldedNames attrs) = {}"
    using rt c by (auto simp: wireType_def list_all_iff foldedNames_commonAttributes attrs_def)
  with container_loop [OF attrs reads, of m "rAttrs r" "[]" rt] m
  have loop: "rfold g (map textPair (List.map_filter (schemaField m [] (openProjector rt)) attrs)) (rAttrs r) =
      Inr (rAttrs r @ pubContainer attrs m)"
    by (simp add: attrs_def)
  have "rfold (decodeTopLevel False) (map textPair (List.map_filter (schemaField m [] (openProjector rt)) attrs)) r =
      rbind (rfold g (map textPair (List.map_filter (schemaField m [] (openProjector rt)) attrs)) (rAttrs r))
        (\<lambda>m. Inr (r\<lparr>rAttrs := m\<rparr>))"
  proof (rule lift_loop [OF _ r])
    fix kv and r' :: resource
    assume "kv \<in> set (map textPair (List.map_filter (schemaField m [] (openProjector rt)) attrs))" "rRT r' = rt"
    then obtain a kt where "a \<in> set attrs" and kt: "schemaField m [] (openProjector rt) a = Some kt"
      and kv: "kv = textPair kt"
      by (auto simp: map_filter_set)
    define v where "v = snd kv"
    have "kv = (attrName a, v)" using schemaField_name [OF kt] kv by (cases kt) (simp add: v_def)
    with decode_core [OF rt _ \<open>rRT r' = rt\<close>, of a v] \<open>a \<in> set attrs\<close>
    show "decodeTopLevel False kv r' = rbind (g kv (rAttrs r')) (\<lambda>m. Inr (r'\<lparr>rAttrs := m\<rparr>))"
      by (simp add: g_def attrs_def)
  qed
  with loop show ?thesis by (simp add: appendSchemaFields_def attrs_def)
qed

text \<open>Extensions: the members go to one container, which is then stored under the folded URN.\<close>

lemma find_distinct: "distinct (map f xs) \<Longrightarrow> x \<in> set xs \<Longrightarrow> find (\<lambda>y. f y = f x) xs = Some x"
  by (induction xs) auto

lemma decode_extension:
  assumes rt: "wireType rt" and x: "x \<in> set (rtExtensions rt)" and r: "rRT r = rt"
    and c: "containerOk (schemaAttributes (extSchema x)) c" "containerStable (schemaAttributes (extSchema x)) c"
    and fresh: "foldName (schemaID (extSchema x)) \<notin> fst ` set (rAttrs r)"
  shows "decodeTopLevel False
      (schemaID (extSchema x),
       VMap (map textPair (appendSchemaFields [] c (schemaID (extSchema x)) (schemaAttributes (extSchema x)) (openProjector rt)))) r =
    Inr (if pubContainer (schemaAttributes (extSchema x)) c = [] then r
         else r\<lparr>rAttrs := rAttrs r @ [(foldName (schemaID (extSchema x)), VMap (pubContainer (schemaAttributes (extSchema x)) c))]\<rparr>)"
proof -
  define s where "s = extSchema x"
  have urn: "prefix urnPrefix (foldName (schemaID s))" and attrs: "wireAttrs (schemaAttributes s)"
    using rt x by (simp_all add: wireType_def list_all_iff s_def)
  have "find (\<lambda>y. foldName (schemaID (extSchema y)) = foldName (schemaID s)) (rtExtensions rt) = Some x"
    unfolding s_def using rt x by (intro find_distinct) (simp_all add: wireType_def)
  then have ext: "extensionSchema rt (schemaID s) = Some s"
    by (simp add: extensionSchema_def s_def)
  have "foldName (schemaID s) \<notin> {attrSchemas, attrMeta, ''id'', ''externalid''}"
    using urn by (auto simp: urnPrefix_def attrSchemas_def attrMeta_def)
  then show ?thesis
    using urn ext r fresh extension_read [OF attrs c [folded s_def], of rt]
    by (simp add: decodeTopLevel_def Let_def decodeExtension_def s_def [symmetric] aput_fresh)
qed

lemma extensions_read:
  assumes rt: "wireType rt" and xs: "set xs \<subseteq> set (rtExtensions rt)"
      "distinct (map (\<lambda>x. foldName (schemaID (extSchema x))) xs)"
    and r: "rRT r = rt"
    and ok: "\<And>x c. x \<in> set xs \<Longrightarrow> extContainer m (schemaID (extSchema x)) = Some c \<Longrightarrow>
      containerOk (schemaAttributes (extSchema x)) c \<and> containerStable (schemaAttributes (extSchema x)) c"
    and fresh: "fst ` set (rAttrs r) \<inter> (\<lambda>x. foldName (schemaID (extSchema x))) ` set xs = {}"
    and m: "rAttrs r0 = m"
  shows "rfold (decodeTopLevel False) (map textPair (List.map_filter (extensionField r0 (openProjector rt)) xs)) r =
    Inr (r\<lparr>rAttrs := rAttrs r @ List.map_filter (pubExtension m) xs\<rparr>)"
  using xs r ok fresh
proof (induction xs arbitrary: r)
  case (Cons x xs)
  define s where "s = extSchema x"
  have rest: "set xs \<subseteq> set (rtExtensions rt)" "distinct (map (\<lambda>x. foldName (schemaID (extSchema x))) xs)"
    "\<And>x c. x \<in> set xs \<Longrightarrow> extContainer m (schemaID (extSchema x)) = Some c \<Longrightarrow>
      containerOk (schemaAttributes (extSchema x)) c \<and> containerStable (schemaAttributes (extSchema x)) c"
    using Cons.prems by auto
  have same: "rfold (decodeTopLevel False) (map textPair (List.map_filter (extensionField r0 (openProjector rt)) xs)) r =
      Inr (r\<lparr>rAttrs := rAttrs r @ List.map_filter (pubExtension m) xs\<rparr>)"
    using Cons.prems by (intro Cons.IH rest) auto
  show ?case
  proof (cases "extContainer m (schemaID s)")
    case None
    then have "extensionField r0 (openProjector rt) x = None" "pubExtension m x = None"
      by (simp_all add: extensionField_def pubExtension_def s_def m)
    with same show ?thesis by simp
  next
    case (Some c)
    define fs where "fs = appendSchemaFields [] c (schemaID s) (schemaAttributes s) (openProjector rt)"
    define c' where "c' = pubContainer (schemaAttributes s) c"
    have c: "containerOk (schemaAttributes s) c" "containerStable (schemaAttributes s) c"
      using Cons.prems(4) [of x c] Some by (simp_all add: s_def)
    have x: "x \<in> set (rtExtensions rt)" "foldName (schemaID s) \<notin> fst ` set (rAttrs r)"
      using Cons.prems by (auto simp: s_def)
    have pub: "pubExtension m x = (if c' = [] then None else Some (foldName (schemaID s), VMap c'))"
      using Some by (simp add: pubExtension_def s_def [symmetric] c'_def Let_def)
    have field: "extensionField r0 (openProjector rt) x = (if fs = [] then None else Some (schemaID s, VMap fs))"
      using Some by (simp add: extensionField_def s_def [symmetric] fs_def Let_def m)
    have step: "decodeTopLevel False (schemaID s, VMap (map textPair fs)) r =
        Inr (if c' = [] then r else r\<lparr>rAttrs := rAttrs r @ [(foldName (schemaID s), VMap c')]\<rparr>)"
      using decode_extension [OF rt x(1) Cons.prems(3) c [unfolded s_def] x(2) [unfolded s_def]]
      by (simp add: s_def fs_def c'_def)
    show ?thesis
    proof (cases "fs = []")
      case True
      have "wireAttrs (schemaAttributes s)" using rt x(1) by (simp add: wireType_def list_all_iff s_def)
      from extension_read [OF this c, of rt] True have "c' = []" by (simp add: fs_def c'_def)
      with True pub field same show ?thesis by simp
    next
      case False
      have "rfold (decodeTopLevel False) (map textPair (List.map_filter (extensionField r0 (openProjector rt)) xs))
          (r\<lparr>rAttrs := rAttrs r @ [(foldName (schemaID s), VMap c')]\<rparr>) =
        Inr ((r\<lparr>rAttrs := rAttrs r @ [(foldName (schemaID s), VMap c')]\<rparr>)
          \<lparr>rAttrs := (rAttrs r @ [(foldName (schemaID s), VMap c')]) @ List.map_filter (pubExtension m) xs\<rparr>)"
        using Cons.prems by (subst Cons.IH [OF rest(1,2) _ rest(3)]) (auto simp: s_def)
      with False pub field same step show ?thesis by simp
    qed
  qed
qed simp

subsection \<open>Common attributes and metadata\<close>

lemma common_stored:
  assumes rt: "wireType (rRT r)" and r: "resourceOk r" and k: "k = ''id'' \<or> k = ''externalid''"
    and v: "aget (rAttrs r) k = Some v"
  shows "\<exists>s. v = VString s"
proof -
  have "\<not> prefix urnPrefix (foldName k)" "foldName k = k" using k by (auto simp: urnPrefix_def)
  with rt have "extensionSchema (rRT r) k = None"
    by (auto simp: extensionSchema_def find_None_iff wireType_def list_all_iff)
  moreover have "resourceEntry (rRT r) (k, v)"
    using r aget_in_set [OF v] by (auto simp: resourceOk_def list_all_iff)
  ultimately have entry: "containerEntry (coreAttrs (rRT r)) (k, v)" by (simp add: resourceEntry_def)
  have "findAttribute (schemaAttributes (rtSchema (rRT r))) k = None"
    using rt k \<open>foldName k = k\<close>
    by (auto simp: findAttribute_None_iff wireType_def list_all_iff foldedNames_commonAttributes)
  then have "findAttribute (coreAttrs (rRT r)) k = findAttribute storedCommon k"
    by (simp add: coreAttrs_def findAttribute_append)
  moreover have "\<exists>a. findAttribute storedCommon k = Some a \<and> attrType a = TypeString \<and> \<not> multiValued a"
    using k by (auto simp: storedCommon_def commonAttributes_def findAttribute_def equalFold_def attrSchemas_def attrMeta_def)
  ultimately show ?thesis
    using entry
    by (auto simp: containerEntry_def storedValue_def storedLeaf_def storedScalar_def isStoredScalar_def
        split: option.splits gval.splits)
qed

lemma decode_common:
  "decodeTopLevel False (''id'', VString s) r = Inr (r\<lparr>rAttrs := aput ''id'' (VString s) (rAttrs r)\<rparr>)"
  "decodeTopLevel False (''externalId'', VString s) r = Inr (r\<lparr>rAttrs := aput ''externalid'' (VString s) (rAttrs r)\<rparr>)"
  by (simp_all add: decodeTopLevel_def Let_def attrSchemas_def attrMeta_def decodeAttr_def findAttribute_def
      equalFold_def commonAttributes_def coerceValue_def coerceValueWith_def coerceSingleWith_def isStoredScalar_def)

lemma common_read:
  assumes rt: "wireType (rRT r0)" and ok: "resourceOk r0" and r: "rAttrs r = []"
  shows "rfold (decodeTopLevel False) (map textPair (appendCommonFields [] r0 (openProjector (rRT r0)))) r =
    Inr (r\<lparr>rAttrs := pubCommon (rAttrs r0)\<rparr>)"
proof -
  have i: "aget (rAttrs r0) ''id'' = None \<or> (\<exists>s. aget (rAttrs r0) ''id'' = Some (VString s))"
    using common_stored [OF rt ok, of "''id''"] by (cases "aget (rAttrs r0) ''id''") auto
  have x: "aget (rAttrs r0) ''externalid'' = None \<or> (\<exists>s. aget (rAttrs r0) ''externalid'' = Some (VString s))"
    using common_stored [OF rt ok, of "''externalid''"] by (cases "aget (rAttrs r0) ''externalid''") auto
  have fields: "commonField (openProjector (rRT r0)) r0 ''id'' =
      map_option (\<lambda>v. (''id'', encodeValue (commonAttributes ! 0) v kept)) (aget (rAttrs r0) ''id'')"
    "commonField (openProjector (rRT r0)) r0 ''externalId'' =
      map_option (\<lambda>v. (''externalId'', encodeValue (commonAttributes ! 1) v kept)) (aget (rAttrs r0) ''externalid'')"
    by (simp_all add: commonField_def findAttribute_def equalFold_def commonAttributes_def selection_open emitted_def)
  show ?thesis
    using i x r
    by (auto simp: appendCommonFields_def pubCommon_def fields encodeValue_def encodeLeaf_def decode_common)
qed

lemma resource_attrs_id [simp]: "rAttrs r = m \<Longrightarrow> r\<lparr>rAttrs := m\<rparr> = r"
  by (cases r) simp

text \<open>The members of \<open>meta\<close>, each present when its field is assigned.\<close>

definition metaPart :: "bool \<Rightarrow> string \<Rightarrow> string \<Rightarrow> (string \<times> gval) list" where
  "metaPart b k s = (if b then [(k, VString s)] else [])"

lemma encodeMeta_open:
  "jsonText (encodeMeta (metaValue m) (openProjector rt)) =
     (let parts = metaPart (mResourceType m \<noteq> []) ''resourceType'' (mResourceType m) @
        metaPart (\<not> timeIsZero (mCreated m)) ''created'' (formatRFC3339Nano (mCreated m)) @
        metaPart (\<not> timeIsZero (mLastModified m)) ''lastModified'' (formatRFC3339Nano (mLastModified m)) @
        metaPart (mLocation m \<noteq> []) ''location'' (mLocation m) @
        metaPart (mVersion m \<noteq> []) ''version'' (mVersion m)
      in if parts = [] then VNil else VMap parts)"
proof -
  have attr: "findAttribute commonAttributes attrMeta = Some (commonAttributes ! 2)"
    by (simp add: findAttribute_def equalFold_def commonAttributes_def attrMeta_def)
  have sel: "selection (openProjector rt) [] (commonAttributes ! 2) = kept"
    by (simp add: selection_open emitted_def commonAttributes_def)
  show ?thesis
    unfolding encodeMeta_def attr option.case Let_def sel
    by (cases "mResourceType m = []"; cases "timeIsZero (mCreated m)"; cases "timeIsZero (mLastModified m)";
        cases "mLocation m = []"; cases "mVersion m = []";
        simp add: metaValue_def metaPart_def encodeComplex_def subField_kept commonAttributes_def encodeLeaf_def)
qed

lemma decodeMetaField_simps:
  "decodeMetaField (foldName ''resourceType'') (VString s) m = Inr (m\<lparr>mResourceType := s\<rparr>)"
  "parseRFC3339 s = Some t \<Longrightarrow> decodeMetaField (foldName ''created'') (VString s) m = Inr (m\<lparr>mCreated := t\<rparr>)"
  "parseRFC3339 s = Some t \<Longrightarrow> decodeMetaField (foldName ''lastModified'') (VString s) m = Inr (m\<lparr>mLastModified := t\<rparr>)"
  "decodeMetaField (foldName ''location'') (VString s) m = Inr (m\<lparr>mLocation := s\<rparr>)"
  "decodeMetaField (foldName ''version'') (VString s) m = Inr (m\<lparr>mVersion := s\<rparr>)"
  by (simp_all add: decodeMetaField_def metaString_def metaTime_def coerceDateTime_def)

lemma meta_parts_read:
  assumes "timeStable (mCreated m)" "timeStable (mLastModified m)"
  shows "rfold (\<lambda>(key, sv) m. if sv = VNil then Inr m else decodeMetaField (foldName key) sv m)
      (metaPart (mResourceType m \<noteq> []) ''resourceType'' (mResourceType m) @
       metaPart (\<not> timeIsZero (mCreated m)) ''created'' (formatRFC3339Nano (mCreated m)) @
       metaPart (\<not> timeIsZero (mLastModified m)) ''lastModified'' (formatRFC3339Nano (mLastModified m)) @
       metaPart (mLocation m \<noteq> []) ''location'' (mLocation m) @
       metaPart (mVersion m \<noteq> []) ''version'' (mVersion m)) zeroMeta = Inr m"
proof -
  have step: "rfold (\<lambda>(key, sv) m. if sv = VNil then Inr m else decodeMetaField (foldName key) sv m) (metaPart b k s) z =
      Inr (if b then z' else z)" if "b \<Longrightarrow> decodeMetaField (foldName k) (VString s) z = Inr z'" for b k s z z'
    using that by (simp add: metaPart_def)
  have created: "\<not> timeIsZero (mCreated m) \<Longrightarrow> parseRFC3339 (formatRFC3339Nano (mCreated m)) = Some (mCreated m)"
    "timeIsZero (mCreated m) \<Longrightarrow> mCreated m = zeroTime"
    and modified: "\<not> timeIsZero (mLastModified m) \<Longrightarrow> parseRFC3339 (formatRFC3339Nano (mLastModified m)) = Some (mLastModified m)"
    "timeIsZero (mLastModified m) \<Longrightarrow> mLastModified m = zeroTime"
    using assms by (auto simp: timeStable_def split: if_splits)
  define m1 where "m1 = zeroMeta\<lparr>mResourceType := mResourceType m\<rparr>"
  define m2 where "m2 = m1\<lparr>mCreated := mCreated m\<rparr>"
  define m3 where "m3 = m2\<lparr>mLastModified := mLastModified m\<rparr>"
  define m4 where "m4 = m3\<lparr>mLocation := mLocation m\<rparr>"
  have parts: "(if mResourceType m \<noteq> [] then m1 else zeroMeta) = m1"
    "(if \<not> timeIsZero (mCreated m) then m2 else m1) = m2"
    "(if \<not> timeIsZero (mLastModified m) then m3 else m2) = m3"
    "(if mLocation m \<noteq> [] then m4 else m3) = m4"
    "(if mVersion m \<noteq> [] then m4\<lparr>mVersion := mVersion m\<rparr> else m4) = m"
    using created(2) [symmetric] modified(2) [symmetric]
    by (simp_all add: m1_def m2_def m3_def m4_def zeroMeta_def)
  note reads = decodeMetaField_simps
  show ?thesis
    using step [of "mResourceType m \<noteq> []" "''resourceType''" "mResourceType m" zeroMeta m1]
      step [of "\<not> timeIsZero (mCreated m)" "''created''" "formatRFC3339Nano (mCreated m)" m1 m2]
      step [of "\<not> timeIsZero (mLastModified m)" "''lastModified''" "formatRFC3339Nano (mLastModified m)" m2 m3]
      step [of "mLocation m \<noteq> []" "''location''" "mLocation m" m3 m4]
      step [of "mVersion m \<noteq> []" "''version''" "mVersion m" m4 "m4\<lparr>mVersion := mVersion m\<rparr>"]
      reads created(1) modified(1)
    unfolding parts rfold_append by (simp add: m1_def m2_def m3_def m4_def del: foldName_simps)
qed

lemma meta_read:
  assumes "timeStable (mCreated (rMeta r0))" "timeStable (mLastModified (rMeta r0))" "rMeta r = zeroMeta"
  shows "(case jsonText (encodeMeta (metaValue (rMeta r0)) (openProjector rt)) of
       VNil \<Rightarrow> Inr r | v \<Rightarrow> decodeTopLevel False (attrMeta, v) r) = Inr (r\<lparr>rMeta := rMeta r0\<rparr>)"
proof -
  define parts where "parts =
      metaPart (mResourceType (rMeta r0) \<noteq> []) ''resourceType'' (mResourceType (rMeta r0)) @
       metaPart (\<not> timeIsZero (mCreated (rMeta r0))) ''created'' (formatRFC3339Nano (mCreated (rMeta r0))) @
       metaPart (\<not> timeIsZero (mLastModified (rMeta r0))) ''lastModified'' (formatRFC3339Nano (mLastModified (rMeta r0))) @
       metaPart (mLocation (rMeta r0) \<noteq> []) ''location'' (mLocation (rMeta r0)) @
       metaPart (mVersion (rMeta r0) \<noteq> []) ''version'' (mVersion (rMeta r0))"
  have loop: "rfold (\<lambda>(key, sv) m. if sv = VNil then Inr m else decodeMetaField (foldName key) sv m) parts zeroMeta =
      Inr (rMeta r0)"
    using meta_parts_read [OF assms(1,2)] by (simp add: parts_def)
  have tree: "jsonText (encodeMeta (metaValue (rMeta r0)) (openProjector rt)) = (if parts = [] then VNil else VMap parts)"
    by (simp add: encodeMeta_open parts_def Let_def)
  show ?thesis
  proof (cases "parts = []")
    case True
    with loop have "rMeta r0 = zeroMeta" by simp
    with True tree assms(3) show ?thesis by (cases r) simp
  next
    case False
    with tree loop show ?thesis
      by (simp add: decodeTopLevel_def Let_def attrMeta_def attrSchemas_def decodeMeta_def SetMeta_def)
  qed
qed

subsection \<open>The round trip\<close>

lemma encode_decode_resource:
  assumes rt: "wireType (rRT r)" "resourceTypeOk (rRT r)" and ok: "resourceOk r" and st: "wireStable r"
    and enc: "EncodeResource r noProjection = Inr fs"
  shows "DecodeResource (rRT r) False (resourceDoc fs) = Inr (published r)"
proof -
  define rt where "rt = rRT r"
  define m where "m = rAttrs r"
  define commons where "commons = appendCommonFields [] r (openProjector rt)"
  define cores where "cores = appendSchemaFields [] m [] (schemaAttributes (rtSchema rt)) (openProjector rt)"
  define exts where "exts = List.map_filter (extensionField r (openProjector rt)) (rtExtensions rt)"
  define mv where "mv = encodeMeta (metaValue (rMeta r)) (openProjector rt)"
  define tail where "tail = (if mv = VNil then [] else [(attrMeta, mv)])"
  have fs: "fs = (attrSchemas, VStrings (Schemas r)) # commons @ cores @ exts @ tail"
    using enc
    by (auto simp: EncodeResource_def marshalOrdered_def encodeFields_def Let_def appendCommonFields_def
        appendSchemaFields_def appendExtensionFields_def commons_def cores_def exts_def mv_def tail_def rt_def m_def
        split: if_splits)
  have wt: "wireType rt" "resourceTypeOk rt" using rt by (simp_all add: rt_def)
  define core where "core = pubContainer (schemaAttributes (rtSchema rt)) m"
  define r1 where "r1 = (NewResource rt)\<lparr>rAttrs := pubCommon m\<rparr>"
  define r2 where "r2 = r1\<lparr>rAttrs := pubCommon m @ core\<rparr>"
  define r3 where "r3 = r2\<lparr>rAttrs := publishedAttrs rt m\<rparr>"
  have common_keys: "fst ` set (pubCommon m) \<subseteq> {''id'', ''externalid''}"
    by (auto simp: pubCommon_def split: option.splits)
  have start: "decodeTopLevel False (attrSchemas, v) (NewResource rt) = Inr (NewResource rt)" for v
    by (simp add: decodeTopLevel_def attrSchemas_def Let_def)
  have one: "rfold (decodeTopLevel False) (map textPair commons) (NewResource rt) = Inr r1"
    using common_read [of r "NewResource rt"] rt ok
    by (simp add: commons_def rt_def r1_def m_def NewResource_def)
  have entry: "containerEntry (coreAttrs rt) (foldName (attrName a), v)"
    if a: "a \<in> set (schemaAttributes (rtSchema rt))" and v: "aget m (foldName (attrName a)) = Some v" for a v
  proof -
    have "findAttribute (coreAttrs rt) (attrName a) \<noteq> None"
      using a by (auto simp: findAttribute_None_iff coreAttrs_def foldedNames_def)
    then have "extensionSchema rt (foldName (attrName a)) = None"
      using wt(2) a by (auto simp: extensionSchema_def find_None_iff resourceTypeOk_def list_all_iff coreAttrs_def foldedNames_def)
    moreover have "resourceEntry rt (foldName (attrName a), v)"
      using ok aget_in_set [OF v] by (auto simp: resourceOk_def list_all_iff m_def rt_def)
    ultimately show ?thesis by (simp add: resourceEntry_def)
  qed
  have stored: "storedValue a v \<and> valueStable a v"
    if a: "a \<in> set (schemaAttributes (rtSchema rt))" and v: "aget m (foldName (attrName a)) = Some v" for a v
  proof -
    have "findAttribute (schemaAttributes (rtSchema rt)) (attrName a) = Some a"
      using wt(1) a by (intro findAttribute_in) (simp_all add: wireType_def wireAttrs_def)
    then have "storedValue a v" using entry [OF a v] by (simp add: containerEntry_def coreAttrs_def findAttribute_append)
    moreover have "valueStable a v"
      using st a v by (force simp: wireStable_def containerStable_def list_all_iff rt_def m_def)
    ultimately show ?thesis by simp
  qed
  have two: "rfold (decodeTopLevel False) (map textPair cores) r1 = Inr r2"
    using core_read [OF wt(1) _ stored, of r1] common_keys
    by (simp add: cores_def core_def r1_def r2_def NewResource_def)
  have containers: "containerOk (schemaAttributes (extSchema x)) c \<and> containerStable (schemaAttributes (extSchema x)) c"
    if x: "x \<in> set (rtExtensions rt)" and c: "extContainer m (schemaID (extSchema x)) = Some c" for x c
  proof -
    have "extensionSchema rt (schemaID (extSchema x)) = Some (extSchema x)"
      using wt(1) find_distinct [OF _ x, of "\<lambda>x. foldName (schemaID (extSchema x))"]
      by (simp add: extensionSchema_def wireType_def)
    from extContainer_ok [OF _ this, of m] ok c have "containerOk (schemaAttributes (extSchema x)) c"
      by (simp add: resourceOk_def m_def rt_def)
    moreover have "containerStable (schemaAttributes (extSchema x)) c"
      using st x c by (force simp: wireStable_def list_all_iff rt_def m_def)
    ultimately show ?thesis by simp
  qed
  have "foldName (schemaID (extSchema x)) \<notin> fst ` set (rAttrs r2)" if x: "x \<in> set (rtExtensions rt)" for x
  proof -
    have "foldName (schemaID (extSchema x)) \<notin> set (foldedNames (schemaAttributes (rtSchema rt)))"
      using wt(2) x by (auto simp: resourceTypeOk_def list_all_iff coreAttrs_def foldedNames_def)
    moreover have "foldName (schemaID (extSchema x)) \<notin> {''id'', ''externalid''}"
      using wt(1) x by (auto simp: wireType_def list_all_iff urnPrefix_def)
    ultimately show ?thesis
      using pubContainer_keys [of "schemaAttributes (rtSchema rt)" m] common_keys by (auto simp: r2_def core_def)
  qed
  then have "\<forall>k \<in> (\<lambda>x. foldName (schemaID (extSchema x))) ` set (rtExtensions rt). k \<notin> fst ` set (rAttrs r2)"
    by simp
  then have fresh: "fst ` set (rAttrs r2) \<inter> (\<lambda>x. foldName (schemaID (extSchema x))) ` set (rtExtensions rt) = {}"
    by blast
  have dist: "distinct (map (\<lambda>x. foldName (schemaID (extSchema x))) (rtExtensions rt))"
    using wt(1) by (simp add: wireType_def)
  have three: "rfold (decodeTopLevel False) (map textPair exts) r2 = Inr r3"
    unfolding exts_def
    by (subst extensions_read [OF wt(1) order_refl dist _ containers fresh])
      (simp_all add: r3_def r2_def r1_def core_def publishedAttrs_def NewResource_def m_def)
  have meta: "(case jsonText mv of VNil \<Rightarrow> Inr r3 | v \<Rightarrow> decodeTopLevel False (attrMeta, v) r3) = Inr (published r)"
    using meta_read [of r r3 rt] st
    by (simp add: mv_def wireStable_def r3_def r2_def r1_def NewResource_def published_def rt_def m_def)
  have "mv = VNil \<longleftrightarrow> jsonText mv = VNil"
    by (simp add: mv_def encodeMeta_def encodeComplex_text Let_def encodeComplex_def split: option.splits)
  with meta have four: "rfold (decodeTopLevel False) (map textPair tail) r3 = Inr (published r)"
    by (cases "jsonText mv") (auto simp: tail_def)
  show ?thesis
    using one two three four start
    by (simp add: DecodeResource_def resourceDoc_def fs rfold_append rt_def [symmetric])
qed

end
