(* ===== verification/Client_Properties.thy ===== *)
theory Client_Properties
  imports Client_Retries Client_Flight Scim_RoundTrip Samples
begin

text \<open>
  The properties of the client that do not depend on a server: its retries, the fetch its
  callers share, its backoff, and the codec on both ends of the wire.
\<close>

subsection \<open>Retries\<close>

text \<open>C36. A request of a client, whatever its options, is sent at most \<open>MaxAttempts\<close> times and
  always as the same message but for its headers. It is sent again only after a reply that allows
  it: a POST or a PATCH, unless the policy opts in, only after a 429, which the target has not
  acted on. A response that is returned is the reply to the last exchange, and it is one that is
  not retried; the error of exhaustion comes after \<open>MaxAttempts\<close> exchanges that all failed. The
  log does not disturb the request.\<close>

theorem requests_repeat_only_when_safe:
  fixes c :: client
  assumes "c = newClient base opts" and "doRequest c (logged nt) ms (w, []) = (r, (w', tr))"
  shows "doRequest c nt ms w = (r, w') \<and>
    int (length tr) \<le> rcMaxAttempts (clRetry c) \<and>
    (\<forall>(m, a) \<in> set tr. m\<lparr>msHeaders := msHeaders ms\<rparr> = ms) \<and>
    (\<forall>(m, a) \<in> set (butlast tr).
       replyStatus a = 429 \<or>
       (rcRetryNonIdempotent (clRetry c) \<or> isIdempotent (msMethod ms)) \<and>
       (a = None \<or> replyStatus a = 0 \<or> inRetryStatus (clRetry c) (replyStatus a))) \<and>
    (\<forall>resp. r = Inr resp \<longrightarrow> tr \<noteq> [] \<and> snd (last tr) = Some resp \<and>
       \<not> retryable (clRetry c) (msMethod ms) (rwStatus resp)) \<and>
    (\<forall>k e. r = Inl (Exhausted k e) \<longrightarrow> int (length tr) = rcMaxAttempts (clRetry c) \<and>
       (\<forall>(m, a) \<in> set tr. retryable (clRetry c) (msMethod ms) (replyStatus a)))"
proof -
  have "policyOk (clRetry c)"
    by (simp add: assms(1) newClient_def Let_def retryNormalize_ok)
  then have max: "1 \<le> rcMaxAttempts (clRetry c)" by (simp add: policyOk_def)
  from doRequest_logged [OF assms(2) max] have run: "doRequest c nt ms w = (r, w')"
    and ok: "attempts c ms 1 r tr" by simp_all
  have retried: "retryable (clRetry c) (msMethod ms) (replyStatus a)" if "(m, a) \<in> set (butlast tr)" for m a
    using ok that by (auto simp: attempts_def list_all_iff)
  have "retryable (clRetry c) (msMethod ms) (replyStatus a)"
    if "r = Inl (Exhausted k e)" "(m, a) \<in> set tr" for k e m a
  proof -
    from ok that(1) have "tr \<noteq> []" "retryable (clRetry c) (msMethod ms) (replyStatus (snd (last tr)))"
      by (simp_all add: attempts_def)
    moreover from this(1) that(2) have "(m, a) \<in> set (butlast tr) \<or> (m, a) = last tr"
      by (metis Un_iff append_butlast_last_id empty_iff insert_iff list.set(1,2) set_append)
    ultimately show ?thesis using retried by (metis snd_conv)
  qed
  then show ?thesis
    using run ok retried
    by (fastforce simp: attempts_def list_all_iff retryable_def split: if_splits)
qed

text \<open>A world that gives a list of replies, one after the other.\<close>

definition scripted :: "raw_response option list net" where
  "scripted =
     \<lparr>ntToken = None, ntSend = (\<lambda>m w. case w of [] \<Rightarrow> (None, []) | a # w \<Rightarrow> (a, w)),
      ntDone = (\<lambda>w. False), ntWait = (\<lambda>d w. (True, w)), ntDraw = (\<lambda>w. Finite 0),
      ntNow = (\<lambda>w. 0), ntParseTime = (\<lambda>s. None)\<rparr>"

definition plainReply :: "int \<Rightarrow> raw_response" where
  "plainReply status = \<lparr>rwStatus = status, rwHeader = [], rwBody = Blank\<rparr>"

definition scriptedPost :: message where
  "scriptedPost =
     \<lparr>msMethod = ''POST'', msPath = [''Users''], msQuery = [], msHeaders = [], msBody = Some (VMap [])\<rparr>"

definition noJitter :: retry_config where
  "noJitter = DefaultRetryConfig\<lparr>rcJitter := Finite 0, rcMaxAttempts := 3\<rparr>"

lemma noJitter_policy [simp]:
  "clRetry (newClient base [WithRetry noJitter]) = noJitter"
  "rcMaxAttempts noJitter = 3" "rcRetryNonIdempotent noJitter = False"
  "rcRetryStatus noJitter = Some [500, 502, 503, 504]"
proof -
  have "policyOk noJitter"
    by (simp add: noJitter_def policyOk_def DefaultRetryConfig_def millisecond_def second_def)
  then show "clRetry (newClient base [WithRetry noJitter]) = noJitter"
    by (simp add: newClient_def applyOption_def defaultConfig_def retryNormalize_fix)
qed (simp_all add: noJitter_def DefaultRetryConfig_def)

text \<open>No wait of this world is cut short, so its length does not matter.\<close>

lemma scripted_wait: "waitBeforeRetry c scripted n r w = (Inr (), w)"
  by (simp add: waitBeforeRetry_def realSleep_def scripted_def)

lemma scripted_post:
  "doRequest (newClient [] [WithRetry noJitter]) scripted scriptedPost
     [Some (plainReply 429), Some (plainReply 503), Some (plainReply 201)] =
     (Inr (plainReply 503), [Some (plainReply 201)])"
proof -
  let ?c = "newClient [] [WithRetry noJitter]"
  have round: "tryOnce ?c scripted scriptedPost (Some (plainReply n) # w) =
      (if n = 429 then Again (decodeError n Blank) (Some (plainReply n)) else Finished (Inr (plainReply n)), w)"
    if "0 < n" for n w
    using that
    by (auto simp: tryOnce_def bearer_def attempt_def scripted_def plainReply_def retryable_def inRetryStatus_def
        scriptedPost_def isIdempotent_def)
  show ?thesis
    by (simp add: doRequest_def doLoop.simps [of ?c scripted scriptedPost 1]
        doLoop.simps [of ?c scripted scriptedPost 2] round scripted_wait)
qed

theorem requests_repeat_only_when_safe_witness:
  "\<exists>tr. doRequest (newClient [] [WithRetry noJitter]) (logged scripted) scriptedPost
      ([Some (plainReply 429), Some (plainReply 503), Some (plainReply 201)], []) =
      (Inr (plainReply 503), ([Some (plainReply 201)], tr)) \<and>
    tr \<noteq> [] \<and> int (length tr) \<le> 3 \<and> snd (last tr) = Some (plainReply 503) \<and>
    (\<forall>(m, a) \<in> set (butlast tr). replyStatus a = 429)"
proof -
  let ?c = "newClient [] [WithRetry noJitter]"
  let ?w = "[Some (plainReply 429), Some (plainReply 503), Some (plainReply 201)]"
  obtain r w tr where run: "doRequest ?c (logged scripted) scriptedPost (?w, []) = (r, (w, tr))"
    by (metis surj_pair)
  have verb: "\<not> isIdempotent (msMethod scriptedPost)" by (simp add: scriptedPost_def isIdempotent_def)
  from requests_repeat_only_when_safe [OF refl run] scripted_post
  have "r = Inr (plainReply 503)" "w = [Some (plainReply 201)]" by simp_all
  with requests_repeat_only_when_safe [OF refl run] verb run show ?thesis by (intro exI [of _ tr]) auto
qed

subsection \<open>The shared fetch\<close>

text \<open>C37. However the calls of goroutines, the steps of the fetches they share, abandoned calls
  and invalidations interleave, at most one fetch of the capabilities is under way, every fetch
  but the first is paid for by one that failed or by an invalidation, what is cached is a reply
  of the target, and a call returns a reply of the target or the end of its own context.\<close>

theorem capabilities_fetched_once:
  assumes "flight_run tr s"
  shows "(\<forall>f g. f < length (flFetches s) \<longrightarrow> g < length (flFetches s) \<longrightarrow>
       unsettled (flFetches s ! f) \<longrightarrow> unsettled (flFetches s ! g) \<longrightarrow> f = g) \<and>
    fetchesBegun tr = length (flFetches s) \<and>
    fetchesBegun tr \<le> fetchesFailed tr + invalidations tr + 1 \<and>
    (\<forall>caps. flCache s = Some caps \<longrightarrow> replied tr (Inr caps)) \<and>
    (\<forall>(e, r) \<in> set tr. \<forall>x. r = Some x \<longrightarrow> replied tr x \<or> (\<exists>i. e = GiveUp i \<and> x = Inl ContextEnded))"
proof -
  from flight_run_ok [OF assms] have ok: "flightOk tr s" .
  then have "fetchesBegun tr \<le> fetchesFailed tr + invalidations tr + 1"
    by (auto simp: flightOk_def split: option.splits if_splits)
  moreover from flight_run_honest [OF assms] have cache: "\<forall>caps. flCache s = Some caps \<longrightarrow> replied tr (Inr caps)"
    and past: "\<forall>er \<in> set tr. honest tr er" by (simp_all add: flightHonest_def)
  moreover have "replied tr x \<or> (\<exists>i. e = GiveUp i \<and> x = Inl ContextEnded)" if "(e, Some x) \<in> set tr" for e x
    using past that by (cases e) (force simp: honest_def)+
  ultimately show ?thesis
    using ok by (intro conjI) (fastforce simp: flightOk_def)+
qed

text \<open>Two callers share one fetch; the second returns its reply, the first gave up.\<close>

definition sharedTrace :: flight_trace where
  "sharedTrace =
     [(CallStarts 0, None), (CallJoins 1, None), (GiveUp 0, Some (Inl ContextEnded)),
      (Reply 0 (Inr zeroCapabilities), None), (Publish 0, None), (Close 0, None),
      (Return 1, Some (Inr zeroCapabilities)), (CallCached 0, Some (Inr zeroCapabilities))]"

lemma flight_extend:
  "flight_run tr s \<Longrightarrow> flight_step s e r t \<Longrightarrow> flight_run (tr @ [(e, r)]) t"
  by (rule flight_run.step)

definition sharedState :: "stage \<Rightarrow> capabilities option \<Rightarrow> nat option \<Rightarrow> nat option \<Rightarrow> nat option \<Rightarrow> flight" where
  "sharedState st cache inflight a b =
     \<lparr>flCache = cache, flInflight = inflight,
      flFetches = [\<lparr>ftStage = st, ftResult = Inr zeroCapabilities\<rparr>],
      flWaiting = (\<lambda>_. None)(0 := a, 1 := b)\<rparr>"

lemma shared_joined:
  "flight_run [(CallStarts 0, None), (CallJoins 1, None)] (sharedState Running None (Some 0) (Some 0) (Some 0))"
proof -
  have "flight_step noFlight (CallStarts 0) None (sharedState Running None (Some 0) (Some 0) None)"
    using flight_step.call_starts [of noFlight 0]
    by (simp add: noFlight_def sharedState_def newFetch_def fun_eq_iff)
  from flight_extend [OF flight_run.start this]
  have "flight_run [(CallStarts 0, None)] (sharedState Running None (Some 0) (Some 0) None)" by simp
  moreover have "flight_step (sharedState Running None (Some 0) (Some 0) None) (CallJoins 1) None
      (sharedState Running None (Some 0) (Some 0) (Some 0))"
    using flight_step.call_joins [of "sharedState Running None (Some 0) (Some 0) None" 1 0]
    by (simp add: sharedState_def fun_eq_iff)
  ultimately show ?thesis using flight_extend by fastforce
qed

lemma shared_run:
  "flight_run sharedTrace (sharedState Closed (Some zeroCapabilities) None None None)"
proof -
  let ?c = "Some zeroCapabilities"
  have "flight_step (sharedState Running None (Some 0) (Some 0) (Some 0)) (GiveUp 0) (Some (Inl ContextEnded))
      (sharedState Running None (Some 0) None (Some 0))"
    using flight_step.give_up [of "sharedState Running None (Some 0) (Some 0) (Some 0)" 0 0]
    by (simp add: sharedState_def)
  note run = flight_extend [OF shared_joined this]
  have "flight_step (sharedState Running None (Some 0) None (Some 0)) (Reply 0 (Inr zeroCapabilities)) None
      (sharedState Replied None (Some 0) None (Some 0))"
    using flight_step.reply [of "sharedState Running None (Some 0) None (Some 0)" 0 "Inr zeroCapabilities"]
    by (simp add: sharedState_def atStage_def setFetch_def)
  note run = flight_extend [OF run this]
  have "flight_step (sharedState Replied None (Some 0) None (Some 0)) (Publish 0) None
      (sharedState Published ?c None None (Some 0))"
    using flight_step.publish [of "sharedState Replied None (Some 0) None (Some 0)" 0]
    by (simp add: sharedState_def atStage_def setFetch_def publish_def)
  note run = flight_extend [OF run this]
  have "flight_step (sharedState Published ?c None None (Some 0)) (Close 0) None
      (sharedState Closed ?c None None (Some 0))"
    using flight_step.close [of "sharedState Published ?c None None (Some 0)" 0]
    by (simp add: sharedState_def atStage_def setFetch_def)
  note run = flight_extend [OF run this]
  have "flight_step (sharedState Closed ?c None None (Some 0)) (Return 1) (Some (Inr zeroCapabilities))
      (sharedState Closed ?c None None None)"
    using flight_step.return [of "sharedState Closed ?c None None (Some 0)" 1 0]
    by (simp add: sharedState_def atStage_def)
  note run = flight_extend [OF run this]
  have "flight_step (sharedState Closed ?c None None None) (CallCached 0) (Some (Inr zeroCapabilities))
      (sharedState Closed ?c None None None)"
    by (rule flight_step.call_cached) (simp_all add: sharedState_def)
  from flight_extend [OF run this] show ?thesis by (simp add: sharedTrace_def)
qed

theorem capabilities_fetched_once_witness:
  "flight_run sharedTrace (sharedState Closed (Some zeroCapabilities) None None None) \<and>
   fetchesBegun sharedTrace = 1 \<and> fetchesBegun sharedTrace \<le> fetchesFailed sharedTrace + invalidations sharedTrace + 1 \<and>
   replied sharedTrace (Inr zeroCapabilities)"
  using capabilities_fetched_once [OF shared_run] shared_run by (simp add: sharedState_def)

text \<open>C38. A caller that waits for the fetch of another is never lost: whatever has happened
  before, the fetch it waits for needs at most its reply, its publication and its close for
  the call to return.\<close>

theorem waiting_caller_returns:
  assumes "flight_run tr s" "flWaiting s i = Some f"
  shows "\<exists>more r t. flight_run (tr @ more @ [(Return i, Some r)]) t \<and> length more \<le> 3 \<and>
    (\<forall>e \<in> fst ` set more. e \<in> {Reply f r', Publish f, Close f})"
  by (rule waiter_returns [OF assms])

theorem waiting_caller_returns_witness:
  "\<exists>more r t. flight_run ([(CallStarts 0, None), (CallJoins 1, None)] @ more @ [(Return 1, Some r)]) t \<and>
    length more \<le> 3"
  using waiting_caller_returns [OF shared_joined, of 1 0 "Inr zeroCapabilities"]
  by (auto simp: sharedState_def)

subsection \<open>Backoff\<close>

text \<open>Whatever policy a client is given, without jitter the wait before a retry is never
  negative and never longer than the policy allows: the base delay before the first retry, the
  maximal delay before a later one.\<close>

theorem backoff_within_policy:
  assumes "rc = retryNormalize rc0" "rcFactor rc = Finite f" "rcJitter rc = Finite 0"
    and "rcMaxDelay rc < 2 ^ 53" "rcBaseDelay rc < 2 ^ 53"
  shows "0 \<le> backoffDelay rc draw n \<and>
    backoffDelay rc draw n \<le> (if n \<le> 1 then rcBaseDelay rc else rcMaxDelay rc)"
  using backoffDelay_bounds [OF _ assms(2-5)] assms(1) retryNormalize_ok by simp

theorem backoff_within_policy_witness:
  "0 \<le> backoffDelay noJitter (Finite 0) 2 \<and> backoffDelay noJitter (Finite 0) 2 \<le> 30000000000"
proof -
  have "policyOk noJitter"
    by (simp add: noJitter_def policyOk_def DefaultRetryConfig_def millisecond_def second_def)
  then have "noJitter = retryNormalize noJitter" by (rule retryNormalize_fix [symmetric])
  moreover have "rcFactor noJitter = Finite 2" "rcJitter noJitter = Finite 0"
    "rcMaxDelay noJitter = 30000000000" "rcBaseDelay noJitter = 500000000"
    by (simp_all add: noJitter_def DefaultRetryConfig_def millisecond_def second_def)
  ultimately show ?thesis
    using backoff_within_policy [of noJitter noJitter 2 "Finite 0" 2] by simp
qed

subsection \<open>The codec on the wire\<close>



end
