(* ===== verification/Client_Service.thy ===== *)
theory Client_Service
  imports Client_Discovery Scim_Wire Patch_Decode Patch_Apply
begin

text \<open>
  \<open>client/resources.go\<close>, \<open>users.go\<close> and \<open>groups.go\<close>: the operations on one resource and the typed
  helpers. A service is the resolver of its type. An operation that succeeds without a body
  yields no resource.
\<close>

subsection \<open>Messages\<close>

definition message ::
    "client \<Rightarrow> string \<Rightarrow> string list \<Rightarrow> string amap \<Rightarrow> gval option \<Rightarrow> message" where
  "message c verb segments headers b =
     \<lparr>msMethod = verb, msPath = requestURL c segments, msQuery = [], msHeaders = headers, msBody = b\<rparr>"

definition encodeBody :: "resource \<Rightarrow> (client_error, gval) res" where
  "encodeBody r = rbind (map_err Wrapped (EncodeResource r noProjection)) (\<lambda>fs. Inr (resourceDoc fs))"

definition ifMatch :: "string \<Rightarrow> string amap" where
  "ifMatch version = (if version = [] then [] else [(''If-Match'', version)])"

subsection \<open>Operations\<close>

definition svcCreate ::
    "client \<Rightarrow> 'w net \<Rightarrow> resolver \<Rightarrow> resource \<Rightarrow> ('w, resource option) action" where
  "svcCreate c nt s r =
     andThen (resourceType c nt s) (\<lambda>rt.
     andThen (pure (encodeBody r)) (\<lambda>b.
       onWorld (doResource c nt (message c ''POST'' [rtEndpoint rt] [] (Some b)) rt)))"

definition svcGet :: "client \<Rightarrow> 'w net \<Rightarrow> resolver \<Rightarrow> string \<Rightarrow> ('w, resource option) action" where
  "svcGet c nt s i =
     andThen (resourceType c nt s) (\<lambda>rt.
       onWorld (doResource c nt (message c ''GET'' [rtEndpoint rt, i] [] None) rt))"

definition svcReplace ::
    "client \<Rightarrow> 'w net \<Rightarrow> resolver \<Rightarrow> string \<Rightarrow> resource \<Rightarrow> ('w, resource option) action" where
  "svcReplace c nt s i r =
     andThen (resourceType c nt s) (\<lambda>rt.
     andThen (pure (encodeBody r)) (\<lambda>b.
       onWorld (doResource c nt
         (message c ''PUT'' [rtEndpoint rt, i] (ifMatch (mVersion (rMeta r))) (Some b)) rt)))"

definition deleteReply :: "raw_response \<Rightarrow> (client_error, unit) res" where
  "deleteReply r = (if 400 \<le> rwStatus r then Inl (decodeError (rwStatus r) (rwBody r)) else Inr ())"

definition svcDelete :: "client \<Rightarrow> 'w net \<Rightarrow> resolver \<Rightarrow> string \<Rightarrow> ('w, unit) action" where
  "svcDelete c nt s i =
     andThen (resourceType c nt s) (\<lambda>rt.
       onWorld (\<lambda>w.
         case doRequest c nt (message c ''DELETE'' [rtEndpoint rt, i] [] None) w of
           (r, w) \<Rightarrow> (rbind r deleteReply, w)))"

text \<open>A native PATCH; an empty answer is followed by a read.\<close>

definition patchRequest ::
    "client \<Rightarrow> 'w net \<Rightarrow> resolver \<Rightarrow> string \<Rightarrow> patch_op list \<Rightarrow> ('w, resource option) action" where
  "patchRequest c nt s i ops =
     andThen (resourceType c nt s) (\<lambda>rt.
     andThen (pure (map_err Wrapped (EncodeOps ops))) (\<lambda>doc.
     andThen (onWorld (doResource c nt
                (message c ''PATCH'' [rtEndpoint rt, i] [] (Some (jsonText doc))) rt)) (\<lambda>res.
       case res of None \<Rightarrow> svcGet c nt s i | Some r \<Rightarrow> pure (Inr (Some r)))))"

text \<open>
  PATCH by GET and PUT. \<open>patch.Apply\<close> dereferences the resource, which is nil after an answer
  without a body.
\<close>

definition replaceViaPatch ::
    "client \<Rightarrow> 'w net \<Rightarrow> resolver \<Rightarrow> string \<Rightarrow> patch_op list \<Rightarrow> ('w, resource option) action" where
  "replaceViaPatch c nt s i ops =
     andThen (svcGet c nt s i) (\<lambda>cur.
       case cur of
         None \<Rightarrow> pure (Inl Panicked)
       | Some cur \<Rightarrow>
           andThen (pure (map_err Protocol (Apply cur ops StrictProfile))) (\<lambda>(r, changed).
             svcReplace c nt s i r))"

definition nativePatch ::
    "client \<Rightarrow> 'w net \<Rightarrow> resolver \<Rightarrow> string \<Rightarrow> patch_op list \<Rightarrow> ('w, resource option) action" where
  "nativePatch c nt s i ops ss =
     (case patchRequest c nt s i ops ss of
        (Inr r, ss) \<Rightarrow> (Inr r, ss)
      | (Inl e, ss) \<Rightarrow>
          if \<not> clPatchFallback c \<or> \<not> isNotImplemented e then (Inl e, ss)
          else replaceViaPatch c nt s i ops ss)"

definition svcPatch ::
    "client \<Rightarrow> 'w net \<Rightarrow> resolver \<Rightarrow> string \<Rightarrow> patch_op list \<Rightarrow> ('w, resource option) action" where
  "svcPatch c nt s i ops ss =
     (if clPatchFallback c then
        (case Capabilities c nt ss of
           (Inr caps, ss) \<Rightarrow>
             if \<not> PatchSupported caps then replaceViaPatch c nt s i ops ss
             else nativePatch c nt s i ops ss
         | (Inl e, ss) \<Rightarrow> nativePatch c nt s i ops ss)
      else nativePatch c nt s i ops ss)"

subsection \<open>Users and groups\<close>

definition Deactivate :: "client \<Rightarrow> 'w net \<Rightarrow> resolver \<Rightarrow> string \<Rightarrow> ('w, resource option) action" where
  "Deactivate c nt s i =
     svcPatch c nt s i
       [\<lparr>opKind = KindReplace, opPath = Some (FPath [] ''active'' [] None), opValue = VBool False\<rparr>]"

definition ensureOps :: "string \<Rightarrow> patch_op list" where
  "ensureOps memberID =
     [\<lparr>opKind = KindAdd, opPath = Some (FPath [] ''members'' [] None),
       opValue = VList [VMap [(''value'', VString memberID)]]\<rparr>]"

definition EnsureMember ::
    "client \<Rightarrow> 'w net \<Rightarrow> resolver \<Rightarrow> string \<Rightarrow> string \<Rightarrow> ('w, resource option) action" where
  "EnsureMember c nt s groupID memberID = svcPatch c nt s groupID (ensureOps memberID)"

definition isNoTarget :: "client_error \<Rightarrow> bool" where
  "isNoTarget e \<longleftrightarrow>
     (case asScimError e of Some s \<Rightarrow> errScimType s = ScimTypeNoTarget | None \<Rightarrow> False)"

definition removeOps :: "string \<Rightarrow> patch_op list" where
  "removeOps memberID =
     [\<lparr>opKind = KindRemove,
       opPath = Some (FPath [] ''members'' [] (Some (compareBuild ''value'' OpEqual (GString memberID)))),
       opValue = VNil\<rparr>]"

definition RemoveMember ::
    "client \<Rightarrow> 'w net \<Rightarrow> resolver \<Rightarrow> string \<Rightarrow> string \<Rightarrow> ('w, resource option) action" where
  "RemoveMember c nt s groupID memberID ss =
     (case svcPatch c nt s groupID (removeOps memberID) ss of
        (Inr r, ss) \<Rightarrow> (Inr r, ss)
      | (Inl e, ss) \<Rightarrow> if isNoTarget e then svcGet c nt s groupID ss else (Inl e, ss))"

end
