(* ===== verification/Client_Query.thy ===== *)
theory Client_Query
  imports Client_Service Scim_List
begin

text \<open>
  \<open>client/query.go\<close>: lists and lookups. \<open>List\<close> is an iterator: its loop is run here with the
  consumer, which takes a resource and its own state and says whether it wants more. The walk
  over the pages has no bound of its own, so it is a partial function: \<open>None\<close> is a walk that
  never ends. The bytes of an item are compared as trees.
\<close>

record list_query =
  lqFilter :: "expr option"
  lqSortBy :: "fpath option"
  lqAscending :: bool
  lqStartIndex :: int
  lqCount :: int
  lqAttributes :: "string list"
  lqExcluded :: "string list"
  lqSearch :: bool

definition clientPageSize :: int where "clientPageSize = 100"

definition MessageSearchRequest :: string where
  "MessageSearchRequest = ''urn:ietf:params:scim:api:messages:2.0:SearchRequest''"

subsection \<open>Requests\<close>

text \<open>The URL parameters; a key that is not set is absent.\<close>

definition params :: "list_query \<Rightarrow> int \<Rightarrow> int \<Rightarrow> string list amap" where
  "params q start n =
     (case lqFilter q of None \<Rightarrow> [] | Some f \<Rightarrow> [(''filter'', [exprString f])]) @
     (case lqSortBy q of None \<Rightarrow> []
      | Some p \<Rightarrow> (''sortBy'', [pathString p]) #
          (if lqAscending q then [] else [(''sortOrder'', [''descending''])])) @
     [(''startIndex'', [formatInt start]), (''count'', [formatInt n])] @
     (if lqAttributes q = [] then []
      else [(''attributes'', [joinWith CHR '','' (lqAttributes q)])]) @
     (if lqExcluded q = [] then []
      else [(''excludedAttributes'', [joinWith CHR '','' (lqExcluded q)])])"

text \<open>The search body; an empty \<open>omitempty\<close> member is absent.\<close>

definition omitText :: "string \<Rightarrow> string \<Rightarrow> (string \<times> gval) list" where
  "omitText k s = (if s = [] then [] else [(k, VString s)])"

definition omitTexts :: "string \<Rightarrow> string list \<Rightarrow> (string \<times> gval) list" where
  "omitTexts k ss = (if ss = [] then [] else [(k, VList (map VString ss))])"

definition searchRequestDoc :: "list_query \<Rightarrow> int \<Rightarrow> int \<Rightarrow> gval" where
  "searchRequestDoc q start n =
     VMap ([(''schemas'', VList [VString MessageSearchRequest])] @
       omitText ''filter'' (case lqFilter q of None \<Rightarrow> [] | Some f \<Rightarrow> exprString f) @
       omitText ''sortBy'' (case lqSortBy q of None \<Rightarrow> [] | Some p \<Rightarrow> pathString p) @
       omitText ''sortOrder''
         (if lqSortBy q = None \<or> lqAscending q then [] else ''descending'') @
       [(''startIndex'', jsonNumber start), (''count'', jsonNumber n)] @
       omitTexts ''attributes'' (lqAttributes q) @
       omitTexts ''excludedAttributes'' (lqExcluded q))"

definition decodeListResponse :: "raw_response \<Rightarrow> (client_error, list_response) res" where
  "decodeListResponse r =
     (if 400 \<le> rwStatus r then Inl (decodeError (rwStatus r) (rwBody r))
      else case rwBody r of
        Json v \<Rightarrow> map_err (\<lambda>e. Wrapped (ScimErr e)) (ListResponse_UnmarshalJSON v)
      | _ \<Rightarrow> Inl (Wrapped OtherErr))"

definition pageMessage :: "client \<Rightarrow> resource_type \<Rightarrow> list_query \<Rightarrow> int \<Rightarrow> int \<Rightarrow> message" where
  "pageMessage c rt q start n =
     (if lqSearch q \<or> clSearch c
      then message c ''POST'' [rtEndpoint rt, ''.search''] [] (Some (searchRequestDoc q start n))
      else (message c ''GET'' [rtEndpoint rt] [] None)\<lparr>msQuery := params q start n\<rparr>)"

definition fetchPage ::
    "client \<Rightarrow> 'w net \<Rightarrow> resource_type \<Rightarrow> list_query \<Rightarrow> int \<Rightarrow> int \<Rightarrow> 'w \<Rightarrow>
     (client_error, list_response) res \<times> 'w" where
  "fetchPage c nt rt q start n w =
     (case doRequest c nt (pageMessage c rt q start n) w of
        (r, w) \<Rightarrow> (rbind r decodeListResponse, w))"

subsection \<open>Stalled walks\<close>

record pageFingerprint =
  fpStart :: int
  fpN :: int
  fpFirst :: "gval option"

definition fingerprint :: "list_response \<Rightarrow> pageFingerprint" where
  "fingerprint page =
     \<lparr>fpStart = lsStartIndex page, fpN = int (length (lsResources page)),
      fpFirst = (case lsResources page of [] \<Rightarrow> None | r # _ \<Rightarrow> Some r)\<rparr>"

text \<open>The previous fingerprint is missing before the first page.\<close>

definition stalled :: "pageFingerprint \<Rightarrow> pageFingerprint option \<Rightarrow> bool" where
  "stalled fp prev =
     (case prev of
        None \<Rightarrow> False
      | Some p \<Rightarrow>
          fpN fp \<noteq> 0 \<and>
          (fpStart fp \<noteq> 0 \<and> fpStart fp = fpStart p \<or> fpN fp = fpN p \<and> fpFirst fp = fpFirst p))"

subsection \<open>The walk\<close>

text \<open>How the consumption of a page ends: the consumer stops, an item does not decode, or
  there is more to come.\<close>

datatype 'a turn = Stop 'a | Fail client_error 'a | More 'a

fun consume ::
    "resource_type \<Rightarrow> (resource \<Rightarrow> 'a \<Rightarrow> 'a \<times> bool) \<Rightarrow> gval list \<Rightarrow> 'a \<Rightarrow> 'a turn" where
  "consume rt yield [] acc = More acc"
| "consume rt yield (raw # raws) acc =
     (case DecodeResource rt False raw of
        Inl e \<Rightarrow> Fail (Wrapped (ScimErr e)) acc
      | Inr r \<Rightarrow>
          (case yield r acc of
             (acc, want) \<Rightarrow> if want then consume rt yield raws acc else Stop acc))"

text \<open>The result is the state of the consumer with the error \<open>List\<close> yields, if any.\<close>

partial_function (option) walk ::
    "client \<Rightarrow> 'w net \<Rightarrow> resource_type \<Rightarrow> list_query \<Rightarrow> (resource \<Rightarrow> 'a \<Rightarrow> 'a \<times> bool) \<Rightarrow>
     int \<Rightarrow> int \<Rightarrow> pageFingerprint option \<Rightarrow> 'a \<Rightarrow> 'w \<Rightarrow> ('a \<times> client_error option \<times> 'w) option" where
  "walk c nt rt q yield start n prev acc w =
     (case fetchPage c nt rt q start n w of
        (Inl e, w) \<Rightarrow> Some (acc, Some e, w)
      | (Inr page, w) \<Rightarrow>
          if stalled (fingerprint page) prev then Some (acc, Some Stalled, w)
          else (case consume rt yield (lsResources page) acc of
                  Fail e acc \<Rightarrow> Some (acc, Some e, w)
                | Stop acc \<Rightarrow> Some (acc, None, w)
                | More acc \<Rightarrow>
                    let start' = addInt start (int (length (lsResources page))) in
                    if lsResources page = [] \<or> 0 < lsTotalResults page \<and> lsTotalResults page < start'
                    then Some (acc, None, w)
                    else walk c nt rt q yield start' n (Some (fingerprint page)) acc w))"

declare walk.simps [simp del]

definition svcList ::
    "client \<Rightarrow> 'w net \<Rightarrow> resolver \<Rightarrow> list_query \<Rightarrow> (resource \<Rightarrow> 'a \<Rightarrow> 'a \<times> bool) \<Rightarrow> 'a \<Rightarrow> 'w session \<Rightarrow>
     ('a \<times> client_error option \<times> 'w session) option" where
  "svcList c nt s q yield acc ss =
     (case resourceType c nt s ss of
        (Inl e, ss) \<Rightarrow> Some (acc, Some e, ss)
      | (Inr rt, ss) \<Rightarrow>
          map_option (\<lambda>(acc, e, w). (acc, e, ss\<lparr>ssWorld := w\<rparr>))
            (walk c nt rt q yield (max (lqStartIndex q) 1)
               (if lqCount q \<le> 0 then clientPageSize else lqCount q) None acc (ssWorld ss)))"

text \<open>A consumer that keeps everything.\<close>

definition collecting :: "resource \<Rightarrow> resource list \<Rightarrow> resource list \<times> bool" where
  "collecting r acc = (acc @ [r], True)"

subsection \<open>Lookup\<close>

text \<open>Its consumer keeps the first resource and gives up on the second.\<close>

definition lookupQuery :: "expr option \<Rightarrow> list_query" where
  "lookupQuery f =
     \<lparr>lqFilter = f, lqSortBy = None, lqAscending = False, lqStartIndex = 0, lqCount = 2,
      lqAttributes = [], lqExcluded = [], lqSearch = False\<rparr>"

definition lookupYield :: "resource \<Rightarrow> resource option \<times> bool \<Rightarrow> (resource option \<times> bool) \<times> bool" where
  "lookupYield r acc =
     (case acc of
        (None, amb) \<Rightarrow> ((Some r, amb), True)
      | (Some f, amb) \<Rightarrow> ((Some f, True), False))"

definition svcLookup ::
    "client \<Rightarrow> 'w net \<Rightarrow> resolver \<Rightarrow> expr option \<Rightarrow> 'w session \<Rightarrow>
     ((client_error, resource option) res \<times> 'w session) option" where
  "svcLookup c nt s f ss =
     map_option (\<lambda>((found, ambiguous), e, ss).
         (case e of
            Some e \<Rightarrow> Inl e
          | None \<Rightarrow> if ambiguous then Inl Ambiguous else Inr found, ss))
       (svcList c nt s (lookupQuery f) lookupYield (None, False) ss)"

end
