(* ===== verification/Client_Findings.thy ===== *)
theory Client_Findings
  imports Client_Properties Client_Service
begin

text \<open>
  Behaviours of the client the model shows and the documentation does not mention, each on a
  concrete value.
\<close>

text \<open>Create and Replace send what \<open>EncodeResource\<close> returns for the empty projection, which is the
  rule for answers: an attribute that is never returned, such as a password, is not in the
  message, although it is assigned.\<close>

definition secretDevice :: resource where
  "secretDevice =
     \<lparr>rRT = deviceType, rAttrs = [(''name'', VString ''lamp''), (''secret'', VString ''s3cret'')],
      rMeta = zeroMeta\<rparr>"

lemma create_drops_password:
  "resourceOk secretDevice \<and> Get secretDevice ''secret'' = Some (VString ''s3cret'') \<and>
   (\<exists>doc. encodeBody secretDevice = Inr (VMap doc) \<and> aget doc ''name'' = Some (VString ''lamp'') \<and>
      aget doc ''secret'' = None)"
proof -
  have "resourceOk secretDevice" "Get secretDevice ''secret'' = Some (VString ''s3cret'')" by code_simp+
  moreover have "case EncodeResource secretDevice noProjection of
      Inr fs \<Rightarrow> (case resourceDoc fs of
        VMap doc \<Rightarrow> aget doc ''name'' = Some (VString ''lamp'') \<and> aget doc ''secret'' = None | _ \<Rightarrow> False)
    | Inl _ \<Rightarrow> False"
    by code_simp
  ultimately show ?thesis by (auto simp: encodeBody_def split: sum.splits gval.splits)
qed

text \<open>The comment says segments are escaped so that identifiers with reserved characters survive.
  \<open>URL.JoinPath\<close> escapes neither slashes nor percent signs and resolves dots: an identifier with a
  slash reaches another path, and one of two dots the parent.\<close>

lemma identifiers_are_not_escaped:
  assumes "clBase c = [''scim'']"
  shows "requestURL c [''/Users'', ''a/b''] = [''scim'', ''Users'', ''a'', ''b'']"
    and "requestURL c [''/Users'', ''..''] = [''scim'']"
    and "requestURL c [''/Users'', ''50%25''] = [''scim'', ''Users'', ''50%'']"
    and "requestURL c [''/Users'', ''50%''] = [''scim'']"
proof -
  have "joinPath [''scim''] [''/Users'', ''a/b''] = Some [''scim'', ''Users'', ''a'', ''b'']"
    "joinPath [''scim''] [''/Users'', ''..''] = Some [''scim'']"
    "joinPath [''scim''] [''/Users'', ''50%25''] = Some [''scim'', ''Users'', ''50%'']"
    "joinPath [''scim''] [''/Users'', ''50%''] = None" "joinPath [''scim''] [] = Some [''scim'']"
    by code_simp+
  with assms show "requestURL c [''/Users'', ''a/b''] = [''scim'', ''Users'', ''a'', ''b'']"
    "requestURL c [''/Users'', ''..''] = [''scim'']"
    "requestURL c [''/Users'', ''50%25''] = [''scim'', ''Users'', ''50%'']"
    "requestURL c [''/Users'', ''50%''] = [''scim'']" by (simp_all add: requestURL_def)
qed

text \<open>\<open>MaxDelay\<close> does not cap the first wait, only what the factor makes of it.\<close>

definition slowStart :: retry_config where
  "slowStart = noJitter\<lparr>rcBaseDelay := 60000000000\<rparr>"

lemma first_wait_uncapped:
  "retryNormalize slowStart = slowStart \<and> rcMaxDelay slowStart = 30000000000 \<and>
   backoffDelay slowStart draw 1 = 60000000000"
proof -
  have rc: "rcBaseDelay slowStart = 60000000000" "rcJitter slowStart = Finite 0" "rcMaxDelay slowStart = 30000000000"
    by (simp_all add: slowStart_def noJitter_def DefaultRetryConfig_def millisecond_def second_def)
  have "policyOk slowStart"
    by (simp add: slowStart_def noJitter_def policyOk_def DefaultRetryConfig_def millisecond_def second_def)
  then have "retryNormalize slowStart = slowStart" by (rule retryNormalize_fix)
  moreover have "intToFloat64 60000000000 = Finite (of_int 60000000000)" by (rule intToFloat64_exact) simp
  moreover have "float64ToInt64 (Finite 60000000000) = 60000000000" by code_simp
  ultimately show ?thesis using rc by (simp add: backoffDelay_def)
qed

text \<open>Seconds are multiplied without a bound: a \<open>Retry-After\<close> of three centuries wraps to a negative
  duration, so the client does not wait at all.\<close>

lemma retry_after_wraps:
  "parseRetryAfter parse ''9223372037'' now = Some (- 9223372036709551616)"
  "realSleep nt (- 9223372036709551616) w = (\<not> ntDone nt w, w)"
proof -
  have "parseInt64 ''9223372037'' = Some 9223372037" by code_simp
  moreover have "mulInt 9223372037 second = - 9223372036709551616" by code_simp
  ultimately show "parseRetryAfter parse ''9223372037'' now = Some (- 9223372036709551616)"
    by (simp add: parseRetryAfter_def)
qed (simp add: realSleep_def)

text \<open>The PATCH that is replaced by a PUT reads the resource first. An answer without a body is a
  success without a resource, which the engine dereferences.\<close>

lemma fallback_panics:
  "svcGet c nt s i ss = (Inr None, ss') \<Longrightarrow> replaceViaPatch c nt s i ops ss = (Inl Panicked, ss')"
  by (simp add: replaceViaPatch_def andThen_def pure_def)

text \<open>An invalidation while a fetch is under way is lost: what the fetch read before is cached and
  served after it.\<close>

lemma invalidation_is_lost:
  "\<exists>tr s. flight_run (tr @ [(Invalidate, None), (Publish 0, None)]) s \<and>
     (Reply 0 (Inr caps), None) \<in> set tr \<and> flCache s = Some caps"
proof -
  define s1 where "s1 = noFlight\<lparr>flInflight := Some 0, flFetches := [newFetch], flWaiting := (flWaiting noFlight)(0 := Some 0)\<rparr>"
  define s2 where "s2 = setFetch 0 (\<lambda>x. x\<lparr>ftStage := Replied, ftResult := Inr caps\<rparr>) s1"
  have 1: "flight_step noFlight (CallStarts 0) None s1"
    using call_starts [of noFlight 0] by (simp add: s1_def noFlight_def)
  have 2: "flight_step s1 (Reply 0 (Inr caps)) None s2"
    unfolding s2_def by (rule reply) (simp add: s1_def atStage_def newFetch_def)
  have 3: "flight_step s2 Invalidate None (s2\<lparr>flCache := None\<rparr>)" by (rule invalidate)
  have 4: "flight_step (s2\<lparr>flCache := None\<rparr>) (Publish 0) None (publish 0 (s2\<lparr>flCache := None\<rparr>))"
    by (rule flight_step.publish) (simp add: s2_def s1_def atStage_def setFetch_def)
  have "flight_run ((([] @ [(CallStarts 0, None)]) @ [(Reply 0 (Inr caps), None)]) @ [(Invalidate, None)] @ [(Publish 0, None)])
      (publish 0 (s2\<lparr>flCache := None\<rparr>))"
    using flight_run.step [OF flight_run.step [OF flight_run.step [OF flight_run.step [OF flight_run.start 1] 2] 3] 4]
    by simp
  moreover have "flCache (publish 0 (s2\<lparr>flCache := None\<rparr>)) = Some caps"
    by (simp add: publish_def s2_def s1_def setFetch_def)
  ultimately show ?thesis
    by (intro exI [of _ "[(CallStarts 0, None), (Reply 0 (Inr caps), None)]"]
        exI [of _ "publish 0 (s2\<lparr>flCache := None\<rparr>)"]) simp
qed

end
