(* ===== verification/Client_Paging.thy ===== *)
theory Client_Paging
  imports Client_Query Server_Query Filter_RoundTrip
begin

text \<open>
  Both sides of a list request. The query a client writes into URL parameters or into a search
  body is the query the server reads; and a walk over the pages of a target that cuts one list
  into pages is one pass of the consumer over that list, stated over the locale \<open>paged_target\<close>.
\<close>

subsection \<open>The query on the wire\<close>

definition plainNames :: "string list \<Rightarrow> bool" where
  "plainNames ns \<longleftrightarrow> list_all (\<lambda>n. n \<noteq> [] \<and> trimSpace n = n \<and> CHR '','' \<notin> set n) ns"

lemma joinWith_Nil: "joinWith sep ps = [] \<longleftrightarrow> ps = [] \<or> ps = [[]]"
  by (induction sep ps rule: joinWith.induct) auto

lemma splitAttrList_join:
  assumes "plainNames ns"
  shows "splitAttrList (joinWith CHR '','' ns) = ns"
proof (cases "ns = []")
  case False
  have "map trimSpace ns = ns" "filter (\<lambda>n. n \<noteq> []) ns = ns"
    using assms by (auto simp: plainNames_def list_all_iff intro!: map_idI filter_True)
  with False assms show ?thesis
    by (auto simp: splitAttrList_def joinWith_Nil splitOn_join plainNames_def list_all_iff)
qed (simp add: splitAttrList_def)

text \<open>A query whose filter and path were read by the parsers, that names attributes of the type
  and that asks for one projection only.\<close>

definition queryReady :: "resource_type \<Rightarrow> list_query \<Rightarrow> bool" where
  "queryReady rt q \<longleftrightarrow>
     (\<forall>f. lqFilter q = Some f \<longrightarrow> (\<exists>s. ParseFilter False s = Inr f)) \<and>
     (\<forall>p. lqSortBy q = Some p \<longrightarrow> (\<exists>s. ParsePath False s = Inr p) \<and> resolveAttr rt p \<noteq> None) \<and>
     plainNames (lqAttributes q) \<and> plainNames (lqExcluded q) \<and>
     (lqAttributes q = [] \<or> lqExcluded q = [])"

text \<open>What the server makes of it: the page size is within its limits.\<close>

definition servedRequest :: "'s config \<Rightarrow> list_query \<Rightarrow> int \<Rightarrow> int \<Rightarrow> listRequest" where
  "servedRequest cfg q start n =
     \<lparr>lrQuery = \<lparr>qFilter = lqFilter q, qSortBy = lqSortBy q,
        qAscending = (lqSortBy q = None \<or> lqAscending q), qStartIndex = start,
        qCount = min n (cfgMaxPageSize cfg)\<rparr>,
      lrProjection = \<lparr>prAttributes = lqAttributes q, prExcluded = lqExcluded q\<rparr>\<rparr>"

definition rawParams :: "list_query \<Rightarrow> int \<Rightarrow> int \<Rightarrow> rawListParams" where
  "rawParams q start n =
     \<lparr>rawFilter = (case lqFilter q of None \<Rightarrow> [] | Some f \<Rightarrow> exprString f),
      rawSortBy = (case lqSortBy q of None \<Rightarrow> [] | Some p \<Rightarrow> pathString p),
      rawSortOrder = (if lqSortBy q = None \<or> lqAscending q then [] else ''descending''),
      rawStartIndex = formatInt start, rawCount = formatInt n,
      rawAttributes = joinWith CHR '','' (lqAttributes q),
      rawExcluded = joinWith CHR '','' (lqExcluded q)\<rparr>"

lemma printed_not_Nil:
  "Parse False s = Inr f \<Longrightarrow> exprString f \<noteq> []" "ParsePath False s = Inr p \<Longrightarrow> pathString p \<noteq> []"
proof -
  have no: "\<not> isl (Parse False []) \<Longrightarrow> False" "\<not> isl (ParsePath False []) \<Longrightarrow> False" by code_simp+
  show "exprString f \<noteq> []" if "Parse False s = Inr f"
    using parse_rendering [OF strict_parse_ok [OF that], of False] no(1) by auto
  show "pathString p \<noteq> []" if "ParsePath False s = Inr p"
    using path_rendering [OF strict_path_ok [OF that], of False] no(2) by auto
qed

lemma normalize_params:
  assumes ready: "queryReady rt q" and range: "1 \<le> start" "inInt64 start" "0 \<le> n" "inInt64 n"
  shows "normalize (rawParams q start n) rt cfg = Inr (servedRequest cfg q start n)"
proof -
  have proj: "parseProjection (rawAttributes (rawParams q start n)) (rawExcluded (rawParams q start n)) =
      Inr \<lparr>prAttributes = lqAttributes q, prExcluded = lqExcluded q\<rparr>"
    using ready by (auto simp: parseProjection_def rawParams_def queryReady_def splitAttrList_join)
  define q1 where "q1 = zeroQuery\<lparr>qFilter := lqFilter q\<rparr>"
  have f: "(if rawFilter (rawParams q start n) = [] then Inr zeroQuery
      else rbind (ParseFilter False (rawFilter (rawParams q start n))) (\<lambda>e. Inr (zeroQuery\<lparr>qFilter := Some e\<rparr>))) = Inr q1"
  proof (cases "lqFilter q")
    case (Some f)
    with ready obtain s where s: "Parse False s = Inr f"
      by (auto simp: queryReady_def ParseFilter_def map_err_eq_Inr)
    from printed_not_Nil(1) [OF s] parse_rendering [OF strict_parse_ok [OF s], of False] Some
    show ?thesis by (simp add: rawParams_def ParseFilter_def q1_def)
  qed (simp add: rawParams_def q1_def zeroQuery_def)
  define q2 where "q2 = q1\<lparr>qSortBy := lqSortBy q, qAscending := (lqSortBy q = None \<or> lqAscending q)\<rparr>"
  have fold: "foldName ''descending'' = ''descending''" by code_simp
  have sort: "normalizeSort (rawParams q start n) rt q1 = Inr q2"
  proof (cases "lqSortBy q")
    case (Some p)
    with ready obtain s where s: "ParsePath False s = Inr p" and r: "resolveAttr rt p \<noteq> None"
      by (auto simp: queryReady_def)
    from printed_not_Nil(2) [OF s] path_rendering [OF strict_path_ok [OF s], of False] Some r fold
    show ?thesis by (auto simp: normalizeSort_def rawParams_def q2_def)
  qed (simp add: normalizeSort_def rawParams_def q2_def q1_def zeroQuery_def)
  have page: "normalizePagination (rawParams q start n) d m q2 =
      Inr (q2\<lparr>qStartIndex := start, qCount := min n m\<rparr>)" for d m
    using range search_integers [of start] search_integers [of n]
    by (auto simp: normalizePagination_def rawParams_def Let_def)
  show ?thesis
    unfolding normalize_def proj f rbind_simps sort page
    by (simp add: servedRequest_def q2_def q1_def zeroQuery_def)
qed

lemma urlGet_simps:
  "urlGet [] k = []"
  "urlGet ((k', [v]) # vs) k = (if k' = k then v else urlGet vs k)"
  by (simp_all add: urlGet_def)

lemma params_read:
  "\<lparr>rawFilter = urlGet (params q start n) ''filter'', rawSortBy = urlGet (params q start n) ''sortBy'',
    rawSortOrder = urlGet (params q start n) ''sortOrder'', rawStartIndex = urlGet (params q start n) ''startIndex'',
    rawCount = urlGet (params q start n) ''count'', rawAttributes = urlGet (params q start n) ''attributes'',
    rawExcluded = urlGet (params q start n) ''excludedAttributes''\<rparr> = rawParams q start n"
  by (simp add: params_def rawParams_def urlGet_simps split: option.split)

text \<open>The search body, member by member.\<close>

lemma read_texts:
  "srFilter sr = [] \<Longrightarrow> rfold searchField (omitText ''filter'' s) sr = Inr (sr\<lparr>srFilter := s\<rparr>)"
  "srSortBy sr = [] \<Longrightarrow> rfold searchField (omitText ''sortBy'' s) sr = Inr (sr\<lparr>srSortBy := s\<rparr>)"
  "srSortOrder sr = [] \<Longrightarrow> rfold searchField (omitText ''sortOrder'' s) sr = Inr (sr\<lparr>srSortOrder := s\<rparr>)"
  by (cases sr; simp add: omitText_def searchField_def Let_def jsonString_def)+

lemma jsonStrings_texts: "jsonStrings (VList (map VString ss)) = Inr ss"
proof -
  have "rfold (\<lambda>x out. rbind (jsonString x []) (\<lambda>s. Inr (out @ [s]))) (map VString ss) out = Inr (out @ ss)" for out
    by (induction ss arbitrary: out) (simp_all add: jsonString_def)
  then show ?thesis by (simp add: jsonStrings_def)
qed

lemma read_lists:
  "srAttributes sr = [] \<Longrightarrow> rfold searchField (omitTexts ''attributes'' ss) sr = Inr (sr\<lparr>srAttributes := ss\<rparr>)"
  "srExcluded sr = [] \<Longrightarrow>
     rfold searchField (omitTexts ''excludedAttributes'' ss) sr = Inr (sr\<lparr>srExcluded := ss\<rparr>)"
  by (cases sr; simp add: omitTexts_def searchField_def Let_def jsonStrings_texts)+

lemma read_numbers:
  "inInt64 i \<Longrightarrow> searchField (''startIndex'', jsonNumber i) sr = Inr (sr\<lparr>srStartIndex := Some i\<rparr>)"
  "inInt64 i \<Longrightarrow> searchField (''count'', jsonNumber i) sr = Inr (sr\<lparr>srCount := Some i\<rparr>)"
  "searchField (''schemas'', v) sr = Inr sr"
  by (simp_all add: searchField_def Let_def jsonInt_def jsonNumber_def parseInt64_formatInt)

lemma search_read:
  assumes "inInt64 start" "inInt64 n"
  shows "parseSearchBody (searchRequestDoc q start n) rt cfg = normalize (rawParams q start n) rt cfg"
  using assms
  by (simp add: parseSearchBody_def searchRequestDoc_def rfold_append read_numbers read_texts read_lists
      zeroSearch_def searchParams_def rawParams_def)

subsection \<open>A walk over pages\<close>

definition turned :: "'a turn \<Rightarrow> 'a \<times> client_error option" where
  "turned t = (case t of Stop a \<Rightarrow> (a, None) | Fail e a \<Rightarrow> (a, Some e) | More a \<Rightarrow> (a, None))"

lemma consume_append:
  "consume rt yield (xs @ ys) acc =
     (case consume rt yield xs acc of More acc \<Rightarrow> consume rt yield ys acc | t \<Rightarrow> t)"
  by (induction xs arbitrary: acc) (auto split: sum.split prod.split)

text \<open>The part of a list that is left at a start index.\<close>

definition fromIndex :: "'a list \<Rightarrow> int \<Rightarrow> 'a list" where
  "fromIndex xs start = drop (nat (start - 1)) xs"

text \<open>
  A target that answers the pages of a query out of one list, whatever the page size it is asked
  for, as long as it gives something while there is something left. Its list does not change
  while it is walked, which the world \<open>w\<close> that every answer leaves behind says.
\<close>

locale paged_target =
  fixes c :: client
    and nt :: "'w net"
    and rt :: resource_type
    and q :: list_query
    and n :: int
    and items :: "gval list"
    and stable :: "'w \<Rightarrow> bool"
  assumes page: "stable w \<Longrightarrow> 1 \<le> start \<Longrightarrow> inInt64 start \<Longrightarrow> \<exists>w' k.
      fetchPage c nt rt q start n w =
        (Inr \<lparr>lsTotalResults = int (length items), lsStartIndex = start,
          lsItemsPerPage = int (min k (length (fromIndex items start))),
          lsResources = take k (fromIndex items start)\<rparr>, w') \<and> 0 < k \<and> stable w'"
    and distinct_items: "stable w \<Longrightarrow> distinct items"
    and few: "stable w \<Longrightarrow> int (length items) < 2 ^ 62"
begin

lemma page_later:
  assumes "distinct items" "1 \<le> start" "fp = fingerprint \<lparr>lsTotalResults = t, lsStartIndex = start, lsItemsPerPage = m,
      lsResources = take k (fromIndex items start)\<rparr>"
    and "case prev of None \<Rightarrow> True | Some p \<Rightarrow> 1 \<le> fpStart p \<and> fpStart p < start \<and>
      (fpFirst p = None \<or> fpFirst p = Some (items ! nat (fpStart p - 1)))"
  shows "\<not> stalled fp prev"
proof (cases prev)
  case (Some p)
  show ?thesis
  proof (cases "take k (fromIndex items start)")
    case (Cons x xs)
    then obtain ys where ys: "drop (nat (start - 1)) items = x # ys"
      by (cases "fromIndex items start"; cases k) (auto simp: fromIndex_def)
    then have "nat (start - 1) < length items" by (metis drop_all leI list.distinct(1))
    moreover from this ys have "x = items ! nat (start - 1)" by (metis hd_drop_conv_nth list.sel(1))
    ultimately show ?thesis
      using assms(4) Some assms(1-3) Cons
      by (auto simp: stalled_def fingerprint_def nth_eq_iff_index_eq)
  next
    case Nil
    with Some assms(3) show ?thesis by (simp add: stalled_def fingerprint_def)
  qed
qed (simp add: stalled_def)

definition sensible :: "int \<Rightarrow> pageFingerprint option \<Rightarrow> bool" where
  "sensible start prev \<longleftrightarrow>
     (case prev of
        None \<Rightarrow> True
      | Some p \<Rightarrow> 1 \<le> fpStart p \<and> fpStart p < start \<and>
          (fpFirst p = None \<or> fpFirst p = Some (items ! nat (fpStart p - 1))))"

lemma walk_consumes:
  assumes "stable w" "1 \<le> start" "inInt64 start" "sensible start prev"
  shows "\<exists>w'. stable w' \<and> walk c nt rt q yield start n prev acc w =
    (case turned (consume rt yield (fromIndex items start) acc) of (a, e) \<Rightarrow> Some (a, e, w'))"
  using assms
proof (induction "length (fromIndex items start)" arbitrary: start prev acc w rule: less_induct)
  case less
  define xs where "xs = fromIndex items start"
  from page [OF less.prems(1-3)] obtain w' k where k: "0 < k" and w': "stable w'"
    and fetch: "fetchPage c nt rt q start n w =
      (Inr \<lparr>lsTotalResults = int (length items), lsStartIndex = start,
        lsItemsPerPage = int (min k (length xs)), lsResources = take k xs\<rparr>, w')"
    by (auto simp: xs_def)
  define pg where "pg = \<lparr>lsTotalResults = int (length items), lsStartIndex = start,
      lsItemsPerPage = int (min k (length xs)), lsResources = take k xs\<rparr>"
  have sel: "lsResources pg = take k xs" "lsTotalResults pg = int (length items)"
    by (simp_all add: pg_def)
  have fresh: "\<not> stalled (fingerprint pg) prev"
    using less.prems(2,4) distinct_items [OF less.prems(1)]
    by (intro page_later) (simp_all add: pg_def xs_def sensible_def)
  have len: "length xs = length items - nat (start - 1)" by (simp add: xs_def fromIndex_def)
  have range: "inInt64 (start + int (length (take k xs)))"
    using less.prems(2,3) few [OF less.prems(1)] len
    by (cases "int (length items) < start") (auto simp: inInt64_def min_def)
  then have forward: "addInt start (int (length (take k xs))) = start + int (length (take k xs))"
    by (rule addInt_exact)
  have step: "walk c nt rt q yield start n prev acc w =
      (case consume rt yield (take k xs) acc of
         Fail e acc \<Rightarrow> Some (acc, Some e, w')
       | Stop acc \<Rightarrow> Some (acc, None, w')
       | More acc \<Rightarrow>
           if take k xs = [] \<or> 0 < int (length items) \<and> int (length items) < start + int (length (take k xs))
           then Some (acc, None, w')
           else walk c nt rt q yield (start + int (length (take k xs))) n (Some (fingerprint pg)) acc w')"
    using fresh forward
    by (simp add: walk.simps [of c nt rt q yield start] fetch [folded pg_def] sel Let_def del: length_take cong: turn.case_cong)
  have whole: "consume rt yield xs acc = (case consume rt yield (take k xs) acc of
      More acc \<Rightarrow> consume rt yield (drop k xs) acc | t \<Rightarrow> t)"
    using consume_append [of rt yield "take k xs" "drop k xs" acc] by simp
  show ?case
  proof (cases "consume rt yield (take k xs) acc")
    case (More acc')
    show ?thesis
    proof (cases "take k xs = [] \<or> 0 < int (length items) \<and> int (length items) < start + int (length (take k xs))")
      case True
      then have "drop k xs = []" using k len less.prems(2) by (auto simp: min_def split: if_splits)
      with True More step whole w' show ?thesis by (auto simp: turned_def xs_def)
    next
      case False
      define start' where "start' = start + int (length (take k xs))"
      have rest: "fromIndex items start' = drop k xs"
      proof -
        have "nat (start' - 1) = length (take k xs) + nat (start - 1)"
          using less.prems(2) by (simp add: start'_def nat_add_distrib [symmetric])
        then have "fromIndex items start' = drop (length (take k xs)) xs"
          by (simp add: fromIndex_def xs_def)
        also have "\<dots> = drop k xs" by (simp add: min_def)
        finally show ?thesis .
      qed
      have "length (fromIndex items start') < length xs" using False k by (auto simp: rest)
      moreover have "1 \<le> start'" "inInt64 start'"
        using less.prems(2) range by (simp_all add: start'_def)
      moreover have "sensible start' (Some (fingerprint pg))"
      proof -
        from False obtain y ys where ys: "take k xs = y # ys" by (cases "take k xs") auto
        then have "drop (nat (start - 1)) items \<noteq> []" "y = hd (drop (nat (start - 1)) items)"
          by (cases xs; cases k; auto simp: xs_def fromIndex_def)+
        then have "y = items ! nat (start - 1)" by (simp add: hd_drop_conv_nth)
        with ys less.prems(2) show ?thesis by (simp add: sensible_def fingerprint_def pg_def start'_def)
      qed
      ultimately obtain w'' where "stable w''" "walk c nt rt q yield start' n (Some (fingerprint pg)) acc' w' =
          (case turned (consume rt yield (drop k xs) acc') of (a, e) \<Rightarrow> Some (a, e, w''))"
        using less.hyps [of start' w' "Some (fingerprint pg)" acc'] w' by (auto simp: rest xs_def)
      with False More step whole show ?thesis by (auto simp: start'_def xs_def)
    qed
  qed (use step whole w' in \<open>auto simp: turned_def xs_def\<close>)
qed

end

end
