(* ===== verification/Client_Server.thy ===== *)
theory Client_Server
  imports Client_Paging Server_Laws
begin

text \<open>
  A server of this library at the other end of the wire: a site is a server mounted under a
  prefix of the URL, and \<open>siteNet\<close> is the world of a client that talks to it. The state of that
  world is the number of requests served and the stores. How a program mounts the server is its
  own; here the prefix is stripped, as \<open>http.StripPrefix\<close> does. The length of a printed body,
  \<open>mime.ParseMediaType\<close>, the environment of every request and the other writers are parameters.
\<close>

subsection \<open>The wire\<close>

record 's site =
  siServer :: "'s server"
  siDigest :: digest
  siMount :: "string list"
  siSize :: "gval \<Rightarrow> int"
  siMedia :: "string \<Rightarrow> content_type"
  siEnv :: "nat \<Rightarrow> env"
  siOthers :: "string \<Rightarrow> nat \<Rightarrow> 's \<Rightarrow> 's"

definition headerOf :: "message \<Rightarrow> string \<Rightarrow> string" where
  "headerOf ms k = (case aget (msHeaders ms) k of None \<Rightarrow> [] | Some v \<Rightarrow> v)"

definition httpRequest :: "'s site \<Rightarrow> message \<Rightarrow> http_request" where
  "httpRequest si ms =
     (let size = (case msBody ms of None \<Rightarrow> 0 | Some b \<Rightarrow> siSize si b); ct = headerOf ms ''Content-Type''
      in \<lparr>hqMethod = msMethod ms, hqPath = drop (length (siMount si)) (msPath ms),
          hqContentType = (if ct = [] then NoContentType else siMedia si ct), hqContentLength = size,
          hqAuthorization = headerOf ms ''Authorization'',
          hqRequest = \<lparr>rqID = [], rqIfMatch = headerOf ms ''If-Match'',
            rqIfNoneMatch = headerOf ms ''If-None-Match'', rqQuery = msQuery ms,
            rqBodyLength = size, rqBody = msBody ms\<rparr>\<rparr>)"

definition sentBody :: "body \<Rightarrow> payload" where
  "sentBody b =
     (case b of
        NoBody \<Rightarrow> Blank
      | ErrorBody e \<Rightarrow> Json (Error_MarshalJSON e)
      | ResourceBody fs \<Rightarrow> Json (resourceDoc fs)
      | ListBody ls \<Rightarrow> Json (ListResponse_MarshalJSON (ls\<lparr>lsResources := map jsonText (lsResources ls)\<rparr>)))"

definition rawResponse :: "response \<Rightarrow> raw_response" where
  "rawResponse rsp =
     \<lparr>rwStatus = rsStatus rsp,
      rwHeader = (case rsETag rsp of None \<Rightarrow> [] | Some t \<Rightarrow> [(''ETag'', t)]) @
        (case rsLocation rsp of None \<Rightarrow> [] | Some l \<Rightarrow> [(''Location'', l)]),
      rwBody = sentBody (rsBody rsp)\<rparr>"

type_synonym 's world = "nat \<times> (string \<Rightarrow> 's)"

definition siteSend :: "'s site \<Rightarrow> message \<Rightarrow> 's world \<Rightarrow> raw_response option \<times> 's world" where
  "siteSend si ms w =
     (case w of (k, s) \<Rightarrow>
        if take (length (siMount si)) (msPath ms) \<noteq> siMount si
        then (Some \<lparr>rwStatus = 404, rwHeader = [], rwBody = NotJson\<rparr>, (k + 1, s))
        else case ServeHTTP (siServer si) (siDigest si) (siEnv si k) (siOthers si) (httpRequest si ms) s of
          (rsp, s') \<Rightarrow> (Some (rawResponse rsp), (k + 1, s')))"

definition siteNet :: "'s site \<Rightarrow> string option \<Rightarrow> 's world net" where
  "siteNet si token =
     \<lparr>ntToken = map_option (\<lambda>t w. (Some t, w)) token, ntSend = siteSend si,
      ntDone = (\<lambda>w. False), ntWait = (\<lambda>d w. (True, w)), ntDraw = (\<lambda>w. Finite 0),
      ntNow = (\<lambda>w. 0), ntParseTime = (\<lambda>s. None)\<rparr>"

definition tokenText :: "string option \<Rightarrow> string" where
  "tokenText token = (case token of None \<Rightarrow> [] | Some t \<Rightarrow> t)"

definition sentMessage :: "string option \<Rightarrow> message \<Rightarrow> message" where
  "sentMessage token ms =
     ms\<lparr>msHeaders := setHeaders (msBody ms \<noteq> None) (tokenText token) (msHeaders ms)\<rparr>"

lemma doRequest_site:
  assumes "siteSend si (sentMessage token ms) w = (Some r, w')"
    and "\<not> retryable (clRetry c) (msMethod ms) (rwStatus r)" "1 \<le> rcMaxAttempts (clRetry c)"
  shows "doRequest c (siteNet si token) ms w = (Inr r, w')"
proof -
  have "bearer (siteNet si token) w = (Inr (tokenText token), w)"
    by (simp add: bearer_def siteNet_def tokenText_def split: option.split)
  moreover have "attempt (siteNet si token) ms (tokenText token) w = (Some r, w')"
    using assms(1) by (simp add: attempt_def siteNet_def sentMessage_def)
  ultimately have "tryOnce c (siteNet si token) ms w = (Finished (Inr r), w')"
    using assms(2) by (simp add: tryOnce_def)
  with assms(3) show ?thesis by (simp add: doRequest_def doLoop.simps Let_def)
qed

subsection \<open>URLs\<close>

text \<open>A segment that \<open>JoinPath\<close> takes as it is.\<close>

definition plainSegment :: "string \<Rightarrow> bool" where
  "plainSegment s \<longleftrightarrow> s \<notin> {[], ''.'', ''..''} \<and> CHR ''/'' \<notin> set s \<and> CHR ''%'' \<notin> set s"

lemma unescape_plain: "CHR ''%'' \<notin> set s \<Longrightarrow> unescape s = Some s"
  by (induction s) auto

lemma those_plain: "list_all plainSegment ss \<Longrightarrow> those (map unescape ss) = Some ss"
  by (induction ss) (auto simp: plainSegment_def unescape_plain)

lemma split_plain: "list_all plainSegment ss \<Longrightarrow> concat (map (splitOn CHR ''/'') ss) = ss"
  by (induction ss) (auto simp: plainSegment_def splitOn_plain)

lemma clean_plain:
  "list_all plainSegment ss \<Longrightarrow> foldl cleanStep acc ss = rev ss @ acc"
  by (induction ss arbitrary: acc) (auto simp: plainSegment_def cleanStep_def)

lemma sent_plain: "list_all plainSegment ss \<Longrightarrow> sentSegments ss = Some ss"
  by (simp add: sentSegments_def those_plain split_plain)

text \<open>The endpoint of a type begins with a slash.\<close>

lemma split_endpoint: "plainSegment ep \<Longrightarrow> splitOn CHR ''/'' (CHR ''/'' # ep) = [[], ep]"
  using splitOn_plain [of "CHR ''/''" ep] by (simp add: plainSegment_def)

lemma requestURL_plain:
  assumes "list_all plainSegment (clBase c)" "plainSegment ep" "list_all plainSegment is"
  shows "requestURL c ((CHR ''/'' # ep) # is) = clBase c @ ep # is"
proof -
  have all: "list_all plainSegment (clBase c @ ep # is)" using assms by simp
  have parts: "concat (map (splitOn CHR ''/'') (clBase c @ (CHR ''/'' # ep) # is)) = clBase c @ [] # ep # is"
    using assms split_plain [of "clBase c"] split_plain [of "is"] by (simp add: split_endpoint del: splitOn.simps)
  have "foldl cleanStep [] (clBase c @ [] # ep # is) = foldl cleanStep [] (clBase c @ ep # is)"
    by (simp add: cleanStep_def)
  then have clean: "cleanPath (clBase c @ [] # ep # is) = clBase c @ ep # is"
    using clean_plain [OF all, of "[]"] by (simp add: cleanPath_def)
  have "x \<noteq> [] \<and> last x \<noteq> CHR ''/''" if "plainSegment x" for x
  proof -
    from that have "x \<noteq> []" "CHR ''/'' \<notin> set x" by (auto simp: plainSegment_def)
    then show ?thesis using last_in_set [of x] by metis
  qed
  moreover have "last ((CHR ''/'' # ep) # is) = CHR ''/'' # ep \<and> plainSegment ep \<or> plainSegment (last ((CHR ''/'' # ep) # is))"
    using assms(2,3) last_in_set [of "is"] by (auto simp: list_all_iff)
  ultimately have slash: "last (last ((CHR ''/'' # ep) # is)) \<noteq> CHR ''/''"
    using assms(2) by auto
  show ?thesis
    unfolding requestURL_def joinPath_def parts Let_def clean using slash by (simp add: sent_plain [OF all])
qed

subsection \<open>A site a client can reach\<close>

definition bearerHeader :: "string option \<Rightarrow> string" where
  "bearerHeader token = (if tokenText token = [] then [] else ''Bearer '' @ tokenText token)"

definition admits :: "'s site \<Rightarrow> string option \<Rightarrow> bool" where
  "admits si token \<longleftrightarrow>
     (case cfgAuth (svConfig (siServer si)) of
        None \<Rightarrow> True
      | Some verify \<Rightarrow> authorized verify (bearerHeader token))"

definition siteReady :: "'s site \<Rightarrow> string option \<Rightarrow> client \<Rightarrow> bool" where
  "siteReady si token c \<longleftrightarrow>
     wired (siServer si) \<and> admits si token \<and>
     siMedia si clientMediaType = ContentType clientMediaType \<and>
     clBase c = siMount si \<and> list_all plainSegment (siMount si) \<and>
     1 \<le> rcMaxAttempts (clRetry c) \<and> (\<forall>n \<in> {200, 201, 204, 404}. \<not> shouldRetry (clRetry c) n)"

definition sentRequest :: "'s site \<Rightarrow> message \<Rightarrow> request" where
  "sentRequest si ms =
     \<lparr>rqID = [], rqIfMatch = headerOf ms ''If-Match'', rqIfNoneMatch = [], rqQuery = msQuery ms,
      rqBodyLength = (case msBody ms of None \<Rightarrow> 0 | Some b \<Rightarrow> siSize si b), rqBody = msBody ms\<rparr>"

definition headersPlain :: "message \<Rightarrow> bool" where
  "headersPlain ms \<longleftrightarrow> msHeaders ms = [] \<or> (\<exists>v. msHeaders ms = [(''If-Match'', v)])"

lemma headers_sent:
  assumes "headersPlain ms"
  shows "headerOf (sentMessage token ms) ''Authorization'' = bearerHeader token"
    "headerOf (sentMessage token ms) ''Content-Type'' = (if msBody ms = None then [] else clientMediaType)"
    "headerOf (sentMessage token ms) ''If-Match'' = headerOf ms ''If-Match''"
    "headerOf (sentMessage token ms) ''If-None-Match'' = []"
  using assms
  by (auto simp: headersPlain_def headerOf_def sentMessage_def setHeaders_def bearerHeader_def)

lemma siteSend_served:
  assumes "siteReady si token c" "headersPlain ms" "msPath ms = siMount si @ path"
  shows "siteSend si (sentMessage token ms) (k, s) =
    (case serveRoute (siServer si) (siDigest si) (siEnv si k) (siOthers si) (sentRequest si ms)
        (muxRoute (svTypes (siServer si)) (msMethod ms) path) s of
       (rsp, s') \<Rightarrow> (Some (rawResponse rsp), (k + 1, s')))"
proof -
  define hq where "hq = httpRequest si (sentMessage token ms)"
  note headers = headers_sent [OF assms(2), of token]
  have msg: "msMethod (sentMessage token ms) = msMethod ms" "msPath (sentMessage token ms) = msPath ms"
    "msBody (sentMessage token ms) = msBody ms" "msQuery (sentMessage token ms) = msQuery ms"
    by (simp_all add: sentMessage_def)
  have hq: "hqRequest hq = sentRequest si ms" "hqMethod hq = msMethod ms" "hqPath hq = path"
    "hqAuthorization hq = bearerHeader token"
    using assms(3) by (simp_all add: hq_def httpRequest_def Let_def headers msg sentRequest_def)
  have media: "mediaTypeOk hq"
    using assms(1)
    by (auto simp: mediaTypeOk_def hq_def httpRequest_def Let_def headers msg siteReady_def mediaType_def
        clientMediaType_def split: option.splits)
  have "ServeHTTP (siServer si) (siDigest si) (siEnv si k) (siOthers si) hq s =
      serveCore (siServer si) (siDigest si) (siEnv si k) (siOthers si) hq s"
    using assms(1) by (auto simp: ServeHTTP_def hq siteReady_def admits_def split: option.split)
  with media hq assms(3) show ?thesis
    by (simp add: siteSend_def msg serveCore_def hq_def [symmetric] split: prod.split)
qed

text \<open>One exchange of the client with a handler of the site.\<close>

lemma exchange_site:
  assumes ready: "siteReady si token c" and "headersPlain ms" "msPath ms = siMount si @ path"
    and "serveRoute (siServer si) (siDigest si) (siEnv si k) (siOthers si) (sentRequest si ms)
      (muxRoute (svTypes (siServer si)) (msMethod ms) path) s = (rsp, s')"
    and "rsStatus rsp \<in> {200, 201, 204, 404}"
  shows "doRequest c (siteNet si token) ms (k, s) = (Inr (rawResponse rsp), (k + 1, s'))"
proof (rule doRequest_site)
  show "siteSend si (sentMessage token ms) (k, s) = (Some (rawResponse rsp), (k + 1, s'))"
    using siteSend_served [OF assms(1-3), of k s] assms(4) by simp
  have "\<not> shouldRetry (clRetry c) (rsStatus rsp)" "1 \<le> rcMaxAttempts (clRetry c)"
    using ready assms(5) by (auto simp: siteReady_def)
  then show "\<not> retryable (clRetry c) (msMethod ms) (rwStatus (rawResponse rsp))" "1 \<le> rcMaxAttempts (clRetry c)"
    using assms(5) by (auto simp: retryable_def shouldRetry_def rawResponse_def)
qed

text \<open>The routes of a registered type.\<close>

definition mountedAt :: "'s site \<Rightarrow> 's typeHandler \<Rightarrow> string \<Rightarrow> bool" where
  "mountedAt si h ep \<longleftrightarrow>
     h \<in> set (svTypes (siServer si)) \<and> rtEndpoint (thRT h) = CHR ''/'' # ep \<and> plainSegment ep"

lemma route_type:
  assumes "siteReady si token c" "mountedAt si h ep"
    and "registerType h (if verb = ''HEAD'' then ''GET'' else verb) (ep # rest) = Some r"
  shows "muxRoute (svTypes (siServer si)) verb (ep # rest) = r"
  using assms firstRoute_type [of h "svTypes (siServer si)" ep _ rest r]
  by (auto simp: siteReady_def wired_def mountedAt_def muxRoute_def)

lemma url_type:
  assumes "siteReady si token c" "mountedAt si h ep" "list_all plainSegment rest"
  shows "requestURL c (rtEndpoint (thRT h) # rest) = siMount si @ ep # rest"
  using assms requestURL_plain [of c ep rest] by (simp add: siteReady_def mountedAt_def)

end
