(* ===== verification/Client_Answers.thy ===== *)
theory Client_Answers
  imports Client_Server Scim_RoundTrip Serve_Properties
begin

text \<open>
  The client and the server together: what a client gets from a site of this library whose types
  are kept in the in-memory store. A list request reads the pages of one list, so the site is a
  \<open>paged_target\<close>; a resource travels through the codec of the server and that of the client.
\<close>

subsection \<open>What the server encodes\<close>

abbreviation rowsOf :: "(string \<Rightarrow> memstore) \<Rightarrow> memstore typeHandler \<Rightarrow> resource list" where
  "rowsOf s h \<equiv> map snd (memRows (s (rtEndpoint (thRT h))))"

text \<open>A stored resource has its version, so the stamp changes nothing.\<close>

lemma stored_row:
  assumes "memInvar rt s" "r \<in> snd ` set (memRows s)"
  shows "resourceOk r \<and> rRT r = rt \<and> mVersion (rMeta r) \<noteq> [] \<and>
    (\<exists>i. aget (memRows s) i = Some r \<and> assignedID r = Some i)"
proof -
  from assms(2) obtain i where i: "(i, r) \<in> set (memRows s)" by auto
  from assms(1) have ok: "storeOk s" "msRT s = rt" by (simp_all add: memInvar_def)
  from mem.rows_distinct [OF assms(1)] i have row: "aget (memRows s) i = Some r"
    by (simp add: distinct_keys_def)
  with ok aget_memRows [of s i] have "aget (msItems s) i = Some r" by (simp add: storeOk_def)
  with ok have item: "resourceOk r" "rRT r = rt" "assignedID r = Some i"
      "mVersion (rMeta r) = versionString (seqOf s i)"
    by (auto simp: storeOk_def itemsOk_def)
  then have "mVersion (rMeta r) \<noteq> []" by simp
  with row item(1-3) show ?thesis by blast
qed

lemma stamp_version: "mVersion (rMeta r) \<noteq> [] \<Longrightarrow> stampETag digest r = Inr (mVersion (rMeta r), r)"
  by (simp add: stampETag_def resourceETag_def SetMeta_def)

lemma encodeListed_stored:
  "mVersion (rMeta r) \<noteq> [] \<Longrightarrow>
     encodeListed digest p r = rbind (EncodeResource r p) (\<lambda>fs. Inr (VMap fs))"
  by (simp add: encodeListed_def stamp_version)

lemma encode_each:
  "list_all2 (\<lambda>r v. f r = Inr v) rs vs \<Longrightarrow>
     rfold (\<lambda>r out. rbind (f r) (\<lambda>v. Inr (out @ [v]))) rs out = Inr (out @ vs)"
  by (induction rs vs arbitrary: out rule: list_all2_induct) simp_all

subsection \<open>A list request\<close>

definition ascending :: "list_query \<Rightarrow> bool" where
  "ascending q \<longleftrightarrow> lqSortBy q = None \<or> lqAscending q"

definition projectionOf :: "list_query \<Rightarrow> projection" where
  "projectionOf q = \<lparr>prAttributes = lqAttributes q, prExcluded = lqExcluded q\<rparr>"

text \<open>The whole answer to a query, before it is cut into pages.\<close>

definition selects :: "resource_type \<Rightarrow> list_query \<Rightarrow> resource list \<Rightarrow> resource list \<Rightarrow> bool" where
  "selects rt q rs out \<longleftrightarrow>
     (\<exists>matched. matchAll (lqFilter q) rs = Inr matched \<and>
        out = SortResources matched rt (lqSortBy q) (ascending q))"

definition listed ::
    "memstore site \<Rightarrow> string option \<Rightarrow> client \<Rightarrow> memstore typeHandler \<Rightarrow> list_query \<Rightarrow> int \<Rightarrow>
     (string \<Rightarrow> memstore) \<Rightarrow> gval list \<Rightarrow> memstore world \<Rightarrow> bool" where
  "listed si token c h q n s items w \<longleftrightarrow>
     snd w = s \<and> siteReady si token c \<and> (\<exists>ep. mountedAt si h ep) \<and> thStore h = memStore \<and>
     cfgMaxPageSize (thConfig h) < 2 ^ 62 \<and> queryReady (thRT h) q \<and> 0 < n \<and> inInt64 n \<and>
     (lqSearch q \<or> clSearch c \<longrightarrow>
        (\<forall>start. siSize si (searchRequestDoc q start n) \<le> cfgMaxBodyBytes (thConfig h))) \<and>
     memInvar (thRT h) (s (rtEndpoint (thRT h))) \<and> int (length (rowsOf s h)) < 2 ^ 62 \<and>
     (\<exists>out vs. selects (thRT h) q (rowsOf s h) out \<and>
        list_all2 (\<lambda>r v. encodeListed (siDigest si) (projectionOf q) r = Inr v) out vs \<and>
        items = map jsonText vs) \<and> distinct items"

lemma selects_bound: "selects rt q rs out \<Longrightarrow> length out \<le> length rs \<and> set out \<subseteq> set rs"
proof -
  assume "selects rt q rs out"
  then obtain matched where m: "matchAll (lqFilter q) rs = Inr matched"
      "out = SortResources matched rt (lqSortBy q) (ascending q)"
    by (auto simp: selects_def)
  then have "length out = length matched" by (metis mset_SortResources size_mset)
  moreover have "length matched \<le> length rs \<and> set matched \<subseteq> set rs"
    using m(1) by (cases "lqFilter q") (auto simp: matchAll_Inr)
  ultimately show ?thesis by (simp add: m(2))
qed

text \<open>The answer of either route.\<close>

lemma page_response:
  assumes "thStore h = memStore" "memInvar (thRT h) s" "int (length (memRows s)) < 2 ^ 62"
    and limits: "configLimits (thConfig h)" "cfgMaxPageSize (thConfig h) < 2 ^ 62"
    and start: "1 \<le> start" "inInt64 start" and n: "0 < n"
    and sel: "selects (thRT h) q (map snd (memRows s)) out"
    and enc: "list_all2 (\<lambda>r v. encodeListed digest (projectionOf q) r = Inr v) out vs"
  shows "respondList h digest (servedRequest (thConfig h) q start n) s =
    \<lparr>rsStatus = 200, rsETag = None, rsLocation = None,
     rsBody = ListBody \<lparr>lsTotalResults = int (length vs), lsStartIndex = start,
       lsItemsPerPage = int (length (take (nat (min n (cfgMaxPageSize (thConfig h)))) (fromIndex vs start))),
       lsResources = take (nat (min n (cfgMaxPageSize (thConfig h)))) (fromIndex vs start)\<rparr>\<rparr>"
proof -
  define k where "k = min n (cfgMaxPageSize (thConfig h))"
  define sq where "sq = \<lparr>qFilter = lqFilter q, qSortBy = lqSortBy q, qAscending = ascending q,
    qStartIndex = start, qCount = k\<rparr>"
  have served: "servedRequest (thConfig h) q start n = \<lparr>lrQuery = sq, lrProjection = projectionOf q\<rparr>"
    by (simp add: servedRequest_def sq_def k_def ascending_def projectionOf_def)
  have "runQuery h sq s = stList memStore sq s"
    using assms(1) by (simp add: runQuery_def Let_def supportsFilter_def supportsSort_def memStore_def
        split: option.split)
  also have "\<dots> = listSpec (thRT h) sq (map snd (memRows s))"
    using limits n by (intro memlist.list_rows assms(2,3)) (simp add: sq_def k_def)
  finally have run: "runQuery h sq s = Inr \<lparr>pgResources = take (nat k) (drop (nat (start - 1)) out),
      pgTotalResults = int (length out)\<rparr>"
  proof -
    assume *: "runQuery h sq s = listSpec (thRT h) sq (map snd (memRows s))"
    from sel obtain matched where m: "matchAll (lqFilter q) (map snd (memRows s)) = Inr matched"
      "out = SortResources matched (thRT h) (lqSortBy q) (ascending q)" by (auto simp: selects_def)
    then have "length out = length matched" by (metis mset_SortResources size_mset)
    with * m show ?thesis by (simp add: listSpec_def sq_def)
  qed
  have "list_all2 (\<lambda>r v. encodeListed digest (projectionOf q) r = Inr v)
      (take (nat k) (drop (nat (start - 1)) out)) (take (nat k) (drop (nat (start - 1)) vs))"
    using enc by (intro list_all2_takeI list_all2_dropI)
  from encode_each [OF this, of "[]"] run list_all2_lengthD [OF enc] show ?thesis
    by (simp add: respondList_def served k_def [symmetric] fromIndex_def) (simp add: sq_def)
qed

text \<open>The page the client gets.\<close>

definition pageOf :: "gval list \<Rightarrow> int \<Rightarrow> nat \<Rightarrow> list_response" where
  "pageOf items start k =
     \<lparr>lsTotalResults = int (length items), lsStartIndex = start,
      lsItemsPerPage = int (min k (length (fromIndex items start))),
      lsResources = take k (fromIndex items start)\<rparr>"

lemma list_reply:
  assumes "1 \<le> start" "inInt64 start" "int (length vs) < 2 ^ 62"
  shows "decodeListResponse (rawResponse \<lparr>rsStatus = 200, rsETag = None, rsLocation = None,
      rsBody = ListBody \<lparr>lsTotalResults = int (length vs), lsStartIndex = start,
        lsItemsPerPage = int (length (take k (fromIndex vs start))), lsResources = take k (fromIndex vs start)\<rparr>\<rparr>) =
    Inr (pageOf (map jsonText vs) start k)"
proof -
  define ls where "ls = pageOf (map jsonText vs) start k"
  have size: "length (fromIndex (map jsonText vs) start) \<le> length vs" by (simp add: fromIndex_def)
  then have "inInt64 (int (min k (length (fromIndex (map jsonText vs) start))))"
    using assms(3) by (auto simp: inInt64_def min_def)
  then have "ListResponse_UnmarshalJSON (ListResponse_MarshalJSON ls) = Inr ls"
    using assms by (intro list_marshal_unmarshal) (auto simp: ls_def pageOf_def inInt64_def)
  moreover have "\<lparr>lsTotalResults = int (length vs), lsStartIndex = start,
      lsItemsPerPage = int (length (take k (fromIndex vs start))),
      lsResources = map jsonText (take k (fromIndex vs start))\<rparr> = ls"
    by (simp add: ls_def pageOf_def fromIndex_def take_map drop_map min.commute)
  ultimately show ?thesis
    unfolding ls_def [symmetric]
    by (simp add: decodeListResponse_def rawResponse_def sentBody_def del: length_take)
qed

lemma listed_page:
  assumes listed: "listed si token c h q n s items w" and start: "1 \<le> start" "inInt64 start"
  shows "\<exists>w' k. fetchPage c (siteNet si token) (thRT h) q start n w = (Inr (pageOf items start k), w') \<and>
    0 < k \<and> listed si token c h q n s items w'"
proof -
  define mem where "mem = s (rtEndpoint (thRT h))"
  define k where "k = nat (min n (cfgMaxPageSize (thConfig h)))"
  obtain i where w: "w = (i, s)" using listed by (cases w) (simp add: listed_def)
  from listed obtain ep out vs where ready: "siteReady si token c" and mount: "mountedAt si h ep"
    and store: "thStore h = memStore" "cfgMaxPageSize (thConfig h) < 2 ^ 62" "queryReady (thRT h) q" "0 < n" "inInt64 n"
    and body: "lqSearch q \<or> clSearch c \<longrightarrow> siSize si (searchRequestDoc q start n) \<le> cfgMaxBodyBytes (thConfig h)"
    and inv: "memInvar (thRT h) mem" "int (length (memRows mem)) < 2 ^ 62"
    and sel: "selects (thRT h) q (map snd (memRows mem)) out"
    and enc: "list_all2 (\<lambda>r v. encodeListed (siDigest si) (projectionOf q) r = Inr v) out vs"
    and items: "items = map jsonText vs"
    by (auto simp: listed_def mem_def)
  have limits: "configLimits (thConfig h)"
    using ready mount by (auto simp: siteReady_def wired_def mountedAt_def list_all_iff)
  then have k: "0 < k" using store(4) by (simp add: k_def configLimits_def)
  note answer = page_response [OF store(1) inv limits store(2) start store(4) sel enc]
  define rsp where "rsp = respondList h (siDigest si) (servedRequest (thConfig h) q start n) mem"
  have few: "int (length vs) < 2 ^ 62"
    using selects_bound [OF sel] list_all2_lengthD [OF enc] inv(2) by simp
  have ms: "headersPlain (pageMessage c (thRT h) q start n)"
    by (simp add: headersPlain_def pageMessage_def message_def)
  have url: "requestURL c [rtEndpoint (thRT h)] = siMount si @ [ep]"
    "requestURL c [rtEndpoint (thRT h), ''.search''] = siMount si @ [ep, ''.search'']"
    using url_type [OF ready mount, of "[]"] url_type [OF ready mount, of "[''.search'']"]
    by (simp_all add: plainSegment_def)
  have norm: "normalize (rawParams q start n) (thRT h) (thConfig h) = Inr (servedRequest (thConfig h) q start n)"
    using store(4) by (intro normalize_params [OF store(3) start _ store(5)]) simp
  have status: "rsStatus rsp = 200" by (simp add: rsp_def answer)
  have "doRequest c (siteNet si token) (pageMessage c (thRT h) q start n) (i, s) = (Inr (rawResponse rsp), (i + 1, s))"
  proof (cases "lqSearch q \<or> clSearch c")
    case True
    have route: "muxRoute (svTypes (siServer si)) ''POST'' [ep, ''.search''] = SearchRoute h"
      using mount by (intro route_type [OF ready mount]) (simp add: registerType_def mountedAt_def)
    have "handleSearch h (siDigest si) (sentRequest si (pageMessage c (thRT h) q start n)) mem = rsp"
      using True body search_read [OF start(2) store(5), of q "thRT h" "thConfig h"]
        norm
      by (simp add: handleSearch_def readBody_def sentRequest_def pageMessage_def message_def rsp_def)
    with True route status url show ?thesis
      by (intro exchange_site [OF ready ms, of "[ep, ''.search'']"])
        (simp_all add: pageMessage_def message_def serveRoute_def Let_def mem_def)
  next
    case False
    have route: "muxRoute (svTypes (siServer si)) ''GET'' [ep] = ListRoute h"
      using mount by (intro route_type [OF ready mount]) (simp add: registerType_def mountedAt_def)
    have "handleList h (siDigest si) (sentRequest si (pageMessage c (thRT h) q start n)) mem = rsp"
      using False norm
      by (simp add: handleList_def sentRequest_def pageMessage_def parseListParams_def params_read rsp_def)
    with False route status url show ?thesis
      by (intro exchange_site [OF ready ms, of "[ep]"])
        (simp_all add: pageMessage_def message_def serveRoute_def Let_def mem_def)
  qed
  then have "fetchPage c (siteNet si token) (thRT h) q start n w = (Inr (pageOf items start k), (i + 1, s))"
    using list_reply [OF start few, of k] by (simp add: fetchPage_def w rsp_def answer k_def items)
  moreover have "listed si token c h q n s items (i + 1, s)"
    using listed by (simp add: listed_def w)
  ultimately show ?thesis using k by blast
qed

interpretation served: paged_target c "siteNet si token" "thRT h" q n items "listed si token c h q n s items"
  for c si token h q n items s
proof
  fix w :: "memstore world" and start
  assume w: "listed si token c h q n s items w"
  show "\<exists>w' k. fetchPage c (siteNet si token) (thRT h) q start n w =
      (Inr \<lparr>lsTotalResults = int (length items), lsStartIndex = start,
        lsItemsPerPage = int (min k (length (fromIndex items start))),
        lsResources = take k (fromIndex items start)\<rparr>, w') \<and> 0 < k \<and> listed si token c h q n s items w'"
    if "1 \<le> start" "inInt64 start"
    using listed_page [OF w that] by (simp add: pageOf_def)
  from w obtain out vs where sel: "selects (thRT h) q (rowsOf s h) out"
    and enc: "list_all2 (\<lambda>r v. encodeListed (siDigest si) (projectionOf q) r = Inr v) out vs"
    and items: "items = map jsonText vs" "distinct items"
    and size: "int (length (memRows (s (rtEndpoint (thRT h))))) < 2 ^ 62"
    by (auto simp: listed_def)
  show "distinct items" by (rule items)
  show "int (length items) < 2 ^ 62"
    using selects_bound [OF sel] list_all2_lengthD [OF enc] size items(1) by simp
qed

subsection \<open>What the consumer sees\<close>

text \<open>The consumer over the resources, without pages and errors.\<close>

fun feed :: "(resource \<Rightarrow> 'a \<Rightarrow> 'a \<times> bool) \<Rightarrow> resource list \<Rightarrow> 'a \<Rightarrow> 'a" where
  "feed yield [] acc = acc"
| "feed yield (r # rs) acc = (case yield r acc of (acc, want) \<Rightarrow> if want then feed yield rs acc else acc)"

lemma feed_collecting: "feed collecting rs acc = acc @ rs"
  by (induction rs arbitrary: acc) (simp_all add: collecting_def)

lemma consume_feed:
  "list_all2 (\<lambda>v r. DecodeResource rt False v = Inr r) vs rs \<Longrightarrow>
     turned (consume rt yield vs acc) = (feed yield rs acc, None)"
  by (induction vs rs arbitrary: acc rule: list_all2_induct) (auto simp: turned_def split: prod.split)

text \<open>Every stored resource can be encoded, and its values survive JSON.\<close>

definition travels :: "resource \<Rightarrow> bool" where
  "travels r \<longleftrightarrow> wireStable r \<and> (\<exists>fs. EncodeResource r noProjection = Inr fs)"

lemma travel:
  assumes rt: "wireType rt" "resourceTypeOk rt"
    and rs: "\<forall>r \<in> set rs. resourceOk r \<and> rRT r = rt \<and> mVersion (rMeta r) \<noteq> [] \<and> travels r"
  shows "\<exists>vs. list_all2 (\<lambda>r v. encodeListed digest noProjection r = Inr v) rs vs \<and>
    list_all2 (\<lambda>v r. DecodeResource rt False v = Inr r) (map jsonText vs) (map published rs)"
  using rs
proof (induction rs)
  case (Cons r rs)
  then obtain vs where vs: "list_all2 (\<lambda>r v. encodeListed digest noProjection r = Inr v) rs vs"
    "list_all2 (\<lambda>v r. DecodeResource rt False v = Inr r) (map jsonText vs) (map published rs)" by auto
  from Cons.prems obtain fs where fs: "EncodeResource r noProjection = Inr fs" by (auto simp: travels_def)
  have "encodeListed digest noProjection r = Inr (VMap fs)"
    using Cons.prems fs by (simp add: encodeListed_stored)
  moreover have "DecodeResource rt False (jsonText (VMap fs)) = Inr (published r)"
    using encode_decode_resource [OF _ _ _ _ fs] Cons.prems rt by (simp add: travels_def resourceDoc_def)
  ultimately show ?case using vs by (intro exI [of _ "VMap fs # vs"]) simp
qed simp

lemma published_id: "aget (rAttrs r) ''id'' = Some v \<Longrightarrow> aget (rAttrs (published r)) ''id'' = Some v"
  by (simp add: published_def publishedAttrs_def pubCommon_def List.map_filter_simps)

lemma Get_id:
  assumes "commonReserved (rRT r)" shows "Get r ''id'' = aget (rAttrs r) ''id''"
proof -
  from resolve_id [OF assms] obtain a where
    "resolvePath (rRT r) ''id'' = Inr \<lparr>rpUrn = [], rpAttr = Some a, rpSub = None, rpCommon = True\<rparr>"
    "foldName (attrName a) = ''id''" by blast
  then show ?thesis by (simp add: Get_def getResolved_def getCommon_def attrSchemas_def attrMeta_def Let_def)
qed

lemma rows_ids:
  assumes "memInvar rt s"
  shows "distinct (map (\<lambda>r. aget (rAttrs (published r)) ''id'') (map snd (memRows s)))"
proof -
  have ids: "aget (rAttrs (published r)) ''id'' = Some (VString i)" if "(i, r) \<in> set (memRows s)" for i r
  proof -
    from that have "r \<in> snd ` set (memRows s)" by force
    from stored_row [OF assms this] obtain j where j: "aget (memRows s) j = Some r" "assignedID r = Some j"
      and "rRT r = rt" by blast
    from mem.rows_distinct [OF assms] that have "aget (memRows s) i = Some r" by (simp add: distinct_keys_def)
    then have items: "aget (msItems s) i = Some r" "storeOk s" "msRT s = rt"
      using assms aget_memRows [of s i] by (simp_all add: memInvar_def storeOk_def)
    then have "assignedID r = Some i" "commonReserved (rRT r)"
      by (auto simp: storeOk_def itemsOk_def configOk_def storeType_def)
    then have "aget (rAttrs r) ''id'' = Some (VString i)"
      by (auto simp: assignedID_def Get_id split: option.splits gval.splits if_splits)
    then show ?thesis by (rule published_id)
  qed
  have "map (\<lambda>r. aget (rAttrs (published r)) ''id'') (map snd (memRows s)) =
      map (Some \<circ> VString) (map fst (memRows s))"
    using ids by auto
  moreover have "distinct (map fst (memRows s))"
    using mem.rows_distinct [OF assms] by (simp add: distinct_keys_def)
  ultimately show ?thesis by (simp add: distinct_map inj_on_def comp_def)
qed

lemma selects_distinct:
  assumes "selects rt q rs out" "distinct (map f rs)"
  shows "distinct (map f out)"
proof -
  from assms(1) obtain matched where m: "matchAll (lqFilter q) rs = Inr matched"
    "out = SortResources matched rt (lqSortBy q) (ascending q)" by (auto simp: selects_def)
  have "distinct (map f matched)"
    using m(1) assms(2) by (cases "lqFilter q") (auto simp: matchAll_Inr distinct_map_filter)
  moreover have "mset (map f out) = mset (map f matched)" by (simp add: m(2))
  ultimately show ?thesis by (metis mset_eq_imp_distinct_iff)
qed

lemma decodes_distinct:
  assumes "list_all2 (\<lambda>v r. DecodeResource rt False v = Inr r) vs rs" "distinct rs"
  shows "distinct vs"
proof -
  have "map (\<lambda>v. projr (DecodeResource rt False v)) vs = rs"
    using assms(1) by (induction rule: list_all2_induct) auto
  then show ?thesis using assms(2) by (metis distinct_map)
qed

subsection \<open>Lists and lookups\<close>

text \<open>What a list request of a client needs: the site is ready and holds the type in the
  in-memory store, the query makes sense, a search body is not too long, and what is stored
  travels.\<close>

definition listable ::
    "memstore site \<Rightarrow> string option \<Rightarrow> client \<Rightarrow> memstore typeHandler \<Rightarrow> list_query \<Rightarrow> (string \<Rightarrow> memstore) \<Rightarrow> bool" where
  "listable si token c h q s \<longleftrightarrow>
     siteReady si token c \<and> (\<exists>ep. mountedAt si h ep) \<and> thStore h = memStore \<and>
     cfgMaxPageSize (thConfig h) < 2 ^ 62 \<and> wireType (thRT h) \<and> queryReady (thRT h) q \<and>
     inInt64 (lqStartIndex q) \<and> inInt64 (lqCount q) \<and>
     (lqSearch q \<or> clSearch c \<longrightarrow>
        (\<forall>start n. siSize si (searchRequestDoc q start n) \<le> cfgMaxBodyBytes (thConfig h))) \<and>
     memInvar (thRT h) (s (rtEndpoint (thRT h))) \<and> int (length (rowsOf s h)) < 2 ^ 62 \<and>
     (\<forall>r \<in> set (rowsOf s h). travels r)"

lemma list_served:
  assumes "listable si token c h q s" "lqAttributes q = []" "lqExcluded q = []"
    and "selects (thRT h) q (rowsOf s h) out" "ssWorld ss = (i, s)"
  shows "\<exists>k. svcList c (siteNet si token) (StaticType (thRT h)) q yield acc ss =
    Some (feed yield (map published (fromIndex out (max (lqStartIndex q) 1))) acc, None, ss\<lparr>ssWorld := (k, s)\<rparr>)"
proof -
  define n where "n = (if lqCount q \<le> 0 then clientPageSize else lqCount q)"
  define start where "start = max (lqStartIndex q) 1"
  have inv: "memInvar (thRT h) (s (rtEndpoint (thRT h)))" using assms(1) by (simp add: listable_def)
  have proj: "projectionOf q = noProjection" using assms(2,3) by (simp add: projectionOf_def noProjection_def)
  have rt: "wireType (thRT h)" "resourceTypeOk (thRT h)"
    using assms(1) inv by (auto simp: listable_def memInvar_def storeOk_def configOk_def storeType_def)
  have "\<forall>r \<in> set out. resourceOk r \<and> rRT r = thRT h \<and> mVersion (rMeta r) \<noteq> [] \<and> travels r"
  proof
    fix r assume "r \<in> set out"
    then have r: "r \<in> set (rowsOf s h)" using selects_bound [OF assms(4)] by blast
    then have "r \<in> snd ` set (memRows (s (rtEndpoint (thRT h))))" by simp
    from stored_row [OF inv this] r assms(1) show
      "resourceOk r \<and> rRT r = thRT h \<and> mVersion (rMeta r) \<noteq> [] \<and> travels r" by (auto simp: listable_def)
  qed
  from travel [OF rt this] obtain vs where
    enc: "list_all2 (\<lambda>r v. encodeListed (siDigest si) noProjection r = Inr v) out vs"
    and dec: "list_all2 (\<lambda>v r. DecodeResource (thRT h) False v = Inr r) (map jsonText vs) (map published out)"
    by blast
  have "distinct (map (\<lambda>r. aget (rAttrs (published r)) ''id'') out)"
    by (rule selects_distinct [OF assms(4) rows_ids [OF inv]])
  then have "distinct (map (\<lambda>r. aget (rAttrs r) ''id'') (map published out))" by (simp add: comp_def)
  then have dist: "distinct (map published out)" by (metis distinct_map)
  have "0 < n" "inInt64 n" using assms(1) by (auto simp: n_def clientPageSize_def listable_def inInt64_def)
  with assms(1,4) enc decodes_distinct [OF dec dist] proj
  have listed: "listed si token c h q n s (map jsonText vs) (i, s)"
    unfolding listed_def listable_def by (intro conjI) (simp_all, blast)
  have start: "1 \<le> start" "inInt64 start"
    using assms(1) by (auto simp: start_def listable_def inInt64_def)
  from served.walk_consumes [OF listed start, of None yield acc] obtain w' where
    w': "listed si token c h q n s (map jsonText vs) w'"
    and walk: "walk c (siteNet si token) (thRT h) q yield start n None acc (i, s) =
      (case turned (consume (thRT h) yield (fromIndex (map jsonText vs) start) acc) of (a, e) \<Rightarrow> Some (a, e, w'))"
    by (auto simp: served.sensible_def)
  have "list_all2 (\<lambda>v r. DecodeResource (thRT h) False v = Inr r) (fromIndex (map jsonText vs) start)
      (fromIndex (map published out) start)"
    using dec unfolding fromIndex_def by (rule list_all2_dropI)
  note fed = consume_feed [OF this, of yield acc]
  have "w' = (fst w', s)" using w' by (cases w') (simp add: listed_def)
  moreover have "fromIndex (map published out) start = map published (fromIndex out start)"
    by (simp add: fromIndex_def drop_map)
  ultimately show ?thesis
    using walk fed assms(5)
    by (intro exI [of _ "fst w'"]) (simp add: svcList_def resourceType_def n_def [symmetric] start_def [symmetric])
qed

end
