(* ===== verification/Site_Properties.thy ===== *)
theory Site_Properties
  imports Client_Answers Client_Properties
begin

text \<open>
  The properties of the client at the other end of a server of this library.
\<close>

subsection \<open>Lists\<close>

text \<open>A site with the badges of the samples, and a client that talks to it.\<close>

definition badgeServer :: "memstore server" where
  "badgeServer = \<lparr>svConfig = liveConfig, svTypes = [liveHandler], svDiscovery = newDiscovery liveConfig\<rparr>"

lemma badgeServer_new: "newServer badgeConfig = Inr badgeServer"
  using badge_registrable
  by (simp add: newServer_def badgeConfig_valid badgeServer_def)
    (simp add: liveHandler_def newTypeHandler_def liveConfig_def badgeConfig_def List.map_filter_simps)

definition badgeSite :: "memstore site" where
  "badgeSite =
     \<lparr>siServer = badgeServer, siDigest = sampleDigest, siMount = [''scim''], siSize = (\<lambda>_. 20),
      siMedia = ContentType, siEnv = (\<lambda>_. sampleEnv), siOthers = (\<lambda>_ _ s. s)\<rparr>"

definition badgeClient :: client where
  "badgeClient = newClient [''scim''] [WithRetry noJitter]"

lemma badgeClient_sel [simp]:
  "clRetry badgeClient = noJitter" "clBase badgeClient = [''scim'']" "clSearch badgeClient = False"
  "clPatchFallback badgeClient = True"
  by (simp_all add: badgeClient_def) (simp_all add: newClient_def applyOption_def defaultConfig_def Let_def)

lemma badgeSite_ready: "siteReady badgeSite (Some ''t'') badgeClient"
proof -
  have "wired badgeServer" using newServer_wired [OF badgeServer_new] by blast
  moreover have "cfgAuth (svConfig badgeServer) = None"
    by (simp add: badgeServer_def liveConfig_def badgeConfig_def)
  moreover have "plainSegment ''scim''" by (simp add: plainSegment_def)
  ultimately show ?thesis
    by (auto simp: siteReady_def badgeSite_def admits_def shouldRetry_def inRetryStatus_def)
qed

lemma liveHandler_sel [simp]:
  "thRT liveHandler = badgeType" "thStore liveHandler = memStore" "thConfig liveHandler = liveConfig"
  by (simp_all add: liveHandler_def)

lemma badge_mounted: "mountedAt badgeSite liveHandler ''Badges''"
  by (simp add: mountedAt_def badgeSite_def badgeServer_def plainSegment_def) (simp add: badgeType_def)

lemma badge_wire: "wireType badgeType"
  by code_simp

definition badgeStores :: "string \<Rightarrow> memstore" where
  "badgeStores = (\<lambda>_. twoBadges)"

definition badgeSession :: "memstore world session" where
  "badgeSession = \<lparr>ssCaps = None, ssTypes = [], ssWorld = (0, badgeStores)\<rparr>"

lemma badge_rows: "rowsOf badgeStores liveHandler = [stamped 1 badge1, stamped 1 badge2]"
  unfolding badgeStores_def by code_simp

lemma badges_travel: "travels (stamped 1 badge1)" "travels (stamped 1 badge2)"
proof -
  have "wireStable (stamped 1 badge1) \<and> (case EncodeResource (stamped 1 badge1) noProjection of Inr _ \<Rightarrow> True | _ \<Rightarrow> False)"
    "wireStable (stamped 1 badge2) \<and> (case EncodeResource (stamped 1 badge2) noProjection of Inr _ \<Rightarrow> True | _ \<Rightarrow> False)"
    by code_simp+
  then show "travels (stamped 1 badge1)" "travels (stamped 1 badge2)"
    by (auto simp: travels_def split: sum.splits)
qed

lemma badge_listable:
  assumes "queryReady badgeType q" "inInt64 (lqStartIndex q)" "inInt64 (lqCount q)"
  shows "listable badgeSite (Some ''t'') badgeClient liveHandler q badgeStores"
proof -
  have size: "cfgMaxBodyBytes liveConfig = 1048576" "cfgMaxPageSize liveConfig = 200"
    by (simp_all add: liveConfig_def)
  have rows: "length (memRows (badgeStores (rtEndpoint badgeType))) = 2"
    using arg_cong [OF badge_rows, of length] by simp
  have inv: "memInvar badgeType (badgeStores (rtEndpoint badgeType))"
    by (simp add: badgeStores_def twoBadges_invar)
  show ?thesis
    unfolding listable_def badge_rows
    using badgeSite_ready badge_mounted badge_wire badges_travel assms inv
    by (auto simp: size badgeSite_def)
qed

text \<open>C2. A list through a client is one pass over the selection. Whatever the page size the
  client asks for and the server allows, by GET or by POST to \<open>.search\<close>, the walk over the pages
  ends without an error, and the consumer has been given the resources of the store that match
  the filter, sorted, from the start index on, each as the document of it shows it, none twice
  and none left out, until it wanted no more. The stores are as they were.\<close>

theorem list_walks_the_selection:
  assumes "listable si token c h q s" "lqAttributes q = []" "lqExcluded q = []"
    and "matchAll (lqFilter q) (rowsOf s h) = Inr matched" "ssWorld ss = (i, s)"
  shows "\<exists>k. svcList c (siteNet si token) (StaticType (thRT h)) q yield acc ss =
    Some (feed yield (map published (drop (nat (max (lqStartIndex q) 1 - 1))
        (SortResources matched (thRT h) (lqSortBy q) (ascending q)))) acc, None, ss\<lparr>ssWorld := (k, s)\<rparr>)"
proof -
  have "selects (thRT h) q (rowsOf s h) (SortResources matched (thRT h) (lqSortBy q) (ascending q))"
    using assms(4) by (simp add: selects_def)
  from list_served [OF assms(1-3) this assms(5), of yield acc] show ?thesis by (simp add: fromIndex_def)
qed

text \<open>Two badges, by code in descending order, one to a page.\<close>

definition badgeQuery :: list_query where
  "badgeQuery =
     \<lparr>lqFilter = None, lqSortBy = Some (FPath [] ''code'' [] None), lqAscending = False, lqStartIndex = 0,
      lqCount = 1, lqAttributes = [], lqExcluded = [], lqSearch = True\<rparr>"

theorem list_walks_the_selection_witness:
  "\<exists>k. svcList badgeClient (siteNet badgeSite (Some ''t'')) (StaticType badgeType) badgeQuery collecting [] badgeSession =
     Some ([published (stamped 1 badge2), published (stamped 1 badge1)], None,
       badgeSession\<lparr>ssWorld := (k, badgeStores)\<rparr>) \<and>
   aget (rAttrs (published (stamped 1 badge2))) ''code'' = Some (VString ''C2'')"
proof -
  have path: "ParsePath False ''code'' = Inr (FPath [] ''code'' [] None)" by code_simp
  have attr: "resolveAttr badgeType (FPath [] ''code'' [] None) \<noteq> None" by code_simp
  have "queryReady badgeType badgeQuery"
    unfolding queryReady_def using path attr by (auto simp: badgeQuery_def plainNames_def)
  then have ok: "listable badgeSite (Some ''t'') badgeClient liveHandler badgeQuery badgeStores"
    by (rule badge_listable) (simp_all add: badgeQuery_def inInt64_def)
  have lists: "lqAttributes badgeQuery = []" "lqExcluded badgeQuery = []" by (simp_all add: badgeQuery_def)
  have all: "matchAll (lqFilter badgeQuery) (rowsOf badgeStores liveHandler) =
      Inr [stamped 1 badge1, stamped 1 badge2]"
    unfolding badge_rows by (simp add: badgeQuery_def)
  have sorted: "drop (nat (max (lqStartIndex badgeQuery) 1 - 1))
      (SortResources [stamped 1 badge1, stamped 1 badge2] badgeType (lqSortBy badgeQuery) (ascending badgeQuery)) =
      [stamped 1 badge2, stamped 1 badge1]"
    by code_simp
  have "aget (rAttrs (published (stamped 1 badge2))) ''code'' = Some (VString ''C2'')" by code_simp
  moreover have "ssWorld badgeSession = (0, badgeStores)" by (simp add: badgeSession_def)
  from list_walks_the_selection [OF ok lists all this, of collecting "[]"]
  have "\<exists>k. svcList badgeClient (siteNet badgeSite (Some ''t'')) (StaticType badgeType) badgeQuery collecting [] badgeSession =
     Some ([published (stamped 1 badge2), published (stamped 1 badge1)], None,
       badgeSession\<lparr>ssWorld := (k, badgeStores)\<rparr>)"
    by (simp only: liveHandler_sel sorted feed_collecting list.map append_Nil)
  ultimately show ?thesis by blast
qed

text \<open>C39. Lookup tells no resource, one and several apart: with no match it finds nothing, with
  one it returns it as its document shows it, and with more it fails as ambiguous.\<close>

theorem lookup_finds_the_one:
  assumes "listable si token c h (lookupQuery f) s"
    and "matchAll f (rowsOf s h) = Inr matched" "ssWorld ss = (i, s)"
  shows "\<exists>k. svcLookup c (siteNet si token) (StaticType (thRT h)) f ss =
    Some (case matched of [] \<Rightarrow> Inr None | [r] \<Rightarrow> Inr (Some (published r)) | _ \<Rightarrow> Inl Ambiguous,
      ss\<lparr>ssWorld := (k, s)\<rparr>)"
proof -
  define q where "q = lookupQuery f"
  have q: "lqFilter q = f" "lqSortBy q = None" "lqAttributes q = []" "lqExcluded q = []" "lqStartIndex q = 0"
    by (simp_all add: q_def lookupQuery_def)
  have sel: "selects (thRT h) q (rowsOf s h) matched"
    using assms(2) q by (simp add: selects_def SortResources_def)
  obtain k where k: "svcList c (siteNet si token) (StaticType (thRT h)) q lookupYield (None, False) ss =
      Some (feed lookupYield (map published matched) (None, False), None, ss\<lparr>ssWorld := (k, s)\<rparr>)"
    using list_served [OF assms(1) [folded q_def] q(3,4) sel assms(3), of lookupYield "(None, False)"] q(5)
    by (auto simp: fromIndex_def)
  then show ?thesis
    by (intro exI [of _ k])
      (auto simp: svcLookup_def q_def [symmetric] lookupYield_def split: list.split)
qed

theorem lookup_finds_the_one_witness:
  "\<exists>k. svcLookup badgeClient (siteNet badgeSite (Some ''t'')) (StaticType badgeType)
      (Some (Compare (FPath [] ''code'' [] None) OpEqual (LString ''C1''))) badgeSession =
    Some (Inr (Some (published (stamped 1 badge1))), badgeSession\<lparr>ssWorld := (k, badgeStores)\<rparr>)"
proof -
  let ?f = "Some (Compare (FPath [] ''code'' [] None) OpEqual (LString ''C1''))"
  have "ParseFilter False ''code eq \"C1\"'' = Inr (the ?f)" by code_simp
  then have "queryReady badgeType (lookupQuery ?f)"
    by (auto simp: queryReady_def lookupQuery_def plainNames_def)
  then have ok: "listable badgeSite (Some ''t'') badgeClient liveHandler (lookupQuery ?f) badgeStores"
    by (rule badge_listable) (simp_all add: lookupQuery_def inInt64_def)
  have one: "matchAll ?f (rowsOf badgeStores liveHandler) = Inr [stamped 1 badge1]"
    unfolding badge_rows by code_simp
  have "ssWorld badgeSession = (0, badgeStores)" by (simp add: badgeSession_def)
  from lookup_finds_the_one [OF ok one this] show ?thesis by simp
qed

end
