(* ===== verification/Scim_Views.thy ===== *)
theory Scim_Views
  imports Scim_Builtin
begin

text \<open>
  \<open>scim/user.go\<close>, \<open>group.go\<close> and \<open>enterprise.go\<close>: the typed views of the built-in types. A view is
  a record; the zero value of a field means unassigned, a pointer is an option, bytes are a
  string. \<open>VNil\<close> is the nil of an \<open>any\<close>. The second half shows what a view keeps on its way
  through a resource.
\<close>

subsection \<open>Views\<close>

record multi_view =
  mvValue :: string
  mvDisplay :: string
  mvType :: string
  mvPrimary :: bool

record name_view =
  nmFormatted :: string
  nmFamilyName :: string
  nmGivenName :: string
  nmMiddleName :: string
  nmPrefix :: string
  nmSuffix :: string

record address_view =
  adFormatted :: string
  adStreetAddress :: string
  adLocality :: string
  adRegion :: string
  adPostalCode :: string
  adCountry :: string
  adType :: string

record group_ref =
  grValue :: string
  grRef :: string
  grDisplay :: string
  grType :: string

record certificate =
  ctValue :: string
  ctDisplay :: string
  ctType :: string
  ctPrimary :: bool

record manager_view =
  mgValue :: string
  mgRef :: string
  mgDisplayName :: string

record enterprise_user =
  euEmployeeNumber :: string
  euCostCenter :: string
  euOrganization :: string
  euDivision :: string
  euDepartment :: string
  euManager :: "manager_view option"

record user_view =
  usID :: string
  usExternalID :: string
  usMeta :: meta_info
  usUserName :: string
  usName :: "name_view option"
  usDisplayName :: string
  usNickName :: string
  usProfileURL :: string
  usTitle :: string
  usUserType :: string
  usPreferredLanguage :: string
  usLocale :: string
  usTimezone :: string
  usActive :: "bool option"
  usPassword :: string
  usEmails :: "multi_view list"
  usPhoneNumbers :: "multi_view list"
  usIMs :: "multi_view list"
  usPhotos :: "multi_view list"
  usAddresses :: "address_view list"
  usGroups :: "group_ref list"
  usEntitlements :: "multi_view list"
  usRoles :: "multi_view list"
  usCertificates :: "certificate list"
  usEnterprise :: "enterprise_user option"

record member_view =
  mbValue :: string
  mbRef :: string
  mbType :: string

record group_view =
  gpID :: string
  gpExternalID :: string
  gpMeta :: meta_info
  gpDisplayName :: string
  gpMembers :: "member_view list"

subsection \<open>From views to values\<close>

definition stringValue :: "string \<Rightarrow> gval" where
  "stringValue s = (if s = [] then VNil else VString s)"

definition boolPointerValue :: "bool option \<Rightarrow> gval" where
  "boolPointerValue b = (case b of None \<Rightarrow> VNil | Some b \<Rightarrow> VBool b)"

definition putString :: "string \<Rightarrow> string \<Rightarrow> cval \<Rightarrow> cval" where
  "putString key s cv = (if s = [] then cv else aput key (VString s) cv)"

definition putPrimary :: "bool \<Rightarrow> cval \<Rightarrow> cval" where
  "putPrimary b cv = (if b then aput ''primary'' (VBool True) cv else cv)"

definition complexValue :: "name_view option \<Rightarrow> gval" where
  "complexValue name =
     (case name of
        None \<Rightarrow> VNil
      | Some n \<Rightarrow>
          (let cv = putString ''honorificsuffix'' (nmSuffix n) (putString ''honorificprefix'' (nmPrefix n)
             (putString ''middlename'' (nmMiddleName n) (putString ''givenname'' (nmGivenName n)
             (putString ''familyname'' (nmFamilyName n) (putString ''formatted'' (nmFormatted n) [])))))
           in if cv = [] then VNil else VComplex cv))"

definition elementsOf :: "('a \<Rightarrow> cval) \<Rightarrow> 'a list \<Rightarrow> gval" where
  "elementsOf f vals = (if vals = [] then VNil else VMulti (map f vals))"

definition multiElement :: "multi_view \<Rightarrow> cval" where
  "multiElement v =
     putPrimary (mvPrimary v) (putString ''type'' (mvType v) (putString ''display'' (mvDisplay v)
       (putString ''value'' (mvValue v) [])))"

definition multiValueElements :: "multi_view list \<Rightarrow> gval" where
  "multiValueElements = elementsOf multiElement"

definition addressElement :: "address_view \<Rightarrow> cval" where
  "addressElement a =
     putString ''type'' (adType a) (putString ''country'' (adCountry a) (putString ''postalcode'' (adPostalCode a)
       (putString ''region'' (adRegion a) (putString ''locality'' (adLocality a)
       (putString ''streetaddress'' (adStreetAddress a) (putString ''formatted'' (adFormatted a) []))))))"

definition addressElements :: "address_view list \<Rightarrow> gval" where
  "addressElements = elementsOf addressElement"

definition groupRefElement :: "group_ref \<Rightarrow> cval" where
  "groupRefElement g =
     putString ''type'' (grType g) (putString ''display'' (grDisplay g) (putString ''$ref'' (grRef g)
       (putString ''value'' (grValue g) [])))"

definition groupRefElements :: "group_ref list \<Rightarrow> gval" where
  "groupRefElements = elementsOf groupRefElement"

definition certificateElement :: "certificate \<Rightarrow> cval" where
  "certificateElement c =
     putPrimary (ctPrimary c) (putString ''type'' (ctType c) (putString ''display'' (ctDisplay c)
       (if ctValue c = [] then [] else [(''value'', VBytes (ctValue c))])))"

definition certificateElements :: "certificate list \<Rightarrow> gval" where
  "certificateElements = elementsOf certificateElement"

definition managerValue :: "manager_view \<Rightarrow> cval" where
  "managerValue m =
     putString ''displayname'' (mgDisplayName m) (putString ''$ref'' (mgRef m)
       (putString ''value'' (mgValue m) []))"

definition containerValue :: "enterprise_user option \<Rightarrow> gval" where
  "containerValue eu =
     (case eu of
        None \<Rightarrow> VNil
      | Some e \<Rightarrow>
          (let c = putString ''department'' (euDepartment e) (putString ''division'' (euDivision e)
                 (putString ''organization'' (euOrganization e) (putString ''costcenter'' (euCostCenter e)
                 (putString ''employeenumber'' (euEmployeeNumber e) []))));
               c = (case euManager e of
                      None \<Rightarrow> c
                    | Some m \<Rightarrow> if managerValue m = [] then c else aput ''manager'' (VComplex (managerValue m)) c)
           in if c = [] then VNil else VMap c))"

definition memberElement :: "member_view \<Rightarrow> cval" where
  "memberElement m =
     putString ''type'' (mbType m) (putString ''$ref'' (mbRef m) (putString ''value'' (mbValue m) []))"

definition memberElements :: "member_view list \<Rightarrow> gval" where
  "memberElements = elementsOf memberElement"

subsection \<open>From views to resources\<close>

definition setField :: "string \<times> gval \<Rightarrow> resource \<Rightarrow> (scim_error, resource) res" where
  "setField f r = (if snd f = VNil then Inr r else Set r (fst f) (snd f))"

definition SchemaUser :: string where "SchemaUser = ''urn:ietf:params:scim:schemas:core:2.0:User''"
definition SchemaGroup :: string where "SchemaGroup = ''urn:ietf:params:scim:schemas:core:2.0:Group''"
definition SchemaEnterpriseUser :: string where
  "SchemaEnterpriseUser = ''urn:ietf:params:scim:schemas:extension:enterprise:2.0:User''"

definition userFields :: "user_view \<Rightarrow> (string \<times> gval) list" where
  "userFields u =
     [(''id'', stringValue (usID u)), (''externalId'', stringValue (usExternalID u)),
      (''userName'', stringValue (usUserName u)), (''name'', complexValue (usName u)),
      (''displayName'', stringValue (usDisplayName u)), (''nickName'', stringValue (usNickName u)),
      (''profileUrl'', stringValue (usProfileURL u)), (''title'', stringValue (usTitle u)),
      (''userType'', stringValue (usUserType u)),
      (''preferredLanguage'', stringValue (usPreferredLanguage u)), (''locale'', stringValue (usLocale u)),
      (''timezone'', stringValue (usTimezone u)), (''active'', boolPointerValue (usActive u)),
      (''password'', stringValue (usPassword u)), (''emails'', multiValueElements (usEmails u)),
      (''phoneNumbers'', multiValueElements (usPhoneNumbers u)), (''ims'', multiValueElements (usIMs u)),
      (''photos'', multiValueElements (usPhotos u)), (''addresses'', addressElements (usAddresses u)),
      (''groups'', groupRefElements (usGroups u)),
      (''entitlements'', multiValueElements (usEntitlements u)), (''roles'', multiValueElements (usRoles u)),
      (''x509Certificates'', certificateElements (usCertificates u)),
      (SchemaEnterpriseUser, containerValue (usEnterprise u))]"

definition UserResource :: "user_view \<Rightarrow> (scim_error, resource) res" where
  "UserResource u = rfold setField (userFields u) (SetMeta (usMeta u) (NewResource UserResourceType))"

definition groupFields :: "group_view \<Rightarrow> (string \<times> gval) list" where
  "groupFields g =
     [(''id'', stringValue (gpID g)), (''externalId'', stringValue (gpExternalID g)),
      (''displayName'', stringValue (gpDisplayName g)), (''members'', memberElements (gpMembers g))]"

definition GroupResource :: "group_view \<Rightarrow> (scim_error, resource) res" where
  "GroupResource g = rfold setField (groupFields g) (SetMeta (gpMeta g) (NewResource GroupResourceType))"

subsection \<open>From resources to views\<close>

definition stringOf :: "gval \<Rightarrow> string" where
  "stringOf v = (case v of VString s \<Rightarrow> s | VRef s \<Rightarrow> s | _ \<Rightarrow> [])"

definition boolOf :: "gval \<Rightarrow> bool" where
  "boolOf v \<longleftrightarrow> v = VBool True"

definition getString :: "resource \<Rightarrow> string \<Rightarrow> string" where
  "getString r path = (case Get r path of None \<Rightarrow> [] | Some v \<Rightarrow> stringOf v)"

definition getBoolPointer :: "resource \<Rightarrow> string \<Rightarrow> bool option" where
  "getBoolPointer r path = (case Get r path of Some (VBool b) \<Rightarrow> Some b | _ \<Rightarrow> None)"

definition multiComplexAt :: "resource \<Rightarrow> string \<Rightarrow> cval list" where
  "multiComplexAt r path = (case Get r path of Some (VMulti cvs) \<Rightarrow> cvs | _ \<Rightarrow> [])"

text \<open>\<open>stringOf(cv[key])\<close> and \<open>boolOf(cv[key])\<close>; a missing key reads as nil.\<close>

definition strAt :: "cval \<Rightarrow> string \<Rightarrow> string" where
  "strAt cv key = stringOf (agetNil cv key)"

definition boolAt :: "cval \<Rightarrow> string \<Rightarrow> bool" where
  "boolAt cv key = boolOf (agetNil cv key)"

definition nameFromResource :: "resource \<Rightarrow> name_view option" where
  "nameFromResource r =
     (case Get r ''name'' of
        Some (VComplex cv) \<Rightarrow>
          Some \<lparr>nmFormatted = strAt cv ''formatted'', nmFamilyName = strAt cv ''familyname'',
            nmGivenName = strAt cv ''givenname'', nmMiddleName = strAt cv ''middlename'',
            nmPrefix = strAt cv ''honorificprefix'', nmSuffix = strAt cv ''honorificsuffix''\<rparr>
      | _ \<Rightarrow> None)"

definition multiView :: "cval \<Rightarrow> multi_view" where
  "multiView cv =
     \<lparr>mvValue = strAt cv ''value'', mvDisplay = strAt cv ''display'', mvType = strAt cv ''type'',
      mvPrimary = boolAt cv ''primary''\<rparr>"

definition multiValuesAt :: "resource \<Rightarrow> string \<Rightarrow> multi_view list" where
  "multiValuesAt r path = map multiView (multiComplexAt r path)"

definition addressView :: "cval \<Rightarrow> address_view" where
  "addressView cv =
     \<lparr>adFormatted = strAt cv ''formatted'', adStreetAddress = strAt cv ''streetaddress'',
      adLocality = strAt cv ''locality'', adRegion = strAt cv ''region'',
      adPostalCode = strAt cv ''postalcode'', adCountry = strAt cv ''country'', adType = strAt cv ''type''\<rparr>"

definition addressesAt :: "resource \<Rightarrow> address_view list" where
  "addressesAt r = map addressView (multiComplexAt r ''addresses'')"

definition groupRefView :: "cval \<Rightarrow> group_ref" where
  "groupRefView cv =
     \<lparr>grValue = strAt cv ''value'', grRef = strAt cv ''$ref'', grDisplay = strAt cv ''display'',
      grType = strAt cv ''type''\<rparr>"

definition groupRefsAt :: "resource \<Rightarrow> group_ref list" where
  "groupRefsAt r = map groupRefView (multiComplexAt r ''groups'')"

definition certificateView :: "cval \<Rightarrow> certificate" where
  "certificateView cv =
     \<lparr>ctValue = (case agetNil cv ''value'' of VBytes b \<Rightarrow> b | _ \<Rightarrow> []), ctDisplay = strAt cv ''display'',
      ctType = strAt cv ''type'', ctPrimary = boolAt cv ''primary''\<rparr>"

definition certificatesAt :: "resource \<Rightarrow> certificate list" where
  "certificatesAt r = map certificateView (multiComplexAt r ''x509Certificates'')"

definition managerView :: "cval \<Rightarrow> manager_view" where
  "managerView cv =
     \<lparr>mgValue = strAt cv ''value'', mgRef = strAt cv ''$ref'', mgDisplayName = strAt cv ''displayname''\<rparr>"

definition enterpriseFromResource :: "resource \<Rightarrow> enterprise_user option" where
  "enterpriseFromResource r =
     (case Get r SchemaEnterpriseUser of
        Some (VMap c) \<Rightarrow>
          Some \<lparr>euEmployeeNumber = strAt c ''employeenumber'', euCostCenter = strAt c ''costcenter'',
            euOrganization = strAt c ''organization'', euDivision = strAt c ''division'',
            euDepartment = strAt c ''department'',
            euManager = (case agetNil c ''manager'' of VComplex cv \<Rightarrow> Some (managerView cv) | _ \<Rightarrow> None)\<rparr>
      | _ \<Rightarrow> None)"

definition UserFromResource :: "resource \<Rightarrow> (go_error, user_view) res" where
  "UserFromResource r =
     (if foldName (schemaID (rtSchema (rRT r))) \<noteq> foldName SchemaUser then Inl OtherErr
      else Inr \<lparr>usID = getString r ''id'', usExternalID = getString r ''externalId'', usMeta = rMeta r,
        usUserName = getString r ''userName'', usName = nameFromResource r,
        usDisplayName = getString r ''displayName'', usNickName = getString r ''nickName'',
        usProfileURL = getString r ''profileUrl'', usTitle = getString r ''title'',
        usUserType = getString r ''userType'', usPreferredLanguage = getString r ''preferredLanguage'',
        usLocale = getString r ''locale'', usTimezone = getString r ''timezone'',
        usActive = getBoolPointer r ''active'', usPassword = getString r ''password'',
        usEmails = multiValuesAt r ''emails'', usPhoneNumbers = multiValuesAt r ''phoneNumbers'',
        usIMs = multiValuesAt r ''ims'', usPhotos = multiValuesAt r ''photos'', usAddresses = addressesAt r,
        usGroups = groupRefsAt r, usEntitlements = multiValuesAt r ''entitlements'',
        usRoles = multiValuesAt r ''roles'', usCertificates = certificatesAt r,
        usEnterprise = enterpriseFromResource r\<rparr>)"

definition memberView :: "cval \<Rightarrow> member_view" where
  "memberView cv = \<lparr>mbValue = strAt cv ''value'', mbRef = strAt cv ''$ref'', mbType = strAt cv ''type''\<rparr>"

definition membersAt :: "resource \<Rightarrow> member_view list" where
  "membersAt r = map memberView (multiComplexAt r ''members'')"

definition GroupFromResource :: "resource \<Rightarrow> (go_error, group_view) res" where
  "GroupFromResource r =
     (if foldName (schemaID (rtSchema (rRT r))) \<noteq> foldName SchemaGroup then Inl OtherErr
      else Inr \<lparr>gpID = getString r ''id'', gpExternalID = getString r ''externalId'', gpMeta = rMeta r,
        gpDisplayName = getString r ''displayName'', gpMembers = membersAt r\<rparr>)"

end
