(* ===== verification/View_Laws.thy ===== *)
theory View_Laws
  imports Scim_Views
begin

text \<open>
  What a typed view keeps on its way through a resource: writing the fields of a view one after
  the other and reading them back. The attributes of the built-in schemas enter as executable
  predicates (\<open>plainPath\<close>, \<open>textSub\<close> and the like).
\<close>

subsection \<open>Plain paths\<close>

text \<open>A path that names one whole attribute of the core schema or a common one.\<close>

definition plainPath :: "resource_type \<Rightarrow> string \<Rightarrow> bool" where
  "plainPath rt p \<longleftrightarrow>
     (case resolvePath rt p of
        Inl _ \<Rightarrow> False
      | Inr rp \<Rightarrow> rpUrn rp = [] \<and> rpSub rp = None \<and> foldName p \<notin> {attrSchemas, attrMeta} \<and>
          (case rpAttr rp of None \<Rightarrow> False | Some a \<Rightarrow> foldName (attrName a) = foldName p))"

definition attrAt :: "resource_type \<Rightarrow> string \<Rightarrow> attribute" where
  "attrAt rt p = the (rpAttr (projr (resolvePath rt p)))"

lemma plain_resolve:
  assumes "plainPath rt p"
  obtains b where "resolvePath rt p =
      Inr \<lparr>rpUrn = [], rpAttr = Some (attrAt rt p), rpSub = None, rpCommon = b\<rparr>"
    and "foldName (attrName (attrAt rt p)) = foldName p" "foldName p \<noteq> attrSchemas" "foldName p \<noteq> attrMeta"
proof -
  from assms obtain rp a where rp: "resolvePath rt p = Inr rp" "rpUrn rp = []" "rpSub rp = None"
    "rpAttr rp = Some a" "foldName (attrName a) = foldName p" "foldName p \<noteq> attrSchemas" "foldName p \<noteq> attrMeta"
    by (auto simp: plainPath_def split: sum.splits option.splits)
  then show thesis by (intro that [of "rpCommon rp"]) (simp_all add: attrAt_def)
qed

lemma Get_plain:
  assumes "plainPath (rRT r) p" shows "Get r p = aget (rAttrs r) (foldName p)"
  using assms
  by (rule plain_resolve)
    (auto simp: Get_def getResolved_def getCommon_def containerGet_simps Let_def)

lemma Set_plain:
  assumes "plainPath (rRT r) p" "Set r p v = Inr r'"
  shows "\<exists>cv. coerceValue (attrAt (rRT r) p) v = Inr cv \<and>
    r' = r\<lparr>rAttrs := (if cv = VNil then adel (foldName p) (rAttrs r) else aput (foldName p) cv (rAttrs r))\<rparr>"
proof -
  obtain b where rp: "resolvePath (rRT r) p =
      Inr \<lparr>rpUrn = [], rpAttr = Some (attrAt (rRT r) p), rpSub = None, rpCommon = b\<rparr>"
    and key: "foldName (attrName (attrAt (rRT r) p)) = foldName p" "foldName p \<noteq> attrSchemas" "foldName p \<noteq> attrMeta"
    using assms(1) by (rule plain_resolve)
  have "setResolved r \<lparr>rpUrn = [], rpAttr = Some (attrAt (rRT r) p), rpSub = None, rpCommon = b\<rparr> v =
      setInContainer (rAttrs r) (attrAt (rRT r) p) None v"
    using key by (cases b) (simp_all add: setResolved_def setCommon_def Let_def)
  with assms(2) have "rbind (setInContainer (rAttrs r) (attrAt (rRT r) p) None v) (\<lambda>m. Inr (r\<lparr>rAttrs := m\<rparr>)) = Inr r'"
    by (simp add: Set_def rp)
  then obtain m where m: "setInContainer (rAttrs r) (attrAt (rRT r) p) None v = Inr m" "r' = r\<lparr>rAttrs := m\<rparr>"
    by (auto simp: rbind_eq_Inr)
  from m(1) obtain cv where "coerceValue (attrAt (rRT r) p) v = Inr cv"
    "m = (if cv = VNil then adel (foldName p) (rAttrs r) else aput (foldName p) cv (rAttrs r))"
    unfolding setInContainer_def option.case Let_def key(1) rbind_eq_Inr map_err_eq_Inr by blast
  with m(2) show ?thesis by blast
qed

text \<open>The fields of a view, written one after the other, are read back coerced.\<close>

lemma setFields_read:
  assumes "rfold setField fs r = Inr r'" "list_all (\<lambda>f. plainPath (rRT r) (fst f)) fs"
    and "distinct (map (foldName \<circ> fst) fs)" "\<forall>f \<in> set fs. aget (rAttrs r) (foldName (fst f)) = None"
  shows "rRT r' = rRT r \<and> rMeta r' = rMeta r \<and>
    (\<forall>(p, v) \<in> set fs. \<exists>cv. coerceValue (attrAt (rRT r) p) v = Inr cv \<and> aget (rAttrs r') (foldName p) = assigned cv) \<and>
    (\<forall>k. k \<notin> (foldName \<circ> fst) ` set fs \<longrightarrow> aget (rAttrs r') k = aget (rAttrs r) k)"
  using assms
proof (induction fs arbitrary: r)
  case (Cons f fs)
  obtain p v where f: "f = (p, v)" by fastforce
  from Cons.prems(1) obtain r1 where r1: "setField f r = Inr r1" "rfold setField fs r1 = Inr r'"
    by (auto simp: rbind_eq_Inr)
  from Cons.prems(2) f have p: "plainPath (rRT r) p" by simp
  have new: "aget (rAttrs r) (foldName p) = None" using Cons.prems(4) f by simp
  obtain cv where cv: "coerceValue (attrAt (rRT r) p) v = Inr cv" "rRT r1 = rRT r" "rMeta r1 = rMeta r"
    "aget (rAttrs r1) (foldName p) = assigned cv"
    "\<And>k. k \<noteq> foldName p \<Longrightarrow> aget (rAttrs r1) k = aget (rAttrs r) k"
  proof (cases "v = VNil")
    case True
    then show thesis
      using r1(1) f new by (intro that [of VNil]) (auto simp: setField_def assigned_def coerceValue_def coerceValueWith_def)
  next
    case False
    with r1(1) f have "Set r p v = Inr r1" by (simp add: setField_def)
    from Set_plain [OF p this] obtain cv where "coerceValue (attrAt (rRT r) p) v = Inr cv"
      "r1 = r\<lparr>rAttrs := (if cv = VNil then adel (foldName p) (rAttrs r) else aput (foldName p) cv (rAttrs r))\<rparr>" by blast
    then show thesis by (intro that [of cv]) (auto simp: assigned_def)
  qed
  have fresh: "\<forall>g \<in> set fs. foldName (fst g) \<noteq> foldName p" using Cons.prems(3) f by force
  then have "\<forall>g \<in> set fs. aget (rAttrs r1) (foldName (fst g)) = None" using Cons.prems(4) cv(5) by simp
  with Cons.IH [OF r1(2)] Cons.prems(2,3) cv(2) have IH: "rRT r' = rRT r" "rMeta r' = rMeta r1"
    "\<forall>(p, v) \<in> set fs. \<exists>cv. coerceValue (attrAt (rRT r) p) v = Inr cv \<and> aget (rAttrs r') (foldName p) = assigned cv"
    "\<forall>k. k \<notin> (foldName \<circ> fst) ` set fs \<longrightarrow> aget (rAttrs r') k = aget (rAttrs r1) k" by auto
  have "foldName p \<notin> (foldName \<circ> fst) ` set fs" using fresh by force
  with IH(4) cv(4) have own: "aget (rAttrs r') (foldName p) = assigned cv" by simp
  have rest: "aget (rAttrs r') k = aget (rAttrs r) k" if "k \<notin> (foldName \<circ> fst) ` set (f # fs)" for k
    using that IH(4) cv(5) f by simp
  have all: "\<forall>(p, v) \<in> set (f # fs). \<exists>cv. coerceValue (attrAt (rRT r) p) v = Inr cv \<and>
      aget (rAttrs r') (foldName p) = assigned cv"
    using IH(3) cv(1) own f by simp
  show ?case using IH(1,2) cv(3) all rest by (intro conjI allI impI) simp_all
qed simp

text \<open>They are written if and only if every one of them is coerced.\<close>

lemma Set_plain_iff:
  assumes "plainPath (rRT r) p"
  shows "(\<exists>r'. Set r p v = Inr r') \<longleftrightarrow> (\<exists>cv. coerceValue (attrAt (rRT r) p) v = Inr cv)"
proof
  assume "\<exists>cv. coerceValue (attrAt (rRT r) p) v = Inr cv"
  then obtain cv where cv: "coerceOr400 (attrAt (rRT r) p) v = Inr cv"
    unfolding map_err_eq_Inr by blast
  obtain b where rp: "resolvePath (rRT r) p =
      Inr \<lparr>rpUrn = [], rpAttr = Some (attrAt (rRT r) p), rpSub = None, rpCommon = b\<rparr>"
    and key: "foldName (attrName (attrAt (rRT r) p)) = foldName p" "foldName p \<noteq> attrSchemas" "foldName p \<noteq> attrMeta"
    using assms by (rule plain_resolve)
  have "setResolved r \<lparr>rpUrn = [], rpAttr = Some (attrAt (rRT r) p), rpSub = None, rpCommon = b\<rparr> v =
      setInContainer (rAttrs r) (attrAt (rRT r) p) None v"
    using key by (cases b) (simp_all add: setResolved_def setCommon_def Let_def)
  then show "\<exists>r'. Set r p v = Inr r'" by (simp add: Set_def rp setInContainer_def cv Let_def)
qed (use Set_plain [OF assms] in blast)

lemma setField_type: "setField f r = Inr r' \<Longrightarrow> plainPath (rRT r) (fst f) \<Longrightarrow> rRT r' = rRT r"
  using Set_plain [of r "fst f" "snd f" r'] by (auto simp: setField_def split: if_splits)

lemma setFields_iff:
  assumes "list_all (\<lambda>f. plainPath (rRT r) (fst f)) fs"
  shows "(\<exists>r'. rfold setField fs r = Inr r') \<longleftrightarrow>
    list_all (\<lambda>(p, v). \<exists>cv. coerceValue (attrAt (rRT r) p) v = Inr cv) fs"
  using assms
proof (induction fs arbitrary: r)
  case (Cons f fs)
  then have f: "plainPath (rRT r) (fst f)" by simp
  have one: "(\<exists>r1. setField f r = Inr r1) \<longleftrightarrow> (\<exists>cv. coerceValue (attrAt (rRT r) (fst f)) (snd f) = Inr cv)"
    using Set_plain_iff [OF f] by (simp add: setField_def coerceValue_def coerceValueWith_def)
  show ?case
  proof (cases "setField f r")
    case (Inl e)
    with one show ?thesis by (simp add: split_beta)
  next
    case (Inr r1)
    then have "rRT r1 = rRT r" using setField_type f by blast
    with Cons.IH [of r1] Cons.prems Inr one show ?thesis by (simp add: split_beta)
  qed
qed simp

subsection \<open>Single values\<close>

definition textAttr :: "attribute \<Rightarrow> bool" where
  "textAttr a \<longleftrightarrow> (attrType a = TypeString \<or> attrType a = TypeReference) \<and> \<not> multiValued a"

lemma coerce_text:
  assumes "textAttr a"
  shows "\<exists>w. coerceValueWith f a (VString s) = Inr w \<and> w \<noteq> VNil \<and> stringOf w = s"
  using assms
  by (auto simp: textAttr_def coerceValueWith_def coerceSingleWith_def isStoredScalar_def coerceReference_def
      stringOf_def)

definition textOf :: "gval option \<Rightarrow> string" where
  "textOf v = (case v of None \<Rightarrow> [] | Some v \<Rightarrow> stringOf v)"

lemma text_read: "textAttr a \<Longrightarrow> coerceValue a (stringValue s) = Inr cv \<Longrightarrow> textOf (assigned cv) = s"
  using coerce_text [of a coerceComplex s]
  by (auto simp: stringValue_def assigned_def textOf_def coerceValue_def split: if_splits)
    (simp add: coerceValueWith_def)

lemma bool_read:
  "attrType a = TypeBoolean \<Longrightarrow> \<not> multiValued a \<Longrightarrow> coerceValue a (boolPointerValue b) = Inr cv \<Longrightarrow>
     (case assigned cv of Some (VBool b) \<Rightarrow> Some b | _ \<Rightarrow> None) = b"
  by (auto simp: boolPointerValue_def assigned_def coerceValue_def coerceValueWith_def coerceSingleWith_def
      isStoredScalar_def split: option.splits)

subsection \<open>Complex values\<close>

text \<open>A value the sub-attribute of the key takes.\<close>

definition known :: "attribute \<Rightarrow> string \<Rightarrow> gval \<Rightarrow> bool" where
  "known a k v \<longleftrightarrow>
     (case findAttribute (subAttributes a) k of
        None \<Rightarrow> False
      | Some sub \<Rightarrow> attrType sub \<noteq> TypeComplex \<and> foldName (attrName sub) = k \<and> v \<noteq> VNil \<and>
          (\<exists>w. coerceSub sub v = Inr w \<and> w \<noteq> VNil))"

definition convAt :: "attribute \<Rightarrow> string \<Rightarrow> gval \<Rightarrow> gval" where
  "convAt a k v = projr (coerceSub (the (findAttribute (subAttributes a) k)) v)"

definition conv :: "attribute \<Rightarrow> cval \<Rightarrow> cval" where
  "conv a cv = map (\<lambda>(k, v). (k, convAt a k v)) cv"

definition elementOk :: "attribute \<Rightarrow> cval \<Rightarrow> bool" where
  "elementOk a cv \<longleftrightarrow> distinct_keys cv \<and> list_all (\<lambda>(k, v). known a k v) cv"

lemma conv_Nil [simp]: "conv a cv = [] \<longleftrightarrow> cv = []"
  by (simp add: conv_def)

lemma aput_new: "k \<notin> fst ` set m \<Longrightarrow> aput k v m = m @ [(k, v)]"
  by (induction m) auto

lemma view_complex_loop:
  assumes "list_all (\<lambda>(k, v). known a k v) cv" "distinct (map fst cv)" "fst ` set out \<inter> fst ` set cv = {}"
  shows "rfold (complexStep a) cv out = Inr (out @ conv a cv)"
  using assms
proof (induction cv arbitrary: out)
  case (Cons x cv)
  obtain k v where x: "x = (k, v)" by fastforce
  from Cons.prems x have new: "k \<notin> fst ` set out" "known a k v" by auto
  then have "complexStep a (k, v) out = Inr (out @ [(k, convAt a k v)])"
    by (auto simp: complexStep_def known_def convAt_def aput_new split: option.splits)
  moreover have "rfold (complexStep a) cv (out @ [(k, convAt a k v)]) = Inr ((out @ [(k, convAt a k v)]) @ conv a cv)"
    using Cons.prems x by (intro Cons.IH) auto
  ultimately show ?case by (simp add: x conv_def)
qed (simp add: conv_def)

lemma complex_known:
  "elementOk a cv \<Longrightarrow> coerceComplex a (VComplex cv) = Inr (if cv = [] then VNil else VComplex (conv a cv))"
  using view_complex_loop [of a cv "[]"] by (simp add: coerceComplex_def elementOk_def distinct_keys_def)

lemma single_read:
  assumes "attrType a = TypeComplex" "\<not> multiValued a" "elementOk a cv" "cv \<noteq> []"
  shows "coerceValue a (VComplex cv) = Inr (VComplex (conv a cv))"
  using assms complex_known [of a cv]
  by (simp add: coerceValue_def coerceValueWith_def coerceSingleWith_def isStoredScalar_def)

text \<open>The elements a multi-valued complex attribute makes of those of a view, and how many of them
  are primary.\<close>

definition keptElems :: "attribute \<Rightarrow> ('a \<Rightarrow> cval) \<Rightarrow> 'a list \<Rightarrow> cval list" where
  "keptElems a f xs = map (conv a \<circ> f) (filter (\<lambda>x. f x \<noteq> []) xs)"

lemma view_multi_loop:
  assumes "list_all (\<lambda>x. elementOk a (f x)) xs"
  shows "rfold (multiComplexStep coerceComplex a) (map (VComplex \<circ> f) xs) (out, n) =
    Inr (out @ keptElems a f xs, n + length (filter primaryTrue (keptElems a f xs)))"
  using assms
proof (induction xs arbitrary: out n)
  case (Cons x xs)
  then have "multiComplexStep coerceComplex a (VComplex (f x)) (out, n) =
      Inr (out @ keptElems a f [x], n + length (filter primaryTrue (keptElems a f [x])))"
    by (simp add: multiComplexStep_def complex_known keptElems_def)
  moreover have "keptElems a f (x # xs) = keptElems a f [x] @ keptElems a f xs" by (simp add: keptElems_def)
  ultimately show ?case using Cons by simp
qed (simp add: keptElems_def)

lemma multi_coerces:
  assumes "attrType a = TypeComplex" "multiValued a" "list_all (\<lambda>x. elementOk a (f x)) xs"
  shows "coerceValue a (elementsOf f xs) =
    (if 1 < length (filter primaryTrue (keptElems a f xs)) then Inl ManyPrimaries
     else Inr (if keptElems a f xs = [] then VNil else VMulti (keptElems a f xs)))"
  using view_multi_loop [OF assms(3), of "[]" 0] assms(1,2)
  by (cases "xs = []")
    (simp_all add: elementsOf_def coerceValue_def coerceValueWith_def coerceMultiWith_def multiItems_def
      coerceMultiComplex_def comp_def keptElems_def)

lemma multi_read:
  assumes "attrType a = TypeComplex" "multiValued a" "list_all (\<lambda>x. elementOk a (f x)) xs"
    and "coerceValue a (elementsOf f xs) = Inr w"
  shows "(case assigned w of Some (VMulti cvs) \<Rightarrow> cvs | _ \<Rightarrow> []) = keptElems a f xs"
  using assms(4) unfolding multi_coerces [OF assms(1-3)]
  by (auto simp: assigned_def split: if_splits)

text \<open>The elements of the views are built by \<open>putString\<close> and \<open>putPrimary\<close>.\<close>

definition textSub :: "attribute \<Rightarrow> string \<Rightarrow> bool" where
  "textSub a k \<longleftrightarrow>
     (case findAttribute (subAttributes a) k of
        None \<Rightarrow> False | Some sub \<Rightarrow> textAttr sub \<and> foldName (attrName sub) = k)"

definition boolSub :: "attribute \<Rightarrow> string \<Rightarrow> bool" where
  "boolSub a k \<longleftrightarrow>
     (case findAttribute (subAttributes a) k of
        None \<Rightarrow> False
      | Some sub \<Rightarrow> attrType sub = TypeBoolean \<and> \<not> multiValued sub \<and> foldName (attrName sub) = k)"

lemma known_text:
  assumes "textSub a k" shows "known a k (VString s) \<and> stringOf (convAt a k (VString s)) = s \<and>
    (\<forall>b. convAt a k (VString s) \<noteq> VBytes b)"
proof -
  from assms obtain sub where sub: "findAttribute (subAttributes a) k = Some sub" "textAttr sub"
    "foldName (attrName sub) = k" by (auto simp: textSub_def split: option.splits)
  with coerce_text [OF sub(2), of "\<lambda>_ _. Inl ComplexInComplex" s] show ?thesis
    by (auto simp: known_def convAt_def coerceSub_def textAttr_def coerceValueWith_def coerceSingleWith_def
        isStoredScalar_def coerceReference_def)
qed

lemma known_bool: "boolSub a k \<Longrightarrow> known a k (VBool b) \<and> convAt a k (VBool b) = VBool b"
  by (auto simp: boolSub_def known_def convAt_def coerceSub_def coerceValueWith_def coerceSingleWith_def
      isStoredScalar_def split: option.splits)

lemma elementOk_Nil [simp]: "elementOk a []"
  by (simp add: elementOk_def)

lemma elementOk_aput: "elementOk a cv \<Longrightarrow> known a k v \<Longrightarrow> elementOk a (aput k v cv)"
  using set_aput_subset [of k v cv] by (auto simp: elementOk_def list_all_iff)

lemma elementOk_put [simp]:
  "elementOk a cv \<Longrightarrow> textSub a k \<Longrightarrow> elementOk a (putString k s cv)"
  "elementOk a cv \<Longrightarrow> boolSub a ''primary'' \<Longrightarrow> elementOk a (putPrimary b cv)"
  by (simp_all add: putString_def putPrimary_def elementOk_aput known_text known_bool)

lemma agetNil_conv: "agetNil (conv a cv) k = (case aget cv k of None \<Rightarrow> VNil | Some v \<Rightarrow> convAt a k v)"
  by (induction cv) (auto simp: conv_def agetNil_def)

lemma read_put:
  "textSub a k \<Longrightarrow> strAt (conv a (putString k s cv)) k' =
     (if k' = k \<and> s \<noteq> [] then s else strAt (conv a cv) k')"
  "k' \<noteq> k \<Longrightarrow> boolAt (conv a (putString k s cv)) k' = boolAt (conv a cv) k'"
  "k' \<noteq> k \<Longrightarrow> agetNil (conv a (putString k s cv)) k' = agetNil (conv a cv) k'"
  "k' \<noteq> ''primary'' \<Longrightarrow> strAt (conv a (putPrimary b cv)) k' = strAt (conv a cv) k'"
  "k' \<noteq> ''primary'' \<Longrightarrow> agetNil (conv a (putPrimary b cv)) k' = agetNil (conv a cv) k'"
  "boolSub a ''primary'' \<Longrightarrow> boolAt (conv a (putPrimary b cv)) ''primary'' = (b \<or> boolAt (conv a cv) ''primary'')"
  "strAt (conv a []) k' = []" "boolAt (conv a []) k' = False" "agetNil (conv a []) k' = VNil"
  by (simp_all add: strAt_def boolAt_def agetNil_conv putString_def putPrimary_def known_text known_bool boolOf_def)
    (simp_all add: stringOf_def)

end
