(* ===== verification/View_Elements.thy ===== *)
theory View_Elements
  imports View_Laws
begin

text \<open>
  What becomes of the parts of a view on its way through a resource: the elements of the
  multi-valued attributes, the single values, the name and the enterprise extension. Each is taken
  by its attribute and read back as it was.
\<close>

subsection \<open>Elements\<close>

lemma multi_element:
  assumes "list_all (textSub a) [''value'', ''display'', ''type'']" "boolSub a ''primary''"
  shows "elementOk a (multiElement v) \<and> multiView (conv a (multiElement v)) = v"
  using assms by (simp add: multiElement_def multiView_def read_put)

lemma address_element:
  assumes "list_all (textSub a)
    [''formatted'', ''streetaddress'', ''locality'', ''region'', ''postalcode'', ''country'', ''type'']"
  shows "elementOk a (addressElement v) \<and> addressView (conv a (addressElement v)) = v"
  using assms by (simp add: addressElement_def addressView_def read_put)

lemma group_ref_element:
  assumes "list_all (textSub a) [''value'', ''$ref'', ''display'', ''type'']"
  shows "elementOk a (groupRefElement v) \<and> groupRefView (conv a (groupRefElement v)) = v"
  using assms by (simp add: groupRefElement_def groupRefView_def read_put)

lemma member_element:
  assumes "list_all (textSub a) [''value'', ''$ref'', ''type'']"
  shows "elementOk a (memberElement v) \<and> memberView (conv a (memberElement v)) = v"
  using assms by (simp add: memberElement_def memberView_def read_put)

lemma manager_element:
  assumes "list_all (textSub a) [''value'', ''$ref'', ''displayname'']"
  shows "elementOk a (managerValue v) \<and> managerView (conv a (managerValue v)) = v"
  using assms by (simp add: managerValue_def managerView_def read_put)

definition bytesSub :: "attribute \<Rightarrow> string \<Rightarrow> bool" where
  "bytesSub a k \<longleftrightarrow>
     (case findAttribute (subAttributes a) k of
        None \<Rightarrow> False
      | Some sub \<Rightarrow> attrType sub = TypeBinary \<and> \<not> multiValued sub \<and> foldName (attrName sub) = k)"

lemma known_bytes: "bytesSub a k \<Longrightarrow> known a k (VBytes b) \<and> convAt a k (VBytes b) = VBytes b"
  by (auto simp: bytesSub_def known_def convAt_def coerceSub_def coerceValueWith_def coerceSingleWith_def
      isStoredScalar_def coerceBinary_def split: option.splits)

lemma certificate_element:
  assumes "list_all (textSub a) [''display'', ''type'']" "boolSub a ''primary''" "bytesSub a ''value''"
  shows "elementOk a (certificateElement v) \<and> certificateView (conv a (certificateElement v)) = v"
proof -
  define start where "start = (if ctValue v = [] then [] else [(''value'', VBytes (ctValue v))])"
  have "elementOk a start" using known_bytes [OF assms(3)] by (simp add: start_def elementOk_def distinct_keys_def)
  moreover have "agetNil (conv a start) ''value'' = (if ctValue v = [] then VNil else VBytes (ctValue v))"
    "strAt (conv a start) ''display'' = []" "strAt (conv a start) ''type'' = []" "\<not> boolAt (conv a start) ''primary''"
    using known_bytes [OF assms(3)]
    by (simp_all add: start_def agetNil_conv strAt_def boolAt_def boolOf_def stringOf_def)
  ultimately show ?thesis
    using assms by (simp add: certificateElement_def certificateView_def start_def [symmetric] read_put)
qed

text \<open>Which elements are primary.\<close>

lemma element_primary:
  "list_all (textSub a) [''value'', ''display'', ''type''] \<Longrightarrow> boolSub a ''primary'' \<Longrightarrow>
     boolAt (conv a (multiElement v)) ''primary'' = mvPrimary v"
  using multi_element [of a v] by (metis multi_view.select_convs(4) multiView_def)

lemma certificate_primary:
  "list_all (textSub a) [''display'', ''type''] \<Longrightarrow> boolSub a ''primary'' \<Longrightarrow> bytesSub a ''value'' \<Longrightarrow>
     boolAt (conv a (certificateElement v)) ''primary'' = ctPrimary v"
  using certificate_element [of a v] by (metis certificate.select_convs(4) certificateView_def)

lemma no_primary:
  "list_all (textSub a) [''formatted'', ''streetaddress'', ''locality'', ''region'', ''postalcode'', ''country'', ''type''] \<Longrightarrow>
     \<not> boolAt (conv a (addressElement v)) ''primary''"
  "list_all (textSub a) [''value'', ''$ref'', ''display'', ''type''] \<Longrightarrow>
     \<not> boolAt (conv a (groupRefElement w)) ''primary''"
  "list_all (textSub a) [''value'', ''$ref'', ''type''] \<Longrightarrow> \<not> boolAt (conv a (memberElement m)) ''primary''"
  by (simp_all add: addressElement_def groupRefElement_def memberElement_def read_put)

subsection \<open>Attributes of a resource\<close>

definition complexPath :: "resource_type \<Rightarrow> string \<Rightarrow> bool \<Rightarrow> bool" where
  "complexPath rt p mv \<longleftrightarrow>
     plainPath rt p \<and> attrType (attrAt rt p) = TypeComplex \<and> multiValued (attrAt rt p) = mv"

text \<open>What \<open>setFields_read\<close> gives for one field.\<close>

definition written :: "resource \<Rightarrow> string \<Rightarrow> gval \<Rightarrow> bool" where
  "written r p v \<longleftrightarrow>
     plainPath (rRT r) p \<and>
     (\<exists>cv. coerceValue (attrAt (rRT r) p) v = Inr cv \<and> aget (rAttrs r) (foldName p) = assigned cv)"

lemma written_text:
  "written r p (stringValue s) \<Longrightarrow> textAttr (attrAt (rRT r) p) \<Longrightarrow> getString r p = s"
  using text_read by (auto simp: written_def getString_def Get_plain textOf_def)

lemma written_bool:
  "written r p (boolPointerValue b) \<Longrightarrow> attrType (attrAt (rRT r) p) = TypeBoolean \<Longrightarrow>
     \<not> multiValued (attrAt (rRT r) p) \<Longrightarrow> getBoolPointer r p = b"
  using bool_read by (auto simp: written_def getBoolPointer_def Get_plain)

lemma written_multi:
  assumes "written r p (elementsOf f xs)" "complexPath (rRT r) p True"
    and "\<And>x. elementOk (attrAt (rRT r) p) (f x) \<and> view (conv (attrAt (rRT r) p) (f x)) = x"
  shows "map view (multiComplexAt r p) = filter (\<lambda>x. f x \<noteq> []) xs"
proof -
  from assms(1) obtain cv where cv: "coerceValue (attrAt (rRT r) p) (elementsOf f xs) = Inr cv"
    "aget (rAttrs r) (foldName p) = assigned cv" "plainPath (rRT r) p" by (auto simp: written_def)
  then have "multiComplexAt r p = keptElems (attrAt (rRT r) p) f xs"
    using assms(2,3) multi_read [of "attrAt (rRT r) p" f xs cv]
    by (simp add: multiComplexAt_def Get_plain complexPath_def list_all_iff)
  then show ?thesis using assms(3) by (simp add: keptElems_def comp_def)
qed

text \<open>Which values of a field an attribute takes.\<close>

lemma primaryTrue_boolAt: "primaryTrue m \<longleftrightarrow> boolAt m ''primary''"
  by (simp add: primaryTrue_def attrPrimary_def boolAt_def boolOf_def agetNil_def split: option.splits)

lemma text_taken: "textAttr a \<Longrightarrow> \<exists>cv. coerceValue a (stringValue s) = Inr cv"
  using coerce_text [of a coerceComplex s] by (auto simp: stringValue_def coerceValue_def) (simp add: coerceValueWith_def)

lemma bool_taken:
  "attrType a = TypeBoolean \<Longrightarrow> \<not> multiValued a \<Longrightarrow> \<exists>cv. coerceValue a (boolPointerValue b) = Inr cv"
  by (auto simp: boolPointerValue_def coerceValue_def coerceValueWith_def coerceSingleWith_def isStoredScalar_def
      split: option.splits)

lemma multi_taken:
  assumes a: "attrType a = TypeComplex" "multiValued a"
    and f: "\<And>x. elementOk a (f x) \<and> (primaryTrue (conv a (f x)) \<longleftrightarrow> prim x)"
  shows "(\<exists>cv. coerceValue a (elementsOf f xs) = Inr cv) \<longleftrightarrow> length (filter prim xs) \<le> 1"
proof -
  have "filter primaryTrue (keptElems a f ys) = map (conv a \<circ> f) (filter prim ys)" for ys
  proof (induction ys)
    case (Cons y ys)
    have "f y = [] \<Longrightarrow> \<not> prim y" using f [of y] by (auto simp: primaryTrue_def conv_def)
    with Cons f show ?case by (simp add: keptElems_def)
  qed (simp add: keptElems_def)
  with multi_coerces [OF a, of f xs] f show ?thesis by (auto simp: list_all_iff)
qed

subsection \<open>Data in views\<close>

text \<open>A view without the elements, the name, the manager and the extension that hold no data,
  which a resource does not store.\<close>

definition tidyName :: "name_view option \<Rightarrow> name_view option" where
  "tidyName n = (if complexValue n = VNil then None else n)"

definition tidyManager :: "manager_view option \<Rightarrow> manager_view option" where
  "tidyManager m = (case m of None \<Rightarrow> None | Some x \<Rightarrow> if managerValue x = [] then None else Some x)"

definition tidyEnterprise :: "enterprise_user option \<Rightarrow> enterprise_user option" where
  "tidyEnterprise eu =
     (if containerValue eu = VNil then None
      else map_option (\<lambda>e. e\<lparr>euManager := tidyManager (euManager e)\<rparr>) eu)"

definition tidyUser :: "user_view \<Rightarrow> user_view" where
  "tidyUser u =
     (let tidy = filter (\<lambda>v. multiElement v \<noteq> [])
      in u\<lparr>usName := tidyName (usName u), usEmails := tidy (usEmails u),
           usPhoneNumbers := tidy (usPhoneNumbers u), usIMs := tidy (usIMs u), usPhotos := tidy (usPhotos u),
           usAddresses := filter (\<lambda>a. addressElement a \<noteq> []) (usAddresses u),
           usGroups := filter (\<lambda>g. groupRefElement g \<noteq> []) (usGroups u),
           usEntitlements := tidy (usEntitlements u), usRoles := tidy (usRoles u),
           usCertificates := filter (\<lambda>c. certificateElement c \<noteq> []) (usCertificates u),
           usEnterprise := tidyEnterprise (usEnterprise u)\<rparr>)"

definition tidyGroup :: "group_view \<Rightarrow> group_view" where
  "tidyGroup g = g\<lparr>gpMembers := filter (\<lambda>m. memberElement m \<noteq> []) (gpMembers g)\<rparr>"

lemma written_name:
  assumes "written r ''name'' (complexValue n)" "complexPath (rRT r) ''name'' False"
    and "list_all (textSub (attrAt (rRT r) ''name''))
      [''formatted'', ''familyname'', ''givenname'', ''middlename'', ''honorificprefix'', ''honorificsuffix'']"
  shows "nameFromResource r = tidyName n"
proof -
  define a where "a = attrAt (rRT r) ''name''"
  from assms(1) obtain cv where cv: "coerceValue a (complexValue n) = Inr cv" "Get r ''name'' = assigned cv"
    by (auto simp: written_def a_def Get_plain)
  show ?thesis
  proof (cases "complexValue n = VNil")
    case True
    with cv show ?thesis
      by (simp add: tidyName_def nameFromResource_def coerceValue_def coerceValueWith_def assigned_def)
  next
    case False
    then obtain x where n: "n = Some x" by (cases n) (auto simp: complexValue_def)
    define c where "c = putString ''honorificsuffix'' (nmSuffix x) (putString ''honorificprefix'' (nmPrefix x)
      (putString ''middlename'' (nmMiddleName x) (putString ''givenname'' (nmGivenName x)
      (putString ''familyname'' (nmFamilyName x) (putString ''formatted'' (nmFormatted x) [])))))"
    have c: "complexValue n = VComplex c" "c \<noteq> []" using False by (auto simp: n complexValue_def c_def Let_def)
    have ok: "elementOk a c" using assms(3) by (simp add: c_def a_def)
    from cv single_read [OF _ _ ok c(2)] assms(2) c have "Get r ''name'' = Some (VComplex (conv a c))"
      by (simp add: complexPath_def a_def assigned_def)
    then show ?thesis
      using False assms(3) by (simp add: nameFromResource_def tidyName_def n c_def a_def read_put)
  qed
qed

lemma name_taken:
  assumes "attrType a = TypeComplex" "\<not> multiValued a"
    and "list_all (textSub a)
      [''formatted'', ''familyname'', ''givenname'', ''middlename'', ''honorificprefix'', ''honorificsuffix'']"
  shows "\<exists>cv. coerceValue a (complexValue n) = Inr cv"
proof (cases "complexValue n = VNil")
  case False
  then obtain x where n: "n = Some x" by (cases n) (auto simp: complexValue_def)
  define c where "c = putString ''honorificsuffix'' (nmSuffix x) (putString ''honorificprefix'' (nmPrefix x)
    (putString ''middlename'' (nmMiddleName x) (putString ''givenname'' (nmGivenName x)
    (putString ''familyname'' (nmFamilyName x) (putString ''formatted'' (nmFormatted x) [])))))"
  have "complexValue n = VComplex c" "c \<noteq> []" using False by (auto simp: n complexValue_def c_def Let_def)
  moreover have "elementOk a c" using assms(3) by (simp add: c_def)
  ultimately show ?thesis using single_read [OF assms(1,2)] by auto
qed (simp add: coerceValue_def coerceValueWith_def)

subsection \<open>The extension\<close>

text \<open>The container of an extension, entry by entry.\<close>

definition takes :: "attribute list \<Rightarrow> string \<Rightarrow> gval \<Rightarrow> gval \<Rightarrow> bool" where
  "takes attrs k v w \<longleftrightarrow>
     (case findAttribute attrs k of
        None \<Rightarrow> False
      | Some a \<Rightarrow> foldName (attrName a) = k \<and> coerceValue a v = Inr w \<and> w \<noteq> VNil)"

lemma container_takes:
  assumes "list_all2 (\<lambda>(k, v) (k', w). k' = k \<and> takes attrs k v w) c c'" "distinct (map fst c)"
    and "fst ` set out \<inter> fst ` set c = {}"
  shows "rfold (containerStep attrs) c out = Inr (out @ c')"
  using assms
proof (induction c c' arbitrary: out rule: list_all2_induct)
  case (Cons x c y c')
  obtain k v w where xy: "x = (k, v)" "y = (k, w)" and t: "takes attrs k v w"
    using Cons.hyps(1) by (cases x; cases y) auto
  have "k \<notin> fst ` set out" using Cons.prems xy by auto
  with t have "containerStep attrs x out = Inr (out @ [y])"
    by (auto simp: containerStep_def takes_def xy aput_new split: option.splits)
  moreover have "rfold (containerStep attrs) c (out @ [y]) = Inr ((out @ [y]) @ c')"
    using Cons.prems xy by (intro Cons.IH) auto
  ultimately show ?case by simp
qed simp

definition textKey :: "attribute list \<Rightarrow> string \<Rightarrow> bool" where
  "textKey attrs k \<longleftrightarrow>
     (case findAttribute attrs k of None \<Rightarrow> False | Some a \<Rightarrow> textAttr a \<and> foldName (attrName a) = k)"

lemma takes_text: "textKey attrs k \<Longrightarrow> \<exists>w. takes attrs k (VString s) w \<and> stringOf w = s"
  by (auto simp: textKey_def takes_def coerceValue_def split: option.splits dest!: coerce_text [of _ coerceComplex s])

lemma takes_manager:
  assumes "findAttribute attrs ''manager'' = Some a" "foldName (attrName a) = ''manager''"
    and "attrType a = TypeComplex" "\<not> multiValued a" "elementOk a cv" "cv \<noteq> []"
  shows "takes attrs ''manager'' (VComplex cv) (VComplex (conv a cv))"
  using assms single_read [of a cv] by (simp add: takes_def)

text \<open>Containers whose entries a list of attributes takes, with what they become.\<close>

definition becomes :: "attribute list \<Rightarrow> cval \<Rightarrow> cval \<Rightarrow> bool" where
  "becomes attrs c c' \<longleftrightarrow>
     distinct (map fst c) \<and> list_all2 (\<lambda>(k, v) (k', w). k' = k \<and> takes attrs k v w) c c'"

lemma becomes_add:
  assumes "becomes attrs c c'" "k \<notin> fst ` set c" "takes attrs k v w"
  shows "becomes attrs (c @ [(k, v)]) (c' @ [(k, w)])"
  using assms by (auto simp: becomes_def list_all2_appendI)

lemma becomes_keys: "becomes attrs c c' \<Longrightarrow> map fst c' = map fst c"
  unfolding becomes_def
  by (elim conjE, rotate_tac, induction rule: list_all2_induct) auto

lemma agetNil_add: "k \<notin> fst ` set c \<Longrightarrow> agetNil (c @ [(k, w)]) k' = (if k' = k then w else agetNil c k')"
  by (induction c) (auto simp: agetNil_def)

lemma becomes_text:
  assumes "becomes attrs c c'" "k \<notin> fst ` set c" "textKey attrs k"
  shows "\<exists>c''. becomes attrs (putString k s c) c'' \<and> fst ` set (putString k s c) \<subseteq> insert k (fst ` set c) \<and>
    strAt c'' k = s \<and> (\<forall>k'. k' \<noteq> k \<longrightarrow> agetNil c'' k' = agetNil c' k')"
proof -
  have keys: "k \<notin> fst ` set c'" using becomes_keys [OF assms(1)] assms(2) by (metis list.set_map)
  have none: "agetNil c' k = VNil" using keys by (induction c') (auto simp: agetNil_def)
  obtain w where w: "takes attrs k (VString s) w" "stringOf w = s" using takes_text [OF assms(3)] by blast
  show ?thesis
  proof (cases "s = []")
    case True
    with assms(1) none show ?thesis by (intro exI [of _ c']) (auto simp: putString_def strAt_def stringOf_def)
  next
    case False
    then have "putString k s c = c @ [(k, VString s)]" using assms(2) by (simp add: putString_def aput_new)
    with becomes_add [OF assms(1,2) w(1)] w(2) show ?thesis
      by (intro exI [of _ "c' @ [(k, w)]"]) (auto simp: strAt_def agetNil_add [OF keys])
  qed
qed

lemma becomes_texts:
  assumes "becomes attrs c c'" "distinct (map fst kss)" "fst ` set kss \<inter> fst ` set c = {}"
    and "list_all (textKey attrs) (map fst kss)"
  shows "\<exists>c''. becomes attrs (fold (\<lambda>(k, s). putString k s) kss c) c'' \<and>
    fst ` set (fold (\<lambda>(k, s). putString k s) kss c) \<subseteq> fst ` set kss \<union> fst ` set c \<and>
    list_all (\<lambda>(k, s). strAt c'' k = s) kss \<and> (\<forall>k. k \<notin> fst ` set kss \<longrightarrow> agetNil c'' k = agetNil c' k)"
  using assms
proof (induction kss arbitrary: c c')
  case (Cons x kss)
  obtain k s where x: "x = (k, s)" by fastforce
  from Cons.prems x have k: "k \<notin> fst ` set c" "textKey attrs k" "k \<notin> fst ` set kss" by auto
  from becomes_text [OF Cons.prems(1) k(1,2), of s] obtain d where
    d: "becomes attrs (putString k s c) d" "fst ` set (putString k s c) \<subseteq> insert k (fst ` set c)"
      "strAt d k = s" "\<forall>k'. k' \<noteq> k \<longrightarrow> agetNil d k' = agetNil c' k'" by blast
  have "fst ` set kss \<inter> fst ` set c = {}" using Cons.prems(3) x by simp
  then have "fst ` set kss \<inter> fst ` set (putString k s c) = {}" using d(2) k(3) by blast
  with Cons.IH [OF d(1)] Cons.prems x obtain c'' where
    c'': "becomes attrs (fold (\<lambda>(k, s). putString k s) kss (putString k s c)) c''"
      "fst ` set (fold (\<lambda>(k, s). putString k s) kss (putString k s c)) \<subseteq> fst ` set kss \<union> fst ` set (putString k s c)"
      "list_all (\<lambda>(k, s). strAt c'' k = s) kss" "\<forall>k'. k' \<notin> fst ` set kss \<longrightarrow> agetNil c'' k' = agetNil d k'" by auto
  have "strAt c'' k = s" using c''(4) k(3) d(3) by (simp add: strAt_def)
  moreover have "fst ` set (fold (\<lambda>(k, s). putString k s) kss (putString k s c)) \<subseteq>
      insert k (fst ` set kss) \<union> fst ` set c" using c''(2) d(2) by blast
  moreover have "\<forall>k'. k' \<notin> insert k (fst ` set kss) \<longrightarrow> agetNil c'' k' = agetNil c' k'"
    using c''(4) d(4) by simp
  ultimately show ?case using c''(1,3) x by (intro exI [of _ c'']) simp
qed auto

definition enterpriseAttrs :: "attribute list" where
  "enterpriseAttrs = schemaAttributes EnterpriseUserSchema"

lemma enterprise_keys:
  "list_all (textKey enterpriseAttrs)
     [''employeenumber'', ''costcenter'', ''organization'', ''division'', ''department'']"
  by code_simp

lemma enterprise_manager:
  "\<exists>a. findAttribute enterpriseAttrs ''manager'' = Some a \<and> foldName (attrName a) = ''manager'' \<and>
     attrType a = TypeComplex \<and> \<not> multiValued a \<and>
     list_all (textSub a) [''value'', ''$ref'', ''displayname'']"
proof -
  have "case findAttribute enterpriseAttrs ''manager'' of None \<Rightarrow> False
    | Some a \<Rightarrow> foldName (attrName a) = ''manager'' \<and> attrType a = TypeComplex \<and> \<not> multiValued a \<and>
        list_all (textSub a) [''value'', ''$ref'', ''displayname'']"
    by code_simp
  then show ?thesis by (auto split: option.splits)
qed

definition enterpriseView :: "cval \<Rightarrow> enterprise_user" where
  "enterpriseView c =
     \<lparr>euEmployeeNumber = strAt c ''employeenumber'', euCostCenter = strAt c ''costcenter'',
      euOrganization = strAt c ''organization'', euDivision = strAt c ''division'',
      euDepartment = strAt c ''department'',
      euManager = (case agetNil c ''manager'' of VComplex cv \<Rightarrow> Some (managerView cv) | _ \<Rightarrow> None)\<rparr>"

definition enterpriseTexts :: "enterprise_user \<Rightarrow> (string \<times> string) list" where
  "enterpriseTexts e =
     [(''employeenumber'', euEmployeeNumber e), (''costcenter'', euCostCenter e),
      (''organization'', euOrganization e), (''division'', euDivision e), (''department'', euDepartment e)]"

lemma enterprise_container:
  assumes "containerValue (Some e) = VMap c"
  shows "\<exists>c'. becomes enterpriseAttrs c c' \<and> enterpriseView c' = e\<lparr>euManager := tidyManager (euManager e)\<rparr>"
proof -
  define c5 where "c5 = fold (\<lambda>(k, s). putString k s) (enterpriseTexts e) []"
  have keys: "map fst (enterpriseTexts e) =
      [''employeenumber'', ''costcenter'', ''organization'', ''division'', ''department'']"
    by (simp add: enterpriseTexts_def)
  have "becomes enterpriseAttrs [] []" by (simp add: becomes_def)
  from becomes_texts [OF this, of "enterpriseTexts e"] enterprise_keys obtain d5 where
    d5: "becomes enterpriseAttrs c5 d5" "fst ` set c5 \<subseteq> fst ` set (enterpriseTexts e)"
      "list_all (\<lambda>(k, s). strAt d5 k = s) (enterpriseTexts e)"
      "\<forall>k. k \<notin> fst ` set (enterpriseTexts e) \<longrightarrow> agetNil d5 k = agetNil [] k"
    unfolding keys c5_def by auto
  have other: "''manager'' \<notin> fst ` set (enterpriseTexts e)" by (simp add: enterpriseTexts_def)
  then have k5: "''manager'' \<notin> fst ` set c5" using d5(2) by blast
  have none: "agetNil d5 ''manager'' = VNil" using d5(4) other by (simp add: agetNil_def)
  have texts: "strAt d5 ''employeenumber'' = euEmployeeNumber e" "strAt d5 ''costcenter'' = euCostCenter e"
    "strAt d5 ''organization'' = euOrganization e" "strAt d5 ''division'' = euDivision e"
    "strAt d5 ''department'' = euDepartment e"
    using d5(3) by (simp_all add: enterpriseTexts_def)
  have c5: "putString ''department'' (euDepartment e) (putString ''division'' (euDivision e)
      (putString ''organization'' (euOrganization e) (putString ''costcenter'' (euCostCenter e)
      (putString ''employeenumber'' (euEmployeeNumber e) [])))) = c5"
    by (simp add: c5_def enterpriseTexts_def)
  have c: "c = (case euManager e of None \<Rightarrow> c5
      | Some m \<Rightarrow> if managerValue m = [] then c5 else aput ''manager'' (VComplex (managerValue m)) c5)"
    using assms c5 by (simp add: containerValue_def Let_def split: if_splits)
  show ?thesis
  proof (cases "tidyManager (euManager e)")
    case None
    then have "c = c5" using c by (auto simp: tidyManager_def split: option.splits if_splits)
    with d5(1) texts none None show ?thesis by (intro exI [of _ d5]) (simp add: enterpriseView_def)
  next
    case (Some m)
    then have m: "euManager e = Some m" "managerValue m \<noteq> []"
      by (auto simp: tidyManager_def split: option.splits if_splits)
    from enterprise_manager obtain a where a: "findAttribute enterpriseAttrs ''manager'' = Some a"
      "foldName (attrName a) = ''manager''" "attrType a = TypeComplex" "\<not> multiValued a"
      "list_all (textSub a) [''value'', ''$ref'', ''displayname'']" by blast
    note el = manager_element [OF a(5), of m]
    have new: "c = c5 @ [(''manager'', VComplex (managerValue m))]"
      using c m aput_new [OF k5] by simp
    note t = takes_manager [OF a(1-4) conjunct1 [OF el] m(2)]
    have kd: "''manager'' \<notin> fst ` set d5" using k5 becomes_keys [OF d5(1)] by (metis list.set_map)
    have "enterpriseView (d5 @ [(''manager'', VComplex (conv a (managerValue m)))]) = e\<lparr>euManager := Some m\<rparr>"
      using texts el by (simp add: enterpriseView_def strAt_def agetNil_add [OF kd])
    with becomes_add [OF d5(1) k5 t] Some new show ?thesis by auto
  qed
qed

lemma enterprise_paths:
  "resolvePath UserResourceType SchemaEnterpriseUser =
     Inr \<lparr>rpUrn = SchemaEnterpriseUser, rpAttr = None, rpSub = None, rpCommon = False\<rparr>"
  "extensionSchema UserResourceType SchemaEnterpriseUser = Some EnterpriseUserSchema"
  by code_simp+

lemma enterprise_get:
  "rRT r = UserResourceType \<Longrightarrow>
     Get r SchemaEnterpriseUser = map_option VMap (extContainer (rAttrs r) SchemaEnterpriseUser)"
  by (simp add: Get_def enterprise_paths getResolved_def)

text \<open>An extension with data is always written, as a container the view of which it is.\<close>

lemma enterprise_written:
  assumes "containerValue eu \<noteq> VNil" "rRT r = UserResourceType"
  shows "\<exists>c'. setField (SchemaEnterpriseUser, containerValue eu) r =
      Inr (r\<lparr>rAttrs := aput (foldName SchemaEnterpriseUser) (VMap c') (rAttrs r)\<rparr>) \<and>
    Some (enterpriseView c') = tidyEnterprise eu"
proof -
  obtain e c where e: "eu = Some e" and c: "containerValue eu = VMap c" "c \<noteq> []"
    using assms(1) by (cases eu) (auto simp: containerValue_def Let_def split: if_splits)
  from enterprise_container [of e c] e c obtain c' where c': "becomes enterpriseAttrs c c'"
    "enterpriseView c' = e\<lparr>euManager := tidyManager (euManager e)\<rparr>" by auto
  from c'(1) have loop: "rfold (containerStep enterpriseAttrs) c [] = Inr c'"
    using container_takes [of enterpriseAttrs c c' "[]"] by (simp add: becomes_def)
  have "c' \<noteq> []" using becomes_keys [OF c'(1)] c(2) by auto
  then have "setField (SchemaEnterpriseUser, containerValue eu) r =
      Inr (r\<lparr>rAttrs := aput (foldName SchemaEnterpriseUser) (VMap c') (rAttrs r)\<rparr>)"
    using c(1) loop by (simp add: setField_def Set_def assms(2) enterprise_paths setResolved_def setExtension_def
        setExtensionContainer_def toStringMap_def enterpriseAttrs_def commitExtension_def)
  with c'(2) e assms(1) show ?thesis by (auto simp: tidyEnterprise_def)
qed

lemma enterprise_writes: "rRT r = UserResourceType \<Longrightarrow> \<exists>r'. setField (SchemaEnterpriseUser, containerValue eu) r = Inr r'"
  using enterprise_written [of eu r] by (cases "containerValue eu = VNil") (auto simp: setField_def)

lemma enterprise_read:
  assumes set: "setField (SchemaEnterpriseUser, containerValue eu) r = Inr r'" and rt: "rRT r = UserResourceType"
    and none: "aget (rAttrs r) (foldName SchemaEnterpriseUser) = None"
  shows "enterpriseFromResource r' = tidyEnterprise eu \<and> rRT r' = rRT r \<and> rMeta r' = rMeta r \<and>
    (\<forall>k. k \<noteq> foldName SchemaEnterpriseUser \<longrightarrow> aget (rAttrs r') k = aget (rAttrs r) k)"
proof (cases "containerValue eu = VNil")
  case True
  then have "r' = r" using set by (simp add: setField_def)
  with True enterprise_get [OF rt] none show ?thesis
    by (simp add: enterpriseFromResource_def tidyEnterprise_def extContainer_def)
next
  case False
  from enterprise_written [OF this rt] set obtain c' where
    r': "r' = r\<lparr>rAttrs := aput (foldName SchemaEnterpriseUser) (VMap c') (rAttrs r)\<rparr>"
    and c': "Some (enterpriseView c') = tidyEnterprise eu" by auto
  from r' rt enterprise_get [of r'] have "enterpriseFromResource r' = Some (enterpriseView c')"
    by (simp add: extContainer_def enterpriseFromResource_def enterpriseView_def)
  with c' r' show ?thesis by simp
qed

end
