(* ===== verification/View_Properties.thy ===== *)
theory View_Properties
  imports View_Elements
begin

text \<open>
  The typed views survive their resources: a User or a Group written to a resource is read back
  as it was, up to what has no data.
\<close>

subsection \<open>The attributes of User and Group\<close>

lemma user_common:
  "list_all (\<lambda>p. plainPath UserResourceType p \<and> textAttr (attrAt UserResourceType p)) [''id'', ''externalId'']"
  by code_simp

lemma user_paths1:
  "list_all (\<lambda>(p, a). plainPath UserResourceType p \<and> attrAt UserResourceType p = a)
     [(''userName'', attr_User_userName),
      (''name'', attr_User_name),
      (''displayName'', attr_User_displayName),
      (''nickName'', attr_User_nickName),
      (''profileUrl'', attr_User_profileUrl)]"
  by code_simp

lemma user_paths2:
  "list_all (\<lambda>(p, a). plainPath UserResourceType p \<and> attrAt UserResourceType p = a)
     [(''title'', attr_User_title),
      (''userType'', attr_User_userType),
      (''preferredLanguage'', attr_User_preferredLanguage),
      (''locale'', attr_User_locale),
      (''timezone'', attr_User_timezone)]"
  by code_simp

lemma user_paths3:
  "list_all (\<lambda>(p, a). plainPath UserResourceType p \<and> attrAt UserResourceType p = a)
     [(''active'', attr_User_active),
      (''password'', attr_User_password),
      (''emails'', attr_User_emails),
      (''phoneNumbers'', attr_User_phoneNumbers),
      (''ims'', attr_User_ims)]"
  by code_simp

lemma user_paths4:
  "list_all (\<lambda>(p, a). plainPath UserResourceType p \<and> attrAt UserResourceType p = a)
     [(''photos'', attr_User_photos),
      (''addresses'', attr_User_addresses),
      (''groups'', attr_User_groups),
      (''entitlements'', attr_User_entitlements),
      (''roles'', attr_User_roles),
      (''x509Certificates'', attr_User_x509Certificates)]"
  by code_simp

lemmas user_paths =
  user_common [unfolded list.pred_inject] user_paths1 [unfolded list.pred_inject split]
  user_paths2 [unfolded list.pred_inject split] user_paths3 [unfolded list.pred_inject split]
  user_paths4 [unfolded list.pred_inject split]

lemma user_texts:
  "list_all textAttr [attr_User_userName, attr_User_displayName, attr_User_nickName, attr_User_profileUrl,
     attr_User_title, attr_User_userType, attr_User_preferredLanguage, attr_User_locale, attr_User_timezone,
     attr_User_password]"
  "attrType attr_User_active = TypeBoolean \<and> \<not> multiValued attr_User_active"
  by code_simp+

definition multiShape :: "attribute \<Rightarrow> bool" where
  "multiShape a \<longleftrightarrow> attrType a = TypeComplex \<and> multiValued a"

lemma user_multis:
  "list_all (\<lambda>a. multiShape a \<and> list_all (textSub a) [''value'', ''display'', ''type''] \<and> boolSub a ''primary'')
     [attr_User_emails, attr_User_phoneNumbers, attr_User_ims, attr_User_photos, attr_User_entitlements,
      attr_User_roles]"
  "multiShape attr_User_addresses \<and> list_all (textSub attr_User_addresses)
     [''formatted'', ''streetaddress'', ''locality'', ''region'', ''postalcode'', ''country'', ''type'']"
  "multiShape attr_User_groups \<and> list_all (textSub attr_User_groups) [''value'', ''$ref'', ''display'', ''type'']"
  "multiShape attr_User_x509Certificates \<and> list_all (textSub attr_User_x509Certificates) [''display'', ''type''] \<and>
     boolSub attr_User_x509Certificates ''primary'' \<and> bytesSub attr_User_x509Certificates ''value''"
  by code_simp+

lemma user_name:
  "attrType attr_User_name = TypeComplex \<and> \<not> multiValued attr_User_name \<and> list_all (textSub attr_User_name)
     [''formatted'', ''familyname'', ''givenname'', ''middlename'', ''honorificprefix'', ''honorificsuffix'']"
  by code_simp

lemma group_paths:
  "list_all (\<lambda>p. plainPath GroupResourceType p \<and> textAttr (attrAt GroupResourceType p))
     [''id'', ''externalId'', ''displayName'']"
  "plainPath GroupResourceType ''members'' \<and> attrAt GroupResourceType ''members'' = attr_Group_members"
  "multiShape attr_Group_members \<and> list_all (textSub attr_Group_members) [''value'', ''$ref'', ''type'']"
  by code_simp+

lemma group_taken:
  "list_all (\<lambda>(p, v). \<exists>cv. coerceValue (attrAt GroupResourceType p) v = Inr cv) (groupFields g)"
proof -
  have "\<exists>cv. coerceValue attr_Group_members (memberElements (gpMembers g)) = Inr cv"
    using multi_taken [of attr_Group_members memberElement "\<lambda>_. False" "gpMembers g"] group_paths(3) member_element
      no_primary(3)
    unfolding memberElements_def primaryTrue_boolAt multiShape_def by simp
  then show ?thesis
    using group_paths(1,2) text_taken
    unfolding groupFields_def by (simp only: list.pred_inject split simp_thms)
qed

text \<open>A Group view is always written and is read back as it was, up to the members that hold no data.\<close>

theorem group_view_roundtrip:
  "\<exists>r. GroupResource g = Inr r \<and> GroupFromResource r = Inr (tidyGroup g)"
proof -
  define r0 where "r0 = SetMeta (gpMeta g) (NewResource GroupResourceType)"
  have r0: "rRT r0 = GroupResourceType" "rMeta r0 = gpMeta g" "rAttrs r0 = []"
    by (simp_all add: r0_def SetMeta_def NewResource_def)
  have plain: "list_all (\<lambda>f. plainPath (rRT r0) (fst f)) (groupFields g)"
    using group_paths(1,2) unfolding r0 groupFields_def by (simp only: list.pred_inject fst_conv simp_thms)
  from setFields_iff [OF plain] group_taken [of g] obtain r where r: "GroupResource g = Inr r"
    unfolding GroupResource_def r0_def [symmetric] r0(1) by blast
  have "map (foldName \<circ> fst) (groupFields g) = [''id'', ''externalid'', ''displayname'', ''members'']"
    by (simp add: groupFields_def)
  then have "distinct (map (foldName \<circ> fst) (groupFields g))" by simp
  from setFields_read [OF r [unfolded GroupResource_def r0_def [symmetric]] plain this] r0
  have read: "rRT r = GroupResourceType" "rMeta r = gpMeta g"
    "\<forall>(p, v) \<in> set (groupFields g). \<exists>cv. coerceValue (attrAt GroupResourceType p) v = Inr cv \<and>
      aget (rAttrs r) (foldName p) = assigned cv" by auto
  with plain have w: "list_all (\<lambda>(p, v). written r p v) (groupFields g)"
    by (auto simp: written_def list_all_iff r0(1))
  note st = w [unfolded groupFields_def list.pred_inject split]
  note gp = group_paths(1) [unfolded list.pred_inject]
  have texts: "getString r ''id'' = gpID g" "getString r ''externalId'' = gpExternalID g"
    "getString r ''displayName'' = gpDisplayName g"
    using st gp by (simp_all only: written_text read(1) simp_thms)
  have "written r ''members'' (elementsOf memberElement (gpMembers g))" using st unfolding memberElements_def by blast
  then have "membersAt r = filter (\<lambda>m. memberElement m \<noteq> []) (gpMembers g)"
    unfolding membersAt_def using group_paths(2,3) member_element
    by (intro written_multi) (auto simp: complexPath_def multiShape_def read(1))
  moreover have "foldName (schemaID (rtSchema GroupResourceType)) = foldName SchemaGroup" by code_simp
  ultimately show ?thesis
    using r by (cases g) (simp add: GroupFromResource_def read texts tidyGroup_def)
qed

subsection \<open>Users\<close>

text \<open>What a resource of a user stores, field by field.\<close>

lemma user_written:
  assumes "UserResource u = Inr r"
  shows "rRT r = UserResourceType \<and> rMeta r = usMeta u \<and> enterpriseFromResource r = tidyEnterprise (usEnterprise u)"
    and "list_all (\<lambda>(p, v). written r p v) (butlast (userFields u))"
proof -
  define r0 where "r0 = SetMeta (usMeta u) (NewResource UserResourceType)"
  define fs where "fs = butlast (userFields u)"
  have r0: "rRT r0 = UserResourceType" "rMeta r0 = usMeta u" "rAttrs r0 = []"
    by (simp_all add: r0_def SetMeta_def NewResource_def)
  have "userFields u = fs @ [(SchemaEnterpriseUser, containerValue (usEnterprise u))]"
    by (simp add: fs_def userFields_def)
  with assms obtain r1 where r1: "rfold setField fs r0 = Inr r1"
    and last: "setField (SchemaEnterpriseUser, containerValue (usEnterprise u)) r1 = Inr r"
    by (auto simp: UserResource_def r0_def rfold_append rbind_eq_Inr)
  have plain: "list_all (\<lambda>f. plainPath (rRT r0) (fst f)) fs"
    using user_paths unfolding r0(1) fs_def userFields_def by simp
  have keys: "map (foldName \<circ> fst) fs =
      [''id'', ''externalid'', ''username'', ''name'', ''displayname'', ''nickname'', ''profileurl'', ''title'',
       ''usertype'', ''preferredlanguage'', ''locale'', ''timezone'', ''active'', ''password'', ''emails'',
       ''phonenumbers'', ''ims'', ''photos'', ''addresses'', ''groups'', ''entitlements'', ''roles'',
       ''x509certificates'']"
    unfolding fs_def userFields_def by simp
  have "distinct (map (foldName \<circ> fst) fs)" unfolding keys by simp
  from setFields_read [OF r1 plain this] r0 have read: "rRT r1 = UserResourceType" "rMeta r1 = usMeta u"
    "\<forall>(p, v) \<in> set fs. \<exists>cv. coerceValue (attrAt UserResourceType p) v = Inr cv \<and> aget (rAttrs r1) (foldName p) = assigned cv"
    "\<forall>k. k \<notin> set (map (foldName \<circ> fst) fs) \<longrightarrow> aget (rAttrs r1) k = None"
    by auto
  have urn: "foldName SchemaEnterpriseUser \<notin> set (map (foldName \<circ> fst) fs)"
    unfolding keys by code_simp
  from enterprise_read [OF last read(1)] read(4) urn have ent: "enterpriseFromResource r = tidyEnterprise (usEnterprise u)"
    "rRT r = UserResourceType" "rMeta r = usMeta u"
    "\<forall>k. k \<noteq> foldName SchemaEnterpriseUser \<longrightarrow> aget (rAttrs r) k = aget (rAttrs r1) k"
    using read(1,2) by auto
  have w: "written r p v" if "(p, v) \<in> set fs" for p v
  proof -
    have "foldName p \<in> set (map (foldName \<circ> fst) fs)" using that by force
    then have "foldName p \<noteq> foldName SchemaEnterpriseUser" using urn by metis
    moreover have "plainPath UserResourceType p" using plain that by (auto simp: list_all_iff r0(1))
    ultimately show ?thesis using read(3) that ent(2,4) by (auto simp: written_def)
  qed
  show "rRT r = UserResourceType \<and> rMeta r = usMeta u \<and> enterpriseFromResource r = tidyEnterprise (usEnterprise u)"
    using ent by simp
  show "list_all (\<lambda>(p, v). written r p v) (butlast (userFields u))"
    using w by (auto simp: list_all_iff fs_def)
qed

lemma butlast_more: "butlast [x] = []" "butlast (x # y # xs) = x # butlast (y # xs)"
  by simp_all

lemmas user_stored = user_written(2) [unfolded userFields_def butlast_more list.pred_inject split simp_thms]

lemma user_text_attrs:
  "list_all (\<lambda>p. textAttr (attrAt UserResourceType p))
     [''id'', ''externalId'', ''userName'', ''displayName'', ''nickName'', ''profileUrl'', ''title'', ''userType'',
      ''preferredLanguage'', ''locale'', ''timezone'', ''password'']"
  by (simp only: list.pred_inject user_paths user_texts(1) [unfolded list.pred_inject] simp_thms)

definition userTexts :: "user_view \<Rightarrow> (string \<times> string) list" where
  "userTexts u =
     [(''id'', usID u), (''externalId'', usExternalID u), (''userName'', usUserName u),
      (''displayName'', usDisplayName u), (''nickName'', usNickName u), (''profileUrl'', usProfileURL u),
      (''title'', usTitle u), (''userType'', usUserType u), (''preferredLanguage'', usPreferredLanguage u),
      (''locale'', usLocale u), (''timezone'', usTimezone u), (''password'', usPassword u)]"

lemma user_texts_read:
  assumes "UserResource u = Inr r"
  shows "list_all (\<lambda>(p, s). getString r p = s) (userTexts u)"
proof -
  have "list_all (\<lambda>(p, s). written r p (stringValue s)) (userTexts u)"
    unfolding userTexts_def by (simp only: user_stored [OF assms] list.pred_inject split simp_thms)
  moreover have "list_all (\<lambda>(p, s). textAttr (attrAt (rRT r) p)) (userTexts u)"
    unfolding userTexts_def conjunct1 [OF user_written(1) [OF assms]]
    by (simp only: user_text_attrs [unfolded list.pred_inject] list.pred_inject split simp_thms)
  ultimately show ?thesis using written_text by (fastforce simp: list_all_iff)
qed

definition userMultis :: "user_view \<Rightarrow> (string \<times> multi_view list) list" where
  "userMultis u =
     [(''emails'', usEmails u), (''phoneNumbers'', usPhoneNumbers u), (''ims'', usIMs u), (''photos'', usPhotos u),
      (''entitlements'', usEntitlements u), (''roles'', usRoles u)]"

definition multiPath :: "string \<Rightarrow> bool" where
  "multiPath p \<longleftrightarrow>
     (let a = attrAt UserResourceType p
      in complexPath UserResourceType p True \<and> list_all (textSub a) [''value'', ''display'', ''type''] \<and>
         boolSub a ''primary'')"

lemma user_multi_paths:
  "list_all multiPath [''emails'', ''phoneNumbers'', ''ims'', ''photos'', ''entitlements'', ''roles'']"
  using user_multis(1)
  unfolding multiPath_def complexPath_def multiShape_def Let_def
  by (simp only: list.pred_inject user_paths simp_thms)

lemma user_multis_read:
  assumes "UserResource u = Inr r"
  shows "list_all (\<lambda>(p, vs). multiValuesAt r p = filter (\<lambda>v. multiElement v \<noteq> []) vs) (userMultis u)"
proof -
  have rt: "rRT r = UserResourceType" using user_written(1) [OF assms] by simp
  have "list_all (\<lambda>(p, vs). written r p (elementsOf multiElement vs)) (userMultis u)"
    unfolding userMultis_def multiValueElements_def [symmetric]
    by (simp only: user_stored [OF assms] list.pred_inject split simp_thms)
  moreover have "list_all (\<lambda>(p, vs). multiPath p) (userMultis u)"
    unfolding userMultis_def
    by (simp only: user_multi_paths [unfolded list.pred_inject] list.pred_inject split simp_thms)
  moreover have "multiValuesAt r p = filter (\<lambda>v. multiElement v \<noteq> []) vs"
    if "written r p (elementsOf multiElement vs)" "multiPath p" for p vs
    unfolding multiValuesAt_def using that(2) multi_element
    by (intro written_multi [OF that(1)]) (auto simp: rt multiPath_def Let_def)
  ultimately show ?thesis by (fastforce simp: list_all_iff)
qed

lemma user_others_read:
  assumes "UserResource u = Inr r"
  shows "addressesAt r = filter (\<lambda>a. addressElement a \<noteq> []) (usAddresses u)"
    and "groupRefsAt r = filter (\<lambda>g. groupRefElement g \<noteq> []) (usGroups u)"
    and "certificatesAt r = filter (\<lambda>c. certificateElement c \<noteq> []) (usCertificates u)"
    and "nameFromResource r = tidyName (usName u)"
    and "getBoolPointer r ''active'' = usActive u"
proof -
  have rt: "rRT r = UserResourceType" using user_written(1) [OF assms] by simp
  note st = user_stored [OF assms]
  note path = complexPath_def rt multiShape_def
  have 1: "written r ''addresses'' (elementsOf addressElement (usAddresses u))"
    unfolding addressElements_def [symmetric] by (simp only: st)
  have 2: "written r ''groups'' (elementsOf groupRefElement (usGroups u))"
    unfolding groupRefElements_def [symmetric] by (simp only: st)
  have 3: "written r ''x509Certificates'' (elementsOf certificateElement (usCertificates u))"
    unfolding certificateElements_def [symmetric] by (simp only: st)
  have a: "attrAt UserResourceType ''addresses'' = attr_User_addresses" "plainPath UserResourceType ''addresses''"
    "attrAt UserResourceType ''groups'' = attr_User_groups" "plainPath UserResourceType ''groups''"
    "attrAt UserResourceType ''x509Certificates'' = attr_User_x509Certificates"
    "plainPath UserResourceType ''x509Certificates''"
    "attrAt UserResourceType ''name'' = attr_User_name" "plainPath UserResourceType ''name''"
    "attrAt UserResourceType ''active'' = attr_User_active" "plainPath UserResourceType ''active''"
    by (simp_all only: user_paths)
  show "addressesAt r = filter (\<lambda>a. addressElement a \<noteq> []) (usAddresses u)"
    unfolding addressesAt_def
    using written_multi [OF 1] user_multis(2) address_element a(1,2) unfolding path by metis
  show "groupRefsAt r = filter (\<lambda>g. groupRefElement g \<noteq> []) (usGroups u)"
    unfolding groupRefsAt_def
    using written_multi [OF 2] user_multis(3) group_ref_element a(3,4) unfolding path by metis
  show "certificatesAt r = filter (\<lambda>c. certificateElement c \<noteq> []) (usCertificates u)"
    unfolding certificatesAt_def
    using written_multi [OF 3] user_multis(4) certificate_element a(5,6) unfolding path by metis
  have "written r ''name'' (complexValue (usName u))" by (simp only: st)
  then show "nameFromResource r = tidyName (usName u)"
    using user_name a(7,8) by (intro written_name) (simp_all only: path simp_thms)
  have "written r ''active'' (boolPointerValue (usActive u))" by (simp only: st)
  then show "getBoolPointer r ''active'' = usActive u"
    using user_texts(2) a(9,10) by (intro written_bool) (simp_all only: rt simp_thms)
qed

text \<open>A list of a view has one primary element at most.\<close>

definition onePrimary :: "user_view \<Rightarrow> bool" where
  "onePrimary u \<longleftrightarrow>
     list_all (\<lambda>(p, vs). length (filter mvPrimary vs) \<le> 1) (userMultis u) \<and>
     length (filter ctPrimary (usCertificates u)) \<le> 1"

lemma user_texts_taken:
  "list_all (\<lambda>(p, s). \<exists>cv. coerceValue (attrAt UserResourceType p) (stringValue s) = Inr cv) (userTexts u)"
proof -
  have "list_all (\<lambda>(p, s). textAttr (attrAt UserResourceType p)) (userTexts u)"
    unfolding userTexts_def by (simp only: user_text_attrs [unfolded list.pred_inject] list.pred_inject split simp_thms)
  then show ?thesis by (rule list.pred_mono_strong) (use text_taken in auto)
qed

lemma user_multis_taken:
  "list_all (\<lambda>(p, vs). \<exists>cv. coerceValue (attrAt UserResourceType p) (multiValueElements vs) = Inr cv) (userMultis u) \<longleftrightarrow>
     list_all (\<lambda>(p, vs). length (filter mvPrimary vs) \<le> 1) (userMultis u)"
proof -
  have "list_all (\<lambda>(p, vs). multiPath p) (userMultis u)"
    unfolding userMultis_def by (simp only: user_multi_paths [unfolded list.pred_inject] list.pred_inject split simp_thms)
  moreover have "(\<exists>cv. coerceValue (attrAt UserResourceType p) (multiValueElements vs) = Inr cv) \<longleftrightarrow>
      length (filter mvPrimary vs) \<le> 1" if "multiPath p" for p vs
    unfolding multiValueElements_def using that multi_element element_primary
    by (intro multi_taken) (auto simp: multiPath_def complexPath_def Let_def primaryTrue_boolAt)
  ultimately show ?thesis by (fastforce simp: list_all_iff)
qed

lemma user_others_taken:
  "\<exists>cv. coerceValue attr_User_addresses (addressElements as) = Inr cv"
  "\<exists>cv. coerceValue attr_User_groups (groupRefElements gs) = Inr cv"
  "(\<exists>cv. coerceValue attr_User_x509Certificates (certificateElements cs) = Inr cv) \<longleftrightarrow> length (filter ctPrimary cs) \<le> 1"
  "\<exists>cv. coerceValue attr_User_name (complexValue n) = Inr cv"
  "\<exists>cv. coerceValue attr_User_active (boolPointerValue b) = Inr cv"
proof -
  note um = user_multis(2-4) [unfolded multiShape_def]
  show "\<exists>cv. coerceValue attr_User_addresses (addressElements as) = Inr cv"
    using multi_taken [of attr_User_addresses addressElement "\<lambda>_. False" as] um(1) address_element no_primary(1)
    unfolding addressElements_def primaryTrue_boolAt by simp
  show "\<exists>cv. coerceValue attr_User_groups (groupRefElements gs) = Inr cv"
    using multi_taken [of attr_User_groups groupRefElement "\<lambda>_. False" gs] um(2) group_ref_element no_primary(2)
    unfolding groupRefElements_def primaryTrue_boolAt by simp
  show "(\<exists>cv. coerceValue attr_User_x509Certificates (certificateElements cs) = Inr cv) \<longleftrightarrow>
      length (filter ctPrimary cs) \<le> 1"
    using um(3) certificate_element certificate_primary
    unfolding certificateElements_def by (intro multi_taken) (simp_all add: primaryTrue_boolAt)
  show "\<exists>cv. coerceValue attr_User_name (complexValue n) = Inr cv" using name_taken user_name by blast
  show "\<exists>cv. coerceValue attr_User_active (boolPointerValue b) = Inr cv" using bool_taken user_texts(2) by blast
qed

lemma user_taken:
  "list_all (\<lambda>(p, v). \<exists>cv. coerceValue (attrAt UserResourceType p) v = Inr cv) (butlast (userFields u)) \<longleftrightarrow>
     onePrimary u"
  using user_texts_taken [of u] user_multis_taken [of u]
  unfolding userFields_def butlast_more onePrimary_def userTexts_def userMultis_def
  by (simp only: list.pred_inject split user_paths user_others_taken simp_thms) blast

lemma user_plain: "list_all (\<lambda>f. plainPath UserResourceType (fst f)) (butlast (userFields u))"
  unfolding userFields_def butlast_more by (simp only: list.pred_inject user_paths fst_conv simp_thms)

lemma user_fields_split:
  "userFields u = butlast (userFields u) @ [(SchemaEnterpriseUser, containerValue (usEnterprise u))]"
  unfolding userFields_def butlast_more by simp

lemma rfold_one: "rfold f [x] = f x"
  by (rule ext) (simp add: rbind_def split: sum.splits)

lemma user_writes: "(\<exists>r. UserResource u = Inr r) \<longleftrightarrow> onePrimary u"
proof -
  define r0 where "r0 = SetMeta (usMeta u) (NewResource UserResourceType)"
  define fs where "fs = butlast (userFields u)"
  have r0: "rRT r0 = UserResourceType" "rAttrs r0 = []" by (simp_all add: r0_def SetMeta_def NewResource_def)
  have plain: "list_all (\<lambda>f. plainPath (rRT r0) (fst f)) fs" unfolding r0 fs_def by (rule user_plain)
  have type: "rRT r1 = UserResourceType" if "rfold setField fs r0 = Inr r1" for r1
    using that plain r0(1)
  proof (induction fs arbitrary: r0)
    case (Cons f fs)
    then show ?case using setField_type by (fastforce simp: rbind_eq_Inr)
  qed simp
  have "UserResource u = rbind (rfold setField fs r0) (setField (SchemaEnterpriseUser, containerValue (usEnterprise u)))"
    unfolding UserResource_def r0_def [symmetric] fs_def
    by (subst user_fields_split) (simp add: rfold_append rfold_one)
  with type enterprise_writes have "(\<exists>r. UserResource u = Inr r) \<longleftrightarrow> (\<exists>r1. rfold setField fs r0 = Inr r1)"
    by (auto simp: rbind_eq_Inr)
  also have "\<dots> \<longleftrightarrow> onePrimary u" unfolding setFields_iff [OF plain] unfolding r0 fs_def by (rule user_taken)
  finally show ?thesis .
qed

lemma user_reads:
  assumes "UserResource u = Inr r"
  shows "UserFromResource r = Inr (tidyUser u)"
proof -
  have r: "rRT r = UserResourceType" "rMeta r = usMeta u" "enterpriseFromResource r = tidyEnterprise (usEnterprise u)"
    using user_written(1) [OF assms] by simp_all
  have kind: "foldName (schemaID (rtSchema UserResourceType)) = foldName SchemaUser" by code_simp
  note texts = user_texts_read [OF assms, unfolded userTexts_def list.pred_inject split]
  note lists = user_multis_read [OF assms, unfolded userMultis_def list.pred_inject split]
  show ?thesis
    unfolding UserFromResource_def r kind tidyUser_def
    by (cases u) (simp add: texts lists user_others_read [OF assms] Let_def)
qed

text \<open>A user with an email without data, a primary one, and an extension with a manager.\<close>

definition annaView :: user_view where
  "annaView =
     \<lparr>usID = ''7'', usExternalID = [], usMeta = zeroMeta, usUserName = ''anna'', usName = None,
      usDisplayName = ''Anna'', usNickName = [], usProfileURL = ''https://a.example'', usTitle = [],
      usUserType = [], usPreferredLanguage = [], usLocale = [], usTimezone = [], usActive = Some False,
      usPassword = [],
      usEmails =
        [\<lparr>mvValue = [], mvDisplay = [], mvType = [], mvPrimary = False\<rparr>,
         \<lparr>mvValue = ''anna@a.example'', mvDisplay = [], mvType = ''work'', mvPrimary = True\<rparr>],
      usPhoneNumbers = [], usIMs = [], usPhotos = [], usAddresses = [], usGroups = [], usEntitlements = [],
      usRoles = [], usCertificates = [],
      usEnterprise = Some
        \<lparr>euEmployeeNumber = ''12'', euCostCenter = [], euOrganization = [], euDivision = [], euDepartment = [],
         euManager = Some \<lparr>mgValue = ''3'', mgRef = [], mgDisplayName = []\<rparr>\<rparr>\<rparr>"

definition twicePrimary :: user_view where
  "twicePrimary = annaView\<lparr>usEmails := usEmails annaView @ usEmails annaView\<rparr>"

lemma sample_primaries: "onePrimary annaView" "\<not> onePrimary twicePrimary"
  by (simp_all add: onePrimary_def userMultis_def annaView_def twicePrimary_def)

lemma sample_tidy: "tidyUser annaView = annaView\<lparr>usEmails := tl (usEmails annaView)\<rparr>"
  by (simp add: tidyUser_def annaView_def multiElement_def putString_def putPrimary_def tidyName_def complexValue_def
      tidyEnterprise_def tidyManager_def containerValue_def managerValue_def Let_def)

text \<open>C15. A User view is written to a resource if and only if none of its lists has two primary elements,
  and is then read back from the resource as it was, field by field, up to the elements, the
  name, the manager and the extension that hold no data: every string and reference, every
  flag, the bytes of every certificate and the metadata are kept.\<close>

theorem user_view_roundtrip:
  "case UserResource u of
     Inl e \<Rightarrow> \<not> onePrimary u
   | Inr r \<Rightarrow> onePrimary u \<and> UserFromResource r = Inr (tidyUser u)"
  using user_writes [of u] user_reads [of u] by (cases "UserResource u") auto


theorem user_view_roundtrip_witness:
  "(\<exists>r. UserResource annaView = Inr r \<and>
     UserFromResource r = Inr (annaView\<lparr>usEmails := tl (usEmails annaView)\<rparr>)) \<and>
   (\<exists>e. UserResource twicePrimary = Inl e)"
  using user_view_roundtrip [of annaView] user_view_roundtrip [of twicePrimary] sample_primaries sample_tidy
  by (auto split: sum.splits)

end
