(* ===== verification/Test_Mock.thy ===== *)
theory Test_Mock
  imports Server_Router Mem_Store Scim_Builtin Client_Discovery
begin

text \<open>
  \<open>scimtest/recorder.go\<close>, \<open>chaos.go\<close>, \<open>seed.go\<close>, \<open>options.go\<close>, \<open>profile.go\<close> and \<open>mock.go\<close>: the mock
  provider, which is the server over in-memory stores behind a recorder and an optional layer
  of injected faults. A request is the decoded request of the server, and a seed document is the
  tree of its JSON. The stores are the state \<open>endpoint \<Rightarrow> memstore\<close> of the server. The random source
  of the faults is a state \<open>'g\<close> with its draw, and the length of a printed body is a parameter.
  The logger is left out.
\<close>

subsection \<open>The recorder\<close>

text \<open>Method, path, header and body of a recorded request are those of the request.\<close>

record recorded_request =
  rrRequest :: http_request
  rrTime :: gotime

record recorder =
  rcReqs :: "recorded_request list"
  rcLimit :: int

definition Requests :: "recorder \<Rightarrow> recorded_request list" where
  "Requests r = rcReqs r"

definition Last :: "recorder \<Rightarrow> recorded_request option" where
  "Last r = (if rcReqs r = [] then None else Some (last (rcReqs r)))"

definition Count :: "recorder \<Rightarrow> int" where
  "Count r = int (length (rcReqs r))"

definition Reset :: "recorder \<Rightarrow> recorder" where
  "Reset r = r\<lparr>rcReqs := []\<rparr>"

definition recordRequest :: "recorded_request \<Rightarrow> recorder \<Rightarrow> recorder" where
  "recordRequest rr r =
     (let reqs = rcReqs r @ [rr]
      in r\<lparr>rcReqs := (if 0 < rcLimit r \<and> rcLimit r < int (length reqs)
                      then drop (length reqs - nat (rcLimit r)) reqs else reqs)\<rparr>)"

subsection \<open>Injected faults\<close>

record chaos_config =
  ccLatency :: int
  ccFailRate :: float64
  ccFailStatus :: int

definition shouldFail :: "('g \<Rightarrow> float64 \<times> 'g) \<Rightarrow> chaos_config \<Rightarrow> 'g \<Rightarrow> bool \<times> 'g" where
  "shouldFail draw c g =
     (if fltLessEq (ccFailRate c) (Finite 0) then (False, g)
      else case draw g of (x, g) \<Rightarrow> (fltLess x (ccFailRate c), g))"

text \<open>\<open>WriteHeader\<close> panics outside 100 to 999, and the connection is cut without an answer. An informational
  status is followed by the 200 of the body, and some statuses have no body.\<close>

definition writeFailure :: "chaos_config \<Rightarrow> response option" where
  "writeFailure c =
     (let status = (if ccFailStatus c = 0 then 503 else ccFailStatus c);
          final = (if 100 \<le> status \<and> status \<le> 199 \<and> status \<noteq> 101 then 200 else status)
      in if status < 100 \<or> 999 < status then None
         else Some \<lparr>rsStatus = final, rsETag = None, rsLocation = None,
           rsBody = (if final \<in> {101, 204, 304} then NoBody else ErrorBody (ScimError status []))\<rparr>)"

text \<open>\<open>waited\<close>: the timer fires before the context ends; otherwise nothing is answered.\<close>

definition chaosServe ::
    "('g \<Rightarrow> float64 \<times> 'g) \<Rightarrow> chaos_config \<Rightarrow> bool \<Rightarrow> ('s \<Rightarrow> response \<times> 's) \<Rightarrow> 's \<times> 'g \<Rightarrow>
     response option \<times> 's \<times> 'g" where
  "chaosServe draw c waited serve sg =
     (case sg of (s, g) \<Rightarrow>
        if 0 < ccLatency c \<and> \<not> waited then (None, s, g)
        else case shouldFail draw c g of
          (True, g) \<Rightarrow> (writeFailure c, s, g)
        | (False, g) \<Rightarrow> (case serve s of (rsp, s) \<Rightarrow> (Some rsp, s, g)))"

subsection \<open>Seeds\<close>

definition storeKey :: "string \<Rightarrow> string" where "storeKey name = foldName name"

record seed =
  sdUsers :: "gval list"
  sdGroups :: "gval list"
  sdResources :: "gval list amap"

definition noSeed :: seed where "noSeed = \<lparr>sdUsers = [], sdGroups = [], sdResources = []\<rparr>"

definition seedEmpty :: "seed \<Rightarrow> bool" where
  "seedEmpty s \<longleftrightarrow> sdUsers s = [] \<and> sdGroups s = [] \<and> list_all (\<lambda>kv. snd kv = []) (sdResources s)"

definition docsOf :: "gval list amap \<Rightarrow> string \<Rightarrow> gval list" where
  "docsOf m name = (case aget m name of None \<Rightarrow> [] | Some docs \<Rightarrow> docs)"

definition seedMerge :: "seed \<Rightarrow> seed \<Rightarrow> seed" where
  "seedMerge s other =
     \<lparr>sdUsers = sdUsers s @ sdUsers other, sdGroups = sdGroups s @ sdGroups other,
      sdResources = fold (\<lambda>(name, docs) m. if docs = [] then m else aput name (docsOf m name @ docs) m)
        (sdResources other) (sdResources s)\<rparr>"

definition byType :: "seed \<Rightarrow> (string \<times> gval list) list" where
  "byType s =
     (if sdUsers s \<noteq> [] then [(''User'', sdUsers s)] else []) @
     (if sdGroups s \<noteq> [] then [(''Group'', sdGroups s)] else []) @
     map (\<lambda>name. (name, docsOf (sdResources s) name)) (sort (map fst (sdResources s)))"

datatype seed_document = BadJSON | SeedTree gval

definition rawList :: "gval \<Rightarrow> (scim_error, gval list) res" where
  "rawList v = (case v of VNil \<Rightarrow> Inr [] | VList vs \<Rightarrow> Inr vs | _ \<Rightarrow> Inl ErrInvalidSyntax)"

definition rawLists :: "gval \<Rightarrow> gval list amap \<Rightarrow> (scim_error, gval list amap) res" where
  "rawLists v m =
     (case v of
        VNil \<Rightarrow> Inr []
      | VMap obj \<Rightarrow> rfold (\<lambda>(k, x) m. rbind (rawList x) (\<lambda>docs. Inr (aput k docs m))) obj m
      | _ \<Rightarrow> Inl ErrInvalidSyntax)"

definition seedField :: "string \<Rightarrow> gval \<Rightarrow> seed \<Rightarrow> (scim_error, seed) res" where
  "seedField k v s =
     (if k = ''users'' then rbind (rawList v) (\<lambda>docs. Inr (s\<lparr>sdUsers := docs\<rparr>))
      else if k = ''groups'' then rbind (rawList v) (\<lambda>docs. Inr (s\<lparr>sdGroups := docs\<rparr>))
      else if k = ''resources'' then
        rbind (rawLists v (sdResources s)) (\<lambda>m. Inr (s\<lparr>sdResources := m\<rparr>))
      else Inr s)"

datatype mock_error =
    BuildFailed new_error | SeedMalformed | SeedUnknownType string | SeedRefused string int

text \<open>A decoder reads the first document of the text.\<close>

definition DecodeSeed :: "seed_document list \<Rightarrow> (mock_error, seed) res" where
  "DecodeSeed docs =
     (case docs of
        SeedTree v # _ \<Rightarrow> map_err (\<lambda>_. SeedMalformed) (structObject seedField v noSeed)
      | _ \<Rightarrow> Inl SeedMalformed)"

text \<open>The request of a seed; an endpoint is a slash and one segment.\<close>

definition seedRequest :: "(gval \<Rightarrow> int) \<Rightarrow> string \<Rightarrow> gval \<Rightarrow> string \<Rightarrow> http_request" where
  "seedRequest bodySize endpoint body token =
     \<lparr>hqMethod = ''POST'', hqPath = [tl endpoint], hqContentType = ContentType mediaType,
      hqContentLength = bodySize body, hqAuthorization = (if token = [] then [] else ''Bearer '' @ token),
      hqRequest = \<lparr>rqID = [], rqIfMatch = [], rqIfNoneMatch = [], rqQuery = [], rqBodyLength = bodySize body,
        rqBody = Some body\<rparr>\<rparr>"

definition seedOne ::
    "(gval \<Rightarrow> int) \<Rightarrow> (http_request \<Rightarrow> 's \<Rightarrow> response \<times> 's) \<Rightarrow> string \<Rightarrow> string \<Rightarrow> string \<Rightarrow> gval \<Rightarrow> 's \<Rightarrow>
     (mock_error, 's) res" where
  "seedOne bodySize serve endpoint typeName token body s =
     (if endpoint = [] then Inl (SeedUnknownType typeName)
      else case serve (seedRequest bodySize endpoint body token) s of
        (rsp, s) \<Rightarrow> if 300 \<le> rsStatus rsp then Inl (SeedRefused typeName (rsStatus rsp)) else Inr s)"

definition applySeed ::
    "(gval \<Rightarrow> int) \<Rightarrow> (http_request \<Rightarrow> 's \<Rightarrow> response \<times> 's) \<Rightarrow> seed \<Rightarrow> string amap \<Rightarrow> string \<Rightarrow> 's \<Rightarrow>
     (mock_error, 's) res" where
  "applySeed bodySize serve sd endpoints token s =
     rfold (\<lambda>(typeName, docs) s.
         let endpoint = (case aget endpoints (storeKey typeName) of None \<Rightarrow> [] | Some ep \<Rightarrow> ep)
         in rfold (seedOne bodySize serve endpoint typeName token) docs s)
       (byType sd) s"

subsection \<open>Options\<close>

record type_spec =
  tsRT :: resource_type
  tsOpts :: "(memstore \<Rightarrow> memstore) list"

record mock_config =
  mcTypes :: "type_spec list"
  mcNoDefaults :: bool
  mcProfile :: profile
  mcToken :: string
  mcBaseURL :: string
  mcSeed :: seed
  mcSeedJSON :: "seed_document list"
  mcChaos :: "chaos_config option"
  mcRecorderLimit :: int

definition mockDefaults :: mock_config where
  "mockDefaults =
     \<lparr>mcTypes = [], mcNoDefaults = False, mcProfile = StrictProfile, mcToken = [],
      mcBaseURL = ''https://scim.test/v2'', mcSeed = noSeed, mcSeedJSON = [], mcChaos = None,
      mcRecorderLimit = 0\<rparr>"

datatype mock_option =
    WithMockProfile profile
  | WithBearerToken string
  | WithResourceType resource_type "(memstore \<Rightarrow> memstore) list"
  | WithoutDefaultTypes
  | WithRecorderLimit int
  | WithSeed seed
  | WithSeedResources string "gval list"
  | WithSeedJSON "seed_document list"
  | WithChaos chaos_config
  | WithBaseURL string

definition mockOption :: "mock_option \<Rightarrow> mock_config \<Rightarrow> mock_config" where
  "mockOption opt c =
     (case opt of
        WithMockProfile p \<Rightarrow> c\<lparr>mcProfile := p\<rparr>
      | WithBearerToken t \<Rightarrow> c\<lparr>mcToken := t\<rparr>
      | WithResourceType rt opts \<Rightarrow> c\<lparr>mcTypes := mcTypes c @ [\<lparr>tsRT = rt, tsOpts = opts\<rparr>]\<rparr>
      | WithoutDefaultTypes \<Rightarrow> c\<lparr>mcNoDefaults := True\<rparr>
      | WithRecorderLimit n \<Rightarrow> c\<lparr>mcRecorderLimit := max n 0\<rparr>
      | WithSeed s \<Rightarrow> c\<lparr>mcSeed := seedMerge (mcSeed c) s\<rparr>
      | WithSeedResources name docs \<Rightarrow>
          c\<lparr>mcSeed := seedMerge (mcSeed c) (noSeed\<lparr>sdResources := [(name, docs)]\<rparr>)\<rparr>
      | WithSeedJSON docs \<Rightarrow> c\<lparr>mcSeedJSON := mcSeedJSON c @ docs\<rparr>
      | WithChaos cc \<Rightarrow> c\<lparr>mcChaos := Some cc\<rparr>
      | WithBaseURL u \<Rightarrow> c\<lparr>mcBaseURL := u\<rparr>)"

text \<open>A custom type replaces the type of the same name, or is appended.\<close>

definition addType :: "type_spec \<Rightarrow> type_spec list \<Rightarrow> type_spec list" where
  "addType custom types =
     (let same = (\<lambda>ts. storeKey (rtName (tsRT ts)) = storeKey (rtName (tsRT custom)));
          i = length (takeWhile (\<lambda>ts. \<not> same ts) types)
      in if i < length types then types[i := custom] else types @ [custom])"

definition resolveTypes :: "mock_config \<Rightarrow> type_spec list" where
  "resolveTypes c =
     fold addType (mcTypes c)
       (if mcNoDefaults c then []
        else [\<lparr>tsRT = UserResourceType, tsOpts = []\<rparr>, \<lparr>tsRT = GroupResourceType, tsOpts = []\<rparr>])"

definition resolveSeed :: "mock_config \<Rightarrow> (mock_error, seed) res" where
  "resolveSeed c =
     (if mcSeedJSON c = [] then Inr (mcSeed c)
      else rbind (DecodeSeed (mcSeedJSON c)) (\<lambda>extra. Inr (seedMerge (mcSeed c) extra)))"

definition ParseProfileName :: "string \<Rightarrow> profile option" where
  "ParseProfileName name =
     (let n = foldName (trimSpace name)
      in if n = [] \<or> n = ''strict'' then Some StrictProfile
         else if n = ''default'' then Some DefaultProfile
         else if n = ''entra'' then Some EntraProfile
         else if n = ''okta'' then Some OktaProfile
         else None)"

subsection \<open>The mock\<close>

definition mockMaxFilterResults :: int where "mockMaxFilterResults = 1000"

definition mockAuth :: "string \<Rightarrow> (string \<Rightarrow> bool) option" where
  "mockAuth token = (if token = [] then None else Some (\<lambda>got. got = token))"

definition freshStore :: "mock_config \<Rightarrow> type_spec \<Rightarrow> memstore" where
  "freshStore c ts = NewStore (tsRT ts) (WithProfile (mcProfile c) # tsOpts ts)"

definition serverConfig :: "mock_config \<Rightarrow> memstore config" where
  "serverConfig c =
     \<lparr>cfgBaseURL = mcBaseURL c,
      cfgResourceTypes = map (\<lambda>ts. \<lparr>regType = tsRT ts, regStore = Some memStore\<rparr>) (resolveTypes c),
      cfgProfile = mcProfile c, cfgAuth = mockAuth (mcToken c), cfgExemptSPC = True,
      cfgMaxFilterResults = mockMaxFilterResults, cfgDefaultPageSize = 0, cfgMaxPageSize = 0,
      cfgMaxBodyBytes = 0\<rparr>"

text \<open>The stores by endpoint. The server reads no other endpoint; it shows the store of a User there.\<close>

definition freshStores :: "mock_config \<Rightarrow> string \<Rightarrow> memstore" where
  "freshStores c =
     fold (\<lambda>ts s. s(rtEndpoint (tsRT ts) := freshStore c ts)) (resolveTypes c) (\<lambda>_. NewStore UserResourceType [])"

definition endpointsOf :: "mock_config \<Rightarrow> string amap" where
  "endpointsOf c = fold (\<lambda>ts m. aput (storeKey (rtName (tsRT ts))) (rtEndpoint (tsRT ts)) m) (resolveTypes c) []"

record mock =
  mkServer :: "memstore server"
  mkChaos :: "chaos_config option"
  mkStores :: "string \<Rightarrow> memstore"
  mkRecorder :: recorder
  mkToken :: string
  mkEndpoints :: "string amap"

text \<open>While it is seeded nobody else writes; \<open>envs k\<close> is the environment of the request \<open>k\<close>.\<close>

definition seedServe ::
    "memstore server \<Rightarrow> digest \<Rightarrow> (nat \<Rightarrow> env) \<Rightarrow> http_request \<Rightarrow> nat \<times> (string \<Rightarrow> memstore) \<Rightarrow>
     response \<times> nat \<times> (string \<Rightarrow> memstore)" where
  "seedServe sv digest envs hq ks =
     (case ks of (k, s) \<Rightarrow>
        case ServeHTTP sv digest (envs k) (\<lambda>_ _ s. s) hq s of (rsp, s) \<Rightarrow> (rsp, k + 1, s))"

definition NewMock ::
    "digest \<Rightarrow> (nat \<Rightarrow> env) \<Rightarrow> (gval \<Rightarrow> int) \<Rightarrow> mock_option list \<Rightarrow> (mock_error, mock) res" where
  "NewMock digest envs bodySize opts =
     (let c = fold mockOption opts mockDefaults in
      rbind (map_err BuildFailed (newServer (serverConfig c))) (\<lambda>sv.
      rbind (resolveSeed c) (\<lambda>sd.
      rbind (if seedEmpty sd then Inr (0, freshStores c)
             else applySeed bodySize (seedServe sv digest envs) sd (endpointsOf c) (mcToken c) (0, freshStores c))
        (\<lambda>(_, stores).
        Inr \<lparr>mkServer = sv, mkChaos = mcChaos c, mkStores = stores,
          mkRecorder = \<lparr>rcReqs = [], rcLimit = mcRecorderLimit c\<rparr>, mkToken = mcToken c,
          mkEndpoints = endpointsOf c\<rparr>))))"

definition StoreOf :: "mock \<Rightarrow> string \<Rightarrow> memstore option" where
  "StoreOf mk name = map_option (mkStores mk) (aget (mkEndpoints mk) (storeKey name))"

text \<open>One request: it is recorded before any other layer sees it.\<close>

definition mockServe ::
    "('g \<Rightarrow> float64 \<times> 'g) \<Rightarrow> digest \<Rightarrow> env \<Rightarrow> (string \<Rightarrow> nat \<Rightarrow> memstore \<Rightarrow> memstore) \<Rightarrow> gotime \<Rightarrow> bool \<Rightarrow>
     http_request \<Rightarrow> mock \<times> 'g \<Rightarrow> response option \<times> mock \<times> 'g" where
  "mockServe draw digest e others now waited hq st =
     (case st of (mk, g) \<Rightarrow>
        let rec' = recordRequest \<lparr>rrRequest = hq, rrTime = now\<rparr> (mkRecorder mk);
            serve = ServeHTTP (mkServer mk) digest e others hq
        in case (case mkChaos mk of
                   None \<Rightarrow> (case serve (mkStores mk) of (rsp, s) \<Rightarrow> (Some rsp, s, g))
                 | Some cc \<Rightarrow> chaosServe draw cc waited serve (mkStores mk, g)) of
             (rsp, s, g) \<Rightarrow> (rsp, mk\<lparr>mkStores := s, mkRecorder := rec'\<rparr>, g))"

end
