(* ===== verification/Server_Statuses.thy ===== *)
theory Server_Statuses
  imports Server_Laws Server_Samples
begin

text \<open>
  The statuses of errors. Every error the library makes has one of the statuses of RFC 7644,
  whichever part it comes from.
\<close>

named_theorems errs

definition errorStatuses :: "int list" where
  "errorStatuses = [400, 401, 403, 404, 409, 412, 413, 415, 500, 501]"

definition scimErrs :: "(scim_error, 'a) res \<Rightarrow> bool" where
  "scimErrs r \<longleftrightarrow> (\<forall>e. r = Inl e \<longrightarrow> errStatus e \<in> set errorStatuses)"

definition goErrs :: "(go_error, 'a) res \<Rightarrow> bool" where
  "goErrs r \<longleftrightarrow> (\<forall>e. r = Inl (ScimErr e) \<longrightarrow> errStatus e \<in> set errorStatuses)"

lemmas err_defs = ErrInvalidFilter_def ErrTooMany_def ErrUniqueness_def ErrMutability_def ErrInvalidSyntax_def
  ErrInvalidPath_def ErrNoTarget_def ErrInvalidValue_def ErrInvalidVers_def ErrSensitive_def ErrNotFound_def
  ErrPreconditionFailed_def

lemmas err_splits = if_splits option.split sum.split prod.split list.split gval.split mutability.split kind.split

lemma rfold_error: "(\<And>x s e. h x s = Inl e \<Longrightarrow> P e) \<Longrightarrow> rfold h xs st = Inl e \<Longrightarrow> P e"
  by (induction xs arbitrary: st) (auto simp: rbind_eq_Inl)

lemma scimErrs_basic [errs]:
  "scimErrs (Inr x)" "errStatus e \<in> set errorStatuses \<Longrightarrow> scimErrs (Inl e)"
  "scimErrs r \<Longrightarrow> (\<And>x. scimErrs (f x)) \<Longrightarrow> scimErrs (rbind r f)"
  "(\<And>e. errStatus (g e) \<in> set errorStatuses) \<Longrightarrow> scimErrs (map_err g r')"
  "(\<And>x s. scimErrs (h x s)) \<Longrightarrow> scimErrs (rfold h xs st)"
  by (auto simp: scimErrs_def rbind_eq_Inl map_err_eq_Inl elim: rfold_error [rotated])

lemma collect_error: "(\<And>x e. h x = Inl e \<Longrightarrow> P e) \<Longrightarrow> collect h xs = Inl e \<Longrightarrow> P e"
  unfolding collect_def by (rule rfold_error [rotated]) (auto simp: rbind_eq_Inl)

lemma scimErrs_collect [errs]: "(\<And>x. scimErrs (h x)) \<Longrightarrow> scimErrs (collect h xs)"
  by (auto simp: scimErrs_def elim: collect_error [rotated])

lemma goErrs_basic [errs]:
  "goErrs (Inr x)" "goErrs (Inl OtherErr)" "errStatus e \<in> set errorStatuses \<Longrightarrow> goErrs (Inl (ScimErr e))"
  "goErrs r \<Longrightarrow> (\<And>x. goErrs (f x)) \<Longrightarrow> goErrs (rbind r f)"
  "scimErrs r'' \<Longrightarrow> goErrs (map_err ScimErr r'')" "goErrs (map_err (\<lambda>_. OtherErr) r')"
  by (auto simp: scimErrs_def goErrs_def rbind_eq_Inl map_err_eq_Inl)

lemma goErrs_rfold [errs]: "(\<And>x s. goErrs (h x s)) \<Longrightarrow> goErrs (rfold h xs st)"
  by (induction xs arbitrary: st) (simp_all add: goErrs_basic)

lemma goErrs_collect [errs]: "(\<And>x. goErrs (g x)) \<Longrightarrow> goErrs (collect g xs)"
  unfolding collect_def by (intro errs)

lemma statuses [simp]:
  "n \<in> set errorStatuses \<longleftrightarrow>
     n = 400 \<or> n = 401 \<or> n = 403 \<or> n = 404 \<or> n = 409 \<or> n = 412 \<or> n = 413 \<or> n = 415 \<or> n = 500 \<or> n = 501"
  by (auto simp: errorStatuses_def)

text \<open>\<open>Scim_Path\<close>\<close>

lemma errs_resolveAttrExpr [errs]: "scimErrs (resolveAttrExpr x1 x2 x3)"
  by (auto simp: resolveAttrExpr_def err_defs Let_def intro!: errs split: err_splits)

lemma errs_resolvePath [errs]: "scimErrs (resolvePath x1 x2)"
  by (auto simp: resolvePath_def err_defs Let_def intro!: errs split: err_splits)

text \<open>\<open>Scim_Resource\<close>\<close>

lemma errs_Lookup [errs]: "scimErrs (Lookup x1 x2)"
  by (auto simp: Lookup_def err_defs Let_def intro!: errs split: err_splits)

lemma errs_setSub [errs]: "scimErrs (setSub x1 x2 x3 x4)"
  by (auto simp: setSub_def err_defs Let_def intro!: errs split: err_splits)

lemma errs_setInContainer [errs]: "scimErrs (setInContainer x1 x2 x3 x4)"
  by (auto simp: setInContainer_def err_defs Let_def intro!: errs split: err_splits)

lemma errs_containerStep [errs]: "scimErrs (containerStep x1 x2 x3)"
  by (auto simp: containerStep_def err_defs Let_def intro!: errs split: err_splits)

lemma errs_setExtensionContainer [errs]: "scimErrs (setExtensionContainer x1 x2 x3 x4)"
  by (auto simp: setExtensionContainer_def err_defs Let_def intro!: errs split: err_splits)

lemma errs_setExtension [errs]: "scimErrs (setExtension x1 x2 x3 x4)"
  by (auto simp: setExtension_def err_defs Let_def intro!: errs split: err_splits)

lemma errs_setCommon [errs]: "scimErrs (setCommon x1 x2 x3 x4)"
  by (auto simp: setCommon_def err_defs Let_def intro!: errs split: err_splits)

lemma errs_setResolved [errs]: "scimErrs (setResolved x1 x2 x3)"
  by (auto simp: setResolved_def err_defs Let_def intro!: errs split: err_splits)

lemma errs_Set [errs]: "scimErrs (Set x1 x2 x3)"
  by (auto simp: Set_def err_defs Let_def intro!: errs split: err_splits)

lemma errs_Unassign [errs]: "scimErrs (Unassign x1 x2)"
  by (auto simp: Unassign_def err_defs Let_def intro!: errs split: err_splits)

text \<open>\<open>Scim_Codec\<close>\<close>

lemma errs_decodeAttr [errs]: "scimErrs (decodeAttr x1 x2 x3 x4 x5)"
  by (auto simp: decodeAttr_def err_defs Let_def intro!: errs split: err_splits)

lemma errs_decodeExtension [errs]: "scimErrs (decodeExtension x1 x2 x3 x4)"
  by (auto simp: decodeExtension_def err_defs Let_def intro!: errs split: err_splits)

lemma errs_metaString [errs]: "scimErrs (metaString x1)"
  by (auto simp: metaString_def err_defs Let_def intro!: errs split: err_splits)

lemma errs_metaTime [errs]: "scimErrs (metaTime x1)"
  by (auto simp: metaTime_def err_defs Let_def intro!: errs split: err_splits)

lemma errs_decodeMetaField [errs]: "scimErrs (decodeMetaField x1 x2 x3)"
  by (auto simp: decodeMetaField_def err_defs Let_def intro!: errs split: err_splits)

lemma errs_decodeMeta [errs]: "scimErrs (decodeMeta x1 x2)"
  by (auto simp: decodeMeta_def err_defs Let_def intro!: errs split: err_splits)

lemma errs_decodeTopLevel [errs]: "scimErrs (decodeTopLevel x1 x2 x3)"
  by (auto simp: decodeTopLevel_def err_defs Let_def intro!: errs split: err_splits)

lemma errs_DecodeResource [errs]: "scimErrs (DecodeResource x1 x2 x3)"
  by (auto simp: DecodeResource_def err_defs Let_def intro!: errs split: err_splits)

lemma errs_marshalOrdered [errs]: "goErrs (marshalOrdered x1)"
  by (auto simp: marshalOrdered_def err_defs Let_def intro!: errs split: err_splits)

lemma errs_EncodeResource [errs]: "goErrs (EncodeResource x1 x2)"
  by (auto simp: EncodeResource_def err_defs Let_def intro!: errs split: err_splits)

text \<open>\<open>Scim_Id\<close>\<close>

lemma errs_NewID [errs]: "goErrs (NewID x1)"
  by (auto simp: NewID_def err_defs Let_def intro!: errs split: err_splits)

lemma errs_ValidateID [errs]: "scimErrs (ValidateID x1)"
  by (auto simp: ValidateID_def err_defs Let_def intro!: errs split: err_splits)

text \<open>\<open>Scim_List\<close>\<close>

lemma errs_jsonString [errs]: "scimErrs (jsonString x1 x2)"
  by (auto simp: jsonString_def err_defs Let_def intro!: errs split: err_splits)

lemma errs_jsonStrings [errs]: "scimErrs (jsonStrings x1)"
  by (auto simp: jsonStrings_def err_defs Let_def intro!: errs split: err_splits)

lemma errs_jsonInt [errs]: "scimErrs (jsonInt x1)"
  by (auto simp: jsonInt_def err_defs Let_def intro!: errs split: err_splits)

lemma errs_listInt [errs]: "scimErrs (listInt x1)"
  by (auto simp: listInt_def err_defs Let_def intro!: errs split: err_splits)

lemma errs_listField [errs]: "scimErrs (listField x1 x2)"
  by (auto simp: listField_def err_defs Let_def intro!: errs split: err_splits)

lemma errs_ListResponse_UnmarshalJSON [errs]: "scimErrs (ListResponse_UnmarshalJSON x1)"
  by (auto simp: ListResponse_UnmarshalJSON_def err_defs Let_def intro!: errs split: err_splits)

text \<open>\<open>Filter_Parser\<close>\<close>

lemma errs_ParseFilter [errs]: "scimErrs (ParseFilter x1 x2)"
  by (auto simp: ParseFilter_def err_defs Let_def intro!: errs split: err_splits)

lemma errs_ParsePathErr [errs]: "scimErrs (ParsePathErr x1 x2)"
  by (auto simp: ParsePathErr_def err_defs Let_def intro!: errs split: err_splits)

text \<open>\<open>Filter_Match\<close>\<close>

lemma errs_Match [errs]: "scimErrs (Match x1 x2)"
  by (auto simp: Match_def err_defs Let_def intro!: errs split: err_splits)

lemma errs_MatchElement [errs]: "scimErrs (MatchElement x1 x2 x3 x4)"
  by (auto simp: MatchElement_def err_defs Let_def intro!: errs split: err_splits)

text \<open>\<open>Patch_Decode\<close>\<close>

lemma errs_checkSchemas [errs]: "scimErrs (checkSchemas x1)"
  by (auto simp: checkSchemas_def err_defs Let_def intro!: errs split: err_splits)

lemma errs_rawOpStep [errs]: "scimErrs (rawOpStep x1 x2)"
  by (auto simp: rawOpStep_def err_defs Let_def intro!: errs split: err_splits)

lemma errs_parseRawOp [errs]: "scimErrs (parseRawOp x1)"
  by (auto simp: parseRawOp_def err_defs Let_def intro!: errs split: err_splits)

lemma errs_parseEnvelope [errs]: "scimErrs (parseEnvelope x1)"
  by (auto simp: parseEnvelope_def err_defs Let_def intro!: errs split: err_splits)

lemma errs_parseKind [errs]: "scimErrs (parseKind x1 x2)"
  by (auto simp: parseKind_def err_defs Let_def intro!: errs split: err_splits)

lemma errs_buildOp [errs]: "scimErrs (buildOp x1 x2)"
  by (auto simp: buildOp_def err_defs Let_def intro!: errs split: err_splits)

lemma errs_selectorStep [errs]: "scimErrs (selectorStep x1 x2)"
  by (auto simp: selectorStep_def err_defs Let_def intro!: errs split: err_splits)

lemma errs_selectorObjectFilter [errs]: "scimErrs (selectorObjectFilter x1)"
  by (auto simp: selectorObjectFilter_def err_defs Let_def intro!: errs split: err_splits)

lemma errs_selectorFilter [errs]: "scimErrs (selectorFilter x1)"
  by (auto simp: selectorFilter_def err_defs Let_def intro!: errs split: err_splits)

lemma errs_rewriteOne [errs]: "scimErrs (rewriteOne x1)"
  by (auto simp: rewriteOne_def err_defs Let_def intro!: errs split: err_splits)

lemma errs_rewriteRemoveSelectors [errs]: "scimErrs (rewriteRemoveSelectors x1)"
  by (auto simp: rewriteRemoveSelectors_def err_defs Let_def intro!: errs split: err_splits)

lemma errs_Decode [errs]: "scimErrs (Decode x1 x2 x3)"
  by (auto simp: Decode_def err_defs Let_def intro!: errs split: err_splits)

text \<open>\<open>Patch_Apply\<close>\<close>

lemma errs_setTracked [errs]: "scimErrs (setTracked x1 x2 x3)"
  by (auto simp: setTracked_def err_defs Let_def intro!: errs split: err_splits)

lemma errs_coerceOpValue [errs]: "scimErrs (coerceOpValue x1 x2)"
  by (auto simp: coerceOpValue_def err_defs Let_def intro!: errs split: err_splits)

lemma errs_checkImmutableAttr [errs]: "scimErrs (checkImmutableAttr x1 x2 x3 x4 x5)"
  by (auto simp: checkImmutableAttr_def err_defs Let_def intro!: errs split: err_splits)

lemma errs_checkImmutablePathed [errs]: "scimErrs (checkImmutablePathed x1 x2 x3 x4 x5)"
  by (auto simp: checkImmutablePathed_def err_defs Let_def intro!: errs split: err_splits)

lemma errs_checkImmutableSubPath [errs]: "scimErrs (checkImmutableSubPath x1 x2 x3 x4)"
  by (auto simp: checkImmutableSubPath_def err_defs Let_def intro!: errs split: err_splits)

lemma errs_checkMutable [errs]: "scimErrs (checkMutable x1 x2 x3 x4 x5)"
  by (auto simp: checkMutable_def err_defs Let_def intro!: errs split: err_splits)

lemma errs_resolveOpTarget [errs]: "scimErrs (resolveOpTarget x1 x2 x3)"
  by (auto simp: resolveOpTarget_def err_defs Let_def intro!: errs split: err_splits)

lemma errs_checkElemImmutable [errs]: "scimErrs (checkElemImmutable x1 x2 x3)"
  by (auto simp: checkElemImmutable_def err_defs Let_def intro!: errs split: err_splits)

lemma errs_matchStep [errs]: "scimErrs (matchStep x1 x2 x3 x4 x5)"
  by (auto simp: matchStep_def err_defs Let_def intro!: errs split: err_splits)

lemma errs_matchingElements [errs]: "scimErrs (matchingElements x1 x2 x3 x4)"
  by (auto simp: matchingElements_def err_defs Let_def intro!: errs split: err_splits)

lemma errs_mergeElemKey [errs]: "scimErrs (mergeElemKey x1 x2 x3)"
  by (auto simp: mergeElemKey_def err_defs Let_def intro!: errs split: err_splits)

lemma errs_mergeElemKeys [errs]: "scimErrs (mergeElemKeys x1 x2 x3)"
  by (auto simp: mergeElemKeys_def err_defs Let_def intro!: errs split: err_splits)

lemma errs_writeElement [errs]: "scimErrs (writeElement x1 x2 x3 x4 x5)"
  by (auto simp: writeElement_def err_defs Let_def intro!: errs split: err_splits)

lemma errs_writeToElements [errs]: "scimErrs (writeToElements x1 x2 x3 x4 x5 x6 x7)"
  by (auto simp: writeToElements_def err_defs Let_def intro!: errs split: err_splits)

lemma errs_synthesizeElement [errs]: "scimErrs (synthesizeElement x1 x2 x3 x4 x5)"
  by (auto simp: synthesizeElement_def err_defs Let_def intro!: errs split: err_splits)

lemma errs_addMulti [errs]: "scimErrs (addMulti x1 x2 x3 x4)"
  by (auto simp: addMulti_def err_defs Let_def intro!: errs split: err_splits)

lemma errs_mergeComplex [errs]: "scimErrs (mergeComplex x1 x2 x3 x4)"
  by (auto simp: mergeComplex_def err_defs Let_def intro!: errs split: err_splits)

lemma errs_addToAttribute [errs]: "scimErrs (addToAttribute x1 x2 x3 x4)"
  by (auto simp: addToAttribute_def err_defs Let_def intro!: errs split: err_splits)

lemma errs_addValuePath [errs]: "scimErrs (addValuePath x1 x2 x3 x4 x5 x6)"
  by (auto simp: addValuePath_def err_defs Let_def intro!: errs split: err_splits)

lemma errs_removeSubStep [errs]: "scimErrs (removeSubStep x1 x2 x3)"
  by (auto simp: removeSubStep_def err_defs Let_def intro!: errs split: err_splits)

lemma errs_removeSubFromElements [errs]: "scimErrs (removeSubFromElements x1 x2 x3 x4 x5)"
  by (auto simp: removeSubFromElements_def err_defs Let_def intro!: errs split: err_splits)

lemma errs_removeValuePath [errs]: "scimErrs (removeValuePath x1 x2 x3 x4 x5)"
  by (auto simp: removeValuePath_def err_defs Let_def intro!: errs split: err_splits)

lemma errs_applyRemove [errs]: "scimErrs (applyRemove x1 x2)"
  by (auto simp: applyRemove_def err_defs Let_def intro!: errs split: err_splits)

lemma errs_replaceAttribute [errs]: "scimErrs (replaceAttribute x1 x2 x3 x4)"
  by (auto simp: replaceAttribute_def err_defs Let_def intro!: errs split: err_splits)

lemma errs_checkReplacedSub [errs]: "scimErrs (checkReplacedSub x1 x2 x3)"
  by (auto simp: checkReplacedSub_def err_defs Let_def intro!: errs split: err_splits)

lemma errs_checkReplacedElement [errs]: "scimErrs (checkReplacedElement x1 x2 x3)"
  by (auto simp: checkReplacedElement_def err_defs Let_def intro!: errs split: err_splits)

lemma errs_replaceElement [errs]: "scimErrs (replaceElement x1 x2 x3 x4)"
  by (auto simp: replaceElement_def err_defs Let_def intro!: errs split: err_splits)

lemma errs_replaceValuePath [errs]: "scimErrs (replaceValuePath x1 x2 x3 x4 x5 x6)"
  by (auto simp: replaceValuePath_def err_defs Let_def intro!: errs split: err_splits)

lemma errs_applyPathlessAttr [errs]: "scimErrs (applyPathlessAttr x1 x2 x3 x4 x5)"
  by (auto simp: applyPathlessAttr_def err_defs Let_def intro!: errs split: err_splits)

lemma errs_applyPathlessExtKey [errs]: "scimErrs (applyPathlessExtKey x1 x2 x3 x4 x5)"
  by (auto simp: applyPathlessExtKey_def err_defs Let_def intro!: errs split: err_splits)

lemma errs_applyPathlessExtension [errs]: "scimErrs (applyPathlessExtension x1 x2 x3 x4 x5)"
  by (auto simp: applyPathlessExtension_def err_defs Let_def intro!: errs split: err_splits)

lemma errs_applyPathlessKey [errs]: "scimErrs (applyPathlessKey x1 x2 x3)"
  by (auto simp: applyPathlessKey_def err_defs Let_def intro!: errs split: err_splits)

lemma errs_addPathless [errs]: "scimErrs (addPathless x1 x2)"
  by (auto simp: addPathless_def err_defs Let_def intro!: errs split: err_splits)

lemma errs_applyAdd [errs]: "scimErrs (applyAdd x1 x2)"
  by (auto simp: applyAdd_def err_defs Let_def intro!: errs split: err_splits)

lemma errs_applyReplace [errs]: "scimErrs (applyReplace x1 x2)"
  by (auto simp: applyReplace_def err_defs Let_def intro!: errs split: err_splits)

lemma errs_applyOp [errs]: "scimErrs (applyOp x1 x2)"
  by (auto simp: applyOp_def err_defs Let_def intro!: errs split: err_splits)

lemma errs_Apply [errs]: "scimErrs (Apply x1 x2 x3)"
  by (auto simp: Apply_def err_defs Let_def intro!: errs split: err_splits)

text \<open>\<open>Mem_Store\<close>\<close>

lemma errs_checkUnique [errs]: "goErrs (checkUnique x1 x2 x3)"
  by (auto simp: checkUnique_def err_defs Let_def intro!: errs split: err_splits)

lemma errs_memCreate [errs]: "goErrs (memCreate x1 x2 x3)"
  by (auto simp: memCreate_def err_defs Let_def intro!: errs split: err_splits)

lemma errs_memGet [errs]: "goErrs (memGet x1 x2)"
  by (auto simp: memGet_def err_defs Let_def intro!: errs split: err_splits)

lemma errs_memReplace [errs]: "goErrs (memReplace x1 x2 x3)"
  by (auto simp: memReplace_def err_defs Let_def intro!: errs split: err_splits)

lemma errs_memDelete [errs]: "goErrs (memDelete x1 x2)"
  by (auto simp: memDelete_def err_defs Let_def intro!: errs split: err_splits)

lemma errs_memPatch [errs]: "goErrs (memPatch x1 x2 x3 x4)"
  by (auto simp: memPatch_def err_defs Let_def intro!: errs split: err_splits)

lemma errs_matchAll [errs]: "goErrs (matchAll f rs)"
  by (auto simp: goErrs_def err_defs dest: matchAll_Inl)

lemma errs_matchCandidates [errs]: "goErrs (matchCandidates x1 x2)"
  by (auto simp: matchCandidates_def err_defs Let_def intro!: errs split: err_splits)

lemma errs_memList [errs]: "goErrs (memList x1 x2)"
  by (auto simp: memList_def err_defs Let_def intro!: errs split: err_splits)

text \<open>\<open>Server_Query\<close>\<close>

lemma errs_parseProjection [errs]: "scimErrs (parseProjection x1 x2)"
  by (auto simp: parseProjection_def err_defs Let_def intro!: errs split: err_splits)

lemma errs_normalizeSort [errs]: "scimErrs (normalizeSort x1 x2 x3)"
  by (auto simp: normalizeSort_def err_defs Let_def intro!: errs split: err_splits)

lemma errs_normalizePagination [errs]: "scimErrs (normalizePagination x1 x2 x3 x4)"
  by (auto simp: normalizePagination_def err_defs Let_def intro!: errs split: err_splits)

lemma errs_normalize [errs]: "scimErrs (normalize x1 x2 x3)"
  by (auto simp: normalize_def err_defs Let_def intro!: errs split: err_splits)

lemma errs_parseListParams [errs]: "scimErrs (parseListParams x1 x2 x3)"
  by (auto simp: parseListParams_def err_defs Let_def intro!: errs split: err_splits)

lemma errs_searchField [errs]: "scimErrs (searchField x1 x2)"
  by (auto simp: searchField_def err_defs Let_def intro!: errs split: err_splits)

lemma errs_parseSearchBody [errs]: "scimErrs (parseSearchBody x1 x2 x3)"
  by (auto simp: parseSearchBody_def err_defs Let_def intro!: errs split: err_splits)

text \<open>\<open>Server_Pipeline\<close>\<close>

lemma errs_checkCanonical [errs]: "scimErrs (checkCanonical x1 x2 x3)"
  by (auto simp: checkCanonical_def err_defs Let_def intro!: errs split: err_splits)

lemma errs_validateSub [errs]: "scimErrs (validateSub x1 x2 x3)"
  by (auto simp: validateSub_def err_defs Let_def intro!: errs split: err_splits)

lemma errs_validateElement [errs]: "scimErrs (validateElement x1 x2 x3)"
  by (auto simp: validateElement_def err_defs Let_def intro!: errs split: err_splits)

lemma errs_validateValue [errs]: "scimErrs (validateValue x1 x2 x3)"
  by (auto simp: validateValue_def err_defs Let_def intro!: errs split: err_splits)

lemma errs_validateAttr [errs]: "scimErrs (validateAttr x1 x2 x3 x4)"
  by (auto simp: validateAttr_def err_defs Let_def intro!: errs split: err_splits)

lemma errs_validateContainer [errs]: "scimErrs (validateContainer x1 x2 x3 x4)"
  by (auto simp: validateContainer_def err_defs Let_def intro!: errs split: err_splits)

lemma errs_validateExtension [errs]: "scimErrs (validateExtension x1 x2 x3)"
  by (auto simp: validateExtension_def err_defs Let_def intro!: errs split: err_splits)

lemma errs_validateResource [errs]: "scimErrs (validateResource x1 x2 x3)"
  by (auto simp: validateResource_def err_defs Let_def intro!: errs split: err_splits)

lemma errs_mergeImmutable [errs]: "scimErrs (mergeImmutable x1 x2 x3)"
  by (auto simp: mergeImmutable_def err_defs Let_def intro!: errs split: err_splits)

lemma errs_mergePutAttr [errs]: "scimErrs (mergePutAttr x1 x2 x3 x4)"
  by (auto simp: mergePutAttr_def err_defs Let_def intro!: errs split: err_splits)

lemma errs_mergePutAttrs [errs]: "scimErrs (mergePutAttrs x1 x2 x3 x4)"
  by (auto simp: mergePutAttrs_def err_defs Let_def intro!: errs split: err_splits)

lemma errs_mergePut [errs]: "scimErrs (mergePut x1 x2 x3 x4)"
  by (auto simp: mergePut_def err_defs Let_def intro!: errs split: err_splits)

lemma errs_resourceETag [errs]: "goErrs (resourceETag x1 x2)"
  by (auto simp: resourceETag_def err_defs Let_def intro!: errs split: err_splits)

lemma errs_stampETag [errs]: "goErrs (stampETag x1 x2)"
  by (auto simp: stampETag_def err_defs Let_def intro!: errs split: err_splits)

lemma errs_checkIfMatch [errs]: "goErrs (checkIfMatch x1 x2 x3)"
  by (auto simp: checkIfMatch_def err_defs Let_def intro!: errs split: err_splits)

text \<open>\<open>Server_Handlers\<close>\<close>

lemma errs_assignCreateIdentity [errs]: "goErrs (assignCreateIdentity x1 x2 x3)"
  by (auto simp: assignCreateIdentity_def err_defs Let_def intro!: errs split: err_splits)

lemma errs_readBody [errs]: "goErrs (readBody x1 x2)"
  by (auto simp: readBody_def err_defs Let_def intro!: errs split: err_splits)

lemma errs_requestProjection [errs]: "goErrs (requestProjection x1)"
  by (auto simp: requestProjection_def err_defs Let_def intro!: errs split: err_splits)

lemma errs_prepareCreate [errs]: "goErrs (prepareCreate x1 x2 x3)"
  by (auto simp: prepareCreate_def err_defs Let_def intro!: errs split: err_splits)

lemma errs_mergedPut [errs]: "goErrs (mergedPut x1 x2 x3 x4 x5 x6)"
  by (auto simp: mergedPut_def err_defs Let_def intro!: errs split: err_splits)

lemma errs_prepareReplace [errs]: "goErrs (prepareReplace x1 x2)"
  by (auto simp: prepareReplace_def err_defs Let_def intro!: errs split: err_splits)

lemma errs_preflightPatch [errs]: "goErrs (preflightPatch x1 x2 x3)"
  by (auto simp: preflightPatch_def err_defs Let_def intro!: errs split: err_splits)

lemma errs_patchOnce [errs]: "goErrs (patchOnce x1 x2 x3 x4 x5 x6)"
  by (auto simp: patchOnce_def err_defs Let_def intro!: errs split: err_splits)

lemma errs_preparePatch [errs]: "goErrs (preparePatch x1 x2)"
  by (auto simp: preparePatch_def err_defs Let_def intro!: errs split: err_splits)

lemma errs_encodeListed [errs]: "goErrs (encodeListed x1 x2 x3)"
  by (auto simp: encodeListed_def err_defs Let_def intro!: errs split: err_splits)

subsection \<open>Answers\<close>

text \<open>An answer is a success with one of four statuses, or an error with a status of the list that is
  also the status in its body.\<close>

definition properAnswer :: "response \<Rightarrow> bool" where
  "properAnswer rsp \<longleftrightarrow>
     (case rsBody rsp of
        ErrorBody e \<Rightarrow> rsStatus rsp = errStatus e \<and> rsStatus rsp \<in> set errorStatuses
      | _ \<Rightarrow> rsStatus rsp \<in> {200, 201, 204, 304})"

lemma proper_error: "goErrs (Inl e) \<Longrightarrow> properAnswer (writeError e)"
  by (auto simp: goErrs_def properAnswer_def writeError_def Let_def split: go_error.splits)

lemma proper_case:
  "goErrs r \<Longrightarrow> (\<And>x. r = Inr x \<Longrightarrow> properAnswer (f x)) \<Longrightarrow>
     properAnswer (case r of Inl e \<Rightarrow> writeError e | Inr x \<Rightarrow> f x)"
  by (cases r) (auto intro: proper_error)

lemma proper_resource: "n \<in> {200, 201} \<Longrightarrow> properAnswer (writeResource digest r p n)"
  unfolding writeResource_def
  by (rule proper_case, (auto intro!: errs)[1]) (auto simp: properAnswer_def split: prod.splits)

lemma proper_respond:
  "goErrs (fst rs) \<Longrightarrow> (\<And>x. properAnswer (f x)) \<Longrightarrow> properAnswer (fst (respond rs f))"
  unfolding respond_def fst_conv by (rule proper_case)

lemma errs_cast: "goErrs (Inl e :: (go_error, 'a) res) \<Longrightarrow> goErrs (Inl e :: (go_error, 'b) res)"
  by (simp add: goErrs_def)

lemma errs_commit: "goErrs (f s) \<Longrightarrow> goErrs (fst (commit f s))"
  by (auto simp: commit_def goErrs_def split: sum.splits prod.splits)

text \<open>A store all of whose errors have such a status.\<close>

locale polite_store =
  fixes st :: "'s store"
  assumes polite: "goErrs (stCreate st e r s)" "goErrs (stGet st i s)" "goErrs (stList st q s)"
      "goErrs (stReplace st i r s)" "goErrs (stDelete st i s)"
    and polite_patcher: "stPatcher st = Some patcher \<Longrightarrow> goErrs (patcher e i ops s)"
begin

lemma query_errs:
  assumes "thStore h = st" shows "goErrs (runQuery h q s)"
proof -
  have "goErrs (scanQuery h q f s)" for f
    by (auto simp: scanQuery_def assms err_defs Let_def intro!: errs polite split: err_splits)
  then show ?thesis by (auto simp: runQuery_def assms Let_def intro!: errs polite split: err_splits)
qed

lemma create_proper:
  assumes "thStore h = st" shows "properAnswer (fst (handleCreate h digest e rq s))"
proof (cases "prepareCreate h e rq")
  case (Inl err)
  with errs_prepareCreate [of h e rq] show ?thesis by (simp add: handleCreate_def proper_error)
qed (simp add: handleCreate_def assms split_beta proper_respond proper_resource errs_commit polite)

lemma get_proper:
  assumes "thStore h = st" shows "properAnswer (handleGet h digest rq s)"
proof -
  have "goErrs (rbind (requestProjection rq) (\<lambda>proj.
      rbind (stGet (thStore h) (rqID rq) s) (\<lambda>r.
      rbind (resourceETag digest r) (\<lambda>tag. Inr (proj, r, tag)))))"
    unfolding assms by (intro errs polite)
  then show ?thesis
    unfolding handleGet_def
    by (rule proper_case) (auto simp: properAnswer_def [of "\<lparr>rsStatus = _, rsETag = _, rsLocation = _, rsBody = _\<rparr>"]
        intro!: proper_resource split: prod.splits)
qed

lemma replace_proper:
  assumes h: "thStore h = st" shows "properAnswer (fst (handleReplace h digest e others rq s))"
proof (cases "prepareReplace h rq")
  case (Inl err)
  with errs_prepareReplace [of h rq] show ?thesis by (simp add: handleReplace_def proper_error)
next
  case (Inr p)
  have "goErrs (fst (replaceLocked h digest e others rq incoming s))" for incoming
  proof (cases "rbind (stGet st (rqID rq) s) (mergedPut h digest e rq incoming)")
    case (Inl err)
    have "goErrs (rbind (stGet st (rqID rq) s) (mergedPut h digest e rq incoming))" by (intro errs polite)
    with Inl show ?thesis by (simp add: replaceLocked_def h)
  qed (simp add: replaceLocked_def h errs_commit polite)
  with Inr show ?thesis by (simp add: handleReplace_def split_beta proper_respond proper_resource)
qed

lemma delete_proper:
  assumes h: "thStore h = st" shows "properAnswer (fst (handleDelete h digest others rq s))"
proof -
  define r where "r = (if rqIfMatch rq = [] then Inr s
    else rbind (stGet st (rqID rq) s) (\<lambda>current.
      rbind (checkIfMatch digest (rqIfMatch rq) current) (\<lambda>_. Inr (others 0 s))))"
  have r: "goErrs r" by (auto simp: r_def intro!: errs polite)
  have del: "handleDelete h digest others rq s = (case r of
      Inl e \<Rightarrow> (writeError e, s)
    | Inr s1 \<Rightarrow> (case stDelete st (rqID rq) s1 of
        Inl e \<Rightarrow> (writeError e, s1)
      | Inr s2 \<Rightarrow> (\<lparr>rsStatus = 204, rsETag = None, rsLocation = None, rsBody = NoBody\<rparr>, s2)))"
    unfolding handleDelete_def r_def h by (rule refl)
  show ?thesis
  proof (cases r)
    case (Inl err)
    with r show ?thesis by (simp add: del proper_error)
  next
    case r1: (Inr s1)
    show ?thesis
    proof (cases "stDelete st (rqID rq) s1")
      case (Inl err)
      with polite(5) [of "rqID rq" s1] r1 show ?thesis by (simp add: del proper_error)
    qed (simp add: del r1 properAnswer_def)
  qed
qed

lemma loop_errs: "thStore h = st \<Longrightarrow> goErrs (fst (patchLoop h digest now others rq ops attempt s))"
proof (induction h digest now others rq ops attempt s rule: patchLoop.induct)
  case (1 h digest now others rq ops attempt s)
  note h = 1(2)
  have read: "goErrs (rbind (stGet st (rqID rq) s) (patchOnce h digest rq ops (attempt = 0)))" by (intro errs polite)
  show ?case
  proof (cases "rbind (stGet st (rqID rq) s) (patchOnce h digest rq ops (attempt = 0))")
    case (Inl e)
    with read h show ?thesis by (subst patchLoop.simps) (simp add: errs_cast [of e])
  next
    case (Inr rc)
    obtain r changed where rc: "rc = (r, changed)" by fastforce
    define w where "w = stReplace st (rqID rq) (SetMeta ((rMeta r)\<lparr>mLastModified := now attempt\<rparr>) r) (others attempt s)"
    have w: "goErrs w" by (simp add: w_def polite)
    show ?thesis
    proof (cases w)
      case (Inl e)
      with w have e: "goErrs (Inl e :: (go_error, resource) res)" by (simp add: errs_cast)
      show ?thesis
        using 1(1) [OF _ rc [symmetric], of "others attempt s" e] Inr Inl e h rc
        by (subst patchLoop.simps) (auto simp: w_def [symmetric] Let_def goErrs_basic(1))
    next
      case (Inr rs)
      then show ?thesis using \<open>rbind _ _ = Inr rc\<close> rc h
        by (subst patchLoop.simps) (auto simp: w_def [symmetric] Let_def goErrs_basic(1) split: prod.splits)
    qed
  qed
qed

lemma patch_proper:
  assumes h: "thStore h = st" shows "properAnswer (fst (handlePatch h digest e others rq s))"
proof (cases "preparePatch h rq")
  case (Inl err)
  with errs_preparePatch [of h rq] show ?thesis by (simp add: handlePatch_def proper_error)
next
  case (Inr p)
  have native: "goErrs (fst (patchNative h patcher digest e others rq ops s))" if p: "stPatcher st = Some patcher" for patcher ops
  proof -
    define r where "r = rbind (stGet st (rqID rq) s) (\<lambda>current.
        rbind (checkIfMatch digest (rqIfMatch rq) current) (\<lambda>_.
          if strictMode (thConfig h) then preflightPatch h current ops else Inr ()))"
    have "goErrs r" by (auto simp: r_def intro!: errs polite)
    moreover have "goErrs (fst (commit (patcher e (rqID rq) ops) s'))" for s'
      by (intro errs_commit polite_patcher [OF p])
    ultimately show ?thesis
      by (cases r) (auto simp: patchNative_def h r_def [symmetric] intro: errs_cast)
  qed
  with Inr loop_errs [OF h] show ?thesis
    by (cases "stPatcher st")
      (simp_all add: handlePatch_def patchFallback_def h split_beta proper_respond proper_resource)
qed

lemma list_proper:
  assumes "thStore h = st"
  shows "properAnswer (handleList h digest rq s)" "properAnswer (handleSearch h digest rq s)"
proof -
  have respond: "properAnswer (respondList h digest lr s)" for lr
    unfolding respondList_def
    by (rule proper_case, (auto intro!: errs query_errs assms split: prod.split)[1])
      (auto simp: properAnswer_def split: prod.splits)
  have "scimErrs (parseListParams (rqQuery rq) (thRT h) (thConfig h))" by (intro errs)
  then show "properAnswer (handleList h digest rq s)"
    using respond by (auto simp: handleList_def scimErrs_def goErrs_def intro!: proper_error split: sum.splits)
  show "properAnswer (handleSearch h digest rq s)"
    unfolding handleSearch_def by (rule proper_case, (auto intro!: errs)[1]) (rule respond)
qed

end

interpretation polite: polite_store "limitedStore n f g" for n f g
  by unfold_locales
    (auto simp: memStore_def limitedStore_def intro!: errs split: if_splits)

subsection \<open>The server\<close>

lemma discovery_proper:
  "properAnswer (handleSPC d rq)" "properAnswer (handleResourceTypes d rq)" "properAnswer (handleSchemas d rq)"
  "properAnswer (handleResourceType d k rq)" "properAnswer (handleSchema d k rq)"
  by (auto simp: handleSPC_def handleResourceTypes_def handleSchemas_def handleResourceType_def handleSchema_def
      serveList_def serveDoc_def rejectFilter_def jsonResponse_def writeError_def err_defs properAnswer_def
      Let_def split: option.split)

lemma statusError_proper: "n \<in> {401, 415, 501} \<Longrightarrow> properAnswer (statusError n)"
  by (auto simp: statusError_def writeError_def properAnswer_def Let_def)

lemma serveRoute_proper:
  assumes "\<And>h. routeHandler route = Some h \<Longrightarrow> \<exists>n f g. thStore h = limitedStore n f g"
  shows "properAnswer (fst (serveRoute sv digest e others rq route s))"
proof (cases "routeHandler route")
  case None
  then show ?thesis
    by (cases route) (simp_all add: routeHandler_def serveRoute_def Let_def discovery_proper statusError_proper
        proper_error goErrs_basic err_defs)
next
  case (Some h)
  with assms obtain n f g where st: "thStore h = limitedStore n f g" by blast
  from Some show ?thesis
    using polite.create_proper [OF st] polite.get_proper [OF st] polite.replace_proper [OF st]
      polite.delete_proper [OF st] polite.patch_proper [OF st] polite.list_proper [OF st]
    by (cases route) (simp_all add: routeHandler_def serveRoute_def Let_def split_beta)
qed

text \<open>C28. Errors and successes cannot be confused. Whatever the request and whatever other writers do, a server
  made by New over in-memory stores answers 200, 201, 204 or 304 without an error in the body, or
  one of the error statuses of RFC 7644 with an error in the body that carries the same status.\<close>

theorem answers_are_proper:
  assumes "newServer cfg = Inr sv"
    and "\<forall>reg \<in> set (cfgResourceTypes cfg). \<exists>n f g. regStore reg = Some (limitedStore n f g)"
  shows "properAnswer (fst (ServeHTTP sv digest e others hq s))"
proof -
  have sts: "map (Some \<circ> thStore) (svTypes sv) = map regStore (cfgResourceTypes cfg)"
    using newServer_wired [OF assms(1)] by auto
  have "\<exists>n f g. thStore h = limitedStore n f g" if "h \<in> set (svTypes sv)" for h
  proof -
    have "Some (thStore h) \<in> set (map regStore (cfgResourceTypes cfg))" using that by (simp flip: sts)
    then obtain reg where reg: "reg \<in> set (cfgResourceTypes cfg)" "regStore reg = Some (thStore h)" by auto
    from bspec [OF assms(2) reg(1)] reg(2) show ?thesis by simp
  qed
  then have "properAnswer (fst (serveRoute sv digest e others rq (muxRoute (svTypes sv) verb path) s))" for rq verb path
    by (intro serveRoute_proper) (blast dest: muxRoute_handler)
  then have "properAnswer (fst (serveCore sv digest e others hq s))"
    by (simp add: serveCore_def statusError_proper)
  then show ?thesis
    by (auto simp: ServeHTTP_def statusError_proper split: option.split)
qed

theorem answers_are_proper_witness:
  "\<exists>sv. newServer badgeConfig = Inr sv \<and>
     properAnswer (fst (ServeHTTP sv sampleDigest sampleEnv (\<lambda>_ _ s. s) postSample (\<lambda>_. twoBadges)))"
proof -
  from badge_server obtain sv where sv: "newServer badgeConfig = Inr sv" by blast
  have "cfgResourceTypes badgeConfig = [\<lparr>regType = badgeType, regStore = Some memStore\<rparr>]"
    by (simp add: badgeConfig_def)
  then have "\<forall>reg \<in> set (cfgResourceTypes badgeConfig). \<exists>n f g. regStore reg = Some (limitedStore n f g)"
    using memStore_limited by auto
  from answers_are_proper [OF sv this] sv show ?thesis by blast
qed

end
