(* ===== verification/Test_Mock_Laws.thy ===== *)
theory Test_Mock_Laws
  imports Test_Mock Server_Statuses
begin

text \<open>
  What the mock relies on: a seed request that is answered below 300 has stored one resource in the
  store of its endpoint and nothing elsewhere, the registered names have one endpoint each, and
  the recorder keeps a window of what has arrived.
\<close>

subsection \<open>One seed\<close>

lemma error_status: "goErrs (Inl e) \<Longrightarrow> 400 \<le> rsStatus (writeError e)"
  by (auto simp: goErrs_def writeError_def Let_def split: go_error.splits)

lemma create_adds:
  assumes h: "thRT h = rt" "thStore h = memStore" and typed: "putType rt" and inv: "memInvar rt s"
    and run: "handleCreate h digest e rq s = (rsp, s')" and ok: "rsStatus rsp < 300"
  shows "memInvar rt s' \<and> length (memRows s') = Suc (length (memRows s))"
proof (cases "prepareCreate h e rq")
  case (Inl err)
  with errs_prepareCreate [of h e rq] run ok error_status [of err] show ?thesis
    by (auto simp: handleCreate_def errs_cast)
next
  case (Inr p)
  then obtain r proj where prep: "prepareCreate h e rq = Inr (r, proj)" by (cases p) auto
  then obtain b d i q where dec: "DecodeResource rt True b = Inr d"
    and r: "Set d ''id'' (VString i) = Inr q" "r = SetMeta (rMeta r) q"
    by (auto simp: prepareCreate_def assignCreateIdentity_def res_simps h)
  from typed have rt: "resourceTypeOk rt" "commonReserved rt" by (auto simp: putType_def)
  from DecodeResource_ok [OF rt dec] Set_resourceOk [OF _ _ r(1)] rt(1)
  have "memAccepts rt (SetMeta (rMeta r) q)" by (auto simp: memAccepts_def)
  then have acc: "memAccepts rt r" using r(2) by simp
  show ?thesis
  proof (cases "memCreate e r s")
    case (Inl err)
    with errs_memCreate [of e r s] run ok prep error_status [of err] h show ?thesis
      by (auto simp: handleCreate_def respond_def commit_def memStore_def errs_cast)
  next
    case (Inr cs)
    then obtain created where c: "stCreate memStore e r s = Inr (created, s')"
      using run prep h by (cases cs) (auto simp: handleCreate_def respond_def commit_def memStore_def)
    from mem.create_row [OF inv acc c] show ?thesis by auto
  qed
qed

lemma seed_adds:
  assumes w: "wired sv" and mem: "list_all (\<lambda>h. thStore h = memStore \<and> putType (thRT h)) (svTypes sv)"
    and ok: "serverOk sv s" and h: "h \<in> set (svTypes sv)" and ep: "endpoint = rtEndpoint (thRT h)"
    and run: "seedOne bodySize (seedServe sv digest envs) endpoint name token body (k, s) = Inr (k', s')"
  shows "serverOk sv s' \<and> (\<forall>ep'. length (memRows (s' ep')) = length (memRows (s ep')) + (if ep' = endpoint then 1 else 0))"
proof -
  from w h have "endpointOk endpoint" by (simp add: wired_def list_all_iff ep)
  then obtain p where p: "endpoint = CHR ''/'' # p" by (auto simp: endpointOk_def)
  define hq where "hq = seedRequest bodySize endpoint body token"
  obtain rsp where serve: "ServeHTTP sv digest (envs k) (\<lambda>_ _ s. s) hq s = (rsp, s')" and st: "rsStatus rsp < 300"
    using run p by (auto simp: seedOne_def seedServe_def hq_def split: prod.splits if_splits)
  have "registerType h ''POST'' [p] = Some (CreateRoute h)" using p ep by (simp add: registerType_def)
  moreover from w have "distinct (map (rtEndpoint \<circ> thRT) (svTypes sv))" by (simp add: wired_def)
  ultimately have "muxRoute (svTypes sv) ''POST'' [p] = CreateRoute h"
    using firstRoute_type [OF h _ _, of p "''POST''" "[]"] p ep by (simp add: muxRoute_def)
  then have route: "muxRoute (svTypes sv) (hqMethod hq) (hqPath hq) = CreateRoute h"
    by (simp add: hq_def seedRequest_def p)
  have refused: "300 \<le> rsStatus (statusError 401)" "300 \<le> rsStatus (statusError 415)"
    by (simp_all add: statusError_def writeError_def Let_def)
  from serve have "(rsp, s') = (statusError 401, s) \<or> (rsp, s') = serveCore sv digest (envs k) (\<lambda>_ _ s. s) hq s"
    by (auto simp: ServeHTTP_def split: option.splits if_splits)
  then have "(rsp, s') = serveRoute sv digest (envs k) (\<lambda>_ _ s. s) (hqRequest hq) (CreateRoute h) s"
    using st refused route by (auto simp: serveCore_def split: if_splits)
  then obtain t where t: "handleCreate h digest (envs k) (hqRequest hq) (s endpoint) = (rsp, t)" "s' = s(endpoint := t)"
    by (auto simp: serveRoute_def Let_def ep split: prod.splits)
  from mem h have hs: "thStore h = memStore" "putType (thRT h)" by (auto simp: list_all_iff)
  from ok h have inv: "memInvar (thRT h) (s endpoint)" by (simp add: serverOk_def list_all_iff ep)
  from create_adds [OF refl hs(1,2) inv t(1) st] have
    c: "memInvar (thRT h) t" "length (memRows t) = Suc (length (memRows (s endpoint)))" by simp_all
  from serverOk_update [OF ok w h c(1)] c(2) t(2) ep show ?thesis by auto
qed

text \<open>A batch adds as many resources as it has documents.\<close>

lemma batch_adds:
  assumes "wired sv" "list_all (\<lambda>h. thStore h = memStore \<and> putType (thRT h)) (svTypes sv)"
    and "serverOk sv s" "h \<in> set (svTypes sv)" "endpoint = rtEndpoint (thRT h)"
    and "rfold (seedOne bodySize (seedServe sv digest envs) endpoint name token) docs (k, s) = Inr (k', s')"
  shows "serverOk sv s' \<and>
    (\<forall>ep'. length (memRows (s' ep')) = length (memRows (s ep')) + (if ep' = endpoint then length docs else 0))"
  using assms(3,6)
proof (induction docs arbitrary: k s)
  case (Cons d docs)
  from Cons.prems(2) obtain k1 s1 where
    one: "seedOne bodySize (seedServe sv digest envs) endpoint name token d (k, s) = Inr (k1, s1)"
    and rest: "rfold (seedOne bodySize (seedServe sv digest envs) endpoint name token) docs (k1, s1) = Inr (k', s')"
    by (auto simp: rbind_eq_Inr)
  from seed_adds [OF assms(1,2) Cons.prems(1) assms(4,5) one] have
    s1: "serverOk sv s1" "\<forall>ep'. length (memRows (s1 ep')) = length (memRows (s ep')) + (if ep' = endpoint then 1 else 0)"
    by blast+
  from Cons.IH [OF s1(1) rest] s1(2) show ?case by auto
qed simp

subsection \<open>Names and endpoints\<close>

definition specKey :: "type_spec \<Rightarrow> string" where "specKey ts = storeKey (rtName (tsRT ts))"
definition specEndpoint :: "type_spec \<Rightarrow> string" where "specEndpoint ts = rtEndpoint (tsRT ts)"

lemma addType_distinct: "distinct (map specKey types) \<Longrightarrow> distinct (map specKey (addType custom types))"
proof -
  assume d: "distinct (map specKey types)"
  define same where "same = (\<lambda>ts. specKey ts = specKey custom)"
  define i where "i = length (takeWhile (\<lambda>ts. \<not> same ts) types)"
  have add: "addType custom types = (if i < length types then types[i := custom] else types @ [custom])"
    by (simp add: addType_def i_def same_def specKey_def Let_def)
  show ?thesis
  proof (cases "i < length types")
    case True
    then have "same (types ! i)" unfolding i_def using nth_length_takeWhile by blast
    then have "map specKey (types[i := custom]) = map specKey types"
      using True by (simp add: map_update same_def) (metis list_update_id length_map nth_map)
    with True d show ?thesis by (simp add: add)
  next
    case False
    then have "takeWhile (\<lambda>ts. \<not> same ts) types = types"
      unfolding i_def by (metis length_takeWhile_le linorder_neqE_nat not_le takeWhile_eq_take take_all_iff)
    then have "\<forall>ts \<in> set types. \<not> same ts" by (metis takeWhile_eq_all_conv)
    with False d show ?thesis by (auto simp: add same_def)
  qed
qed

lemma resolveTypes_distinct: "distinct (map specKey (resolveTypes c))"
proof -
  have "distinct (map specKey (fold addType ts types))" if "distinct (map specKey types)" for ts types
    using that by (induction ts arbitrary: types) (auto intro: addType_distinct)
  moreover have "specKey \<lparr>tsRT = UserResourceType, tsOpts = []\<rparr> \<noteq> specKey \<lparr>tsRT = GroupResourceType, tsOpts = []\<rparr>"
    by code_simp
  ultimately show ?thesis by (auto simp: resolveTypes_def)
qed

lemma endpointsOf_get:
  "ts \<in> set (resolveTypes c) \<Longrightarrow> aget (endpointsOf c) (specKey ts) = Some (specEndpoint ts)"
  "aget (endpointsOf c) k = Some ep \<Longrightarrow> \<exists>ts \<in> set (resolveTypes c). specKey ts = k \<and> specEndpoint ts = ep"
proof -
  have put: "aget (fold (\<lambda>ts m. aput (specKey ts) (specEndpoint ts) m) types m) k =
      (case find (\<lambda>ts. specKey ts = k) types of Some ts \<Rightarrow> Some (specEndpoint ts) | None \<Rightarrow> aget m k)"
    if "distinct (map specKey types)" for types m k
    using that
  proof (induction types arbitrary: m)
    case (Cons t types)
    from Cons.prems have "find (\<lambda>ts. specKey ts = specKey t) types = None"
      by (auto simp: find_None_iff) (metis image_eqI)
    with Cons show ?case by (auto split: option.splits)
  qed simp
  have eps: "endpointsOf c = fold (\<lambda>ts m. aput (specKey ts) (specEndpoint ts) m) (resolveTypes c) []"
    by (simp add: endpointsOf_def specKey_def specEndpoint_def)
  show "aget (endpointsOf c) (specKey ts) = Some (specEndpoint ts)" if "ts \<in> set (resolveTypes c)"
  proof -
    have "find (\<lambda>u. specKey u = specKey ts) (resolveTypes c) \<noteq> None" unfolding find_None_iff using that by blast
    then obtain u where u: "find (\<lambda>u. specKey u = specKey ts) (resolveTypes c) = Some u" by blast
    then have "u \<in> set (resolveTypes c)" "specKey u = specKey ts" by (auto simp: find_Some_iff)
    with that resolveTypes_distinct [of c] have "u = ts" by (auto simp: distinct_map inj_on_def)
    with u show ?thesis by (simp add: eps put [OF resolveTypes_distinct])
  qed
  show "\<exists>ts \<in> set (resolveTypes c). specKey ts = k \<and> specEndpoint ts = ep" if "aget (endpointsOf c) k = Some ep"
    using that unfolding eps put [OF resolveTypes_distinct]
    by (auto simp: find_Some_iff split: option.splits)
qed

end
