(* ===== verification/Mock_Properties.thy ===== *)
theory Mock_Properties
  imports Test_Mock_Laws
begin

text \<open>
  The properties of the mock provider: what seeding stores, and what traffic leaves behind.
\<close>

subsection \<open>Seeding\<close>

definition seedCount :: "seed \<Rightarrow> string \<Rightarrow> nat" where
  "seedCount sd k = sum_list (map (\<lambda>(name, docs). if storeKey name = k then length docs else 0) (byType sd))"

text \<open>A configuration whose server is built: the server has the types in order, each with the in-memory
  store, and their endpoints differ.\<close>

lemma mock_server:
  assumes "newServer (serverConfig c) = Inr sv"
  shows "wired sv" "map thRT (svTypes sv) = map tsRT (resolveTypes c)"
    "list_all (\<lambda>h. thStore h = memStore) (svTypes sv)" "distinct (map specEndpoint (resolveTypes c))"
proof -
  from newServer_wired [OF assms] show w: "wired sv" by simp
  from newServer_wired [OF assms] show rts: "map thRT (svTypes sv) = map tsRT (resolveTypes c)"
    by (simp add: serverConfig_def comp_def)
  from newServer_wired [OF assms] have "map (Some \<circ> thStore) (svTypes sv) = map (\<lambda>_. Some memStore) (resolveTypes c)"
    by (simp add: serverConfig_def comp_def)
  then have "\<forall>x \<in> set (map (Some \<circ> thStore) (svTypes sv)). x = Some memStore" by (metis (no_types) ex_map_conv)
  then show "list_all (\<lambda>h. thStore h = memStore) (svTypes sv)" by (simp add: list_all_iff)
  have "map (rtEndpoint \<circ> thRT) (svTypes sv) = map specEndpoint (resolveTypes c)"
    using arg_cong [OF rts, of "map rtEndpoint"] by (simp add: specEndpoint_def comp_def)
  with w show "distinct (map specEndpoint (resolveTypes c))" by (simp add: wired_def)
qed

lemma mock_typed:
  assumes "newServer (serverConfig c) = Inr sv" "\<forall>ts \<in> set (resolveTypes c). putType (tsRT ts)"
  shows "list_all (\<lambda>h. thStore h = memStore \<and> putType (thRT h)) (svTypes sv)"
proof -
  have "putType (thRT h)" if "h \<in> set (svTypes sv)" for h
  proof -
    have "thRT h \<in> set (map tsRT (resolveTypes c))" using that by (simp flip: mock_server(2) [OF assms(1)])
    with assms(2) show ?thesis by auto
  qed
  with mock_server(3) [OF assms(1)] show ?thesis by (simp add: list_all_iff)
qed

lemma mock_handler:
  assumes "newServer (serverConfig c) = Inr sv" "u \<in> set (resolveTypes c)"
  obtains h where "h \<in> set (svTypes sv)" "thRT h = tsRT u"
proof -
  have "tsRT u \<in> set (map thRT (svTypes sv))" using assms(2) by (simp add: mock_server(2) [OF assms(1)])
  with that show thesis by auto
qed

text \<open>One batch of a seed.\<close>

definition seedBatch ::
    "(gval \<Rightarrow> int) \<Rightarrow> memstore server \<Rightarrow> digest \<Rightarrow> (nat \<Rightarrow> env) \<Rightarrow> string amap \<Rightarrow> string \<Rightarrow> string \<times> gval list \<Rightarrow>
     nat \<times> (string \<Rightarrow> memstore) \<Rightarrow> (mock_error, nat \<times> (string \<Rightarrow> memstore)) res" where
  "seedBatch bodySize sv digest envs endpoints token b =
     (let endpoint = (case aget endpoints (storeKey (fst b)) of None \<Rightarrow> [] | Some ep \<Rightarrow> ep)
      in rfold (seedOne bodySize (seedServe sv digest envs) endpoint (fst b) token) (snd b))"

lemma seedBatch_adds:
  assumes sv: "newServer (serverConfig c) = Inr sv" and typed: "\<forall>ts \<in> set (resolveTypes c). putType (tsRT ts)"
    and ok: "serverOk sv s" and run: "seedBatch bodySize sv digest envs (endpointsOf c) token b (k, s) = Inr (k', s')"
    and ts: "ts \<in> set (resolveTypes c)"
  shows "serverOk sv s' \<and> length (memRows (s' (specEndpoint ts))) =
    length (memRows (s (specEndpoint ts))) + (if storeKey (fst b) = specKey ts then length (snd b) else 0)"
proof (cases "aget (endpointsOf c) (storeKey (fst b))")
  case None
  with endpointsOf_get(1) [OF ts] have other: "storeKey (fst b) \<noteq> specKey ts" by auto
  from run None have "snd b = []"
    by (cases "snd b") (simp_all add: seedBatch_def seedOne_def)
  with run None ok other show ?thesis by (simp add: seedBatch_def)
next
  case (Some ep)
  then obtain u where u: "u \<in> set (resolveTypes c)" "specKey u = storeKey (fst b)" "specEndpoint u = ep"
    using endpointsOf_get(2) by blast
  obtain h where h: "h \<in> set (svTypes sv)" "ep = rtEndpoint (thRT h)"
    using mock_handler [OF sv u(1)] u(3) unfolding specEndpoint_def by metis
  from run Some have "rfold (seedOne bodySize (seedServe sv digest envs) ep (fst b) token) (snd b) (k, s) = Inr (k', s')"
    by (simp add: seedBatch_def)
  from batch_adds [OF mock_server(1) [OF sv] mock_typed [OF sv typed] ok h this] have
    adds: "serverOk sv s'" "length (memRows (s' (specEndpoint ts))) =
      length (memRows (s (specEndpoint ts))) + (if specEndpoint ts = ep then length (snd b) else 0)" by blast+
  have "inj_on specEndpoint (set (resolveTypes c))" "inj_on specKey (set (resolveTypes c))"
    using mock_server(4) [OF sv] resolveTypes_distinct [of c] by (simp_all add: distinct_map)
  then have "specEndpoint ts = ep \<longleftrightarrow> storeKey (fst b) = specKey ts" using u ts by (metis inj_onD)
  with adds show ?thesis by simp
qed

lemma applySeed_adds:
  assumes sv: "newServer (serverConfig c) = Inr sv" and typed: "\<forall>ts \<in> set (resolveTypes c). putType (tsRT ts)"
    and ok: "serverOk sv s"
    and run: "applySeed bodySize (seedServe sv digest envs) sd (endpointsOf c) token (k, s) = Inr (k', s')"
    and ts: "ts \<in> set (resolveTypes c)"
  shows "serverOk sv s' \<and>
    length (memRows (s' (specEndpoint ts))) = length (memRows (s (specEndpoint ts))) + seedCount sd (specKey ts)"
proof -
  have "serverOk sv s1 \<and> length (memRows (s1 (specEndpoint ts))) = length (memRows (s0 (specEndpoint ts))) +
      sum_list (map (\<lambda>b. if storeKey (fst b) = specKey ts then length (snd b) else 0) bs)"
    if "rfold (seedBatch bodySize sv digest envs (endpointsOf c) token) bs (k0, s0) = Inr (k1, s1)" "serverOk sv s0"
    for bs k0 s0 k1 s1
    using that
  proof (induction bs arbitrary: k0 s0)
    case (Cons b bs)
    from Cons.prems(1) obtain k2 s2 where
      one: "seedBatch bodySize sv digest envs (endpointsOf c) token b (k0, s0) = Inr (k2, s2)"
        "rfold (seedBatch bodySize sv digest envs (endpointsOf c) token) bs (k2, s2) = Inr (k1, s1)"
      by (auto simp: rbind_eq_Inr)
    from seedBatch_adds [OF sv typed Cons.prems(2) one(1) ts] Cons.IH [OF one(2)] show ?case by simp
  qed simp
  moreover have "applySeed bodySize (seedServe sv digest envs) sd (endpointsOf c) token =
      rfold (seedBatch bodySize sv digest envs (endpointsOf c) token) (byType sd)"
    unfolding applySeed_def seedBatch_def split_def Let_def by (rule refl)
  ultimately show ?thesis using ok run by (simp add: seedCount_def split_def)
qed

text \<open>The options of a store are those of the package.\<close>

definition plainOpts :: "type_spec \<Rightarrow> bool" where
  "plainOpts ts \<longleftrightarrow> (\<forall>f \<in> set (tsOpts ts). (\<exists>p. f = WithProfile p) \<or> (\<exists>attr. f = WithIndex attr))"

lemma freshStores_get:
  assumes "distinct (map specEndpoint (resolveTypes c))" "ts \<in> set (resolveTypes c)"
  shows "freshStores c (specEndpoint ts) = freshStore c ts"
proof -
  have keep: "fold (\<lambda>ts s. s(specEndpoint ts := freshStore c ts)) types s ep = s ep"
    if "ep \<notin> specEndpoint ` set types" for types s ep
    using that by (induction types arbitrary: s) auto
  have "fold (\<lambda>ts s. s(specEndpoint ts := freshStore c ts)) types s (specEndpoint ts) = freshStore c ts"
    if "distinct (map specEndpoint types)" "ts \<in> set types" for types s
    using that
  proof (induction types arbitrary: s)
    case (Cons t types)
    show ?case
    proof (cases "t = ts")
      case True
      with Cons.prems have "specEndpoint ts \<notin> specEndpoint ` set types" by simp
      from keep [OF this, of "s(specEndpoint ts := freshStore c ts)"] True show ?thesis by (simp del: fun_upd_apply add: fun_upd_same)
    next
      case False
      with Cons.IH [of "s(specEndpoint t := freshStore c t)"] Cons.prems show ?thesis by simp
    qed
  qed simp
  from this [OF assms] show ?thesis by (simp add: freshStores_def specEndpoint_def)
qed

lemma fresh_ok:
  assumes "newServer (serverConfig c) = Inr sv" "\<forall>ts \<in> set (resolveTypes c). putType (tsRT ts) \<and> plainOpts ts"
  shows "serverOk sv (freshStores c)"
    and "ts \<in> set (resolveTypes c) \<Longrightarrow> memRows (freshStores c (specEndpoint ts)) = []"
proof -
  note srv = mock_server [OF assms(1)]
  have fresh: "memInvar (tsRT ts) (freshStores c (specEndpoint ts)) \<and> memRows (freshStores c (specEndpoint ts)) = []"
    if "ts \<in> set (resolveTypes c)" for ts
  proof -
    have "storeType (tsRT ts)" "\<forall>f \<in> set (WithProfile (mcProfile c) # tsOpts ts). (\<exists>p. f = WithProfile p) \<or> (\<exists>attr. f = WithIndex attr)"
      using assms(2) that by (auto simp: putType_def storeType_def plainOpts_def)
    from NewStore_ok [OF this] show ?thesis
      by (simp add: freshStores_get [OF srv(4) that] freshStore_def memInvar_def)
  qed
  then show "ts \<in> set (resolveTypes c) \<Longrightarrow> memRows (freshStores c (specEndpoint ts)) = []" by simp
  have "memInvar (thRT h) (freshStores c (rtEndpoint (thRT h)))" if "h \<in> set (svTypes sv)" for h
  proof -
    have "thRT h \<in> set (map tsRT (resolveTypes c))" using that by (simp flip: srv(2))
    with fresh show ?thesis by (auto simp: specEndpoint_def)
  qed
  then show "serverOk sv (freshStores c)" by (simp add: serverOk_def list_all_iff)
qed

text \<open>The parts of a mock.\<close>

lemma mock_built:
  assumes "NewMock digest envs bodySize opts = Inr mk" and "c = fold mockOption opts mockDefaults"
    and "resolveSeed c = Inr sd"
  obtains k where "newServer (serverConfig c) = Inr (mkServer mk)"
    "(if seedEmpty sd then Inr (0, freshStores c)
      else applySeed bodySize (seedServe (mkServer mk) digest envs) sd (endpointsOf c) (mcToken c) (0, freshStores c)) =
       Inr (k, mkStores mk)"
    "mkRecorder mk = \<lparr>rcReqs = [], rcLimit = mcRecorderLimit c\<rparr>" "mkEndpoints mk = endpointsOf c"
proof -
  from assms obtain sv k s where sv: "newServer (serverConfig c) = Inr sv"
    and run: "(if seedEmpty sd then Inr (0, freshStores c)
      else applySeed bodySize (seedServe sv digest envs) sd (endpointsOf c) (mcToken c) (0, freshStores c)) = Inr (k, s)"
    and mk: "mk = \<lparr>mkServer = sv, mkChaos = mcChaos c, mkStores = s,
      mkRecorder = \<lparr>rcReqs = [], rcLimit = mcRecorderLimit c\<rparr>, mkToken = mcToken c, mkEndpoints = endpointsOf c\<rparr>"
    by (auto simp: NewMock_def Let_def res_simps)
  show thesis by (rule that [of k]) (use sv run in \<open>simp_all add: mk split: if_splits\<close>)
qed

lemma mock_seeded:
  assumes "NewMock digest envs bodySize opts = Inr mk" and "c = fold mockOption opts mockDefaults"
    and "resolveSeed c = Inr sd" and "\<forall>ts \<in> set (resolveTypes c). putType (tsRT ts) \<and> plainOpts ts"
  shows "serverOk (mkServer mk) (mkStores mk)"
    and "ts \<in> set (resolveTypes c) \<Longrightarrow> length (memRows (mkStores mk (specEndpoint ts))) = seedCount sd (specKey ts)"
proof -
  obtain k where sv: "newServer (serverConfig c) = Inr (mkServer mk)"
    and run: "(if seedEmpty sd then Inr (0, freshStores c)
      else applySeed bodySize (seedServe (mkServer mk) digest envs) sd (endpointsOf c) (mcToken c) (0, freshStores c)) =
       Inr (k, mkStores mk)"
    using assms(1-3) by (rule mock_built)
  note fresh = fresh_ok [OF sv assms(4)]
  show "length (memRows (mkStores mk (specEndpoint ts))) = seedCount sd (specKey ts)" if ts: "ts \<in> set (resolveTypes c)"
  proof (cases "seedEmpty sd")
    case True
    then have "docsOf (sdResources sd) name = []" for name
      using aget_in_set [of "sdResources sd" name]
      by (cases "aget (sdResources sd) name") (auto simp: docsOf_def seedEmpty_def list_all_iff)
    with True have "seedCount sd k = 0" for k by (auto simp: seedCount_def byType_def seedEmpty_def comp_def)
    with True run fresh(2) [OF ts] show ?thesis by simp
  next
    case False
    with run have "applySeed bodySize (seedServe (mkServer mk) digest envs) sd (endpointsOf c) (mcToken c) (0, freshStores c) =
        Inr (k, mkStores mk)" by simp
    from applySeed_adds [OF sv _ fresh(1) this ts] assms(4) fresh(2) [OF ts] show ?thesis by simp
  qed
  show "serverOk (mkServer mk) (mkStores mk)"
  proof (cases "seedEmpty sd")
    case False
    with run have seed: "applySeed bodySize (seedServe (mkServer mk) digest envs) sd (endpointsOf c) (mcToken c) (0, freshStores c) =
        Inr (k, mkStores mk)" by simp
    have "resolveTypes c \<noteq> []"
      using sv configValidate_limits [of "serverConfig c"]
      by (auto simp: newServer_def res_simps serverConfig_def)
    then obtain t where "t \<in> set (resolveTypes c)" by (cases "resolveTypes c") auto
    from applySeed_adds [OF sv _ fresh(1) seed this] assms(4) show ?thesis by simp
  qed (use run fresh(1) in simp)
qed

lemma mock_parts:
  assumes "NewMock digest envs bodySize opts = Inr mk" and "c = fold mockOption opts mockDefaults"
    and "resolveSeed c = Inr sd" and "\<forall>ts \<in> set (resolveTypes c). putType (tsRT ts) \<and> plainOpts ts"
  shows "wired (mkServer mk)" "memBacked (mkServer mk)" "serverOk (mkServer mk) (mkStores mk)"
    "mkEndpoints mk = endpointsOf c" "mkRecorder mk = \<lparr>rcReqs = [], rcLimit = mcRecorderLimit c\<rparr>"
    "ts \<in> set (resolveTypes c) \<Longrightarrow> serverOk (mkServer mk) s \<Longrightarrow> memInvar (tsRT ts) (s (specEndpoint ts))"
proof -
  show "serverOk (mkServer mk) (mkStores mk)" by (rule mock_seeded(1) [OF assms])
  obtain k where sv: "newServer (serverConfig c) = Inr (mkServer mk)"
    and mk: "mkRecorder mk = \<lparr>rcReqs = [], rcLimit = mcRecorderLimit c\<rparr>" "mkEndpoints mk = endpointsOf c"
    using assms(1-3) by (rule mock_built)
  show "mkEndpoints mk = endpointsOf c" "mkRecorder mk = \<lparr>rcReqs = [], rcLimit = mcRecorderLimit c\<rparr>" using mk by simp_all
  show "wired (mkServer mk)" by (rule mock_server(1) [OF sv])
  from mock_typed [OF sv] assms(4) show "memBacked (mkServer mk)"
    using memStore_limited by (auto simp: memBacked_def list_all_iff)
  show "memInvar (tsRT ts) (s (specEndpoint ts))" if ts: "ts \<in> set (resolveTypes c)" and ok: "serverOk (mkServer mk) s"
  proof -
    obtain h where "h \<in> set (svTypes (mkServer mk))" "thRT h = tsRT ts" by (rule mock_handler [OF sv ts])
    with ok show ?thesis by (auto simp: serverOk_def list_all_iff specEndpoint_def)
  qed
qed

text \<open>C30. A mock that New builds holds exactly what it was seeded with: the store of every served type holds
  as many resources as the seed has documents of the type, under well-formed identifiers and
  indexes, and the recorder has seen nothing of the setup. A document that is refused fails New.\<close>

theorem seeds_are_stored:
  assumes "NewMock digest envs bodySize opts = Inr mk" and "c = fold mockOption opts mockDefaults"
    and "resolveSeed c = Inr sd" and "\<forall>ts \<in> set (resolveTypes c). putType (tsRT ts) \<and> plainOpts ts"
  shows "Requests (mkRecorder mk) = [] \<and>
    (\<forall>ts \<in> set (resolveTypes c). \<exists>s. StoreOf mk (rtName (tsRT ts)) = Some s \<and> memInvar (tsRT ts) s \<and>
       length (memRows s) = seedCount sd (storeKey (rtName (tsRT ts))))"
proof -
  note mock = mock_parts [OF assms]
  have "StoreOf mk (rtName (tsRT ts)) = Some (mkStores mk (specEndpoint ts)) \<and>
      memInvar (tsRT ts) (mkStores mk (specEndpoint ts)) \<and>
      length (memRows (mkStores mk (specEndpoint ts))) = seedCount sd (storeKey (rtName (tsRT ts)))"
    if ts: "ts \<in> set (resolveTypes c)" for ts
    using endpointsOf_get(1) [OF ts] mock(6) [OF ts mock(3)] mock_seeded(2) [OF assms ts]
    by (simp add: StoreOf_def mock(4) specKey_def)
  then show ?thesis by (auto simp: Requests_def mock(5))
qed

definition badgeSeed :: "mock_option list" where
  "badgeSeed =
     [WithoutDefaultTypes, WithResourceType badgeType [],
      WithSeedResources ''badge'' [VMap [(''code'', VString ''a'')], VMap [(''code'', VString ''b'')]]]"

definition seedEnvs :: "nat \<Rightarrow> env" where
  "seedEnvs k = \<lparr>envRandom = Some (replicate 16 (word_of_nat k)), envNow = zeroTime\<rparr>"

lemma badge_mock: "\<exists>mk. NewMock sampleDigest seedEnvs (\<lambda>_. 9) badgeSeed = Inr mk"
proof -
  have "case NewMock sampleDigest seedEnvs (\<lambda>_. 9) badgeSeed of Inr _ \<Rightarrow> True | Inl _ \<Rightarrow> False" by code_simp
  then show ?thesis by (auto split: sum.splits)
qed

theorem seeds_are_stored_witness:
  "\<exists>mk s. NewMock sampleDigest seedEnvs (\<lambda>_. 9) badgeSeed = Inr mk \<and> Requests (mkRecorder mk) = [] \<and>
     StoreOf mk ''BADGE'' = Some s \<and> memInvar badgeType s \<and> length (memRows s) = 2"
proof -
  from badge_mock obtain mk where mk: "NewMock sampleDigest seedEnvs (\<lambda>_. 9) badgeSeed = Inr mk" by blast
  define c where "c = fold mockOption badgeSeed mockDefaults"
  define sd where "sd = noSeed\<lparr>sdResources := [(''badge'', [VMap [(''code'', VString ''a'')], VMap [(''code'', VString ''b'')]])]\<rparr>"
  have seed: "resolveSeed c = Inr sd" unfolding c_def sd_def by code_simp
  have types: "resolveTypes c = [\<lparr>tsRT = badgeType, tsOpts = []\<rparr>]"
    by (simp add: c_def badgeSeed_def mockOption_def mockDefaults_def resolveTypes_def addType_def)
  have "seedCount sd (storeKey (rtName badgeType)) = 2" "storeKey ''BADGE'' = storeKey (rtName badgeType)"
    unfolding sd_def by code_simp+
  with seeds_are_stored [OF mk c_def seed] types mk badgeType_ok show ?thesis
    by (auto simp: plainOpts_def StoreOf_def)
qed

subsection \<open>Traffic\<close>

text \<open>What a mock is sent: requests, each with the environment, the other writers and the clock of its
  moment, and resets of the recorder.\<close>

datatype mock_action =
    Request env "string \<Rightarrow> nat \<Rightarrow> memstore \<Rightarrow> memstore" gotime bool http_request
  | ResetRecorder

fun mockStep :: "('g \<Rightarrow> float64 \<times> 'g) \<Rightarrow> digest \<Rightarrow> mock_action \<Rightarrow> mock \<times> 'g \<Rightarrow> mock \<times> 'g" where
  "mockStep draw digest (Request e others now waited hq) st = snd (mockServe draw digest e others now waited hq st)"
| "mockStep draw digest ResetRecorder st = (case st of (mk, g) \<Rightarrow> (mk\<lparr>mkRecorder := Reset (mkRecorder mk)\<rparr>, g))"

text \<open>The requests since the last reset.\<close>

definition arrive :: "mock_action \<Rightarrow> recorded_request list \<Rightarrow> recorded_request list" where
  "arrive a l =
     (case a of Request e others now waited hq \<Rightarrow> l @ [\<lparr>rrRequest = hq, rrTime = now\<rparr>] | ResetRecorder \<Rightarrow> [])"

definition window :: "int \<Rightarrow> 'a list \<Rightarrow> 'a list" where
  "window limit l = (if 0 < limit then drop (length l - nat limit) l else l)"

lemma window_add: "window limit (window limit l @ [x]) = window limit (l @ [x])"
  by (cases "nat limit \<le> length l") (auto simp: window_def Suc_diff_le)

lemma mockServe_parts:
  assumes "mockServe draw digest e others now waited hq (mk, g) = (rsp, mk', g')"
  shows "mkRecorder mk' = recordRequest \<lparr>rrRequest = hq, rrTime = now\<rparr> (mkRecorder mk)"
    and "mkServer mk' = mkServer mk" "mkEndpoints mk' = mkEndpoints mk"
    and "mkStores mk' = mkStores mk \<or> mkStores mk' = snd (ServeHTTP (mkServer mk) digest e others hq (mkStores mk))"
  using assms
  by (auto simp: mockServe_def Let_def chaosServe_def split: option.splits prod.splits if_splits bool.splits)

definition keepsStores :: "memstore server \<Rightarrow> mock_action \<Rightarrow> bool" where
  "keepsStores sv a \<longleftrightarrow>
     (case a of
        Request e others now waited hq \<Rightarrow>
          (\<forall>h \<in> set (svTypes sv). \<forall>n s. memInvar (thRT h) s \<longrightarrow> memInvar (thRT h) (others (rtEndpoint (thRT h)) n s))
      | ResetRecorder \<Rightarrow> True)"

lemma recordRequest_window:
  "rcReqs (recordRequest rr r) = window (rcLimit r) (rcReqs r @ [rr])" "rcLimit (recordRequest rr r) = rcLimit r"
  by (auto simp: recordRequest_def window_def Let_def)

lemma mockRun_keeps:
  assumes "fold (mockStep draw digest) acts (mk, g) = (mk', g')"
    and w: "wired (mkServer mk)" and mem: "memBacked (mkServer mk)" and ok: "serverOk (mkServer mk) (mkStores mk)"
    and "list_all (keepsStores (mkServer mk)) acts" and "rcReqs (mkRecorder mk) = window (rcLimit (mkRecorder mk)) l"
  shows "serverOk (mkServer mk) (mkStores mk') \<and> mkEndpoints mk' = mkEndpoints mk \<and>
    rcReqs (mkRecorder mk') = window (rcLimit (mkRecorder mk)) (fold arrive acts l)"
  using assms
proof (induction acts arbitrary: mk g l)
  case (Cons a acts)
  obtain mk1 g1 where one: "mockStep draw digest a (mk, g) = (mk1, g1)" by fastforce
  have s1: "mkServer mk1 = mkServer mk \<and> mkEndpoints mk1 = mkEndpoints mk \<and> serverOk (mkServer mk) (mkStores mk1) \<and>
      rcLimit (mkRecorder mk1) = rcLimit (mkRecorder mk) \<and> rcReqs (mkRecorder mk1) = window (rcLimit (mkRecorder mk)) (arrive a l)"
  proof (cases a)
    case (Request e others now waited hq)
    then obtain rsp where run: "mockServe draw digest e others now waited hq (mk, g) = (rsp, mk1, g1)"
      using one by (cases "mockServe draw digest e others now waited hq (mk, g)") auto
    note parts = mockServe_parts [OF run]
    have "serverOk (mkServer mk) (snd (ServeHTTP (mkServer mk) digest e others hq (mkStores mk)))"
      using Cons.prems(5) Request by (intro ServeHTTP_keeps Cons.prems(2-4)) (auto simp: keepsStores_def)
    then have "serverOk (mkServer mk) (mkStores mk1)" using parts(4) Cons.prems(4) by auto
    with parts(1-3) Cons.prems(6) Request show ?thesis
      by (simp add: recordRequest_window window_add arrive_def)
  next
    case ResetRecorder
    with one Cons.prems show ?thesis by (auto simp: Reset_def arrive_def window_def)
  qed
  from Cons.prems(1) one have rest: "fold (mockStep draw digest) acts (mk1, g1) = (mk', g')" by simp
  have "list_all (keepsStores (mkServer mk)) acts" using Cons.prems(5) by simp
  with Cons.IH [OF rest, of "arrive a l"] s1 Cons.prems(2,3) show ?case by simp
qed simp

text \<open>C29. Whatever a mock is sent, with or without injected faults and cut connections, its recorder holds the
  last requests since the last reset up to its limit, all of them without a limit, the refused
  and the failed ones included, and every store keeps the invariant.\<close>

theorem mock_records_and_keeps:
  assumes "NewMock digest envs bodySize opts = Inr mk" and "c = fold mockOption opts mockDefaults"
    and "resolveSeed c = Inr sd" and "\<forall>ts \<in> set (resolveTypes c). putType (tsRT ts) \<and> plainOpts ts"
    and "list_all (keepsStores (mkServer mk)) acts"
    and "fold (mockStep draw digest) acts (mk, g) = (mk', g')"
  shows "Requests (mkRecorder mk') = window (mcRecorderLimit c) (fold arrive acts []) \<and>
    (\<forall>ts \<in> set (resolveTypes c). \<exists>s. StoreOf mk' (rtName (tsRT ts)) = Some s \<and> memInvar (tsRT ts) s)"
proof -
  note mock = mock_parts [OF assms(1-4)]
  from mockRun_keeps [OF assms(6) mock(1-3) assms(5), of "[]"] mock(4) have
    ok: "serverOk (mkServer mk) (mkStores mk')" and eps: "mkEndpoints mk' = endpointsOf c"
    and rec: "rcReqs (mkRecorder mk') = window (mcRecorderLimit c) (fold arrive acts [])"
    by (auto simp: mock(5) window_def)
  have "StoreOf mk' (rtName (tsRT ts)) = Some (mkStores mk' (specEndpoint ts)) \<and>
      memInvar (tsRT ts) (mkStores mk' (specEndpoint ts))" if ts: "ts \<in> set (resolveTypes c)" for ts
    using endpointsOf_get(1) [OF ts] mock(6) [OF ts ok] by (simp add: StoreOf_def eps specKey_def)
  with rec show ?thesis by (auto simp: Requests_def)
qed

text \<open>A create and a reset of the recorder, and two requests after it, one without credentials.\<close>

definition badgeTraffic :: "mock_action list" where
  "badgeTraffic =
     (let post = seedRequest (\<lambda>_. 9) ''/Badges'' (VMap [(''code'', VString ''c'')]) [];
          act = (\<lambda>n. Request (seedEnvs n) (\<lambda>_ _ s. s) (GoTime (int n) 0) True post)
      in [act 7, ResetRecorder, act 8, act 9])"

theorem mock_records_and_keeps_witness:
  "\<exists>mk mk' g'. NewMock sampleDigest seedEnvs (\<lambda>_. 9) badgeSeed = Inr mk \<and>
     fold (mockStep (\<lambda>g :: nat. (Finite 0, g)) sampleDigest) badgeTraffic (mk, 0) = (mk', g') \<and>
     map rrTime (Requests (mkRecorder mk')) = [GoTime 8 0, GoTime 9 0] \<and>
     (\<exists>s. StoreOf mk' ''Badge'' = Some s \<and> memInvar badgeType s)"
proof -
  from badge_mock obtain mk where mk: "NewMock sampleDigest seedEnvs (\<lambda>_. 9) badgeSeed = Inr mk" by blast
  define c where "c = fold mockOption badgeSeed mockDefaults"
  have "\<exists>sd. resolveSeed c = Inr sd" unfolding c_def by (simp add: resolveSeed_def badgeSeed_def mockOption_def mockDefaults_def)
  then obtain sd where seed: "resolveSeed c = Inr sd" by blast
  have types: "resolveTypes c = [\<lparr>tsRT = badgeType, tsOpts = []\<rparr>]" and limit: "mcRecorderLimit c = 0"
    by (simp_all add: c_def badgeSeed_def mockOption_def mockDefaults_def resolveTypes_def addType_def)
  obtain mk' g' where run: "fold (mockStep (\<lambda>g :: nat. (Finite 0, g)) sampleDigest) badgeTraffic (mk, 0) = (mk', g')"
    by fastforce
  have "list_all (keepsStores (mkServer mk)) badgeTraffic"
    by (simp add: badgeTraffic_def keepsStores_def Let_def)
  from mock_records_and_keeps [OF mk c_def seed _ this run] types badgeType_ok have
    r: "Requests (mkRecorder mk') = window 0 (fold arrive badgeTraffic [])"
    "\<exists>s. StoreOf mk' (rtName badgeType) = Some s \<and> memInvar badgeType s"
    by (simp_all add: limit plainOpts_def)
  have "map rrTime (window 0 (fold arrive badgeTraffic [])) = [GoTime 8 0, GoTime 9 0]"
    by (simp add: window_def badgeTraffic_def arrive_def Let_def)
  moreover have "rtName badgeType = ''Badge''" by (simp add: badgeType_def)
  ultimately show ?thesis using mk run r by metis
qed

end
