(* ===== verification/Test_Scenario.thy ===== *)
theory Test_Scenario
  imports Client_Retry Scim_Value
begin

text \<open>
  \<open>scimtest/scenario.go\<close>, \<open>jsonpath.go\<close>, \<open>eval.go\<close>, \<open>simulate.go\<close> and the records of
  \<open>report.go\<close>: scenarios, the checks of a response, and the simulator that replays a scenario
  against a target. Bodies are bytes here, because a step may send any text. A failure is a value
  and not a message. The record \<open>target\<close> holds what the simulator gets from elsewhere: the template
  engine, \<open>encoding/json\<close> into an \<open>any\<close>, \<open>json.Valid\<close>, the text of a number or a composite value,
  one HTTP exchange without redirects and within the deadline of a step, and the end of the
  caller's context. Go iterates over a map in any order; here it is the order of the list.
\<close>

subsection \<open>Scenarios\<close>

record capture =
  cpVar :: string
  cpPath :: string

record body_assertion =
  asPath :: string
  asValue :: gval
  asUnassigned :: bool
  asLen :: "int option"

record expectation =
  exStatus :: int
  exScimType :: string
  exHeaders :: "string amap"
  exBody :: "body_assertion list"

record step =
  spName :: string
  spMethod :: string
  spPath :: string
  spHeaders :: "string amap"
  spBody :: string
  spCapture :: "capture list"
  spExpect :: expectation

record scenario =
  scName :: string
  scDescription :: string
  scSteps :: "step list"

datatype scenario_error =
    NoSteps | MissingMethod nat | NoStatus string | UnknownScenario string | CorpusFailed
  | MissingFixture string | SimulateAborted string

fun validateSteps :: "nat \<Rightarrow> step list \<Rightarrow> (scenario_error, unit) res" where
  "validateSteps i [] = Inr ()"
| "validateSteps i (s # ss) =
     (if spMethod s = [] then Inl (MissingMethod i)
      else if exStatus (spExpect s) = 0 then Inl (NoStatus (spName s))
      else validateSteps (Suc i) ss)"

definition validateScenario :: "scenario \<Rightarrow> (scenario_error, unit) res" where
  "validateScenario sc = (if scSteps sc = [] then Inl NoSteps else validateSteps 0 (scSteps sc))"

subsection \<open>Paths into a document\<close>

text \<open>The first result of a loop that returns from its body.\<close>

fun firstSome :: "('a \<Rightarrow> 'b option) \<Rightarrow> 'a list \<Rightarrow> 'b option" where
  "firstSome f [] = None"
| "firstSome f (x # xs) = (case f x of None \<Rightarrow> firstSome f xs | Some y \<Rightarrow> Some y)"

lemma firstSome_cong [fundef_cong]:
  "xs = ys \<Longrightarrow> (\<And>x. x \<in> set ys \<Longrightarrow> f x = g x) \<Longrightarrow> firstSome f xs = firstSome g ys"
  by (induction ys arbitrary: xs) (auto split: option.splits)

lemma firstSome_Some: "firstSome f xs = Some y \<Longrightarrow> \<exists>x \<in> set xs. f x = Some y"
  by (induction xs) (auto split: option.splits)

lemma firstSome_None: "firstSome f xs = None \<longleftrightarrow> (\<forall>x \<in> set xs. f x = None)"
  by (induction xs) (auto split: option.splits)

text \<open>\<open>n\<close> from \<open>len(tokens)\<close> down to 1.\<close>

function resolveTokens :: "gval \<Rightarrow> string list \<Rightarrow> gval option" where
  "resolveTokens cur [] = Some cur"
| "resolveTokens cur (t # ts) =
     (case cur of
        VMap node \<Rightarrow>
          firstSome (\<lambda>n. case aget node (joinWith CHR ''.'' (take n (t # ts))) of
              None \<Rightarrow> None
            | Some v \<Rightarrow> resolveTokens v (drop n (t # ts)))
            (rev [1..<Suc (length (t # ts))])
      | VList node \<Rightarrow>
          (case parseInt64 t of
             None \<Rightarrow> None
           | Some i \<Rightarrow>
               if i < 0 \<or> int (length node) \<le> i then None else resolveTokens (node ! nat i) ts)
      | _ \<Rightarrow> None)"
  by pat_completeness auto
termination by (relation "measure (length \<circ> snd)") auto

definition lookupPath :: "gval \<Rightarrow> string \<Rightarrow> gval option" where
  "lookupPath doc path = resolveTokens doc (splitOn CHR ''.'' path)"

subsection \<open>Comparing values\<close>

definition toFloat :: "gval \<Rightarrow> float64 option" where
  "toFloat v =
     (case v of
        VInt i \<Rightarrow> Some (intToFloat64 i)
      | VInt64 i \<Rightarrow> Some (intToFloat64 i)
      | VFloat64 f \<Rightarrow> Some f
      | VNumber s \<Rightarrow> parseFloat64 s
      | _ \<Rightarrow> None)"

text \<open>\<open>reflect.DeepEqual\<close> on decoded JSON.\<close>

fun deepEqual :: "gval \<Rightarrow> gval \<Rightarrow> bool" where
  "deepEqual a b =
     (case a of
        VList xs \<Rightarrow> (case b of VList ys \<Rightarrow> list_all2 deepEqual xs ys | _ \<Rightarrow> False)
      | VMap m \<Rightarrow>
          (case b of
             VMap m' \<Rightarrow>
               length m = length m' \<and>
               list_all (\<lambda>kv. case aget m' (fst kv) of None \<Rightarrow> False | Some w \<Rightarrow> deepEqual (snd kv) w) m
           | _ \<Rightarrow> False)
      | VFloat64 x \<Rightarrow> (case b of VFloat64 y \<Rightarrow> fltEq x y | _ \<Rightarrow> False)
      | _ \<Rightarrow> a = b)"

declare deepEqual.simps [simp del]

definition valueEqual :: "gval \<Rightarrow> gval \<Rightarrow> bool" where
  "valueEqual want got \<longleftrightarrow>
     (case toFloat want of
        Some x \<Rightarrow> (case toFloat got of Some y \<Rightarrow> fltEq x y | None \<Rightarrow> False)
      | None \<Rightarrow> deepEqual want got)"

subsection \<open>The target\<close>

record sim_request =
  sqMethod :: string
  sqURL :: string
  sqHeaders :: "string amap"
  sqBody :: string

record sim_response =
  ssStatus :: int
  ssHeaders :: "string list amap"
  ssBody :: string

record 'w target =
  tgTemplate :: "string \<Rightarrow> string amap \<Rightarrow> string option"
  tgDecode :: "string \<Rightarrow> gval option"
  tgValid :: "string \<Rightarrow> bool"
  tgSprint :: "gval \<Rightarrow> string"
  tgExchange :: "sim_request \<Rightarrow> 'w \<Rightarrow> sim_response option \<times> 'w"
  tgDone :: "'w \<Rightarrow> bool"

subsection \<open>Headers\<close>

text \<open>\<open>textproto.CanonicalMIMEHeaderKey\<close>.\<close>

definition tokenChar :: "char \<Rightarrow> bool" where
  "tokenChar c \<longleftrightarrow>
     CHR ''0'' \<le> c \<and> c \<le> CHR ''9'' \<or> CHR ''A'' \<le> c \<and> c \<le> CHR ''Z'' \<or> CHR ''a'' \<le> c \<and> c \<le> CHR ''z'' \<or>
     c \<in> set ''!#$%&*+-.^_`|~'' \<or> c = CHR 0x27"

definition upperChar :: "char \<Rightarrow> char" where
  "upperChar c = (if CHR ''a'' \<le> c \<and> c \<le> CHR ''z'' then char_of (of_char c - 32 :: nat) else c)"

fun canonicalLoop :: "bool \<Rightarrow> string \<Rightarrow> string" where
  "canonicalLoop up [] = []"
| "canonicalLoop up (c # s) =
     (if up then upperChar c else hd (foldName [c])) # canonicalLoop (c = CHR ''-'') s"

definition canonicalKey :: "string \<Rightarrow> string" where
  "canonicalKey k = (if list_all tokenChar k then canonicalLoop True k else k)"

definition headerGet :: "string list amap \<Rightarrow> string \<Rightarrow> string" where
  "headerGet h k = (case aget h (canonicalKey k) of Some (v # _) \<Rightarrow> v | _ \<Rightarrow> [])"

definition hasHeader :: "string amap \<Rightarrow> string \<Rightarrow> bool" where
  "hasHeader h key \<longleftrightarrow> list_ex (\<lambda>kv. equalFold (fst kv) key) h"

definition simMediaType :: string where "simMediaType = ''application/scim+json''"

definition stepHeaders :: "step \<Rightarrow> string \<Rightarrow> string amap" where
  "stepHeaders step body =
     (if body \<noteq> [] \<and> \<not> hasHeader (spHeaders step) ''Content-Type''
      then aput ''Content-Type'' simMediaType (spHeaders step) else spHeaders step)"

definition requestHeaders :: "string \<Rightarrow> string amap \<Rightarrow> string amap" where
  "requestHeaders token headers =
     (let h = aput ''Accept'' simMediaType (fold (\<lambda>(k, v). aput (canonicalKey k) v) headers [])
      in if token \<noteq> [] then aput ''Authorization'' (''Bearer '' @ token) h else h)"

subsection \<open>Checks\<close>

datatype failure =
    StatusMismatch int int
  | BodyNotJSON
  | ScimTypeMismatch string string
  | HeaderMismatch string string string
  | NotUnassigned string
  | NotArray string
  | LengthMismatch string int int
  | MissingPath string
  | ValueMismatch string
  | SubstituteFailed
  | TransportFailed
  | CaptureFailed

definition isUnassigned :: "gval option \<Rightarrow> bool" where
  "isUnassigned got \<longleftrightarrow> (case got of None \<Rightarrow> True | Some v \<Rightarrow> v = VNil \<or> v = VList [])"

definition checkAssertion :: "gval \<Rightarrow> body_assertion \<Rightarrow> failure list" where
  "checkAssertion doc a =
     (let got = lookupPath doc (asPath a) in
      if asUnassigned a then (if isUnassigned got then [] else [NotUnassigned (asPath a)])
      else case asLen a of
        Some n \<Rightarrow>
          (case got of
             Some (VList arr) \<Rightarrow>
               if int (length arr) \<noteq> n then [LengthMismatch (asPath a) (int (length arr)) n] else []
           | _ \<Rightarrow> [NotArray (asPath a)])
      | None \<Rightarrow>
          (case got of
             None \<Rightarrow> [MissingPath (asPath a)]
           | Some v \<Rightarrow> if valueEqual (asValue a) v then [] else [ValueMismatch (asPath a)]))"

definition checkScimType :: "string \<Rightarrow> gval \<Rightarrow> failure list" where
  "checkScimType want doc =
     (case lookupPath doc ''scimType'' of
        Some (VString s) \<Rightarrow> if equalFold s want then [] else [ScimTypeMismatch s want]
      | _ \<Rightarrow> [ScimTypeMismatch [] want])"

definition checkHeaders :: "string amap \<Rightarrow> string list amap \<Rightarrow> failure list" where
  "checkHeaders want header =
     concat (map (\<lambda>(k, v). if headerGet header k \<noteq> v then [HeaderMismatch k (headerGet header k) v] else []) want)"

definition blank :: "string \<Rightarrow> bool" where "blank body \<longleftrightarrow> trimSpace body = []"

text \<open>A blank body leaves the document nil.\<close>

definition evaluate :: "'w target \<Rightarrow> expectation \<Rightarrow> int \<Rightarrow> string list amap \<Rightarrow> string \<Rightarrow> failure list" where
  "evaluate tg ex status header body =
     (let fails = (if exStatus ex \<noteq> 0 \<and> status \<noteq> exStatus ex then [StatusMismatch status (exStatus ex)] else [])
      in case (if blank body then Some VNil else tgDecode tg body) of
           None \<Rightarrow>
             fails @ (if exScimType ex \<noteq> [] \<or> exBody ex \<noteq> [] then [BodyNotJSON] else []) @
             checkHeaders (exHeaders ex) header
         | Some doc \<Rightarrow>
             fails @ (if exScimType ex \<noteq> [] then checkScimType (exScimType ex) doc else []) @
             checkHeaders (exHeaders ex) header @ concat (map (checkAssertion doc) (exBody ex)))"

subsection \<open>Variables\<close>

fun hasAction :: "string \<Rightarrow> bool" where
  "hasAction (a # b # s) \<longleftrightarrow> a = CHR ''{'' \<and> b = CHR ''{'' \<or> hasAction (b # s)"
| "hasAction _ \<longleftrightarrow> False"

definition substitute :: "'w target \<Rightarrow> string \<Rightarrow> string amap \<Rightarrow> string option" where
  "substitute tg s vars = (if \<not> hasAction s then Some s else tgTemplate tg s vars)"

text \<open>\<open>fmt.Sprint\<close>.\<close>

definition sprint :: "'w target \<Rightarrow> gval \<Rightarrow> string" where
  "sprint tg v =
     (case v of
        VString s \<Rightarrow> s
      | VBool b \<Rightarrow> if b then ''true'' else ''false''
      | VNil \<Rightarrow> ''<nil>''
      | _ \<Rightarrow> tgSprint tg v)"

text \<open>The variables bound before a failing capture stay bound.\<close>

fun captureAll :: "'w target \<Rightarrow> gval \<Rightarrow> capture list \<Rightarrow> string amap \<Rightarrow> bool \<times> string amap" where
  "captureAll tg doc [] vars = (True, vars)"
| "captureAll tg doc (c # cs) vars =
     (case lookupPath doc (cpPath c) of
        None \<Rightarrow> (False, vars)
      | Some v \<Rightarrow> captureAll tg doc cs (aput (cpVar c) (sprint tg v) vars))"

definition applyCaptures :: "'w target \<Rightarrow> capture list \<Rightarrow> string \<Rightarrow> string amap \<Rightarrow> bool \<times> string amap" where
  "applyCaptures tg caps body vars =
     (if caps = [] then (True, vars)
      else case tgDecode tg body of None \<Rightarrow> (False, vars) | Some doc \<Rightarrow> captureAll tg doc caps vars)"

subsection \<open>Reports\<close>

datatype json_body = NilBody | RawJSON string | QuotedText string

record recorded_io =
  ioHeaders :: "string amap"
  ioBody :: json_body

definition jsonBody :: "'w target \<Rightarrow> string \<Rightarrow> json_body" where
  "jsonBody tg b = (if blank b then NilBody else if tgValid tg b then RawJSON b else QuotedText b)"

definition newRecordedIO :: "'w target \<Rightarrow> string amap \<Rightarrow> string \<Rightarrow> recorded_io" where
  "newRecordedIO tg headers body = \<lparr>ioHeaders = headers, ioBody = jsonBody tg body\<rparr>"

definition flattenHeaders :: "string list amap \<Rightarrow> string amap" where
  "flattenHeaders h = map (\<lambda>(k, _). (k, headerGet h k)) h"

record step_result =
  srName :: string
  srMethod :: string
  srPath :: string
  srStatus :: int
  srPassed :: bool
  srFailures :: "failure list"
  srRequest :: recorded_io
  srResponse :: recorded_io

record report =
  rpScenario :: string
  rpTarget :: string
  rpPassed :: bool
  rpAborted :: bool
  rpAbortedAt :: string
  rpSteps :: "step_result list"

definition noIO :: recorded_io where "noIO = \<lparr>ioHeaders = [], ioBody = NilBody\<rparr>"

definition markFailed :: "failure \<Rightarrow> step_result \<Rightarrow> step_result" where
  "markFailed f res = res\<lparr>srPassed := False, srFailures := srFailures res @ [f]\<rparr>"

subsection \<open>The simulator\<close>

text \<open>\<open>newSimTransport\<close> cuts the slashes at the end of the target.\<close>

definition simBase :: "string \<Rightarrow> string" where
  "simBase t = rev (dropWhile (\<lambda>c. c = CHR ''/'') (rev t))"

definition simRequest :: "string \<Rightarrow> string \<Rightarrow> string \<Rightarrow> string \<Rightarrow> string amap \<Rightarrow> string \<Rightarrow> sim_request" where
  "simRequest base token method path headers body =
     \<lparr>sqMethod = method, sqURL = simBase base @ path, sqHeaders = requestHeaders token headers, sqBody = body\<rparr>"

definition runStep ::
    "'w target \<Rightarrow> string \<Rightarrow> string \<Rightarrow> step \<Rightarrow> string amap \<Rightarrow> 'w \<Rightarrow> step_result \<times> string amap \<times> 'w" where
  "runStep tg base token step vars w =
     (let res = \<lparr>srName = spName step, srMethod = spMethod step, srPath = [], srStatus = 0, srPassed = False,
            srFailures = [], srRequest = noIO, srResponse = noIO\<rparr>
      in case substitute tg (spPath step) vars of
           None \<Rightarrow> (markFailed SubstituteFailed res, vars, w)
         | Some path \<Rightarrow>
             let res = res\<lparr>srPath := path\<rparr> in
             (case substitute tg (spBody step) vars of
                None \<Rightarrow> (markFailed SubstituteFailed res, vars, w)
              | Some body \<Rightarrow>
                  let headers = stepHeaders step body; res = res\<lparr>srRequest := newRecordedIO tg headers body\<rparr> in
                  (case tgExchange tg (simRequest base token (spMethod step) path headers body) w of
                     (None, w) \<Rightarrow> (markFailed TransportFailed res, vars, w)
                   | (Some rsp, w) \<Rightarrow>
                       let res = res\<lparr>srStatus := ssStatus rsp,
                             srResponse := newRecordedIO tg (flattenHeaders (ssHeaders rsp)) (ssBody rsp)\<rparr>;
                           fails = evaluate tg (spExpect step) (ssStatus rsp) (ssHeaders rsp) (ssBody rsp);
                           (ok, vars) =
                             (if fails = [] then applyCaptures tg (spCapture step) (ssBody rsp) vars else (True, vars));
                           fails = (if ok then fails else fails @ [CaptureFailed])
                       in (res\<lparr>srFailures := fails, srPassed := (fails = [])\<rparr>, vars, w))))"

text \<open>The loop over the steps, up to the first that fails.\<close>

fun runSteps ::
    "'w target \<Rightarrow> string \<Rightarrow> string \<Rightarrow> step list \<Rightarrow> string amap \<Rightarrow> 'w \<Rightarrow> step_result list \<times> 'w" where
  "runSteps tg base token [] vars w = ([], w)"
| "runSteps tg base token (s # ss) vars w =
     (case runStep tg base token s vars w of
        (res, vars, w) \<Rightarrow>
          if \<not> srPassed res then ([res], w)
          else case runSteps tg base token ss vars w of (rs, w) \<Rightarrow> (res # rs, w))"

definition zeroReport :: report where
  "zeroReport =
     \<lparr>rpScenario = [], rpTarget = [], rpPassed = False, rpAborted = False, rpAbortedAt = [], rpSteps = []\<rparr>"

definition Simulate ::
    "'w target \<Rightarrow> string \<Rightarrow> string \<Rightarrow> scenario \<Rightarrow> 'w \<Rightarrow> (report \<times> scenario_error option) \<times> 'w" where
  "Simulate tg base token sc w =
     (case validateScenario sc of
        Inl e \<Rightarrow> ((zeroReport, Some e), w)
      | Inr _ \<Rightarrow>
          (case runSteps tg base token (scSteps sc) [] w of
             (rs, w) \<Rightarrow>
               let rep = \<lparr>rpScenario = scName sc, rpTarget = base, rpPassed = False, rpAborted = False,
                     rpAbortedAt = [], rpSteps = rs\<rparr>
               in if srPassed (last rs) then ((rep\<lparr>rpPassed := True\<rparr>, None), w)
                  else if tgDone tg w then ((rep, Some (SimulateAborted (srName (last rs)))), w)
                  else ((rep\<lparr>rpAborted := True, rpAbortedAt := srName (last rs)\<rparr>, None), w)))"

end
