(* ===== verification/Test_Laws.thy ===== *)
theory Test_Laws
  imports Test_Scenario
begin

text \<open>
  What the simulator relies on: the search for a path, the checks as a predicate, and the steps
  of a run with the requests they send.
\<close>

subsection \<open>Paths\<close>

text \<open>A path leads to a value when it can be cut into keys and indices that do.\<close>

inductive leads :: "gval \<Rightarrow> string list \<Rightarrow> gval \<Rightarrow> bool" where
  here: "leads v [] v"
| key: "0 < n \<Longrightarrow> n \<le> length ts \<Longrightarrow> aget m (joinWith CHR ''.'' (take n ts)) = Some w \<Longrightarrow>
     leads w (drop n ts) v \<Longrightarrow> leads (VMap m) ts v"
| index: "parseInt64 t = Some i \<Longrightarrow> 0 \<le> i \<Longrightarrow> i < int (length xs) \<Longrightarrow> leads (xs ! nat i) ts v \<Longrightarrow>
     leads (VList xs) (t # ts) v"

lemma resolve_leads: "resolveTokens cur ts = Some v \<Longrightarrow> leads cur ts v"
proof (induction cur ts arbitrary: v rule: resolveTokens.induct)
  case (1 cur)
  then show ?case by (simp add: leads.here)
next
  case (2 cur t ts)
  consider (map) m where "cur = VMap m" | (list) xs where "cur = VList xs"
    using 2(3) by (cases cur) auto
  then show ?case
  proof cases
    case map
    with 2(3) obtain n w where n: "n \<in> set (rev [1..<Suc (length (t # ts))])"
      "aget m (joinWith CHR ''.'' (take n (t # ts))) = Some w" "resolveTokens w (drop n (t # ts)) = Some v"
      by (auto simp del: upt_Suc dest!: firstSome_Some split: option.splits)
    from 2(2) [OF map n(1,2)] n(3) have "leads w (drop n (t # ts)) v" by blast
    moreover have "0 < n" "n \<le> length (t # ts)" using n(1) by auto
    ultimately show ?thesis unfolding map using n(2) leads.key by blast
  next
    case list
    with 2(3) obtain i where i: "parseInt64 t = Some i" "0 \<le> i" "i < int (length xs)"
      "resolveTokens (xs ! nat i) ts = Some v" by (auto split: option.splits if_splits)
    from 2(1) [OF list i(1) _ i(4)] i list show ?thesis by (auto intro: leads.index)
  qed
qed

lemma leads_resolve: "leads cur ts v \<Longrightarrow> resolveTokens cur ts \<noteq> None"
proof (induction rule: leads.induct)
  case (key n ts m w v)
  then obtain t ts' where ts: "ts = t # ts'" by (cases ts) auto
  from key have n: "n \<in> set (rev [1..<Suc (length ts)])" by auto
  from key have found: "(case aget m (joinWith CHR ''.'' (take n ts)) of
      None \<Rightarrow> None | Some v \<Rightarrow> resolveTokens v (drop n ts)) \<noteq> None" by simp
  show ?case unfolding ts resolveTokens.simps gval.case firstSome_None
    by (rule notI, rule notE [OF found [unfolded ts]], erule bspec [OF _ n [unfolded ts]])
qed auto

lemma join_split: "joinWith sep (splitOn sep s) = s"
proof (induction s)
  case (Cons c s)
  obtain p ps where p: "splitOn sep s = p # ps" by (cases "splitOn sep s") auto
  with Cons show ?case by (cases ps) auto
qed simp

text \<open>The longest key wins: a member named by the whole path is found first.\<close>

lemma whole_key: "aget m path = Some v \<Longrightarrow> lookupPath (VMap m) path = Some v"
proof -
  assume v: "aget m path = Some v"
  obtain t ts where ts: "splitOn CHR ''.'' path = t # ts" by (cases "splitOn CHR ''.'' path") auto
  have "rev [1..<Suc (length (t # ts))] = length (t # ts) # rev [1..<length (t # ts)]" by simp
  moreover have "joinWith CHR ''.'' (t # ts) = path" using join_split [of "CHR ''.''" path] ts by simp
  ultimately show ?thesis using v by (simp add: lookupPath_def ts del: upt_Suc)
qed

subsection \<open>Checks\<close>

definition holds :: "gval \<Rightarrow> body_assertion \<Rightarrow> bool" where
  "holds doc a \<longleftrightarrow>
     (if asUnassigned a then (\<forall>v. lookupPath doc (asPath a) = Some v \<longrightarrow> v = VNil \<or> v = VList [])
      else case asLen a of
        Some n \<Rightarrow> (\<exists>arr. lookupPath doc (asPath a) = Some (VList arr) \<and> int (length arr) = n)
      | None \<Rightarrow> (\<exists>v. lookupPath doc (asPath a) = Some v \<and> valueEqual (asValue a) v))"

lemma checkAssertion_holds: "checkAssertion doc a = [] \<longleftrightarrow> holds doc a"
  by (auto simp: checkAssertion_def holds_def isUnassigned_def Let_def split: option.splits gval.splits)

text \<open>A response meets an expectation. The document of a blank body is nil.\<close>

definition meets :: "'w target \<Rightarrow> expectation \<Rightarrow> sim_response \<Rightarrow> bool" where
  "meets tg ex rsp \<longleftrightarrow>
     (exStatus ex = 0 \<or> ssStatus rsp = exStatus ex) \<and>
     (\<forall>(k, v) \<in> set (exHeaders ex). headerGet (ssHeaders rsp) k = v) \<and>
     (case (if blank (ssBody rsp) then Some VNil else tgDecode tg (ssBody rsp)) of
        None \<Rightarrow> exScimType ex = [] \<and> exBody ex = []
      | Some doc \<Rightarrow>
          (exScimType ex = [] \<or>
             (\<exists>s. lookupPath doc ''scimType'' = Some (VString s) \<and> equalFold s (exScimType ex))) \<and>
          (\<forall>a \<in> set (exBody ex). holds doc a))"

lemma checkScimType_ok:
  "checkScimType want doc = [] \<longleftrightarrow> (\<exists>s. lookupPath doc ''scimType'' = Some (VString s) \<and> equalFold s want)"
  by (auto simp: checkScimType_def split: option.splits gval.splits)

lemma checkHeaders_ok: "checkHeaders want h = [] \<longleftrightarrow> (\<forall>(k, v) \<in> set want. headerGet h k = v)"
  by (auto simp: checkHeaders_def split: prod.splits if_splits)

lemma evaluate_meets:
  "evaluate tg ex (ssStatus rsp) (ssHeaders rsp) (ssBody rsp) = [] \<longleftrightarrow> meets tg ex rsp"
  by (auto simp: evaluate_def meets_def checkScimType_ok checkHeaders_ok checkAssertion_holds Let_def
      split: option.split)

subsection \<open>Runs\<close>

text \<open>A target that remembers what was sent to it and how it answered.\<close>

type_synonym sim_log = "(sim_request \<times> sim_response option) list"

definition watching :: "'w target \<Rightarrow> ('w \<times> sim_log) target" where
  "watching tg =
     \<lparr>tgTemplate = tgTemplate tg, tgDecode = tgDecode tg, tgValid = tgValid tg, tgSprint = tgSprint tg,
      tgExchange = (\<lambda>m (w, l). case tgExchange tg m w of (a, w) \<Rightarrow> (a, (w, l @ [(m, a)]))),
      tgDone = (\<lambda>(w, l). tgDone tg w)\<rparr>"

text \<open>What a step that passed has sent and what it got.\<close>

definition answered ::
    "'w target \<Rightarrow> string \<Rightarrow> string \<Rightarrow> step \<Rightarrow> step_result \<Rightarrow> sim_request \<times> sim_response option \<Rightarrow> bool" where
  "answered tg base token step res x \<longleftrightarrow>
     (\<exists>rsp. snd x = Some rsp \<and> meets tg (spExpect step) rsp \<and> srStatus res = ssStatus rsp) \<and>
     sqMethod (fst x) = spMethod step \<and> sqURL (fst x) = simBase base @ srPath res \<and>
     (token \<noteq> [] \<longrightarrow> aget (sqHeaders (fst x)) ''Authorization'' = Some (''Bearer '' @ token))"

lemma watching_sel [simp]:
  "tgTemplate (watching tg) = tgTemplate tg" "tgDecode (watching tg) = tgDecode tg"
  "substitute (watching tg) = substitute tg" "tgDone (watching tg) (w, l) = tgDone tg w"
  "meets (watching tg) = meets tg"
  by (auto simp: watching_def substitute_def meets_def fun_eq_iff)

lemma request_authorized:
  "token \<noteq> [] \<Longrightarrow> aget (requestHeaders token h) ''Authorization'' = Some (''Bearer '' @ token)"
  by (simp add: requestHeaders_def Let_def)

lemma runStep_log:
  assumes "runStep (watching tg) base token s vars (w, l) = (res, vars', (w', l'))"
  shows "\<exists>d. l' = l @ d \<and> length d \<le> 1 \<and> srName res = spName s \<and>
    (srPassed res \<longrightarrow> (\<exists>x. d = [x] \<and> answered tg base token s res x))"
proof (cases "substitute tg (spPath s) vars")
  case None
  with assms show ?thesis by (auto simp: runStep_def markFailed_def)
next
  case path: (Some path)
  show ?thesis
  proof (cases "substitute tg (spBody s) vars")
    case None
    with assms path show ?thesis by (auto simp: runStep_def markFailed_def Let_def)
  next
    case body: (Some body)
    define rq where "rq = simRequest base token (spMethod s) path (stepHeaders s body) body"
    obtain a w1 where ex: "tgExchange tg rq w = (a, w1)" by fastforce
    then have wex: "tgExchange (watching tg) rq (w, l) = (a, (w1, l @ [(rq, a)]))" by (simp add: watching_def)
    have rq: "sqMethod rq = spMethod s" "sqURL rq = simBase base @ path"
      "token \<noteq> [] \<longrightarrow> aget (sqHeaders rq) ''Authorization'' = Some (''Bearer '' @ token)"
      by (simp_all add: rq_def simRequest_def request_authorized)
    show ?thesis
    proof (cases a)
      case None
      with assms path body wex [unfolded rq_def] show ?thesis by (auto simp: runStep_def markFailed_def Let_def)
    next
      case (Some rsp)
      define fails where
        "fails = evaluate (watching tg) (spExpect s) (ssStatus rsp) (ssHeaders rsp) (ssBody rsp)"
      have res: "l' = l @ [(rq, a)]" "srName res = spName s" "srPath res = path" "srStatus res = ssStatus rsp"
        "srPassed res \<longrightarrow> fails = []"
        using assms path body wex [unfolded rq_def] Some
        by (auto simp: runStep_def Let_def rq_def fails_def [symmetric] split: prod.splits if_splits)
      have "fails = [] \<longleftrightarrow> meets tg (spExpect s) rsp" unfolding fails_def evaluate_meets by simp
      with res rq Some show ?thesis by (auto simp: answered_def)
    qed
  qed
qed

text \<open>The results are those of a prefix of the steps; only the last may have failed.\<close>

lemma runSteps_log:
  assumes "runSteps (watching tg) base token ss vars (w, l) = (rs, (w', l'))"
  shows "\<exists>d. l' = l @ d \<and> length d \<le> length rs \<and> length rs \<le> length ss \<and>
    map srName rs = map spName (take (length rs) ss) \<and> list_all srPassed (butlast rs) \<and>
    (ss \<noteq> [] \<longrightarrow> rs \<noteq> []) \<and> (list_all srPassed rs \<longrightarrow> length rs = length ss) \<and>
    (\<forall>i < length rs. srPassed (rs ! i) \<longrightarrow> i < length d \<and> answered tg base token (ss ! i) (rs ! i) (d ! i))"
  using assms
proof (induction ss arbitrary: vars w l rs)
  case (Cons s ss)
  obtain res vars1 w1 l1 where st: "runStep (watching tg) base token s vars (w, l) = (res, vars1, (w1, l1))"
    by (metis prod.collapse)
  from runStep_log [OF st] obtain d where d: "l1 = l @ d" "length d \<le> 1" "srName res = spName s"
    "srPassed res \<longrightarrow> (\<exists>x. d = [x] \<and> answered tg base token s res x)" by blast
  show ?case
  proof (cases "srPassed res")
    case False
    with Cons.prems st d show ?thesis by auto
  next
    case True
    then obtain rs' where rs: "rs = res # rs'" "runSteps (watching tg) base token ss vars1 (w1, l1) = (rs', (w', l'))"
      using Cons.prems st by (auto split: prod.splits)
    from d True obtain x where x: "d = [x]" "answered tg base token s res x" by blast
    from Cons.IH [OF rs(2)] obtain d' where IH: "l' = l1 @ d'" "length d' \<le> length rs'" "length rs' \<le> length ss"
      "map srName rs' = map spName (take (length rs') ss)" "list_all srPassed (butlast rs')"
      "ss \<noteq> [] \<longrightarrow> rs' \<noteq> []" "list_all srPassed rs' \<longrightarrow> length rs' = length ss"
      "\<forall>i < length rs'. srPassed (rs' ! i) \<longrightarrow> i < length d' \<and> answered tg base token (ss ! i) (rs' ! i) (d' ! i)"
      by blast
    have each: "i < length (x # d') \<and> answered tg base token ((s # ss) ! i) (rs ! i) ((x # d') ! i)"
      if "i < length rs" "srPassed (rs ! i)" for i
      using that IH(8) x(2) rs(1) by (cases i) auto
    show ?thesis
      by (intro exI [of _ "x # d'"] conjI allI impI) (use IH x d(1,3) True rs(1) each in \<open>auto simp: butlast.simps\<close>)
  qed
qed simp

end
