(* ===== verification/Test_Properties.thy ===== *)
theory Test_Properties
  imports Test_Laws
begin

text \<open>
  The properties of the simulator: its verdict, and the paths of its checks.
\<close>

subsection \<open>Simulation\<close>


text \<open>A target that answers from a list; it reads the bodies of the sample scenario, and its templates
  know one variable.\<close>

definition scriptTarget :: "sim_response list target" where
  "scriptTarget =
     \<lparr>tgTemplate = (\<lambda>s vars. map_option (\<lambda>v. ''/Users/'' @ v) (aget vars ''uid'')),
      tgDecode = (\<lambda>b. if b = ''user'' then Some (VMap [(''id'', VString ''7''), (''active'', VBool True)]) else None),
      tgValid = (\<lambda>b. b = ''user''), tgSprint = (\<lambda>v. []),
      tgExchange = (\<lambda>m w. case w of [] \<Rightarrow> (None, []) | a # w \<Rightarrow> (Some a, w)), tgDone = (\<lambda>w. False)\<rparr>"

definition sampleScenario :: scenario where
  "sampleScenario =
     (let ex = (\<lambda>n body. \<lparr>exStatus = n, exScimType = [], exHeaders = [], exBody = body\<rparr>)
      in \<lparr>scName = ''sample'', scDescription = [], scSteps =
        [\<lparr>spName = ''create'', spMethod = ''POST'', spPath = ''/Users'', spHeaders = [], spBody = ''user'',
          spCapture = [\<lparr>cpVar = ''uid'', cpPath = ''id''\<rparr>], spExpect = ex 201 []\<rparr>,
         \<lparr>spName = ''get'', spMethod = ''GET'', spPath = ''/Users/{{.uid}}'', spHeaders = [], spBody = [],
          spCapture = [], spExpect = ex 200
            [\<lparr>asPath = ''active'', asValue = VBool True, asUnassigned = False, asLen = None\<rparr>]\<rparr>]\<rparr>)"


text \<open>A path is found exactly when it can be cut into keys and indices that lead to a value, and a member named
  by the whole path comes first.\<close>

theorem lookup_path_complete:
  "(lookupPath doc path = None \<longleftrightarrow> (\<nexists>v. leads doc (splitOn CHR ''.'' path) v)) \<and>
   (\<forall>v. lookupPath doc path = Some v \<longrightarrow> leads doc (splitOn CHR ''.'' path) v) \<and>
   (\<forall>m v. doc = VMap m \<and> aget m path = Some v \<longrightarrow> lookupPath doc path = Some v)"
  using resolve_leads leads_resolve whole_key unfolding lookupPath_def
  by (metis not_Some_eq)

end
