(* ===== verification/Test_Catalog.thy ===== *)
theory Test_Catalog
  imports Test_Scenario Filter_Ast
begin

text \<open>
  \<open>scimtest/scenario_catalog.go\<close>: the fixed scenarios and their builder. The corpus of request bodies
  that \<open>internal/idpcorpus\<close> compiles in is a parameter: the list of its fixtures, or nothing when it
  does not load. \<open>jsonf\<close> and the other uses of \<open>fmt.Sprintf\<close> are written as concatenations.
\<close>

subsection \<open>Texts\<close>

text \<open>The verb \<open>%q\<close> on printable ASCII, which is all it is used on.\<close>

definition quoted :: "string \<Rightarrow> string" where
  "quoted s =
     CHR 0x22 # concat (map (\<lambda>c. if c = CHR 0x22 \<or> c = CHR 0x5C then [CHR 0x5C, c] else [c]) s) @ [CHR 0x22]"

text \<open>\<open>url.QueryEscape\<close>.\<close>

definition queryPlain :: "char \<Rightarrow> bool" where
  "queryPlain c \<longleftrightarrow>
     CHR ''0'' \<le> c \<and> c \<le> CHR ''9'' \<or> CHR ''A'' \<le> c \<and> c \<le> CHR ''Z'' \<or> CHR ''a'' \<le> c \<and> c \<le> CHR ''z'' \<or>
     c \<in> set ''-_.~''"

definition queryEscape :: "string \<Rightarrow> string" where
  "queryEscape s =
     concat (map (\<lambda>c. if queryPlain c then [c] else if c = CHR '' '' then ''+''
        else [CHR ''%'', upperChar (hexDigit (of_char c div 16)), upperChar (hexDigit (of_char c mod 16))]) s)"

definition usersEndpoint :: string where "usersEndpoint = ''/Users''"
definition groupsEndpoint :: string where "groupsEndpoint = ''/Groups''"
definition userPath :: string where "userPath = ''/Users/{{.uid}}''"
definition groupPath :: string where "groupPath = ''/Groups/{{.gid}}''"
definition stepCreateUser :: string where "stepCreateUser = ''create user''"
definition pathActive :: string where "pathActive = ''active''"
definition pathTotalResults :: string where "pathTotalResults = ''totalResults''"
definition pathMembers :: string where "pathMembers = ''members''"
definition userSchema :: string where "userSchema = ''urn:ietf:params:scim:schemas:core:2.0:User''"
definition groupSchema :: string where "groupSchema = ''urn:ietf:params:scim:schemas:core:2.0:Group''"
definition patchSchema :: string where "patchSchema = ''urn:ietf:params:scim:api:messages:2.0:PatchOp''"

definition userFilterPath :: "string \<Rightarrow> string" where
  "userFilterPath userName = usersEndpoint @ ''?filter='' @ queryEscape (''userName eq '' @ quoted userName)"

subsection \<open>Names\<close>

definition ScenarioRFCStrictLifecycle :: string where "ScenarioRFCStrictLifecycle = ''rfc-strict-lifecycle''"
definition ScenarioEntraUserLifecycle :: string where "ScenarioEntraUserLifecycle = ''entra-user-lifecycle''"
definition ScenarioEntraGroupMembership :: string where "ScenarioEntraGroupMembership = ''entra-group-membership''"
definition ScenarioOktaUserLifecycle :: string where "ScenarioOktaUserLifecycle = ''okta-user-lifecycle''"
definition ScenarioOktaGroupPUT :: string where "ScenarioOktaGroupPUT = ''okta-group-put''"
definition ScenarioOneLoginLookupDance :: string where "ScenarioOneLoginLookupDance = ''onelogin-lookup-dance''"

definition ScenarioNames :: "string list" where
  "ScenarioNames =
     [ScenarioRFCStrictLifecycle, ScenarioEntraUserLifecycle, ScenarioEntraGroupMembership,
      ScenarioOktaUserLifecycle, ScenarioOktaGroupPUT, ScenarioOneLoginLookupDance]"

subsection \<open>The builder\<close>

record fixture =
  fxProvider :: string
  fxName :: string
  fxRequest :: string

definition loadFixtures :: "fixture list \<Rightarrow> string amap" where
  "loadFixtures corpus = fold (\<lambda>f. aput (fxProvider f @ ''/'' @ fxName f) (fxRequest f)) corpus []"

record scenario_builder =
  sbFx :: "string amap"
  sbSteps :: "step list"
  sbErr :: "scenario_error option"

definition newBuilder :: "string amap \<Rightarrow> scenario_builder" where
  "newBuilder fx = \<lparr>sbFx = fx, sbSteps = [], sbErr = None\<rparr>"

definition addStep :: "step \<Rightarrow> scenario_builder \<Rightarrow> scenario_builder" where
  "addStep s b = b\<lparr>sbSteps := sbSteps b @ [s]\<rparr>"

definition corpusBody :: "string \<Rightarrow> scenario_builder \<Rightarrow> string \<times> scenario_builder" where
  "corpusBody key b =
     (if sbErr b \<noteq> None then ([], b)
      else case aget (sbFx b) key of
        Some body \<Rightarrow> (body, b)
      | None \<Rightarrow> ([], b\<lparr>sbErr := Some (MissingFixture key)\<rparr>))"

text \<open>A step whose body is read from the corpus.\<close>

definition addCorpusStep :: "(string \<Rightarrow> step) \<Rightarrow> string \<Rightarrow> scenario_builder \<Rightarrow> scenario_builder" where
  "addCorpusStep mk key b = (case corpusBody key b of (body, b) \<Rightarrow> addStep (mk body) b)"

definition buildScenario :: "string \<Rightarrow> string \<Rightarrow> scenario_builder \<Rightarrow> (scenario_error, scenario) res" where
  "buildScenario name desc b =
     (case sbErr b of
        Some e \<Rightarrow> Inl e
      | None \<Rightarrow>
          let sc = \<lparr>scName = name, scDescription = desc, scSteps = sbSteps b\<rparr>
          in rbind (validateScenario sc) (\<lambda>_. Inr sc))"

subsection \<open>Parts of steps\<close>

definition captureID :: "string \<Rightarrow> capture list" where
  "captureID v = [\<lparr>cpVar = v, cpPath = ''id''\<rparr>]"

definition assertValue :: "string \<Rightarrow> gval \<Rightarrow> body_assertion" where
  "assertValue p v = \<lparr>asPath = p, asValue = v, asUnassigned = False, asLen = None\<rparr>"

definition assertLen :: "string \<Rightarrow> int \<Rightarrow> body_assertion" where
  "assertLen p n = \<lparr>asPath = p, asValue = VNil, asUnassigned = False, asLen = Some n\<rparr>"

definition assertUnassigned :: "string \<Rightarrow> body_assertion" where
  "assertUnassigned p = \<lparr>asPath = p, asValue = VNil, asUnassigned = True, asLen = None\<rparr>"

definition assertUserName :: "string \<Rightarrow> body_assertion list" where
  "assertUserName name = [assertValue ''userName'' (VString name)]"

definition catalogStep ::
    "string \<Rightarrow> string \<Rightarrow> string \<Rightarrow> capture list \<Rightarrow> int \<Rightarrow> body_assertion list \<Rightarrow> string \<Rightarrow> step" where
  "catalogStep name method path captures status body text =
     \<lparr>spName = name, spMethod = method, spPath = path, spHeaders = [], spBody = text, spCapture = captures,
      spExpect = \<lparr>exStatus = status, exScimType = [], exHeaders = [], exBody = body\<rparr>\<rparr>"

text \<open>The bodies start with their schema.\<close>

definition openBody :: "string \<Rightarrow> string" where
  "openBody schema = ''{\"schemas\":['' @ quoted schema @ '']''"

subsection \<open>The scenarios\<close>

definition rfcCreate :: string where
  "rfcCreate = openBody userSchema @ '',\"userName\":\"rfc.user@example.com\",\"active\":true}''"

definition rfcActivePatch :: string where
  "rfcActivePatch =
     openBody patchSchema @ '',\"Operations\":[{\"op\":\"replace\",\"path\":\"active\",\"value\":false}]}''"

definition rfcStrictLifecycle :: "(scenario_error, scenario) res" where
  "rfcStrictLifecycle =
     buildScenario ScenarioRFCStrictLifecycle
       ''RFC-compliant user lifecycle: create, read, deactivate, lookup, delete''
       (fold id
         [addStep (catalogStep stepCreateUser ''POST'' usersEndpoint (captureID ''uid'') 201
            (assertUserName ''rfc.user@example.com'') rfcCreate),
          addStep (catalogStep ''get user'' ''GET'' userPath [] 200 (assertUserName ''rfc.user@example.com'') []),
          addStep (catalogStep ''deactivate via RFC patch'' ''PATCH'' userPath [] 200
            [assertValue pathActive (VBool False)] rfcActivePatch),
          addStep (catalogStep ''lookup finds one'' ''GET'' (userFilterPath ''rfc.user@example.com'') [] 200
            [assertValue pathTotalResults (VInt 1)] []),
          addStep (catalogStep ''delete user'' ''DELETE'' userPath [] 204 [] []),
          addStep (catalogStep ''get after delete is 404'' ''GET'' userPath [] 404 [] [])]
         (newBuilder []))"

definition entraCreate :: string where
  "entraCreate =
     openBody userSchema @ '',\"userName\":\"bjensen@example.com\",'' @
     ''\"name\":{\"givenName\":\"Barb\",\"familyName\":\"Jensen\"},\"active\":true}''"

definition entraUserLifecycle :: "string amap \<Rightarrow> (scenario_error, scenario) res" where
  "entraUserLifecycle fx =
     buildScenario ScenarioEntraUserLifecycle
       ''Entra ID user lifecycle: wrapped-string deactivate, flattened-key profile edit, manager, address''
       (fold id
         [addStep (catalogStep stepCreateUser ''POST'' usersEndpoint (captureID ''uid'') 201
            [assertValue pathActive (VBool True)] entraCreate),
          addCorpusStep (catalogStep ''deactivate (wrapped-string replace)'' ''PATCH'' userPath [] 200
            [assertValue pathActive (VBool False)]) ''entra/replace-active-wrapped-string'',
          addCorpusStep (catalogStep ''profile update (pathless flattened keys)'' ''PATCH'' userPath [] 200
            [assertValue ''displayName'' (VString ''Babs Jensen''),
             assertValue ''name.givenName'' (VString ''Barbara''),
             assertValue ''urn:ietf:params:scim:schemas:extension:enterprise:2.0:User.department''
               (VString ''Tour Operations'')]) ''entra/pathless-replace-flattened-keys'',
          addCorpusStep (catalogStep ''set manager (value object)'' ''PATCH'' userPath [] 200
            [assertValue ''urn:ietf:params:scim:schemas:extension:enterprise:2.0:User.manager.value''
               (VString ''26118915-6090-4610-87e4-49d8ca9f808d'')]) ''entra/add-manager-value-object'',
          addCorpusStep (catalogStep ''add address (valuePath synthesis)'' ''PATCH'' userPath [] 200
            [assertLen ''addresses'' 1]) ''entra/add-valuepath-synthesizes-element'',
          addStep (catalogStep ''confirm'' ''GET'' userPath [] 200 [assertValue pathActive (VBool False)] [])]
         (newBuilder fx))"

definition memberName :: "int \<Rightarrow> string" where "memberName i = ''u'' @ formatInt i"

definition memberCreate :: "int \<Rightarrow> string" where
  "memberCreate i =
     openBody userSchema @ '',\"userName\":'' @ quoted (memberName i @ ''@example.com'') @ ''}''"

definition memberPatch :: "int \<Rightarrow> string" where
  "memberPatch i =
     openBody patchSchema @ '',\"Operations\":[{\"op\":\"add\",\"path\":\"members\",\"value\":[{\"value\":\"{{.u'' @
     formatInt i @ ''}}\"}]}]}''"

definition engineeringCreate :: string where
  "engineeringCreate = openBody groupSchema @ '',\"displayName\":\"Engineering\"}''"

definition entraGroupMembership :: "(scenario_error, scenario) res" where
  "entraGroupMembership =
     buildScenario ScenarioEntraGroupMembership
       ''Group membership built one member per PATCH, the way IdPs actually provision it''
       (fold id
         ([addStep (catalogStep ''create group'' ''POST'' groupsEndpoint (captureID ''gid'') 201 [] engineeringCreate)] @
          map (\<lambda>i. addStep (catalogStep (''create '' @ memberName i) ''POST'' usersEndpoint
            [\<lparr>cpVar = memberName i, cpPath = ''id''\<rparr>] 201 [] (memberCreate i))) [1, 2, 3] @
          map (\<lambda>i. addStep (catalogStep (''add member '' @ formatInt i) ''PATCH'' groupPath [] 200 []
            (memberPatch i))) [1, 2, 3] @
          [addStep (catalogStep ''confirm three members'' ''GET'' groupPath [] 200 [assertLen pathMembers 3] [])])
         (newBuilder []))"

definition oktaName :: string where "oktaName = ''okta.user@example.com''"

definition oktaCreate :: string where
  "oktaCreate = openBody userSchema @ '',\"userName\":'' @ quoted oktaName @ '',\"active\":true}''"

definition oktaPut :: string where
  "oktaPut =
     openBody userSchema @ '',\"userName\":'' @ quoted oktaName @
     '',\"displayName\":\"Okta User\",\"active\":true}''"

definition oktaUserLifecycle :: "string amap \<Rightarrow> (scenario_error, scenario) res" where
  "oktaUserLifecycle fx =
     buildScenario ScenarioOktaUserLifecycle
       ''Okta user lifecycle: lookup, create, PUT replace, pathless-replace deactivate''
       (fold id
         [addStep (catalogStep ''lookup before create'' ''GET'' (userFilterPath oktaName) [] 200
            [assertValue pathTotalResults (VInt 0)] []),
          addStep (catalogStep stepCreateUser ''POST'' usersEndpoint (captureID ''uid'') 201 [] oktaCreate),
          addStep (catalogStep ''full replace (PUT)'' ''PUT'' userPath [] 200
            [assertValue ''displayName'' (VString ''Okta User'')] oktaPut),
          addCorpusStep (catalogStep ''deactivate (pathless plain-key replace)'' ''PATCH'' userPath [] 200
            [assertValue pathActive (VBool False)]) ''okta/pathless-replace-plain-keys'',
          addStep (catalogStep ''lookup after create'' ''GET'' (userFilterPath oktaName) [] 200
            [assertValue pathTotalResults (VInt 1)] [])]
         (newBuilder fx))"

definition guidesCreate :: string where
  "guidesCreate =
     openBody groupSchema @ '',\"displayName\":\"Tour Guides\",\"members\":['' @
     ''{\"value\":\"2819c223-7f76-453a-919d-413861904646\"},'' @
     ''{\"value\":\"902c246b-6245-4190-8e05-00816be7344a\"}]}''"

definition guidesPut :: string where
  "guidesPut = openBody groupSchema @ '',\"displayName\":\"Tour Guides\"}''"

definition oktaGroupPUT :: "string amap \<Rightarrow> (scenario_error, scenario) res" where
  "oktaGroupPUT fx =
     buildScenario ScenarioOktaGroupPUT
       ''Okta group PUT: remove a member, then a members-less PUT that wipes the rest (RFC 3.5.1)''
       (fold id
         [addStep (catalogStep ''create group with two members'' ''POST'' groupsEndpoint (captureID ''gid'') 201
            [assertLen pathMembers 2] guidesCreate),
          addCorpusStep (catalogStep ''remove one member by value'' ''PATCH'' groupPath [] 200
            [assertLen pathMembers 1]) ''okta/remove-member-by-value'',
          addStep (catalogStep ''PUT without members wipes them'' ''PUT'' groupPath [] 200
            [assertUnassigned pathMembers] guidesPut),
          addStep (catalogStep ''confirm members gone'' ''GET'' groupPath [] 200 [assertUnassigned pathMembers] [])]
         (newBuilder fx))"

definition danceCreate :: string where
  "danceCreate =
     openBody userSchema @ '',\"userName\":\"bjensen@example.com\",\"emails\":['' @
     ''{\"value\":\"bjensen@example.com\",\"type\":\"work\"},'' @
     ''{\"value\":\"babs@home.example.com\",\"type\":\"home\"}]}''"

definition salesCreate :: string where
  "salesCreate = openBody groupSchema @ '',\"displayName\":\"Sales\"}''"

definition oneLoginLookupDance :: "string amap \<Rightarrow> (scenario_error, scenario) res" where
  "oneLoginLookupDance fx =
     buildScenario ScenarioOneLoginLookupDance
       ''OneLogin correlate-by-filter across a username rename, plus duplicate-group creation''
       (fold id
         [addStep (catalogStep ''lookup before create'' ''GET'' (userFilterPath ''bjensen@example.com'') [] 200
            [assertValue pathTotalResults (VInt 0)] []),
          addStep (catalogStep stepCreateUser ''POST'' usersEndpoint (captureID ''uid'') 201
            [assertLen ''emails'' 2] danceCreate),
          addCorpusStep (catalogStep ''rename username'' ''PATCH'' userPath [] 200
            [assertValue ''userName'' (VString ''barbara.jensen@example.com'')]) ''onelogin/replace-username'',
          addCorpusStep (catalogStep ''remove home email by filter'' ''PATCH'' userPath [] 200
            [assertLen ''emails'' 1]) ''onelogin/remove-email-by-filter'',
          addStep (catalogStep ''lookup after rename correlates'' ''GET''
            (userFilterPath ''barbara.jensen@example.com'') [] 200 [assertValue pathTotalResults (VInt 1)] []),
          addStep (catalogStep ''create Sales group'' ''POST'' groupsEndpoint [] 201 [] salesCreate),
          addStep (catalogStep ''create Sales group again (duplicate allowed)'' ''POST'' groupsEndpoint [] 201 []
            salesCreate)]
         (newBuilder fx))"

definition LookupScenario :: "fixture list option \<Rightarrow> string \<Rightarrow> (scenario_error, scenario) res" where
  "LookupScenario corpus name =
     (case corpus of
        None \<Rightarrow> Inl CorpusFailed
      | Some fixtures \<Rightarrow>
          let fx = loadFixtures fixtures in
          if name = ScenarioRFCStrictLifecycle then rfcStrictLifecycle
          else if name = ScenarioEntraUserLifecycle then entraUserLifecycle fx
          else if name = ScenarioEntraGroupMembership then entraGroupMembership
          else if name = ScenarioOktaUserLifecycle then oktaUserLifecycle fx
          else if name = ScenarioOktaGroupPUT then oktaGroupPUT fx
          else if name = ScenarioOneLoginLookupDance then oneLoginLookupDance fx
          else Inl (UnknownScenario name))"

end
