(* ===== verification/Catalog_Properties.thy ===== *)
theory Catalog_Properties
  imports Test_Catalog
begin

text \<open>
  The scenarios of the catalogue are closed: a step uses only variables that an earlier step has
  captured. The analysis \<open>scoped\<close> is sound for the simulator, whatever the target answers.
\<close>

subsection \<open>Variables of a template\<close>

definition fieldChar :: "char \<Rightarrow> bool" where
  "fieldChar c \<longleftrightarrow>
     CHR ''0'' \<le> c \<and> c \<le> CHR ''9'' \<or> CHR ''A'' \<le> c \<and> c \<le> CHR ''Z'' \<or> CHR ''a'' \<le> c \<and> c \<le> CHR ''z'' \<or>
     c = CHR ''_''"

text \<open>The variables of a text whose actions are all fields of the root, and nothing for any other text.\<close>

function templateVars :: "string \<Rightarrow> string list option" where
  "templateVars [] = Some []"
| "templateVars (c # s) =
     (if \<not> (c = CHR ''{'' \<and> take 1 s = ''{'') then templateVars s
      else let n = takeWhile fieldChar (drop 2 s); r = dropWhile fieldChar (drop 2 s)
        in if take 2 s = ''{.'' \<and> n \<noteq> [] \<and> CHR ''9'' < hd n \<and> take 2 r = ''}}''
           then map_option ((#) n) (templateVars (drop 2 r)) else None)"
  by pat_completeness auto
termination
proof (relation "measure length")
  fix c :: char and s n r :: string
  assume "r = dropWhile fieldChar (drop 2 s)"
  then have "length r \<le> length s" using length_dropWhile_le [of fieldChar "drop 2 s"] by simp
  then show "(drop 2 r, c # s) \<in> measure length" by simp
qed auto

definition usesOnly :: "string list \<Rightarrow> string \<Rightarrow> bool" where
  "usesOnly bound s \<longleftrightarrow>
     \<not> hasAction s \<or> (case templateVars s of None \<Rightarrow> False | Some ns \<Rightarrow> list_all (\<lambda>n. n \<in> set bound) ns)"

fun scoped :: "string list \<Rightarrow> step list \<Rightarrow> bool" where
  "scoped bound [] \<longleftrightarrow> True"
| "scoped bound (s # ss) \<longleftrightarrow>
     usesOnly bound (spPath s) \<and> usesOnly bound (spBody s) \<and> scoped (map cpVar (spCapture s) @ bound) ss"

text \<open>\<open>text/template\<close> executes fields of a map that has their keys.\<close>

definition fillsVariables :: "'w target \<Rightarrow> bool" where
  "fillsVariables tg \<longleftrightarrow>
     (\<forall>s vars ns. templateVars s = Some ns \<and> set ns \<subseteq> fst ` set vars \<longrightarrow> tgTemplate tg s vars \<noteq> None)"

subsection \<open>Soundness of the scopes\<close>

lemma substitute_scoped:
  "fillsVariables tg \<Longrightarrow> usesOnly bound s \<Longrightarrow> set bound \<subseteq> fst ` set vars \<Longrightarrow> substitute tg s vars \<noteq> None"
  by (auto simp: substitute_def usesOnly_def fillsVariables_def list_all_iff subset_iff split: option.splits)

lemma keys_aput: "fst ` set (aput k v m) = insert k (fst ` set m)"
  by (induction m) (auto split: if_splits)

lemma captureAll_binds:
  "captureAll tg doc cs vars = (True, vars') \<Longrightarrow> cpVar ` set cs \<union> fst ` set vars \<subseteq> fst ` set vars'"
proof (induction cs arbitrary: vars)
  case (Cons c cs)
  then obtain v where "captureAll tg doc cs (aput (cpVar c) (sprint tg v) vars) = (True, vars')"
    by (auto split: option.splits)
  from Cons.IH [OF this] show ?case by (auto simp: keys_aput)
qed simp

lemma applyCaptures_binds:
  "applyCaptures tg cs body vars = (True, vars') \<Longrightarrow> cpVar ` set cs \<union> fst ` set vars \<subseteq> fst ` set vars'"
  using captureAll_binds [of tg _ cs vars vars'] by (auto simp: applyCaptures_def split: if_splits option.splits)

lemma checks_no_template:
  "SubstituteFailed \<notin> set (checkAssertion doc a)" "SubstituteFailed \<notin> set (checkScimType t doc)"
  "SubstituteFailed \<notin> set (checkHeaders hs h)"
  by (auto simp: checkAssertion_def checkScimType_def checkHeaders_def Let_def split: option.splits gval.splits)

lemma evaluate_no_template: "SubstituteFailed \<notin> set (evaluate tg ex st h body)"
  by (auto simp: evaluate_def Let_def checks_no_template split: option.splits)

lemma runStep_scoped:
  assumes "runStep tg base token s vars w = (res, vars', w')" and "fillsVariables tg"
    and "usesOnly bound (spPath s)" "usesOnly bound (spBody s)" and "set bound \<subseteq> fst ` set vars"
  shows "SubstituteFailed \<notin> set (srFailures res) \<and>
    (srPassed res \<longrightarrow> set (map cpVar (spCapture s) @ bound) \<subseteq> fst ` set vars')"
proof -
  obtain path where path: "substitute tg (spPath s) vars = Some path"
    using substitute_scoped [OF assms(2,3,5)] by blast
  obtain body where body: "substitute tg (spBody s) vars = Some body"
    using substitute_scoped [OF assms(2,4,5)] by blast
  obtain a w1 where ex:
    "tgExchange tg (simRequest base token (spMethod s) path (stepHeaders s body) body) w = (a, w1)" by fastforce
  show ?thesis
  proof (cases a)
    case None
    with assms(1) path body ex show ?thesis by (auto simp: runStep_def markFailed_def Let_def)
  next
    case (Some rsp)
    define fails where "fails = evaluate tg (spExpect s) (ssStatus rsp) (ssHeaders rsp) (ssBody rsp)"
    obtain ok vars1 where cap: "applyCaptures tg (spCapture s) (ssBody rsp) vars = (ok, vars1)" by fastforce
    have res: "srFailures res = (if fails \<noteq> [] \<or> ok then fails else [CaptureFailed])"
      "srPassed res \<longrightarrow> fails = [] \<and> ok \<and> vars' = vars1"
      using assms(1) path body ex Some cap
      by (auto simp: runStep_def Let_def fails_def [symmetric] split: prod.splits if_splits)
    have "SubstituteFailed \<notin> set fails" unfolding fails_def by (rule evaluate_no_template)
    with res(1) have "SubstituteFailed \<notin> set (srFailures res)" by simp
    moreover have "set (map cpVar (spCapture s) @ bound) \<subseteq> fst ` set vars'" if "srPassed res"
    proof -
      from that res(2) cap have "applyCaptures tg (spCapture s) (ssBody rsp) vars = (True, vars')" by simp
      from applyCaptures_binds [OF this] assms(5) show ?thesis by auto
    qed
    ultimately show ?thesis by blast
  qed
qed

lemma runSteps_scoped:
  assumes "runSteps tg base token ss vars w = (rs, w')" and "fillsVariables tg"
    and "scoped bound ss" and "set bound \<subseteq> fst ` set vars"
  shows "\<forall>r \<in> set rs. SubstituteFailed \<notin> set (srFailures r)"
  using assms
proof (induction ss arbitrary: bound vars w rs)
  case (Cons s ss)
  obtain res vars1 w1 where st: "runStep tg base token s vars w = (res, vars1, w1)" by (metis prod.collapse)
  from Cons.prems(3) have scope: "usesOnly bound (spPath s)" "usesOnly bound (spBody s)"
    "scoped (map cpVar (spCapture s) @ bound) ss" by simp_all
  note one = runStep_scoped [OF st Cons.prems(2) scope(1,2) Cons.prems(4)]
  show ?case
  proof (cases "srPassed res")
    case False
    with Cons.prems(1) st one show ?thesis by auto
  next
    case True
    then obtain rs' where rs: "rs = res # rs'" "runSteps tg base token ss vars1 w1 = (rs', w')"
      using Cons.prems(1) st by (auto split: prod.splits)
    from Cons.IH [OF rs(2) Cons.prems(2) scope(3)] one True rs(1) show ?thesis by auto
  qed
qed simp

subsection \<open>The catalogue\<close>

definition corpusKeys :: "string list" where
  "corpusKeys =
     [''entra/replace-active-wrapped-string'', ''entra/pathless-replace-flattened-keys'',
      ''entra/add-manager-value-object'', ''entra/add-valuepath-synthesizes-element'',
      ''okta/pathless-replace-plain-keys'', ''okta/remove-member-by-value'',
      ''onelogin/replace-username'', ''onelogin/remove-email-by-filter'']"

definition complete :: "string amap \<Rightarrow> bool" where
  "complete fx \<longleftrightarrow> (\<forall>key \<in> set corpusKeys. \<exists>body. aget fx key = Some body \<and> \<not> hasAction body)"

definition wellBuilt :: "string \<Rightarrow> (scenario_error, scenario) res \<Rightarrow> bool" where
  "wellBuilt name r \<longleftrightarrow>
     (\<exists>sc. r = Inr sc \<and> scName sc = name \<and> validateScenario sc = Inr () \<and> scoped [] (scSteps sc))"

text \<open>What the builder has after a list of steps.\<close>

definition building :: "step list \<Rightarrow> string amap \<Rightarrow> scenario_builder" where
  "building ss fx = \<lparr>sbFx = fx, sbSteps = ss, sbErr = None\<rparr>"

lemma building_steps:
  "newBuilder fx = building [] fx"
  "addStep s (building ss fx) = building (ss @ [s]) fx"
  "aget fx key = Some body \<Longrightarrow> addCorpusStep mk key (building ss fx) = building (ss @ [mk body]) fx"
  by (simp_all add: newBuilder_def building_def addStep_def addCorpusStep_def corpusBody_def)

lemma build_well:
  "ss \<noteq> [] \<Longrightarrow> list_all (\<lambda>s. spMethod s \<noteq> [] \<and> exStatus (spExpect s) \<noteq> 0) ss \<Longrightarrow> scoped [] ss \<Longrightarrow>
   wellBuilt name (buildScenario name desc (building ss fx))"
proof -
  have "list_all (\<lambda>s. spMethod s \<noteq> [] \<and> exStatus (spExpect s) \<noteq> 0) ss \<Longrightarrow> validateSteps i ss = Inr ()" for i
    by (induction ss arbitrary: i) auto
  then show "ss \<noteq> [] \<Longrightarrow> list_all (\<lambda>s. spMethod s \<noteq> [] \<and> exStatus (spExpect s) \<noteq> 0) ss \<Longrightarrow> scoped [] ss \<Longrightarrow>
      wellBuilt name (buildScenario name desc (building ss fx))"
    by (auto simp: wellBuilt_def buildScenario_def building_def validateScenario_def)
qed

lemma catalogStep_sel [simp]:
  "spPath (catalogStep n m p c st b t) = p" "spBody (catalogStep n m p c st b t) = t"
  "spCapture (catalogStep n m p c st b t) = c" "spMethod (catalogStep n m p c st b t) = m"
  "exStatus (spExpect (catalogStep n m p c st b t)) = st"
  by (simp_all add: catalogStep_def)

lemma usesOnly_plain: "\<not> hasAction s \<Longrightarrow> usesOnly bound s"
  by (simp add: usesOnly_def)

lemma usesOnly_more: "usesOnly bound s \<Longrightarrow> set bound \<subseteq> set bound' \<Longrightarrow> usesOnly bound' s"
  by (auto simp: usesOnly_def list_all_iff split: option.splits)

lemma plain_texts:
  "\<not> hasAction usersEndpoint" "\<not> hasAction groupsEndpoint" "\<not> hasAction []"
  "\<not> hasAction (userFilterPath ''rfc.user@example.com'')" "\<not> hasAction (userFilterPath oktaName)"
  "\<not> hasAction (userFilterPath ''bjensen@example.com'')"
  "\<not> hasAction (userFilterPath ''barbara.jensen@example.com'')"
  "\<not> hasAction rfcCreate" "\<not> hasAction rfcActivePatch" "\<not> hasAction entraCreate"
  "\<not> hasAction engineeringCreate" "\<not> hasAction oktaCreate" "\<not> hasAction oktaPut"
  "\<not> hasAction guidesCreate" "\<not> hasAction guidesPut" "\<not> hasAction danceCreate" "\<not> hasAction salesCreate"
  "\<not> hasAction (memberCreate 1)" "\<not> hasAction (memberCreate 2)" "\<not> hasAction (memberCreate 3)"
  by code_simp+

lemma member_texts:
  "usesOnly [memberName 1] (memberPatch 1)" "usesOnly [memberName 2] (memberPatch 2)"
  "usesOnly [memberName 3] (memberPatch 3)"
  by code_simp+

lemma id_texts: "usesOnly [''uid''] userPath" "usesOnly [''gid''] groupPath"
  by code_simp+

lemma bound_texts:
  "''uid'' \<in> set bound \<Longrightarrow> usesOnly bound userPath" "''gid'' \<in> set bound \<Longrightarrow> usesOnly bound groupPath"
  "memberName 1 \<in> set bound \<Longrightarrow> usesOnly bound (memberPatch 1)"
  "memberName 2 \<in> set bound \<Longrightarrow> usesOnly bound (memberPatch 2)"
  "memberName 3 \<in> set bound \<Longrightarrow> usesOnly bound (memberPatch 3)"
  by (rule usesOnly_more [OF id_texts(1)], simp) (rule usesOnly_more [OF id_texts(2)], simp,
    rule usesOnly_more [OF member_texts(1)], simp, rule usesOnly_more [OF member_texts(2)], simp,
    rule usesOnly_more [OF member_texts(3)], simp)

lemmas scope_simps = plain_texts bound_texts usesOnly_plain captureID_def

lemma rfc_well: "wellBuilt ScenarioRFCStrictLifecycle rfcStrictLifecycle"
  unfolding rfcStrictLifecycle_def
  by (simp add: building_steps, rule build_well) (simp_all add: scope_simps)

lemma membership_well: "wellBuilt ScenarioEntraGroupMembership entraGroupMembership"
  unfolding entraGroupMembership_def
  by (simp add: building_steps, rule build_well) (simp_all add: scope_simps)

lemma corpus_bodies:
  assumes "complete fx"
  obtains b1 b2 b3 b4 b5 b6 b7 b8 where
    "aget fx ''entra/replace-active-wrapped-string'' = Some b1"
    "aget fx ''entra/pathless-replace-flattened-keys'' = Some b2"
    "aget fx ''entra/add-manager-value-object'' = Some b3"
    "aget fx ''entra/add-valuepath-synthesizes-element'' = Some b4"
    "aget fx ''okta/pathless-replace-plain-keys'' = Some b5" "aget fx ''okta/remove-member-by-value'' = Some b6"
    "aget fx ''onelogin/replace-username'' = Some b7" "aget fx ''onelogin/remove-email-by-filter'' = Some b8"
    "list_all (\<lambda>b. \<not> hasAction b) [b1, b2, b3, b4, b5, b6, b7, b8]"
  using assms by (auto simp: complete_def corpusKeys_def)

lemma corpus_well:
  assumes "complete fx"
  shows "wellBuilt ScenarioEntraUserLifecycle (entraUserLifecycle fx)"
    "wellBuilt ScenarioOktaUserLifecycle (oktaUserLifecycle fx)"
    "wellBuilt ScenarioOktaGroupPUT (oktaGroupPUT fx)"
    "wellBuilt ScenarioOneLoginLookupDance (oneLoginLookupDance fx)"
proof -
  obtain b1 b2 b3 b4 b5 b6 b7 b8 where b:
    "aget fx ''entra/replace-active-wrapped-string'' = Some b1"
    "aget fx ''entra/pathless-replace-flattened-keys'' = Some b2"
    "aget fx ''entra/add-manager-value-object'' = Some b3"
    "aget fx ''entra/add-valuepath-synthesizes-element'' = Some b4"
    "aget fx ''okta/pathless-replace-plain-keys'' = Some b5" "aget fx ''okta/remove-member-by-value'' = Some b6"
    "aget fx ''onelogin/replace-username'' = Some b7" "aget fx ''onelogin/remove-email-by-filter'' = Some b8"
    "list_all (\<lambda>b. \<not> hasAction b) [b1, b2, b3, b4, b5, b6, b7, b8]"
    by (rule corpus_bodies [OF assms])
  show "wellBuilt ScenarioEntraUserLifecycle (entraUserLifecycle fx)"
    unfolding entraUserLifecycle_def
    by (simp add: building_steps b, rule build_well) (use b(9) in \<open>simp_all add: scope_simps\<close>)
  show "wellBuilt ScenarioOktaUserLifecycle (oktaUserLifecycle fx)"
    unfolding oktaUserLifecycle_def
    by (simp add: building_steps b, rule build_well) (use b(9) in \<open>simp_all add: scope_simps\<close>)
  show "wellBuilt ScenarioOktaGroupPUT (oktaGroupPUT fx)"
    unfolding oktaGroupPUT_def
    by (simp add: building_steps b, rule build_well) (use b(9) in \<open>simp_all add: scope_simps\<close>)
  show "wellBuilt ScenarioOneLoginLookupDance (oneLoginLookupDance fx)"
    unfolding oneLoginLookupDance_def
    by (simp add: building_steps b, rule build_well) (use b(9) in \<open>simp_all add: scope_simps\<close>)
qed

text \<open>A later fixture of the same name replaces an earlier one.\<close>

lemma loaded_fixture:
  "aget (loadFixtures fs) key = Some body \<Longrightarrow> \<exists>f \<in> set fs. fxRequest f = body"
proof (induction fs rule: rev_induct)
  case (snoc f fs)
  then show ?case by (auto simp: loadFixtures_def aget_aput split: if_splits)
qed (simp add: loadFixtures_def)

lemma loaded_key:
  "f \<in> set fs \<Longrightarrow> \<exists>body. aget (loadFixtures fs) (fxProvider f @ ''/'' @ fxName f) = Some body"
proof (induction fs rule: rev_induct)
  case (snoc g fs)
  then show ?case by (auto simp: loadFixtures_def aget_aput)
qed simp

lemma loaded_complete:
  assumes "set corpusKeys \<subseteq> (\<lambda>f. fxProvider f @ ''/'' @ fxName f) ` set fs"
    and "\<forall>f \<in> set fs. \<not> hasAction (fxRequest f)"
  shows "complete (loadFixtures fs)"
  unfolding complete_def
proof
  fix key assume "key \<in> set corpusKeys"
  with assms(1) obtain f where "f \<in> set fs" "key = fxProvider f @ ''/'' @ fxName f" by auto
  with loaded_key obtain body where body: "aget (loadFixtures fs) key = Some body" by blast
  with loaded_fixture assms(2) have "\<not> hasAction body" by blast
  with body show "\<exists>body. aget (loadFixtures fs) key = Some body \<and> \<not> hasAction body" by blast
qed

lemmas scenario_names =
  ScenarioRFCStrictLifecycle_def ScenarioEntraUserLifecycle_def ScenarioEntraGroupMembership_def
  ScenarioOktaUserLifecycle_def ScenarioOktaGroupPUT_def ScenarioOneLoginLookupDance_def

lemma catalogue_well:
  assumes "complete (loadFixtures fs)" and "name \<in> set ScenarioNames"
  shows "wellBuilt name (LookupScenario (Some fs) name)"
proof -
  have "LookupScenario (Some fs) ScenarioRFCStrictLifecycle = rfcStrictLifecycle"
    "LookupScenario (Some fs) ScenarioEntraUserLifecycle = entraUserLifecycle (loadFixtures fs)"
    "LookupScenario (Some fs) ScenarioEntraGroupMembership = entraGroupMembership"
    "LookupScenario (Some fs) ScenarioOktaUserLifecycle = oktaUserLifecycle (loadFixtures fs)"
    "LookupScenario (Some fs) ScenarioOktaGroupPUT = oktaGroupPUT (loadFixtures fs)"
    "LookupScenario (Some fs) ScenarioOneLoginLookupDance = oneLoginLookupDance (loadFixtures fs)"
    by (simp_all add: LookupScenario_def scenario_names Let_def)
  note lookups = this
  from assms(2) consider "name = ScenarioRFCStrictLifecycle" | "name = ScenarioEntraUserLifecycle"
    | "name = ScenarioEntraGroupMembership" | "name = ScenarioOktaUserLifecycle"
    | "name = ScenarioOktaGroupPUT" | "name = ScenarioOneLoginLookupDance"
    by (auto simp: ScenarioNames_def)
  then show ?thesis
    by cases (simp_all only: lookups rfc_well membership_well corpus_well [OF assms(1)])
qed

text \<open>C32. The catalogue can be relied on. With the compiled-in corpus every listed name resolves to a valid
  scenario of that name and every other name is reported as unknown. A run of a scenario of the
  catalogue never fails because a variable of a template is unset, whatever the target answers:
  the verdict is about the target alone, and an error is returned only for an ended context.\<close>

theorem catalogue_is_closed:
  assumes "fillsVariables tg"
    and "set corpusKeys \<subseteq> (\<lambda>f. fxProvider f @ ''/'' @ fxName f) ` set fixtures"
    and "\<forall>f \<in> set fixtures. \<not> hasAction (fxRequest f)"
  shows "(name \<in> set ScenarioNames \<longrightarrow>
      (\<exists>sc. LookupScenario (Some fixtures) name = Inr sc \<and> scName sc = name \<and>
        (case Simulate tg base token sc w of ((rep, err), w') \<Rightarrow>
           rpSteps rep \<noteq> [] \<and> (\<forall>r \<in> set (rpSteps rep). SubstituteFailed \<notin> set (srFailures r)) \<and>
           (err \<noteq> None \<longrightarrow> tgDone tg w')))) \<and>
    (name \<notin> set ScenarioNames \<longrightarrow> LookupScenario (Some fixtures) name = Inl (UnknownScenario name))"
proof (cases "name \<in> set ScenarioNames")
  case True
  from catalogue_well [OF loaded_complete [OF assms(2,3)] True] obtain sc where
    sc: "LookupScenario (Some fixtures) name = Inr sc" "scName sc = name" "validateScenario sc = Inr ()"
      "scoped [] (scSteps sc)" unfolding wellBuilt_def by blast
  obtain rs w1 where run: "runSteps tg base token (scSteps sc) [] w = (rs, w1)" by fastforce
  from runSteps_scoped [OF run assms(1) sc(4)] have ok: "\<forall>r \<in> set rs. SubstituteFailed \<notin> set (srFailures r)" by simp
  from sc(3) have "scSteps sc \<noteq> []" by (auto simp: validateScenario_def)
  with run have "rs \<noteq> []" by (cases "scSteps sc") (auto split: prod.splits if_splits)
  with ok sc run show ?thesis by (auto simp: Simulate_def Let_def True)
qed (auto simp: LookupScenario_def ScenarioNames_def Let_def)

definition sampleCorpus :: "fixture list" where
  "sampleCorpus =
     [\<lparr>fxProvider = ''entra'', fxName = ''replace-active-wrapped-string'', fxRequest = ''{}''\<rparr>,
      \<lparr>fxProvider = ''entra'', fxName = ''pathless-replace-flattened-keys'', fxRequest = ''{}''\<rparr>,
      \<lparr>fxProvider = ''entra'', fxName = ''add-manager-value-object'', fxRequest = ''{}''\<rparr>,
      \<lparr>fxProvider = ''entra'', fxName = ''add-valuepath-synthesizes-element'', fxRequest = ''{}''\<rparr>,
      \<lparr>fxProvider = ''okta'', fxName = ''pathless-replace-plain-keys'', fxRequest = ''{}''\<rparr>,
      \<lparr>fxProvider = ''okta'', fxName = ''remove-member-by-value'', fxRequest = ''{}''\<rparr>,
      \<lparr>fxProvider = ''onelogin'', fxName = ''replace-username'', fxRequest = ''{}''\<rparr>,
      \<lparr>fxProvider = ''onelogin'', fxName = ''remove-email-by-filter'', fxRequest = ''{}''\<rparr>]"

text \<open>An engine that knows fields only, and a target whose documents have an identifier.\<close>

function fillFields :: "string \<Rightarrow> string amap \<Rightarrow> string option" where
  "fillFields [] vars = Some []"
| "fillFields (c # s) vars =
     (if \<not> (c = CHR ''{'' \<and> take 1 s = ''{'') then map_option ((#) c) (fillFields s vars)
      else let n = takeWhile fieldChar (drop 2 s); r = dropWhile fieldChar (drop 2 s)
        in case aget vars n of
             None \<Rightarrow> None
           | Some v \<Rightarrow> map_option ((@) v) (fillFields (drop 2 r) vars))"
  by pat_completeness auto
termination
proof (relation "measure (length \<circ> fst)")
  fix c :: char and s n r v :: string and vars :: "string amap"
  assume "r = dropWhile fieldChar (drop 2 s)"
  then have "length r \<le> length s" using length_dropWhile_le [of fieldChar "drop 2 s"] by simp
  then show "((drop 2 r, vars), c # s, vars) \<in> measure (length \<circ> fst)" by simp
qed auto

definition echoTarget :: "nat target" where
  "echoTarget =
     \<lparr>tgTemplate = fillFields, tgDecode = (\<lambda>b. Some (VMap [(''id'', VString b)])),
      tgValid = (\<lambda>b. True), tgSprint = (\<lambda>v. []),
      tgExchange = (\<lambda>m n. (Some \<lparr>ssStatus = (if n < 4 then 201 else 200), ssHeaders = [], ssBody = ''u'' @ formatNat n\<rparr>, n + 1)),
      tgDone = (\<lambda>n. False)\<rparr>"

lemma aget_None_keys: "aget m k = None \<longleftrightarrow> k \<notin> fst ` set m"
  by (induction m) auto

lemma fillFields_known: "templateVars s = Some ns \<Longrightarrow> set ns \<subseteq> fst ` set vars \<Longrightarrow> fillFields s vars \<noteq> None"
proof (induction s arbitrary: ns rule: templateVars.induct)
  case (2 c s)
  show ?case
  proof (cases "c = CHR ''{'' \<and> take 1 s = ''{''")
    case False
    with 2 show ?thesis by (simp add: 2(1))
  next
    case True
    define n r where "n = takeWhile fieldChar (drop 2 s)" and "r = dropWhile fieldChar (drop 2 s)"
    from 2(3) True obtain ms where ms: "templateVars (drop 2 r) = Some ms" "ns = n # ms"
      "take 2 s = ''{.'' \<and> n \<noteq> [] \<and> CHR ''9'' < hd n \<and> take 2 r = ''}}''"
      unfolding n_def r_def by (auto simp: Let_def split: if_splits)
    with 2(4) obtain v where v: "aget vars n = Some v"
      by (cases "aget vars n") (auto simp: aget_None_keys)
    have "fillFields (drop 2 r) vars \<noteq> None"
      by (rule 2(2) [OF _ n_def r_def ms(3,1)]) (use True 2(4) ms(2) in auto)
    with True v show ?thesis by (auto simp: Let_def n_def [symmetric] r_def [symmetric])
  qed
qed simp

theorem catalogue_is_closed_witness:
  "\<exists>sc rep. LookupScenario (Some sampleCorpus) ScenarioEntraGroupMembership = Inr sc \<and>
     fst (Simulate echoTarget ''http://x'' [] sc 0) = (rep, None) \<and> length (rpSteps rep) = 8 \<and>
     srPath (rpSteps rep ! 4) = ''/Groups/u0'' \<and>
     (\<forall>r \<in> set (rpSteps rep). SubstituteFailed \<notin> set (srFailures r))"
proof -
  have fills: "fillsVariables echoTarget"
    using fillFields_known by (auto simp: fillsVariables_def echoTarget_def)
  have name: "ScenarioEntraGroupMembership \<in> set ScenarioNames" by (simp add: ScenarioNames_def)
  have keys: "set corpusKeys \<subseteq> (\<lambda>f. fxProvider f @ ''/'' @ fxName f) ` set sampleCorpus"
    by (simp add: corpusKeys_def sampleCorpus_def)
  have plain: "\<forall>f \<in> set sampleCorpus. \<not> hasAction (fxRequest f)" by (simp add: sampleCorpus_def)
  from mp [OF conjunct1 [OF catalogue_is_closed [OF fills keys plain]] name, of "''http://x''" "[]" 0] obtain sc where sc: "LookupScenario (Some sampleCorpus) ScenarioEntraGroupMembership = Inr sc"
    "case Simulate echoTarget ''http://x'' [] sc 0 of ((rep, err), w') \<Rightarrow>
       rpSteps rep \<noteq> [] \<and> (\<forall>r \<in> set (rpSteps rep). SubstituteFailed \<notin> set (srFailures r)) \<and>
       (err \<noteq> None \<longrightarrow> tgDone echoTarget w')" by (elim exE conjE) (rule that)
  obtain rep err w' where run: "Simulate echoTarget ''http://x'' [] sc 0 = ((rep, err), w')" by (metis prod.collapse)
  have "case LookupScenario (Some sampleCorpus) ScenarioEntraGroupMembership of
      Inl e \<Rightarrow> False
    | Inr sc \<Rightarrow> (case fst (Simulate echoTarget ''http://x'' [] sc 0) of (rep, err) \<Rightarrow>
        err = None \<and> length (rpSteps rep) = 8 \<and> srPath (rpSteps rep ! 4) = ''/Groups/u0'')"
    by code_simp
  with sc run show ?thesis by simp
qed

end
