(* ===== verification/Spec2Isabelle.thy ===== *)
theory Spec2Isabelle
  imports Scim_Properties Filter_Properties Patch_Properties Server_Findings Scim_Builtin
    Client_Properties Client_Query Client_Findings Site_Properties View_Properties
    Mock_Properties Test_Properties Catalog_Properties
begin

text \<open>
  scimkit is a Go library for SCIM 2.0 (RFC 7643, RFC 7644): a data model (\<open>src/scim\<close>), a filter
  language (\<open>src/filter\<close>), a PATCH engine (\<open>src/patch\<close>), a service provider with an in-memory
  store (\<open>src/server\<close>), a client (\<open>src/client\<close>) and test tools (\<open>src/scimtest\<close>,
  \<open>src/cmd/scimkit\<close>). A request runs through them in this order: the router picks a handler,
  the handler decodes the body to a resource or to PATCH operations, reads the current resource
  from the store, merges or applies, validates, writes with the version it has read, and
  encodes the answer; a list parses its filter and sort path and runs the query in the store or
  by a scan. The client sends such requests, repeats them where that is safe, learns what the
  server can do from its discovery documents, and walks lists page by page.

  \<^bold>\<open>Conventions.\<close> Definitions keep the names of the code, up to suffixes where HOL or another
  package has the name. A Go string is a list of bytes, folding is ASCII folding. A Go map is an
  association list with distinct keys (\<open>aget\<close>, \<open>aput\<close>, \<open>adel\<close> in \<open>Prelude\<close>). A function that
  returns an error has a result \<open>Inl e\<close>; error details, which are texts for people, are left out.
  JSON is not parsed from bytes: bodies are trees (\<open>gval\<close>), which \<open>encoding/json\<close> is trusted to
  produce and to print. \<open>int\<close> and \<open>int64\<close> are \<open>int\<close> with \<open>inInt64\<close> and an explicit wrap
  (\<open>addInt\<close>) where the code adds; \<open>float64\<close> is a rational with rounding, infinities and NaN;
  random bytes are \<open>8 word\<close>s. \<open>Clone\<close> is the identity on values.

  \<^bold>\<open>Base.\<close> \<open>Prelude\<close>: results, folds that may fail, association lists, with their simp rules.
  \<open>Go_Std\<close>, \<open>Go_Slices\<close>: what the code uses of the standard library (folding, numbers, times,
  \<open>strings\<close>, \<open>slices.SortStableFunc\<close>, slice expressions); the locale \<open>weak_order\<close> states what a
  comparison must be for the sort to sort.

  \<^bold>\<open>Data model.\<close> \<open>Scim_Error\<close> (\<open>errors.go\<close>), \<open>Scim_Schema\<close> (\<open>schema.go\<close>, \<open>schema_enum.go\<close>,
  \<open>resource_type.go\<close>), \<open>Scim_Builtin\<close> (\<open>schema_gen.go\<close>), \<open>Scim_Value\<close> (\<open>value.go\<close>: coercion and the
  stored form), \<open>Scim_Path\<close> (\<open>path.go\<close>), \<open>Scim_Resource\<close> (\<open>resource.go\<close>: Get and Set, the invariant
  \<open>resourceOk\<close>, the frame of a write), \<open>Scim_Codec\<close> (\<open>codec.go\<close>: decoding, projection, encoding),
  \<open>Scim_Id\<close>, \<open>Scim_List\<close>; \<open>Scim_ErrorDoc\<close>, \<open>Scim_SchemaDoc\<close>, \<open>Scim_Wire\<close> are the JSON documents of errors,
  schemas and resources as trees, and \<open>Scim_RoundTrip\<close> shows that decoding inverts encoding on what
  is returned. \<open>Scim_Properties\<close> holds their properties: coercion ends in the stored
  form and is idempotent, Set and Decode keep the invariant, Get reads what Set wrote and nothing
  else changes, projection emits exactly what is selected.

  \<^bold>\<open>Typed views.\<close> \<open>Scim_Views\<close> (\<open>user.go\<close>, \<open>group.go\<close>, \<open>enterprise.go\<close>): the views are records, a loop
  over elements is \<open>elementsOf\<close> with the body of the loop as its argument, and a pointer is an
  option. \<open>View_Laws\<close> shows how a plain path is written and read, \<open>View_Elements\<close> what becomes of
  elements, names and extensions, \<open>View_Properties\<close> that a User is written exactly when no list
  has two primary elements, a Group always, and that both are read back up to parts without data.

  \<^bold>\<open>Filters.\<close> \<open>Filter_Ast\<close> (\<open>ast.go\<close>, \<open>build.go\<close>), \<open>Filter_Lexer\<close>, \<open>Filter_Parser\<close> (\<open>token.go\<close>,
  \<open>parse.go\<close>), \<open>Filter_Match\<close> (\<open>match.go\<close>), \<open>Filter_RoundTrip\<close>, \<open>Filter_Properties\<close>. The parser
  is mutually recursive over the rest of the input; its fuel is computed from the length of the
  input, each level consumes a token before it recurses, and \<open>parsers_terminate\<close> shows that the
  fuel never runs out. Rendering and parsing are inverse on what the strict parser accepts.

  \<^bold>\<open>PATCH.\<close> \<open>Patch_Op\<close> (\<open>op.go\<close>, \<open>profile.go\<close>, \<open>resolve.go\<close>, \<open>equal.go\<close>), \<open>Patch_Decode\<close> (\<open>decode.go\<close>,
  \<open>normalize.go\<close>), \<open>Patch_Apply\<close> (\<open>apply*.go\<close>, \<open>synthesize.go\<close>), \<open>Patch_Wire\<close> (\<open>encode.go\<close>),
  \<open>Patch_Safety\<close>, \<open>Patch_Add\<close>, \<open>Patch_Properties\<close>. Every change of the engine is a step of
  \<open>patch_write\<close>, one Set at a checked target; from it follow the invariant, the readOnly
  attributes and the frame.

  \<^bold>\<open>Store.\<close> \<open>Server_Store\<close> (\<open>store.go\<close>) is the interface as a record of methods and the contract as
  the locale \<open>store_contract\<close> over an abstraction \<open>rows\<close>, the table of resources in insertion
  order. \<open>Mem_Store\<close> (\<open>memstore/*.go\<close>) is the in-memory store, \<open>Mem_Invariant\<close> its invariant
  \<open>storeOk\<close> (order and ranks, items under their ids, index, uniqueness, versions in step with the
  counters), \<open>Mem_Refine\<close> the interpretation of the contract, \<open>Mem_Runs\<close> sequences of operations:
  the inductive \<open>reachable\<close>, versions along a run, the index against the full scan, pages.
  \<open>Store_Properties\<close> states what holds in every reachable state.

  \<^bold>\<open>Server.\<close> \<open>Server_Config\<close> (\<open>config.go\<close>, \<open>auth.go\<close>), \<open>Server_Sort\<close> (\<open>sort.go\<close>, \<open>resolve.go\<close>),
  \<open>Server_Query\<close> (\<open>query.go\<close>, \<open>engine.go\<close>; the locale \<open>listing_store\<close>), \<open>Server_Pipeline\<close>
  (\<open>pipeline.go\<close>, \<open>etag.go\<close>), \<open>Server_Handlers\<close> (\<open>typehandler.go\<close>, \<open>handler_*.go\<close>, \<open>errors.go\<close>),
  \<open>Server_Discovery\<close> (\<open>discovery.go\<close>), \<open>Server_Router\<close> (\<open>router.go\<close>, \<open>middleware.go\<close>, \<open>locks.go\<close>).
  A handler is a function from the request and the state of its store to the answer and the next
  state. Between its read and its write other writers may run (the argument \<open>others\<close>), so what
  the stripe lock and the version check give is proved and not assumed: the locales
  \<open>shared_store\<close> and \<open>patched_store\<close> of \<open>Handler_Laws\<close>, interpreted on the in-memory store with any
  sequence of its operations as the other writers. The PATCH loop ends by the measure of its
  attempts left, three at most as in the code. \<open>Server_Laws\<close> lifts the handlers to the server;
  \<open>Server_Properties\<close>, \<open>List_Properties\<close>, \<open>Serve_Properties\<close> hold the properties and
  \<open>Server_Findings\<close> what the model shows the documentation does not say. \<open>Server_Statuses\<close> lists the errors
  each function of the server can return and shows, over the locale \<open>polite_store\<close>, that every
  answer is a success without an error or an error of a known status. \<open>Samples\<close> and
  \<open>Server_Samples\<close> are the types, resources, stores and configurations of the witnesses.

  \<^bold>\<open>Client.\<close> \<open>Client_Retry\<close> (\<open>retry.go\<close>), \<open>Client_Transport\<close> (\<open>transport.go\<close>, \<open>client.go\<close>,
  \<open>errors.go\<close>, \<open>options.go\<close>), \<open>Client_Discovery\<close> (the documents of \<open>capabilities.go\<close>), \<open>Client_Service\<close>
  (\<open>resources.go\<close>, \<open>users.go\<close>, \<open>groups.go\<close>), \<open>Client_Query\<close> (\<open>query.go\<close>). What the client does not
  implement itself is the record \<open>net\<close> over a world \<open>'w\<close>: one exchange, the token source, the timer,
  the clock, the random draw and the end of the context. The retry loop ends by the attempts left;
  the walk over the pages of a list ends only if the server lets it, so \<open>walk\<close> is a
  \<open>partial_function\<close> whose result is proved to exist. \<open>Client_Flight\<close> is the fetch of the
  capabilities that concurrent callers share, an inductive step relation over the critical
  sections with the invariant \<open>flightOk\<close>. \<open>Client_Retries\<close> logs the requests of a call;
  \<open>Client_Properties\<close> holds the properties, \<open>Client_Findings\<close> what the documentation does not say.

  \<^bold>\<open>Client and server.\<close> \<open>Client_Paging\<close> states what a target must answer for a walk to deliver a
  list, the locale \<open>paged_target\<close>, and that a query survives its way through URL parameters and
  search bodies. \<open>Client_Server\<close> puts a server of the library behind the exchange of the client
  (\<open>siteNet\<close>, which delivers every message; other writers may run meanwhile), \<open>Client_Answers\<close>
  interprets \<open>paged_target\<close> on it, and \<open>Site_Properties\<close> states what List and Lookup of the client
  return in terms of the stores of the server.

  \<^bold>\<open>Test tools.\<close> \<open>Test_Mock\<close> (\<open>mock.go\<close>, \<open>seed.go\<close>, \<open>recorder.go\<close>, \<open>chaos.go\<close>, \<open>options.go\<close>, \<open>profile.go\<close>) is
  the mock provider: the server over fresh in-memory stores, filled through the server itself from
  the seed, behind injected faults and a recorder. The random source of the faults and the length
  of a printed body are parameters. \<open>Test_Mock_Laws\<close> counts what a seed adds to the stores and
  \<open>Mock_Properties\<close> states what a new mock holds and what it keeps and records along any traffic.
  \<open>Test_Scenario\<close> (\<open>scenario.go\<close>, \<open>jsonpath.go\<close>, \<open>eval.go\<close>, \<open>simulate.go\<close>, the records of \<open>report.go\<close>) is
  the simulator that replays a scenario against a target; the record \<open>target\<close> holds the template
  engine, the JSON decoder, one exchange and the end of the context. \<open>Test_Laws\<close> relates a run to
  the log of what was sent and answered, \<open>Test_Properties\<close> states what the verdict of a report means.
  \<open>Test_Catalog\<close> (\<open>scenario_catalog.go\<close>) has the fixed scenarios over a corpus of request bodies, a
  parameter; \<open>Catalog_Properties\<close> is a definite-assignment analysis of the variables of a scenario,
  its soundness for the simulator, and its result for the catalogue.

  \<^bold>\<open>Not modelled.\<close> Bytes of JSON and of HTTP messages, contexts and cancellation, logs, the panic
  recovery and the mutexes (their effect is the atomicity of the steps), the redirects and the
  pattern syntax of \<open>http.ServeMux\<close>, SHA-256 (a parameter), Unicode folding beyond ASCII, the
  HTTP client with its connections and TLS. The httptest glue of \<open>scimtest/server.go\<close>, the rendering
  of reports, the command line (\<open>cmd/scimkit\<close>), the code generator and the loader of test data
  (\<open>internal\<close>) drive the library and hold no logic of their own.
\<close>

end
